(* ===== verification/Prelude.thy ===== *)
theory Prelude
  imports Main "HOL-Library.Char_ord" "HOL-Library.List_Lexorder" "HOL-Library.Sublist" "HOL-Library.Code_Target_Nat"
begin

text \<open>
  Shared vocabulary of the development.  JavaScript strings are lists of code units (Isabelle
  characters, so the code units up to 0xFF); a thrown exception is a value of \<open>exn\<close>; a
  fallible pure function returns \<open>exn + 'a\<close>, and an asynchronous operation on a world of
  type \<open>'w\<close> is a function from the world to a result and the world it leaves behind.  The world
  survives a throw, which is what a crashed or failed call leaves in the database or on a chain.
\<close>

named_theorems res_simps \<open>evaluation of the result combinators\<close>
named_theorems io_simps \<open>evaluation of the effectful combinators\<close>
named_theorems io_intros \<open>introduction rules for triples over effectful code\<close>

section \<open>Exceptions and fallible results\<close>

text \<open>The error classes of the program, with the fields its handlers read.\<close>

datatype exn =
    Js_error string
  | Type_error string
  | Syntax_error string
  | Zod_error "string list"
  | Illegal_run_transition string
  | Run_revision_conflict int int
  | Quote_budget_exceeded string string
  | Egress_forbidden string
  | X402_negotiation string string
  | Payment_not_ready string
  | Receipt_not_yet_available string
  | Payment_order_expired string
  | Settlement_rejected "string list"
  | Run_not_ready_for_orchestration string
  | Procurement_denied "string list"
  | Payment_send_ambiguous string
  | Bridge_delivery_pending string
  | Cross_chain_settlement_ambiguous string
  | Orchestrator_pipeline string bool exn
  | Requirement_not_payable "string list"
  | Quote_target_not_onboarded string
  | Run_persistence_conflict string
  | Risk_classification_unavailable string
  | Onboarding_fetch string string
  | Configuration_error string "string list"
  | Settlement_error string string

type_synonym 'a res = "exn + 'a"

definition res_bind :: "'a res \<Rightarrow> ('a \<Rightarrow> 'b res) \<Rightarrow> 'b res" where
  "res_bind m f = (case m of Inl e \<Rightarrow> Inl e | Inr a \<Rightarrow> f a)"

definition ensure :: "bool \<Rightarrow> exn \<Rightarrow> unit res" where
  "ensure b e = (if b then Inr () else Inl e)"

definition res_ok :: "'a res \<Rightarrow> bool" where
  "res_ok m = (case m of Inl _ \<Rightarrow> False | Inr _ \<Rightarrow> True)"

lemma res_bind_simps [simp, res_simps]:
  "res_bind (Inl e) f = Inl e"
  "res_bind (Inr a) f = f a"
  by (simp_all add: res_bind_def)

lemma res_bind_Inr_iff [res_simps]:
  "res_bind m f = Inr b \<longleftrightarrow> (\<exists>a. m = Inr a \<and> f a = Inr b)"
  by (cases m) auto

lemma ensure_Inr_iff [simp, res_simps]: "ensure b e = Inr u \<longleftrightarrow> b"
  by (simp add: ensure_def)

lemma ensure_simps [simp, res_simps]:
  "ensure True e = Inr ()"
  "ensure False e = Inl e"
  by (simp_all add: ensure_def)

lemma res_ok_simps [simp, res_simps]:
  "res_ok (Inl e) = False"
  "res_ok (Inr a) = True"
  by (simp_all add: res_ok_def)

lemma res_ok_iff: "res_ok m \<longleftrightarrow> (\<exists>a. m = Inr a)"
  by (cases m) auto

lemma res_ok_bind: "res_ok (res_bind m f) \<longleftrightarrow> (\<exists>a. m = Inr a \<and> res_ok (f a))"
  by (cases m) simp_all

text \<open>A loop over an array whose body may throw stops at the first throw.\<close>

fun res_map :: "('a \<Rightarrow> 'b res) \<Rightarrow> 'a list \<Rightarrow> 'b list res" where
  "res_map f [] = Inr []"
| "res_map f (x # xs) = res_bind (f x) (\<lambda>y. res_bind (res_map f xs) (\<lambda>ys. Inr (y # ys)))"

fun res_fold :: "('s \<Rightarrow> 'a \<Rightarrow> 's res) \<Rightarrow> 's \<Rightarrow> 'a list \<Rightarrow> 's res" where
  "res_fold f s [] = Inr s"
| "res_fold f s (x # xs) = res_bind (f s x) (\<lambda>s'. res_fold f s' xs)"

lemma res_map_Inr_iff:
  "res_map f xs = Inr ys \<longleftrightarrow> list_all2 (\<lambda>x y. f x = Inr y) xs ys"
proof (induction xs arbitrary: ys)
  case Nil
  then show ?case by auto
next
  case (Cons x xs)
  then show ?case by (cases ys) (auto simp: res_bind_Inr_iff)
qed

lemma res_map_ok_iff: "res_ok (res_map f xs) \<longleftrightarrow> (\<forall>x \<in> set xs. res_ok (f x))"
proof (induction xs)
  case (Cons x xs)
  then show ?case by (cases "f x"; cases "res_map f xs") auto
qed simp

section \<open>Effects\<close>

type_synonym ('w, 'a) io = "'w \<Rightarrow> 'a res \<times> 'w"

definition io_ret :: "'a \<Rightarrow> ('w, 'a) io" where "io_ret a = (\<lambda>w. (Inr a, w))"

definition io_throw :: "exn \<Rightarrow> ('w, 'a) io" where "io_throw e = (\<lambda>w. (Inl e, w))"

definition io_bind :: "('w, 'a) io \<Rightarrow> ('a \<Rightarrow> ('w, 'b) io) \<Rightarrow> ('w, 'b) io" where
  "io_bind m f = (\<lambda>w. case m w of (Inl e, w') \<Rightarrow> (Inl e, w') | (Inr a, w') \<Rightarrow> f a w')"

definition io_then :: "('w, 'a) io \<Rightarrow> ('w, 'b) io \<Rightarrow> ('w, 'b) io" where
  "io_then m n = io_bind m (\<lambda>_. n)"

definition io_catch :: "('w, 'a) io \<Rightarrow> (exn \<Rightarrow> ('w, 'a) io) \<Rightarrow> ('w, 'a) io" where
  "io_catch m h = (\<lambda>w. case m w of (Inl e, w') \<Rightarrow> h e w' | (Inr a, w') \<Rightarrow> (Inr a, w'))"

definition io_lift :: "'a res \<Rightarrow> ('w, 'a) io" where "io_lift r = (\<lambda>w. (r, w))"

definition io_when :: "bool \<Rightarrow> ('w, unit) io \<Rightarrow> ('w, unit) io" where
  "io_when b m = (if b then m else io_ret ())"

definition io_get :: "('w \<Rightarrow> 'a) \<Rightarrow> ('w, 'a) io" where "io_get f = (\<lambda>w. (Inr (f w), w))"

definition io_modify :: "('w \<Rightarrow> 'w) \<Rightarrow> ('w, unit) io" where "io_modify f = (\<lambda>w. (Inr (), f w))"

fun io_mapM :: "('a \<Rightarrow> ('w, 'b) io) \<Rightarrow> 'a list \<Rightarrow> ('w, 'b list) io" where
  "io_mapM f [] = io_ret []"
| "io_mapM f (x # xs) = io_bind (f x) (\<lambda>y. io_bind (io_mapM f xs) (\<lambda>ys. io_ret (y # ys)))"

lemma io_ret_apply [simp, io_simps]: "io_ret a w = (Inr a, w)" by (simp add: io_ret_def)
lemma io_throw_apply [simp, io_simps]: "io_throw e w = (Inl e, w)" by (simp add: io_throw_def)
lemma io_lift_apply [simp, io_simps]: "io_lift r w = (r, w)" by (simp add: io_lift_def)
lemma io_get_apply [simp, io_simps]: "io_get f w = (Inr (f w), w)" by (simp add: io_get_def)
lemma io_modify_apply [simp, io_simps]: "io_modify f w = (Inr (), f w)" by (simp add: io_modify_def)

lemma io_bind_apply [io_simps]:
  "io_bind m f w = (case m w of (Inl e, w') \<Rightarrow> (Inl e, w') | (Inr a, w') \<Rightarrow> f a w')"
  by (simp add: io_bind_def)

lemma io_then_apply [io_simps]:
  "io_then m n w = (case m w of (Inl e, w') \<Rightarrow> (Inl e, w') | (Inr a, w') \<Rightarrow> n w')"
  by (simp add: io_then_def io_bind_def)

lemma io_catch_apply [io_simps]:
  "io_catch m h w = (case m w of (Inl e, w') \<Rightarrow> h e w' | (Inr a, w') \<Rightarrow> (Inr a, w'))"
  by (simp add: io_catch_def)

lemma io_when_simps [simp, io_simps]:
  "io_when True m = m"
  "io_when False m = io_ret ()"
  by (simp_all add: io_when_def)

subsection \<open>Triples\<close>

text \<open>
  \<open>io_triple P m Q E\<close>: from a world satisfying \<open>P\<close>, a normal return of \<open>m\<close>
  satisfies \<open>Q\<close> and a throw satisfies \<open>E\<close>.  Every operation here is a total function,
  so the triple speaks of a result that exists.
\<close>

definition io_triple ::
  "('w \<Rightarrow> bool) \<Rightarrow> ('w, 'a) io \<Rightarrow> ('a \<Rightarrow> 'w \<Rightarrow> bool) \<Rightarrow> (exn \<Rightarrow> 'w \<Rightarrow> bool) \<Rightarrow> bool" where
  "io_triple P m Q E \<longleftrightarrow>
    (\<forall>w. P w \<longrightarrow> (case m w of (Inr a, w') \<Rightarrow> Q a w' | (Inl e, w') \<Rightarrow> E e w'))"

definition io_keeps :: "('w \<Rightarrow> bool) \<Rightarrow> ('w, 'a) io \<Rightarrow> bool" where
  "io_keeps I m \<longleftrightarrow> io_triple I m (\<lambda>_. I) (\<lambda>_. I)"

lemma io_keepsI: "(\<And>w. I w \<Longrightarrow> I (snd (m w))) \<Longrightarrow> io_keeps I m"
  unfolding io_keeps_def io_triple_def
  by (auto split: prod.split sum.split) (metis snd_conv)+

lemma io_keepsD: "io_keeps I m \<Longrightarrow> I w \<Longrightarrow> I (snd (m w))"
  unfolding io_keeps_def io_triple_def
  by (cases "m w"; cases "fst (m w)") fastforce+

lemma io_keepsE: "io_keeps I m \<Longrightarrow> I w \<Longrightarrow> m w = (r, w') \<Longrightarrow> I w'"
  using io_keepsD [of I m w] by simp

lemma io_keeps_ret [io_intros]: "io_keeps I (io_ret a)" by (rule io_keepsI) simp
lemma io_keeps_throw [io_intros]: "io_keeps I (io_throw e)" by (rule io_keepsI) simp
lemma io_keeps_lift [io_intros]: "io_keeps I (io_lift r)" by (rule io_keepsI) simp
lemma io_keeps_get [io_intros]: "io_keeps I (io_get f)" by (rule io_keepsI) simp

lemma io_keeps_modify: "(\<And>w. I w \<Longrightarrow> I (f w)) \<Longrightarrow> io_keeps I (io_modify f)"
  by (rule io_keepsI) simp

lemma io_keeps_bind [io_intros]:
  assumes "io_keeps I m" and "\<And>a. io_keeps I (f a)"
  shows "io_keeps I (io_bind m f)"
proof (rule io_keepsI)
  fix w assume "I w"
  obtain r w' where m: "m w = (r, w')" by (cases "m w")
  with assms(1) \<open>I w\<close> have "I w'" by (auto dest: io_keepsE)
  then show "I (snd (io_bind m f w))"
    using assms(2) by (cases r) (auto simp: io_bind_apply m dest: io_keepsD)
qed

lemma io_keeps_then [io_intros]: "io_keeps I m \<Longrightarrow> io_keeps I n \<Longrightarrow> io_keeps I (io_then m n)"
  unfolding io_then_def by (intro io_intros)

lemma io_keeps_when [io_intros]: "io_keeps I m \<Longrightarrow> io_keeps I (io_when b m)"
  by (cases b) (auto intro: io_intros)

lemma io_keeps_catch [io_intros]:
  assumes "io_keeps I m" and "\<And>e. io_keeps I (h e)"
  shows "io_keeps I (io_catch m h)"
proof (rule io_keepsI)
  fix w assume "I w"
  obtain r w' where m: "m w = (r, w')" by (cases "m w")
  with assms(1) \<open>I w\<close> have "I w'" by (auto dest: io_keepsE)
  then show "I (snd (io_catch m h w))"
    using assms(2) by (cases r) (auto simp: io_catch_apply m dest: io_keepsD)
qed

lemma io_keeps_mapM [io_intros]: "(\<And>x. io_keeps I (f x)) \<Longrightarrow> io_keeps I (io_mapM f xs)"
  by (induction xs) (auto intro!: io_intros)

lemma io_keeps_if [io_intros]:
  "(b \<Longrightarrow> io_keeps I m) \<Longrightarrow> (\<not> b \<Longrightarrow> io_keeps I n) \<Longrightarrow> io_keeps I (if b then m else n)"
  by simp

lemma io_keeps_option [io_intros]:
  "(x = None \<Longrightarrow> io_keeps I m) \<Longrightarrow> (\<And>a. x = Some a \<Longrightarrow> io_keeps I (n a)) \<Longrightarrow>
   io_keeps I (case x of None \<Rightarrow> m | Some a \<Rightarrow> n a)"
  by (cases x) auto

lemma triple_bind:
  assumes "io_triple P m Q E" and "\<And>a. io_triple (Q a) (f a) R E"
  shows "io_triple P (io_bind m f) R E"
  using assms unfolding io_triple_def io_bind_apply
  by (fastforce split: prod.splits sum.splits)

lemma triple_then: "io_triple P m Q E \<Longrightarrow> (\<And>a. io_triple (Q a) n R E) \<Longrightarrow> io_triple P (io_then m n) R E"
  unfolding io_then_def by (rule triple_bind)

lemma triple_ret: "(\<And>w. P w \<Longrightarrow> Q a w) \<Longrightarrow> io_triple P (io_ret a) Q E"
  by (simp add: io_triple_def)

lemma triple_throw: "(\<And>w. P w \<Longrightarrow> E e w) \<Longrightarrow> io_triple P (io_throw e) Q E"
  by (simp add: io_triple_def)

lemma triple_lift: "(\<And>e w. r = Inl e \<Longrightarrow> P w \<Longrightarrow> E e w) \<Longrightarrow> io_triple P (io_lift r) (\<lambda>a w. P w \<and> r = Inr a) E"
  by (auto simp: io_triple_def split: sum.splits)

lemma triple_pre: "(\<And>w. P w \<Longrightarrow> P1 w) \<Longrightarrow> io_triple P1 m Q E \<Longrightarrow> io_triple P m Q E"
  by (simp add: io_triple_def)

lemma triple_given: "(A \<Longrightarrow> io_triple P m Q E) \<Longrightarrow> io_triple (\<lambda>w. P w \<and> A) m Q E"
  by (auto simp: io_triple_def)

lemma triple_if:
  "(b \<Longrightarrow> io_triple P m Q E) \<Longrightarrow> (\<not> b \<Longrightarrow> io_triple P n Q E) \<Longrightarrow> io_triple P (if b then m else n) Q E"
  by simp

lemma triple_post:
  assumes "io_triple P m Q1 E1" and "\<And>a w. Q1 a w \<Longrightarrow> Q a w" and "\<And>e w. E1 e w \<Longrightarrow> E e w"
  shows "io_triple P m Q E"
  using assms unfolding io_triple_def by (auto split: prod.splits sum.splits)

lemma tripleI:
  assumes "\<And>w a w1. P w \<Longrightarrow> m w = (Inr a, w1) \<Longrightarrow> Q a w1" and "\<And>w e w1. P w \<Longrightarrow> m w = (Inl e, w1) \<Longrightarrow> E e w1"
  shows "io_triple P m Q E"
  using assms by (auto simp: io_triple_def split: prod.splits sum.splits)

lemma tripleD:
  assumes "io_triple P m Q E" and "P w"
  shows "m w = (Inr a, w1) \<Longrightarrow> Q a w1" "m w = (Inl e, w1) \<Longrightarrow> E e w1"
  using assms by (auto simp: io_triple_def)

lemma triple_snd: "io_triple P m (\<lambda>_. Q) (\<lambda>_. Q) \<Longrightarrow> P w \<Longrightarrow> Q (snd (m w))"
  by (cases "m w"; cases "fst (m w)") (auto dest: tripleD)

lemma triple_each: "(\<And>x. io_triple (\<lambda>w. P w \<and> g w = x) m Q E) \<Longrightarrow> io_triple P m Q E"
  by (auto simp: io_triple_def)

lemma triple_assume: "(A \<Longrightarrow> io_triple (\<lambda>w. P w \<and> A) m Q E) \<Longrightarrow> io_triple (\<lambda>w. P w \<and> A) m Q E"
  by (auto simp: io_triple_def)

lemma triple_get: "io_triple P (io_get f) (\<lambda>a v. P v \<and> a = f v) E"
  by (simp add: io_triple_def)

lemma triple_get_const: "io_triple P (io_get f) (\<lambda>_. P) E"
  by (simp add: io_triple_def)

lemma triple_lift_const: "(\<And>e w. P w \<Longrightarrow> E e w) \<Longrightarrow> io_triple P (io_lift r) (\<lambda>_. P) E"
  by (auto simp: io_triple_def split: sum.splits)

lemma triple_bind_case2:
  "io_triple P m (\<lambda>_. Q) E \<Longrightarrow> (\<And>a b. io_triple Q (f a b) R E) \<Longrightarrow> io_triple P (io_bind m (\<lambda>(a, b). f a b)) R E"
  by (rule triple_bind) auto

lemma triple_bind_case3:
  "io_triple P m (\<lambda>_. Q) E \<Longrightarrow> (\<And>a b c. io_triple Q (f a b c) R E) \<Longrightarrow> io_triple P (io_bind m (\<lambda>(a, b, c). f a b c)) R E"
  by (rule triple_bind) auto

lemma triple_catch:
  assumes "io_triple P m Q E1" and "\<And>e. io_triple (E1 e) (h e) Q E"
  shows "io_triple P (io_catch m h) Q E"
  using assms unfolding io_triple_def io_catch_apply by (fastforce split: prod.splits sum.splits)

lemma triple_any: "io_triple P m (\<lambda>_ _. True) (\<lambda>_ _. True)"
  by (auto simp: io_triple_def split: prod.splits sum.splits)

text \<open>Successful runs.\<close>

lemma io_then_ok: "io_then m n w = (Inr b, w') \<longleftrightarrow> (\<exists>a w1. m w = (Inr a, w1) \<and> n w1 = (Inr b, w'))"
  by (auto simp: io_then_apply split: prod.splits sum.splits)

lemma io_bind_ok: "io_bind m f w = (Inr b, w') \<longleftrightarrow> (\<exists>a w1. m w = (Inr a, w1) \<and> f a w1 = (Inr b, w'))"
  by (auto simp: io_bind_apply split: prod.splits sum.splits)

lemmas io_ok = io_then_ok io_bind_ok

subsection \<open>A store inside a larger world\<close>

text \<open>A store and whatever else there is.\<close>

definition on_store :: "('s, 'a) io \<Rightarrow> ('s \<times> 'e, 'a) io" where
  "on_store m = (\<lambda>(s, e). case m s of (r, s') \<Rightarrow> (r, (s', e)))"

lemma on_store_ok: "on_store m (s, e) = (r, w1) \<longleftrightarrow> (\<exists>s1. m s = (r, s1) \<and> w1 = (s1, e))"
  by (cases "m s") (auto simp: on_store_def)

lemma on_store_ok_iff: "on_store m w = (r, w1) \<longleftrightarrow> (\<exists>s. m (fst w) = (r, s) \<and> w1 = (s, snd w))"
  by (cases w) (auto simp: on_store_ok)

lemma on_store_cong: "m (fst w) = m1 (fst w) \<Longrightarrow> on_store m w = on_store m1 w"
  by (cases w) (simp add: on_store_def)

subsection \<open>Calls within contract\<close>

text \<open>
  A port that refuses a call outside a contract.  An operation that runs the same with the refusing port and with
  the port itself makes only calls within the contract.
\<close>

definition only_if :: "('w \<Rightarrow> bool) \<Rightarrow> ('w, 'a) io \<Rightarrow> ('w, 'a) io" where
  "only_if G m = (\<lambda>w. if G w then m w else (Inl (Js_error ''call outside the contract''), w))"

lemma only_if_apply [simp]: "G w \<Longrightarrow> only_if G m w = m w"
  by (simp add: only_if_def)

lemma bind_cong: "m w = m1 w \<Longrightarrow> (\<And>a w1. m w = (Inr a, w1) \<Longrightarrow> f a w1 = f1 a w1) \<Longrightarrow> io_bind m f w = io_bind m1 f1 w"
  by (auto simp: io_bind_apply split: prod.splits sum.splits)

lemma then_cong: "m w = m1 w \<Longrightarrow> (\<And>a w1. m w = (Inr a, w1) \<Longrightarrow> n w1 = n1 w1) \<Longrightarrow> io_then m n w = io_then m1 n1 w"
  unfolding io_then_def by (rule bind_cong)

end
