(* ===== verification/Js_String.thy ===== *)
theory Js_String
  imports Prelude
begin

text \<open>
  The part of the JavaScript string and BigInt library the program uses: digits, decimal
  printing and \<open>BigInt(...)\<close>, trimming, ASCII/Latin-1 lower-casing, prefix, suffix and substring
  tests, splitting and joining, hexadecimal digits, and \<open>[...new Set(xs)]\<close>.
  Code units above 0xFF are outside the model.
\<close>

section \<open>Code units and decimals\<close>

definition code_unit :: "char \<Rightarrow> nat" where "code_unit c = of_char c"

definition is_digit :: "char \<Rightarrow> bool" where
  "is_digit c \<longleftrightarrow> 48 \<le> code_unit c \<and> code_unit c \<le> 57"

definition digit_value :: "char \<Rightarrow> nat" where "digit_value c = code_unit c - 48"

definition digit_char :: "nat \<Rightarrow> char" where "digit_char d = ''0123456789'' ! d"

definition dec_value :: "string \<Rightarrow> nat" where
  "dec_value s = foldl (\<lambda>a c. 10 * a + digit_value c) 0 s"

fun nat_to_string :: "nat \<Rightarrow> string" where
  "nat_to_string n =
    (if n < 10 then [digit_char n] else nat_to_string (n div 10) @ [digit_char (n mod 10)])"

declare nat_to_string.simps [simp del]

definition int_to_string :: "int \<Rightarrow> string" where
  "int_to_string i = (if i < 0 then CHR ''-'' # nat_to_string (nat (- i)) else nat_to_string (nat i))"

lemma nat_to_string_simps [simp]:
  "n < 10 \<Longrightarrow> nat_to_string n = [digit_char n]"
  "\<not> n < 10 \<Longrightarrow> nat_to_string n = nat_to_string (n div 10) @ [digit_char (n mod 10)]"
  by (subst nat_to_string.simps, simp)+

lemma less_ten_cases:
  assumes "(d::nat) < 10"
  shows "d = 0 \<or> d = 1 \<or> d = 2 \<or> d = 3 \<or> d = 4 \<or> d = 5 \<or> d = 6 \<or> d = 7 \<or> d = 8 \<or> d = 9"
  using assms by presburger

lemma digit_char_facts:
  assumes "d < 10"
  shows "is_digit (digit_char d)" and "digit_value (digit_char d) = d"
    and "digit_char d = CHR ''0'' \<longleftrightarrow> d = 0"
  using less_ten_cases [OF assms]
  by (auto simp: digit_char_def is_digit_def digit_value_def code_unit_def)

lemma dec_value_snoc [simp]: "dec_value (s @ [c]) = 10 * dec_value s + digit_value c"
  by (simp add: dec_value_def)

lemma dec_value_Nil [simp]: "dec_value [] = 0"
  by (simp add: dec_value_def)

lemma dec_value_nat_to_string [simp]: "dec_value (nat_to_string n) = n"
proof (induction n rule: nat_to_string.induct)
  case (1 n)
  show ?case
  proof (cases "n < 10")
    case True
    then show ?thesis by (simp add: dec_value_def digit_char_facts)
  next
    case False
    with 1 show ?thesis by (simp add: digit_char_facts)
  qed
qed

lemma nat_to_string_digits: "list_all is_digit (nat_to_string n)"
  by (induction n rule: nat_to_string.induct)
    (subst nat_to_string.simps, simp add: digit_char_facts)

lemma nat_to_string_nonempty [simp]: "nat_to_string n \<noteq> []"
  by (subst nat_to_string.simps) simp

lemma hd_nat_to_string: "hd (nat_to_string n) = CHR ''0'' \<longleftrightarrow> n = 0"
proof (induction n rule: nat_to_string.induct)
  case (1 n)
  show ?case
  proof (cases "n < 10")
    case True
    then show ?thesis by (simp add: digit_char_facts)
  next
    case False
    with 1 show ?thesis by (simp add: hd_append)
  qed
qed

lemma nat_to_string_inj [simp]: "nat_to_string m = nat_to_string n \<longleftrightarrow> m = n"
  using dec_value_nat_to_string by metis

subsection \<open>Unsigned atomic amounts: the regular expression \<open>^(0|[1-9]\d*)$\<close>\<close>

definition is_atomic :: "string \<Rightarrow> bool" where
  "is_atomic s \<longleftrightarrow>
    s = [CHR ''0''] \<or> (s \<noteq> [] \<and> hd s \<noteq> CHR ''0'' \<and> list_all is_digit s)"

lemma is_atomic_nat_to_string [simp]: "is_atomic (nat_to_string n)"
proof (cases "n = 0")
  case True
  then show ?thesis by (simp add: is_atomic_def digit_char_def)
next
  case False
  then show ?thesis by (simp add: is_atomic_def hd_nat_to_string nat_to_string_digits)
qed

lemma is_digit_char: "is_digit c \<Longrightarrow> digit_value c < 10 \<and> digit_char (digit_value c) = c"
proof -
  assume a: "is_digit c"
  define d where "d = (of_char c :: nat) - 48"
  from a have d: "of_char c = (48 + d :: nat)" "d < 10"
    by (auto simp: d_def is_digit_def code_unit_def)
  then have "digit_value c = d" by (simp add: digit_value_def code_unit_def)
  moreover have "of_char (digit_char d) = (48 + d :: nat)"
    using less_ten_cases [OF d(2)] by (auto simp: digit_char_def)
  then have "digit_char d = c" using d(1) by (metis of_char_eq_iff)
  ultimately show ?thesis using d(2) by simp
qed

lemma nat_to_string_dec_value:
  assumes "is_atomic s"
  shows "nat_to_string (dec_value s) = s"
  using assms
proof (induction s rule: rev_induct)
  case Nil
  then show ?case by (simp add: is_atomic_def)
next
  case (snoc c s)
  show ?case
  proof (cases "s = []")
    case True
    from snoc.prems have "is_digit c"
      by (auto simp: True is_atomic_def is_digit_def code_unit_def)
    then show ?thesis
      using is_digit_char [of c] by (simp add: True dec_value_def)
  next
    case False
    with snoc.prems have s: "is_atomic s" "is_digit c" "hd s \<noteq> CHR ''0''"
      by (auto simp: is_atomic_def)
    have "0 < dec_value s"
      using hd_nat_to_string [of "dec_value s"] snoc.IH [OF s(1)] s(3) by (metis neq0_conv)
    then show ?thesis
      using is_digit_char [OF s(2)] snoc.IH [OF s(1)] by simp
  qed
qed

subsection \<open>\<open>BigInt(s)\<close> on strings\<close>

definition is_js_space :: "char \<Rightarrow> bool" where
  "is_js_space c \<longleftrightarrow> (9 \<le> code_unit c \<and> code_unit c \<le> 13) \<or> code_unit c = 32 \<or> code_unit c = 160"

definition js_trim :: "string \<Rightarrow> string" where
  "js_trim s = rev (dropWhile is_js_space (rev (dropWhile is_js_space s)))"

definition is_hex_digit :: "char \<Rightarrow> bool" where
  "is_hex_digit c \<longleftrightarrow> is_digit c \<or> (97 \<le> code_unit c \<and> code_unit c \<le> 102)
    \<or> (65 \<le> code_unit c \<and> code_unit c \<le> 70)"

definition hex_digit_value :: "char \<Rightarrow> nat" where
  "hex_digit_value c =
    (if is_digit c then digit_value c else if 97 \<le> code_unit c then code_unit c - 87
     else code_unit c - 55)"

definition hex_value :: "string \<Rightarrow> nat" where
  "hex_value s = foldl (\<lambda>a c. 16 * a + hex_digit_value c) 0 s"

text \<open>
  \<open>BigInt(s)\<close>: surrounding white space is ignored, the empty string is 0, a decimal may
  carry a sign, \<open>0x\<close> introduces hexadecimal; anything else is a SyntaxError.  (The octal and
  binary prefixes are accepted by the language too; they are written out for completeness.)
\<close>

definition radix_digits :: "nat \<Rightarrow> string \<Rightarrow> bool" where
  "radix_digits r s \<longleftrightarrow> s \<noteq> [] \<and> list_all (\<lambda>c. is_hex_digit c \<and> hex_digit_value c < r) s"

definition radix_value :: "nat \<Rightarrow> string \<Rightarrow> nat" where
  "radix_value r s = foldl (\<lambda>a c. r * a + hex_digit_value c) 0 s"

definition radix_prefix :: "string \<Rightarrow> nat option" where
  "radix_prefix p =
    (if p = ''0x'' \<or> p = ''0X'' then Some 16
     else if p = ''0o'' \<or> p = ''0O'' then Some 8
     else if p = ''0b'' \<or> p = ''0B'' then Some 2 else None)"

definition js_bigint :: "string \<Rightarrow> int res" where
  "js_bigint s =
    (let t = js_trim s in
     if t = [] then Inr 0
     else case radix_prefix (take 2 t) of
       Some r \<Rightarrow>
         if radix_digits r (drop 2 t) then Inr (int (radix_value r (drop 2 t)))
         else Inl (Syntax_error ''Cannot convert to a BigInt'')
     | None \<Rightarrow>
         let neg = (hd t = CHR ''-'');
             body = (if hd t = CHR ''-'' \<or> hd t = CHR ''+'' then tl t else t)
         in if body \<noteq> [] \<and> list_all is_digit body
            then Inr (if neg then - int (dec_value body) else int (dec_value body))
            else Inl (Syntax_error ''Cannot convert to a BigInt''))"

lemma digit_not_space: "is_digit c \<Longrightarrow> \<not> is_js_space c"
  by (auto simp: is_digit_def is_js_space_def)

lemma digit_not_sign: "is_digit c \<Longrightarrow> c \<noteq> CHR ''-'' \<and> c \<noteq> CHR ''+''"
  by (auto simp: is_digit_def code_unit_def)

lemma dropWhile_none: "list_all (\<lambda>c. \<not> P c) s \<Longrightarrow> dropWhile P s = s"
  by (cases s) auto

lemma js_trim_nospace: "list_all (\<lambda>c. \<not> is_js_space c) s \<Longrightarrow> js_trim s = s"
  by (simp add: js_trim_def dropWhile_none)

lemma is_atomic_digits: "is_atomic s \<Longrightarrow> s \<noteq> [] \<and> list_all is_digit s"
  by (auto simp: is_atomic_def is_digit_def code_unit_def)

lemma radix_prefix_nondigit:
  assumes "list_all is_digit p"
  shows "radix_prefix p = None"
proof -
  have "\<not> list_all is_digit ''0x''" "\<not> list_all is_digit ''0X''" "\<not> list_all is_digit ''0o''"
    "\<not> list_all is_digit ''0O''" "\<not> list_all is_digit ''0b''" "\<not> list_all is_digit ''0B''"
    by (simp_all add: is_digit_def code_unit_def)
  with assms have "p \<noteq> ''0x'' \<and> p \<noteq> ''0X''" "p \<noteq> ''0o'' \<and> p \<noteq> ''0O''" "p \<noteq> ''0b'' \<and> p \<noteq> ''0B''"
    by metis+
  then show ?thesis by (simp only: radix_prefix_def if_False simp_thms)
qed

lemma radix_prefix_digits: "list_all is_digit s \<Longrightarrow> radix_prefix (take 2 s) = None"
  by (rule radix_prefix_nondigit) (auto simp: list_all_iff dest: in_set_takeD)

lemma js_bigint_atomic: "is_atomic s \<Longrightarrow> js_bigint s = Inr (int (dec_value s))"
proof -
  assume "is_atomic s"
  then have s: "s \<noteq> []" "list_all is_digit s" by (simp_all add: is_atomic_digits)
  then have "js_trim s = s"
    by (intro js_trim_nospace) (auto simp: list_all_iff digit_not_space)
  moreover have "is_digit (hd s)" using s by (cases s) simp_all
  then have "hd s \<noteq> CHR ''-''" "hd s \<noteq> CHR ''+''" using digit_not_sign by blast+
  ultimately show ?thesis
    using s by (simp add: js_bigint_def radix_prefix_digits Let_def)
qed

lemma js_bigint_nat_to_string [simp]: "js_bigint (nat_to_string n) = Inr (int n)"
  by (simp add: js_bigint_atomic)

section \<open>Case mapping\<close>

definition is_upper :: "char \<Rightarrow> bool" where
  "is_upper c \<longleftrightarrow> (65 \<le> code_unit c \<and> code_unit c \<le> 90)
    \<or> (192 \<le> code_unit c \<and> code_unit c \<le> 222 \<and> code_unit c \<noteq> 215)"

text \<open>Lower-casing a Latin-1 capital adds 32, that is, it sets bit 5.\<close>

definition set_bit5 :: "char \<Rightarrow> char" where
  "set_bit5 c = (case c of Char b0 b1 b2 b3 b4 b5 b6 b7 \<Rightarrow> Char b0 b1 b2 b3 b4 True b6 b7)"

definition lower_char :: "char \<Rightarrow> char" where
  "lower_char c = (if is_upper c then set_bit5 c else c)"

definition to_lower :: "string \<Rightarrow> string" where "to_lower s = map lower_char s"

definition is_lower :: "char \<Rightarrow> bool" where
  "is_lower c \<longleftrightarrow> (97 \<le> code_unit c \<and> code_unit c \<le> 122)"

text \<open>The class \<open>[A-Z]\<close> of a regular expression: ASCII capitals only.\<close>

definition is_capital :: "char \<Rightarrow> bool" where
  "is_capital c \<longleftrightarrow> (65 \<le> code_unit c \<and> code_unit c \<le> 90)"

definition clear_bit5 :: "char \<Rightarrow> char" where
  "clear_bit5 c = (case c of Char b0 b1 b2 b3 b4 b5 b6 b7 \<Rightarrow> Char b0 b1 b2 b3 b4 False b6 b7)"

text \<open>Upper-casing is used on HTTP methods and on the statuses of LayerZero Scan, compared with ASCII words without a double S;
  the ASCII letters are what it is modelled on.\<close>

definition to_upper :: "string \<Rightarrow> string" where
  "to_upper s = map (\<lambda>c. if is_lower c then clear_bit5 c else c) s"

lemma set_bit5_upper: "is_upper c \<Longrightarrow> code_unit (set_bit5 c) = code_unit c + 32"
  by (cases c) (auto simp: is_upper_def set_bit5_def code_unit_def of_bool_def split: if_splits)

lemma lower_char_not_upper: "\<not> is_upper (lower_char c)"
proof (cases "is_upper c")
  case True
  then show ?thesis using set_bit5_upper [OF True]
    by (auto simp: lower_char_def is_upper_def)
qed (simp add: lower_char_def)

lemma lower_char_idem [simp]: "lower_char (lower_char c) = lower_char c"
  using lower_char_not_upper [of c] by (simp add: lower_char_def)

lemma to_lower_idem [simp]: "to_lower (to_lower s) = to_lower s"
  by (simp add: to_lower_def)

lemma to_lower_Nil [simp]: "to_lower [] = []"
  by (simp add: to_lower_def)

lemma to_lower_eq_Nil [simp]: "to_lower s = [] \<longleftrightarrow> s = []"
  by (simp add: to_lower_def)

lemma to_lower_append [simp]: "to_lower (s @ t) = to_lower s @ to_lower t"
  by (simp add: to_lower_def)

lemma length_to_lower [simp]: "length (to_lower s) = length s"
  by (simp add: to_lower_def)

lemma lower_char_digit [simp]: "is_digit c \<Longrightarrow> lower_char c = c"
  by (auto simp: lower_char_def is_digit_def is_upper_def)

lemma to_lower_digits: "list_all is_digit s \<Longrightarrow> to_lower s = s"
  by (simp add: to_lower_def list_all_iff map_idI)

definition same_address :: "string \<Rightarrow> string \<Rightarrow> bool" where
  "same_address a b \<longleftrightarrow> to_lower a = to_lower b"

lemma same_address_equiv:
  "same_address a a"
  "same_address a b \<Longrightarrow> same_address b a"
  "same_address a b \<Longrightarrow> same_address b c \<Longrightarrow> same_address a c"
  by (simp_all add: same_address_def)

section \<open>Searching, splitting, joining\<close>

definition starts_with :: "string \<Rightarrow> string \<Rightarrow> bool" where "starts_with p s = prefix p s"

definition ends_with :: "string \<Rightarrow> string \<Rightarrow> bool" where "ends_with p s = suffix p s"

fun contains :: "string \<Rightarrow> string \<Rightarrow> bool" where
  "contains p [] = (p = [])"
| "contains p (c # s) = (prefix p (c # s) \<or> contains p s)"

lemma contains_sublist: "contains p s = sublist p s"
  by (induction s) (auto simp: sublist_Cons_right)

fun split_on_acc :: "char \<Rightarrow> string \<Rightarrow> string \<Rightarrow> string list" where
  "split_on_acc d acc [] = [rev acc]"
| "split_on_acc d acc (c # cs) =
    (if c = d then rev acc # split_on_acc d [] cs else split_on_acc d (c # acc) cs)"

definition split_on :: "char \<Rightarrow> string \<Rightarrow> string list" where "split_on d s = split_on_acc d [] s"

fun join_with :: "string \<Rightarrow> string list \<Rightarrow> string" where
  "join_with d [] = []"
| "join_with d [x] = x"
| "join_with d (x # y # ys) = x @ d @ join_with d (y # ys)"

lemma split_on_acc_nonempty [simp]: "split_on_acc d acc s \<noteq> []"
  by (induction s arbitrary: acc) auto

lemma join_split_acc: "join_with [d] (split_on_acc d acc s) = rev acc @ s"
proof (induction s arbitrary: acc)
  case (Cons c s)
  show ?case
  proof (cases "c = d")
    case True
    obtain x xs where x: "split_on_acc d [] s = x # xs" by (meson split_on_acc_nonempty neq_Nil_conv)
    with Cons.IH [of "[]"] show ?thesis by (simp add: True)
  qed (simp add: Cons.IH)
qed simp

lemma join_split [simp]: "join_with [d] (split_on d s) = s"
  by (simp add: split_on_def join_split_acc)

lemma split_on_acc_free: "d \<notin> set s \<Longrightarrow> split_on_acc d acc s = [rev acc @ s]"
  by (induction s arbitrary: acc) auto

lemma split_on_acc_append:
  "d \<notin> set s \<Longrightarrow> split_on_acc d acc (s @ d # t) = (rev acc @ s) # split_on_acc d [] t"
  by (induction s arbitrary: acc) auto

lemma split_on_free: "d \<notin> set s \<Longrightarrow> split_on d s = [s]"
  by (simp add: split_on_def split_on_acc_free)

lemma split_on_append: "d \<notin> set s \<Longrightarrow> split_on d (s @ d # t) = s # split_on d t"
  by (simp add: split_on_def split_on_acc_append)

lemma split_join:
  "xs \<noteq> [] \<Longrightarrow> \<forall>x \<in> set xs. d \<notin> set x \<Longrightarrow> split_on d (join_with [d] xs) = xs"
  by (induction "[d]" xs rule: join_with.induct) (simp_all add: split_on_free split_on_append)

section \<open>\<open>[...new Set(xs)]\<close>\<close>

definition js_unique :: "'a list \<Rightarrow> 'a list" where "js_unique xs = rev (remdups (rev xs))"

lemma set_js_unique [simp]: "set (js_unique xs) = set xs"
  by (simp add: js_unique_def)

lemma distinct_js_unique [simp]: "distinct (js_unique xs)"
  by (simp add: js_unique_def)

lemma js_unique_eq_Nil [simp]: "js_unique xs = [] \<longleftrightarrow> xs = []"
  by (metis set_js_unique set_empty)

lemma js_unique_distinct: "distinct xs \<Longrightarrow> js_unique xs = xs"
  by (simp add: js_unique_def distinct_remdups_id)

lemma js_unique_snoc: "js_unique (xs @ [x]) = (if x \<in> set xs then js_unique xs else js_unique xs @ [x])"
  by (simp add: js_unique_def)

lemma prefix_js_unique: "distinct xs \<Longrightarrow> prefix xs (js_unique (xs @ ys))"
proof (induction ys rule: rev_induct)
  case Nil
  then show ?case by (simp add: js_unique_distinct)
next
  case (snoc y ys)
  then have "prefix xs (js_unique (xs @ ys))" by simp
  then show ?case
    using js_unique_snoc [of "xs @ ys" y] by (auto intro: prefix_prefix)
qed

section \<open>Hexadecimal strings\<close>

definition is_hex_bytes :: "nat \<Rightarrow> string \<Rightarrow> bool" where
  "is_hex_bytes n s \<longleftrightarrow>
    take 2 s = ''0x'' \<and> length s = 2 + 2 * n \<and> list_all is_hex_digit (drop 2 s)"

text \<open>The bytes32 and address regular expressions of the schemas.\<close>

definition is_bytes32 :: "string \<Rightarrow> bool" where "is_bytes32 s = is_hex_bytes 32 s"
definition is_address :: "string \<Rightarrow> bool" where "is_address s = is_hex_bytes 20 s"

section \<open>Parts joined by a colon\<close>

lemma nat_to_string_no_sign: "CHR ''-'' \<notin> set (nat_to_string n)" "CHR '':'' \<notin> set (nat_to_string n)"
  using nat_to_string_digits [of n] by (auto simp: list_all_iff is_digit_def code_unit_def)

lemma int_to_string_inj [simp]: "int_to_string i = int_to_string j \<longleftrightarrow> i = j"
proof -
  have "nat_to_string m \<noteq> CHR ''-'' # s" "CHR ''-'' # s \<noteq> nat_to_string m" for m s
    using nat_to_string_no_sign(1) [of m] by (metis list.set_intros(1))+
  then show ?thesis by (auto simp: int_to_string_def)
qed

lemma int_to_string_colon_free [simp]: "CHR '':'' \<notin> set (int_to_string i)"
  by (simp add: int_to_string_def nat_to_string_no_sign)

lemma lower_char_colon: "lower_char c = CHR '':'' \<longleftrightarrow> c = CHR '':''"
proof (cases "is_upper c")
  case True
  then have "97 \<le> code_unit (lower_char c)" "c \<noteq> CHR '':''"
    using set_bit5_upper [OF True] by (auto simp: lower_char_def is_upper_def code_unit_def)
  then show ?thesis by (auto simp: code_unit_def)
qed (simp add: lower_char_def)

lemma hex_bytes_colon_free: "is_hex_bytes n h \<Longrightarrow> CHR '':'' \<notin> set (to_lower h)"
proof
  assume h: "is_hex_bytes n h" and "CHR '':'' \<in> set (to_lower h)"
  then have "CHR '':'' \<in> set h" by (auto simp: to_lower_def) (metis lower_char_colon)
  moreover have "set h = set (take 2 h) \<union> set (drop 2 h)" by (metis append_take_drop_id set_append)
  moreover have "CHR '':'' \<notin> set (take 2 h)" using h by (simp add: is_hex_bytes_def)
  ultimately have "CHR '':'' \<in> set (drop 2 h)" by blast
  then have "is_hex_digit (CHR '':'')" using h by (auto simp: is_hex_bytes_def list_all_iff)
  then show False by (simp add: is_hex_digit_def is_digit_def code_unit_def)
qed

lemma colon_free_parts:
  assumes "a @ CHR '':'' # s = b @ CHR '':'' # t" and "CHR '':'' \<notin> set a" and "CHR '':'' \<notin> set b"
  shows "a = b \<and> s = t"
  using assms
proof (induction a arbitrary: b)
  case Nil
  then show ?case by (cases b) auto
next
  case (Cons x a)
  then show ?case by (cases b) auto
qed

section \<open>Truthiness\<close>

text \<open>An optional string is falsy when it is absent or empty.\<close>

definition truthy :: "string option \<Rightarrow> bool" where
  "truthy x = (case x of None \<Rightarrow> False | Some s \<Rightarrow> s \<noteq> [])"

definition keep_truthy :: "string option \<Rightarrow> string option" where
  "keep_truthy x = (if truthy x then x else None)"

lemma truthy_simps [simp]:
  "truthy None = False"
  "truthy (Some s) = (s \<noteq> [])"
  by (simp_all add: truthy_def)

end
