(* ===== verification/Hosts.thy ===== *)
theory Hosts
  imports Js_String
begin

text \<open>
  Host names and addresses (\<open>packages/policy-engine/src/mandate.ts\<close>): \<open>canonicalizeHost\<close>,
  \<open>isForbiddenHost\<close> with the unwrapping of IPv4-mapped addresses, and Node's \<open>isIP\<close>, which they rest on.
\<close>

section \<open>Node's \<open>isIP\<close>\<close>

text \<open>A dotted quad: four decimal octets without leading zeros.\<close>

definition is_v4_octet :: "string \<Rightarrow> bool" where
  "is_v4_octet p \<longleftrightarrow> is_atomic p \<and> dec_value p \<le> 255"

definition is_ipv4 :: "string \<Rightarrow> bool" where
  "is_ipv4 s \<longleftrightarrow> length (split_on (CHR ''.'') s) = 4 \<and> list_all is_v4_octet (split_on (CHR ''.'') s)"

definition is_v6_seg :: "string \<Rightarrow> bool" where
  "is_v6_seg p \<longleftrightarrow> 1 \<le> length p \<and> length p \<le> 4 \<and> list_all is_hex_digit p"

text \<open>The text before and after the first \<open>::\<close>.\<close>

fun split_dcolon :: "string \<Rightarrow> (string \<times> string) option" where
  "split_dcolon [] = None"
| "split_dcolon [c] = None"
| "split_dcolon (c # d # s) =
    (if c = CHR '':'' \<and> d = CHR '':'' then Some ([], s)
     else map_option (\<lambda>(l, r). (c # l, r)) (split_dcolon (d # s)))"

definition v6_groups :: "string \<Rightarrow> string list" where
  "v6_groups s = (if s = [] then [] else split_on (CHR '':'') s)"

text \<open>The number of 16-bit groups a list spells when its last group may be a dotted quad.\<close>

definition v6_width :: "string list \<Rightarrow> nat option" where
  "v6_width gs =
    (if list_all is_v6_seg gs then Some (length gs)
     else if gs \<noteq> [] \<and> list_all is_v6_seg (butlast gs) \<and> is_ipv4 (last gs) then Some (length gs + 1)
     else None)"

definition is_ipv6_body :: "string \<Rightarrow> bool" where
  "is_ipv6_body s =
    (case split_dcolon s of
       None \<Rightarrow> v6_width (v6_groups s) = Some 8
     | Some (l, r) \<Rightarrow> list_all is_v6_seg (v6_groups l)
         \<and> (case v6_width (v6_groups r) of None \<Rightarrow> False | Some n \<Rightarrow> length (v6_groups l) + n \<le> 7))"

definition is_zone_char :: "char \<Rightarrow> bool" where
  "is_zone_char c \<longleftrightarrow> is_digit c \<or> is_lower c \<or> is_lower (lower_char c)
     \<or> c = CHR ''-'' \<or> c = CHR ''.'' \<or> c = CHR '':''"

definition is_ipv6 :: "string \<Rightarrow> bool" where
  "is_ipv6 s =
    (let body = takeWhile (\<lambda>c. c \<noteq> CHR ''%'') s; zone = dropWhile (\<lambda>c. c \<noteq> CHR ''%'') s
     in is_ipv6_body body
        \<and> (zone = [] \<or> (tl zone \<noteq> [] \<and> list_all is_zone_char (tl zone))))"

definition isIP :: "string \<Rightarrow> nat" where
  "isIP s = (if is_ipv4 s then 4 else if is_ipv6 s then 6 else 0)"

section \<open>The program's functions\<close>

definition strip_dot :: "string \<Rightarrow> string" where
  "strip_dot s = (if s \<noteq> [] \<and> last s = CHR ''.'' then butlast s else s)"

definition canonical_form :: "string \<Rightarrow> string" where
  "canonical_form input = strip_dot (to_lower (js_trim input))"

definition canonicalizeHost :: "string \<Rightarrow> string res" where
  "canonicalizeHost input =
    (let value = canonical_form input in
     if value = [] \<or> CHR ''/'' \<in> set value \<or> CHR ''@'' \<in> set value \<or> CHR '':'' \<in> set value
     then Inl (Js_error ''allowedHosts entries must be bare DNS hostnames'')
     else Inr value)"

text \<open>\<open>Number\<close> on the digit strings that reach it; a missing octet counts as 0.\<close>

definition ip_octet :: "string \<Rightarrow> nat \<Rightarrow> nat" where
  "ip_octet ip i =
    (let octets = map dec_value (split_on (CHR ''.'') ip)
     in if i < length octets then octets ! i else 0)"

definition isForbiddenIpv4 :: "string \<Rightarrow> bool" where
  "isForbiddenIpv4 ip =
    (let first = ip_octet ip 0; second = ip_octet ip 1
     in first = 0 \<or> first = 10 \<or> first = 127 \<or> (first = 169 \<and> second = 254)
        \<or> (first = 172 \<and> 16 \<le> second \<and> second \<le> 31) \<or> (first = 192 \<and> second = 168)
        \<or> 224 \<le> first)"

text \<open>\<open>\d{1,3}\.\d{1,3}\.\d{1,3}\.\d{1,3}\<close>\<close>

definition dotted_shape :: "string \<Rightarrow> bool" where
  "dotted_shape s \<longleftrightarrow> length (split_on (CHR ''.'') s) = 4
     \<and> list_all (\<lambda>p. 1 \<le> length p \<and> length p \<le> 3 \<and> list_all is_digit p) (split_on (CHR ''.'') s)"

definition extractIpv4MappedAddress :: "string \<Rightarrow> string option" where
  "extractIpv4MappedAddress s =
    (let rest = drop 2 s; inner = drop 5 rest; mapped = (to_lower (take 5 rest) = ''ffff:'') in
     if take 2 s \<noteq> ''::'' then None
     else if mapped \<and> dotted_shape inner then Some inner
     else if dotted_shape rest then Some rest
     else if mapped then
       (case split_on (CHR '':'') inner of
          [h, l] \<Rightarrow>
            if is_v6_seg h \<and> is_v6_seg l
            then (let high = hex_value h; low = hex_value l in
              Some (nat_to_string (high div 256 mod 256) @ ''.'' @ nat_to_string (high mod 256) @ ''.''
                 @ nat_to_string (low div 256 mod 256) @ ''.'' @ nat_to_string (low mod 256)))
            else None
        | _ \<Rightarrow> None)
     else None)"

definition isForbiddenHost :: "string \<Rightarrow> bool" where
  "isForbiddenHost host =
    (let canonical = canonical_form host; ipVersion = isIP canonical in
     if canonical = ''localhost'' \<or> ends_with ''.localhost'' canonical
        \<or> canonical = ''metadata.google.internal'' \<or> canonical = ''169.254.169.254''
     then True
     else if ipVersion = 4 then isForbiddenIpv4 canonical
     else if ipVersion = 6 then
       (if canonical = ''::1'' \<or> canonical = ''::'' \<or> starts_with ''fc'' canonical
           \<or> starts_with ''fd'' canonical \<or> starts_with ''fe80:'' canonical
        then True
        else case extractIpv4MappedAddress canonical of
          Some mappedIpv4 \<Rightarrow> isForbiddenIpv4 mappedIpv4 | None \<Rightarrow> False)
     else False)"

section \<open>Facts\<close>

lemma canonicalizeHost_Inr:
  "canonicalizeHost h = Inr c \<longleftrightarrow>
     c = canonical_form h \<and> c \<noteq> [] \<and> CHR ''/'' \<notin> set c \<and> CHR ''@'' \<notin> set c \<and> CHR '':'' \<notin> set c"
  by (auto simp: canonicalizeHost_def Let_def)

text \<open>A dotted quad as the library prints it.\<close>

definition quad :: "nat \<Rightarrow> nat \<Rightarrow> nat \<Rightarrow> nat \<Rightarrow> string" where
  "quad a b c d = join_with ''.'' [nat_to_string a, nat_to_string b, nat_to_string c, nat_to_string d]"

definition forbidden_octets :: "nat \<Rightarrow> nat \<Rightarrow> bool" where
  "forbidden_octets a b \<longleftrightarrow> a \<in> {0, 10, 127} \<or> (a = 169 \<and> b = 254)
     \<or> (a = 172 \<and> 16 \<le> b \<and> b \<le> 31) \<or> (a = 192 \<and> b = 168) \<or> 224 \<le> a"

definition plain_char :: "char \<Rightarrow> bool" where
  "plain_char c \<longleftrightarrow> \<not> is_js_space c \<and> \<not> is_upper c"

lemma plain_digit: "is_digit c \<Longrightarrow> plain_char c"
  by (auto simp: plain_char_def is_digit_def is_js_space_def is_upper_def)

lemma canonical_form_plain:
  assumes "list_all plain_char s" and "s = [] \<or> last s \<noteq> CHR ''.''"
  shows "canonical_form s = s"
proof -
  have "js_trim s = s" using assms(1) by (intro js_trim_nospace) (simp add: list_all_iff plain_char_def)
  moreover have "to_lower s = s"
    using assms(1) by (simp add: to_lower_def list_all_iff plain_char_def lower_char_def map_idI)
  ultimately show ?thesis using assms(2) by (auto simp: canonical_form_def strip_dot_def)
qed

lemma digit_not_punct: "is_digit c \<Longrightarrow> c \<noteq> CHR ''.'' \<and> c \<noteq> CHR '':'' \<and> c \<noteq> CHR ''%''"
  by (auto simp: is_digit_def code_unit_def)

lemma nat_to_string_no_punct [simp]:
  "CHR ''.'' \<notin> set (nat_to_string n)" "CHR '':'' \<notin> set (nat_to_string n)"
  "CHR ''%'' \<notin> set (nat_to_string n)"
  using nat_to_string_digits [of n] digit_not_punct by (auto simp: list_all_iff)

lemma split_quad [simp]: "split_on (CHR ''.'') (quad a b c d)
    = [nat_to_string a, nat_to_string b, nat_to_string c, nat_to_string d]"
  unfolding quad_def by (rule split_join) simp_all

lemma quad_chars: "x \<in> set (quad a b c d) \<Longrightarrow> is_digit x \<or> x = CHR ''.''"
  using nat_to_string_digits by (auto simp: quad_def list_all_iff)

lemma quad_nonempty [simp]: "quad a b c d \<noteq> []"
  by (simp add: quad_def)

lemma last_quad: "is_digit (last (quad a b c d))"
proof -
  have "last (quad a b c d) = last (nat_to_string d)" by (simp add: quad_def)
  then show ?thesis using nat_to_string_digits [of d] by (simp add: list_all_iff)
qed

lemma hd_quad: "is_digit (hd (quad a b c d))"
proof -
  have "hd (quad a b c d) = hd (nat_to_string a)" by (simp add: quad_def hd_append)
  then show ?thesis using nat_to_string_digits [of a] by (simp add: list_all_iff)
qed

lemma canonical_quad: "canonical_form (p @ quad a b c d) = p @ quad a b c d" if "list_all plain_char p"
proof (rule canonical_form_plain)
  have "plain_char (CHR ''.'')" by (simp add: plain_char_def is_js_space_def is_upper_def code_unit_def)
  then show "list_all plain_char (p @ quad a b c d)"
    using that by (auto simp: list_all_iff dest!: quad_chars intro: plain_digit)
  show "p @ quad a b c d = [] \<or> last (p @ quad a b c d) \<noteq> CHR ''.''"
    using last_quad [of a b c d] digit_not_punct by auto
qed

lemma is_ipv4_quad:
  "a < 256 \<Longrightarrow> b < 256 \<Longrightarrow> c < 256 \<Longrightarrow> d < 256 \<Longrightarrow> is_ipv4 (quad a b c d)"
  by (simp add: is_ipv4_def is_v4_octet_def)

lemma ip_octet_quad [simp]: "ip_octet (quad a b c d) 0 = a" "ip_octet (quad a b c d) (Suc 0) = b"
  by (simp_all add: ip_octet_def Let_def)

lemma isForbiddenIpv4_quad [simp]: "isForbiddenIpv4 (quad a b c d) = forbidden_octets a b"
  by (simp add: isForbiddenIpv4_def forbidden_octets_def Let_def)

lemma quad_not_name: "last s = CHR ''t'' \<or> last s = CHR ''l'' \<Longrightarrow> s \<noteq> quad a b c d"
  using last_quad [of a b c d] by (auto simp: is_digit_def code_unit_def)

lemma not_localhost_suffix:
  assumes "is_digit (last s)"
  shows "s \<noteq> ''localhost'' \<and> \<not> ends_with ''.localhost'' s \<and> s \<noteq> ''metadata.google.internal''"
proof -
  have "\<not> is_digit (CHR ''t'')" "\<not> is_digit (CHR ''l'')" by (simp_all add: is_digit_def code_unit_def)
  moreover have "last s = CHR ''t''" if "ends_with ''.localhost'' s"
    using that by (auto simp: ends_with_def suffix_def)
  ultimately show ?thesis using assms by auto
qed

lemma split_dcolon_mapped: "split_dcolon (''::'' @ s) = Some ([], s)"
  by simp

lemma takeWhile_none: "x \<notin> set s \<Longrightarrow> takeWhile (\<lambda>c. c \<noteq> x) s = s \<and> dropWhile (\<lambda>c. c \<noteq> x) s = []"
  by (auto intro: takeWhile_eq_all_conv [THEN iffD2])

lemma is_v6_seg_ffff: "is_v6_seg ''ffff''"
  by (simp add: is_v6_seg_def is_hex_digit_def is_digit_def code_unit_def)

lemma quad_not_colon: "CHR '':'' \<notin> set (quad a b c d)" "CHR ''%'' \<notin> set (quad a b c d)"
  using quad_chars digit_not_punct by fastforce+

lemma split_on_acc_hd: "prefix (rev acc) (hd (split_on_acc d acc t))"
proof (induction t arbitrary: acc)
  case (Cons x t)
  have "prefix (rev acc) (rev (x # acc))" by simp
  then show ?case using Cons.IH [of "x # acc"] by (simp del: rev.simps) (meson prefix_order.trans)
qed simp

lemma mapped_not_ipv4: "\<not> is_ipv4 (CHR '':'' # t)"
proof
  assume v4: "is_ipv4 (CHR '':'' # t)"
  have "prefix [CHR '':''] (hd (split_on (CHR ''.'') (CHR '':'' # t)))"
    using split_on_acc_hd [of "[CHR '':'']"] by (simp add: split_on_def)
  moreover have "list_all is_digit (hd (split_on (CHR ''.'') (CHR '':'' # t)))"
    using v4 by (cases "split_on (CHR ''.'') (CHR '':'' # t)")
      (auto simp: is_ipv4_def is_v4_octet_def dest: is_atomic_digits)
  ultimately have "is_digit (CHR '':'')" by (auto simp: prefix_def)
  then show False using digit_not_punct by blast
qed

lemma is_ipv6_mapped:
  assumes "a < 256" "b < 256" "c < 256" "d < 256"
  shows "is_ipv6 (''::ffff:'' @ quad a b c d)"
proof -
  let ?s = "''::ffff:'' @ quad a b c d"
  have "CHR ''%'' \<notin> set ?s" using quad_not_colon by simp
  note tw = takeWhile_none [OF this, THEN conjunct1] takeWhile_none [OF this, THEN conjunct2]
  have "split_on (CHR '':'') (''ffff'' @ CHR '':'' # quad a b c d) = [''ffff'', quad a b c d]"
    using quad_not_colon(1) by (subst split_on_append) (simp_all add: split_on_free)
  then have g: "v6_groups (''ffff:'' @ quad a b c d) = [''ffff'', quad a b c d]"
    by (simp add: v6_groups_def)
  have w: "v6_width [''ffff'', quad a b c d] = Some 3 \<or> v6_width [''ffff'', quad a b c d] = Some 2"
    using is_ipv4_quad [OF assms] is_v6_seg_ffff by (simp add: v6_width_def)
  have "split_dcolon ?s = Some ([], ''ffff:'' @ quad a b c d)" by simp
  with w g have "is_ipv6_body ?s" by (auto simp: is_ipv6_body_def v6_groups_def [of "[]"])
  then show ?thesis unfolding is_ipv6_def tw Let_def by simp
qed

lemma dotted_shape_quad:
  assumes "a < 256" "b < 256" "c < 256" "d < 256"
  shows "dotted_shape (quad a b c d)"
proof -
  have len: "length (nat_to_string n) \<le> 3" if "n < 256" for n :: nat
    using that by (subst nat_to_string.simps, subst nat_to_string.simps, subst nat_to_string.simps) simp
  have "1 \<le> length (nat_to_string n)" for n by (metis One_nat_def Suc_leI length_greater_0_conv nat_to_string_nonempty)
  then show ?thesis using assms len by (simp add: dotted_shape_def nat_to_string_digits)
qed

lemma mapped_quad_extract:
  assumes "a < 256" "b < 256" "c < 256" "d < 256"
  shows "extractIpv4MappedAddress (''::ffff:'' @ quad a b c d) = Some (quad a b c d)"
proof -
  have "to_lower ''ffff:'' = ''ffff:''" by (simp add: to_lower_def lower_char_def is_upper_def code_unit_def)
  then show ?thesis using dotted_shape_quad [OF assms] by (simp add: extractIpv4MappedAddress_def)
qed

text \<open>
  A dotted-quad address is forbidden exactly when it lies in 0.0.0.0/8, 10.0.0.0/8, 127.0.0.0/8,
  169.254.0.0/16, 172.16.0.0/12, 192.168.0.0/16 or from 224.0.0.0 up, and wrapping it as an
  IPv4-mapped IPv6 address does not change the verdict.
\<close>

theorem isForbiddenHost_ipv4:
  assumes "a < 256" and "b < 256" and "c < 256" and "d < 256"
  shows "isForbiddenHost (quad a b c d) = forbidden_octets a b
    \<and> isForbiddenHost (''::ffff:'' @ quad a b c d) = forbidden_octets a b"
proof
  have l: "is_digit (last (quad a b c d))" "is_digit (last (''::ffff:'' @ quad a b c d))"
    using last_quad by simp_all
  have meta: "quad a b c d = ''169.254.169.254'' \<Longrightarrow> forbidden_octets a b"
  proof -
    assume q: "quad a b c d = ''169.254.169.254''"
    have "''169.254.169.254'' = quad 169 254 169 254" by (simp add: quad_def digit_char_def)
    then have "a = 169" "b = 254" using q ip_octet_quad by metis+
    then show ?thesis by (simp add: forbidden_octets_def)
  qed
  have ip4: "isIP (quad a b c d) = 4" using is_ipv4_quad [OF assms] by (simp add: isIP_def)
  show "isForbiddenHost (quad a b c d) = forbidden_octets a b"
    using not_localhost_suffix [OF l(1)] canonical_quad [of "[]" a b c d] ip4 meta
    by (auto simp: isForbiddenHost_def Let_def)
  let ?m = "''::ffff:'' @ quad a b c d"
  have can: "canonical_form ?m = ?m"
    by (rule canonical_quad) (simp add: plain_char_def is_js_space_def is_upper_def code_unit_def)
  have "\<not> is_ipv4 ?m" using mapped_not_ipv4 by simp
  then have ip6: "isIP ?m = 6" using is_ipv6_mapped [OF assms] by (simp add: isIP_def)
  have "?m \<noteq> ''::1'' \<and> ?m \<noteq> ''::'' \<and> \<not> starts_with ''fc'' ?m \<and> \<not> starts_with ''fd'' ?m
      \<and> \<not> starts_with ''fe80:'' ?m \<and> ?m \<noteq> ''169.254.169.254''"
    by (simp add: starts_with_def)
  then show "isForbiddenHost ?m = forbidden_octets a b"
    using not_localhost_suffix [OF l(2)] mapped_quad_extract [OF assms]
    unfolding isForbiddenHost_def can ip6 Let_def by simp
qed

theorem isForbiddenHost_ipv4_witness:
  "isForbiddenHost (quad 192 168 1 1) \<and> \<not> isForbiddenHost (''::ffff:'' @ quad 8 8 8 8)"
  using isForbiddenHost_ipv4 [of 192 168 1 1] isForbiddenHost_ipv4 [of 8 8 8 8]
  by (simp add: forbidden_octets_def)

text \<open>
  The hexadecimal spelling of the IPv4-compatible loopback address, which is how a URL prints
  \<open>::127.0.0.1\<close>, is let through, and so are the link-local addresses above \<open>fe80::/16\<close>.
\<close>

lemma compatible_hex_not_forbidden:
  "isForbiddenHost ''::127.0.0.1'' \<and> isIP ''::7f00:1'' = 6 \<and> \<not> isForbiddenHost ''::7f00:1''"
  by code_simp

lemma link_local_not_forbidden: "isIP ''fe90::1'' = 6 \<and> \<not> isForbiddenHost ''fe90::1''"
  by code_simp

end
