(* ===== verification/Money.thy ===== *)
theory Money
  imports Js_String "HOL-Library.Multiset"
begin

text \<open>
  Atomic amounts, assets and the economic ledger of a run
  (\<open>packages/run-domain/src/money.ts\<close> and \<open>economic-ledger.ts\<close>).  An atomic amount is a
  decimal string; arithmetic is on unbounded integers, as with the code's BigInt.
\<close>

section \<open>Assets and money\<close>

record asset_id =
  asset_chainId :: int
  asset_tokenAddress :: string
  asset_decimals :: int

record money =
  money_asset :: asset_id
  money_atomicAmount :: string

definition parseAtomicAmount :: "string \<Rightarrow> int res" where
  "parseAtomicAmount value =
    (if is_atomic value then Inr (int (dec_value value))
     else Inl (Js_error ''Atomic amount must be an unsigned base-10 integer string''))"

definition same_asset :: "asset_id \<Rightarrow> asset_id \<Rightarrow> bool" where
  "same_asset left right \<longleftrightarrow>
    asset_chainId left = asset_chainId right
    \<and> same_address (asset_tokenAddress left) (asset_tokenAddress right)
    \<and> asset_decimals left = asset_decimals right"

definition assertSameAsset :: "asset_id \<Rightarrow> asset_id \<Rightarrow> unit res" where
  "assertSameAsset left right =
    (if asset_chainId left \<noteq> asset_chainId right
        \<or> to_lower (asset_tokenAddress left) \<noteq> to_lower (asset_tokenAddress right)
        \<or> asset_decimals left \<noteq> asset_decimals right
     then Inl (Js_error ''Cannot aggregate amounts from different assets'') else Inr ())"

definition addMoney :: "money \<Rightarrow> money \<Rightarrow> money res" where
  "addMoney left right =
    res_bind (assertSameAsset (money_asset left) (money_asset right)) (\<lambda>_.
    res_bind (parseAtomicAmount (money_atomicAmount left)) (\<lambda>a.
    res_bind (parseAtomicAmount (money_atomicAmount right)) (\<lambda>b.
      Inr \<lparr>money_asset = money_asset left, money_atomicAmount = int_to_string (a + b)\<rparr>)))"

lemma parseAtomicAmount_ok [simp]: "res_ok (parseAtomicAmount s) = is_atomic s"
  by (simp add: parseAtomicAmount_def)

lemma parseAtomicAmount_Inr_iff:
  "parseAtomicAmount s = Inr v \<longleftrightarrow> is_atomic s \<and> v = int (dec_value s)"
  by (auto simp: parseAtomicAmount_def)

lemma parseAtomicAmount_nonneg: "parseAtomicAmount s = Inr v \<Longrightarrow> 0 \<le> v"
  by (simp add: parseAtomicAmount_Inr_iff)

lemma parseAtomicAmount_print [simp]: "parseAtomicAmount (nat_to_string n) = Inr (int n)"
  by (simp add: parseAtomicAmount_def)

lemma int_to_string_nonneg: "0 \<le> v \<Longrightarrow> int_to_string v = nat_to_string (nat v)"
  by (simp add: int_to_string_def)

lemma parseAtomicAmount_int_to_string: "0 \<le> v \<Longrightarrow> parseAtomicAmount (int_to_string v) = Inr v"
  by (simp add: int_to_string_nonneg)

lemma print_parseAtomicAmount: "parseAtomicAmount s = Inr v \<Longrightarrow> int_to_string v = s"
  by (auto simp: parseAtomicAmount_Inr_iff int_to_string_def nat_to_string_dec_value)

lemma assertSameAsset_iff: "assertSameAsset l r = Inr () \<longleftrightarrow> same_asset l r"
  by (auto simp: assertSameAsset_def same_asset_def same_address_def)

lemma assertSameAsset_ok [simp]: "res_ok (assertSameAsset l r) = same_asset l r"
  by (auto simp: assertSameAsset_def same_asset_def same_address_def)

text \<open>
  Addition of money is exact on amounts of one asset, keeps the asset of the left operand, and
  is refused exactly when the assets differ or an amount is not a canonical atomic amount.
\<close>

theorem addMoney_spec:
  "(case addMoney l r of
      Inr m \<Rightarrow> same_asset (money_asset l) (money_asset r) \<and> money_asset m = money_asset l
        \<and> is_atomic (money_atomicAmount m)
        \<and> dec_value (money_atomicAmount m)
            = dec_value (money_atomicAmount l) + dec_value (money_atomicAmount r)
    | Inl _ \<Rightarrow> \<not> (same_asset (money_asset l) (money_asset r)
        \<and> is_atomic (money_atomicAmount l) \<and> is_atomic (money_atomicAmount r)))"
  using assertSameAsset_iff [of "money_asset l" "money_asset r"]
  by (cases "assertSameAsset (money_asset l) (money_asset r)")
    (auto simp: addMoney_def parseAtomicAmount_def int_to_string_def nat_add_distrib)

section \<open>The ledger\<close>

datatype ledger_category =
  CUSTOMER_PAYMENT | CUSTOMER_REFUND | TOOL_SPEND | MODEL_COST | CHAIN_COST | STORAGE_COST

datatype currency = USD

record ledger_entry =
  le_id :: string
  le_runId :: string
  le_category :: ledger_category
  le_asset :: asset_id
  le_atomicAmount :: string
  le_accountingValueMicros :: "string option"
  le_accountingCurrency :: "currency option"
  le_transactionHash :: "string option"
  le_externalReference :: "string option"
  le_occurredAt :: string

record run_economics =
  re_customerRevenueMicros :: string
  re_customerRefundMicros :: string
  re_toolCostMicros :: string
  re_modelCostMicros :: string
  re_chainCostMicros :: string
  re_storageCostMicros :: string
  re_grossContributionMicros :: string

text \<open>One step of the reduction: an entry without an explicit USD valuation throws.\<close>

definition entry_value :: "ledger_entry \<Rightarrow> int res" where
  "entry_value e =
    (case le_accountingValueMicros e of
       Some v \<Rightarrow>
         if le_accountingCurrency e = Some USD then parseAtomicAmount v
         else Inl (Js_error (''Ledger entry '' @ le_id e @ '' lacks an explicit USD micro valuation''))
     | None \<Rightarrow> Inl (Js_error (''Ledger entry '' @ le_id e @ '' lacks an explicit USD micro valuation'')))"

definition category_total :: "ledger_entry list \<Rightarrow> ledger_category \<Rightarrow> int res" where
  "category_total entries category =
    res_fold (\<lambda>sum e. res_bind (entry_value e) (\<lambda>v. Inr (sum + v))) 0
      (filter (\<lambda>e. le_category e = category) entries)"

definition calculateRunEconomics :: "ledger_entry list \<Rightarrow> run_economics res" where
  "calculateRunEconomics entries =
    res_bind (category_total entries CUSTOMER_PAYMENT) (\<lambda>customerRevenue.
    res_bind (category_total entries CUSTOMER_REFUND) (\<lambda>customerRefund.
    res_bind (category_total entries TOOL_SPEND) (\<lambda>toolCost.
    res_bind (category_total entries MODEL_COST) (\<lambda>modelCost.
    res_bind (category_total entries CHAIN_COST) (\<lambda>chainCost.
    res_bind (category_total entries STORAGE_COST) (\<lambda>storageCost.
      Inr \<lparr>re_customerRevenueMicros = int_to_string customerRevenue,
           re_customerRefundMicros = int_to_string customerRefund,
           re_toolCostMicros = int_to_string toolCost,
           re_modelCostMicros = int_to_string modelCost,
           re_chainCostMicros = int_to_string chainCost,
           re_storageCostMicros = int_to_string storageCost,
           re_grossContributionMicros =
             int_to_string (customerRevenue - customerRefund - toolCost - modelCost - chainCost
               - storageCost)\<rparr>))))))"

definition calculateAssetPosition :: "ledger_entry list \<Rightarrow> asset_id \<Rightarrow> int res" where
  "calculateAssetPosition entries asset =
    res_fold (\<lambda>position e.
      if \<not> res_ok (assertSameAsset (le_asset e) asset) then Inr position
      else res_bind (parseAtomicAmount (le_atomicAmount e)) (\<lambda>amount.
        Inr (if le_category e = CUSTOMER_PAYMENT then position + amount else position - amount)))
      0 entries"

subsection \<open>What the ledger computes\<close>

definition entry_valued :: "ledger_entry \<Rightarrow> bool" where
  "entry_valued e \<longleftrightarrow> res_ok (entry_value e)"

definition entry_micros :: "ledger_entry \<Rightarrow> int" where
  "entry_micros e = (case entry_value e of Inr v \<Rightarrow> v | Inl _ \<Rightarrow> 0)"

definition entry_sign :: "ledger_entry \<Rightarrow> int" where
  "entry_sign e = (if le_category e = CUSTOMER_PAYMENT then 1 else - 1)"

lemma res_fold_sum:
  "res_fold (\<lambda>s e. res_bind (f e) (\<lambda>v. Inr (s + v))) a xs
     = (if \<forall>x \<in> set xs. res_ok (f x)
        then Inr (a + (\<Sum>x\<leftarrow>xs. case f x of Inr v \<Rightarrow> v | Inl _ \<Rightarrow> (0::int)))
        else res_fold (\<lambda>s e. res_bind (f e) (\<lambda>v. Inr (s + v))) a xs)"
proof (induction xs arbitrary: a)
  case (Cons x xs)
  show ?case
  proof (cases "f x")
    case (Inr v)
    then show ?thesis using Cons.IH [of "a + v"] by auto
  qed auto
qed simp

lemma res_fold_sum_fails:
  "\<exists>x \<in> set xs. \<not> res_ok (f x) \<Longrightarrow>
   \<not> res_ok (res_fold (\<lambda>s e. res_bind (f e) (\<lambda>v. Inr (s + v :: int))) a xs)"
proof (induction xs arbitrary: a)
  case (Cons x xs)
  then show ?case by (cases "f x") auto
qed simp

definition category_sum :: "ledger_entry list \<Rightarrow> ledger_category \<Rightarrow> int" where
  "category_sum es c = (\<Sum>e\<leftarrow>filter (\<lambda>e. le_category e = c) es. entry_micros e)"

lemma category_total_ok:
  assumes "\<forall>e \<in> set es. entry_valued e"
  shows "category_total es c = Inr (category_sum es c)"
  using assms res_fold_sum [of entry_value 0 "filter (\<lambda>e. le_category e = c) es"]
  by (simp add: category_total_def category_sum_def entry_valued_def entry_micros_def)

lemma category_total_fails:
  assumes "e \<in> set es" and "\<not> entry_valued e"
  shows "\<not> res_ok (category_total es (le_category e))"
  unfolding category_total_def
  by (rule res_fold_sum_fails) (use assms in \<open>auto simp: entry_valued_def\<close>)

lemma category_sum_partition:
  "category_sum es CUSTOMER_PAYMENT - category_sum es CUSTOMER_REFUND - category_sum es TOOL_SPEND
     - category_sum es MODEL_COST - category_sum es CHAIN_COST - category_sum es STORAGE_COST
   = (\<Sum>e\<leftarrow>es. entry_sign e * entry_micros e)"
proof (induction es)
  case (Cons e es)
  then show ?case
    by (cases "le_category e") (simp_all add: category_sum_def entry_sign_def)
qed (simp add: category_sum_def)

lemma calculateRunEconomics_ok:
  assumes "\<forall>e \<in> set es. entry_valued e"
  shows "calculateRunEconomics es = Inr
    \<lparr>re_customerRevenueMicros = int_to_string (category_sum es CUSTOMER_PAYMENT),
     re_customerRefundMicros = int_to_string (category_sum es CUSTOMER_REFUND),
     re_toolCostMicros = int_to_string (category_sum es TOOL_SPEND),
     re_modelCostMicros = int_to_string (category_sum es MODEL_COST),
     re_chainCostMicros = int_to_string (category_sum es CHAIN_COST),
     re_storageCostMicros = int_to_string (category_sum es STORAGE_COST),
     re_grossContributionMicros = int_to_string (\<Sum>e\<leftarrow>es. entry_sign e * entry_micros e)\<rparr>"
  using assms by (simp add: calculateRunEconomics_def category_total_ok category_sum_partition)

lemma calculateRunEconomics_fails:
  assumes "e \<in> set es" and "\<not> entry_valued e"
  shows "\<not> res_ok (calculateRunEconomics es)"
proof
  assume "res_ok (calculateRunEconomics es)"
  then have "res_ok (category_total es CUSTOMER_PAYMENT) \<and> res_ok (category_total es CUSTOMER_REFUND)
    \<and> res_ok (category_total es TOOL_SPEND) \<and> res_ok (category_total es MODEL_COST)
    \<and> res_ok (category_total es CHAIN_COST) \<and> res_ok (category_total es STORAGE_COST)"
    unfolding calculateRunEconomics_def res_ok_bind by (elim exE conjE) (simp only: res_ok_simps simp_thms)
  then have "res_ok (category_total es c)" for c by (cases c) simp_all
  with category_total_fails [OF assms] show False by simp
qed

lemma sum_list_permuted:
  fixes f :: "'a \<Rightarrow> int"
  assumes "mset xs = mset ys"
  shows "(\<Sum>x\<leftarrow>xs. f x) = (\<Sum>x\<leftarrow>ys. f x)"
proof -
  have "(\<Sum>x\<leftarrow>zs. f x) = sum_mset (image_mset f (mset zs))" for zs
    by (simp only: mset_map [symmetric] sum_mset_sum_list)
  with assms show ?thesis by simp
qed

lemma category_sum_mset: "mset es = mset es' \<Longrightarrow> category_sum es c = category_sum es' c"
  unfolding category_sum_def by (rule sum_list_permuted) simp

text \<open>
  The economics of a run exist exactly when every ledger entry carries an explicit USD
  valuation in canonical form, they do not depend on the order of the entries, and the gross
  contribution is the signed sum of all valuations (customer payments positive, everything else
  negative), so that no category is dropped or counted twice.
\<close>

theorem calculateRunEconomics_spec:
  assumes "mset es = mset es'"
  shows "res_ok (calculateRunEconomics es) = (\<forall>e \<in> set es'. entry_valued e)
    \<and> (res_ok (calculateRunEconomics es) \<longrightarrow>
        calculateRunEconomics es = calculateRunEconomics es'
        \<and> re_grossContributionMicros (projr (calculateRunEconomics es))
            = int_to_string (\<Sum>e\<leftarrow>es'. entry_sign e * entry_micros e))"
proof (cases "\<forall>e \<in> set es'. entry_valued e")
  case True
  have set: "set es = set es'" using assms by (rule mset_eq_setD)
  have "(\<Sum>e\<leftarrow>es. entry_sign e * entry_micros e) = (\<Sum>e\<leftarrow>es'. entry_sign e * entry_micros e)"
    using assms by (rule sum_list_permuted)
  then show ?thesis
    using True calculateRunEconomics_ok [of es] calculateRunEconomics_ok [of es']
    by (simp add: set category_sum_mset [OF assms])
next
  case False
  then obtain e where "e \<in> set es" "\<not> entry_valued e" using mset_eq_setD [OF assms] by blast
  then show ?thesis using False calculateRunEconomics_fails by blast
qed

definition demo_asset :: asset_id where
  "demo_asset = \<lparr>asset_chainId = 56, asset_tokenAddress = ''0xAb'', asset_decimals = 6\<rparr>"

definition demo_entry :: "ledger_category \<Rightarrow> string \<Rightarrow> ledger_entry" where
  "demo_entry c v = \<lparr>le_id = ''e1'', le_runId = ''run-1'', le_category = c, le_asset = demo_asset,
    le_atomicAmount = v, le_accountingValueMicros = Some v, le_accountingCurrency = Some USD,
    le_transactionHash = None, le_externalReference = None, le_occurredAt = ''2026-01-01T00:00:00.000Z''\<rparr>"

theorem calculateRunEconomics_spec_witness:
  "re_grossContributionMicros (projr (calculateRunEconomics
      [demo_entry TOOL_SPEND ''30'', demo_entry CUSTOMER_PAYMENT ''100''])) = ''70''"
proof -
  let ?es = "[demo_entry TOOL_SPEND ''30'', demo_entry CUSTOMER_PAYMENT ''100'']"
  have "mset ?es = mset (rev ?es)" by simp
  from calculateRunEconomics_spec [OF this]
  have "re_grossContributionMicros (projr (calculateRunEconomics ?es))
      = int_to_string (\<Sum>e\<leftarrow>rev ?es. entry_sign e * entry_micros e)"
    by (simp add: demo_entry_def entry_valued_def entry_value_def is_atomic_def is_digit_def code_unit_def)
  also have "(\<Sum>e\<leftarrow>rev ?es. entry_sign e * entry_micros e) = 70"
    by (simp add: demo_entry_def entry_value_def entry_sign_def entry_micros_def parseAtomicAmount_def is_atomic_def
      is_digit_def code_unit_def dec_value_def digit_value_def)
  also have "int_to_string 70 = ''70''" by code_simp
  finally show ?thesis .
qed

text \<open>
  The position of a run in one asset is the signed sum of the entries of that asset, whatever
  the other assets' entries hold, and it is refused exactly when an entry of that asset carries a
  non-canonical amount.
\<close>

theorem calculateAssetPosition_spec:
  "calculateAssetPosition es a =
    (if list_all (\<lambda>e. is_atomic (le_atomicAmount e)) (filter (\<lambda>e. same_asset (le_asset e) a) es)
     then Inr (\<Sum>e\<leftarrow>filter (\<lambda>e. same_asset (le_asset e) a) es.
            entry_sign e * int (dec_value (le_atomicAmount e)))
     else Inl (Js_error ''Atomic amount must be an unsigned base-10 integer string''))"
proof -
  have "res_fold (\<lambda>position e.
      if \<not> res_ok (assertSameAsset (le_asset e) a) then Inr position
      else res_bind (parseAtomicAmount (le_atomicAmount e)) (\<lambda>amount.
        Inr (if le_category e = CUSTOMER_PAYMENT then position + amount else position - amount))) p es
    = (if list_all (\<lambda>e. is_atomic (le_atomicAmount e)) (filter (\<lambda>e. same_asset (le_asset e) a) es)
       then Inr (p + (\<Sum>e\<leftarrow>filter (\<lambda>e. same_asset (le_asset e) a) es.
              entry_sign e * int (dec_value (le_atomicAmount e))))
       else Inl (Js_error ''Atomic amount must be an unsigned base-10 integer string''))" for p
    by (induction es arbitrary: p) (auto simp: parseAtomicAmount_def entry_sign_def)
  then show ?thesis by (simp add: calculateAssetPosition_def)
qed

end
