(* ===== verification/Iso_Date.thy ===== *)
theory Iso_Date
  imports Js_String
begin

text \<open>
  \<open>Date.parse\<close> on the date-time string format of the language and \<open>toISOString\<close>, as the
  code uses them: instants are milliseconds since 1970-01-01T00:00:00Z.  \<open>date_parse\<close> accepts
  \<open>YYYY-MM-DD\<close> alone or followed by \<open>THH:MM\<close>, optional seconds and fraction, and an
  optional zone (\<open>Z\<close>, \<open>+HH:MM\<close>, \<open>-HH:MM\<close>; a missing zone is read as UTC, the zone
  the services run in).  As in V8 a day of 1 to 31 is accepted in every month and rolls over, and a
  fraction is cut to milliseconds.  The engine's fallback parser for other formats is outside the
  model: there \<open>date_parse\<close> is \<open>None\<close>, the NaN of the code.
\<close>

section \<open>The calendar\<close>

definition is_leap :: "int \<Rightarrow> bool" where
  "is_leap y \<longleftrightarrow> y mod 4 = 0 \<and> (y mod 100 \<noteq> 0 \<or> y mod 400 = 0)"

definition year_days :: "int \<Rightarrow> int" where "year_days y = (if is_leap y then 366 else 365)"

definition leaps_before :: "int \<Rightarrow> int" where
  "leaps_before y = (y - 1) div 4 - (y - 1) div 100 + (y - 1) div 400"

definition days_before_year :: "int \<Rightarrow> int" where
  "days_before_year y = 365 * (y - 1970) + leaps_before y - 477"

definition month_days :: "bool \<Rightarrow> int \<Rightarrow> int" where
  "month_days leap m =
    (if m = 2 then (if leap then 29 else 28)
     else if m = 4 \<or> m = 6 \<or> m = 9 \<or> m = 11 then 30 else 31)"

definition days_before_month :: "bool \<Rightarrow> int \<Rightarrow> int" where
  "days_before_month leap m =
    (let l = (if leap then 1 else 0) in
     if m \<le> 1 then 0 else if m = 2 then 31 else if m = 3 then 59 + l else if m = 4 then 90 + l
     else if m = 5 then 120 + l else if m = 6 then 151 + l else if m = 7 then 181 + l
     else if m = 8 then 212 + l else if m = 9 then 243 + l else if m = 10 then 273 + l
     else if m = 11 then 304 + l else 334 + l)"

definition days_of :: "int \<Rightarrow> int \<Rightarrow> int \<Rightarrow> int" where
  "days_of y m d = days_before_year y + days_before_month (is_leap y) m + d - 1"

lemma div_step: "0 < k \<Longrightarrow> (y::int) div k = (y - 1) div k + (if y mod k = 0 then 1 else 0)"
proof -
  assume k: "0 < k"
  let ?q = "y div k" and ?r = "y mod k"
  have r: "0 \<le> ?r" "?r < k" "y = k * ?q + ?r" using k by simp_all
  show ?thesis
  proof (cases "?r = 0")
    case True
    then have "y - 1 = k * (?q - 1) + (k - 1)" using r(3) by (simp add: right_diff_distrib)
    then have "(y - 1) div k = ?q - 1" by (rule int_div_pos_eq) (use k in simp_all)
    with True show ?thesis by simp
  next
    case False
    then have "y - 1 = k * ?q + (?r - 1)" using r(3) by simp
    then have "(y - 1) div k = ?q" by (rule int_div_pos_eq) (use r False in simp_all)
    with False show ?thesis by simp
  qed
qed

lemma leaps_before_Suc: "leaps_before (y + 1) = leaps_before y + (if is_leap y then 1 else 0)"
proof -
  have arith: "a' = a + (if p then 1 else 0) \<Longrightarrow> b' = b + (if q then 1 else 0) \<Longrightarrow>
      c' = c + (if r then 1 else 0) \<Longrightarrow> (q \<Longrightarrow> p) \<Longrightarrow> (r \<Longrightarrow> q) \<Longrightarrow>
      a' - b' + c' = a - b + c + (if p \<and> (\<not> q \<or> r) then 1 else 0)"
    for a b c a' b' c' :: int and p q r by (cases p; cases q; cases r; simp)
  have m: "y mod 100 = 0 \<Longrightarrow> y mod 4 = 0" "y mod 400 = 0 \<Longrightarrow> y mod 100 = 0"
    using mod_mod_cancel [of 4 100 y] mod_mod_cancel [of 100 400 y] by auto
  have "y div 4 - y div 100 + y div 400 = (y - 1) div 4 - (y - 1) div 100 + (y - 1) div 400
      + (if y mod 4 = 0 \<and> (\<not> y mod 100 = 0 \<or> y mod 400 = 0) then 1 else 0)"
    by (rule arith [OF div_step div_step div_step m]; (rule zero_less_numeral | assumption))
  then show ?thesis
    by (simp only: leaps_before_def is_leap_def add_diff_cancel_right')
qed

lemma days_before_year_Suc: "days_before_year (y + 1) = days_before_year y + year_days y"
  by (simp add: days_before_year_def year_days_def leaps_before_Suc)

lemma days_before_1970 [simp]: "days_before_year 1970 = 0"
  by (simp add: days_before_year_def leaps_before_def)

lemma year_days_pos: "0 < year_days y" by (simp add: year_days_def)

lemma days_before_year_mono: "y \<le> z \<Longrightarrow> days_before_year y \<le> days_before_year z"
proof (induction z rule: int_ge_induct)
  case (step z)
  then show ?case using days_before_year_Suc [of z] year_days_pos [of z] by linarith
qed simp

text \<open>The year that holds a day, and the day's offset in it.\<close>

function year_of :: "int \<Rightarrow> int \<Rightarrow> int \<times> int" where
  "year_of n y = (if n < year_days y then (y, n) else year_of (n - year_days y) (y + 1))"
  by pat_completeness auto
termination by (relation "measure (\<lambda>(n, _). nat n)") (auto simp: year_days_def split: if_splits)

declare year_of.simps [simp del]

lemma year_of_spec:
  assumes "0 \<le> n" and "year_of n y = (y', r)"
  shows "y \<le> y' \<and> 0 \<le> r \<and> r < year_days y' \<and> days_before_year y + n = days_before_year y' + r"
  using assms
proof (induction n y rule: year_of.induct)
  case (1 n y)
  show ?case
  proof (cases "n < year_days y")
    case True
    with 1(2,3) show ?thesis by (simp add: year_of.simps)
  next
    case False
    then have "year_of (n - year_days y) (y + 1) = (y', r)" using 1(3) by (simp add: year_of.simps)
    with False 1(1) show ?thesis using days_before_year_Suc [of y] by fastforce
  qed
qed

definition month_of :: "bool \<Rightarrow> int \<Rightarrow> int" where
  "month_of leap r =
    (let l = (if leap then 1 else 0) in
     if r < 31 then 1 else if r < 59 + l then 2 else if r < 90 + l then 3 else if r < 120 + l then 4
     else if r < 151 + l then 5 else if r < 181 + l then 6 else if r < 212 + l then 7
     else if r < 243 + l then 8 else if r < 273 + l then 9 else if r < 304 + l then 10
     else if r < 334 + l then 11 else 12)"

lemma month_of_spec:
  assumes "0 \<le> r" and "r < (if leap then 366 else 365)"
  shows "1 \<le> month_of leap r \<and> month_of leap r \<le> 12 \<and> days_before_month leap (month_of leap r) \<le> r
    \<and> r < days_before_month leap (month_of leap r) + month_days leap (month_of leap r)"
  unfolding month_of_def Let_def
  using assms by (cases leap) (simp_all add: days_before_month_def month_days_def)

section \<open>Printing\<close>

definition pad2 :: "int \<Rightarrow> string" where
  "pad2 n = [digit_char (nat n div 10 mod 10), digit_char (nat n mod 10)]"
definition pad3 :: "int \<Rightarrow> string" where
  "pad3 n = [digit_char (nat n div 100 mod 10), digit_char (nat n div 10 mod 10), digit_char (nat n mod 10)]"
definition pad4 :: "int \<Rightarrow> string" where
  "pad4 n = [digit_char (nat n div 1000 mod 10), digit_char (nat n div 100 mod 10),
             digit_char (nat n div 10 mod 10), digit_char (nat n mod 10)]"

definition iso_time :: "int \<Rightarrow> string" where
  "iso_time ms = pad2 (ms div 3600000) @ '':'' @ pad2 (ms div 60000 mod 60) @ '':''
     @ pad2 (ms div 1000 mod 60) @ ''.'' @ pad3 (ms mod 1000) @ ''Z''"

definition iso_date :: "int \<Rightarrow> string" where
  "iso_date days =
    (let (y, r) = year_of days 1970; m = month_of (is_leap y) r
     in pad4 y @ ''-'' @ pad2 m @ ''-'' @ pad2 (r - days_before_month (is_leap y) m + 1))"

text \<open>\<open>toISOString\<close>, for instants from 1970 to the end of the year 9999.\<close>

definition to_iso_string :: "int \<Rightarrow> string" where
  "to_iso_string t = iso_date (t div 86400000) @ ''T'' @ iso_time (t mod 86400000)"

section \<open>Parsing\<close>

definition take_digits :: "nat \<Rightarrow> string \<Rightarrow> (int \<times> string) option" where
  "take_digits k s =
    (if k \<le> length s \<and> list_all is_digit (take k s)
     then Some (int (dec_value (take k s)), drop k s) else None)"

definition take_lit :: "char \<Rightarrow> string \<Rightarrow> string option" where
  "take_lit c s = (if s \<noteq> [] \<and> hd s = c then Some (tl s) else None)"

text \<open>The fraction: one digit or more, the first three count.\<close>

definition take_fraction :: "string \<Rightarrow> (int \<times> string) option" where
  "take_fraction s =
    (let ds = takeWhile is_digit s; d3 = take 3 (ds @ ''00'')
     in if ds = [] then None else Some (int (dec_value d3), dropWhile is_digit s))"

definition take_zone :: "string \<Rightarrow> (int \<times> string) option" where
  "take_zone s =
    (if s = [] then Some (0, [])
     else if hd s = CHR ''Z'' then Some (0, tl s)
     else if hd s = CHR ''+'' \<or> hd s = CHR ''-'' then
       Option.bind (take_digits 2 (tl s)) (\<lambda>(h, s1).
       Option.bind (take_lit (CHR '':'') s1) (\<lambda>s2.
       Option.bind (take_digits 2 s2) (\<lambda>(m, s3).
         if h \<le> 23 \<and> m \<le> 59
         then Some ((if hd s = CHR ''+'' then 1 else - 1) * (h * 60 + m) * 60000, s3) else None)))
     else None)"

definition take_seconds :: "string \<Rightarrow> (int \<times> string) option" where
  "take_seconds s =
    (if s \<noteq> [] \<and> hd s = CHR '':'' then
       Option.bind (take_digits 2 (tl s)) (\<lambda>(sec, s1).
         if s1 \<noteq> [] \<and> hd s1 = CHR ''.''
         then map_option (\<lambda>(f, s2). (sec * 1000 + f, s2)) (take_fraction (tl s1))
         else Some (sec * 1000, s1))
     else Some (0, s))"

definition take_time :: "string \<Rightarrow> (int \<times> string) option" where
  "take_time s =
    Option.bind (take_digits 2 s) (\<lambda>(h, s1).
    Option.bind (take_lit (CHR '':'') s1) (\<lambda>s2.
    Option.bind (take_digits 2 s2) (\<lambda>(m, s3).
    Option.bind (take_seconds s3) (\<lambda>(ms, s4).
      if m \<le> 59 \<and> ms < 60000 \<and> (h \<le> 23 \<or> (h = 24 \<and> m = 0 \<and> ms = 0))
      then Some (h * 3600000 + m * 60000 + ms, s4) else None))))"

definition take_date :: "string \<Rightarrow> (int \<times> string) option" where
  "take_date s =
    Option.bind (take_digits 4 s) (\<lambda>(y, s1).
    Option.bind (take_lit (CHR ''-'') s1) (\<lambda>s2.
    Option.bind (take_digits 2 s2) (\<lambda>(m, s3).
    Option.bind (take_lit (CHR ''-'') s3) (\<lambda>s4.
    Option.bind (take_digits 2 s4) (\<lambda>(d, s5).
      if 1 \<le> m \<and> m \<le> 12 \<and> 1 \<le> d \<and> d \<le> 31 then Some (days_of y m d, s5) else None)))))"

definition date_parse :: "string \<Rightarrow> int option" where
  "date_parse s =
    Option.bind (take_date s) (\<lambda>(days, s1).
      if s1 = [] then Some (days * 86400000)
      else Option.bind (take_lit (CHR ''T'') s1) (\<lambda>s2.
           Option.bind (take_time s2) (\<lambda>(ms, s3).
           Option.bind (take_zone s3) (\<lambda>(off, s4).
             if s4 = [] then Some (days * 86400000 + ms - off) else None))))"

section \<open>Round trip\<close>

lemma digits3:
  fixes k :: nat
  assumes "k < 1000"
  shows "100 * (k div 100 mod 10) + 10 * (k div 10 mod 10) + k mod 10 = k"
proof -
  have "k = 10 * q + r \<Longrightarrow> q = 10 * q1 + r1 \<Longrightarrow> 100 * q1 + 10 * r1 + r = k" for q r q1 r1
    by simp
  from this [of "k div 10" "k mod 10" "k div 10 div 10" "k div 10 mod 10"]
  have "100 * (k div 10 div 10) + 10 * (k div 10 mod 10) + k mod 10 = k"
    by (simp only: mult_div_mod_eq)
  moreover have "k div 100 = k div 10 div 10" by (simp add: div_mult2_eq [symmetric])
  moreover have "k div 100 mod 10 = k div 100" using assms by simp
  ultimately show ?thesis by simp
qed

lemma digits4:
  fixes k :: nat
  assumes "k < 10000"
  shows "1000 * (k div 1000 mod 10) + 100 * (k div 100 mod 10) + 10 * (k div 10 mod 10) + k mod 10 = k"
proof -
  have "k = 10 * q + r \<Longrightarrow> 100 * x + 10 * y + z = q \<Longrightarrow> 1000 * x + 100 * y + 10 * z + r = k" for q r x y z
    by simp
  from this [of "k div 10" "k mod 10", OF _ digits3] show ?thesis
    using assms by (simp add: div_mult2_eq [symmetric])
qed

lemma take_digits_pad2: "0 \<le> n \<Longrightarrow> n < 100 \<Longrightarrow> take_digits 2 (pad2 n @ s) = Some (n, s)"
proof -
  assume n: "0 \<le> n" "n < 100"
  then have "nat n div 10 < 10" by simp
  then show ?thesis using n
    by (simp add: take_digits_def pad2_def numeral_2_eq_2 digit_char_facts dec_value_def)
qed

lemma take_digits_pad4: "0 \<le> n \<Longrightarrow> n < 10000 \<Longrightarrow> take_digits 4 (pad4 n @ s) = Some (n, s)"
proof -
  assume n: "0 \<le> n" "n < 10000"
  from digits4 [of "nat n"] show ?thesis using n
    by (simp add: take_digits_def pad4_def digit_char_facts dec_value_def)
qed

lemma take_fraction_pad3: "0 \<le> n \<Longrightarrow> n < 1000 \<Longrightarrow> take_fraction (pad3 n @ ''Z'') = Some (n, ''Z'')"
proof -
  assume n: "0 \<le> n" "n < 1000"
  have z: "\<not> is_digit CHR ''Z''" by (simp add: is_digit_def code_unit_def)
  from digits3 [of "nat n"] show ?thesis using n z
    by (simp add: take_fraction_def pad3_def digit_char_facts dec_value_def Let_def)
qed

lemma take_lit_Cons [simp]: "take_lit c (c # s) = Some s" by (simp add: take_lit_def)

lemma take_time_pad:
  assumes "0 \<le> h" "h < 24" "0 \<le> m" "m < 60" "0 \<le> sec" "sec < 60" "0 \<le> f" "f < 1000"
  shows "take_time (pad2 h @ '':'' @ pad2 m @ '':'' @ pad2 sec @ ''.'' @ pad3 f @ ''Z'')
    = Some (h * 3600000 + m * 60000 + (sec * 1000 + f), ''Z'')"
proof -
  have "take_seconds ('':'' @ pad2 sec @ ''.'' @ pad3 f @ ''Z'') = Some (sec * 1000 + f, ''Z'')"
    using assms by (simp add: take_seconds_def take_digits_pad2 take_fraction_pad3)
  then show ?thesis
    using assms by (simp add: take_time_def take_digits_pad2)
qed

lemma ms_split: "(ms::int) div 3600000 * 3600000 + ms div 60000 mod 60 * 60000
    + (ms div 1000 mod 60 * 1000 + ms mod 1000) = ms"
proof -
  have arith: "ms = 1000 * q + f \<Longrightarrow> q = 60 * q1 + s \<Longrightarrow> q1 = 60 * h + m \<Longrightarrow>
      h * 3600000 + m * 60000 + (s * 1000 + f) = ms" for q f q1 s h m :: int by simp
  have "ms div 60000 = ms div 1000 div 60" "ms div 3600000 = ms div 1000 div 60 div 60"
    by (simp_all add: zdiv_zmult2_eq [symmetric])
  then show ?thesis by (simp only:) (rule arith; rule mult_div_mod_eq [symmetric])
qed

lemma take_time_iso:
  assumes "0 \<le> ms" and "ms < 86400000"
  shows "take_time (iso_time ms) = Some (ms, ''Z'')"
proof -
  have "0 \<le> ms div 3600000" using assms(1) by (simp add: pos_imp_zdiv_nonneg_iff)
  moreover have "ms div 3600000 < 24" using assms(2) by (simp add: div_less_iff_less_mult)
  ultimately show ?thesis
    unfolding iso_time_def
    by (subst take_time_pad; (simp only: ms_split)?; simp)
qed

lemma take_date_iso:
  assumes "0 \<le> n" and "n < 2932897"
  shows "take_date (iso_date n @ s) = Some (n, s)"
proof -
  obtain y r where yr: "year_of n 1970 = (y, r)" by (cases "year_of n 1970")
  let ?m = "month_of (is_leap y) r"
  have y: "1970 \<le> y" "0 \<le> r" "r < year_days y" "n = days_before_year y + r"
    using year_of_spec [OF assms(1) yr] by simp_all
  have "y < 10000"
  proof (rule ccontr)
    assume "\<not> y < 10000"
    then have "days_before_year 10000 \<le> days_before_year y" by (intro days_before_year_mono) simp
    moreover have "days_before_year 10000 = 2932897"
      by (simp add: days_before_year_def leaps_before_def)
    ultimately show False using y assms by linarith
  qed
  moreover have m: "1 \<le> ?m" "?m \<le> 12" "days_before_month (is_leap y) ?m \<le> r"
    "r < days_before_month (is_leap y) ?m + month_days (is_leap y) ?m"
    using month_of_spec [of r "is_leap y"] y by (simp_all add: year_days_def)
  moreover have "month_days (is_leap y) ?m \<le> 31" by (simp add: month_days_def)
  ultimately show ?thesis using y(1,2)
    by (simp add: take_date_def iso_date_def yr take_digits_pad4 take_digits_pad2 days_of_def Let_def y(4) [symmetric])
qed

lemma date_parse_to_iso_string:
  assumes "0 \<le> t" and "t < 253402300800000"
  shows "date_parse (to_iso_string t) = Some t"
proof -
  have d: "0 \<le> t div 86400000" "t div 86400000 < 2932897" "0 \<le> t mod 86400000" "t mod 86400000 < 86400000"
    using assms by (simp_all add: pos_imp_zdiv_nonneg_iff div_less_iff_less_mult)
  have "take_zone ''Z'' = Some (0, [])" by (simp add: take_zone_def)
  then show ?thesis
    unfolding date_parse_def to_iso_string_def
    using d by (simp add: take_date_iso take_time_iso)
qed

end
