(* ===== verification/Run_State.thy ===== *)
theory Run_State
  imports Iso_Date
begin

text \<open>
  The run state machine (\<open>packages/run-domain/src/run-state-machine.ts\<close>): statuses, actors, the
  transition table, the aggregate with its revision and applied idempotency keys, and
  \<open>transitionRun\<close>, guard for guard.  \<open>run_history\<close> is the set of aggregates the service
  can reach, with the event log that led there.
\<close>

section \<open>Statuses, actors and the transition table\<close>

datatype run_status =
    DRAFT | QUOTED | PAYMENT_REQUIRED | FUNDED | ANALYZING | PLAN_COMPILED | PROCURING | EXECUTING
  | REPLANNING | EVIDENCE_BUILDING | ATTESTING | DELIVERED_PASS | DELIVERED_CONDITIONAL
  | DELIVERED_FAIL | DELIVERED_INCONCLUSIVE | CANCELLED | EXPIRED

datatype run_result = PASS | CONDITIONAL | FAIL | INCONCLUSIVE

datatype run_actor =
    REQUESTER | QUOTE_ENGINE | MERCHANT_GATEWAY | PAYMENT_RECONCILER | ORCHESTRATOR | POLICY_ENGINE
  | PROCUREMENT_WORKER | EXECUTION_WORKER | EVIDENCE_WORKER | ATTESTOR | SYSTEM

fun status_name :: "run_status \<Rightarrow> string" where
  "status_name DRAFT = ''DRAFT''"
| "status_name QUOTED = ''QUOTED''"
| "status_name PAYMENT_REQUIRED = ''PAYMENT_REQUIRED''"
| "status_name FUNDED = ''FUNDED''"
| "status_name ANALYZING = ''ANALYZING''"
| "status_name PLAN_COMPILED = ''PLAN_COMPILED''"
| "status_name PROCURING = ''PROCURING''"
| "status_name EXECUTING = ''EXECUTING''"
| "status_name REPLANNING = ''REPLANNING''"
| "status_name EVIDENCE_BUILDING = ''EVIDENCE_BUILDING''"
| "status_name ATTESTING = ''ATTESTING''"
| "status_name DELIVERED_PASS = ''DELIVERED_PASS''"
| "status_name DELIVERED_CONDITIONAL = ''DELIVERED_CONDITIONAL''"
| "status_name DELIVERED_FAIL = ''DELIVERED_FAIL''"
| "status_name DELIVERED_INCONCLUSIVE = ''DELIVERED_INCONCLUSIVE''"
| "status_name CANCELLED = ''CANCELLED''"
| "status_name EXPIRED = ''EXPIRED''"

fun actor_name :: "run_actor \<Rightarrow> string" where
  "actor_name REQUESTER = ''REQUESTER''"
| "actor_name QUOTE_ENGINE = ''QUOTE_ENGINE''"
| "actor_name MERCHANT_GATEWAY = ''MERCHANT_GATEWAY''"
| "actor_name PAYMENT_RECONCILER = ''PAYMENT_RECONCILER''"
| "actor_name ORCHESTRATOR = ''ORCHESTRATOR''"
| "actor_name POLICY_ENGINE = ''POLICY_ENGINE''"
| "actor_name PROCUREMENT_WORKER = ''PROCUREMENT_WORKER''"
| "actor_name EXECUTION_WORKER = ''EXECUTION_WORKER''"
| "actor_name EVIDENCE_WORKER = ''EVIDENCE_WORKER''"
| "actor_name ATTESTOR = ''ATTESTOR''"
| "actor_name SYSTEM = ''SYSTEM''"

definition terminal_statuses :: "run_status list" where
  "terminal_statuses = [DELIVERED_PASS, DELIVERED_CONDITIONAL, DELIVERED_FAIL,
     DELIVERED_INCONCLUSIVE, CANCELLED, EXPIRED]"

text \<open>A rule: the target status and the actors that may take it.\<close>

type_synonym transition_rule = "run_status \<times> run_actor list"

fun transitions :: "run_status \<Rightarrow> transition_rule list" where
  "transitions DRAFT =
     [(QUOTED, [QUOTE_ENGINE]), (CANCELLED, [REQUESTER, SYSTEM]), (EXPIRED, [SYSTEM])]"
| "transitions QUOTED =
     [(PAYMENT_REQUIRED, [MERCHANT_GATEWAY]), (CANCELLED, [REQUESTER, SYSTEM]), (EXPIRED, [SYSTEM])]"
| "transitions PAYMENT_REQUIRED =
     [(FUNDED, [PAYMENT_RECONCILER]), (CANCELLED, [REQUESTER, SYSTEM]), (EXPIRED, [SYSTEM])]"
| "transitions FUNDED = [(ANALYZING, [ORCHESTRATOR])]"
| "transitions ANALYZING =
     [(PLAN_COMPILED, [POLICY_ENGINE]), (EVIDENCE_BUILDING, [ORCHESTRATOR, SYSTEM])]"
| "transitions PLAN_COMPILED =
     [(PROCURING, [PROCUREMENT_WORKER]), (EVIDENCE_BUILDING, [POLICY_ENGINE, SYSTEM])]"
| "transitions PROCURING =
     [(EXECUTING, [PROCUREMENT_WORKER, EXECUTION_WORKER]), (REPLANNING, [ORCHESTRATOR]),
      (EVIDENCE_BUILDING, [PROCUREMENT_WORKER, SYSTEM])]"
| "transitions EXECUTING =
     [(REPLANNING, [ORCHESTRATOR]), (EVIDENCE_BUILDING, [EXECUTION_WORKER, SYSTEM])]"
| "transitions REPLANNING =
     [(PROCURING, [POLICY_ENGINE, PROCUREMENT_WORKER]), (EXECUTING, [POLICY_ENGINE, EXECUTION_WORKER]),
      (EVIDENCE_BUILDING, [ORCHESTRATOR, SYSTEM])]"
| "transitions EVIDENCE_BUILDING = [(ATTESTING, [EVIDENCE_WORKER])]"
| "transitions ATTESTING =
     [(DELIVERED_PASS, [ATTESTOR]), (DELIVERED_CONDITIONAL, [ATTESTOR]),
      (DELIVERED_FAIL, [ATTESTOR]), (DELIVERED_INCONCLUSIVE, [ATTESTOR])]"
| "transitions DELIVERED_PASS = []"
| "transitions DELIVERED_CONDITIONAL = []"
| "transitions DELIVERED_FAIL = []"
| "transitions DELIVERED_INCONCLUSIVE = []"
| "transitions CANCELLED = []"
| "transitions EXPIRED = []"

section \<open>The aggregate and its transition\<close>

record run_aggregate =
  run_id :: string
  run_status_of :: run_status
  run_result_of :: "run_result option"
  run_revision :: int
  run_createdAt :: string
  run_updatedAt :: string
  run_appliedIdempotencyKeys :: "string list"

record transition_command =
  cmd_actor :: run_actor
  cmd_expectedRevision :: int
  cmd_idempotencyKey :: string
  cmd_occurredAt :: string
  cmd_to :: run_status

record run_transitioned_event =
  ev_runId :: string
  ev_from :: run_status
  ev_to :: run_status
  ev_actor :: run_actor
  ev_revision :: int
  ev_idempotencyKey :: string
  ev_occurredAt :: string

record transition_result =
  tr_run :: run_aggregate
  tr_event :: "run_transitioned_event option"
  tr_idempotentReplay :: bool

definition assertIsoDate :: "string \<Rightarrow> string \<Rightarrow> unit res" where
  "assertIsoDate value field =
    ensure (date_parse value \<noteq> None) (Js_error (field @ '' must be an ISO date string''))"

definition createDraftRun :: "string \<Rightarrow> string \<Rightarrow> run_aggregate res" where
  "createDraftRun rid now =
    (if rid = [] then Inl (Js_error ''Run id is required'')
     else res_bind (assertIsoDate now ''now'') (\<lambda>_.
       Inr \<lparr>run_id = rid, run_status_of = DRAFT, run_result_of = None, run_revision = 0,
            run_createdAt = now, run_updatedAt = now, run_appliedIdempotencyKeys = []\<rparr>))"

definition isTerminalRunStatus :: "run_status \<Rightarrow> bool" where
  "isTerminalRunStatus status = List.member terminal_statuses status"

fun resultForTerminalStatus :: "run_status \<Rightarrow> run_result option" where
  "resultForTerminalStatus DELIVERED_PASS = Some PASS"
| "resultForTerminalStatus DELIVERED_CONDITIONAL = Some CONDITIONAL"
| "resultForTerminalStatus DELIVERED_FAIL = Some FAIL"
| "resultForTerminalStatus DELIVERED_INCONCLUSIVE = Some INCONCLUSIVE"
| "resultForTerminalStatus _ = None"

text \<open>The first rule to the wanted status, and whether the actor is one of its actors.\<close>

definition rule_allows :: "run_status \<Rightarrow> run_status \<Rightarrow> run_actor \<Rightarrow> bool" where
  "rule_allows status target actor =
    (case find (\<lambda>rule. fst rule = target) (transitions status) of
       None \<Rightarrow> False | Some rule \<Rightarrow> List.member (snd rule) actor)"

text \<open>\<open>Date.parse(a) < Date.parse(b)\<close>: false when either side is NaN.\<close>

definition date_before :: "string \<Rightarrow> string \<Rightarrow> bool" where
  "date_before a b =
    (case (date_parse a, date_parse b) of (Some x, Some y) \<Rightarrow> x < y | _ \<Rightarrow> False)"

definition transitionRun :: "run_aggregate \<Rightarrow> transition_command \<Rightarrow> transition_result res" where
  "transitionRun run command =
    (if List.member (run_appliedIdempotencyKeys run) (cmd_idempotencyKey command)
     then Inr \<lparr>tr_run = run, tr_event = None, tr_idempotentReplay = True\<rparr>
     else
     res_bind (ensure (8 \<le> length (cmd_idempotencyKey command))
       (Illegal_run_transition ''Idempotency key must contain at least 8 characters'')) (\<lambda>_.
     res_bind (ensure (run_revision run = cmd_expectedRevision command)
       (Run_revision_conflict (cmd_expectedRevision command) (run_revision run))) (\<lambda>_.
     res_bind (assertIsoDate (cmd_occurredAt command) ''occurredAt'') (\<lambda>_.
     res_bind (ensure (\<not> date_before (cmd_occurredAt command) (run_updatedAt run))
       (Illegal_run_transition ''Transition time cannot precede the previous event'')) (\<lambda>_.
     res_bind (ensure (rule_allows (run_status_of run) (cmd_to command) (cmd_actor command))
       (Illegal_run_transition (actor_name (cmd_actor command) @ '' cannot transition a run from ''
          @ status_name (run_status_of run) @ '' to '' @ status_name (cmd_to command)))) (\<lambda>_.
     let revision = run_revision run + 1;
         result = resultForTerminalStatus (cmd_to command);
         nextRun = run\<lparr>
           run_status_of := cmd_to command,
           run_result_of := (case result of None \<Rightarrow> run_result_of run | Some r \<Rightarrow> Some r),
           run_revision := revision,
           run_updatedAt := cmd_occurredAt command,
           run_appliedIdempotencyKeys :=
             run_appliedIdempotencyKeys run @ [cmd_idempotencyKey command]\<rparr>
     in Inr \<lparr>tr_run = nextRun,
             tr_event = Some \<lparr>ev_runId = run_id run, ev_from = run_status_of run,
               ev_to = cmd_to command, ev_actor = cmd_actor command, ev_revision = revision,
               ev_idempotencyKey = cmd_idempotencyKey command,
               ev_occurredAt = cmd_occurredAt command\<rparr>,
             tr_idempotentReplay = False\<rparr>))))))"

section \<open>Facts about the table\<close>

instantiation run_status :: linorder
begin

definition status_index :: "run_status \<Rightarrow> nat" where
  "status_index s = (case s of DRAFT \<Rightarrow> 0 | QUOTED \<Rightarrow> 1 | PAYMENT_REQUIRED \<Rightarrow> 2 | FUNDED \<Rightarrow> 3
     | ANALYZING \<Rightarrow> 4 | PLAN_COMPILED \<Rightarrow> 5 | PROCURING \<Rightarrow> 6 | EXECUTING \<Rightarrow> 7 | REPLANNING \<Rightarrow> 8
     | EVIDENCE_BUILDING \<Rightarrow> 9 | ATTESTING \<Rightarrow> 10 | DELIVERED_PASS \<Rightarrow> 11 | DELIVERED_CONDITIONAL \<Rightarrow> 12
     | DELIVERED_FAIL \<Rightarrow> 13 | DELIVERED_INCONCLUSIVE \<Rightarrow> 14 | CANCELLED \<Rightarrow> 15 | EXPIRED \<Rightarrow> 16)"

definition less_eq_run_status :: "run_status \<Rightarrow> run_status \<Rightarrow> bool" where
  "less_eq_run_status s t \<longleftrightarrow> status_index s \<le> status_index t"

definition less_run_status :: "run_status \<Rightarrow> run_status \<Rightarrow> bool" where
  "less_run_status s t \<longleftrightarrow> status_index s < status_index t"

instance
proof
  fix s t u :: run_status
  show "s < t \<longleftrightarrow> s \<le> t \<and> \<not> t \<le> s" by (auto simp: less_eq_run_status_def less_run_status_def)
  show "s \<le> s" by (simp add: less_eq_run_status_def)
  show "s \<le> t \<Longrightarrow> t \<le> u \<Longrightarrow> s \<le> u" by (simp add: less_eq_run_status_def)
  show "s \<le> t \<or> t \<le> s" by (auto simp: less_eq_run_status_def)
  have inj: "status_index x = status_index y \<Longrightarrow> x = y" for x y
    by (cases x; cases y; simp add: status_index_def)
  show "s \<le> t \<Longrightarrow> t \<le> s \<Longrightarrow> s = t" by (auto simp: less_eq_run_status_def intro: inj)
qed

end

lemma terminal_iff_no_rule: "isTerminalRunStatus s \<longleftrightarrow> transitions s = []"
  by (cases s) (simp_all add: isTerminalRunStatus_def terminal_statuses_def)

lemma rule_allows_iff:
  "rule_allows s t a \<longleftrightarrow> (\<exists>as. (t, as) \<in> set (transitions s) \<and> a \<in> set as)"
  by (cases s) (auto simp: rule_allows_def)

lemma not_allowed_terminal: "isTerminalRunStatus s \<Longrightarrow> \<not> rule_allows s t a"
  by (simp add: terminal_iff_no_rule rule_allows_iff)

lemma result_delivered_iff:
  "resultForTerminalStatus s \<noteq> None \<longleftrightarrow> isTerminalRunStatus s \<and> s \<noteq> CANCELLED \<and> s \<noteq> EXPIRED"
  by (cases s) (simp_all add: isTerminalRunStatus_def terminal_statuses_def)

text \<open>Statuses in which the customer's money has been received.\<close>

definition is_paid :: "run_status \<Rightarrow> bool" where
  "is_paid s \<longleftrightarrow> FUNDED \<le> s \<and> s \<le> DELIVERED_INCONCLUSIVE"

lemma is_paid_simps [simp]:
  "is_paid DRAFT = False" "is_paid QUOTED = False" "is_paid PAYMENT_REQUIRED = False"
  "is_paid FUNDED" "is_paid ANALYZING" "is_paid PLAN_COMPILED" "is_paid PROCURING" "is_paid EXECUTING"
  "is_paid REPLANNING" "is_paid EVIDENCE_BUILDING" "is_paid ATTESTING" "is_paid DELIVERED_PASS"
  "is_paid DELIVERED_CONDITIONAL" "is_paid DELIVERED_FAIL" "is_paid DELIVERED_INCONCLUSIVE"
  "is_paid CANCELLED = False" "is_paid EXPIRED = False"
  by (simp_all add: is_paid_def less_eq_run_status_def status_index_def)

lemma paid_stays_paid: "rule_allows s t a \<Longrightarrow> is_paid s \<Longrightarrow> is_paid t"
  by (cases s) (auto simp: rule_allows_iff)

lemma becomes_paid: "rule_allows s t a \<Longrightarrow> \<not> is_paid s \<Longrightarrow> is_paid t \<Longrightarrow>
    s = PAYMENT_REQUIRED \<and> t = FUNDED \<and> a = PAYMENT_RECONCILER"
  by (cases s) (auto simp: rule_allows_iff)

lemma becomes_delivered: "rule_allows s t a \<Longrightarrow> resultForTerminalStatus t \<noteq> None \<Longrightarrow>
    s = ATTESTING \<and> a = ATTESTOR"
  by (cases s) (auto simp: rule_allows_iff)

section \<open>One accepted command\<close>

text \<open>What an accepted (non-replayed) command tells about the run and what it does to it.\<close>

lemma transitionRun_applied_iff:
  "transitionRun run c = Inr r \<and> tr_event r \<noteq> None \<longleftrightarrow>
    cmd_idempotencyKey c \<notin> set (run_appliedIdempotencyKeys run)
    \<and> 8 \<le> length (cmd_idempotencyKey c) \<and> cmd_expectedRevision c = run_revision run
    \<and> date_parse (cmd_occurredAt c) \<noteq> None \<and> \<not> date_before (cmd_occurredAt c) (run_updatedAt run)
    \<and> rule_allows (run_status_of run) (cmd_to c) (cmd_actor c)
    \<and> r = \<lparr>tr_run = run\<lparr>run_status_of := cmd_to c,
             run_result_of := (case resultForTerminalStatus (cmd_to c) of
               None \<Rightarrow> run_result_of run | Some x \<Rightarrow> Some x),
             run_revision := run_revision run + 1, run_updatedAt := cmd_occurredAt c,
             run_appliedIdempotencyKeys := run_appliedIdempotencyKeys run @ [cmd_idempotencyKey c]\<rparr>,
           tr_event = Some \<lparr>ev_runId = run_id run, ev_from = run_status_of run, ev_to = cmd_to c,
             ev_actor = cmd_actor c, ev_revision = run_revision run + 1,
             ev_idempotencyKey = cmd_idempotencyKey c, ev_occurredAt = cmd_occurredAt c\<rparr>,
           tr_idempotentReplay = False\<rparr>"
  by (auto simp: transitionRun_def assertIsoDate_def res_bind_Inr_iff Let_def)

lemma transitionRun_cases:
  assumes "transitionRun run c = Inr r"
  obtains (replay) "cmd_idempotencyKey c \<in> set (run_appliedIdempotencyKeys run)"
      "r = \<lparr>tr_run = run, tr_event = None, tr_idempotentReplay = True\<rparr>"
    | (applied) "tr_event r \<noteq> None"
  using assms by (auto simp: transitionRun_def res_bind_Inr_iff Let_def split: if_splits)

section \<open>Reachable runs and their event logs\<close>

inductive run_history :: "run_transitioned_event list \<Rightarrow> run_aggregate \<Rightarrow> bool" where
  created: "createDraftRun rid now = Inr run \<Longrightarrow> run_history [] run"
| stepped: "run_history evs run \<Longrightarrow> transitionRun run c = Inr r \<Longrightarrow> tr_event r = Some ev \<Longrightarrow>
    run_history (evs @ [ev]) (tr_run r)"
| replayed: "run_history evs run \<Longrightarrow> transitionRun run c = Inr r \<Longrightarrow> tr_event r = None \<Longrightarrow>
    run_history evs (tr_run r)"

text \<open>The log starts at the draft, each event starts where the previous one ended, and the last
  one ends at the current status.\<close>

fun chained :: "run_status \<Rightarrow> run_transitioned_event list \<Rightarrow> run_status \<Rightarrow> bool" where
  "chained s [] t = (s = t)"
| "chained s (e # es) t =
    (ev_from e = s \<and> rule_allows s (ev_to e) (ev_actor e) \<and> chained (ev_to e) es t)"

lemma chained_append [simp]:
  "chained s (es @ [e]) t \<longleftrightarrow>
     chained s es (ev_from e) \<and> rule_allows (ev_from e) (ev_to e) (ev_actor e) \<and> ev_to e = t"
  by (induction es arbitrary: s) auto

definition event_times_ascend :: "run_transitioned_event list \<Rightarrow> bool" where
  "event_times_ascend evs \<longleftrightarrow> sorted (map (\<lambda>e. the (date_parse (ev_occurredAt e))) evs)"

definition run_inv :: "run_transitioned_event list \<Rightarrow> run_aggregate \<Rightarrow> bool" where
  "run_inv evs run \<longleftrightarrow>
    run_revision run = int (length evs)
    \<and> run_appliedIdempotencyKeys run = map ev_idempotencyKey evs
    \<and> distinct (run_appliedIdempotencyKeys run)
    \<and> list_all (\<lambda>k. 8 \<le> length k) (run_appliedIdempotencyKeys run)
    \<and> map ev_revision evs = map (\<lambda>i. int i + 1) [0..<length evs]
    \<and> run_result_of run = resultForTerminalStatus (run_status_of run)
    \<and> chained DRAFT evs (run_status_of run)
    \<and> run_updatedAt run = (if evs = [] then run_createdAt run else ev_occurredAt (last evs))
    \<and> list_all (\<lambda>e. date_parse (ev_occurredAt e) \<noteq> None) evs
    \<and> date_parse (run_createdAt run) \<noteq> None
    \<and> event_times_ascend evs"

lemma run_inv_created: "createDraftRun rid now = Inr run \<Longrightarrow> run_inv [] run"
  by (auto simp: createDraftRun_def run_inv_def assertIsoDate_def event_times_ascend_def
    res_bind_Inr_iff split: if_splits)

lemma run_inv_step:
  assumes inv: "run_inv evs run" and t: "transitionRun run c = Inr r" "tr_event r = Some ev"
  shows "run_inv (evs @ [ev]) (tr_run r)"
proof -
  from t have r: "transitionRun run c = Inr r \<and> tr_event r \<noteq> None" by simp
  note f = r [unfolded transitionRun_applied_iff]
  have ev: "ev_to ev = cmd_to c" "ev_from ev = run_status_of run" "ev_actor ev = cmd_actor c"
    "ev_occurredAt ev = cmd_occurredAt c" "ev_idempotencyKey ev = cmd_idempotencyKey c"
    "ev_revision ev = run_revision run + 1"
    using f t(2) by auto
  have run: "tr_run r = run\<lparr>run_status_of := cmd_to c,
      run_result_of := (case resultForTerminalStatus (cmd_to c) of
        None \<Rightarrow> run_result_of run | Some x \<Rightarrow> Some x),
      run_revision := run_revision run + 1, run_updatedAt := cmd_occurredAt c,
      run_appliedIdempotencyKeys := run_appliedIdempotencyKeys run @ [cmd_idempotencyKey c]\<rparr>"
    using f by simp
  have "resultForTerminalStatus (run_status_of run) = None"
    using f result_delivered_iff [of "run_status_of run"] not_allowed_terminal by blast
  moreover have "event_times_ascend (evs @ [ev])"
  proof (cases evs rule: rev_cases)
    case (snoc es e)
    then have "the (date_parse (ev_occurredAt e)) \<le> the (date_parse (cmd_occurredAt c))"
      using inv f by (auto simp: run_inv_def date_before_def)
    then show ?thesis using inv snoc
      by (auto simp: run_inv_def event_times_ascend_def sorted_append ev)
  qed (simp add: event_times_ascend_def)
  ultimately show ?thesis
    using inv f by (auto simp: run_inv_def run ev split: option.split)
qed

lemma run_history_inv: "run_history evs run \<Longrightarrow> run_inv evs run"
proof (induction rule: run_history.induct)
  case (created rid now run)
  then show ?case by (rule run_inv_created)
next
  case (stepped evs run c r ev)
  then show ?case by (intro run_inv_step)
next
  case (replayed evs run c r)
  then show ?case by (auto elim: transitionRun_cases)
qed

lemma chained_paid:
  "chained s es t \<Longrightarrow> \<not> is_paid s \<Longrightarrow> is_paid t \<Longrightarrow>
    \<exists>e \<in> set es. ev_from e = PAYMENT_REQUIRED \<and> ev_to e = FUNDED \<and> ev_actor e = PAYMENT_RECONCILER"
proof (induction es arbitrary: s)
  case (Cons e es)
  show ?case
  proof (cases "is_paid (ev_to e)")
    case True
    with Cons.prems show ?thesis using becomes_paid [of s "ev_to e" "ev_actor e"] by auto
  next
    case False
    with Cons show ?thesis by auto
  qed
qed simp

lemma chained_stays_paid: "chained s es t \<Longrightarrow> is_paid s \<Longrightarrow> is_paid t"
  by (induction es arbitrary: s) (auto dest: paid_stays_paid)

lemma chained_delivered:
  "chained s es t \<Longrightarrow> \<not> isTerminalRunStatus s \<Longrightarrow> resultForTerminalStatus t \<noteq> None \<Longrightarrow>
    es \<noteq> [] \<and> ev_from (last es) = ATTESTING \<and> ev_actor (last es) = ATTESTOR"
proof (cases es rule: rev_cases)
  case Nil
  then show "chained s es t \<Longrightarrow> \<not> isTerminalRunStatus s \<Longrightarrow> resultForTerminalStatus t \<noteq> None \<Longrightarrow> ?thesis"
    using result_delivered_iff by auto
next
  case (snoc es' e)
  then show "chained s es t \<Longrightarrow> \<not> isTerminalRunStatus s \<Longrightarrow> resultForTerminalStatus t \<noteq> None \<Longrightarrow> ?thesis"
    using becomes_delivered [of "ev_from e" t "ev_actor e"] by auto
qed

section \<open>Command sequences\<close>

text \<open>A sequence of commands applied to a run, with the log of the events it emits.\<close>

definition apply_command ::
  "run_transitioned_event list \<times> run_aggregate \<Rightarrow> transition_command \<Rightarrow>
   (run_transitioned_event list \<times> run_aggregate) res" where
  "apply_command s c =
    res_bind (transitionRun (snd s) c) (\<lambda>r.
      Inr (case tr_event r of None \<Rightarrow> fst s | Some e \<Rightarrow> fst s @ [e], tr_run r))"

lemma run_history_apply:
  assumes "run_history (fst s) (snd s)" and "res_fold apply_command s cs = Inr s'"
  shows "run_history (fst s') (snd s')"
  using assms
proof (induction cs arbitrary: s)
  case (Cons c cs)
  from Cons.prems(2) obtain r where r: "transitionRun (snd s) c = Inr r"
    and rest: "res_fold apply_command (case tr_event r of None \<Rightarrow> fst s | Some e \<Rightarrow> fst s @ [e], tr_run r) cs = Inr s'"
    by (cases "transitionRun (snd s) c") (simp_all add: apply_command_def [of s c])
  show ?case
    by (rule Cons.IH [OF _ rest])
      (use Cons.prems(1) r in \<open>auto split: option.split intro: run_history.stepped run_history.replayed\<close>)
qed simp

definition demo_cmd :: "string \<Rightarrow> run_actor \<Rightarrow> run_status \<Rightarrow> int \<Rightarrow> transition_command" where
  "demo_cmd key actor target n = \<lparr>cmd_actor = actor, cmd_expectedRevision = n,
     cmd_idempotencyKey = ''demo-key-'' @ key, cmd_occurredAt = ''2026-01-01T00:00:00.000Z'',
     cmd_to = target\<rparr>"

definition demo_draft :: run_aggregate where
  "demo_draft = \<lparr>run_id = ''run-1'', run_status_of = DRAFT, run_result_of = None, run_revision = 0,
     run_createdAt = ''2026-01-01T00:00:00.000Z'', run_updatedAt = ''2026-01-01T00:00:00.000Z'',
     run_appliedIdempotencyKeys = []\<rparr>"

definition demo_commands :: "transition_command list" where
  "demo_commands =
    [demo_cmd ''a'' QUOTE_ENGINE QUOTED 0, demo_cmd ''b'' MERCHANT_GATEWAY PAYMENT_REQUIRED 1,
     demo_cmd ''c'' PAYMENT_RECONCILER FUNDED 2, demo_cmd ''d'' ORCHESTRATOR ANALYZING 3,
     demo_cmd ''e'' SYSTEM EVIDENCE_BUILDING 4, demo_cmd ''f'' EVIDENCE_WORKER ATTESTING 5,
     demo_cmd ''g'' ATTESTOR DELIVERED_INCONCLUSIVE 6]"

definition demo_outcome :: "run_transitioned_event list \<times> run_aggregate" where
  "demo_outcome = projr (res_fold apply_command ([], demo_draft) demo_commands)"

lemma demo_created: "createDraftRun ''run-1'' ''2026-01-01T00:00:00.000Z'' = Inr demo_draft"
  by code_simp

lemma demo_runs: "res_ok (res_fold apply_command ([], demo_draft) demo_commands)
    \<and> run_result_of (snd demo_outcome) = Some INCONCLUSIVE"
  by code_simp

lemma demo_funded: "FUNDED \<in> set (map ev_to (fst demo_outcome))"
  by code_simp

lemma demo_history: "run_history (fst demo_outcome) (snd demo_outcome)"
proof -
  have "res_fold apply_command ([], demo_draft) demo_commands = Inr demo_outcome"
    using demo_runs by (auto simp: demo_outcome_def res_ok_iff)
  moreover have "run_history (fst ([], demo_draft)) (snd ([], demo_draft))"
    using run_history.created [OF demo_created] by simp
  ultimately show ?thesis by (rule run_history_apply [rotated])
qed

section \<open>Properties\<close>

text \<open>
  C1: in every run the service can reach, the revision counts the events, the applied idempotency
  keys are distinct and are exactly those of the events in order, event revisions are 1, 2, 3, ...,
  the events form a chain of permitted transitions from DRAFT to the current status, their times
  never go back, and the result is present exactly as the delivered status says.
\<close>

theorem run_history_well_formed:
  assumes "run_history evs run"
  shows "run_revision run = int (length evs)
    \<and> run_appliedIdempotencyKeys run = map ev_idempotencyKey evs
    \<and> distinct (run_appliedIdempotencyKeys run)
    \<and> map ev_revision evs = map (\<lambda>i. int i + 1) [0..<length evs]
    \<and> chained DRAFT evs (run_status_of run)
    \<and> event_times_ascend evs
    \<and> run_result_of run = resultForTerminalStatus (run_status_of run)"
  using run_history_inv [OF assms] unfolding run_inv_def by blast

theorem run_history_well_formed_witness:
  "run_revision (snd demo_outcome) = int (length (fst demo_outcome))"
  using run_history_well_formed [OF demo_history] by blast

text \<open>
  C2: a run is delivered only after the payment reconciler moved it from PAYMENT_REQUIRED to FUNDED,
  and the delivering transition is the attestor's, from ATTESTING.
\<close>

theorem delivered_only_after_payment:
  assumes "run_history evs run" and "run_result_of run \<noteq> None"
  shows "(\<exists>e \<in> set evs. ev_from e = PAYMENT_REQUIRED \<and> ev_to e = FUNDED \<and> ev_actor e = PAYMENT_RECONCILER)
    \<and> evs \<noteq> [] \<and> ev_from (last evs) = ATTESTING \<and> ev_actor (last evs) = ATTESTOR
    \<and> run_result_of run = resultForTerminalStatus (ev_to (last evs))"
proof -
  have inv: "chained DRAFT evs (run_status_of run)"
    "run_result_of run = resultForTerminalStatus (run_status_of run)"
    using run_history_inv [OF assms(1)] by (simp_all add: run_inv_def)
  then have r: "resultForTerminalStatus (run_status_of run) \<noteq> None" using assms(2) by simp
  then have "is_paid (run_status_of run)" by (cases "run_status_of run") simp_all
  moreover have last: "evs \<noteq> []" "ev_from (last evs) = ATTESTING" "ev_actor (last evs) = ATTESTOR"
    using chained_delivered [OF inv(1) _ r] by (simp_all add: isTerminalRunStatus_def terminal_statuses_def)
  moreover have "ev_to (last evs) = run_status_of run"
    using inv(1) last(1) by (cases evs rule: rev_cases) simp_all
  ultimately show ?thesis using chained_paid [OF inv(1)] inv(2) by simp
qed

theorem delivered_only_after_payment_witness:
  "\<exists>e \<in> set (fst demo_outcome). ev_to e = FUNDED \<and> ev_actor e = PAYMENT_RECONCILER"
  using delivered_only_after_payment [OF demo_history] demo_runs by auto

text \<open>
  C3: once a run has been funded it is never cancelled and never expires: whatever commands follow,
  its status stays among the paid ones.
\<close>

theorem funded_run_never_cancelled:
  assumes "run_history evs run" and "FUNDED \<in> set (map ev_to evs)"
  shows "is_paid (run_status_of run) \<and> run_status_of run \<noteq> CANCELLED \<and> run_status_of run \<noteq> EXPIRED"
proof -
  have "chained DRAFT evs (run_status_of run)"
    using run_history_inv [OF assms(1)] by (simp add: run_inv_def)
  then have "is_paid (run_status_of run)"
    using assms(2)
  proof (induction evs arbitrary: run rule: rev_induct)
    case (snoc e es)
    then show ?case
    proof (cases "FUNDED \<in> set (map ev_to es)")
      case True
      have "chained DRAFT es (run_status_of (run\<lparr>run_status_of := ev_from e\<rparr>))" using snoc.prems by simp
      from snoc.IH [OF this True] have "is_paid (ev_from e)" by simp
      then show ?thesis using snoc.prems(1) paid_stays_paid by auto
    qed auto
  qed simp
  then show ?thesis by (cases "run_status_of run") simp_all
qed

theorem funded_run_never_cancelled_witness: "run_status_of (snd demo_outcome) \<noteq> CANCELLED"
  using funded_run_never_cancelled [OF demo_history demo_funded] by simp

text \<open>
  Terminal statuses are exactly the dead ends: some command changes a run if and only if its
  status is not terminal.
\<close>

theorem run_can_move_iff_not_terminal:
  "(\<exists>c r. transitionRun run c = Inr r \<and> tr_event r \<noteq> None)
     \<longleftrightarrow> \<not> isTerminalRunStatus (run_status_of run)"
proof
  assume "\<exists>c r. transitionRun run c = Inr r \<and> tr_event r \<noteq> None"
  then show "\<not> isTerminalRunStatus (run_status_of run)"
    using transitionRun_applied_iff [of run] not_allowed_terminal by metis
next
  assume "\<not> isTerminalRunStatus (run_status_of run)"
  then obtain t as a where rule: "(t, as) \<in> set (transitions (run_status_of run))" "a \<in> set as"
    by (cases "run_status_of run") (fastforce simp: isTerminalRunStatus_def terminal_statuses_def)+
  define keys where "keys = run_appliedIdempotencyKeys run"
  define key where "key = replicate (8 + sum_list (map length keys)) (CHR ''k'')"
  have "length k \<le> sum_list (map length keys)" if "k \<in> set keys" for k
    using that by (intro member_le_sum_list) simp_all
  then have "key \<notin> set keys" by (fastforce simp: key_def)
  have "8 \<le> length key" by (simp add: key_def)
  define at where "at = (if date_parse (run_updatedAt run) = None then ''2026-01-01''
      else run_updatedAt run)"
  have "date_parse ''2026-01-01'' \<noteq> None" by code_simp
  then have "date_parse at \<noteq> None" "\<not> date_before at (run_updatedAt run)"
    by (auto simp: at_def date_before_def split: option.split)
  moreover have "rule_allows (run_status_of run) t a" using rule by (auto simp: rule_allows_iff)
  ultimately show "\<exists>c r. transitionRun run c = Inr r \<and> tr_event r \<noteq> None"
    using \<open>key \<notin> set keys\<close> \<open>8 \<le> length key\<close>
    by (intro exI [of _ "\<lparr>cmd_actor = a, cmd_expectedRevision = run_revision run,
      cmd_idempotencyKey = key, cmd_occurredAt = at, cmd_to = t\<rparr>"])
      (simp add: transitionRun_def assertIsoDate_def keys_def [symmetric] Let_def) 
qed

text \<open>
  Commands are idempotent: replaying an accepted command returns the run it produced unchanged
  and emits no event.
\<close>

theorem transitionRun_idempotent:
  assumes "transitionRun run c = Inr r"
  shows "transitionRun (tr_run r) c = Inr \<lparr>tr_run = tr_run r, tr_event = None, tr_idempotentReplay = True\<rparr>"
  using assms
proof (cases rule: transitionRun_cases)
  case replay
  then show ?thesis by (simp add: transitionRun_def)
next
  case applied
  with assms have "cmd_idempotencyKey c \<in> set (run_appliedIdempotencyKeys (tr_run r))"
    using transitionRun_applied_iff [of run c r] by auto
  then show ?thesis by (simp add: transitionRun_def)
qed

theorem transitionRun_idempotent_witness:
  "\<exists>r. transitionRun demo_draft (hd demo_commands) = Inr r
     \<and> transitionRun (tr_run r) (hd demo_commands)
        = Inr \<lparr>tr_run = tr_run r, tr_event = None, tr_idempotentReplay = True\<rparr>"
proof -
  have "res_ok (transitionRun demo_draft (hd demo_commands))" by code_simp
  then obtain r where "transitionRun demo_draft (hd demo_commands) = Inr r" by (auto simp: res_ok_iff)
  then show ?thesis using transitionRun_idempotent [of demo_draft "hd demo_commands" r] by blast
qed

text \<open>
  Optimistic concurrency: of two different commands issued against the same revision, once one
  is accepted the other is refused with a revision conflict and cannot change the run.
\<close>

theorem concurrent_command_conflicts:
  assumes "transitionRun run c = Inr r" and "tr_event r \<noteq> None"
    and "cmd_expectedRevision d = cmd_expectedRevision c"
    and "cmd_idempotencyKey d \<notin> set (run_appliedIdempotencyKeys (tr_run r))"
    and "8 \<le> length (cmd_idempotencyKey d)"
  shows "transitionRun (tr_run r) d
    = Inl (Run_revision_conflict (cmd_expectedRevision d) (run_revision run + 1))"
proof -
  have "run_revision (tr_run r) = run_revision run + 1" "cmd_expectedRevision c = run_revision run"
    using assms(1,2) transitionRun_applied_iff [of run c r] by auto
  then show ?thesis using assms(3-5) by (simp add: transitionRun_def)
qed

theorem concurrent_command_conflicts_witness:
  "\<exists>r. transitionRun demo_draft (hd demo_commands) = Inr r
     \<and> transitionRun (tr_run r) (demo_cmd ''z'' REQUESTER CANCELLED 0) = Inl (Run_revision_conflict 0 1)"
proof -
  let ?c = "hd demo_commands" and ?d = "demo_cmd ''z'' REQUESTER CANCELLED 0"
  have ok: "res_ok (transitionRun demo_draft ?c)" by code_simp
  then obtain r where r: "transitionRun demo_draft ?c = Inr r" by (auto simp: res_ok_iff)
  have "tr_event (projr (transitionRun demo_draft ?c)) \<noteq> None"
    "cmd_idempotencyKey ?d \<notin> set (run_appliedIdempotencyKeys (tr_run (projr (transitionRun demo_draft ?c))))"
    by code_simp+
  then show ?thesis
    using concurrent_command_conflicts [of demo_draft ?c r ?d] r
    by (simp add: demo_cmd_def demo_commands_def demo_draft_def)
qed

end
