(* ===== verification/Mandate.thy ===== *)
theory Mandate
  imports Hosts Money Run_State
begin

text \<open>
  The spending mandate of a run and the authorization of purchases under it
  (\<open>packages/policy-engine/src/mandate.ts\<close>, \<open>purchase-authorization.ts\<close>).  The schema is modelled on typed
  input: the fields have the TypeScript types, every further requirement is a check of the model.
  \<open>canonicalizeHost\<close> throws out of the schema while the fields are read; then the refinements run, whose
  \<open>BigInt\<close> may throw; then the collected issues, if any, are the validation error.
\<close>

section \<open>The mandate schema\<close>

record run_mandate =
  md_maximumTotalSpend :: string
  md_maximumSinglePurchase :: string
  md_maximumToolCalls :: int
  md_maximumRetriesPerTool :: int
  md_allowedToolAgentIds :: "string list"
  md_allowedHosts :: "string list"
  md_requiredScenarios :: "string list"
  md_additionalSpendApprovalThreshold :: string
  md_deadline :: int

definition is_scenario_char :: "char \<Rightarrow> bool" where
  "is_scenario_char c \<longleftrightarrow> is_lower c \<or> is_digit c"

text \<open>\<open>/^[a-z0-9][a-z0-9_.-]{1,127}$/\<close>\<close>

definition is_scenario_id :: "string \<Rightarrow> bool" where
  "is_scenario_id s \<longleftrightarrow> 2 \<le> length s \<and> length s \<le> 128 \<and> is_scenario_char (hd s)
     \<and> list_all (\<lambda>c. is_scenario_char c \<or> c = CHR ''_'' \<or> c = CHR ''.'' \<or> c = CHR ''-'') (tl s)"

definition issue :: "bool \<Rightarrow> string \<Rightarrow> string list" where
  "issue ok path = (if ok then [] else [path])"

definition field_issues :: "run_mandate \<Rightarrow> string list" where
  "field_issues m =
    issue (is_atomic (md_maximumTotalSpend m)) ''maximumTotalSpend''
    @ issue (is_atomic (md_maximumSinglePurchase m)) ''maximumSinglePurchase''
    @ issue (1 \<le> md_maximumToolCalls m \<and> md_maximumToolCalls m \<le> 100) ''maximumToolCalls''
    @ issue (0 \<le> md_maximumRetriesPerTool m \<and> md_maximumRetriesPerTool m \<le> 5) ''maximumRetriesPerTool''
    @ issue (1 \<le> length (md_allowedToolAgentIds m) \<and> length (md_allowedToolAgentIds m) \<le> 100
        \<and> list_all (\<lambda>s. 1 \<le> length s \<and> length s \<le> 256) (md_allowedToolAgentIds m)) ''allowedToolAgentIds''
    @ issue (1 \<le> length (md_allowedHosts m) \<and> length (md_allowedHosts m) \<le> 100) ''allowedHosts''
    @ issue (1 \<le> length (md_requiredScenarios m) \<and> length (md_requiredScenarios m) \<le> 100
        \<and> list_all is_scenario_id (md_requiredScenarios m)) ''requiredScenarios''
    @ issue (is_atomic (md_additionalSpendApprovalThreshold m)) ''additionalSpendApprovalThreshold''
    @ issue (0 < md_deadline m) ''deadline''"

text \<open>\<open>assertUnique\<close>\<close>

definition unique_issue :: "string list \<Rightarrow> string \<Rightarrow> string list" where
  "unique_issue values path = issue (length (js_unique values) = length values) path"

definition refine_issues :: "run_mandate \<Rightarrow> string list res" where
  "refine_issues m =
    res_bind (js_bigint (md_maximumSinglePurchase m)) (\<lambda>single.
    res_bind (js_bigint (md_maximumTotalSpend m)) (\<lambda>total.
    res_bind (js_bigint (md_additionalSpendApprovalThreshold m)) (\<lambda>threshold.
    Inr (issue (\<not> total < single) ''maximumSinglePurchase''
      @ issue (\<not> total < threshold) ''additionalSpendApprovalThreshold''
      @ unique_issue (md_allowedToolAgentIds m) ''allowedToolAgentIds''
      @ unique_issue (md_allowedHosts m) ''allowedHosts''
      @ unique_issue (md_requiredScenarios m) ''requiredScenarios''
      @ concat (map (\<lambda>h. issue (\<not> isForbiddenHost h) ''allowedHosts'') (md_allowedHosts m))))))"

definition runMandateSchema_parse :: "run_mandate \<Rightarrow> run_mandate res" where
  "runMandateSchema_parse input =
    res_bind (res_map canonicalizeHost (md_allowedHosts input)) (\<lambda>hosts.
    let m = input\<lparr>md_allowedHosts := hosts\<rparr> in
    res_bind (refine_issues m) (\<lambda>refined.
    let issues = field_issues m @ refined in
    if issues = [] then Inr m else Inl (Zod_error issues)))"

definition mandate_wf :: "run_mandate \<Rightarrow> bool" where
  "mandate_wf m \<longleftrightarrow>
    is_atomic (md_maximumTotalSpend m) \<and> is_atomic (md_maximumSinglePurchase m)
    \<and> is_atomic (md_additionalSpendApprovalThreshold m)
    \<and> dec_value (md_maximumSinglePurchase m) \<le> dec_value (md_maximumTotalSpend m)
    \<and> dec_value (md_additionalSpendApprovalThreshold m) \<le> dec_value (md_maximumTotalSpend m)
    \<and> 1 \<le> md_maximumToolCalls m \<and> md_maximumToolCalls m \<le> 100
    \<and> 0 \<le> md_maximumRetriesPerTool m \<and> md_maximumRetriesPerTool m \<le> 5
    \<and> md_allowedToolAgentIds m \<noteq> [] \<and> length (md_allowedToolAgentIds m) \<le> 100
    \<and> distinct (md_allowedToolAgentIds m)
    \<and> (\<forall>s \<in> set (md_allowedToolAgentIds m). 1 \<le> length s \<and> length s \<le> 256)
    \<and> md_allowedHosts m \<noteq> [] \<and> length (md_allowedHosts m) \<le> 100 \<and> distinct (md_allowedHosts m)
    \<and> (\<forall>h \<in> set (md_allowedHosts m). \<not> isForbiddenHost h)
    \<and> md_requiredScenarios m \<noteq> [] \<and> length (md_requiredScenarios m) \<le> 100
    \<and> distinct (md_requiredScenarios m) \<and> (\<forall>s \<in> set (md_requiredScenarios m). is_scenario_id s)
    \<and> 0 < md_deadline m"

lemma issue_Nil [simp]: "issue ok p = [] \<longleftrightarrow> ok"
  by (simp add: issue_def)

lemma unique_issue_Nil [simp]: "unique_issue xs p = [] \<longleftrightarrow> distinct xs"
proof -
  have "length (js_unique xs) = length xs \<longleftrightarrow> distinct xs"
    using card_distinct [of xs] distinct_card [of xs] distinct_card [of "js_unique xs"] by fastforce
  then show ?thesis by (simp add: unique_issue_def)
qed

lemma field_issues_Nil:
  "field_issues m = [] \<Longrightarrow> is_atomic (md_maximumTotalSpend m) \<and> is_atomic (md_maximumSinglePurchase m)
    \<and> is_atomic (md_additionalSpendApprovalThreshold m)"
  by (simp add: field_issues_def)

lemma refine_issues_atomic:
  assumes "is_atomic (md_maximumTotalSpend m)" "is_atomic (md_maximumSinglePurchase m)"
    "is_atomic (md_additionalSpendApprovalThreshold m)"
  shows "refine_issues m = Inr [] \<longleftrightarrow>
    dec_value (md_maximumSinglePurchase m) \<le> dec_value (md_maximumTotalSpend m)
    \<and> dec_value (md_additionalSpendApprovalThreshold m) \<le> dec_value (md_maximumTotalSpend m)
    \<and> distinct (md_allowedToolAgentIds m) \<and> distinct (md_allowedHosts m)
    \<and> distinct (md_requiredScenarios m) \<and> (\<forall>h \<in> set (md_allowedHosts m). \<not> isForbiddenHost h)"
  using assms by (auto simp: refine_issues_def js_bigint_atomic)

text \<open>
  A mandate is accepted exactly when every host canonicalizes and the canonical mandate meets
  all bounds; the accepted mandate is the input with its hosts canonical, so an accepted mandate
  names no forbidden host, no duplicate, and no limit above the total.
\<close>

theorem runMandateSchema_spec:
  "runMandateSchema_parse input = Inr m \<longleftrightarrow>
    (\<exists>hosts. list_all2 (\<lambda>h c. canonicalizeHost h = Inr c) (md_allowedHosts input) hosts
       \<and> m = input\<lparr>md_allowedHosts := hosts\<rparr> \<and> mandate_wf m)"
proof -
  have wf: "field_issues m' = [] \<and> refine_issues m' = Inr [] \<longleftrightarrow> mandate_wf m'" for m'
  proof (cases "is_atomic (md_maximumTotalSpend m') \<and> is_atomic (md_maximumSinglePurchase m')
      \<and> is_atomic (md_additionalSpendApprovalThreshold m')")
    case True
    then show ?thesis
      by (auto simp: refine_issues_atomic field_issues_def mandate_wf_def list_all_iff Suc_le_eq)
  next
    case False
    then show ?thesis using field_issues_Nil [of m'] by (auto simp: mandate_wf_def)
  qed
  have "runMandateSchema_parse input = Inr m \<longleftrightarrow>
      (\<exists>hosts. res_map canonicalizeHost (md_allowedHosts input) = Inr hosts
        \<and> m = input\<lparr>md_allowedHosts := hosts\<rparr>
        \<and> field_issues m = [] \<and> refine_issues m = Inr [])"
    by (auto simp: runMandateSchema_parse_def res_bind_Inr_iff Let_def)
  then show ?thesis by (simp only: wf res_map_Inr_iff)
qed

section \<open>Purchase authorization\<close>

datatype denial_code =
    RUN_TERMINAL | MANDATE_EXPIRED | TOOL_NOT_ALLOWED | HOST_NOT_ALLOWED | SELF_DEALING_TOOL
  | SELF_DEALING_HOST | INVALID_AMOUNT | SINGLE_PURCHASE_LIMIT | TOTAL_SPEND_LIMIT | TOOL_CALL_LIMIT
  | RETRY_LIMIT | ADDITIONAL_APPROVAL_REQUIRED | INVALID_IDEMPOTENCY_KEY

record purchase_intent =
  pi_runId :: string
  pi_toolAgentId :: string
  pi_providerServiceId :: string
  pi_host :: string
  pi_atomicAmount :: string
  pi_idempotencyKey :: string

record purchase_context =
  pc_nowEpochSeconds :: int
  pc_runStatus :: run_status
  pc_currentTotalSpend :: string
  pc_completedToolCalls :: int
  pc_priorAttemptsForTool :: int
  pc_shipyardAgentId :: string
  pc_shipyardControlledHosts :: "string list"
  pc_additionalSpendApproved :: bool

record purchase_audit =
  au_runId :: string
  au_toolAgentId :: string
  au_providerServiceId :: string
  au_host :: string
  au_atomicAmount :: string
  au_idempotencyKey :: string
  au_evaluatedAt :: int

record purchase_authorization =
  pa_authorized :: bool
  pa_denialCodes :: "denial_code list"
  pa_projectedTotalSpend :: string
  pa_audit :: purchase_audit

definition deny :: "bool \<Rightarrow> denial_code \<Rightarrow> denial_code list" where
  "deny b code = (if b then [code] else [])"

definition authorizePurchase ::
  "run_mandate \<Rightarrow> purchase_intent \<Rightarrow> purchase_context \<Rightarrow> purchase_authorization res" where
  "authorizePurchase mandate intent ctx =
    res_bind (parseAtomicAmount (pc_currentTotalSpend ctx)) (\<lambda>currentSpend.
    let parsed = parseAtomicAmount (pi_atomicAmount intent);
        amount = (case parsed of Inr v \<Rightarrow> v | Inl _ \<Rightarrow> 0);
        d1 = deny (amount = 0) INVALID_AMOUNT;
        projectedTotalSpend = currentSpend + amount;
        canonical = canonicalizeHost (pi_host intent);
        host = (case canonical of Inr h \<Rightarrow> h | Inl _ \<Rightarrow> pi_host intent);
        d2 = deny (\<not> res_ok canonical) HOST_NOT_ALLOWED
          @ deny (isTerminalRunStatus (pc_runStatus ctx)) RUN_TERMINAL
          @ deny (md_deadline mandate < pc_nowEpochSeconds ctx) MANDATE_EXPIRED
          @ deny (pi_toolAgentId intent \<notin> set (md_allowedToolAgentIds mandate)) TOOL_NOT_ALLOWED
          @ deny (host \<notin> set (md_allowedHosts mandate)) HOST_NOT_ALLOWED
          @ deny (pi_toolAgentId intent = pc_shipyardAgentId ctx) SELF_DEALING_TOOL
    in
    res_bind (res_map canonicalizeHost (pc_shipyardControlledHosts ctx)) (\<lambda>controlledHosts.
    res_bind (js_bigint (md_maximumSinglePurchase mandate)) (\<lambda>maxSingle.
    res_bind (js_bigint (md_maximumTotalSpend mandate)) (\<lambda>maxTotal.
    res_bind (js_bigint (md_additionalSpendApprovalThreshold mandate)) (\<lambda>threshold.
    let d3 = deny (host \<in> set controlledHosts) SELF_DEALING_HOST
          @ deny (maxSingle < amount) SINGLE_PURCHASE_LIMIT
          @ deny (maxTotal < projectedTotalSpend) TOTAL_SPEND_LIMIT
          @ deny (md_maximumToolCalls mandate \<le> pc_completedToolCalls ctx) TOOL_CALL_LIMIT
          @ deny (md_maximumRetriesPerTool mandate < pc_priorAttemptsForTool ctx) RETRY_LIMIT
          @ deny (threshold < projectedTotalSpend \<and> \<not> pc_additionalSpendApproved ctx)
              ADDITIONAL_APPROVAL_REQUIRED
          @ deny (length (pi_idempotencyKey intent) < 16 \<or> 200 < length (pi_idempotencyKey intent))
              INVALID_IDEMPOTENCY_KEY;
        denialCodes = d1 @ d2 @ d3
    in Inr \<lparr>pa_authorized = (denialCodes = []), pa_denialCodes = js_unique denialCodes,
         pa_projectedTotalSpend = int_to_string projectedTotalSpend,
         pa_audit = \<lparr>au_runId = pi_runId intent, au_toolAgentId = pi_toolAgentId intent,
           au_providerServiceId = pi_providerServiceId intent, au_host = host,
           au_atomicAmount = pi_atomicAmount intent, au_idempotencyKey = pi_idempotencyKey intent,
           au_evaluatedAt = pc_nowEpochSeconds ctx\<rparr>\<rparr>)))))"

lemma deny_Nil [simp]: "deny b c = [] \<longleftrightarrow> \<not> b"
  by (simp add: deny_def)

text \<open>What an authorization means, over the mandate's numbers.\<close>

definition may_purchase :: "run_mandate \<Rightarrow> purchase_intent \<Rightarrow> purchase_context \<Rightarrow> bool" where
  "may_purchase m i x \<longleftrightarrow>
    is_atomic (pi_atomicAmount i) \<and> 0 < dec_value (pi_atomicAmount i)
    \<and> canonicalizeHost (pi_host i) = Inr (canonical_form (pi_host i))
    \<and> canonical_form (pi_host i) \<in> set (md_allowedHosts m)
    \<and> canonical_form (pi_host i) \<notin> canonical_form ` set (pc_shipyardControlledHosts x)
    \<and> pi_toolAgentId i \<in> set (md_allowedToolAgentIds m) \<and> pi_toolAgentId i \<noteq> pc_shipyardAgentId x
    \<and> \<not> isTerminalRunStatus (pc_runStatus x) \<and> pc_nowEpochSeconds x \<le> md_deadline m
    \<and> dec_value (pi_atomicAmount i) \<le> dec_value (md_maximumSinglePurchase m)
    \<and> dec_value (pc_currentTotalSpend x) + dec_value (pi_atomicAmount i) \<le> dec_value (md_maximumTotalSpend m)
    \<and> (dec_value (pc_currentTotalSpend x) + dec_value (pi_atomicAmount i)
          \<le> dec_value (md_additionalSpendApprovalThreshold m) \<or> pc_additionalSpendApproved x)
    \<and> pc_completedToolCalls x < md_maximumToolCalls m
    \<and> pc_priorAttemptsForTool x \<le> md_maximumRetriesPerTool m
    \<and> 16 \<le> length (pi_idempotencyKey i) \<and> length (pi_idempotencyKey i) \<le> 200"

lemma controlled_hosts_set:
  "res_map canonicalizeHost hs = Inr cs \<Longrightarrow> set cs = canonical_form ` set hs"
  unfolding res_map_Inr_iff by (induction rule: list_all2_induct) (auto simp: canonicalizeHost_Inr)

lemma authorizePurchase_iff:
  assumes wf: "mandate_wf m" and spend: "is_atomic (pc_currentTotalSpend x)"
    and ctrl: "\<forall>h \<in> set (pc_shipyardControlledHosts x). res_ok (canonicalizeHost h)"
  shows "\<exists>a. authorizePurchase m i x = Inr a \<and> pa_authorized a = may_purchase m i x
    \<and> (pa_denialCodes a = [] \<longleftrightarrow> pa_authorized a)
    \<and> (pa_authorized a \<longrightarrow> pa_projectedTotalSpend a
         = nat_to_string (dec_value (pc_currentTotalSpend x) + dec_value (pi_atomicAmount i)))"
proof -
  obtain cs where cs: "res_map canonicalizeHost (pc_shipyardControlledHosts x) = Inr cs"
    using ctrl res_map_ok_iff [of canonicalizeHost "pc_shipyardControlledHosts x"] by (auto simp: res_ok_iff)
  note set_cs = controlled_hosts_set [OF cs]
  have m: "is_atomic (md_maximumTotalSpend m)" "is_atomic (md_maximumSinglePurchase m)"
    "is_atomic (md_additionalSpendApprovalThreshold m)" using wf by (simp_all add: mandate_wf_def)
  show ?thesis
  proof (cases "canonicalizeHost (pi_host i)")
    case (Inl e)
    then show ?thesis using m spend
      by (auto simp: authorizePurchase_def js_bigint_atomic parseAtomicAmount_def cs Let_def may_purchase_def
        deny_def)
  next
    case (Inr h)
    then have h: "h = canonical_form (pi_host i)" by (simp add: canonicalizeHost_Inr)
    show ?thesis
    proof (cases "is_atomic (pi_atomicAmount i)")
      case True
      then show ?thesis using m spend Inr
        by (auto simp: authorizePurchase_def js_bigint_atomic parseAtomicAmount_def cs Let_def may_purchase_def
          set_cs h int_to_string_nonneg nat_add_distrib not_less not_le)
    next
      case False
      then show ?thesis using m spend Inr
        by (auto simp: authorizePurchase_def js_bigint_atomic parseAtomicAmount_def cs Let_def may_purchase_def
          deny_def)
    qed
  qed
qed

lemma authorizePurchase_ok_parts:
  assumes "authorizePurchase m i x = Inr a"
  shows "is_atomic (pc_currentTotalSpend x)"
    and "\<forall>h \<in> set (pc_shipyardControlledHosts x). res_ok (canonicalizeHost h)"
proof -
  from assms show "is_atomic (pc_currentTotalSpend x)"
    by (simp add: authorizePurchase_def res_bind_Inr_iff parseAtomicAmount_Inr_iff Let_def)
  from assms have "\<exists>cs. res_map canonicalizeHost (pc_shipyardControlledHosts x) = Inr cs"
    unfolding authorizePurchase_def Let_def by (auto simp only: res_bind_Inr_iff)
  then show "\<forall>h \<in> set (pc_shipyardControlledHosts x). res_ok (canonicalizeHost h)"
    using res_map_ok_iff [of canonicalizeHost "pc_shipyardControlledHosts x"] by (simp add: res_ok_iff)
qed

definition demo_mandate :: run_mandate where
  "demo_mandate = \<lparr>md_maximumTotalSpend = ''100'', md_maximumSinglePurchase = ''60'',
     md_maximumToolCalls = 3, md_maximumRetriesPerTool = 1, md_allowedToolAgentIds = [''agent-1''],
     md_allowedHosts = [''tool.example.com''], md_requiredScenarios = [''replay''],
     md_additionalSpendApprovalThreshold = ''100'', md_deadline = 2000000000\<rparr>"

definition demo_intent :: "string \<Rightarrow> purchase_intent" where
  "demo_intent amount = \<lparr>pi_runId = ''run-1'', pi_toolAgentId = ''agent-1'',
     pi_providerServiceId = ''svc-1'', pi_host = ''Tool.Example.com'', pi_atomicAmount = amount,
     pi_idempotencyKey = ''run-1:tool-purchase''\<rparr>"

definition demo_context :: purchase_context where
  "demo_context = \<lparr>pc_nowEpochSeconds = 1900000000, pc_runStatus = PROCURING,
     pc_currentTotalSpend = ''0'', pc_completedToolCalls = 0, pc_priorAttemptsForTool = 0,
     pc_shipyardAgentId = ''shipyard'', pc_shipyardControlledHosts = [''api.shipyard.test''],
     pc_additionalSpendApproved = False\<rparr>"

lemma demo_mandate_wf: "mandate_wf demo_mandate"
  by code_simp

lemma demo_controlled: "\<forall>h \<in> set (pc_shipyardControlledHosts demo_context). res_ok (canonicalizeHost h)"
  by code_simp

lemma demo_may_purchase: "may_purchase demo_mandate (demo_intent ''60'') demo_context"
  by code_simp

text \<open>
  C31: under an accepted mandate a purchase is authorized exactly when the conjunction of all limits
  holds (positive canonical amount, allowed and not self-controlled host, allowed tool that is not the
  shipyard itself, live run, deadline, single and total limits, approval threshold, call and retry
  counts, idempotency key length); an authorization carries no denial code and a refusal carries
  one; and the projected spend is exact.
\<close>

theorem authorizePurchase_spec:
  assumes "mandate_wf m" and "is_atomic (pc_currentTotalSpend x)"
    and "\<forall>h \<in> set (pc_shipyardControlledHosts x). res_ok (canonicalizeHost h)"
  shows "\<exists>a. authorizePurchase m i x = Inr a \<and> pa_authorized a = may_purchase m i x
    \<and> (pa_denialCodes a = [] \<longleftrightarrow> pa_authorized a)
    \<and> (pa_authorized a \<longrightarrow> pa_projectedTotalSpend a
         = nat_to_string (dec_value (pc_currentTotalSpend x) + dec_value (pi_atomicAmount i)))"
  using assms by (rule authorizePurchase_iff)

theorem authorizePurchase_spec_witness:
  "\<exists>a. authorizePurchase demo_mandate (demo_intent ''60'') demo_context = Inr a \<and> pa_authorized a"
proof -
  have "is_atomic (pc_currentTotalSpend demo_context)" by code_simp
  from authorizePurchase_spec [OF demo_mandate_wf this demo_controlled, of "demo_intent ''60''"]
  show ?thesis using demo_may_purchase by auto
qed

text \<open>A sequence of purchases, each evaluated against what the authorized ones before it spent.\<close>

definition spend_step :: "run_mandate \<Rightarrow> string \<Rightarrow> purchase_intent \<times> purchase_context \<Rightarrow> string res" where
  "spend_step m spent p =
    res_bind (authorizePurchase m (fst p) ((snd p)\<lparr>pc_currentTotalSpend := spent\<rparr>)) (\<lambda>a.
      Inr (if pa_authorized a then pa_projectedTotalSpend a else spent))"

lemma spend_step_bounded:
  assumes wf: "mandate_wf m" and s: "is_atomic s" "dec_value s \<le> dec_value (md_maximumTotalSpend m)"
    and step: "spend_step m s p = Inr s'"
  shows "is_atomic s' \<and> dec_value s \<le> dec_value s' \<and> dec_value s' \<le> dec_value (md_maximumTotalSpend m)
    \<and> (s' \<noteq> s \<longrightarrow> dec_value s' - dec_value s \<le> dec_value (md_maximumSinglePurchase m))"
proof -
  let ?x = "(snd p)\<lparr>pc_currentTotalSpend := s\<rparr>"
  from step obtain a where a: "authorizePurchase m (fst p) ?x = Inr a"
    and s': "s' = (if pa_authorized a then pa_projectedTotalSpend a else s)"
    by (auto simp: spend_step_def res_bind_Inr_iff)
  from authorizePurchase_iff [OF wf authorizePurchase_ok_parts [OF a], of "fst p"]
  have "pa_authorized a = may_purchase m (fst p) ?x"
    "pa_authorized a \<longrightarrow> s' = nat_to_string (dec_value s + dec_value (pi_atomicAmount (fst p)))"
    using a s' by auto
  then show ?thesis using s s' by (auto simp: may_purchase_def)
qed



end
