(* ===== verification/Json.thy ===== *)
theory Json
  imports Js_String "HOL-Library.Multiset"
begin

text \<open>
  Canonical JSON: \<open>JSON.stringify\<close> on primitives and the \<open>canonicalJson\<close> function that quotes, evidence
  packs and scenario evidence are hashed over (\<open>packages/quote-engine/src/quote-engine.ts\<close>,
  \<open>apps/orchestrator-worker/src/evidence-builder.ts\<close>,
  \<open>packages/protected-delivery-runner/src/scenario-shared.ts\<close>).  The key order is a parameter:
  the first two sort with \<open>localeCompare\<close>, the last by code units.  Numbers are integers.
\<close>

section \<open>Values and printing\<close>

datatype json =
    JNull | JBool bool | JNum int | JStr string | JArr "json list" | JObj "(string \<times> json) list"

text \<open>Characters \<open>JSON.stringify\<close> escapes in a string; all others stand for themselves.\<close>

definition escape_table :: "(char \<times> string) list" where
  "escape_table =
    [(CHR 0x22, [CHR 0x5C, CHR 0x22]), (CHR 0x5C, [CHR 0x5C, CHR 0x5C]),
     (CHR 0x08, [CHR 0x5C, CHR ''b'']), (CHR 0x09, [CHR 0x5C, CHR ''t'']), (CHR 0x0A, [CHR 0x5C, CHR ''n'']),
     (CHR 0x0C, [CHR 0x5C, CHR ''f'']), (CHR 0x0D, [CHR 0x5C, CHR ''r'']),
     (CHR 0x00, CHR 0x5C # ''u0000''), (CHR 0x01, CHR 0x5C # ''u0001''), (CHR 0x02, CHR 0x5C # ''u0002''),
     (CHR 0x03, CHR 0x5C # ''u0003''), (CHR 0x04, CHR 0x5C # ''u0004''), (CHR 0x05, CHR 0x5C # ''u0005''),
     (CHR 0x06, CHR 0x5C # ''u0006''), (CHR 0x07, CHR 0x5C # ''u0007''), (CHR 0x0B, CHR 0x5C # ''u000b''),
     (CHR 0x0E, CHR 0x5C # ''u000e''), (CHR 0x0F, CHR 0x5C # ''u000f''), (CHR 0x10, CHR 0x5C # ''u0010''),
     (CHR 0x11, CHR 0x5C # ''u0011''), (CHR 0x12, CHR 0x5C # ''u0012''), (CHR 0x13, CHR 0x5C # ''u0013''),
     (CHR 0x14, CHR 0x5C # ''u0014''), (CHR 0x15, CHR 0x5C # ''u0015''), (CHR 0x16, CHR 0x5C # ''u0016''),
     (CHR 0x17, CHR 0x5C # ''u0017''), (CHR 0x18, CHR 0x5C # ''u0018''), (CHR 0x19, CHR 0x5C # ''u0019''),
     (CHR 0x1A, CHR 0x5C # ''u001a''), (CHR 0x1B, CHR 0x5C # ''u001b''), (CHR 0x1C, CHR 0x5C # ''u001c''),
     (CHR 0x1D, CHR 0x5C # ''u001d''), (CHR 0x1E, CHR 0x5C # ''u001e''), (CHR 0x1F, CHR 0x5C # ''u001f'')]"

definition escape_char :: "char \<Rightarrow> string" where
  "escape_char c = (case map_of escape_table c of Some e \<Rightarrow> e | None \<Rightarrow> [c])"

definition quote_char :: char where "quote_char = CHR 0x22"

definition json_string :: "string \<Rightarrow> string" where
  "json_string s = quote_char # concat (map escape_char s) @ [quote_char]"

fun insort_by :: "('a \<Rightarrow> 'a \<Rightarrow> bool) \<Rightarrow> 'a \<Rightarrow> 'a list \<Rightarrow> 'a list" where
  "insort_by le x [] = [x]"
| "insort_by le x (y # ys) = (if le x y then x # y # ys else y # insort_by le x ys)"

text \<open>\<open>Array.prototype.sort\<close>: stable, by a comparator.\<close>

definition sort_by :: "('a \<Rightarrow> 'a \<Rightarrow> bool) \<Rightarrow> 'a list \<Rightarrow> 'a list" where
  "sort_by le xs = foldr (insort_by le) xs []"

definition key_le :: "(string \<Rightarrow> string \<Rightarrow> bool) \<Rightarrow> string \<times> 'a \<Rightarrow> string \<times> 'a \<Rightarrow> bool" where
  "key_le le a b = le (fst a) (fst b)"

lemma size_json_list: "v \<in> set vs \<Longrightarrow> size v < Suc (size_list size vs)"
  by (induction vs) auto

lemma size_json_pairs: "(k, v) \<in> set kvs \<Longrightarrow> size v < Suc (size_list (size_prod (\<lambda>_. 0) size) kvs)"
  by (induction kvs) auto

function canonicalJson :: "(string \<Rightarrow> string \<Rightarrow> bool) \<Rightarrow> json \<Rightarrow> string" where
  "canonicalJson le JNull = ''null''"
| "canonicalJson le (JBool b) = (if b then ''true'' else ''false'')"
| "canonicalJson le (JNum i) = int_to_string i"
| "canonicalJson le (JStr s) = json_string s"
| "canonicalJson le (JArr vs) = ''['' @ join_with '','' (map (\<lambda>v. canonicalJson le v) vs) @ '']''"
| "canonicalJson le (JObj kvs) =
     ''{'' @ join_with '',''
        (map (\<lambda>(k, t). json_string k @ '':'' @ t)
          (sort_by (key_le le) (map (\<lambda>(k, v). (k, canonicalJson le v)) kvs))) @ ''}''"
  by pat_completeness auto
termination
  by (relation "measure (\<lambda>(_, v). size v)") (auto intro: size_json_list size_json_pairs)

section \<open>Sorting\<close>

lemma mset_insort_by [simp]: "mset (insort_by le x xs) = add_mset x (mset xs)"
  by (induction xs) auto

lemma mset_sort_by [simp]: "mset (sort_by le xs) = mset xs"
  by (induction xs) (auto simp: sort_by_def)

lemma set_sort_by [simp]: "set (sort_by le xs) = set xs"
  by (metis mset_sort_by set_mset_mset)

lemma map_insort_by: "(\<And>a b. le' (f a) (f b) = le a b) \<Longrightarrow> map f (insort_by le x xs) = insort_by le' (f x) (map f xs)"
  by (induction xs) auto

lemma map_sort_by:
  assumes "\<And>a b. le' (f a) (f b) = le a b"
  shows "map f (sort_by le xs) = sort_by le' (map f xs)"
  by (induction xs) (auto simp: sort_by_def map_insort_by [of le' f le, OF assms])

lemma set_insort_by: "set (insort_by le x xs) = insert x (set xs)"
  by (metis mset_insort_by set_mset_add_mset_insert set_mset_mset)

lemma sorted_sort_by:
  assumes "\<And>a b. le a b \<or> le b a" and "\<And>a b c. le a b \<Longrightarrow> le b c \<Longrightarrow> le a c"
  shows "sorted_wrt le (sort_by le xs)"
proof -
  have "sorted_wrt le (insort_by le x ys)" if "sorted_wrt le ys" for x ys
    using that
  proof (induction ys)
    case (Cons y ys)
    show ?case
    proof (cases "le x y")
      case True
      then show ?thesis using Cons.prems assms(2) by auto
    next
      case False
      then have "le y x" using assms(1) by blast
      then show ?thesis using False Cons by (auto simp: set_insort_by)
    qed
  qed simp
  then show ?thesis by (induction xs) (auto simp: sort_by_def)
qed

lemma sorted_wrt_unique:
  "sorted_wrt le xs \<Longrightarrow> sorted_wrt le ys \<Longrightarrow> mset xs = mset ys \<Longrightarrow>
     \<forall>a \<in> set xs. \<forall>b \<in> set xs. le a b \<and> le b a \<longrightarrow> a = b \<Longrightarrow> xs = ys"
proof (induction xs arbitrary: ys)
  case (Cons x xs)
  then obtain y ys' where ys: "ys = y # ys'" by (cases ys) auto
  have set: "set (x # xs) = set (y # ys')" using Cons.prems(3) ys by (metis set_mset_mset)
  have "x = y"
  proof (rule ccontr)
    assume "x \<noteq> y"
    then have "y \<in> set xs" "x \<in> set ys'" using set by auto
    then show False using Cons.prems(1,2,4) ys \<open>x \<noteq> y\<close> by auto
  qed
  then show ?case using Cons ys by auto
qed simp

text \<open>
  What the comparator of a sort has to satisfy for the sort to be one: a collation is total and
  transitive.  It may compare distinct strings as equal, as \<open>localeCompare\<close> does for canonically
  equivalent ones; a linear order of the keys does not.
\<close>

locale collation =
  fixes le :: "string \<Rightarrow> string \<Rightarrow> bool"
  assumes total: "le a b \<or> le b a"
    and transitive: "le a b \<Longrightarrow> le b c \<Longrightarrow> le a c"
begin

lemma sorted_by_key: "sorted_wrt (key_le le) (sort_by (key_le le) (xs :: (string \<times> 'a) list))"
  by (rule sorted_sort_by; unfold key_le_def) (use total transitive in \<open>blast+\<close>)

text \<open>Where no two keys compare as equal, the sorted list does not depend on the order of the input.\<close>

lemma sort_unambiguous:
  fixes xs ys :: "(string \<times> 'a) list"
  assumes "mset xs = mset ys" and "sorted_wrt (\<lambda>a b. \<not> (le a b \<and> le b a)) (map fst xs)"
  shows "sort_by (key_le le) xs = sort_by (key_le le) ys"
proof (rule sorted_wrt_unique [OF sorted_by_key sorted_by_key])
  have "a = b \<or> \<not> (key_le le a b \<and> key_le le b a)" if "a \<in> set xs" "b \<in> set xs" for a b
    using assms(2) that by (induction xs) (auto simp: key_le_def)
  then show "\<forall>a \<in> set (sort_by (key_le le) xs). \<forall>b \<in> set (sort_by (key_le le) xs).
      key_le le a b \<and> key_le le b a \<longrightarrow> a = b" by auto
qed (use assms(1) in simp)

end

locale key_order = collation +
  assumes antisymmetric: "le a b \<Longrightarrow> le b a \<Longrightarrow> a = b"
begin

lemma sort_strings_permuted: "mset xs = mset ys \<Longrightarrow> sort_by le xs = sort_by le ys"
  by (rule sorted_wrt_unique [of le])
    (use total transitive antisymmetric in \<open>auto intro!: sorted_sort_by\<close>)

end

interpretation code_units: key_order "\<lambda>a b. a \<le> b"
  by unfold_locales auto

section \<open>Normal forms\<close>

text \<open>The value with the keys of every object sorted, and printing without sorting.\<close>

function normal_json :: "(string \<Rightarrow> string \<Rightarrow> bool) \<Rightarrow> json \<Rightarrow> json" where
  "normal_json le (JArr vs) = JArr (map (\<lambda>v. normal_json le v) vs)"
| "normal_json le (JObj kvs) = JObj (sort_by (key_le le) (map (\<lambda>(k, v). (k, normal_json le v)) kvs))"
| "normal_json le JNull = JNull"
| "normal_json le (JBool b) = JBool b"
| "normal_json le (JNum i) = JNum i"
| "normal_json le (JStr s) = JStr s"
  by pat_completeness auto
termination
  by (relation "measure (\<lambda>(_, v). size v)") (auto intro: size_json_list size_json_pairs)

function print_json :: "json \<Rightarrow> string" where
  "print_json JNull = ''null''"
| "print_json (JBool b) = (if b then ''true'' else ''false'')"
| "print_json (JNum i) = int_to_string i"
| "print_json (JStr s) = json_string s"
| "print_json (JArr vs) = ''['' @ join_with '','' (map (\<lambda>v. print_json v) vs) @ '']''"
| "print_json (JObj kvs) =
     ''{'' @ join_with '','' (map (\<lambda>(k, v). json_string k @ '':'' @ print_json v) kvs) @ ''}''"
  by pat_completeness auto
termination
  by (relation "measure size") (auto intro: size_json_list size_json_pairs)

lemma canonicalJson_print: "canonicalJson le v = print_json (normal_json le v)"
proof (induction le v rule: canonicalJson.induct)
  case (5 le vs)
  then show ?case by (simp cong: map_cong)
next
  case (6 le kvs)
  let ?p = "\<lambda>(k, v). (k, print_json v)"
  have "map (\<lambda>(k, v). (k, canonicalJson le v)) kvs = map ?p (map (\<lambda>(k, v). (k, normal_json le v)) kvs)"
    using 6 by auto
  then have "sort_by (key_le le) (map (\<lambda>(k, v). (k, canonicalJson le v)) kvs)
      = map ?p (sort_by (key_le le) (map (\<lambda>(k, v). (k, normal_json le v)) kvs))"
    by (simp only:) (rule map_sort_by [symmetric], auto simp: key_le_def)
  then show ?case by (simp add: comp_def case_prod_unfold)
qed simp_all

section \<open>Unique readability\<close>

lemma table_prefix_free:
  "list_all (\<lambda>(c, e). list_all (\<lambda>(d, f). c = d \<or> \<not> prefix e f) escape_table) escape_table"
  by code_simp

lemma table_backslash: "list_all (\<lambda>(c, e). e \<noteq> [] \<and> hd e = CHR 0x5C) escape_table"
  by code_simp

lemma backslash_escaped: "map_of escape_table (CHR 0x5C) \<noteq> None \<and> map_of escape_table quote_char \<noteq> None"
  by code_simp

lemma escape_char_prefix:
  assumes "escape_char c @ x = escape_char d @ y"
  shows "c = d \<and> x = y"
proof -
  have bs: "\<exists>r. e = CHR 0x5C # r" if "map_of escape_table b = Some e" for b e
    using map_of_SomeD [OF that] table_backslash by (cases e) (auto simp: list_all_iff)
  have "c = d"
  proof (cases "map_of escape_table c"; cases "map_of escape_table d")
    fix e f assume e: "map_of escape_table c = Some e" and f: "map_of escape_table d = Some f"
    then have "e @ x = f @ y" using assms by (simp add: escape_char_def)
    then have "prefix e f \<or> prefix f e" by (metis prefix_same_cases prefixI)
    then show "c = d"
      using table_prefix_free map_of_SomeD [OF e] map_of_SomeD [OF f] by (fastforce simp: list_all_iff)
  next
    fix e assume "map_of escape_table c = Some e" "map_of escape_table d = None"
    then show "c = d" using bs assms backslash_escaped by (fastforce simp: escape_char_def)
  next
    fix f assume "map_of escape_table c = None" "map_of escape_table d = Some f"
    then show "c = d" using bs assms backslash_escaped by (fastforce simp: escape_char_def)
  qed (use assms in \<open>simp add: escape_char_def\<close>)
  then show ?thesis using assms by simp
qed

lemma escape_char_Cons: "\<exists>e es. escape_char c = e # es \<and> e \<noteq> quote_char"
proof (cases "map_of escape_table c")
  case None
  then show ?thesis using backslash_escaped by (auto simp: escape_char_def)
next
  case (Some e)
  then show ?thesis using map_of_SomeD [OF Some] table_backslash
    by (cases e) (auto simp: escape_char_def list_all_iff quote_char_def)
qed

lemma escaped_unique:
  "concat (map escape_char s) @ quote_char # x = concat (map escape_char t) @ quote_char # y \<Longrightarrow> s = t \<and> x = y"
proof (induction s arbitrary: t)
  case Nil
  show ?case
  proof (cases t)
    case (Cons d t')
    then show ?thesis using Nil escape_char_Cons [of d] by auto
  qed (use Nil in simp)
next
  case (Cons c s)
  obtain d t' where t: "t = d # t'" using Cons.prems escape_char_Cons [of c] by (cases t) auto
  with Cons.prems have "escape_char c @ (concat (map escape_char s) @ quote_char # x)
      = escape_char d @ (concat (map escape_char t') @ quote_char # y)" by simp
  from escape_char_prefix [OF this] t Cons.IH show ?case by blast
qed

lemma json_string_unique: "json_string s @ x = json_string t @ y \<Longrightarrow> s = t \<and> x = y"
  using escaped_unique [of s x t y] by (simp add: json_string_def)

definition ends_value :: "string \<Rightarrow> bool" where
  "ends_value s \<longleftrightarrow> s = [] \<or> hd s \<in> {CHR '','', CHR '']'', CHR ''}''}"

definition num_char :: "char \<Rightarrow> bool" where
  "num_char c \<longleftrightarrow> is_digit c \<or> c = CHR ''-''"

lemma num_chars: "list_all num_char (int_to_string i)"
  using nat_to_string_digits by (simp add: int_to_string_def num_char_def list_all_iff)

lemma int_to_string_nonempty [simp]: "int_to_string i \<noteq> []"
  by (simp add: int_to_string_def)

lemma takeWhile_num: "ends_value s \<Longrightarrow> takeWhile num_char (int_to_string i @ s) = int_to_string i"
proof -
  assume "ends_value s"
  then have "takeWhile num_char s = []"
    by (cases s) (auto simp: ends_value_def num_char_def is_digit_def code_unit_def)
  then show ?thesis using num_chars [of i] by (simp add: list_all_iff)
qed

lemma num_unique:
  assumes "int_to_string i @ x = int_to_string j @ y" "ends_value x" "ends_value y"
  shows "i = j \<and> x = y"
proof -
  have "int_to_string i = int_to_string j" using assms takeWhile_num by metis
  then show ?thesis using assms(1) int_to_string_inj by simp
qed

lemma join_with_Cons: "join_with d (a # as) = a @ (if as = [] then [] else d @ join_with d as)"
  by (cases as) simp_all

text \<open>Comma-separated sequences are readable when their items are.\<close>

lemma sequence_unique:
  assumes item: "\<And>v w x y. v \<in> set vs \<Longrightarrow> f v @ x = f w @ y \<Longrightarrow> ends_value x \<Longrightarrow> ends_value y \<Longrightarrow> v = w \<and> x = y"
    and start: "\<And>w. \<exists>h t. f w = h # t \<and> h \<noteq> c"
    and c: "c = CHR '']'' \<or> c = CHR ''}''"
    and eq: "join_with '','' (map f vs) @ c # x = join_with '','' (map f ws) @ c # y"
  shows "vs = ws \<and> x = y"
  using item eq
proof (induction vs arbitrary: ws)
  case Nil
  show ?case
  proof (cases ws)
    case (Cons w ws')
    then show ?thesis using Nil start [of w] by (auto simp: join_with_Cons)
  qed (use Nil in simp)
next
  case (Cons v vs)
  obtain w ws' where ws: "ws = w # ws'"
    using Cons.prems(2) start [of v] by (cases ws) (auto simp: join_with_Cons)
  let ?r = "(if map f vs = [] then [] else '','' @ join_with '','' (map f vs)) @ c # x"
  let ?r' = "(if map f ws' = [] then [] else '','' @ join_with '','' (map f ws')) @ c # y"
  have "f v @ ?r = f w @ ?r'" using Cons.prems(2) by (simp add: ws join_with_Cons)
  moreover have "ends_value ?r" "ends_value ?r'" using c by (auto simp: ends_value_def)
  ultimately have "v = w \<and> ?r = ?r'" by (intro Cons.prems(1)) simp_all
  then have vw: "v = w" and r: "?r = ?r'" by blast+
  have "vs = ws' \<and> x = y"
  proof (cases "vs = []"; cases "ws' = []")
    assume "vs \<noteq> []" "ws' \<noteq> []"
    then have "join_with '','' (map f vs) @ c # x = join_with '','' (map f ws') @ c # y" using r by simp
    then show ?thesis using Cons.IH Cons.prems(1) by (meson list.set_intros(2))
  qed (use r c in auto)
  then show ?case using vw ws by simp
qed

definition kind_of_char :: "char \<Rightarrow> nat" where
  "kind_of_char c =
    (if c = CHR ''n'' then 0 else if c = CHR ''t'' \<or> c = CHR ''f'' then 1 else if num_char c then 2
     else if c = quote_char then 3 else if c = CHR ''['' then 4 else if c = CHR ''{'' then 5 else 6)"

fun kind :: "json \<Rightarrow> nat" where
  "kind JNull = 0" | "kind (JBool _) = 1" | "kind (JNum _) = 2" | "kind (JStr _) = 3"
| "kind (JArr _) = 4" | "kind (JObj _) = 5"

lemma print_json_start: "\<exists>h t. print_json v = h # t \<and> kind_of_char h = kind v"
proof (cases v)
  case (JNum i)
  obtain h t where h: "int_to_string i = h # t" by (meson int_to_string_nonempty neq_Nil_conv)
  with num_chars [of i] have "num_char h" by simp
  moreover have "\<not> num_char (CHR ''n'')" "\<not> num_char (CHR ''t'')" "\<not> num_char (CHR ''f'')"
    by (simp_all add: num_char_def is_digit_def code_unit_def)
  ultimately have "kind_of_char h = 2" by (auto simp: kind_of_char_def)
  then show ?thesis using JNum h by simp
qed (simp_all add: kind_of_char_def json_string_def quote_char_def num_char_def is_digit_def code_unit_def)

lemma print_json_kind: "print_json v @ x = print_json w @ y \<Longrightarrow> kind v = kind w"
  using print_json_start [of v] print_json_start [of w] by auto

lemma start_not_close: "\<exists>h t. print_json w = h # t \<and> h \<noteq> CHR '']''"
proof -
  have "kind_of_char (CHR '']'') = 6" by code_simp
  moreover have "kind w < 6" by (cases w) simp_all
  ultimately show ?thesis using print_json_start [of w] by (metis less_irrefl)
qed

lemma print_json_unique:
  "print_json v @ x = print_json w @ y \<Longrightarrow> ends_value x \<Longrightarrow> ends_value y \<Longrightarrow> v = w \<and> x = y"
proof (induction v arbitrary: w x y rule: print_json.induct)
  case 1
  then have "kind w = 0" using print_json_kind [of JNull] by fastforce
  then show ?case using 1 by (cases w) simp_all
next
  case (2 b)
  then have "kind w = 1" using print_json_kind [of "JBool b"] by fastforce
  then show ?case using 2 by (cases w) (simp_all split: if_splits)
next
  case (3 i)
  then have "kind w = 2" using print_json_kind [of "JNum i"] by fastforce
  then obtain j where "w = JNum j" by (cases w) simp_all
  then show ?case using 3 num_unique [of i x j y] by simp
next
  case (4 s)
  then have "kind w = 3" using print_json_kind [of "JStr s"] by fastforce
  then obtain t where "w = JStr t" by (cases w) simp_all
  then show ?case using 4 json_string_unique [of s x t y] by simp
next
  case (5 vs)
  then have "kind w = 4" using print_json_kind [of "JArr vs"] by fastforce
  then obtain ws where w: "w = JArr ws" by (cases w) simp_all
  have "vs = ws \<and> x = y"
    by (rule sequence_unique [of vs print_json "CHR '']''"])
      (use 5 start_not_close w in auto)
  then show ?case using w by simp
next
  case (6 kvs)
  let ?f = "\<lambda>(k, v). json_string k @ '':'' @ print_json v"
  from 6 have "kind w = 5" using print_json_kind [of "JObj kvs"] by fastforce
  then obtain kws where w: "w = JObj kws" by (cases w) simp_all
  have "kvs = kws \<and> x = y"
  proof (rule sequence_unique [of kvs ?f "CHR ''}''"])
    fix a b x y assume a: "a \<in> set kvs" and eq: "?f a @ x = ?f b @ y" and e: "ends_value x" "ends_value y"
    obtain k v l u where ab: "a = (k, v)" "b = (l, u)" by (cases a; cases b)
    then have "json_string k @ (CHR '':'' # print_json v @ x) = json_string l @ (CHR '':'' # print_json u @ y)"
      using eq by simp
    from json_string_unique [OF this] have "k = l" "print_json v @ x = print_json u @ y" by simp_all
    then show "a = b \<and> x = y" using 6(1) a ab e by blast
  next
    fix b show "\<exists>h t. ?f b = h # t \<and> h \<noteq> CHR ''}''"
      by (cases b) (simp add: json_string_def quote_char_def)
  qed (use 6 w in auto)
  then show ?case using w by simp
qed

lemma print_json_inj: "print_json v = print_json w \<longleftrightarrow> v = w"
  using print_json_unique [of v "[]" w "[]"] by (auto simp: ends_value_def)

text \<open>
  Canonical JSON identifies exactly the values that agree up to the order of object keys: two
  values have the same canonical text if and only if they have the same normal form.  So a hash of
  the text commits to the whole value.
\<close>

theorem canonicalJson_injective:
  "canonicalJson le v = canonicalJson le w \<longleftrightarrow> normal_json le v = normal_json le w"
  by (simp add: canonicalJson_print print_json_inj)

text \<open>What equal normal forms say about the members of two objects.\<close>

lemma normal_json_members:
  assumes eq: "normal_json le (JObj kvs) = normal_json le (JObj kvs')"
    and d: "distinct (map fst kvs)" "distinct (map fst kvs')"
  shows "map_option (normal_json le) (map_of kvs k) = map_option (normal_json le) (map_of kvs' k)"
proof -
  let ?n = "map (\<lambda>(k, v). (k, normal_json le v))"
  have "mset (sort_by (key_le le) (?n kvs)) = mset (sort_by (key_le le) (?n kvs'))" using eq by simp
  then have "mset (?n kvs) = mset (?n kvs')" by (simp only: mset_sort_by)
  then have "set (?n kvs) = set (?n kvs')" by (rule mset_eq_setD)
  moreover have "distinct (map fst (?n kvs))" "distinct (map fst (?n kvs'))"
    using d by (simp_all add: comp_def case_prod_unfold)
  ultimately have "map_of (?n kvs) = map_of (?n kvs')" by (simp only: map_of_inject_set)
  then show ?thesis by (metis map_of_map comp_apply)
qed

section \<open>Reordering\<close>

text \<open>Two values are reorderings of each other when the members of their objects are permuted, at every depth.\<close>

inductive reordered :: "json \<Rightarrow> json \<Rightarrow> bool" where
  same: "reordered v v"
| array: "list_all2 reordered vs ws \<Longrightarrow> reordered (JArr vs) (JArr ws)"
| members: "list_all2 (\<lambda>a b. fst a = fst b \<and> reordered (snd a) (snd b)) kvs kvs' \<Longrightarrow> mset kvs' = mset kws \<Longrightarrow>
    reordered (JObj kvs) (JObj kws)"

text \<open>In no object of the value do two keys compare as equal.\<close>

function clear_keys :: "(string \<Rightarrow> string \<Rightarrow> bool) \<Rightarrow> json \<Rightarrow> bool" where
  "clear_keys le (JArr vs) = list_all (\<lambda>v. clear_keys le v) vs"
| "clear_keys le (JObj kvs) = (sorted_wrt (\<lambda>a b. \<not> (le a b \<and> le b a)) (map fst kvs)
     \<and> list_all (\<lambda>(k, v). clear_keys le v) kvs)"
| "clear_keys le JNull = True"
| "clear_keys le (JBool b) = True"
| "clear_keys le (JNum i) = True"
| "clear_keys le (JStr s) = True"
  by pat_completeness auto
termination
  by (relation "measure (\<lambda>(_, v). size v)") (auto intro: size_json_list size_json_pairs)

lemma map_list_all2: "list_all2 (\<lambda>a b. f a = f b) xs ys \<Longrightarrow> map f xs = map f ys"
  by (induction rule: list_all2_induct) simp_all

lemma normal_json_reordered:
  assumes "collation le"
  shows "reordered v w \<Longrightarrow> clear_keys le v \<Longrightarrow> normal_json le v = normal_json le w"
proof (induction rule: reordered.induct)
  case (array vs ws)
  then have "list_all2 (\<lambda>a b. normal_json le a = normal_json le b) vs ws"
    by (simp add: list_all2_conv_all_nth list_all_iff)
  then show ?case using map_list_all2 [of "normal_json le"] by simp
next
  case (members kvs kvs' kws)
  let ?n = "\<lambda>(k, v). (k, normal_json le v)"
  have "list_all2 (\<lambda>a b. ?n a = ?n b) kvs kvs'"
    using members(1,3) unfolding list_all2_conv_all_nth
    by (auto simp: list_all_iff case_prod_unfold)
  then have n: "map ?n kvs = map ?n kvs'" by (rule map_list_all2)
  have m: "mset (map ?n kvs) = mset (map ?n kws)" unfolding n using members(2) by simp
  have "map fst (map ?n kvs) = map fst kvs" by (simp add: comp_def case_prod_unfold)
  then have "sorted_wrt (\<lambda>a b. \<not> (le a b \<and> le b a)) (map fst (map ?n kvs))"
    using members(3) by (simp only: clear_keys.simps)
  from collation.sort_unambiguous [OF assms m this] show ?case by simp
qed simp

lemma normal_json_same_shape: "normal_json le v = normal_json le w \<Longrightarrow> reordered v w"
proof (induction le v arbitrary: w rule: normal_json.induct)
  case (1 le vs)
  from 1(2) obtain ws where w: "w = JArr ws" by (cases w) auto
  with 1(2) have "map (normal_json le) vs = map (normal_json le) ws" by simp
  then have "list_all2 (\<lambda>a b. normal_json le a = normal_json le b) vs ws"
    by (auto simp: list_all2_conv_all_nth list_eq_iff_nth_eq)
  then have "list_all2 reordered vs ws" using 1 by (auto simp: list_all2_conv_all_nth)
  then show ?case unfolding w by (rule reordered.array)
next
  case (2 le kvs)
  let ?n = "\<lambda>(k, v). (k, normal_json le v)"
  obtain kws where w: "w = JObj kws" using 2(2) by (cases w) auto
  with 2(2) have "mset (sort_by (key_le le) (map ?n kvs)) = mset (sort_by (key_le le) (map ?n kws))" by simp
  then have m: "mset (map ?n kvs) = mset (map ?n kws)" by (simp only: mset_sort_by)
  have "list_all2 (\<lambda>x b. x = ?n b) (map ?n kws) kws" by (simp add: list_all2_conv_all_nth)
  from list_all2_reorder_left_invariance [OF this m]
  obtain kvs' where k: "list_all2 (\<lambda>x b. x = ?n b) (map ?n kvs) kvs'" "mset kvs' = mset kws" by blast
  have "list_all2 (\<lambda>a b. fst a = fst b \<and> reordered (snd a) (snd b)) kvs kvs'"
    unfolding list_all2_conv_all_nth
  proof (intro conjI allI impI)
    show len: "length kvs = length kvs'" using k(1) by (auto dest: list_all2_lengthD)
    fix i assume i: "i < length kvs"
    then have e: "?n (kvs ! i) = ?n (kvs' ! i)" using k(1) by (simp add: list_all2_conv_all_nth)
    then show "fst (kvs ! i) = fst (kvs' ! i)" by (simp add: case_prod_unfold)
    show "reordered (snd (kvs ! i)) (snd (kvs' ! i))"
      using 2(1) [of "kvs ! i" "fst (kvs ! i)" "snd (kvs ! i)"] i e by (simp add: case_prod_unfold)
  qed
  then show ?case unfolding w using k(2) by (rule reordered.members)
next
  case (3 le) then show ?case by (cases w) (simp_all add: reordered.same)
next
  case (4 le b) then show ?case by (cases w) (simp_all add: reordered.same)
next
  case (5 le i) then show ?case by (cases w) (simp_all add: reordered.same)
next
  case (6 le s) then show ?case by (cases w) (simp_all add: reordered.same)
qed

text \<open>
  Without that condition the text does depend on the order: two keys the comparator takes as equal are
  printed in the order they were written, so one object has two canonical texts.
\<close>

lemma colliding_keys_keep_order:
  assumes "k \<noteq> l" and "le k l" and "le l k"
  shows "canonicalJson le (JObj [(k, v), (l, w)]) \<noteq> canonicalJson le (JObj [(l, w), (k, v)])"
  using assms unfolding canonicalJson_injective by (simp add: sort_by_def key_le_def)

text \<open>
  C29: the canonical text of a value is the same as another's exactly when the other is the same value
  with the members of its objects permuted, at any depth.  This holds for every comparator that is total and
  transitive, as \<open>localeCompare\<close> is, of values none of whose objects has two keys it compares as equal; so the
  order in which keys are written never shows in a hash over the text, and nothing else is lost in it.
\<close>

theorem canonicalJson_key_order:
  assumes "collation le" and "clear_keys le v"
  shows "canonicalJson le v = canonicalJson le w \<longleftrightarrow> reordered v w"
proof
  assume "canonicalJson le v = canonicalJson le w"
  then show "reordered v w" by (simp add: canonicalJson_injective normal_json_same_shape)
next
  assume "reordered v w"
  from normal_json_reordered [OF assms(1) this assms(2)]
  show "canonicalJson le v = canonicalJson le w" by (simp add: canonicalJson_injective)
qed

text \<open>A collation that, like \<open>localeCompare\<close>, is no linear order: letters compare without their case.\<close>

definition case_blind :: "string \<Rightarrow> string \<Rightarrow> bool" where
  "case_blind a b \<longleftrightarrow> to_lower a \<le> to_lower b"

interpretation case_blind: collation case_blind
  by unfold_locales (auto simp: case_blind_def)

theorem canonicalJson_key_order_witness:
  "canonicalJson case_blind (JObj [(''b'', JArr [JObj [(''d'', JNull), (''C'', JNum 2)]]), (''A'', JNull)])
     = canonicalJson case_blind (JObj [(''A'', JNull), (''b'', JArr [JObj [(''C'', JNum 2), (''d'', JNull)]])])"
    (is "canonicalJson case_blind ?v = canonicalJson case_blind ?w")
proof -
  have clear: "clear_keys case_blind ?v" by code_simp
  have "reordered (JObj [(''d'', JNull), (''C'', JNum 2)]) (JObj [(''C'', JNum 2), (''d'', JNull)])"
    by (rule reordered.members [where kvs' = "[(''d'', JNull), (''C'', JNum 2)]"]) (simp_all add: reordered.same)
  then have "reordered ?v ?w"
    by (intro reordered.members [where kvs' = "[(''b'', JArr [JObj [(''C'', JNum 2), (''d'', JNull)]]), (''A'', JNull)]"])
      (simp_all add: reordered.same reordered.array)
  then show ?thesis using canonicalJson_key_order [OF case_blind.collation_axioms clear] by blast
qed

end
