(* ===== verification/Platform.thy ===== *)
theory Platform
  imports Json
begin

text \<open>
  What the program uses of the platform and of third-party packages: the HTTP data of \<open>fetch\<close>, and the
  functions the model takes as parameters (hashing and signature recovery of \<open>ethers\<close> and
  \<open>node:crypto\<close>, the URL parser, JSON parsing, Base64), collected in one record of functions.
\<close>

section \<open>Requests and responses\<close>

record url =
  url_href :: string
  url_protocol :: string
  url_hostname :: string
  url_host :: string
  url_origin :: string
  url_pathname :: string
  url_search :: string
  url_hash :: string

type_synonym header_list = "(string \<times> string) list"

record fetch_init =
  fi_method :: "string option"
  fi_headers :: "header_list option"
  fi_body :: "string option"

record http_response =
  hr_status :: int
  hr_headers :: header_list
  hr_body :: string

text \<open>The \<open>Headers\<close> class: names are lower-cased, repeated names are combined, iteration is sorted.\<close>

fun header_append :: "string \<Rightarrow> string \<Rightarrow> header_list \<Rightarrow> header_list" where
  "header_append n v [] = [(n, v)]"
| "header_append n v ((m, w) # hs) =
    (if m = n then (m, w @ '', '' @ v) # hs else (m, w) # header_append n v hs)"

definition headers_new :: "header_list \<Rightarrow> header_list" where
  "headers_new hs = sort_key fst (foldl (\<lambda>acc (n, v). header_append (to_lower n) v acc) [] hs)"

definition headers_get :: "header_list \<Rightarrow> string \<Rightarrow> string option" where
  "headers_get hs n = map_of (headers_new hs) (to_lower n)"

section \<open>Parameters\<close>

text \<open>
  \<open>pf_sha256\<close>: the hexadecimal SHA-256 digest of a text; \<open>pf_keccak_text\<close>: \<open>keccak256(toUtf8Bytes(s))\<close>;
  \<open>pf_keccak_pair\<close>: \<open>keccak256(concat([a, b]))\<close>; \<open>pf_recover_message\<close>: the address that signed a 32-byte
  message, \<open>None\<close> when the library throws; \<open>pf_get_address\<close>: the checksummed address, \<open>None\<close> when it throws;
  \<open>pf_is_address\<close>: viem's \<open>isAddress\<close>;
  \<open>pf_locale_le\<close>: \<open>a.localeCompare(b) <= 0\<close>; \<open>pf_parse_json\<close>: \<open>JSON.parse\<close>, \<open>None\<close> for a SyntaxError;
  \<open>pf_base64_decode\<close>, \<open>pf_base64_encode\<close>: Base64 of UTF-8 text; \<open>pf_new_url\<close>: \<open>new URL(input, base)\<close>,
  \<open>None\<close> for a TypeError.
\<close>

record platform =
  pf_sha256 :: "string \<Rightarrow> string"
  pf_keccak_text :: "string \<Rightarrow> string"
  pf_keccak_pair :: "string \<Rightarrow> string \<Rightarrow> string"
  pf_recover_message :: "string \<Rightarrow> string \<Rightarrow> string option"
  pf_get_address :: "string \<Rightarrow> string option"
  pf_is_address :: "string \<Rightarrow> bool"
  pf_locale_le :: "string \<Rightarrow> string \<Rightarrow> bool"
  pf_parse_json :: "string \<Rightarrow> json option"
  pf_base64_decode :: "string \<Rightarrow> string"
  pf_base64_encode :: "string \<Rightarrow> string"
  pf_new_url :: "string \<Rightarrow> string option \<Rightarrow> url option"

text \<open>The member of an object a property access reads; a missing member and a non-object give \<open>None\<close>.\<close>

definition json_get :: "json \<Rightarrow> string \<Rightarrow> json option" where
  "json_get v k = (case v of JObj kvs \<Rightarrow> map_of (rev kvs) k | _ \<Rightarrow> None)"

definition json_string_of :: "json option \<Rightarrow> string option" where
  "json_string_of v = (case v of Some (JStr s) \<Rightarrow> Some s | _ \<Rightarrow> None)"

text \<open>A concrete platform, for witnesses: toy hashes, and a signature that is its signer's address.\<close>

definition demo_platform :: platform where
  "demo_platform = \<lparr>pf_sha256 = (\<lambda>s. take 64 (s @ replicate 64 (CHR ''a''))),
     pf_keccak_text = (\<lambda>s. ''0x'' @ s),
     pf_keccak_pair = (\<lambda>a b. ''0x'' @ nat_to_string (length a) @ CHR '':'' # a @ b),
     pf_recover_message = (\<lambda>h sig. Some sig), pf_get_address = (\<lambda>a. Some (to_lower a)), pf_is_address = is_address,
     pf_locale_le = (\<lambda>a b. a \<le> b), pf_parse_json = (\<lambda>s. None),
     pf_base64_decode = (\<lambda>s. s), pf_base64_encode = (\<lambda>s. s),
     pf_new_url = (\<lambda>i b. let base = (case b of None \<Rightarrow> ''https://tool.example'' | Some x \<Rightarrow> x) in
       Some \<lparr>url_href = base @ i, url_protocol = ''https:'', url_hostname = drop 8 base,
         url_host = drop 8 base, url_origin = base, url_pathname = i, url_search = [], url_hash = []\<rparr>)\<rparr>"

end
