(* ===== verification/Egress.thy ===== *)
theory Egress
  imports Hosts Platform
begin

text \<open>
  The egress guard around \<open>fetch\<close> (\<open>packages/policy-engine/src/egress-broker.ts\<close>).  The network is a
  parameter: \<open>baseFetch\<close> and \<open>resolveHost\<close> act on a world of any type, and the platform's URL parser
  is the parameter \<open>parse\<close> (the location and the URL it is relative to, giving a URL or \<open>None\<close> for a
  TypeError).  The properties are stated over ports that log every resolution and every request.
\<close>

section \<open>The guard\<close>

definition redirect_statuses :: "int list" where
  "redirect_statuses = [301, 302, 303, 307, 308]"

definition stripBrackets :: "string \<Rightarrow> string" where
  "stripBrackets hostname =
    (if starts_with ''['' hostname \<and> ends_with '']'' hostname then butlast (tl hostname) else hostname)"

definition assertHostAllowed ::
  "(string \<Rightarrow> ('w, string list) io) \<Rightarrow> string \<Rightarrow> ('w, unit) io" where
  "assertHostAllowed resolveHost hostname =
    (let bareHostname = stripBrackets hostname in
     if isForbiddenHost bareHostname
     then io_throw (Egress_forbidden (''Host is forbidden: '' @ hostname))
     else io_bind (if isIP bareHostname \<noteq> 0 then io_ret [bareHostname] else resolveHost bareHostname)
       (\<lambda>addresses. case find isForbiddenHost addresses of
          Some address \<Rightarrow> io_throw (Egress_forbidden
            (''Host '' @ hostname @ '' resolves to a forbidden address: '' @ address))
        | None \<Rightarrow> io_ret ()))"

definition defaultResolveHost ::
  "(string \<Rightarrow> ('w, string list) io) \<Rightarrow> string \<Rightarrow> ('w, string list) io" where
  "defaultResolveHost lookup hostname =
    io_bind (lookup hostname) (\<lambda>results.
      if results = []
      then io_throw (Egress_forbidden (''DNS resolution returned no addresses for '' @ hostname))
      else io_ret results)"

definition safe_headers :: "string list" where
  "safe_headers = [''accept'', ''content-type'']"

definition stripCrossOriginHeaders :: "fetch_init option \<Rightarrow> fetch_init option" where
  "stripCrossOriginHeaders init =
    (case init of
       None \<Rightarrow> None
     | Some i \<Rightarrow>
         (case fi_headers i of
            None \<Rightarrow> Some i
          | Some hs \<Rightarrow> Some (i\<lparr>fi_headers :=
              Some (filter (\<lambda>h. to_lower (fst h) \<in> set safe_headers) (headers_new hs))\<rparr>)))"

definition downgradeForRedirect :: "int \<Rightarrow> fetch_init option \<Rightarrow> fetch_init option" where
  "downgradeForRedirect status init =
    (let method = to_upper (case init of None \<Rightarrow> ''GET'' | Some i \<Rightarrow>
            (case fi_method i of None \<Rightarrow> ''GET'' | Some m \<Rightarrow> m));
         mustPreserve = (status = 307 \<or> status = 308)
     in if mustPreserve \<or> method = ''GET'' \<or> method = ''HEAD'' then init
        else Some (case init of
            None \<Rightarrow> \<lparr>fi_method = Some ''GET'', fi_headers = None, fi_body = None\<rparr>
          | Some i \<Rightarrow> i\<lparr>fi_method := Some ''GET'', fi_body := None\<rparr>))"

text \<open>One request and what follows it; \<open>hops\<close> is the number of redirects still allowed.\<close>

fun egress_loop ::
  "(string \<Rightarrow> url \<Rightarrow> url option) \<Rightarrow> (string \<Rightarrow> ('w, string list) io) \<Rightarrow>
   (url \<Rightarrow> fetch_init option \<Rightarrow> ('w, http_response) io) \<Rightarrow>
   nat \<Rightarrow> nat \<Rightarrow> url \<Rightarrow> fetch_init option \<Rightarrow> ('w, http_response) io" where
  "egress_loop parse resolveHost baseFetch maxRedirects hops u currentInit =
    io_then (assertHostAllowed resolveHost (url_hostname u))
    (io_bind (baseFetch u currentInit) (\<lambda>response.
      if hr_status response \<notin> set redirect_statuses then io_ret response
      else (case headers_get (hr_headers response) ''location'' of
        None \<Rightarrow> io_ret response
      | Some location \<Rightarrow>
          if location = [] then io_ret response
          else (case parse location u of
            None \<Rightarrow> io_throw (Type_error ''Invalid URL'')
          | Some nextUrl \<Rightarrow>
              (let stripped = (if url_origin nextUrl \<noteq> url_origin u
                               then stripCrossOriginHeaders currentInit else currentInit);
                   nextInit = downgradeForRedirect (hr_status response) stripped
               in (case hops of
                    0 \<Rightarrow> io_throw (Egress_forbidden
                           (''Refused to follow more than '' @ nat_to_string maxRedirects @ '' redirects''))
                  | Suc h \<Rightarrow> egress_loop parse resolveHost baseFetch maxRedirects h nextUrl nextInit))))))"

definition createEgressSafeFetch ::
  "(string \<Rightarrow> url \<Rightarrow> url option) \<Rightarrow> (string \<Rightarrow> ('w, string list) io) \<Rightarrow>
   (url \<Rightarrow> fetch_init option \<Rightarrow> ('w, http_response) io) \<Rightarrow>
   nat option \<Rightarrow> url \<Rightarrow> fetch_init option \<Rightarrow> ('w, http_response) io" where
  "createEgressSafeFetch parse resolveHost baseFetch maxRedirects input init =
    (let n = (case maxRedirects of None \<Rightarrow> 5 | Some k \<Rightarrow> k)
     in egress_loop parse resolveHost baseFetch n n input init)"

declare egress_loop.simps [simp del]

section \<open>Logged ports\<close>

datatype egress_event =
    Resolved string "string list"
  | Fetched url "fetch_init option"

type_synonym 'w logged = "egress_event list \<times> 'w"

definition logged_resolve :: "(string \<Rightarrow> ('w, string list) io) \<Rightarrow> string \<Rightarrow> ('w logged, string list) io" where
  "logged_resolve resolve h = (\<lambda>(log, w). case resolve h w of
     (Inl e, w') \<Rightarrow> (Inl e, (log, w'))
   | (Inr as, w') \<Rightarrow> (Inr as, (log @ [Resolved h as], w')))"

definition logged_fetch ::
  "(url \<Rightarrow> fetch_init option \<Rightarrow> ('w, http_response) io) \<Rightarrow>
   url \<Rightarrow> fetch_init option \<Rightarrow> ('w logged, http_response) io" where
  "logged_fetch fetch u i = (\<lambda>(log, w). case fetch u i w of (r, w') \<Rightarrow> (r, (log @ [Fetched u i], w')))"

fun is_fetch :: "egress_event \<Rightarrow> bool" where
  "is_fetch (Fetched _ _) = True"
| "is_fetch (Resolved _ _) = False"

text \<open>A host the guard lets through, given what has been resolved so far.\<close>

definition host_cleared :: "egress_event list \<Rightarrow> string \<Rightarrow> bool" where
  "host_cleared log hostname \<longleftrightarrow>
    (let h = stripBrackets hostname in
     \<not> isForbiddenHost h
     \<and> (isIP h \<noteq> 0 \<or> (\<exists>as. Resolved h as \<in> set log \<and> list_all (\<lambda>a. \<not> isForbiddenHost a) as)))"

fun log_cleared :: "egress_event list \<Rightarrow> egress_event list \<Rightarrow> bool" where
  "log_cleared before [] = True"
| "log_cleared before (e # es) =
    ((case e of Fetched u i \<Rightarrow> host_cleared before (url_hostname u) | Resolved _ _ \<Rightarrow> True)
     \<and> log_cleared (before @ [e]) es)"

definition headers_safe :: "fetch_init option \<Rightarrow> bool" where
  "headers_safe init \<longleftrightarrow>
    (case init of None \<Rightarrow> True | Some i \<Rightarrow> (case fi_headers i of None \<Rightarrow> True
       | Some hs \<Rightarrow> list_all (\<lambda>h. to_lower (fst h) \<in> set safe_headers) hs))"

definition origin_rule :: "string \<Rightarrow> egress_event list \<Rightarrow> bool" where
  "origin_rule origin = list_all (\<lambda>e. case e of
     Fetched u i \<Rightarrow> url_origin u = origin \<or> headers_safe i | Resolved _ _ \<Rightarrow> True)"

lemma log_cleared_append: "log_cleared b (xs @ ys) \<longleftrightarrow> log_cleared b xs \<and> log_cleared (b @ xs) ys"
  by (induction xs arbitrary: b) auto

lemma headers_safe_strip [simp]: "headers_safe (stripCrossOriginHeaders i)"
  by (simp add: headers_safe_def stripCrossOriginHeaders_def list_all_iff split: option.split)

lemma headers_safe_downgrade: "headers_safe i \<Longrightarrow> headers_safe (downgradeForRedirect s i)"
  by (auto simp: headers_safe_def downgradeForRedirect_def Let_def split: option.split)

text \<open>The guard itself: it logs at most a resolution, and when it returns the host is cleared.\<close>

lemma assertHostAllowed_logged:
  assumes "assertHostAllowed (logged_resolve resolve) h (log, w) = (r, (log', w'))"
  shows "\<exists>ext. log' = log @ ext \<and> filter is_fetch ext = [] \<and> log_cleared log ext
    \<and> origin_rule o0 ext \<and> (res_ok r \<longrightarrow> host_cleared log' h)"
proof (cases "isForbiddenHost (stripBrackets h) \<or> isIP (stripBrackets h) \<noteq> 0")
  case True
  then show ?thesis using assms
    by (auto simp: assertHostAllowed_def Let_def io_bind_apply host_cleared_def origin_rule_def
      split: option.splits if_splits)
next
  case False
  obtain rr w2 where res: "resolve (stripBrackets h) w = (rr, w2)" by (cases "resolve (stripBrackets h) w")
  show ?thesis
  proof (cases rr)
    case (Inl e)
    then show ?thesis using assms False res
      by (auto simp: assertHostAllowed_def Let_def io_bind_apply logged_resolve_def origin_rule_def)
  next
    case (Inr as)
    have "find isForbiddenHost as = None \<Longrightarrow> list_all (\<lambda>a. \<not> isForbiddenHost a) as"
      by (simp add: find_None_iff list_all_iff)
    then have "log' = log @ [Resolved (stripBrackets h) as] \<and> (res_ok r \<longrightarrow> host_cleared log' h)"
      using assms False res Inr
      by (auto simp: assertHostAllowed_def Let_def io_bind_apply logged_resolve_def host_cleared_def
        split: option.splits)
    then show ?thesis by (auto simp: origin_rule_def)
  qed
qed

lemma origin_step:
  assumes "url_origin u = o0 \<or> headers_safe i"
  shows "url_origin u' = o0 \<or> headers_safe (downgradeForRedirect st
    (if url_origin u' \<noteq> url_origin u then stripCrossOriginHeaders i else i))"
  using assms by (auto intro: headers_safe_downgrade)

definition good_ext :: "string \<Rightarrow> egress_event list \<Rightarrow> egress_event list \<Rightarrow> bool" where
  "good_ext o0 log ext \<longleftrightarrow> log_cleared log ext \<and> origin_rule o0 ext"

lemma good_ext_append: "good_ext o0 log a \<Longrightarrow> good_ext o0 (log @ a) b \<Longrightarrow> good_ext o0 log (a @ b)"
  by (simp add: good_ext_def log_cleared_append origin_rule_def)

text \<open>One turn of the loop: it ends with at most one request logged, or it goes round.\<close>

lemma egress_loop_step:
  assumes run: "egress_loop parse (logged_resolve resolve) (logged_fetch fetch) mx n u i (log, w) = (r, (log', w'))"
    and origin: "url_origin u = o0 \<or> headers_safe i"
  obtains (stop) ext where "log' = log @ ext" "length (filter is_fetch ext) \<le> 1" "good_ext o0 log ext"
  | (follow) ext h u' i' w2 where "n = Suc h" "length (filter is_fetch ext) \<le> 1" "good_ext o0 log ext"
      "url_origin u' = o0 \<or> headers_safe i'"
      "egress_loop parse (logged_resolve resolve) (logged_fetch fetch) mx h u' i' (log @ ext, w2) = (r, (log', w'))"
proof -
  obtain r1 log1 w1 where a: "assertHostAllowed (logged_resolve resolve) (url_hostname u) (log, w) = (r1, (log1, w1))"
    by (cases "assertHostAllowed (logged_resolve resolve) (url_hostname u) (log, w)") auto
  obtain e1 where e1: "log1 = log @ e1" "filter is_fetch e1 = []" "log_cleared log e1" "origin_rule o0 e1"
      "res_ok r1 \<longrightarrow> host_cleared log1 (url_hostname u)"
    using assertHostAllowed_logged [OF a] by blast
  show thesis
  proof (cases r1)
    case (Inl e)
    then have "log' = log @ e1" using run a e1 by (simp add: egress_loop.simps io_then_apply)
    then show thesis using e1 stop [of e1] by (simp add: good_ext_def)
  next
    case (Inr x)
    obtain r2 w2 where f: "fetch u i w1 = (r2, w2)" by (cases "fetch u i w1")
    let ?ext = "e1 @ [Fetched u i]"
    have ext: "length (filter is_fetch ?ext) \<le> 1" "good_ext o0 log ?ext"
      using e1 Inr origin by (simp_all add: good_ext_def log_cleared_append origin_rule_def)
    have lf: "logged_fetch fetch u i (log1, w1) = (r2, (log @ ?ext, w2))"
      using f e1(1) by (simp add: logged_fetch_def)
    show thesis
    proof (cases "log' = log @ ?ext")
      case True
      then show thesis using stop ext by blast
    next
      case False
      with run a Inr lf obtain resp location u' h where c: "r2 = Inr resp"
          "hr_status resp \<in> set redirect_statuses" "headers_get (hr_headers resp) ''location'' = Some location"
          "location \<noteq> []" "parse location u = Some u'" "n = Suc h"
        by (auto simp: egress_loop.simps [of _ _ _ _ n] io_then_apply io_bind_apply Let_def
          split: sum.splits option.splits if_splits nat.splits)
      with run a Inr lf have "egress_loop parse (logged_resolve resolve) (logged_fetch fetch) mx h u'
          (downgradeForRedirect (hr_status resp)
            (if url_origin u' \<noteq> url_origin u then stripCrossOriginHeaders i else i)) (log @ ?ext, w2)
          = (r, (log', w'))"
        by (simp add: egress_loop.simps [of _ _ _ _ "Suc h"] io_then_apply io_bind_apply Let_def split: if_splits)
      then show thesis using follow [OF c(6) ext origin_step [OF origin]] by blast
    qed
  qed
qed

lemma egress_loop_logged:
  assumes "egress_loop parse (logged_resolve resolve) (logged_fetch fetch) mx n u i (log, w) = (r, (log', w'))"
    and "url_origin u = o0 \<or> headers_safe i"
  shows "\<exists>ext. log' = log @ ext \<and> length (filter is_fetch ext) \<le> n + 1 \<and> good_ext o0 log ext"
  using assms
proof (induction n arbitrary: u i log w)
  case (0 u i log w)
  show ?case by (rule egress_loop_step [OF 0]) auto
next
  case (Suc n u i log w)
  show ?case
  proof (rule egress_loop_step [OF Suc.prems])
    fix ext h u' i' w2
    assume "Suc n = Suc h" and e: "length (filter is_fetch ext) \<le> 1" "good_ext o0 log ext"
      and "url_origin u' = o0 \<or> headers_safe i'"
      and "egress_loop parse (logged_resolve resolve) (logged_fetch fetch) mx h u' i' (log @ ext, w2) = (r, (log', w'))"
    then obtain ext' where "log' = (log @ ext) @ ext'" "length (filter is_fetch ext') \<le> n + 1"
      "good_ext o0 (log @ ext) ext'" using Suc.IH by blast
    with e show ?case by (intro exI [of _ "ext @ ext'"]) (simp add: good_ext_append)
  next
    fix ext assume "log' = log @ ext" "length (filter is_fetch ext) \<le> 1" "good_ext o0 log ext"
    then show ?case by auto
  qed
qed

section \<open>Properties\<close>

text \<open>
  C27: whatever the network answers, the egress-safe fetch sends at most \<open>maxRedirects + 1\<close> requests;
  every request goes to a host that is not forbidden and is either an address literal or was resolved
  before that request to addresses none of which is forbidden; and a request to an origin other than
  the one asked for carries only the content negotiation headers.
\<close>

theorem egress_safe_fetch_guarded:
  assumes "createEgressSafeFetch parse (logged_resolve resolve) (logged_fetch fetch) maxRedirects u i ([], w)
    = (r, (log, w'))"
  shows "length (filter is_fetch log) \<le> (case maxRedirects of None \<Rightarrow> 5 | Some k \<Rightarrow> k) + 1
    \<and> log_cleared [] log \<and> origin_rule (url_origin u) log"
  using egress_loop_logged [of parse resolve fetch _ _ u i "[]" w r log w' "url_origin u"] assms
  by (auto simp: createEgressSafeFetch_def Let_def good_ext_def)

text \<open>A network in which the first host redirects across origins to a second one.\<close>

definition demo_url :: "string \<Rightarrow> url" where
  "demo_url h = \<lparr>url_href = ''https://'' @ h @ ''/'', url_protocol = ''https:'', url_hostname = h, url_host = h,
     url_origin = ''https://'' @ h, url_pathname = ''/'', url_search = [], url_hash = []\<rparr>"

definition demo_fetch :: "url \<Rightarrow> fetch_init option \<Rightarrow> (nat, http_response) io" where
  "demo_fetch u i = (\<lambda>w.
    (Inr (if url_hostname u = ''a.example''
          then \<lparr>hr_status = 302, hr_headers = [(''Location'', ''b.example'')], hr_body = []\<rparr>
          else \<lparr>hr_status = 200, hr_headers = [], hr_body = ''ok''\<rparr>), w + 1))"

definition demo_resolve :: "string \<Rightarrow> (nat, string list) io" where
  "demo_resolve h = io_ret [''93.184.216.34'']"

definition demo_egress :: "http_response res \<times> (egress_event list \<times> nat)" where
  "demo_egress = createEgressSafeFetch (\<lambda>l u. Some (demo_url l)) (logged_resolve demo_resolve)
     (logged_fetch demo_fetch) None (demo_url ''a.example'')
     (Some \<lparr>fi_method = None, fi_headers = Some [(''Authorization'', ''secret''), (''Accept'', ''text'')],
        fi_body = None\<rparr>) ([], 0)"

theorem egress_safe_fetch_guarded_witness:
  "length (filter is_fetch (fst (snd demo_egress))) = 2
     \<and> origin_rule ''https://a.example'' (fst (snd demo_egress))"
proof -
  obtain r log w where d: "demo_egress = (r, (log, w))" by (cases demo_egress) auto
  from egress_safe_fetch_guarded [OF d [unfolded demo_egress_def]]
  have "origin_rule ''https://a.example'' log" by (simp add: demo_url_def)
  moreover have "length (filter is_fetch (fst (snd demo_egress))) = 2" by code_simp
  moreover have "fst (snd demo_egress) = log" by (simp only: d fst_conv snd_conv)
  ultimately show ?thesis by (simp only: simp_thms)
qed

end
