(* ===== verification/Quote.thy ===== *)
theory Quote
  imports Json Money Iso_Date
begin

text \<open>
  Quotes (\<open>packages/quote-engine/src/quote-engine.ts\<close>).  The SHA-256 function, the URL parser
  (\<open>url_protocol\<close>: the protocol of a valid URL) and the key order of \<open>localeCompare\<close> are parameters; the
  capability snapshot is carried as the JSON value it is.
\<close>

section \<open>Requests and pricing\<close>

record quote_request =
  qr_organizationId :: string
  qr_requesterAddress :: string
  qr_targetAgentId :: string
  qr_targetServiceId :: string
  qr_targetVersionHash :: string
  qr_previousVersionHash :: "string option"
  qr_policyHash :: string
  qr_x402Endpoint :: string
  qr_openApiUrl :: string
  qr_maximumCustomerBudgetAtomic :: string

definition is_uuid :: "string \<Rightarrow> bool" where
  "is_uuid s \<longleftrightarrow>
    (case split_on (CHR ''-'') s of
       [a, b, c, d, e] \<Rightarrow> map length [a, b, c, d, e] = [8, 4, 4, 4, 12]
         \<and> list_all (list_all is_hex_digit) [a, b, c, d, e]
     | _ \<Rightarrow> False)"

definition is_https_url :: "(string \<Rightarrow> string option) \<Rightarrow> string \<Rightarrow> bool" where
  "is_https_url url_protocol s \<longleftrightarrow> url_protocol s = Some ''https:''"

definition quote_request_ok :: "(string \<Rightarrow> string option) \<Rightarrow> quote_request \<Rightarrow> bool" where
  "quote_request_ok url_protocol r \<longleftrightarrow>
    is_uuid (qr_organizationId r) \<and> is_address (qr_requesterAddress r)
    \<and> 1 \<le> length (qr_targetAgentId r) \<and> length (qr_targetAgentId r) \<le> 256
    \<and> 1 \<le> length (qr_targetServiceId r) \<and> length (qr_targetServiceId r) \<le> 256
    \<and> is_bytes32 (qr_targetVersionHash r)
    \<and> (case qr_previousVersionHash r of None \<Rightarrow> True | Some h \<Rightarrow> is_bytes32 h)
    \<and> is_bytes32 (qr_policyHash r)
    \<and> is_https_url url_protocol (qr_x402Endpoint r) \<and> is_https_url url_protocol (qr_openApiUrl r)
    \<and> is_atomic (qr_maximumCustomerBudgetAtomic r)"

definition quoteRequestSchema_parse :: "(string \<Rightarrow> string option) \<Rightarrow> quote_request \<Rightarrow> quote_request res" where
  "quoteRequestSchema_parse url_protocol r =
    (if quote_request_ok url_protocol r then Inr r else Inl (Zod_error [''quoteRequest'']))"

record pricing_policy =
  pp_feeRateBps :: int
  pp_mandatoryToolBudgetAtomic :: string
  pp_dynamicToolBudgetAtomic :: string
  pp_modelInfrastructureReserveAtomic :: string
  pp_chainStorageReserveAtomic :: string
  pp_riskSupportReserveAtomic :: string
  pp_quoteTtlSeconds :: int

definition pass_through :: "pricing_policy \<Rightarrow> string list" where
  "pass_through p = [pp_mandatoryToolBudgetAtomic p, pp_dynamicToolBudgetAtomic p,
     pp_modelInfrastructureReserveAtomic p, pp_chainStorageReserveAtomic p, pp_riskSupportReserveAtomic p]"

definition validatePricing :: "pricing_policy \<Rightarrow> pricing_policy res" where
  "validatePricing p =
    res_bind (res_map parseAtomicAmount (pass_through p)) (\<lambda>_.
    res_bind (ensure (0 < pp_feeRateBps p \<and> pp_feeRateBps p < 10000) (Js_error
      ''Fee rate must be an integer number of basis points strictly between 0 and 10000'')) (\<lambda>_.
    res_bind (ensure (60 \<le> pp_quoteTtlSeconds p \<and> pp_quoteTtlSeconds p \<le> 86400) (Js_error
      ''Quote TTL must be between 60 seconds and 24 hours'')) (\<lambda>_.
    Inr p)))"

section \<open>Quotes\<close>

record quote_line_items =
  li_baseOrchestrationFeeAtomic :: string
  li_mandatoryToolBudgetAtomic :: string
  li_dynamicToolBudgetAtomic :: string
  li_modelInfrastructureReserveAtomic :: string
  li_chainStorageReserveAtomic :: string
  li_riskSupportReserveAtomic :: string

record quote =
  q_id :: string
  q_request :: quote_request
  q_capabilitySnapshot :: json
  q_targetChainId :: "int option"
  q_lineItems :: quote_line_items
  q_totalAtomicAmount :: string
  q_refundableToolBudgetAtomic :: string
  q_createdAt :: string
  q_expiresAt :: string
  q_quoteCommitment :: string

definition request_json :: "quote_request \<Rightarrow> json" where
  "request_json r = JObj (
    [(''organizationId'', JStr (qr_organizationId r)), (''requesterAddress'', JStr (qr_requesterAddress r)),
     (''targetAgentId'', JStr (qr_targetAgentId r)), (''targetServiceId'', JStr (qr_targetServiceId r)),
     (''targetVersionHash'', JStr (qr_targetVersionHash r))]
    @ (case qr_previousVersionHash r of None \<Rightarrow> [] | Some h \<Rightarrow> [(''previousVersionHash'', JStr h)])
    @ [(''policyHash'', JStr (qr_policyHash r)), (''x402Endpoint'', JStr (qr_x402Endpoint r)),
       (''openApiUrl'', JStr (qr_openApiUrl r)),
       (''maximumCustomerBudgetAtomic'', JStr (qr_maximumCustomerBudgetAtomic r))])"

definition line_items_json :: "quote_line_items \<Rightarrow> json" where
  "line_items_json l = JObj
    [(''baseOrchestrationFeeAtomic'', JStr (li_baseOrchestrationFeeAtomic l)),
     (''mandatoryToolBudgetAtomic'', JStr (li_mandatoryToolBudgetAtomic l)),
     (''dynamicToolBudgetAtomic'', JStr (li_dynamicToolBudgetAtomic l)),
     (''modelInfrastructureReserveAtomic'', JStr (li_modelInfrastructureReserveAtomic l)),
     (''chainStorageReserveAtomic'', JStr (li_chainStorageReserveAtomic l)),
     (''riskSupportReserveAtomic'', JStr (li_riskSupportReserveAtomic l))]"

text \<open>The object the commitment is computed over: the quote before its chain and commitment are added.\<close>

definition unsigned_json :: "quote \<Rightarrow> json" where
  "unsigned_json q = JObj
    [(''id'', JStr (q_id q)), (''request'', request_json (q_request q)),
     (''capabilitySnapshot'', q_capabilitySnapshot q), (''pricingStatus'', JStr ''HYPOTHESIS''),
     (''lineItems'', line_items_json (q_lineItems q)),
     (''totalAtomicAmount'', JStr (q_totalAtomicAmount q)),
     (''refundableToolBudgetAtomic'', JStr (q_refundableToolBudgetAtomic q)),
     (''createdAt'', JStr (q_createdAt q)), (''expiresAt'', JStr (q_expiresAt q))]"

definition quote_commitment ::
  "(string \<Rightarrow> string \<Rightarrow> bool) \<Rightarrow> (string \<Rightarrow> string) \<Rightarrow> quote \<Rightarrow> string" where
  "quote_commitment le sha256 q = ''0x'' @ sha256 (canonicalJson le (unsigned_json q))"

definition createQuote ::
  "(string \<Rightarrow> string \<Rightarrow> bool) \<Rightarrow> (string \<Rightarrow> string) \<Rightarrow> (string \<Rightarrow> string option) \<Rightarrow>
   pricing_policy \<Rightarrow> string \<Rightarrow> quote_request \<Rightarrow> json \<Rightarrow> int \<Rightarrow> quote res" where
  "createQuote le sha256 url_protocol pricing fresh_id input capability now =
    res_bind (quoteRequestSchema_parse url_protocol input) (\<lambda>request.
    res_bind (res_fold (\<lambda>sum v. res_bind (parseAtomicAmount v) (\<lambda>a. Inr (sum + a))) 0 (pass_through pricing))
      (\<lambda>passThroughTotal.
    let feeAtomic = (passThroughTotal * pp_feeRateBps pricing) div (10000 - pp_feeRateBps pricing);
        lineItems = \<lparr>li_baseOrchestrationFeeAtomic = int_to_string feeAtomic,
          li_mandatoryToolBudgetAtomic = pp_mandatoryToolBudgetAtomic pricing,
          li_dynamicToolBudgetAtomic = pp_dynamicToolBudgetAtomic pricing,
          li_modelInfrastructureReserveAtomic = pp_modelInfrastructureReserveAtomic pricing,
          li_chainStorageReserveAtomic = pp_chainStorageReserveAtomic pricing,
          li_riskSupportReserveAtomic = pp_riskSupportReserveAtomic pricing\<rparr>;
        total = passThroughTotal + feeAtomic in
    res_bind (parseAtomicAmount (qr_maximumCustomerBudgetAtomic request)) (\<lambda>budget.
    if budget < total
    then Inl (Quote_budget_exceeded (int_to_string total) (qr_maximumCustomerBudgetAtomic request))
    else
    res_bind (parseAtomicAmount (li_mandatoryToolBudgetAtomic lineItems)) (\<lambda>mandatory.
    res_bind (parseAtomicAmount (li_dynamicToolBudgetAtomic lineItems)) (\<lambda>dynamic.
    let unsigned = \<lparr>q_id = ''quote_'' @ fresh_id, q_request = request,
          q_capabilitySnapshot = capability, q_targetChainId = None, q_lineItems = lineItems,
          q_totalAtomicAmount = int_to_string total,
          q_refundableToolBudgetAtomic = int_to_string (mandatory + dynamic),
          q_createdAt = to_iso_string now,
          q_expiresAt = to_iso_string (now + pp_quoteTtlSeconds pricing * 1000),
          q_quoteCommitment = []\<rparr>
    in Inr (unsigned\<lparr>q_quoteCommitment := quote_commitment le sha256 unsigned\<rparr>))))))"

definition line_item_values :: "quote_line_items \<Rightarrow> nat list" where
  "line_item_values l = map dec_value [li_baseOrchestrationFeeAtomic l, li_mandatoryToolBudgetAtomic l,
     li_dynamicToolBudgetAtomic l, li_modelInfrastructureReserveAtomic l, li_chainStorageReserveAtomic l,
     li_riskSupportReserveAtomic l]"

section \<open>Facts\<close>

lemma validatePricing_ok_iff:
  "res_ok (validatePricing p) \<longleftrightarrow> list_all is_atomic (pass_through p)
     \<and> 0 < pp_feeRateBps p \<and> pp_feeRateBps p < 10000
     \<and> 60 \<le> pp_quoteTtlSeconds p \<and> pp_quoteTtlSeconds p \<le> 86400"
  using res_map_ok_iff [of parseAtomicAmount "pass_through p"]
  by (cases "res_map parseAtomicAmount (pass_through p)")
    (auto simp: validatePricing_def list_all_iff res_ok_bind)

definition pass_total :: "pricing_policy \<Rightarrow> nat" where
  "pass_total p = sum_list (map dec_value (pass_through p))"

definition quote_fee :: "pricing_policy \<Rightarrow> nat" where
  "quote_fee p = nat ((int (pass_total p) * pp_feeRateBps p) div (10000 - pp_feeRateBps p))"

lemma pass_through_fold:
  assumes "list_all is_atomic (pass_through p)"
  shows "res_fold (\<lambda>sum v. res_bind (parseAtomicAmount v) (\<lambda>a. Inr (sum + a))) 0 (pass_through p)
    = Inr (int (pass_total p))"
  using assms by (simp add: pass_through_def pass_total_def parseAtomicAmount_def)

lemma quote_fee_int:
  "0 < pp_feeRateBps p \<Longrightarrow> pp_feeRateBps p < 10000 \<Longrightarrow>
    int (quote_fee p) = (int (pass_total p) * pp_feeRateBps p) div (10000 - pp_feeRateBps p)"
  by (simp add: quote_fee_def pos_imp_zdiv_nonneg_iff)

lemma createQuote_valid_pricing:
  assumes "res_ok (validatePricing p)"
  shows "createQuote le sha url p fresh r cap now =
    (if \<not> quote_request_ok url r then Inl (Zod_error [''quoteRequest''])
     else if dec_value (qr_maximumCustomerBudgetAtomic r) < pass_total p + quote_fee p
     then Inl (Quote_budget_exceeded (nat_to_string (pass_total p + quote_fee p)) (qr_maximumCustomerBudgetAtomic r))
     else
      (let u = \<lparr>q_id = ''quote_'' @ fresh, q_request = r, q_capabilitySnapshot = cap, q_targetChainId = None,
        q_lineItems = \<lparr>li_baseOrchestrationFeeAtomic = nat_to_string (quote_fee p),
          li_mandatoryToolBudgetAtomic = pp_mandatoryToolBudgetAtomic p,
          li_dynamicToolBudgetAtomic = pp_dynamicToolBudgetAtomic p,
          li_modelInfrastructureReserveAtomic = pp_modelInfrastructureReserveAtomic p,
          li_chainStorageReserveAtomic = pp_chainStorageReserveAtomic p,
          li_riskSupportReserveAtomic = pp_riskSupportReserveAtomic p\<rparr>,
        q_totalAtomicAmount = nat_to_string (pass_total p + quote_fee p),
        q_refundableToolBudgetAtomic = nat_to_string (dec_value (pp_mandatoryToolBudgetAtomic p)
          + dec_value (pp_dynamicToolBudgetAtomic p)),
        q_createdAt = to_iso_string now, q_expiresAt = to_iso_string (now + pp_quoteTtlSeconds p * 1000),
        q_quoteCommitment = []\<rparr>
      in Inr (u\<lparr>q_quoteCommitment := quote_commitment le sha u\<rparr>)))"
proof -
  note v = assms [unfolded validatePricing_ok_iff]
  have atomic: "is_atomic (pp_mandatoryToolBudgetAtomic p)" "is_atomic (pp_dynamicToolBudgetAtomic p)"
    using v by (simp_all add: pass_through_def)
  have fee: "(int (pass_total p) * pp_feeRateBps p) div (10000 - pp_feeRateBps p) = int (quote_fee p)"
    using v quote_fee_int by simp
  have out: "int_to_string (int a + int b) = nat_to_string (a + b)" "int_to_string (int a) = nat_to_string a"
    "int c < int a + int b \<longleftrightarrow> c < a + b" for a b c
    by (simp_all add: int_to_string_def nat_add_distrib) linarith
  show ?thesis
  proof (cases "quote_request_ok url r")
    case True
    then have "is_atomic (qr_maximumCustomerBudgetAtomic r)" by (simp add: quote_request_ok_def)
    then have parse: "parseAtomicAmount (qr_maximumCustomerBudgetAtomic r)
        = Inr (int (dec_value (qr_maximumCustomerBudgetAtomic r)))"
      "parseAtomicAmount (pp_mandatoryToolBudgetAtomic p) = Inr (int (dec_value (pp_mandatoryToolBudgetAtomic p)))"
      "parseAtomicAmount (pp_dynamicToolBudgetAtomic p) = Inr (int (dec_value (pp_dynamicToolBudgetAtomic p)))"
      using atomic by (simp_all add: parseAtomicAmount_def)
    show ?thesis using True v
      by (simp add: createQuote_def quoteRequestSchema_parse_def pass_through_fold fee Let_def parse out)
  qed (simp add: createQuote_def quoteRequestSchema_parse_def)
qed

lemma fee_bounds:
  fixes P b :: int
  assumes "0 \<le> P" "0 < b" "b < 10000"
  defines "f \<equiv> (P * b) div (10000 - b)"
  shows "f * 10000 \<le> (P + f) * b" and "P * b < (f + 1) * (10000 - b)"
proof -
  have eq: "P * b = (10000 - b) * f + (P * b) mod (10000 - b)" by (simp add: f_def)
  moreover have "0 \<le> (P * b) mod (10000 - b)" using assms by simp
  ultimately have "(10000 - b) * f \<le> P * b" by linarith
  then show "f * 10000 \<le> (P + f) * b" by (simp add: algebra_simps)
  note eq
  moreover have "(P * b) mod (10000 - b) < 10000 - b" using assms by simp
  ultimately show "P * b < (f + 1) * (10000 - b)" by (simp add: algebra_simps)
qed

section \<open>Properties\<close>

text \<open>
  Under an accepted pricing policy a quote is issued exactly when the request is well formed and
  the customer's budget covers the total.
\<close>

theorem createQuote_issued_iff:
  assumes "res_ok (validatePricing p)"
  shows "res_ok (createQuote le sha url p fresh r cap now) \<longleftrightarrow>
    quote_request_ok url r \<and> pass_total p + quote_fee p \<le> dec_value (qr_maximumCustomerBudgetAtomic r)"
  using createQuote_valid_pricing [OF assms, of le sha url fresh r cap now] by (simp add: Let_def not_less)

text \<open>
  In every issued quote the total is the sum of the six line items and within the customer's
  budget; the fee is the floor of the take rate, so its share of the total never exceeds the rate and
  one unit more would; the refundable budget is the mandatory plus the dynamic tool budget and part
  of the total; and the quote expires its time-to-live after it was created.
\<close>

theorem createQuote_spec:
  assumes "res_ok (validatePricing p)" and "createQuote le sha url p fresh r cap now = Inr q"
  shows "dec_value (q_totalAtomicAmount q) = sum_list (line_item_values (q_lineItems q))
    \<and> dec_value (q_totalAtomicAmount q) \<le> dec_value (qr_maximumCustomerBudgetAtomic r)
    \<and> int (dec_value (li_baseOrchestrationFeeAtomic (q_lineItems q))) * 10000
        \<le> int (dec_value (q_totalAtomicAmount q)) * pp_feeRateBps p
    \<and> int (pass_total p) * pp_feeRateBps p
        < (int (dec_value (li_baseOrchestrationFeeAtomic (q_lineItems q))) + 1) * (10000 - pp_feeRateBps p)
    \<and> dec_value (q_refundableToolBudgetAtomic q)
        = dec_value (li_mandatoryToolBudgetAtomic (q_lineItems q)) + dec_value (li_dynamicToolBudgetAtomic (q_lineItems q))
    \<and> dec_value (q_refundableToolBudgetAtomic q) \<le> dec_value (q_totalAtomicAmount q)
    \<and> q_createdAt q = to_iso_string now \<and> q_expiresAt q = to_iso_string (now + pp_quoteTtlSeconds p * 1000)
    \<and> q_request q = r"
proof -
  note v = assms(1) [unfolded validatePricing_ok_iff]
  have "pass_total p = dec_value (pp_mandatoryToolBudgetAtomic p) + dec_value (pp_dynamicToolBudgetAtomic p)
      + dec_value (pp_modelInfrastructureReserveAtomic p) + dec_value (pp_chainStorageReserveAtomic p)
      + dec_value (pp_riskSupportReserveAtomic p)"
    by (simp add: pass_total_def pass_through_def)
  moreover have "int (quote_fee p) * 10000 \<le> (int (pass_total p) + int (quote_fee p)) * pp_feeRateBps p"
    "int (pass_total p) * pp_feeRateBps p < (int (quote_fee p) + 1) * (10000 - pp_feeRateBps p)"
    using fee_bounds [of "int (pass_total p)" "pp_feeRateBps p"] v by (simp_all add: quote_fee_int)
  ultimately show ?thesis
    using assms(2) [unfolded createQuote_valid_pricing [OF assms(1)]]
    by (auto simp: Let_def line_item_values_def split: if_splits)
qed

definition demo_request :: quote_request where
  "demo_request = \<lparr>qr_organizationId = ''00000000-0000-4000-8000-000000000000'',
     qr_requesterAddress = ''0x'' @ replicate 40 (CHR ''1''), qr_targetAgentId = ''agent'',
     qr_targetServiceId = ''svc'', qr_targetVersionHash = ''0x'' @ replicate 64 (CHR ''2''),
     qr_previousVersionHash = None, qr_policyHash = ''0x'' @ replicate 64 (CHR ''3''),
     qr_x402Endpoint = ''https://a'', qr_openApiUrl = ''https://b'',
     qr_maximumCustomerBudgetAtomic = ''2000''\<rparr>"

definition demo_pricing :: pricing_policy where
  "demo_pricing = \<lparr>pp_feeRateBps = 500, pp_mandatoryToolBudgetAtomic = ''500'',
     pp_dynamicToolBudgetAtomic = ''200'', pp_modelInfrastructureReserveAtomic = ''100'',
     pp_chainStorageReserveAtomic = ''100'', pp_riskSupportReserveAtomic = ''50'', pp_quoteTtlSeconds = 600\<rparr>"

definition demo_protocol :: "string \<Rightarrow> string option" where
  "demo_protocol s = (if starts_with ''https:'' s then Some ''https:'' else None)"

lemma demo_pricing_valid: "res_ok (validatePricing demo_pricing)"
  by code_simp

lemma demo_request_valid: "quote_request_ok demo_protocol demo_request
    \<and> pass_total demo_pricing + quote_fee demo_pricing \<le> dec_value (qr_maximumCustomerBudgetAtomic demo_request)"
  by code_simp

theorem createQuote_issued_iff_witness:
  "res_ok (createQuote (\<le>) (\<lambda>s. s) demo_protocol demo_pricing ''q1'' demo_request JNull 1767225600000)"
  using createQuote_issued_iff [OF demo_pricing_valid, of "(\<le>)" "\<lambda>s. s" demo_protocol] demo_request_valid by simp

definition demo_quote :: quote where
  "demo_quote = projr (createQuote (\<le>) (\<lambda>s. s) demo_protocol demo_pricing ''q1'' demo_request JNull 1767225600000)"

lemma demo_quote_issued:
  "createQuote (\<le>) (\<lambda>s. s) demo_protocol demo_pricing ''q1'' demo_request JNull 1767225600000 = Inr demo_quote"
proof -
  have "res_ok (createQuote (\<le>) (\<lambda>s. s) demo_protocol demo_pricing ''q1'' demo_request JNull 1767225600000)"
    using createQuote_valid_pricing [OF demo_pricing_valid, of "(\<le>)" "\<lambda>s. s" demo_protocol] demo_request_valid
    by (simp add: Let_def)
  then show ?thesis by (auto simp: demo_quote_def res_ok_iff)
qed

theorem createQuote_spec_witness:
  "dec_value (q_totalAtomicAmount demo_quote) = sum_list (line_item_values (q_lineItems demo_quote))"
  using createQuote_spec [OF demo_pricing_valid demo_quote_issued] by blast

text \<open>
  The commitment binds the quote: if SHA-256 is collision free, two quotes with the same
  commitment have the same id, request, line items, amounts and times, and capability snapshots that
  differ at most in the order of their keys.
\<close>

theorem quote_commitment_binding:
  assumes "inj sha256" and "quote_commitment le sha256 q = quote_commitment le sha256 q'"
  shows "q_id q = q_id q' \<and> normal_json le (request_json (q_request q)) = normal_json le (request_json (q_request q'))
    \<and> q_lineItems q = q_lineItems q' \<and> q_totalAtomicAmount q = q_totalAtomicAmount q'
    \<and> q_refundableToolBudgetAtomic q = q_refundableToolBudgetAtomic q'
    \<and> q_createdAt q = q_createdAt q' \<and> q_expiresAt q = q_expiresAt q'
    \<and> normal_json le (q_capabilitySnapshot q) = normal_json le (q_capabilitySnapshot q')"
proof -
  have "canonicalJson le (unsigned_json q) = canonicalJson le (unsigned_json q')"
    using assms by (simp add: quote_commitment_def inj_eq)
  then have n: "normal_json le (unsigned_json q) = normal_json le (unsigned_json q')"
    by (simp add: canonicalJson_print print_json_inj)
  note m = normal_json_members [OF n [unfolded unsigned_json_def]]
  have l: "normal_json le (line_items_json (q_lineItems q)) = normal_json le (line_items_json (q_lineItems q'))"
    using m [of "''lineItems''"] by simp
  note ml = normal_json_members [OF l [unfolded line_items_json_def]]
  have "li_baseOrchestrationFeeAtomic (q_lineItems q) = li_baseOrchestrationFeeAtomic (q_lineItems q')"
    using ml [of "''baseOrchestrationFeeAtomic''"] by simp
  moreover have "li_mandatoryToolBudgetAtomic (q_lineItems q) = li_mandatoryToolBudgetAtomic (q_lineItems q')"
    using ml [of "''mandatoryToolBudgetAtomic''"] by simp
  moreover have "li_dynamicToolBudgetAtomic (q_lineItems q) = li_dynamicToolBudgetAtomic (q_lineItems q')"
    using ml [of "''dynamicToolBudgetAtomic''"] by simp
  moreover have "li_modelInfrastructureReserveAtomic (q_lineItems q) = li_modelInfrastructureReserveAtomic (q_lineItems q')"
    using ml [of "''modelInfrastructureReserveAtomic''"] by simp
  moreover have "li_chainStorageReserveAtomic (q_lineItems q) = li_chainStorageReserveAtomic (q_lineItems q')"
    using ml [of "''chainStorageReserveAtomic''"] by simp
  moreover have "li_riskSupportReserveAtomic (q_lineItems q) = li_riskSupportReserveAtomic (q_lineItems q')"
    using ml [of "''riskSupportReserveAtomic''"] by simp
  ultimately have "q_lineItems q = q_lineItems q'" by simp
  then show ?thesis
    using m [of "''id''"] m [of "''request''"] m [of "''totalAtomicAmount''"] m [of "''createdAt''"]
      m [of "''refundableToolBudgetAtomic''"] m [of "''expiresAt''"] m [of "''capabilitySnapshot''"] by simp
qed

theorem quote_commitment_binding_witness:
  "q_id (demo_quote\<lparr>q_quoteCommitment := []\<rparr>) = q_id demo_quote"
  using quote_commitment_binding [of "\<lambda>s. s" "(\<le>)" "demo_quote\<lparr>q_quoteCommitment := []\<rparr>" demo_quote]
  by (simp add: quote_commitment_def unsigned_json_def)

end
