(* ===== verification/Risk.thy ===== *)
theory Risk
  imports Platform Money Mandate
begin

text \<open>
  The advisory risk classifier and the deterministic plan compiler
  (\<open>packages/risk-classifier/src\<close>), and the mandate built from a plan
  (\<open>apps/orchestrator-worker/src/mandate-builder.ts\<close>).  The model provider is a port that returns text.
\<close>

datatype risk_level = LOW | MEDIUM | HIGH

record risk_classification =
  rc_riskLevel :: risk_level
  rc_proposedScenarios :: "string list"
  rc_proposedToolBudgetAtomic :: string
  rc_rationale :: string

record classification_input =
  ci_targetServiceId :: string
  ci_targetVersionHash :: string
  ci_x402Endpoint :: string
  ci_openApiUrl :: string
  ci_serviceSummary :: string
  ci_mandatoryScenarios :: "string list"
  ci_availableScenarios :: "string list"
  ci_maximumToolBudgetAtomic :: string

section \<open>The response schema\<close>

definition risk_level_of :: "json option \<Rightarrow> risk_level option" where
  "risk_level_of v =
    (case json_string_of v of None \<Rightarrow> None
     | Some s \<Rightarrow> if s = ''LOW'' then Some LOW else if s = ''MEDIUM'' then Some MEDIUM
         else if s = ''HIGH'' then Some HIGH else None)"

fun json_strings :: "json list \<Rightarrow> string list option" where
  "json_strings [] = Some []"
| "json_strings (JStr s # vs) = map_option (\<lambda>r. s # r) (json_strings vs)"
| "json_strings (v # vs) = None"

definition string_list_of :: "json option \<Rightarrow> string list option" where
  "string_list_of v = (case v of Some (JArr vs) \<Rightarrow> json_strings vs | _ \<Rightarrow> None)"

definition classification_keys :: "string list" where
  "classification_keys = [''riskLevel'', ''proposedScenarios'', ''proposedToolBudgetAtomic'', ''rationale'']"

text \<open>\<open>riskClassificationSchema.safeParse\<close>: a strict object with exactly these members.\<close>

definition parse_classification :: "json \<Rightarrow> risk_classification option" where
  "parse_classification v =
    (case v of
       JObj kvs \<Rightarrow>
        (case (risk_level_of (json_get v ''riskLevel''), string_list_of (json_get v ''proposedScenarios''),
               json_string_of (json_get v ''proposedToolBudgetAtomic''), json_string_of (json_get v ''rationale'')) of
           (Some level, Some scenarios, Some budget, Some rationale) \<Rightarrow>
             if list_all (\<lambda>k. k \<in> set classification_keys) (map fst kvs)
                \<and> 1 \<le> length scenarios \<and> length scenarios \<le> 20 \<and> list_all is_scenario_id scenarios
                \<and> is_atomic budget \<and> 1 \<le> length rationale \<and> length rationale \<le> 2000
             then Some \<lparr>rc_riskLevel = level, rc_proposedScenarios = scenarios,
               rc_proposedToolBudgetAtomic = budget, rc_rationale = rationale\<rparr>
             else None
         | _ \<Rightarrow> None)
     | _ \<Rightarrow> None)"

definition buildPrompt :: "classification_input \<Rightarrow> string" where
  "buildPrompt i = join_with [CHR 0x0A]
    [''You are a release-risk classifier for an x402-paid API. You propose; you never decide.'',
     ''Deterministic code will clamp your proposed budget and always run mandatory scenarios regardless of what you propose.'',
     ''Target service ID: '' @ ci_targetServiceId i,
     ''Target version hash: '' @ ci_targetVersionHash i,
     ''Paid x402 endpoint: '' @ ci_x402Endpoint i,
     ''OpenAPI document: '' @ ci_openApiUrl i,
     ''Service summary: '' @ ci_serviceSummary i,
     ''Mandatory scenarios that will always run regardless of your answer: '' @ join_with '', '' (ci_mandatoryScenarios i),
     ''Scenario IDs the pipeline can actually execute: '' @ join_with '', '' (ci_availableScenarios i)
        @ ''. Proposing an ID outside this list changes nothing -- it will not run.'',
     ''Maximum tool budget (atomic units, do not exceed): '' @ ci_maximumToolBudgetAtomic i,
     ''Propose a risk level, any additional scenario IDs beyond the mandatory ones (only from the executable list above), a tool budget within the ceiling, and a short rationale.'']"

definition unavailable :: "string \<Rightarrow> exn" where
  "unavailable reason = Risk_classification_unavailable (''Risk classification unavailable: '' @ reason)"

definition classify ::
  "platform \<Rightarrow> (string \<Rightarrow> ('w, string) io) \<Rightarrow> classification_input \<Rightarrow> ('w, risk_classification) io" where
  "classify P responses_create i =
    io_bind (io_catch (responses_create (buildPrompt i))
       (\<lambda>_. io_throw (unavailable ''OpenAI request failed''))) (\<lambda>outputText.
    case pf_parse_json P outputText of
      None \<Rightarrow> io_throw (unavailable ''OpenAI response was not valid JSON'')
    | Some v \<Rightarrow>
       (case parse_classification v of
          None \<Rightarrow> io_throw (unavailable ''OpenAI response failed schema validation'')
        | Some c \<Rightarrow> io_ret c))"

section \<open>The plan compiler\<close>

record compiled_plan =
  cp_scenarios :: "string list"
  cp_toolBudgetAtomic :: string
  cp_riskLevel :: risk_level
  cp_rationale :: string

definition compileTestPlan :: "risk_classification \<Rightarrow> string list \<Rightarrow> string \<Rightarrow> compiled_plan res" where
  "compileTestPlan proposal mandatoryScenarios maximumToolBudgetAtomic =
    (if mandatoryScenarios = [] then Inl (Js_error ''At least one mandatory scenario is required'')
     else
     let scenarios = js_unique (mandatoryScenarios @ rc_proposedScenarios proposal) in
     res_bind (js_bigint (rc_proposedToolBudgetAtomic proposal)) (\<lambda>proposedBudget.
     res_bind (js_bigint maximumToolBudgetAtomic) (\<lambda>ceiling.
     Inr \<lparr>cp_scenarios = scenarios,
          cp_toolBudgetAtomic = int_to_string (if ceiling < proposedBudget then ceiling else proposedBudget),
          cp_riskLevel = rc_riskLevel proposal, cp_rationale = rc_rationale proposal\<rparr>)))"

section \<open>The mandate of a plan\<close>

definition mandate_input :: "compiled_plan \<Rightarrow> string \<Rightarrow> string \<Rightarrow> int \<Rightarrow> run_mandate" where
  "mandate_input plan toolAgentId host deadline =
    \<lparr>md_maximumTotalSpend = cp_toolBudgetAtomic plan, md_maximumSinglePurchase = cp_toolBudgetAtomic plan,
     md_maximumToolCalls = 1, md_maximumRetriesPerTool = 0, md_allowedToolAgentIds = [toolAgentId],
     md_allowedHosts = [host], md_requiredScenarios = cp_scenarios plan,
     md_additionalSpendApprovalThreshold = cp_toolBudgetAtomic plan, md_deadline = deadline\<rparr>"

definition buildMandate :: "compiled_plan \<Rightarrow> string \<Rightarrow> string \<Rightarrow> int \<Rightarrow> run_mandate res" where
  "buildMandate plan toolAgentId host deadline =
    runMandateSchema_parse (mandate_input plan toolAgentId host deadline)"

section \<open>Properties\<close>

lemma parse_classification_valid:
  "parse_classification v = Some c \<Longrightarrow>
    is_atomic (rc_proposedToolBudgetAtomic c) \<and> 1 \<le> length (rc_proposedScenarios c)
    \<and> length (rc_proposedScenarios c) \<le> 20 \<and> list_all is_scenario_id (rc_proposedScenarios c)
    \<and> 1 \<le> length (rc_rationale c) \<and> length (rc_rationale c) \<le> 2000"
  by (auto simp: parse_classification_def split: json.splits option.splits prod.splits if_splits)

text \<open>
  Whatever text the model provider returns, the classifier either throws the unavailable error or
  returns a classification within the schema: a canonical budget and one to twenty well-formed
  scenario ids.
\<close>

theorem classify_total:
  "(case fst (classify P responses_create i w) of
      Inl e \<Rightarrow> \<exists>reason. e = unavailable reason
    | Inr c \<Rightarrow> is_atomic (rc_proposedToolBudgetAtomic c) \<and> 1 \<le> length (rc_proposedScenarios c)
        \<and> length (rc_proposedScenarios c) \<le> 20 \<and> list_all is_scenario_id (rc_proposedScenarios c))"
proof -
  obtain r w' where r: "responses_create (buildPrompt i) w = (r, w')" by (cases "responses_create (buildPrompt i) w")
  show ?thesis
  proof (cases r)
    case (Inr t)
    then show ?thesis using r parse_classification_valid
      by (auto simp: classify_def io_bind_apply io_catch_apply split: option.splits)
  qed (use r in \<open>auto simp: classify_def io_bind_apply io_catch_apply\<close>)
qed

text \<open>
  The proposal is advisory.  For a proposal within the schema and a canonical ceiling the
  compiler always produces a plan; every mandatory scenario is in it, in order and first; every other
  scenario was proposed; no scenario is repeated; and the budget is the smaller of the proposal and the
  ceiling.
\<close>

theorem compileTestPlan_spec:
  assumes "mandatory \<noteq> []" and "distinct mandatory"
    and "is_atomic (rc_proposedToolBudgetAtomic proposal)" and "is_atomic ceiling"
  shows "\<exists>plan. compileTestPlan proposal mandatory ceiling = Inr plan
    \<and> prefix mandatory (cp_scenarios plan) \<and> distinct (cp_scenarios plan)
    \<and> set (cp_scenarios plan) = set mandatory \<union> set (rc_proposedScenarios proposal)
    \<and> is_atomic (cp_toolBudgetAtomic plan)
    \<and> dec_value (cp_toolBudgetAtomic plan)
        = min (dec_value (rc_proposedToolBudgetAtomic proposal)) (dec_value ceiling)"
  using assms prefix_js_unique [OF assms(2), of "rc_proposedScenarios proposal"]
  by (auto simp: compileTestPlan_def js_bigint_atomic int_to_string_def Let_def min_def)

definition demo_proposal :: risk_classification where
  "demo_proposal = \<lparr>rc_riskLevel = HIGH, rc_proposedScenarios = [''extra'', ''replay''],
     rc_proposedToolBudgetAtomic = ''900'', rc_rationale = ''because''\<rparr>"

theorem compileTestPlan_spec_witness:
  "\<exists>plan. compileTestPlan demo_proposal [''replay''] ''500'' = Inr plan \<and> dec_value (cp_toolBudgetAtomic plan) = 500"
proof -
  have "is_atomic (rc_proposedToolBudgetAtomic demo_proposal)" "is_atomic ''500''"
    "dec_value (rc_proposedToolBudgetAtomic demo_proposal) = 900" "dec_value ''500'' = 500" by code_simp+
  then show ?thesis using compileTestPlan_spec [of "[''replay'']" demo_proposal "''500''"] by auto
qed

text \<open>
  The mandate of a plan spends at most the plan's budget, in one call, without retries, at one host
  that is canonical and not forbidden, for one tool agent, and requires all of the plan's scenarios.
\<close>

theorem buildMandate_sound:
  assumes "buildMandate plan agent host deadline = Inr m"
  shows "mandate_wf m \<and> md_maximumTotalSpend m = cp_toolBudgetAtomic plan
    \<and> md_maximumSinglePurchase m = cp_toolBudgetAtomic plan
    \<and> md_maximumToolCalls m = 1 \<and> md_maximumRetriesPerTool m = 0 \<and> md_allowedToolAgentIds m = [agent]
    \<and> (\<exists>c. md_allowedHosts m = [c] \<and> canonicalizeHost host = Inr c \<and> \<not> isForbiddenHost c)
    \<and> md_requiredScenarios m = cp_scenarios plan"
proof -
  from assms [unfolded buildMandate_def runMandateSchema_spec] obtain hosts where
    h: "list_all2 (\<lambda>h c. canonicalizeHost h = Inr c) [host] hosts"
      "m = mandate_input plan agent host deadline\<lparr>md_allowedHosts := hosts\<rparr>" "mandate_wf m"
    by (auto simp: mandate_input_def)
  then obtain c where "hosts = [c]" "canonicalizeHost host = Inr c" by (auto simp: list_all2_Cons1)
  with h show ?thesis by (auto simp: mandate_input_def mandate_wf_def)
qed

theorem buildMandate_sound_witness:
  "\<exists>m. buildMandate \<lparr>cp_scenarios = [''replay''], cp_toolBudgetAtomic = ''500'', cp_riskLevel = LOW,
      cp_rationale = []\<rparr> ''agent-1'' ''Tool.example.com.'' 2000000000 = Inr m
    \<and> md_allowedHosts m = [''tool.example.com'']"
proof -
  let ?b = "buildMandate \<lparr>cp_scenarios = [''replay''], cp_toolBudgetAtomic = ''500'', cp_riskLevel = LOW,
      cp_rationale = []\<rparr> ''agent-1'' ''Tool.example.com.'' 2000000000"
  have "res_ok ?b" by code_simp
  then obtain m where m: "?b = Inr m" by (auto simp: res_ok_iff)
  have "canonicalizeHost ''Tool.example.com.'' = Inr ''tool.example.com''" by code_simp
  then show ?thesis using buildMandate_sound [OF m] m by auto
qed

end
