(* ===== verification/Delivery.thy ===== *)
theory Delivery
  imports Platform Run_State
begin

text \<open>
  The attack scenarios run against a paid endpoint
  (\<open>packages/protected-delivery-runner/src\<close>: \<open>replay-runner.ts\<close>, \<open>invalid-credential-runner.ts\<close>,
  \<open>provider-signature.ts\<close>, \<open>scenario-shared.ts\<close>, \<open>fetch-client.ts\<close>) and how the pipeline selects, checks
  and aggregates them (\<open>apps/orchestrator-worker/src/pipeline/scenarios.ts\<close>).  The delivery client is a
  port on a world of any type.
\<close>

section \<open>Shared data\<close>

datatype http_method = GET | POST

datatype verdict = Verdict_PASS | Verdict_FAIL | Verdict_INCONCLUSIVE

datatype attempt_phase = Phase_INITIAL | Phase_REPLAY

record delivery_attempt =
  da_statusCode :: int
  da_deliveryConfirmed :: bool
  da_responseBodyHash :: string
  da_providerSignature :: "string option"
  da_settlementTransactionHash :: "string option"

record delivery_request =
  dr_method :: http_method
  dr_route :: string
  dr_requestBody :: "json option"
  dr_paymentReceipt :: string
  dr_paymentHeaderName :: "string option"
  dr_idempotencyKey :: string

record attempt_evidence =
  ae_phase :: attempt_phase
  ae_requestHash :: string
  ae_responseHash :: "string option"
  ae_statusCode :: "int option"
  ae_deliveryConfirmed :: "bool option"
  ae_providerSignature :: "string option"
  ae_settlementTransactionHash :: "string option"

datatype replay_failure_code =
    INITIAL_PROTECTED_DELIVERY_FAILED | PAYMENT_PROOF_REPLAY_ACCEPTED | REPLAY_PROBE_INCONCLUSIVE
  | INVALID_CREDENTIAL_ACCEPTED | INVALID_CREDENTIAL_PROBE_INCONCLUSIVE | PROVIDER_SIGNATURE_INVALID

record replay_evidence =
  re_scenarioId :: string
  re_targetServiceId :: string
  re_targetVersionHash :: string
  re_policyHash :: string
  re_paymentProofHash :: string
  re_presentedReceiptHash :: string
  re_result :: verdict
  re_failureCode :: "replay_failure_code option"
  re_attempts :: "attempt_evidence list"

definition isSuccess :: "int \<Rightarrow> bool" where
  "isSuccess statusCode \<longleftrightarrow> 200 \<le> statusCode \<and> statusCode \<le> 299"

definition hashText :: "platform \<Rightarrow> string \<Rightarrow> string" where
  "hashText P value = ''0x'' @ pf_sha256 P value"

definition hashCanonical :: "platform \<Rightarrow> json \<Rightarrow> string" where
  "hashCanonical P value = hashText P (canonicalJson (\<lambda>a b. a \<le> b) value)"

fun method_name :: "http_method \<Rightarrow> string" where
  "method_name GET = ''GET''"
| "method_name POST = ''POST''"

definition request_hash :: "platform \<Rightarrow> http_method \<Rightarrow> string \<Rightarrow> json option \<Rightarrow> string \<Rightarrow> string" where
  "request_hash P method route body key =
    hashCanonical P (JObj [(''method'', JStr (method_name method)), (''route'', JStr route),
      (''requestBody'', case body of None \<Rightarrow> JNull | Some b \<Rightarrow> b), (''idempotencyKey'', JStr key)])"

definition route_ok :: "platform \<Rightarrow> string \<Rightarrow> bool res" where
  "route_ok P route =
    (case pf_new_url P route (Some ''https://protected-target.invalid'') of
       None \<Rightarrow> Inl (Type_error ''Invalid URL'')
     | Some u \<Rightarrow> Inr (starts_with ''/'' route \<and> url_origin u = ''https://protected-target.invalid''
         \<and> url_hash u = [] \<and> CHR 0x5C \<notin> set route \<and> \<not> contains ''%5c'' (to_lower route)))"

definition hash_field_ok :: "string \<Rightarrow> string \<Rightarrow> unit res" where
  "hash_field_ok field value = ensure (is_bytes32 value) (Js_error (field @ '' must be a 32-byte hash''))"

definition validateAttempt :: "delivery_attempt \<Rightarrow> unit res" where
  "validateAttempt a =
    res_bind (ensure (100 \<le> da_statusCode a \<and> da_statusCode a \<le> 599)
      (Js_error ''Protected delivery client returned an invalid HTTP status'')) (\<lambda>_.
    ensure (is_bytes32 (da_responseBodyHash a))
      (Js_error ''Protected delivery client returned an invalid response hash''))"

section \<open>The replay runner\<close>

record replay_scenario =
  rs_scenarioId :: string
  rs_targetServiceId :: string
  rs_targetVersionHash :: string
  rs_policyHash :: string
  rs_method :: http_method
  rs_route :: string
  rs_requestBody :: "json option"
  rs_paymentReceipt :: string
  rs_paymentHeaderName :: "string option"
  rs_paymentProofHash :: string
  rs_acceptedReplayRejectionStatuses :: "int list option"

definition default_rejection_statuses :: "int list" where
  "default_rejection_statuses = [401, 402, 409]"

definition accepted_statuses :: "replay_scenario \<Rightarrow> int list" where
  "accepted_statuses s =
    (case rs_acceptedReplayRejectionStatuses s of None \<Rightarrow> default_rejection_statuses | Some xs \<Rightarrow> xs)"

definition validate_replay_scenario :: "platform \<Rightarrow> replay_scenario \<Rightarrow> unit res" where
  "validate_replay_scenario P s =
    res_bind (ensure (rs_scenarioId s \<noteq> [] \<and> rs_targetServiceId s \<noteq> [])
      (Js_error ''Replay scenario identity is required'')) (\<lambda>_.
    res_bind (route_ok P (rs_route s)) (\<lambda>ok.
    res_bind (ensure ok (Js_error ''Replay route must be an origin-relative path'')) (\<lambda>_.
    res_bind (ensure (rs_paymentReceipt s \<noteq> []) (Js_error ''Payment receipt is required'')) (\<lambda>_.
    res_bind (hash_field_ok ''targetVersionHash'' (rs_targetVersionHash s)) (\<lambda>_.
    res_bind (hash_field_ok ''policyHash'' (rs_policyHash s)) (\<lambda>_.
    res_bind (hash_field_ok ''paymentProofHash'' (rs_paymentProofHash s)) (\<lambda>_.
    ensure (accepted_statuses s \<noteq> [] \<and> list_all (\<lambda>c. 400 \<le> c \<and> c \<le> 499) (accepted_statuses s))
      (Js_error ''Replay rejection statuses must be non-empty HTTP 4xx values''))))))))"

definition replay_evidence_of ::
  "platform \<Rightarrow> replay_scenario \<Rightarrow> verdict \<Rightarrow> replay_failure_code option \<Rightarrow> attempt_evidence list \<Rightarrow> replay_evidence" where
  "replay_evidence_of P s result failureCode attempts =
    \<lparr>re_scenarioId = rs_scenarioId s, re_targetServiceId = rs_targetServiceId s,
     re_targetVersionHash = rs_targetVersionHash s, re_policyHash = rs_policyHash s,
     re_paymentProofHash = rs_paymentProofHash s,
     re_presentedReceiptHash = hashText P (rs_paymentReceipt s),
     re_result = result, re_failureCode = failureCode, re_attempts = attempts\<rparr>"

definition replay_request :: "replay_scenario \<Rightarrow> string \<Rightarrow> delivery_request" where
  "replay_request s key = \<lparr>dr_method = rs_method s, dr_route = rs_route s,
     dr_requestBody = rs_requestBody s, dr_paymentReceipt = rs_paymentReceipt s,
     dr_paymentHeaderName = rs_paymentHeaderName s, dr_idempotencyKey = key\<rparr>"

definition bare_attempt :: "attempt_phase \<Rightarrow> string \<Rightarrow> attempt_evidence" where
  "bare_attempt phase requestHash = \<lparr>ae_phase = phase, ae_requestHash = requestHash,
     ae_responseHash = None, ae_statusCode = None, ae_deliveryConfirmed = None,
     ae_providerSignature = None, ae_settlementTransactionHash = None\<rparr>"

definition answered_attempt :: "attempt_phase \<Rightarrow> string \<Rightarrow> delivery_attempt \<Rightarrow> attempt_evidence" where
  "answered_attempt phase requestHash r = \<lparr>ae_phase = phase, ae_requestHash = requestHash,
     ae_responseHash = Some (da_responseBodyHash r), ae_statusCode = Some (da_statusCode r),
     ae_deliveryConfirmed = Some (da_deliveryConfirmed r),
     ae_providerSignature = keep_truthy (da_providerSignature r),
     ae_settlementTransactionHash = keep_truthy (da_settlementTransactionHash r)\<rparr>"

definition replay_attempt ::
  "platform \<Rightarrow> (delivery_request \<Rightarrow> ('w, delivery_attempt) io) \<Rightarrow> replay_scenario \<Rightarrow> string \<Rightarrow> attempt_phase \<Rightarrow>
   ('w, delivery_attempt option \<times> attempt_evidence) io" where
  "replay_attempt P execute s key phase =
    (let requestHash = request_hash P (rs_method s) (rs_route s) (rs_requestBody s) key in
     io_catch
       (io_bind (execute (replay_request s key)) (\<lambda>response.
        io_then (io_lift (validateAttempt response))
        (io_ret (Some response, answered_attempt phase requestHash response))))
       (\<lambda>_. io_ret (None, bare_attempt phase requestHash)))"

definition run_replay ::
  "platform \<Rightarrow> (delivery_request \<Rightarrow> ('w, delivery_attempt) io) \<Rightarrow> replay_scenario \<Rightarrow> ('w, replay_evidence) io" where
  "run_replay P execute s =
    io_then (io_lift (validate_replay_scenario P s))
    (io_bind (replay_attempt P execute s (rs_scenarioId s @ '':initial'') Phase_INITIAL) (\<lambda>(initial, e1).
     case initial of
       None \<Rightarrow> io_ret (replay_evidence_of P s Verdict_INCONCLUSIVE (Some INITIAL_PROTECTED_DELIVERY_FAILED) [e1])
     | Some r1 \<Rightarrow>
       if \<not> isSuccess (da_statusCode r1) \<or> \<not> da_deliveryConfirmed r1
       then io_ret (replay_evidence_of P s Verdict_FAIL (Some INITIAL_PROTECTED_DELIVERY_FAILED) [e1])
       else
       io_bind (replay_attempt P execute s (rs_scenarioId s @ '':replay'') Phase_REPLAY) (\<lambda>(replay, e2).
       case replay of
         None \<Rightarrow> io_ret (replay_evidence_of P s Verdict_INCONCLUSIVE (Some REPLAY_PROBE_INCONCLUSIVE) [e1, e2])
       | Some r2 \<Rightarrow>
         if isSuccess (da_statusCode r2)
         then io_ret (replay_evidence_of P s Verdict_FAIL (Some PAYMENT_PROOF_REPLAY_ACCEPTED) [e1, e2])
         else if da_statusCode r2 \<notin> set (accepted_statuses s)
         then io_ret (replay_evidence_of P s Verdict_INCONCLUSIVE (Some REPLAY_PROBE_INCONCLUSIVE) [e1, e2])
         else io_ret (replay_evidence_of P s Verdict_PASS None [e1, e2]))))"

section \<open>The invalid-credential runner\<close>

record invalid_scenario =
  is_scenarioId :: string
  is_targetServiceId :: string
  is_targetVersionHash :: string
  is_policyHash :: string
  is_method :: http_method
  is_route :: string
  is_requestBody :: "json option"
  is_presentedReceipt :: "string option"
  is_paymentHeaderName :: "string option"

definition zero_hash :: string where
  "zero_hash = ''0x'' @ replicate 64 (CHR ''0'')"

definition validate_invalid_scenario :: "platform \<Rightarrow> invalid_scenario \<Rightarrow> unit res" where
  "validate_invalid_scenario P s =
    res_bind (ensure (is_scenarioId s \<noteq> [] \<and> is_targetServiceId s \<noteq> [])
      (Js_error ''Invalid-credential scenario identity is required'')) (\<lambda>_.
    res_bind (route_ok P (is_route s)) (\<lambda>ok.
    res_bind (ensure ok (Js_error ''Invalid-credential route must be an origin-relative path'')) (\<lambda>_.
    res_bind (hash_field_ok ''targetVersionHash'' (is_targetVersionHash s)) (\<lambda>_.
    hash_field_ok ''policyHash'' (is_policyHash s)))))"

definition invalid_evidence_of ::
  "platform \<Rightarrow> invalid_scenario \<Rightarrow> string \<Rightarrow> verdict \<Rightarrow> replay_failure_code option \<Rightarrow> attempt_evidence list \<Rightarrow> replay_evidence" where
  "invalid_evidence_of P s presentedReceipt result failureCode attempts =
    \<lparr>re_scenarioId = is_scenarioId s, re_targetServiceId = is_targetServiceId s,
     re_targetVersionHash = is_targetVersionHash s, re_policyHash = is_policyHash s,
     re_paymentProofHash = zero_hash, re_presentedReceiptHash = hashText P presentedReceipt,
     re_result = result, re_failureCode = failureCode, re_attempts = attempts\<rparr>"

definition presented_receipt :: "invalid_scenario \<Rightarrow> string" where
  "presented_receipt s = (case is_presentedReceipt s of None \<Rightarrow> [] | Some r \<Rightarrow> r)"

definition invalid_request :: "invalid_scenario \<Rightarrow> delivery_request" where
  "invalid_request s = \<lparr>dr_method = is_method s, dr_route = is_route s,
     dr_requestBody = is_requestBody s, dr_paymentReceipt = presented_receipt s,
     dr_paymentHeaderName = is_paymentHeaderName s,
     dr_idempotencyKey = is_scenarioId s @ '':invalid-credential''\<rparr>"

definition run_invalid_credential ::
  "platform \<Rightarrow> (delivery_request \<Rightarrow> ('w, delivery_attempt) io) \<Rightarrow> invalid_scenario \<Rightarrow> ('w, replay_evidence) io" where
  "run_invalid_credential P execute s =
    io_then (io_lift (validate_invalid_scenario P s))
    (let presentedReceipt = presented_receipt s;
         requestHash = request_hash P (is_method s) (is_route s) (is_requestBody s)
           (is_scenarioId s @ '':invalid-credential'') in
     io_bind
       (io_catch
         (io_bind (execute (invalid_request s)) (\<lambda>response.
          io_then (io_lift (validateAttempt response)) (io_ret (Some response))))
         (\<lambda>_. io_ret None))
       (\<lambda>response. case response of
          None \<Rightarrow> io_ret (invalid_evidence_of P s presentedReceipt Verdict_INCONCLUSIVE
            (Some INVALID_CREDENTIAL_PROBE_INCONCLUSIVE) [bare_attempt Phase_INITIAL requestHash])
        | Some r \<Rightarrow>
          (let attempt = (answered_attempt Phase_INITIAL requestHash r)\<lparr>ae_settlementTransactionHash := None\<rparr> in
           if isSuccess (da_statusCode r) \<and> da_deliveryConfirmed r
           then io_ret (invalid_evidence_of P s presentedReceipt Verdict_FAIL
             (Some INVALID_CREDENTIAL_ACCEPTED) [attempt])
           else if 400 \<le> da_statusCode r \<and> da_statusCode r < 500
           then io_ret (invalid_evidence_of P s presentedReceipt Verdict_PASS None [attempt])
           else io_ret (invalid_evidence_of P s presentedReceipt Verdict_INCONCLUSIVE
             (Some INVALID_CREDENTIAL_PROBE_INCONCLUSIVE) [attempt]))))"

section \<open>Provider signatures\<close>

definition verifyResponseSignature :: "platform \<Rightarrow> string \<Rightarrow> string option \<Rightarrow> string \<Rightarrow> bool" where
  "verifyResponseSignature P responseBodyHash providerSignature expectedSigner =
    (case providerSignature of
       None \<Rightarrow> False
     | Some sig \<Rightarrow>
        (if sig = [] then False
         else (case pf_recover_message P responseBodyHash sig of
           None \<Rightarrow> False
         | Some recovered \<Rightarrow> to_lower recovered = to_lower expectedSigner)))"

section \<open>The HTTP delivery client\<close>

definition parseDeliveryConfirmed :: "platform \<Rightarrow> string \<Rightarrow> bool" where
  "parseDeliveryConfirmed P bodyText =
    (case pf_parse_json P bodyText of None \<Rightarrow> False
     | Some v \<Rightarrow> json_get v ''deliveryConfirmed'' = Some (JBool True))"

definition settlement_of_header :: "platform \<Rightarrow> string option \<Rightarrow> string option" where
  "settlement_of_header P encoded =
    (if \<not> truthy encoded then None
     else case pf_parse_json P (pf_base64_decode P (the encoded)) of
       None \<Rightarrow> None
     | Some v \<Rightarrow>
        (let value = (case json_get v ''transaction'' of
              None \<Rightarrow> json_get v ''transactionHash''
            | Some JNull \<Rightarrow> json_get v ''transactionHash''
            | Some t \<Rightarrow> Some t)
         in case json_string_of value of
              None \<Rightarrow> None | Some t \<Rightarrow> if is_bytes32 t then Some t else None))"

definition parseSettlementTransactionHash :: "platform \<Rightarrow> header_list \<Rightarrow> string option" where
  "parseSettlementTransactionHash P headers =
    (case settlement_of_header P (headers_get headers ''payment-response'') of
       Some t \<Rightarrow> Some t
     | None \<Rightarrow> settlement_of_header P (headers_get headers ''x-payment-response''))"

definition fetch_execute ::
  "platform \<Rightarrow> (url \<Rightarrow> fetch_init option \<Rightarrow> ('w, http_response) io) \<Rightarrow> string \<Rightarrow> bool \<Rightarrow>
   delivery_request \<Rightarrow> ('w, delivery_attempt) io" where
  "fetch_execute P fetch baseUrl captureProviderSignature input =
    (let headerName = (case dr_paymentHeaderName input of None \<Rightarrow> ''x-payment'' | Some n \<Rightarrow> n);
         paymentHeaders = (if dr_paymentReceipt input = [] then []
                           else [(headerName, dr_paymentReceipt input)])
     in case pf_new_url P (dr_route input) (Some baseUrl) of
       None \<Rightarrow> io_throw (Type_error ''Invalid URL'')
     | Some u \<Rightarrow>
       io_bind (fetch u (Some \<lparr>fi_method = Some (method_name (dr_method input)),
           fi_headers = Some ([(''content-type'', ''application/json'')] @ paymentHeaders
             @ [(''x-idempotency-key'', dr_idempotencyKey input)]),
           fi_body = map_option (canonicalJson (\<lambda>_ _. True)) (dr_requestBody input)\<rparr>)) (\<lambda>response.
       io_ret \<lparr>da_statusCode = hr_status response,
         da_deliveryConfirmed = (isSuccess (hr_status response) \<and> parseDeliveryConfirmed P (hr_body response)),
         da_responseBodyHash = hashText P (hr_body response),
         da_providerSignature = keep_truthy (if captureProviderSignature
           then headers_get (hr_headers response) ''x-provider-signature'' else None),
         da_settlementTransactionHash = parseSettlementTransactionHash P (hr_headers response)\<rparr>))"

section \<open>The scenarios of a run\<close>

record scenario_context =
  sc_targetServiceId :: string
  sc_targetVersionHash :: string
  sc_policyHash :: string
  sc_paymentReceipt :: string
  sc_paymentHeaderName :: string
  sc_paymentTransactionHash :: string
  sc_route :: string

record scenario_result =
  sr_evidence :: replay_evidence
  sr_chainTransactionHash :: string

definition replay_executor ::
  "platform \<Rightarrow> (delivery_request \<Rightarrow> ('w, delivery_attempt) io) \<Rightarrow> scenario_context \<Rightarrow> ('w, scenario_result) io" where
  "replay_executor P execute ctx =
    io_bind (run_replay P execute \<lparr>rs_scenarioId = ''payment-proof-replay'',
        rs_targetServiceId = sc_targetServiceId ctx, rs_targetVersionHash = sc_targetVersionHash ctx,
        rs_policyHash = sc_policyHash ctx, rs_method = GET, rs_route = sc_route ctx, rs_requestBody = None,
        rs_paymentReceipt = sc_paymentReceipt ctx, rs_paymentHeaderName = Some (sc_paymentHeaderName ctx),
        rs_paymentProofHash = pf_keccak_text P (sc_paymentTransactionHash ctx),
        rs_acceptedReplayRejectionStatuses = None\<rparr>) (\<lambda>ev.
    (let settlement = (case find (\<lambda>a. truthy (ae_settlementTransactionHash a)) (re_attempts ev) of
           None \<Rightarrow> None | Some a \<Rightarrow> ae_settlementTransactionHash a)
     in io_ret \<lparr>sr_evidence = ev, sr_chainTransactionHash =
          (case settlement of None \<Rightarrow> sc_paymentTransactionHash ctx | Some t \<Rightarrow> t)\<rparr>))"

definition invalid_executor ::
  "platform \<Rightarrow> (delivery_request \<Rightarrow> ('w, delivery_attempt) io) \<Rightarrow> scenario_context \<Rightarrow> string \<Rightarrow> string option \<Rightarrow>
   ('w, scenario_result) io" where
  "invalid_executor P execute ctx scenarioId presentedReceipt =
    io_bind (run_invalid_credential P execute \<lparr>is_scenarioId = scenarioId,
        is_targetServiceId = sc_targetServiceId ctx, is_targetVersionHash = sc_targetVersionHash ctx,
        is_policyHash = sc_policyHash ctx, is_method = GET, is_route = sc_route ctx, is_requestBody = None,
        is_presentedReceipt = presentedReceipt, is_paymentHeaderName = Some (sc_paymentHeaderName ctx)\<rparr>)
    (\<lambda>ev. io_ret \<lparr>sr_evidence = ev, sr_chainTransactionHash = zero_hash\<rparr>)"

definition scenario_executor ::
  "platform \<Rightarrow> (delivery_request \<Rightarrow> ('w, delivery_attempt) io) \<Rightarrow> string \<Rightarrow>
   (scenario_context \<Rightarrow> ('w, scenario_result) io) option" where
  "scenario_executor P execute scenarioId =
    (if scenarioId = ''payment-proof-replay'' then Some (replay_executor P execute)
     else if scenarioId = ''unpaid-access-denial''
       then Some (\<lambda>ctx. invalid_executor P execute ctx ''unpaid-access-denial'' None)
     else if scenarioId = ''tampered-receipt-rejection''
       then Some (\<lambda>ctx. invalid_executor P execute ctx ''tampered-receipt-rejection''
              (Some (sc_paymentReceipt ctx @ ''-tampered'')))
     else None)"

definition aggregateScenarioResult :: "replay_evidence list \<Rightarrow> verdict" where
  "aggregateScenarioResult results =
    (if results = [] then Verdict_INCONCLUSIVE
     else if list_ex (\<lambda>r. re_result r = Verdict_FAIL) results then Verdict_FAIL
     else if list_ex (\<lambda>r. re_result r = Verdict_INCONCLUSIVE) results then Verdict_INCONCLUSIVE
     else Verdict_PASS)"

definition unverified_attempt :: "platform \<Rightarrow> string \<Rightarrow> attempt_evidence \<Rightarrow> bool" where
  "unverified_attempt P signer a =
    (case ae_responseHash a of None \<Rightarrow> False
     | Some h \<Rightarrow> \<not> verifyResponseSignature P h (ae_providerSignature a) signer)"

definition verifyScenarioProvenance ::
  "platform \<Rightarrow> scenario_result list \<Rightarrow> string option \<Rightarrow> scenario_result list" where
  "verifyScenarioProvenance P results expectedSigner =
    (if \<not> truthy expectedSigner then results
     else map (\<lambda>r.
       if re_result (sr_evidence r) \<noteq> Verdict_PASS then r
       else if \<not> list_ex (unverified_attempt P (the expectedSigner)) (re_attempts (sr_evidence r)) then r
       else r\<lparr>sr_evidence := (sr_evidence r)\<lparr>re_result := Verdict_INCONCLUSIVE,
              re_failureCode := Some PROVIDER_SIGNATURE_INVALID\<rparr>\<rparr>) results)"

section \<open>Properties\<close>

text \<open>A port's answer that the runners accept as a response.\<close>

definition accepted_answer :: "delivery_attempt res \<Rightarrow> delivery_attempt option" where
  "accepted_answer r = (case r of Inl _ \<Rightarrow> None | Inr a \<Rightarrow> if res_ok (validateAttempt a) then Some a else None)"

lemma replay_attempt_apply:
  "replay_attempt P execute s key phase w =
    (let (r, w') = execute (replay_request s key) w;
         h = request_hash P (rs_method s) (rs_route s) (rs_requestBody s) key in
     (Inr (case accepted_answer r of None \<Rightarrow> (None, bare_attempt phase h)
        | Some a \<Rightarrow> (Some a, answered_attempt phase h a)), w'))"
proof -
  obtain r w' where e: "execute (replay_request s key) w = (r, w')" by (cases "execute (replay_request s key) w")
  show ?thesis
  proof (cases r)
    case (Inl x)
    then show ?thesis using e
      by (simp add: replay_attempt_def io_catch_apply io_bind_apply io_then_apply accepted_answer_def Let_def)
  next
    case (Inr a)
    then show ?thesis using e
      by (cases "validateAttempt a")
        (simp_all add: replay_attempt_def io_catch_apply io_bind_apply io_then_apply accepted_answer_def Let_def)
  qed
qed

definition delivered_ok :: "delivery_attempt res \<Rightarrow> bool" where
  "delivered_ok r = (case accepted_answer r of None \<Rightarrow> False
     | Some a \<Rightarrow> isSuccess (da_statusCode a) \<and> da_deliveryConfirmed a)"

definition answered_with :: "(int \<Rightarrow> bool) \<Rightarrow> delivery_attempt res \<Rightarrow> bool" where
  "answered_with Q r = (case accepted_answer r of None \<Rightarrow> False | Some a \<Rightarrow> Q (da_statusCode a))"

lemma accepted_statuses_4xx:
  "validate_replay_scenario P s = Inr u \<Longrightarrow> c \<in> set (accepted_statuses s) \<Longrightarrow> \<not> isSuccess c"
  by (auto simp: validate_replay_scenario_def res_bind_Inr_iff isSuccess_def list_all_iff)

text \<open>
  The verdict of the replay scenario.  On a valid scenario the runner always returns: PASS exactly
  when the paid request was delivered and confirmed and the byte-identical replay was answered with an
  accepted rejection status; FAIL exactly when the target answered the first request without delivering,
  or delivered and then answered the replay with a success; INCONCLUSIVE otherwise.  The second request
  differs from the first in the idempotency key only.
\<close>

theorem run_replay_verdict:
  assumes valid: "validate_replay_scenario P s = Inr ()"
    and first: "execute (replay_request s (rs_scenarioId s @ '':initial'')) w = (r1, w1)"
    and second: "execute (replay_request s (rs_scenarioId s @ '':replay'')) w1 = (r2, w2)"
  shows "\<exists>ev w'. run_replay P execute s w = (Inr ev, w')
    \<and> (re_result ev = Verdict_PASS \<longleftrightarrow>
         delivered_ok r1 \<and> answered_with (\<lambda>c. c \<in> set (accepted_statuses s)) r2)
    \<and> (re_result ev = Verdict_FAIL \<longleftrightarrow>
         (accepted_answer r1 \<noteq> None \<and> \<not> delivered_ok r1) \<or> (delivered_ok r1 \<and> answered_with isSuccess r2))
    \<and> (re_failureCode ev = None \<longleftrightarrow> re_result ev = Verdict_PASS)
    \<and> w' = (if delivered_ok r1 then w2 else w1)"
proof (cases "accepted_answer r1")
  case None
  then show ?thesis using valid first
    by (simp add: run_replay_def io_then_apply io_bind_apply replay_attempt_apply delivered_ok_def
      replay_evidence_of_def Let_def)
next
  case (Some a1)
  show ?thesis
  proof (cases "delivered_ok r1")
    case False
    then show ?thesis using valid first Some
      by (auto simp: run_replay_def io_then_apply io_bind_apply replay_attempt_apply delivered_ok_def
        replay_evidence_of_def Let_def)
  next
    case True
    then have a1: "isSuccess (da_statusCode a1)" "da_deliveryConfirmed a1"
      using Some by (simp_all add: delivered_ok_def)
    show ?thesis
    proof (cases "accepted_answer r2")
      case None
      then show ?thesis using valid first second Some True a1
        by (simp add: run_replay_def io_then_apply io_bind_apply replay_attempt_apply answered_with_def
          replay_evidence_of_def Let_def)
    next
      case (Some a2)
      then show ?thesis
        using valid first second \<open>accepted_answer r1 = Some a1\<close> True a1
          accepted_statuses_4xx [OF valid, of "da_statusCode a2"]
        by (auto simp: run_replay_def io_then_apply io_bind_apply replay_attempt_apply answered_with_def
          replay_evidence_of_def Let_def)
    qed
  qed
qed

definition demo_hash :: string where "demo_hash = ''0x'' @ replicate 64 (CHR ''1'')"

definition demo_scenario :: replay_scenario where
  "demo_scenario = \<lparr>rs_scenarioId = ''payment-proof-replay'', rs_targetServiceId = ''svc'',
     rs_targetVersionHash = demo_hash, rs_policyHash = demo_hash, rs_method = GET, rs_route = ''/paid'',
     rs_requestBody = None, rs_paymentReceipt = ''receipt'', rs_paymentHeaderName = None,
     rs_paymentProofHash = demo_hash, rs_acceptedReplayRejectionStatuses = None\<rparr>"

definition demo_answer :: "int \<Rightarrow> bool \<Rightarrow> delivery_attempt" where
  "demo_answer status confirmed = \<lparr>da_statusCode = status, da_deliveryConfirmed = confirmed,
     da_responseBodyHash = demo_hash, da_providerSignature = Some ''0xAA'', da_settlementTransactionHash = None\<rparr>"

text \<open>A target that delivers once and then answers 402.\<close>

definition demo_execute :: "delivery_request \<Rightarrow> (nat, delivery_attempt) io" where
  "demo_execute r = (\<lambda>n. (Inr (if n = 0 then demo_answer 200 True else demo_answer 402 False), n + 1))"

lemma demo_scenario_valid: "validate_replay_scenario demo_platform demo_scenario = Inr ()"
  by code_simp

theorem run_replay_verdict_witness:
  "\<exists>ev. run_replay demo_platform demo_execute demo_scenario 0 = (Inr ev, 2) \<and> re_result ev = Verdict_PASS"
proof -
  have c: "delivered_ok (Inr (demo_answer 200 True))"
    "answered_with (\<lambda>c. c \<in> set (accepted_statuses demo_scenario)) (Inr (demo_answer 402 False))"
    by code_simp+
  have "\<exists>ev w'. run_replay demo_platform demo_execute demo_scenario 0 = (Inr ev, w')
      \<and> (re_result ev = Verdict_PASS \<longleftrightarrow> delivered_ok (Inr (demo_answer 200 True))
          \<and> answered_with (\<lambda>c. c \<in> set (accepted_statuses demo_scenario)) (Inr (demo_answer 402 False)))
      \<and> w' = (if delivered_ok (Inr (demo_answer 200 True)) then 2 else 1)"
    using run_replay_verdict [OF demo_scenario_valid, of demo_execute 0 "Inr (demo_answer 200 True)" 1
      "Inr (demo_answer 402 False)" 2] by (force simp: demo_execute_def)
  then show ?thesis using c by auto
qed

text \<open>
  A scenario set aggregates to PASS only when it is not empty and every scenario passed; and with a
  registered provider signer, PASS further means that every response of every scenario verifies under
  that signer.  Provenance checking never turns a verdict into PASS and never touches a non-PASS.
\<close>

theorem verified_pass_sound:
  assumes "truthy signer"
    and "aggregateScenarioResult (map sr_evidence (verifyScenarioProvenance P results signer)) = Verdict_PASS"
  shows "results \<noteq> [] \<and> (\<forall>r \<in> set results. re_result (sr_evidence r) = Verdict_PASS
    \<and> (\<forall>a \<in> set (re_attempts (sr_evidence r)). \<forall>h. ae_responseHash a = Some h \<longrightarrow>
          verifyResponseSignature P h (ae_providerSignature a) (the signer)))"
proof -
  let ?f = "\<lambda>r. if re_result (sr_evidence r) \<noteq> Verdict_PASS then r
       else if \<not> list_ex (unverified_attempt P (the signer)) (re_attempts (sr_evidence r)) then r
       else r\<lparr>sr_evidence := (sr_evidence r)\<lparr>re_result := Verdict_INCONCLUSIVE,
              re_failureCode := Some PROVIDER_SIGNATURE_INVALID\<rparr>\<rparr>"
  have pass: "results \<noteq> [] \<and> (\<forall>r \<in> set results. re_result (sr_evidence (?f r)) = Verdict_PASS)"
    using assms by (auto simp: aggregateScenarioResult_def verifyScenarioProvenance_def list_ex_iff
      split: if_splits) (metis verdict.exhaust)+
  have "re_result (sr_evidence r) = Verdict_PASS
      \<and> \<not> list_ex (unverified_attempt P (the signer)) (re_attempts (sr_evidence r))" if "r \<in> set results" for r
    using pass that by (fastforce split: if_splits)
  then show ?thesis using pass by (fastforce simp: list_ex_iff unverified_attempt_def)
qed

definition demo_result :: scenario_result where
  "demo_result = \<lparr>sr_evidence = \<lparr>re_scenarioId = ''unpaid-access-denial'', re_targetServiceId = ''svc'',
     re_targetVersionHash = demo_hash, re_policyHash = demo_hash, re_paymentProofHash = zero_hash,
     re_presentedReceiptHash = demo_hash, re_result = Verdict_PASS, re_failureCode = None,
     re_attempts = [answered_attempt Phase_INITIAL demo_hash (demo_answer 402 False)]\<rparr>,
     sr_chainTransactionHash = zero_hash\<rparr>"

theorem verified_pass_sound_witness:
  "verifyResponseSignature demo_platform demo_hash (Some ''0xAA'') ''0xaa''"
proof -
  have "aggregateScenarioResult (map sr_evidence
      (verifyScenarioProvenance demo_platform [demo_result] (Some ''0xaa''))) = Verdict_PASS"
    by code_simp
  from verified_pass_sound [OF _ this] show ?thesis
    by (simp add: demo_result_def answered_attempt_def demo_answer_def keep_truthy_def)
qed

end
