(* ===== verification/Receipts.thy ===== *)
theory Receipts
  imports Delivery Mandate
begin

text \<open>
  Tool receipts and their Merkle root (\<open>packages/evidence-sdk/src/tool-receipt.ts\<close>), the evidence pack
  (\<open>apps/orchestrator-worker/src/evidence-builder.ts\<close>) and the attestation input
  (\<open>attestation-builder.ts\<close>).  EIP-712 hashing and recovery are parameters: \<open>hash_typed\<close> maps an
  unsigned receipt to its digest, \<open>recover_typed\<close> a receipt and a signature to the signer.
\<close>

section \<open>Tool receipts\<close>

record unsigned_receipt =
  tr_receiptVersion :: string
  tr_runId :: string
  tr_toolAgentId :: string
  tr_targetAgentId :: string
  tr_targetVersionHash :: string
  tr_policyHash :: string
  tr_scenarioId :: string
  tr_requestHash :: string
  tr_responseHash :: string
  tr_paymentProofHash :: string
  tr_chainTransactionHash :: string
  tr_chainId :: int
  tr_startedAt :: int
  tr_completedAt :: int
  tr_result :: verdict
  tr_failureCode :: string
  tr_toolVersion :: string
  tr_signatureScheme :: string

record tool_receipt =
  rcpt_unsigned :: unsigned_receipt
  rcpt_signature :: string

definition is_hex_string :: "string \<Rightarrow> bool" where
  "is_hex_string s \<longleftrightarrow> take 2 s = ''0x'' \<and> drop 2 s \<noteq> [] \<and> list_all is_hex_digit (drop 2 s)"

definition receipt_fields_ok :: "unsigned_receipt \<Rightarrow> bool" where
  "receipt_fields_ok r \<longleftrightarrow>
    tr_receiptVersion r = ''1.0'' \<and> 1 \<le> length (tr_runId r) \<and> length (tr_runId r) \<le> 200
    \<and> 1 \<le> length (tr_toolAgentId r) \<and> length (tr_toolAgentId r) \<le> 256
    \<and> 1 \<le> length (tr_targetAgentId r) \<and> length (tr_targetAgentId r) \<le> 256
    \<and> is_bytes32 (tr_targetVersionHash r) \<and> is_bytes32 (tr_policyHash r) \<and> is_scenario_id (tr_scenarioId r)
    \<and> is_bytes32 (tr_requestHash r) \<and> is_bytes32 (tr_responseHash r) \<and> is_bytes32 (tr_paymentProofHash r)
    \<and> is_bytes32 (tr_chainTransactionHash r) \<and> 0 < tr_chainId r \<and> 0 \<le> tr_startedAt r
    \<and> 0 \<le> tr_completedAt r \<and> length (tr_failureCode r) \<le> 128
    \<and> 1 \<le> length (tr_toolVersion r) \<and> length (tr_toolVersion r) \<le> 100 \<and> tr_signatureScheme r = ''EIP712''"

definition receipt_refined :: "unsigned_receipt \<Rightarrow> bool" where
  "receipt_refined r \<longleftrightarrow> tr_startedAt r \<le> tr_completedAt r
    \<and> \<not> (tr_result r = Verdict_PASS \<and> tr_failureCode r \<noteq> [])
    \<and> \<not> (tr_result r \<noteq> Verdict_PASS \<and> length (tr_failureCode r) = 0)"

definition toolReceiptSchema_ok :: "tool_receipt \<Rightarrow> bool" where
  "toolReceiptSchema_ok r \<longleftrightarrow>
    receipt_fields_ok (rcpt_unsigned r) \<and> is_hex_string (rcpt_signature r) \<and> receipt_refined (rcpt_unsigned r)"

record receipt_expectation =
  rx_providerSigner :: string
  rx_runId :: string
  rx_toolAgentId :: string
  rx_targetAgentId :: string
  rx_targetVersionHash :: string
  rx_policyHash :: string
  rx_scenarioId :: string
  rx_chainId :: int

record receipt_verification =
  rv_valid :: bool
  rv_failureCodes :: "string list"
  rv_signer :: "string option"
  rv_receiptHash :: "string option"

definition code_when :: "bool \<Rightarrow> string \<Rightarrow> string list" where
  "code_when b code = (if b then [code] else [])"

definition verifyToolReceipt ::
  "platform \<Rightarrow> (unsigned_receipt \<Rightarrow> string) \<Rightarrow> (unsigned_receipt \<Rightarrow> string \<Rightarrow> string option) \<Rightarrow>
   tool_receipt \<Rightarrow> receipt_expectation \<Rightarrow> receipt_verification" where
  "verifyToolReceipt P hash_typed recover_typed receipt expected =
    (if \<not> toolReceiptSchema_ok receipt
     then \<lparr>rv_valid = False, rv_failureCodes = [''RECEIPT_SCHEMA_INVALID''], rv_signer = None, rv_receiptHash = None\<rparr>
     else
     let r = rcpt_unsigned receipt;
         matched = code_when (tr_runId r \<noteq> rx_runId expected) ''RUN_ID_MISMATCH''
           @ code_when (tr_toolAgentId r \<noteq> rx_toolAgentId expected) ''TOOL_AGENT_MISMATCH''
           @ code_when (tr_targetAgentId r \<noteq> rx_targetAgentId expected) ''TARGET_AGENT_MISMATCH''
           @ code_when (to_lower (tr_targetVersionHash r) \<noteq> to_lower (rx_targetVersionHash expected)) ''TARGET_VERSION_MISMATCH''
           @ code_when (to_lower (tr_policyHash r) \<noteq> to_lower (rx_policyHash expected)) ''POLICY_MISMATCH''
           @ code_when (tr_scenarioId r \<noteq> rx_scenarioId expected) ''SCENARIO_MISMATCH''
           @ code_when (tr_chainId r \<noteq> rx_chainId expected) ''CHAIN_MISMATCH'';
         signer = recover_typed r (rcpt_signature receipt);
         signed = (case signer of None \<Rightarrow> [''SIGNATURE_INVALID'']
           | Some s \<Rightarrow>
              (case (pf_get_address P s, pf_get_address P (rx_providerSigner expected)) of
                 (Some a, Some b) \<Rightarrow> code_when (a \<noteq> b) ''SIGNER_MISMATCH''
               | _ \<Rightarrow> [''SIGNATURE_INVALID'']));
         failures = matched @ signed
     in \<lparr>rv_valid = (failures = []), rv_failureCodes = js_unique failures, rv_signer = signer,
         rv_receiptHash = Some (hash_typed r)\<rparr>)"

section \<open>The receipt root\<close>

text \<open>One level of the tree: neighbours are hashed together, a last single node with itself.\<close>

fun merkle_level :: "(string \<Rightarrow> string \<Rightarrow> string) \<Rightarrow> string list \<Rightarrow> string list" where
  "merkle_level h [] = []"
| "merkle_level h [x] = [h x x]"
| "merkle_level h (x # y # zs) = h x y # merkle_level h zs"

lemma length_merkle_level: "length (merkle_level h xs) = (length xs + 1) div 2"
  by (induction h xs rule: merkle_level.induct) auto

function merkle_fold :: "(string \<Rightarrow> string \<Rightarrow> string) \<Rightarrow> string list \<Rightarrow> string list" where
  "merkle_fold h level = (if length level \<le> 1 then level else merkle_fold h (merkle_level h level))"
  by pat_completeness auto
termination
  by (relation "measure (\<lambda>(_, l). length l)") (auto simp: length_merkle_level)

declare merkle_fold.simps [simp del]

definition empty_tool_receipt_root :: "platform \<Rightarrow> string" where
  "empty_tool_receipt_root P = pf_keccak_text P ''shipyard402:tool-receipt-root:empty''"

definition buildToolReceiptRoot :: "platform \<Rightarrow> string list \<Rightarrow> string res" where
  "buildToolReceiptRoot P receiptHashes =
    (if receiptHashes = [] then Inl (Js_error ''At least one tool receipt hash is required'')
     else Inr (hd (merkle_fold (pf_keccak_pair P) (sort_by (pf_locale_le P) receiptHashes))))"

section \<open>Properties of receipts\<close>

lemma code_when_Nil [simp]: "code_when b c = [] \<longleftrightarrow> \<not> b"
  by (simp add: code_when_def)

text \<open>
  A tool receipt is valid exactly when it meets the schema (including: it does not complete before
  it starts, and it carries a failure code exactly when it did not pass), names the expected run, agents,
  hashes, scenario and chain, and its signature recovers to the expected provider; an invalid receipt
  always carries a failure code.
\<close>

theorem verifyToolReceipt_spec:
  "(rv_valid (verifyToolReceipt P hash_typed recover receipt x) \<longleftrightarrow>
      toolReceiptSchema_ok receipt
      \<and> tr_runId (rcpt_unsigned receipt) = rx_runId x \<and> tr_toolAgentId (rcpt_unsigned receipt) = rx_toolAgentId x
      \<and> tr_targetAgentId (rcpt_unsigned receipt) = rx_targetAgentId x
      \<and> same_address (tr_targetVersionHash (rcpt_unsigned receipt)) (rx_targetVersionHash x)
      \<and> same_address (tr_policyHash (rcpt_unsigned receipt)) (rx_policyHash x)
      \<and> tr_scenarioId (rcpt_unsigned receipt) = rx_scenarioId x \<and> tr_chainId (rcpt_unsigned receipt) = rx_chainId x
      \<and> (\<exists>s a. recover (rcpt_unsigned receipt) (rcpt_signature receipt) = Some s
            \<and> pf_get_address P s = Some a \<and> pf_get_address P (rx_providerSigner x) = Some a))
    \<and> (rv_failureCodes (verifyToolReceipt P hash_typed recover receipt x) = []
        \<longleftrightarrow> rv_valid (verifyToolReceipt P hash_typed recover receipt x))"
  by (auto simp: verifyToolReceipt_def Let_def same_address_def split: option.splits)

section \<open>Properties of the root\<close>

lemma merkle_fold_single: "xs \<noteq> [] \<Longrightarrow> \<exists>r. merkle_fold h xs = [r]"
proof (induction h xs rule: merkle_fold.induct)
  case (1 h level)
  show ?case
  proof (cases "length level \<le> 1")
    case True
    with 1(2) obtain a where "level = [a]" by (cases level) auto
    then show ?thesis by (simp add: merkle_fold.simps)
  next
    case False
    then have "merkle_level h level \<noteq> []" using length_merkle_level [of h level] by auto
    then show ?thesis using 1 False by (simp add: merkle_fold.simps [of h level])
  qed
qed

text \<open>No two pairs of hashes collide.\<close>

definition collision_free :: "(string \<Rightarrow> string \<Rightarrow> string) \<Rightarrow> bool" where
  "collision_free h \<longleftrightarrow> (\<forall>a b c d. h a b = h c d \<longrightarrow> a = c \<and> b = d)"

lemma collision_freeD: "collision_free h \<Longrightarrow> h a b = h c d \<Longrightarrow> a = c \<and> b = d"
  unfolding collision_free_def by blast

lemma merkle_level_inj:
  "collision_free h \<Longrightarrow> length xs = length ys \<Longrightarrow> merkle_level h xs = merkle_level h ys \<Longrightarrow> xs = ys"
proof (induction h xs arbitrary: ys rule: merkle_level.induct)
  case (2 h x)
  from 2(2) obtain y where y: "ys = [y]" by (cases ys) (simp_all)
  then have "h x x = h y y" using 2(3) by simp
  from collision_freeD [OF 2(1) this] show ?case by (simp add: y)
next
  case (3 h x y zs)
  from 3(3) obtain u v ws where y: "ys = u # v # ws" by (cases ys; cases "tl ys") simp_all
  then have "h x y = h u v" and rest: "merkle_level h zs = merkle_level h ws" using 3(4) by simp_all
  from collision_freeD [OF 3(2) this(1)] 3(1) [OF 3(2) _ rest] 3(3) show ?case by (simp add: y)
qed simp

lemma merkle_fold_inj:
  "collision_free h \<Longrightarrow> length xs = length ys \<Longrightarrow> merkle_fold h xs = merkle_fold h ys \<Longrightarrow> xs = ys"
proof (induction h xs arbitrary: ys rule: merkle_fold.induct)
  case (1 h level)
  show ?case
  proof (cases "length level \<le> 1")
    case True
    then show ?thesis using 1(3,4) by (simp add: merkle_fold.simps [of h level] merkle_fold.simps [of h ys])
  next
    case False
    then have "merkle_fold h (merkle_level h level) = merkle_fold h (merkle_level h ys)"
      using 1(3,4) by (simp add: merkle_fold.simps [of h level] merkle_fold.simps [of h ys])
    moreover have "length (merkle_level h level) = length (merkle_level h ys)"
      using 1(3) by (simp add: length_merkle_level)
    ultimately have "merkle_level h level = merkle_level h ys" using 1(1,2) False by blast
    then show ?thesis using merkle_level_inj 1(2,3) by blast
  qed
qed

text \<open>
  The receipt root commits to the set of receipts: it exists for every non-empty list; if the pair
  hash is collision free, two equally long lists of receipt hashes have the same root exactly when they
  hold the same hashes, in whatever order the receipts were collected.
\<close>

theorem buildToolReceiptRoot_commits:
  assumes "key_order (pf_locale_le P)" and "collision_free (pf_keccak_pair P)"
    and "xs \<noteq> []" and "length xs = length ys"
  shows "\<exists>r s. buildToolReceiptRoot P xs = Inr r \<and> buildToolReceiptRoot P ys = Inr s
    \<and> (r = s \<longleftrightarrow> mset xs = mset ys)"
proof -
  let ?h = "pf_keccak_pair P" and ?sort = "sort_by (pf_locale_le P)"
  have ne: "?sort xs \<noteq> []" "?sort ys \<noteq> []" "ys \<noteq> []"
    using assms(3,4) by (auto simp flip: set_empty)
  then obtain a b where ab: "merkle_fold ?h (?sort xs) = [a]" "merkle_fold ?h (?sort ys) = [b]"
    using merkle_fold_single by meson
  have len: "length (?sort xs) = length (?sort ys)" using assms(4) by (metis mset_sort_by size_mset)
  have "a = b \<Longrightarrow> mset xs = mset ys"
    using merkle_fold_inj [OF assms(2) len] ab by (metis mset_sort_by)
  moreover have "a = b" if m: "mset xs = mset ys"
  proof -
    have "?sort xs = ?sort ys" using key_order.sort_strings_permuted [OF assms(1) m] .
    then show ?thesis using ab by simp
  qed
  ultimately show ?thesis using ab assms(3) ne(3) by (auto simp: buildToolReceiptRoot_def)
qed

lemma number_prefix_unique:
  assumes "nat_to_string m @ CHR '':'' # s = nat_to_string n @ CHR '':'' # t"
  shows "m = n \<and> s = t"
proof -
  have "\<not> is_digit (CHR '':'')" by (simp add: is_digit_def code_unit_def)
  then have "takeWhile is_digit (nat_to_string k @ CHR '':'' # u) = nat_to_string k" for k u
    using nat_to_string_digits [of k] by (simp add: list_all_iff)
  then have "nat_to_string m = nat_to_string n" using assms by metis
  then show ?thesis using assms by simp
qed

lemma demo_pair_collision_free: "collision_free (pf_keccak_pair demo_platform)"
  unfolding collision_free_def
proof (intro allI impI)
  fix a b c d assume "pf_keccak_pair demo_platform a b = pf_keccak_pair demo_platform c d"
  then have "nat_to_string (length a) @ CHR '':'' # (a @ b) = nat_to_string (length c) @ CHR '':'' # (c @ d)"
    by (simp add: demo_platform_def)
  from number_prefix_unique [OF this] show "a = c \<and> b = d" by (metis append_eq_append_conv)
qed

theorem buildToolReceiptRoot_commits_witness:
  "buildToolReceiptRoot demo_platform [''0xb'', ''0xa''] \<noteq> buildToolReceiptRoot demo_platform [''0xb'', ''0xc'']"
proof -
  have k: "key_order (pf_locale_le demo_platform)"
    using code_units.key_order_axioms by (simp add: demo_platform_def)
  from buildToolReceiptRoot_commits [OF k demo_pair_collision_free, of "[''0xb'', ''0xa'']" "[''0xb'', ''0xc'']"]
  show ?thesis by auto
qed

text \<open>
  The limit of that commitment: an odd level hashes its last node with itself, so a list of three
  receipts has the same root as the list that repeats the last one.
\<close>

lemma odd_level_duplicates_last:
  "merkle_fold h [a, b, c] = merkle_fold h [a, b, c, c]"
  by (simp add: merkle_fold.simps)

section \<open>The evidence pack\<close>

record receipt_input =
  ri_runId :: string
  ri_toolAgentId :: string
  ri_targetAgentId :: string
  ri_targetVersionHash :: string
  ri_policyHash :: string
  ri_chainTransactionHash :: string
  ri_chainId :: int
  ri_startedAt :: int
  ri_completedAt :: int
  ri_toolVersion :: string

fun failure_code_name :: "replay_failure_code \<Rightarrow> string" where
  "failure_code_name INITIAL_PROTECTED_DELIVERY_FAILED = ''INITIAL_PROTECTED_DELIVERY_FAILED''"
| "failure_code_name PAYMENT_PROOF_REPLAY_ACCEPTED = ''PAYMENT_PROOF_REPLAY_ACCEPTED''"
| "failure_code_name REPLAY_PROBE_INCONCLUSIVE = ''REPLAY_PROBE_INCONCLUSIVE''"
| "failure_code_name INVALID_CREDENTIAL_ACCEPTED = ''INVALID_CREDENTIAL_ACCEPTED''"
| "failure_code_name INVALID_CREDENTIAL_PROBE_INCONCLUSIVE = ''INVALID_CREDENTIAL_PROBE_INCONCLUSIVE''"
| "failure_code_name PROVIDER_SIGNATURE_INVALID = ''PROVIDER_SIGNATURE_INVALID''"

fun verdict_name :: "verdict \<Rightarrow> string" where
  "verdict_name Verdict_PASS = ''PASS''"
| "verdict_name Verdict_FAIL = ''FAIL''"
| "verdict_name Verdict_INCONCLUSIVE = ''INCONCLUSIVE''"

definition canBuildToolReceipt :: "replay_evidence \<Rightarrow> bool" where
  "canBuildToolReceipt ev =
    (case re_attempts ev of [] \<Rightarrow> False | a # _ \<Rightarrow> ae_responseHash a \<noteq> None)"

definition buildUnsignedToolReceipt :: "platform \<Rightarrow> replay_evidence \<Rightarrow> receipt_input \<Rightarrow> unsigned_receipt res" where
  "buildUnsignedToolReceipt P ev i =
    (case re_attempts ev of
       [] \<Rightarrow> Inl (Js_error ''Cannot build a tool receipt without an initial delivery response hash'')
     | a # _ \<Rightarrow>
       (if \<not> truthy (ae_responseHash a)
        then Inl (Js_error ''Cannot build a tool receipt without an initial delivery response hash'')
        else Inr \<lparr>tr_receiptVersion = ''1.0'', tr_runId = ri_runId i, tr_toolAgentId = ri_toolAgentId i,
          tr_targetAgentId = ri_targetAgentId i, tr_targetVersionHash = ri_targetVersionHash i,
          tr_policyHash = ri_policyHash i, tr_scenarioId = re_scenarioId ev,
          tr_requestHash = ae_requestHash a, tr_responseHash = the (ae_responseHash a),
          tr_paymentProofHash = pf_keccak_text P (ri_chainTransactionHash i),
          tr_chainTransactionHash = ri_chainTransactionHash i, tr_chainId = ri_chainId i,
          tr_startedAt = ri_startedAt i, tr_completedAt = ri_completedAt i, tr_result = re_result ev,
          tr_failureCode = (if re_result ev = Verdict_PASS then []
            else (case re_failureCode ev of None \<Rightarrow> ''UNKNOWN'' | Some c \<Rightarrow> failure_code_name c)),
          tr_toolVersion = ri_toolVersion i, tr_signatureScheme = ''EIP712''\<rparr>))"

record ai_proposal =
  ap_riskLevel :: string
  ap_proposedScenarios :: "string list"
  ap_proposedToolBudgetAtomic :: string
  ap_rationale :: string

record scenario_trace =
  st_scenarioId :: string
  st_attempts :: "attempt_evidence list"

record evidence_content =
  ec_runId :: string
  ec_targetServiceId :: string
  ec_targetVersionHash :: string
  ec_policyHash :: string
  ec_riskLevel :: string
  ec_rationale :: string
  ec_toolBudgetAtomic :: string
  ec_aiProposal :: "ai_proposal option"
  ec_scenarios :: "string list"
  ec_scenarioTraces :: "scenario_trace list"
  ec_result :: verdict
  ec_toolReceipts :: "tool_receipt list"

record evidence_pack =
  ep_evidenceRoot :: string
  ep_toolReceiptRoot :: string
  ep_contentHash :: string
  ep_publicManifest :: evidence_content

definition json_strs :: "string list \<Rightarrow> json" where "json_strs xs = JArr (map JStr xs)"

definition opt_member :: "string \<Rightarrow> json option \<Rightarrow> (string \<times> json) list" where
  "opt_member k v = (case v of None \<Rightarrow> [] | Some j \<Rightarrow> [(k, j)])"

fun phase_name :: "attempt_phase \<Rightarrow> string" where
  "phase_name Phase_INITIAL = ''INITIAL''"
| "phase_name Phase_REPLAY = ''REPLAY''"

definition attempt_json :: "attempt_evidence \<Rightarrow> json" where
  "attempt_json a = JObj ([(''phase'', JStr (phase_name (ae_phase a))), (''requestHash'', JStr (ae_requestHash a))]
     @ opt_member ''responseHash'' (map_option JStr (ae_responseHash a))
     @ opt_member ''statusCode'' (map_option JNum (ae_statusCode a))
     @ opt_member ''deliveryConfirmed'' (map_option JBool (ae_deliveryConfirmed a))
     @ opt_member ''providerSignature'' (map_option JStr (ae_providerSignature a))
     @ opt_member ''settlementTransactionHash'' (map_option JStr (ae_settlementTransactionHash a)))"

definition trace_json :: "scenario_trace \<Rightarrow> json" where
  "trace_json t = JObj [(''scenarioId'', JStr (st_scenarioId t)), (''attempts'', JArr (map attempt_json (st_attempts t)))]"

definition proposal_json :: "ai_proposal \<Rightarrow> json" where
  "proposal_json a = JObj [(''riskLevel'', JStr (ap_riskLevel a)),
     (''proposedScenarios'', json_strs (ap_proposedScenarios a)),
     (''proposedToolBudgetAtomic'', JStr (ap_proposedToolBudgetAtomic a)), (''rationale'', JStr (ap_rationale a))]"

definition receipt_json :: "tool_receipt \<Rightarrow> json" where
  "receipt_json t = (let r = rcpt_unsigned t in JObj
     [(''receiptVersion'', JStr (tr_receiptVersion r)), (''runId'', JStr (tr_runId r)),
      (''toolAgentId'', JStr (tr_toolAgentId r)), (''targetAgentId'', JStr (tr_targetAgentId r)),
      (''targetVersionHash'', JStr (tr_targetVersionHash r)), (''policyHash'', JStr (tr_policyHash r)),
      (''scenarioId'', JStr (tr_scenarioId r)), (''requestHash'', JStr (tr_requestHash r)),
      (''responseHash'', JStr (tr_responseHash r)), (''paymentProofHash'', JStr (tr_paymentProofHash r)),
      (''chainTransactionHash'', JStr (tr_chainTransactionHash r)), (''chainId'', JNum (tr_chainId r)),
      (''startedAt'', JNum (tr_startedAt r)), (''completedAt'', JNum (tr_completedAt r)),
      (''result'', JStr (verdict_name (tr_result r))), (''failureCode'', JStr (tr_failureCode r)),
      (''toolVersion'', JStr (tr_toolVersion r)), (''signatureScheme'', JStr (tr_signatureScheme r)),
      (''signature'', JStr (rcpt_signature t))])"

definition content_json :: "evidence_content \<Rightarrow> json" where
  "content_json c = JObj
     ([(''runId'', JStr (ec_runId c)), (''targetServiceId'', JStr (ec_targetServiceId c)),
       (''targetVersionHash'', JStr (ec_targetVersionHash c)), (''policyHash'', JStr (ec_policyHash c)),
       (''riskLevel'', JStr (ec_riskLevel c)), (''rationale'', JStr (ec_rationale c)),
       (''toolBudgetAtomic'', JStr (ec_toolBudgetAtomic c))]
      @ opt_member ''aiProposal'' (map_option proposal_json (ec_aiProposal c))
      @ [(''scenarios'', json_strs (ec_scenarios c)),
         (''scenarioTraces'', JArr (map trace_json (ec_scenarioTraces c))),
         (''result'', JStr (verdict_name (ec_result c))),
         (''toolReceipts'', JArr (map receipt_json (ec_toolReceipts c)))])"

definition canonicalEvidencePackContent :: "platform \<Rightarrow> evidence_content \<Rightarrow> string" where
  "canonicalEvidencePackContent P c = canonicalJson (pf_locale_le P) (content_json c)"

definition root_json :: "evidence_content \<Rightarrow> string \<Rightarrow> json" where
  "root_json c toolReceiptRoot = JObj
     [(''runId'', JStr (ec_runId c)), (''toolReceiptRoot'', JStr toolReceiptRoot),
      (''result'', JStr (verdict_name (ec_result c))), (''scenarios'', json_strs (ec_scenarios c)),
      (''targetVersionHash'', JStr (ec_targetVersionHash c)), (''policyHash'', JStr (ec_policyHash c))]"

definition buildEvidencePack :: "platform \<Rightarrow> (unsigned_receipt \<Rightarrow> string) \<Rightarrow> evidence_content \<Rightarrow> evidence_pack res" where
  "buildEvidencePack P hash_typed content =
    (if ec_toolReceipts content = [] \<and> ec_result content \<noteq> Verdict_INCONCLUSIVE
     then Inl (Js_error ''A PASS or FAIL evidence pack requires at least one tool receipt'')
     else
     res_bind (if ec_toolReceipts content = [] then Inr (empty_tool_receipt_root P)
       else buildToolReceiptRoot P (map (\<lambda>r. hash_typed (rcpt_unsigned r)) (ec_toolReceipts content)))
     (\<lambda>toolReceiptRoot. Inr
       \<lparr>ep_evidenceRoot = pf_keccak_text P (canonicalJson (pf_locale_le P) (root_json content toolReceiptRoot)),
        ep_toolReceiptRoot = toolReceiptRoot,
        ep_contentHash = pf_keccak_text P (canonicalEvidencePackContent P content),
        ep_publicManifest = content\<rparr>))"

section \<open>The attestation input\<close>

definition native_asset_sentinel :: string where
  "native_asset_sentinel = ''0xEeeeeEeeeEeEeeEeEeEeeEEEeeeeEeeeeeeeEEeE''"

definition zero_address :: string where
  "zero_address = ''0x0000000000000000000000000000000000000000''"

definition expiry_window_seconds :: int where "expiry_window_seconds = 30 * 24 * 60 * 60"

record attestation_params =
  at_runId :: string
  at_targetAgentId :: string
  at_targetServiceId :: string
  at_targetVersionHash :: string
  at_policyHash :: string
  at_customerPaymentProofHash :: string
  at_toolReceiptRoot :: string
  at_evidenceRoot :: string
  at_evidenceURI :: string
  at_requester :: string
  at_shipyardAgent :: string
  at_customerPaymentToken :: string
  at_toolSpendAtomic :: int
  at_customerPaymentAtomic :: int
  at_completedAt :: int
  at_result :: run_result

record attestation_input =
  ai_runId :: string
  ai_targetAgentId :: int
  ai_targetServiceId :: string
  ai_targetVersionHash :: string
  ai_policyHash :: string
  ai_customerPaymentProofHash :: string
  ai_toolReceiptRoot :: string
  ai_evidenceRoot :: string
  ai_evidenceURI :: string
  ai_requester :: string
  ai_shipyardAgent :: string
  ai_customerPaymentToken :: string
  ai_toolSpendToken :: string
  ai_customerPayment :: int
  ai_toolSpend :: int
  ai_completedAt :: int
  ai_expiresAt :: int
  ai_result :: run_result

definition buildAttestationInput :: "platform \<Rightarrow> attestation_params \<Rightarrow> attestation_input res" where
  "buildAttestationInput P p =
    res_bind (js_bigint (pf_keccak_text P (at_targetAgentId p))) (\<lambda>targetAgentId. Inr
     \<lparr>ai_runId = pf_keccak_text P (at_runId p), ai_targetAgentId = targetAgentId,
      ai_targetServiceId = pf_keccak_text P (at_targetServiceId p),
      ai_targetVersionHash = at_targetVersionHash p, ai_policyHash = at_policyHash p,
      ai_customerPaymentProofHash = at_customerPaymentProofHash p,
      ai_toolReceiptRoot = at_toolReceiptRoot p, ai_evidenceRoot = at_evidenceRoot p,
      ai_evidenceURI = at_evidenceURI p, ai_requester = at_requester p,
      ai_shipyardAgent = at_shipyardAgent p, ai_customerPaymentToken = at_customerPaymentToken p,
      ai_toolSpendToken = (if 0 < at_toolSpendAtomic p then native_asset_sentinel else zero_address),
      ai_customerPayment = at_customerPaymentAtomic p, ai_toolSpend = at_toolSpendAtomic p,
      ai_completedAt = at_completedAt p, ai_expiresAt = at_completedAt p + expiry_window_seconds,
      ai_result = at_result p\<rparr>)"

section \<open>Properties of evidence\<close>

text \<open>
  An evidence pack with verdict PASS or FAIL carries at least one receipt, its receipt root is the
  Merkle root of exactly its receipts, and a pack without receipts is INCONCLUSIVE and carries the
  domain-separated empty root.
\<close>

theorem buildEvidencePack_spec:
  "(case buildEvidencePack P hash_typed c of
      Inr pack \<Rightarrow> ep_publicManifest pack = c
        \<and> (if ec_toolReceipts c = [] then ec_result c = Verdict_INCONCLUSIVE
              \<and> ep_toolReceiptRoot pack = empty_tool_receipt_root P
           else buildToolReceiptRoot P (map (\<lambda>r. hash_typed (rcpt_unsigned r)) (ec_toolReceipts c))
              = Inr (ep_toolReceiptRoot pack))
    | Inl _ \<Rightarrow> ec_toolReceipts c = [] \<and> ec_result c \<noteq> Verdict_INCONCLUSIVE)"
  by (auto simp: buildEvidencePack_def buildToolReceiptRoot_def)

text \<open>
  The evidence root binds the verdict: if the hash is collision free, two packs with the same
  evidence root agree on the run, the verdict, the scenarios, the target version, the policy and the
  receipt root, and equal content hashes mean equal published content up to key order.
\<close>

theorem evidence_root_binding:
  assumes "inj (pf_keccak_text P)"
    and "buildEvidencePack P hash_typed c = Inr p" and "buildEvidencePack P hash_typed d = Inr q"
    and "ep_evidenceRoot p = ep_evidenceRoot q"
  shows "ec_runId c = ec_runId d \<and> ep_toolReceiptRoot p = ep_toolReceiptRoot q
    \<and> ec_result c = ec_result d \<and> ec_scenarios c = ec_scenarios d
    \<and> ec_targetVersionHash c = ec_targetVersionHash d \<and> ec_policyHash c = ec_policyHash d"
proof -
  from assms(2-4) have "pf_keccak_text P (canonicalJson (pf_locale_le P) (root_json c (ep_toolReceiptRoot p)))
      = pf_keccak_text P (canonicalJson (pf_locale_le P) (root_json d (ep_toolReceiptRoot q)))"
    by (auto simp: buildEvidencePack_def res_bind_Inr_iff split: if_splits)
  then have "normal_json (pf_locale_le P) (root_json c (ep_toolReceiptRoot p))
      = normal_json (pf_locale_le P) (root_json d (ep_toolReceiptRoot q))"
    using assms(1) by (simp add: inj_eq canonicalJson_print print_json_inj)
  note m = normal_json_members [OF this [unfolded root_json_def]]
  have "verdict_name (ec_result c) = verdict_name (ec_result d)" using m [of "''result''"] by simp
  then have "ec_result c = ec_result d" by (cases "ec_result c"; cases "ec_result d") simp_all
  moreover have "map JStr (ec_scenarios c) = map JStr (ec_scenarios d)"
    using m [of "''scenarios''"] by (simp add: json_strs_def comp_def)
  then have "ec_scenarios c = ec_scenarios d" by (simp add: inj_def)
  ultimately show ?thesis
    using m [of "''runId''"] m [of "''toolReceiptRoot''"] m [of "''targetVersionHash''"] m [of "''policyHash''"]
    by simp
qed

definition demo_content :: evidence_content where
  "demo_content = \<lparr>ec_runId = ''run-1'', ec_targetServiceId = ''svc'', ec_targetVersionHash = demo_hash,
     ec_policyHash = demo_hash, ec_riskLevel = ''LOW'', ec_rationale = [], ec_toolBudgetAtomic = ''0'',
     ec_aiProposal = None, ec_scenarios = [], ec_scenarioTraces = [], ec_result = Verdict_INCONCLUSIVE,
     ec_toolReceipts = []\<rparr>"

theorem evidence_root_binding_witness:
  "\<exists>p. buildEvidencePack demo_platform tr_runId demo_content = Inr p \<and> ec_runId demo_content = ''run-1''"
proof -
  obtain p where p: "buildEvidencePack demo_platform tr_runId demo_content = Inr p"
    by (simp add: buildEvidencePack_def demo_content_def)
  have "inj (pf_keccak_text demo_platform)" by (simp add: demo_platform_def inj_def)
  from evidence_root_binding [OF this p p] p show ?thesis by (simp add: demo_content_def)
qed

end
