(* ===== verification/Exact_EVM.thy ===== *)
theory Exact_EVM
  imports Platform Egress
begin

text \<open>
  The \<open>exact\<close> scheme of x402 on EVM chains (\<open>packages/x402-payments/src/exact-evm.ts\<close>) and the buyer that
  negotiates a 402 challenge (\<open>payer-client.ts\<close>).  The typed-data signer and signature recovery are
  parameters over the EIP-712 domain and message; \<open>Number\<close> of a decimal string is exact.
\<close>

section \<open>Data\<close>

definition exact_scheme :: string where "exact_scheme = ''exact''"

definition x402_version :: int where "x402_version = 1"

record evm_requirements =
  er_scheme :: string
  er_network :: string
  er_maxAmountRequired :: string
  er_resource :: string
  er_description :: string
  er_mimeType :: string
  er_payTo :: string
  er_asset :: string
  er_maxTimeoutSeconds :: int
  er_name :: string
  er_version :: string

record transfer_authorization =
  ta_from :: string
  ta_to :: string
  ta_value :: string
  ta_validAfter :: string
  ta_validBefore :: string
  ta_nonce :: string

record evm_payload =
  pl_signature :: string
  pl_authorization :: transfer_authorization

record payment_header =
  ph_x402Version :: int
  ph_scheme :: string
  ph_network :: string
  ph_payload :: evm_payload

record typed_domain =
  td_name :: string
  td_version :: string
  td_chainId :: nat
  td_verifyingContract :: string

record authorization_message =
  am_from :: string
  am_to :: string
  am_value :: int
  am_validAfter :: int
  am_validBefore :: int
  am_nonce :: string

type_synonym 'w typed_signer = "typed_domain \<Rightarrow> authorization_message \<Rightarrow> ('w, string) io"

definition is_digits :: "string \<Rightarrow> bool" where "is_digits s \<longleftrightarrow> s \<noteq> [] \<and> list_all is_digit s"

definition is_hex :: "string \<Rightarrow> bool" where
  "is_hex s \<longleftrightarrow> take 2 s = ''0x'' \<and> list_all is_hex_digit (drop 2 s)"

definition eip155Network :: "nat \<Rightarrow> string" where
  "eip155Network chainId = ''eip155:'' @ nat_to_string chainId"

definition chainIdFromNetwork :: "string \<Rightarrow> nat option" where
  "chainIdFromNetwork network =
    (if take 7 network = ''eip155:'' \<and> is_digits (drop 7 network)
     then Some (dec_value (drop 7 network)) else None)"

definition address_or_throw :: "platform \<Rightarrow> string \<Rightarrow> string res" where
  "address_or_throw P a =
    (case pf_get_address P a of None \<Rightarrow> Inl (Js_error (''Address is invalid: '' @ a)) | Some c \<Rightarrow> Inr c)"

section \<open>Server side: requirements\<close>

record requirements_input =
  rq_chainId :: nat
  rq_amountAtomic :: string
  rq_resource :: string
  rq_payTo :: string
  rq_asset :: string
  rq_tokenName :: string
  rq_tokenVersion :: string
  rq_description :: "string option"
  rq_mimeType :: "string option"
  rq_maxTimeoutSeconds :: "int option"

definition buildExactEvmRequirements :: "platform \<Rightarrow> requirements_input \<Rightarrow> evm_requirements res" where
  "buildExactEvmRequirements P i =
    (if \<not> is_digits (rq_amountAtomic i) \<or> dec_value (rq_amountAtomic i) = 0
     then Inl (Js_error ''amountAtomic must be a positive integer string'')
     else res_bind (address_or_throw P (rq_payTo i)) (\<lambda>payTo.
     res_bind (address_or_throw P (rq_asset i)) (\<lambda>asset.
     Inr \<lparr>er_scheme = exact_scheme, er_network = eip155Network (rq_chainId i),
       er_maxAmountRequired = rq_amountAtomic i, er_resource = rq_resource i,
       er_description = (case rq_description i of None \<Rightarrow> [] | Some d \<Rightarrow> d),
       er_mimeType = (case rq_mimeType i of None \<Rightarrow> ''application/json'' | Some m \<Rightarrow> m),
       er_payTo = payTo, er_asset = asset,
       er_maxTimeoutSeconds = (case rq_maxTimeoutSeconds i of None \<Rightarrow> 300 | Some t \<Rightarrow> t),
       er_name = rq_tokenName i, er_version = rq_tokenVersion i\<rparr>)))"

definition domainForRequirements :: "evm_requirements \<Rightarrow> typed_domain res" where
  "domainForRequirements r =
    (case chainIdFromNetwork (er_network r) of
       None \<Rightarrow> Inl (Js_error (''Requirements carry a non-EVM network: '' @ er_network r))
     | Some c \<Rightarrow> Inr \<lparr>td_name = er_name r, td_version = er_version r, td_chainId = c,
         td_verifyingContract = er_asset r\<rparr>)"

section \<open>Client side: signing\<close>

definition authorizationMessage :: "transfer_authorization \<Rightarrow> authorization_message res" where
  "authorizationMessage a =
    res_bind (js_bigint (ta_value a)) (\<lambda>value.
    res_bind (js_bigint (ta_validAfter a)) (\<lambda>validAfter.
    res_bind (js_bigint (ta_validBefore a)) (\<lambda>validBefore.
    Inr \<lparr>am_from = ta_from a, am_to = ta_to a, am_value = value, am_validAfter = validAfter,
      am_validBefore = validBefore, am_nonce = ta_nonce a\<rparr>)))"

definition signExactEvmAuthorization ::
  "platform \<Rightarrow> 'w typed_signer \<Rightarrow> evm_requirements \<Rightarrow> string \<Rightarrow> string \<Rightarrow> int \<Rightarrow> int \<Rightarrow> ('w, evm_payload) io" where
  "signExactEvmAuthorization P sign requirements payer nonce validAfterSec validBeforeSec =
    io_then (io_lift (ensure (is_hex nonce \<and> length nonce = 66) (Js_error ''nonce must be 32-byte hex'')))
    (io_then (io_lift (ensure (\<not> validBeforeSec \<le> validAfterSec) (Js_error ''validBefore must be after validAfter'')))
    (io_bind (io_lift (address_or_throw P payer)) (\<lambda>sender.
     let authorization = \<lparr>ta_from = sender, ta_to = er_payTo requirements,
           ta_value = er_maxAmountRequired requirements, ta_validAfter = int_to_string validAfterSec,
           ta_validBefore = int_to_string validBeforeSec, ta_nonce = nonce\<rparr> in
     io_bind (io_lift (domainForRequirements requirements)) (\<lambda>domain.
     io_bind (io_lift (authorizationMessage authorization)) (\<lambda>message.
     io_bind (sign domain message) (\<lambda>signature.
     io_ret \<lparr>pl_signature = signature, pl_authorization = authorization\<rparr>))))))"

section \<open>The payment header\<close>

definition authorization_json :: "transfer_authorization \<Rightarrow> json" where
  "authorization_json a = JObj [(''from'', JStr (ta_from a)), (''to'', JStr (ta_to a)),
     (''value'', JStr (ta_value a)), (''validAfter'', JStr (ta_validAfter a)),
     (''validBefore'', JStr (ta_validBefore a)), (''nonce'', JStr (ta_nonce a))]"

definition header_json :: "payment_header \<Rightarrow> json" where
  "header_json h = JObj [(''x402Version'', JNum (ph_x402Version h)), (''scheme'', JStr (ph_scheme h)),
     (''network'', JStr (ph_network h)),
     (''payload'', JObj [(''signature'', JStr (pl_signature (ph_payload h))),
        (''authorization'', authorization_json (pl_authorization (ph_payload h)))])]"

definition encodePaymentHeader :: "platform \<Rightarrow> payment_header \<Rightarrow> string" where
  "encodePaymentHeader P h = pf_base64_encode P (print_json (header_json h))"

definition normalizeAuthorization :: "platform \<Rightarrow> json option \<Rightarrow> transfer_authorization option" where
  "normalizeAuthorization P value =
    (case value of Some (JObj kvs) \<Rightarrow>
      (let raw = JObj kvs; get = (\<lambda>k. json_string_of (json_get raw k)) in
       case (get ''from'', get ''to'', get ''value'', get ''validAfter'', get ''validBefore'', get ''nonce'') of
         (Some f, Some t, Some amount, Some validAfter, Some validBefore, Some nonce) \<Rightarrow>
           if pf_is_address P f \<and> pf_is_address P t \<and> is_digits amount \<and> is_digits validAfter
              \<and> is_digits validBefore \<and> is_hex nonce \<and> length nonce = 66
           then (case (pf_get_address P f, pf_get_address P t) of
              (Some f', Some t') \<Rightarrow> Some \<lparr>ta_from = f', ta_to = t', ta_value = amount,
                ta_validAfter = validAfter, ta_validBefore = validBefore, ta_nonce = nonce\<rparr>
            | _ \<Rightarrow> None)
           else None
       | _ \<Rightarrow> None)
     | _ \<Rightarrow> None)"

definition decodePaymentHeader :: "platform \<Rightarrow> string \<Rightarrow> payment_header option" where
  "decodePaymentHeader P encoded =
    (case pf_parse_json P (pf_base64_decode P encoded) of
       Some (JObj kvs) \<Rightarrow>
        (let header = JObj kvs in
         if json_get header ''scheme'' \<noteq> Some (JStr exact_scheme) then None
         else case (json_get header ''network'', json_get header ''x402Version'', json_get header ''payload'') of
           (Some (JStr network), Some (JNum version), Some (JObj pkvs)) \<Rightarrow>
            (let payload = JObj pkvs in
             case json_string_of (json_get payload ''signature'') of
               None \<Rightarrow> None
             | Some signature \<Rightarrow>
                 if \<not> is_hex signature \<or> length signature \<noteq> 132 then None
                 else map_option (\<lambda>auth. \<lparr>ph_x402Version = version, ph_scheme = exact_scheme,
                   ph_network = network, ph_payload = \<lparr>pl_signature = signature, pl_authorization = auth\<rparr>\<rparr>)
                   (normalizeAuthorization P (json_get payload ''authorization'')))
         | _ \<Rightarrow> None)
     | _ \<Rightarrow> None)"

section \<open>Server side: verification\<close>

record verify_result =
  vr_valid :: bool
  vr_failureCodes :: "string list"
  vr_authorization :: transfer_authorization
  vr_signer :: "string option"

definition failure_when :: "bool \<Rightarrow> string \<Rightarrow> string list" where
  "failure_when b c = (if b then [c] else [])"

definition recovered_signer ::
  "(typed_domain \<Rightarrow> authorization_message \<Rightarrow> string \<Rightarrow> string option) \<Rightarrow> payment_header \<Rightarrow> evm_requirements \<Rightarrow> string option" where
  "recovered_signer recover header requirements =
    (case (domainForRequirements requirements, authorizationMessage (pl_authorization (ph_payload header))) of
       (Inr domain, Inr message) \<Rightarrow> recover domain message (pl_signature (ph_payload header))
     | _ \<Rightarrow> None)"

definition verifyExactEvmPayment ::
  "(typed_domain \<Rightarrow> authorization_message \<Rightarrow> string \<Rightarrow> string option) \<Rightarrow> payment_header \<Rightarrow> evm_requirements \<Rightarrow> int \<Rightarrow>
   verify_result" where
  "verifyExactEvmPayment recover header requirements nowSec =
    (let authorization = pl_authorization (ph_payload header);
         terms = failure_when (ph_scheme header \<noteq> er_scheme requirements) ''SCHEME_MISMATCH''
           @ failure_when (ph_network header \<noteq> er_network requirements) ''NETWORK_MISMATCH''
           @ failure_when (\<not> same_address (ta_to authorization) (er_payTo requirements)) ''PAY_TO_MISMATCH''
           @ failure_when (ta_value authorization \<noteq> er_maxAmountRequired requirements) ''AMOUNT_MISMATCH'';
         window = failure_when (nowSec < int (dec_value (ta_validAfter authorization))) ''AUTHORIZATION_NOT_YET_VALID''
           @ failure_when (int (dec_value (ta_validBefore authorization)) \<le> nowSec) ''AUTHORIZATION_EXPIRED'';
         before = terms @ window;
         signer = (if ''NETWORK_MISMATCH'' \<in> set before then None
                   else recovered_signer recover header requirements);
         signature = (if ''NETWORK_MISMATCH'' \<in> set before then []
           else failure_when (case signer of None \<Rightarrow> True
              | Some s \<Rightarrow> s = [] \<or> \<not> same_address s (ta_from authorization)) ''SIGNATURE_MISMATCH'');
         failures = before @ signature
     in \<lparr>vr_valid = (failures = []), vr_failureCodes = failures, vr_authorization = authorization, vr_signer = signer\<rparr>)"

record settlement_args =
  sa_from :: string
  sa_to :: string
  sa_value :: int
  sa_validAfter :: int
  sa_validBefore :: int
  sa_nonce :: string
  sa_signature :: string

definition settlementArgs :: "evm_payload \<Rightarrow> settlement_args res" where
  "settlementArgs payload =
    res_bind (authorizationMessage (pl_authorization payload)) (\<lambda>m. Inr
      \<lparr>sa_from = am_from m, sa_to = am_to m, sa_value = am_value m, sa_validAfter = am_validAfter m,
       sa_validBefore = am_validBefore m, sa_nonce = am_nonce m, sa_signature = pl_signature payload\<rparr>)"

section \<open>The buyer\<close>

definition string_or :: "string \<Rightarrow> json option \<Rightarrow> string" where
  "string_or d v = (case json_string_of v of None \<Rightarrow> d | Some s \<Rightarrow> s)"

definition parseRequirements :: "json \<Rightarrow> evm_requirements option" where
  "parseRequirements raw =
    (case (json_string_of (json_get raw ''maxAmountRequired''), json_string_of (json_get raw ''payTo''),
           json_string_of (json_get raw ''asset''), json_get raw ''extra'') of
       (Some amount, Some payTo, Some asset, Some extra) \<Rightarrow>
        (if \<not> is_digits amount \<or> \<not> is_address payTo \<or> \<not> is_address asset then None
         else case (json_string_of (json_get extra ''name''), json_string_of (json_get extra ''version'')) of
           (Some name, Some version) \<Rightarrow> Some \<lparr>er_scheme = exact_scheme,
              er_network = string_or [] (json_get raw ''network''), er_maxAmountRequired = amount,
              er_resource = string_or [] (json_get raw ''resource''),
              er_description = string_or [] (json_get raw ''description''),
              er_mimeType = string_or ''application/json'' (json_get raw ''mimeType''),
              er_payTo = payTo, er_asset = asset,
              er_maxTimeoutSeconds = (case json_get raw ''maxTimeoutSeconds'' of Some (JNum n) \<Rightarrow> n | _ \<Rightarrow> 300),
              er_name = name, er_version = version\<rparr>
         | _ \<Rightarrow> None)
     | _ \<Rightarrow> None)"

fun selectExactEvmRequirements :: "json list \<Rightarrow> nat \<Rightarrow> string list \<Rightarrow> evm_requirements option" where
  "selectExactEvmRequirements [] expectedChainId allowedAssets = None"
| "selectExactEvmRequirements (raw # rest) expectedChainId allowedAssets =
    (if json_get raw ''scheme'' \<noteq> Some (JStr exact_scheme)
        \<or> Option.bind (json_string_of (json_get raw ''network'')) chainIdFromNetwork \<noteq> Some expectedChainId
     then selectExactEvmRequirements rest expectedChainId allowedAssets
     else case parseRequirements raw of
       None \<Rightarrow> selectExactEvmRequirements rest expectedChainId allowedAssets
     | Some parsed \<Rightarrow>
        if to_lower (er_asset parsed) \<notin> set (map to_lower allowedAssets)
        then selectExactEvmRequirements rest expectedChainId allowedAssets
        else Some parsed)"

record acquire_input =
  aq_endpoint :: string
  aq_from :: string
  aq_nonce :: string
  aq_validAfterSec :: int
  aq_validBeforeSec :: int
  aq_maxAmountAtomic :: string
  aq_allowedAssets :: "string list"
  aq_expectedChainId :: nat

record acquired_payment =
  ap_requirements :: evm_requirements
  ap_paymentHeader :: string
  ap_authorization :: transfer_authorization

definition acquireExactEvmPayment ::
  "platform \<Rightarrow> (string \<Rightarrow> ('w, http_response) io) \<Rightarrow> 'w typed_signer \<Rightarrow> acquire_input \<Rightarrow> ('w, acquired_payment) io" where
  "acquireExactEvmPayment P get sign i =
    io_bind (get (aq_endpoint i)) (\<lambda>challenge.
    if hr_status challenge \<noteq> 402 then io_throw (X402_negotiation ''UNEXPECTED_STATUS''
       (''Expected a 402 payment challenge, received HTTP '' @ int_to_string (hr_status challenge)))
    else (case pf_parse_json P (hr_body challenge) of
      None \<Rightarrow> io_throw (X402_negotiation ''MALFORMED_CHALLENGE'' ''The 402 challenge body was not valid JSON'')
    | Some body \<Rightarrow>
       if body = JNull then io_throw (Type_error ''Cannot read properties of null'')
       else (case json_get body ''accepts'' of
         Some (JArr accepts) \<Rightarrow>
           (if accepts = [] then io_throw (X402_negotiation ''NO_ACCEPTS''
              ''The 402 challenge advertised no payment requirements'')
            else (case selectExactEvmRequirements accepts (aq_expectedChainId i) (aq_allowedAssets i) of
              None \<Rightarrow> io_throw (X402_negotiation ''NO_PAYABLE_REQUIREMENT''
                (''No exact-evm requirement on chain '' @ nat_to_string (aq_expectedChainId i)
                  @ '' in an allowed asset in the challenge''))
            | Some requirements \<Rightarrow>
               io_bind (io_lift (js_bigint (er_maxAmountRequired requirements))) (\<lambda>asked.
               io_bind (io_lift (js_bigint (aq_maxAmountAtomic i))) (\<lambda>ceiling.
               if ceiling < asked then io_throw (X402_negotiation ''AMOUNT_OVER_BUDGET''
                 (''Server asked '' @ er_maxAmountRequired requirements @ '' atomic, over the ''
                   @ aq_maxAmountAtomic i @ '' ceiling''))
               else io_bind (signExactEvmAuthorization P sign requirements (aq_from i) (aq_nonce i)
                   (aq_validAfterSec i) (aq_validBeforeSec i)) (\<lambda>payload.
                 io_ret \<lparr>ap_requirements = requirements,
                   ap_paymentHeader = encodePaymentHeader P \<lparr>ph_x402Version = x402_version,
                     ph_scheme = exact_scheme, ph_network = er_network requirements, ph_payload = payload\<rparr>,
                   ap_authorization = pl_authorization payload\<rparr>)))))
       | _ \<Rightarrow> io_throw (X402_negotiation ''NO_ACCEPTS''
              ''The 402 challenge advertised no payment requirements''))))"

section \<open>Facts\<close>

lemma js_bigint_digits: "is_digits s \<Longrightarrow> js_bigint s = Inr (int (dec_value s))"
proof -
  assume "is_digits s"
  then have s: "s \<noteq> []" "list_all is_digit s" by (simp_all add: is_digits_def)
  then have "js_trim s = s" by (intro js_trim_nospace) (auto simp: list_all_iff digit_not_space)
  moreover have "is_digit (hd s)" using s by (cases s) simp_all
  then have "hd s \<noteq> CHR ''-''" "hd s \<noteq> CHR ''+''" using digit_not_sign by blast+
  ultimately show ?thesis using s by (simp add: js_bigint_def radix_prefix_digits Let_def)
qed

lemma is_digits_print [simp]: "0 \<le> i \<Longrightarrow> is_digits (int_to_string i)"
  by (simp add: is_digits_def int_to_string_def nat_to_string_digits)

lemma dec_value_print [simp]: "0 \<le> i \<Longrightarrow> int (dec_value (int_to_string i)) = i"
  by (simp add: int_to_string_def)

lemma chainIdFromNetwork_eip155 [simp]: "chainIdFromNetwork (eip155Network c) = Some c"
  by (simp add: chainIdFromNetwork_def eip155Network_def is_digits_def nat_to_string_digits)

lemma failure_when_Nil [simp]: "failure_when b c = [] \<longleftrightarrow> \<not> b"
  by (simp add: failure_when_def)

lemma parseRequirements_facts:
  assumes "parseRequirements raw = Some p"
  shows "er_scheme p = exact_scheme \<and> er_network p = string_or [] (json_get raw ''network'')
    \<and> is_digits (er_maxAmountRequired p) \<and> is_address (er_payTo p) \<and> is_address (er_asset p)"
  using assms unfolding parseRequirements_def
  by (simp split: option.splits prod.splits if_splits) (elim conjE; clarsimp)+

lemma select_requirements:
  "selectExactEvmRequirements accepts c allowed = Some r \<Longrightarrow>
    er_scheme r = exact_scheme \<and> chainIdFromNetwork (er_network r) = Some c
    \<and> to_lower (er_asset r) \<in> to_lower ` set allowed \<and> is_digits (er_maxAmountRequired r)
    \<and> is_address (er_payTo r) \<and> is_address (er_asset r)"
proof (induction accepts)
  case (Cons raw rest)
  show ?case
  proof (cases "selectExactEvmRequirements rest c allowed = Some r")
    case True
    then show ?thesis using Cons.IH by blast
  next
    case False
    with Cons.prems have p: "parseRequirements raw = Some r" "to_lower (er_asset r) \<in> to_lower ` set allowed"
      and n: "Option.bind (json_string_of (json_get raw ''network'')) chainIdFromNetwork = Some c"
      by (simp_all split: if_splits option.splits)
    from n obtain net where "json_string_of (json_get raw ''network'') = Some net" "chainIdFromNetwork net = Some c"
      by (auto simp: bind_eq_Some_conv)
    then show ?thesis using parseRequirements_facts [OF p(1)] p(2) by (simp add: string_or_def)
  qed
qed simp

text \<open>What signing does: nothing is signed unless every check passed, and then exactly one message.\<close>

lemma signExactEvmAuthorization_cases:
  assumes "signExactEvmAuthorization P sign r payer nonce va vb w = (res, w')"
  obtains (refused) e where "res = Inl e" "w' = w"
  | (signed) sender d m sig where "pf_get_address P payer = Some sender" "domainForRequirements r = Inr d"
      "authorizationMessage \<lparr>ta_from = sender, ta_to = er_payTo r, ta_value = er_maxAmountRequired r,
         ta_validAfter = int_to_string va, ta_validBefore = int_to_string vb, ta_nonce = nonce\<rparr> = Inr m"
      "sign d m w = (sig, w')" "is_hex nonce" "length nonce = 66" "va < vb"
      "res = res_bind sig (\<lambda>s. Inr \<lparr>pl_signature = s, pl_authorization = \<lparr>ta_from = sender,
         ta_to = er_payTo r, ta_value = er_maxAmountRequired r, ta_validAfter = int_to_string va,
         ta_validBefore = int_to_string vb, ta_nonce = nonce\<rparr>\<rparr>)"
proof (cases "is_hex nonce \<and> length nonce = 66 \<and> \<not> vb \<le> va")
  case False
  then have "\<exists>e. res = Inl e \<and> w' = w"
    using assms by (cases "is_hex nonce \<and> length nonce = 66")
      (auto simp: signExactEvmAuthorization_def io_then_apply)
  then show thesis using refused by blast
next
  case ok: True
  show thesis
  proof (cases "pf_get_address P payer")
    case None
    then have "\<exists>e. res = Inl e \<and> w' = w" using assms ok
      by (auto simp: signExactEvmAuthorization_def io_then_apply io_bind_apply address_or_throw_def)
    then show thesis using refused by blast
  next
    case sender: (Some sender)
    let ?a = "\<lparr>ta_from = sender, ta_to = er_payTo r, ta_value = er_maxAmountRequired r,
         ta_validAfter = int_to_string va, ta_validBefore = int_to_string vb, ta_nonce = nonce\<rparr>"
    show thesis
    proof (cases "domainForRequirements r")
      case (Inl e)
      then have "\<exists>e. res = Inl e \<and> w' = w" using assms ok sender
        by (auto simp: signExactEvmAuthorization_def io_then_apply io_bind_apply address_or_throw_def Let_def)
      then show thesis using refused by blast
    next
      case d: (Inr d)
      show thesis
      proof (cases "authorizationMessage ?a")
        case (Inl e)
        then have "\<exists>e. res = Inl e \<and> w' = w" using assms ok sender d
          by (auto simp: signExactEvmAuthorization_def io_then_apply io_bind_apply address_or_throw_def Let_def)
        then show thesis using refused by blast
      next
        case m: (Inr m)
        obtain sig w2 where sig: "sign d m w = (sig, w2)" by (cases "sign d m w")
        then have "w2 = w'" "res = res_bind sig (\<lambda>s. Inr \<lparr>pl_signature = s, pl_authorization = ?a\<rparr>)"
          using assms ok sender d m
          by (cases sig; simp add: signExactEvmAuthorization_def io_then_apply io_bind_apply address_or_throw_def Let_def)+
        then show thesis using signed [OF sender d m] sig ok by simp
      qed
    qed
  qed
qed

section \<open>Properties\<close>

text \<open>
  The server accepts a payment header exactly when its scheme, network, recipient and amount are
  those it advertised, the validity window covers now, and the signature recovers, under the domain of
  the advertised asset, to the payer the authorization names.
\<close>

theorem verifyExactEvmPayment_spec:
  "(vr_valid (verifyExactEvmPayment recover h r now) \<longleftrightarrow>
      ph_scheme h = er_scheme r \<and> ph_network h = er_network r
      \<and> same_address (ta_to (pl_authorization (ph_payload h))) (er_payTo r)
      \<and> ta_value (pl_authorization (ph_payload h)) = er_maxAmountRequired r
      \<and> int (dec_value (ta_validAfter (pl_authorization (ph_payload h)))) \<le> now
      \<and> now < int (dec_value (ta_validBefore (pl_authorization (ph_payload h))))
      \<and> (\<exists>s. recovered_signer recover h r = Some s \<and> s \<noteq> []
            \<and> same_address s (ta_from (pl_authorization (ph_payload h)))))
    \<and> (vr_failureCodes (verifyExactEvmPayment recover h r now) = []
        \<longleftrightarrow> vr_valid (verifyExactEvmPayment recover h r now))"
proof (cases "ph_network h = er_network r")
  case True
  then have "''NETWORK_MISMATCH'' \<notin> set (failure_when (ph_scheme h \<noteq> er_scheme r) ''SCHEME_MISMATCH''
     @ failure_when (ph_network h \<noteq> er_network r) ''NETWORK_MISMATCH''
     @ failure_when (\<not> same_address (ta_to (pl_authorization (ph_payload h))) (er_payTo r)) ''PAY_TO_MISMATCH''
     @ failure_when (ta_value (pl_authorization (ph_payload h)) \<noteq> er_maxAmountRequired r) ''AMOUNT_MISMATCH'')"
    by (simp add: failure_when_def)
  moreover have "''NETWORK_MISMATCH'' \<notin> set (failure_when b ''AUTHORIZATION_NOT_YET_VALID'' @ failure_when c ''AUTHORIZATION_EXPIRED'')" for b c
    by (simp add: failure_when_def)
  ultimately show ?thesis using True
    by (auto simp: verifyExactEvmPayment_def Let_def not_less not_le split: option.split)
next
  case False
  then show ?thesis by (auto simp: verifyExactEvmPayment_def Let_def)
qed

text \<open>
  What the buyer signs, the server accepts: if the wallet's signature recovers to its address, the
  header built from a signed authorization passes verification for the same requirements at every
  instant of its validity window.
\<close>

theorem sign_then_verify:
  assumes "signExactEvmAuthorization P sign r payer nonce va vb w = (Inr payload, w')"
    and wallet: "\<And>d m s w w'. sign d m w = (Inr s, w') \<Longrightarrow>
        \<exists>a. recover d m s = Some a \<and> a \<noteq> [] \<and> same_address a (am_from m)"
    and "er_scheme r = exact_scheme" and "0 \<le> va" and "va \<le> now" and "now < vb"
  shows "vr_valid (verifyExactEvmPayment recover \<lparr>ph_x402Version = x402_version, ph_scheme = exact_scheme,
      ph_network = er_network r, ph_payload = payload\<rparr> r now)"
  using assms(1)
proof (cases rule: signExactEvmAuthorization_cases)
  case (signed sender d m sig)
  let ?a = "\<lparr>ta_from = sender, ta_to = er_payTo r, ta_value = er_maxAmountRequired r,
         ta_validAfter = int_to_string va, ta_validBefore = int_to_string vb, ta_nonce = nonce\<rparr>"
  from signed(8) obtain s where s: "sig = Inr s" and p: "payload = \<lparr>pl_signature = s, pl_authorization = ?a\<rparr>"
    by (cases sig) simp_all
  have "am_from m = sender" using signed(3) by (auto simp: authorizationMessage_def res_bind_Inr_iff)
  then obtain a where a: "recover d m s = Some a" "a \<noteq> []" "same_address a sender"
    using wallet [of d m w s w'] signed(4) s by auto
  have "recovered_signer recover \<lparr>ph_x402Version = x402_version, ph_scheme = exact_scheme,
      ph_network = er_network r, ph_payload = payload\<rparr> r = Some a"
    using signed(2,3) a(1) p by (simp add: recovered_signer_def)
  then show ?thesis
    unfolding verifyExactEvmPayment_spec [THEN conjunct1]
    using assms(3-6) a p same_address_equiv(1) by simp
qed simp

definition demo_requirements :: evm_requirements where
  "demo_requirements = \<lparr>er_scheme = exact_scheme, er_network = eip155Network 56,
     er_maxAmountRequired = ''1000'', er_resource = ''/paid'', er_description = [],
     er_mimeType = ''application/json'', er_payTo = ''0x'' @ replicate 40 (CHR ''2''),
     er_asset = ''0x'' @ replicate 40 (CHR ''3''), er_maxTimeoutSeconds = 300, er_name = ''USDC'', er_version = ''2''\<rparr>"

definition demo_sign :: "nat typed_signer" where
  "demo_sign d m = (if am_from m = [] then io_throw (Js_error ''no account'') else io_ret (am_from m))"

definition demo_payer :: string where "demo_payer = ''0x'' @ replicate 40 (CHR ''1'')"

definition demo_nonce :: string where "demo_nonce = ''0x'' @ replicate 64 (CHR ''9'')"

lemma demo_signed: "res_ok (fst (signExactEvmAuthorization demo_platform demo_sign demo_requirements demo_payer
    demo_nonce 100 200 (0::nat)))"
  by code_simp

theorem sign_then_verify_witness:
  "\<exists>payload. vr_valid (verifyExactEvmPayment (\<lambda>d m s. Some s) \<lparr>ph_x402Version = x402_version,
      ph_scheme = exact_scheme, ph_network = er_network demo_requirements, ph_payload = payload\<rparr>
      demo_requirements 150)"
proof -
  obtain payload w' where p: "signExactEvmAuthorization demo_platform demo_sign demo_requirements demo_payer
      demo_nonce 100 200 0 = (Inr payload, w')"
    using demo_signed by (cases "signExactEvmAuthorization demo_platform demo_sign demo_requirements demo_payer
      demo_nonce 100 200 0") (auto simp: res_ok_iff)
  have wallet: "demo_sign d m w = (Inr s, w') \<Longrightarrow> \<exists>a. Some s = Some a \<and> a \<noteq> [] \<and> same_address a (am_from m)"
    for d m s and w w' :: nat
    by (simp add: demo_sign_def same_address_def split: if_splits)
  have "er_scheme demo_requirements = exact_scheme" by (simp add: demo_requirements_def)
  have "vr_valid (verifyExactEvmPayment (\<lambda>d m s. Some s) \<lparr>ph_x402Version = x402_version,
      ph_scheme = exact_scheme, ph_network = er_network demo_requirements, ph_payload = payload\<rparr>
      demo_requirements 150)"
    by (rule sign_then_verify [OF p wallet]) (simp_all add: demo_requirements_def)
  then show ?thesis ..
qed

text \<open>
  A payment header survives its own encoding: if the platform's Base64 and JSON parse what they
  print, a well-formed header with checksummed addresses decodes to itself.
\<close>

theorem header_roundtrip:
  assumes "pf_parse_json P (pf_base64_decode P (encodePaymentHeader P h)) = Some (header_json h)"
    and "ph_scheme h = exact_scheme"
    and "is_hex (pl_signature (ph_payload h))" and "length (pl_signature (ph_payload h)) = 132"
    and "a = pl_authorization (ph_payload h)"
    and "pf_is_address P (ta_from a)" and "pf_get_address P (ta_from a) = Some (ta_from a)"
    and "pf_is_address P (ta_to a)" and "pf_get_address P (ta_to a) = Some (ta_to a)"
    and "is_digits (ta_value a)" and "is_digits (ta_validAfter a)" and "is_digits (ta_validBefore a)"
    and "is_hex (ta_nonce a)" and "length (ta_nonce a) = 66"
  shows "decodePaymentHeader P (encodePaymentHeader P h) = Some h"
proof -
  have get: "json_get (header_json h) ''scheme'' = Some (JStr (ph_scheme h))"
    "json_get (header_json h) ''network'' = Some (JStr (ph_network h))"
    "json_get (header_json h) ''x402Version'' = Some (JNum (ph_x402Version h))"
    "json_get (header_json h) ''payload'' = Some (JObj [(''signature'', JStr (pl_signature (ph_payload h))),
        (''authorization'', authorization_json a)])"
    by (simp_all add: header_json_def json_get_def assms(5))
  have auth: "normalizeAuthorization P (Some (authorization_json a)) = Some a"
    using assms(6-14) by (simp add: normalizeAuthorization_def authorization_json_def json_get_def json_string_of_def)
  obtain kvs where k: "header_json h = JObj kvs" by (simp add: header_json_def)
  show ?thesis
    using assms(1-4) get auth k
    by (simp add: decodePaymentHeader_def json_get_def [of "JObj [(''signature'', x), y]" for x y]
      json_string_of_def assms(5))
qed

definition demo_header :: payment_header where
  "demo_header = \<lparr>ph_x402Version = 1, ph_scheme = exact_scheme, ph_network = ''eip155:56'',
     ph_payload = \<lparr>pl_signature = ''0x'' @ replicate 130 (CHR ''4''), pl_authorization =
       \<lparr>ta_from = demo_payer, ta_to = demo_payer, ta_value = ''5'', ta_validAfter = ''0'',
        ta_validBefore = ''9'', ta_nonce = demo_nonce\<rparr>\<rparr>\<rparr>"

theorem header_roundtrip_witness:
  "decodePaymentHeader (demo_platform\<lparr>pf_parse_json := \<lambda>s. Some (header_json demo_header)\<rparr>)
     (encodePaymentHeader (demo_platform\<lparr>pf_parse_json := \<lambda>s. Some (header_json demo_header)\<rparr>) demo_header)
   = Some demo_header"
proof (rule header_roundtrip [where a = "pl_authorization (ph_payload demo_header)"])
  let ?a = "pl_authorization (ph_payload demo_header)"
  have hex: "list_all is_hex_digit (replicate n (CHR ''1''))" "list_all is_hex_digit (replicate n (CHR ''4''))"
    "list_all is_hex_digit (replicate n (CHR ''9''))" for n
    by (simp_all add: list_all_iff is_hex_digit_def is_digit_def code_unit_def)
  have lower: "lower_char (CHR ''1'') = CHR ''1''" "lower_char (CHR ''0'') = CHR ''0''" "lower_char (CHR ''x'') = CHR ''x''"
    by (simp_all add: lower_char_def is_upper_def code_unit_def)
  show "is_hex (pl_signature (ph_payload demo_header))" "length (pl_signature (ph_payload demo_header)) = 132"
    "is_hex (ta_nonce ?a)" "length (ta_nonce ?a) = 66"
    using hex by (simp_all add: demo_header_def demo_nonce_def is_hex_def)
  show "is_digits (ta_value ?a)" "is_digits (ta_validAfter ?a)" "is_digits (ta_validBefore ?a)"
    by (simp_all add: demo_header_def is_digits_def is_digit_def code_unit_def)
  show "pf_is_address (demo_platform\<lparr>pf_parse_json := \<lambda>s. Some (header_json demo_header)\<rparr>) (ta_from ?a)"
    "pf_is_address (demo_platform\<lparr>pf_parse_json := \<lambda>s. Some (header_json demo_header)\<rparr>) (ta_to ?a)"
    using hex by (simp_all add: demo_header_def demo_platform_def demo_payer_def is_address_def is_hex_bytes_def)
  show "pf_get_address (demo_platform\<lparr>pf_parse_json := \<lambda>s. Some (header_json demo_header)\<rparr>) (ta_from ?a) = Some (ta_from ?a)"
    "pf_get_address (demo_platform\<lparr>pf_parse_json := \<lambda>s. Some (header_json demo_header)\<rparr>) (ta_to ?a) = Some (ta_to ?a)"
    using lower by (simp_all add: demo_header_def demo_platform_def demo_payer_def to_lower_def)
qed (simp_all add: demo_header_def exact_scheme_def)

section \<open>The buyer's bounds\<close>

type_synonym 'w sign_log = "(typed_domain \<times> authorization_message) list \<times> 'w"

definition logged_sign :: "'w typed_signer \<Rightarrow> 'w sign_log typed_signer" where
  "logged_sign sign d m = (\<lambda>(log, w). case sign d m w of (r, w') \<Rightarrow> (r, (log @ [(d, m)], w')))"

definition unlogged :: "(string \<Rightarrow> ('w, 'a) io) \<Rightarrow> string \<Rightarrow> ('w sign_log, 'a) io" where
  "unlogged m x = (\<lambda>(log, w). case m x w of (r, w') \<Rightarrow> (r, (log, w')))"

text \<open>What the buyer is willing to sign.\<close>

definition within_terms :: "acquire_input \<Rightarrow> typed_domain \<times> authorization_message \<Rightarrow> bool" where
  "within_terms i s \<longleftrightarrow>
    td_chainId (fst s) = aq_expectedChainId i
    \<and> to_lower (td_verifyingContract (fst s)) \<in> to_lower ` set (aq_allowedAssets i)
    \<and> (case js_bigint (aq_maxAmountAtomic i) of Inr c \<Rightarrow> 0 \<le> am_value (snd s) \<and> am_value (snd s) \<le> c | Inl _ \<Rightarrow> False)
    \<and> am_nonce (snd s) = aq_nonce i \<and> am_validAfter (snd s) < am_validBefore (snd s)"

lemma sign_within_terms:
  assumes run: "signExactEvmAuthorization P (logged_sign sign) r (aq_from i) (aq_nonce i)
      (aq_validAfterSec i) (aq_validBeforeSec i) (log, w) = (res, (log', w'))"
    and sel: "selectExactEvmRequirements accepts (aq_expectedChainId i) (aq_allowedAssets i) = Some r"
    and ceiling: "js_bigint (er_maxAmountRequired r) = Inr asked" "js_bigint (aq_maxAmountAtomic i) = Inr c" "asked \<le> c"
    and window: "0 \<le> aq_validAfterSec i"
  shows "log' = log \<or> (\<exists>s. log' = log @ [s] \<and> within_terms i s)"
  using run
proof (cases rule: signExactEvmAuthorization_cases)
  case (signed sender d m sig)
  note r = select_requirements [OF sel]
  have d: "td_chainId d = aq_expectedChainId i" "td_verifyingContract d = er_asset r"
    using signed(2) r by (auto simp: domainForRequirements_def)
  have "asked = int (dec_value (er_maxAmountRequired r))" using ceiling(1) r js_bigint_digits by fastforce
  moreover have "js_bigint (int_to_string (aq_validAfterSec i)) = Inr (aq_validAfterSec i)"
    "js_bigint (int_to_string (aq_validBeforeSec i)) = Inr (aq_validBeforeSec i)"
    using window signed(7) js_bigint_digits [OF is_digits_print] by simp_all
  ultimately have "am_value m = asked" "0 \<le> asked" "am_nonce m = aq_nonce i" "am_validAfter m < am_validBefore m"
    using signed(3,7) ceiling(1) by (auto simp: authorizationMessage_def)
  moreover have "log' = log @ [(d, m)]"
    using signed(4) by (auto simp: logged_sign_def split: prod.splits)
  ultimately show ?thesis using d r ceiling by (simp add: within_terms_def)
qed simp

text \<open>
  C22: whatever challenge the target returns, the buyer signs at most one authorization; anything it
  signs is for the expected chain and an allowed asset, for an amount within its own ceiling and with its
  own nonce; and it obtains a payment only by signing.
\<close>

theorem buyer_never_oversigns:
  assumes "acquireExactEvmPayment P (unlogged get) (logged_sign sign) i ([], w) = (res, (log, w'))"
    and "0 \<le> aq_validAfterSec i"
  shows "length log \<le> 1 \<and> list_all (within_terms i) log"
proof -
  obtain r1 w1 where g: "get (aq_endpoint i) w = (r1, w1)" by (cases "get (aq_endpoint i) w")
  have "log = [] \<or> (\<exists>requirements asked c accepts pr.
      selectExactEvmRequirements accepts (aq_expectedChainId i) (aq_allowedAssets i) = Some requirements
      \<and> js_bigint (er_maxAmountRequired requirements) = Inr asked \<and> js_bigint (aq_maxAmountAtomic i) = Inr c
      \<and> asked \<le> c \<and> signExactEvmAuthorization P (logged_sign sign) requirements (aq_from i) (aq_nonce i)
           (aq_validAfterSec i) (aq_validBeforeSec i) ([], w1) = (pr, (log, w')))"
    using assms(1) g
    by (auto simp: acquireExactEvmPayment_def io_bind_apply unlogged_def not_less
      split: sum.splits if_splits option.splits json.splits prod.splits)
  then show ?thesis
  proof
    assume "log = []" then show ?thesis by simp
  next
    assume "\<exists>requirements asked c accepts pr.
      selectExactEvmRequirements accepts (aq_expectedChainId i) (aq_allowedAssets i) = Some requirements
      \<and> js_bigint (er_maxAmountRequired requirements) = Inr asked \<and> js_bigint (aq_maxAmountAtomic i) = Inr c
      \<and> asked \<le> c \<and> signExactEvmAuthorization P (logged_sign sign) requirements (aq_from i) (aq_nonce i)
           (aq_validAfterSec i) (aq_validBeforeSec i) ([], w1) = (pr, (log, w'))"
    then obtain requirements asked c accepts pr where
      sel: "selectExactEvmRequirements accepts (aq_expectedChainId i) (aq_allowedAssets i) = Some requirements"
      and bound: "js_bigint (er_maxAmountRequired requirements) = Inr asked"
        "js_bigint (aq_maxAmountAtomic i) = Inr c" "asked \<le> c"
      and run: "signExactEvmAuthorization P (logged_sign sign) requirements (aq_from i) (aq_nonce i)
           (aq_validAfterSec i) (aq_validBeforeSec i) ([], w1) = (pr, (log, w'))" by (elim exE conjE)
    show ?thesis using sign_within_terms [OF run sel bound assms(2)] by auto
  qed
qed

definition demo_challenge :: json where
  "demo_challenge = JObj [(''accepts'', JArr [JObj [(''scheme'', JStr ''exact''),
     (''network'', JStr ''eip155:56''), (''maxAmountRequired'', JStr ''1000''),
     (''payTo'', JStr (''0x'' @ replicate 40 (CHR ''2''))), (''asset'', JStr (''0x'' @ replicate 40 (CHR ''3''))),
     (''extra'', JObj [(''name'', JStr ''USDC''), (''version'', JStr ''2'')])]])]"

definition demo_acquire :: acquire_input where
  "demo_acquire = \<lparr>aq_endpoint = ''https://tool.example/paid'', aq_from = demo_payer, aq_nonce = demo_nonce,
     aq_validAfterSec = 100, aq_validBeforeSec = 200, aq_maxAmountAtomic = ''1500'',
     aq_allowedAssets = [''0x'' @ replicate 40 (CHR ''3'')], aq_expectedChainId = 56\<rparr>"

definition demo_acquired :: "acquired_payment res \<times> nat sign_log" where
  "demo_acquired = acquireExactEvmPayment (demo_platform\<lparr>pf_parse_json := \<lambda>s. Some demo_challenge\<rparr>)
     (unlogged (\<lambda>e w. (Inr \<lparr>hr_status = 402, hr_headers = [], hr_body = []\<rparr>, w))) (logged_sign demo_sign)
     demo_acquire ([], 0)"

lemma demo_acquired_signs: "length (fst (snd demo_acquired)) = 1 \<and> res_ok (fst demo_acquired)"
  by code_simp

theorem buyer_never_oversigns_witness:
  "\<exists>s. fst (snd demo_acquired) = [s] \<and> within_terms demo_acquire s"
proof -
  obtain res log w' where r: "demo_acquired = (res, (log, w'))" by (metis surj_pair)
  have "length log = 1" using demo_acquired_signs [unfolded r] by simp
  moreover have "0 \<le> aq_validAfterSec demo_acquire" by (simp add: demo_acquire_def)
  then have "list_all (within_terms demo_acquire) log"
    using buyer_never_oversigns [OF r [unfolded demo_acquired_def]] by blast
  ultimately have "\<exists>s. log = [s] \<and> within_terms demo_acquire s" by (cases log) simp_all
  then show ?thesis unfolding r by simp
qed

end
