(* ===== verification/Settlement.thy ===== *)
theory Settlement
  imports Platform
begin

text \<open>
  Merchant orders and their on-chain settlement (\<open>packages/x402-payments/src/ports.ts\<close>,
  \<open>settlement-verifier.ts\<close>).  The event codec of \<open>ethers\<close> is a parameter: \<open>parse_log topics data\<close> is the
  \<open>(from, to, value)\<close> of a decodable \<open>Transfer\<close> log and \<open>None\<close> when the library throws or returns null.
\<close>

section \<open>Data\<close>

datatype order_status =
    Order_CHECKOUT_VERIFIED | Order_PAYMENT_CONFIRMED | Order_INVOICED | Order_FAILED | Order_EXPIRED
  | Order_CANCELLED

fun order_status_name :: "order_status \<Rightarrow> string" where
  "order_status_name Order_CHECKOUT_VERIFIED = ''CHECKOUT_VERIFIED''"
| "order_status_name Order_PAYMENT_CONFIRMED = ''PAYMENT_CONFIRMED''"
| "order_status_name Order_INVOICED = ''INVOICED''"
| "order_status_name Order_FAILED = ''FAILED''"
| "order_status_name Order_EXPIRED = ''EXPIRED''"
| "order_status_name Order_CANCELLED = ''CANCELLED''"

record merchant_order =
  mo_orderId :: string
  mo_dappOrderId :: string
  mo_status :: order_status
  mo_chainId :: int
  mo_tokenAddress :: string
  mo_atomicAmount :: string
  mo_payerAddress :: string
  mo_payToAddress :: string
  mo_expiresAt :: string
  mo_paymentRequired :: json

record payment_proof =
  mp_orderId :: string
  mp_transactionHash :: string
  mp_logIndex :: int
  mp_fromAddress :: string
  mp_toAddress :: string
  mp_atomicAmount :: string
  mp_chainId :: int
  mp_providerDigest :: "string option"

record chain_log =
  cl_address :: string
  cl_topics :: "string list"
  cl_data :: string
  cl_index :: int

record chain_receipt =
  cr_chainId :: int
  cr_transactionHash :: string
  cr_status :: int
  cr_logs :: "chain_log list"

record settlement_expectation =
  se_chainId :: int
  se_tokenAddress :: string
  se_payerAddress :: string
  se_recipientAddress :: string
  se_atomicAmount :: string
  se_orderId :: string

record settlement_verification =
  sv_valid :: bool
  sv_failureCodes :: "string list"
  sv_paymentProofHashMaterial :: string

type_synonym log_parser = "string list \<Rightarrow> string \<Rightarrow> (string \<times> string \<times> int) option"

section \<open>The verifier\<close>

definition successful_order_statuses :: "order_status list" where
  "successful_order_statuses = [Order_PAYMENT_CONFIRMED, Order_INVOICED]"

definition transfer_topic :: "platform \<Rightarrow> string" where
  "transfer_topic P = pf_keccak_text P ''Transfer(address,address,uint256)''"

definition same_checksum :: "platform \<Rightarrow> string \<Rightarrow> string \<Rightarrow> bool" where
  "same_checksum P left right =
    (case (pf_get_address P left, pf_get_address P right) of (Some l, Some r) \<Rightarrow> l = r | _ \<Rightarrow> False)"

definition matchesTransferLog :: "platform \<Rightarrow> log_parser \<Rightarrow> chain_log \<Rightarrow> settlement_expectation \<Rightarrow> bool" where
  "matchesTransferLog P parse_log l expected =
    (if \<not> same_checksum P (cl_address l) (se_tokenAddress expected)
        \<or> (case cl_topics l of [] \<Rightarrow> True | t # _ \<Rightarrow> t \<noteq> transfer_topic P) then False
     else (case parse_log (cl_topics l) (cl_data l) of
       None \<Rightarrow> False
     | Some (sender, recipient, amount) \<Rightarrow>
         same_checksum P sender (se_payerAddress expected)
         \<and> same_checksum P recipient (se_recipientAddress expected)
         \<and> (case js_bigint (se_atomicAmount expected) of Inl _ \<Rightarrow> False | Inr v \<Rightarrow> amount = v)))"

definition code_unless :: "bool \<Rightarrow> string \<Rightarrow> string list" where
  "code_unless ok c = (if ok then [] else [c])"

definition verifySettlement ::
  "platform \<Rightarrow> log_parser \<Rightarrow> merchant_order \<Rightarrow> payment_proof \<Rightarrow> chain_receipt \<Rightarrow> settlement_expectation \<Rightarrow>
   settlement_verification" where
  "verifySettlement P parse_log order proof receipt expected =
    (let failures =
        code_unless (List.member successful_order_statuses (mo_status order)) ''ORDER_NOT_CONFIRMED''
      @ code_unless (mo_orderId order = se_orderId expected \<and> mp_orderId proof = se_orderId expected) ''ORDER_MISMATCH''
      @ code_unless (mo_chainId order = se_chainId expected \<and> mp_chainId proof = se_chainId expected
          \<and> cr_chainId receipt = se_chainId expected) ''CHAIN_MISMATCH''
      @ code_unless (same_checksum P (mo_tokenAddress order) (se_tokenAddress expected)) ''TOKEN_MISMATCH''
      @ code_unless (same_checksum P (mo_payerAddress order) (se_payerAddress expected)
          \<and> same_checksum P (mp_fromAddress proof) (se_payerAddress expected)) ''PAYER_MISMATCH''
      @ code_unless (same_checksum P (mo_payToAddress order) (se_recipientAddress expected)
          \<and> same_checksum P (mp_toAddress proof) (se_recipientAddress expected)) ''RECIPIENT_MISMATCH''
      @ code_unless (mo_atomicAmount order = se_atomicAmount expected
          \<and> mp_atomicAmount proof = se_atomicAmount expected) ''AMOUNT_MISMATCH''
      @ code_unless (cr_status receipt = 1) ''TRANSACTION_REVERTED''
      @ code_unless (to_lower (cr_transactionHash receipt) = to_lower (mp_transactionHash proof))
          ''TRANSACTION_HASH_MISMATCH''
      @ (case find (\<lambda>candidate. cl_index candidate = mp_logIndex proof) (cr_logs receipt) of
           None \<Rightarrow> [''TRANSFER_LOG_MISSING'']
         | Some l \<Rightarrow> code_unless (matchesTransferLog P parse_log l expected) ''TRANSFER_LOG_MISMATCH'')
     in \<lparr>sv_valid = (failures = []), sv_failureCodes = js_unique failures,
         sv_paymentProofHashMaterial = join_with '':'' [int_to_string (se_chainId expected),
           to_lower (mp_transactionHash proof), int_to_string (mp_logIndex proof), se_orderId expected]\<rparr>)"

text \<open>The log a transfer of a token emits, for an encoder of addresses and amounts as 32-byte words.\<close>

definition encodeTransferLog ::
  "platform \<Rightarrow> (string \<Rightarrow> string) \<Rightarrow> (int \<Rightarrow> string) \<Rightarrow> string \<Rightarrow> string \<Rightarrow> string \<Rightarrow> string \<Rightarrow> int \<Rightarrow> chain_log res" where
  "encodeTransferLog P pad_address pad_amount token sender recipient atomicAmount index =
    res_bind (js_bigint atomicAmount) (\<lambda>v. Inr
      \<lparr>cl_address = token, cl_topics = [transfer_topic P, pad_address sender, pad_address recipient],
       cl_data = pad_amount v, cl_index = index\<rparr>)"

section \<open>Facts\<close>

lemma code_unless_Nil [simp]: "code_unless ok c = [] \<longleftrightarrow> ok"
  by (simp add: code_unless_def)

lemma same_checksum_sym: "same_checksum P a b = same_checksum P b a"
  by (auto simp: same_checksum_def split: option.splits)

lemma same_checksum_trans: "same_checksum P a b \<Longrightarrow> same_checksum P b c \<Longrightarrow> same_checksum P a c"
  by (auto simp: same_checksum_def split: option.splits)

lemma matchesTransferLog_iff:
  "matchesTransferLog P parse_log l expected \<longleftrightarrow>
    same_checksum P (cl_address l) (se_tokenAddress expected)
    \<and> cl_topics l \<noteq> [] \<and> hd (cl_topics l) = transfer_topic P
    \<and> (\<exists>s r v. parse_log (cl_topics l) (cl_data l) = Some (s, r, v)
         \<and> same_checksum P s (se_payerAddress expected) \<and> same_checksum P r (se_recipientAddress expected)
         \<and> js_bigint (se_atomicAmount expected) = Inr v)"
  by (cases "cl_topics l") (auto simp: matchesTransferLog_def split: option.splits sum.splits)

section \<open>Properties\<close>

text \<open>
  C20: a settlement is valid exactly when the order is in a terminal-success status, order and proof
  name the expected order, all three sources agree on the chain, token, payer, recipient and amount are
  the expected ones, the transaction succeeded and is the one of the proof, and the first log at the
  proof's index is a \<open>Transfer\<close> of the expected token, payer, recipient and amount.
\<close>

theorem verifySettlement_spec:
  "sv_valid (verifySettlement P parse_log order proof receipt e) \<longleftrightarrow>
    mo_status order \<in> {Order_PAYMENT_CONFIRMED, Order_INVOICED}
    \<and> mo_orderId order = se_orderId e \<and> mp_orderId proof = se_orderId e
    \<and> mo_chainId order = se_chainId e \<and> mp_chainId proof = se_chainId e \<and> cr_chainId receipt = se_chainId e
    \<and> same_checksum P (mo_tokenAddress order) (se_tokenAddress e)
    \<and> same_checksum P (mo_payerAddress order) (se_payerAddress e)
    \<and> same_checksum P (mp_fromAddress proof) (se_payerAddress e)
    \<and> same_checksum P (mo_payToAddress order) (se_recipientAddress e)
    \<and> same_checksum P (mp_toAddress proof) (se_recipientAddress e)
    \<and> mo_atomicAmount order = se_atomicAmount e \<and> mp_atomicAmount proof = se_atomicAmount e
    \<and> cr_status receipt = 1 \<and> to_lower (cr_transactionHash receipt) = to_lower (mp_transactionHash proof)
    \<and> (\<exists>l. find (\<lambda>c. cl_index c = mp_logIndex proof) (cr_logs receipt) = Some l
         \<and> same_checksum P (cl_address l) (se_tokenAddress e)
         \<and> cl_topics l \<noteq> [] \<and> hd (cl_topics l) = transfer_topic P
         \<and> (\<exists>s r v. parse_log (cl_topics l) (cl_data l) = Some (s, r, v)
              \<and> same_checksum P s (se_payerAddress e) \<and> same_checksum P r (se_recipientAddress e)
              \<and> js_bigint (se_atomicAmount e) = Inr v))"
  unfolding matchesTransferLog_iff [symmetric]
  by (simp add: verifySettlement_def Let_def successful_order_statuses_def split: option.split)

text \<open>The facts of a valid settlement the reconciler and its clients use.\<close>

lemma valid_settlement_log:
  assumes "sv_valid (verifySettlement P parse_log order proof receipt e)"
  obtains l s r v where "l \<in> set (cr_logs receipt)" "cl_index l = mp_logIndex proof"
    "parse_log (cl_topics l) (cl_data l) = Some (s, r, v)" "same_checksum P s (se_payerAddress e)"
    "same_checksum P r (se_recipientAddress e)" "js_bigint (se_atomicAmount e) = Inr v"
proof -
  from assms obtain l where l: "find (\<lambda>c. cl_index c = mp_logIndex proof) (cr_logs receipt) = Some l"
    "matchesTransferLog P parse_log l e"
    by (auto simp: verifySettlement_def Let_def split: option.splits)
  then have "l \<in> set (cr_logs receipt)" "cl_index l = mp_logIndex proof"
    by (auto simp: find_Some_iff)
  then show thesis using that l(2) unfolding matchesTransferLog_iff by blast
qed

text \<open>
  C21: the proof hash identifies the payment: if the hash is collision free, two verified settlements
  with the same proof hash are the same log of the same transaction on the same chain for the same order,
  so one transfer cannot fund two orders under one proof.
\<close>

theorem proof_hash_identifies_payment:
  assumes "inj (pf_keccak_text P)"
    and "pf_keccak_text P (sv_paymentProofHashMaterial (verifySettlement P parse_log o1 p1 r1 e1))
       = pf_keccak_text P (sv_paymentProofHashMaterial (verifySettlement P parse_log o2 p2 r2 e2))"
    and "is_bytes32 (mp_transactionHash p1)" and "is_bytes32 (mp_transactionHash p2)"
  shows "se_chainId e1 = se_chainId e2 \<and> same_address (mp_transactionHash p1) (mp_transactionHash p2)
    \<and> mp_logIndex p1 = mp_logIndex p2 \<and> se_orderId e1 = se_orderId e2"
proof -
  have hash: "CHR '':'' \<notin> set (to_lower (mp_transactionHash p1))" "CHR '':'' \<notin> set (to_lower (mp_transactionHash p2))"
    using assms(3,4) hex_bytes_colon_free by (auto simp: is_bytes32_def)
  have eq: "int_to_string (se_chainId e1) @ CHR '':'' # to_lower (mp_transactionHash p1) @ CHR '':''
      # int_to_string (mp_logIndex p1) @ CHR '':'' # se_orderId e1
    = int_to_string (se_chainId e2) @ CHR '':'' # to_lower (mp_transactionHash p2) @ CHR '':''
      # int_to_string (mp_logIndex p2) @ CHR '':'' # se_orderId e2"
    using injD [OF assms(1,2)] by (simp add: verifySettlement_def Let_def)
  note chain = colon_free_parts [OF eq int_to_string_colon_free int_to_string_colon_free]
  note hashes = colon_free_parts [OF chain [THEN conjunct2] hash]
  note rest = colon_free_parts [OF hashes [THEN conjunct2] int_to_string_colon_free int_to_string_colon_free]
  from chain hashes rest show ?thesis by (simp add: same_address_def)
qed

text \<open>A concrete settlement: 1000 units from \<open>0x11..\<close> to \<open>0x22..\<close> in log 3.\<close>

definition demo_addr :: "char \<Rightarrow> string" where "demo_addr c = ''0x'' @ replicate 40 c"

definition demo_hash32 :: "char \<Rightarrow> string" where "demo_hash32 c = ''0x'' @ replicate 64 c"

definition demo_order :: merchant_order where
  "demo_order = \<lparr>mo_orderId = ''order-1'', mo_dappOrderId = ''run-1'', mo_status = Order_PAYMENT_CONFIRMED,
     mo_chainId = 2345, mo_tokenAddress = demo_addr (CHR ''3''), mo_atomicAmount = ''1000'',
     mo_payerAddress = demo_addr (CHR ''1''), mo_payToAddress = demo_addr (CHR ''2''),
     mo_expiresAt = ''2026-01-01T00:30:00.000Z'', mo_paymentRequired = JObj
       [(''x402Version'', JNum 1), (''resource'', JObj [(''url'', JStr ''/paid'')]), (''accepts'', JArr [JObj
         [(''scheme'', JStr ''exact''), (''network'', JStr ''eip155:2345''), (''amount'', JStr ''1000''),
          (''asset'', JStr (demo_addr (CHR ''3''))), (''payTo'', JStr (demo_addr (CHR ''2''))),
          (''maxTimeoutSeconds'', JNum 300)]])]\<rparr>"

definition demo_proof :: payment_proof where
  "demo_proof = \<lparr>mp_orderId = ''order-1'', mp_transactionHash = demo_hash32 (CHR ''7''), mp_logIndex = 3,
     mp_fromAddress = demo_addr (CHR ''1''), mp_toAddress = demo_addr (CHR ''2''), mp_atomicAmount = ''1000'',
     mp_chainId = 2345, mp_providerDigest = None\<rparr>"

definition demo_receipt :: chain_receipt where
  "demo_receipt = \<lparr>cr_chainId = 2345, cr_transactionHash = demo_hash32 (CHR ''7''), cr_status = 1,
     cr_logs = [\<lparr>cl_address = demo_addr (CHR ''3''), cl_topics = [transfer_topic demo_platform,
       demo_addr (CHR ''1''), demo_addr (CHR ''2'')], cl_data = ''1000'', cl_index = 3\<rparr>]\<rparr>"

definition demo_expectation :: settlement_expectation where
  "demo_expectation = \<lparr>se_chainId = 2345, se_tokenAddress = demo_addr (CHR ''3''),
     se_payerAddress = demo_addr (CHR ''1''), se_recipientAddress = demo_addr (CHR ''2''),
     se_atomicAmount = ''1000'', se_orderId = ''order-1''\<rparr>"

definition demo_parse_log :: log_parser where
  "demo_parse_log topics data =
    (case topics of [t, a, b] \<Rightarrow> (case js_bigint data of Inr v \<Rightarrow> Some (a, b, v) | Inl _ \<Rightarrow> None) | _ \<Rightarrow> None)"

lemma demo_settlement_valid:
  "sv_valid (verifySettlement demo_platform demo_parse_log demo_order demo_proof demo_receipt demo_expectation)"
  by code_simp

theorem proof_hash_identifies_payment_witness:
  "inj (pf_keccak_text demo_platform)
    \<and> mp_logIndex demo_proof = mp_logIndex (demo_proof\<lparr>mp_atomicAmount := ''1''\<rparr>)"
proof -
  have i: "inj (pf_keccak_text demo_platform)" by (rule injI) (simp add: demo_platform_def)
  have "sv_paymentProofHashMaterial (verifySettlement demo_platform demo_parse_log demo_order demo_proof demo_receipt demo_expectation)
      = sv_paymentProofHashMaterial (verifySettlement demo_platform demo_parse_log demo_order
          (demo_proof\<lparr>mp_atomicAmount := ''1''\<rparr>) demo_receipt demo_expectation)"
    by (simp add: verifySettlement_def Let_def)
  moreover have "is_bytes32 (mp_transactionHash demo_proof)"
    "is_bytes32 (mp_transactionHash (demo_proof\<lparr>mp_atomicAmount := ''1''\<rparr>))"
    by code_simp+
  ultimately show ?thesis
    using proof_hash_identifies_payment [OF i, of demo_parse_log demo_order demo_proof demo_receipt demo_expectation
      demo_order "demo_proof\<lparr>mp_atomicAmount := ''1''\<rparr>" demo_receipt demo_expectation] i by simp
qed

end
