(* ===== verification/Merchant_Order.thy ===== *)
theory Merchant_Order
  imports Settlement
begin

text \<open>
  Reading a stored merchant order (\<open>packages/persistence-postgres/src/merchant-order-snapshot.ts\<close>): the
  schema of an order, and the two shapes a snapshot may have.  \<open>zod\<close>'s date-time format is the parameter
  \<open>datetime\<close>; an integer is what \<open>JNum\<close> holds.
\<close>

definition keys_within :: "json \<Rightarrow> string list \<Rightarrow> bool" where
  "keys_within v ks = (case v of JObj kvs \<Rightarrow> list_all (\<lambda>kv. fst kv \<in> set ks) kvs | _ \<Rightarrow> False)"

definition json_int_of :: "json option \<Rightarrow> int option" where
  "json_int_of v = (case v of Some (JNum n) \<Rightarrow> Some n | _ \<Rightarrow> None)"

definition nonempty_string :: "json option \<Rightarrow> bool" where
  "nonempty_string v = (case json_string_of v of None \<Rightarrow> False | Some s \<Rightarrow> s \<noteq> [])"

definition optional_string :: "json option \<Rightarrow> bool" where
  "optional_string v = (v = None \<or> json_string_of v \<noteq> None)"

definition optional_object :: "json option \<Rightarrow> bool" where
  "optional_object v = (case v of None \<Rightarrow> True | Some (JObj _) \<Rightarrow> True | _ \<Rightarrow> False)"

definition string_that :: "(string \<Rightarrow> bool) \<Rightarrow> json option \<Rightarrow> bool" where
  "string_that p v = (case json_string_of v of None \<Rightarrow> False | Some s \<Rightarrow> p s)"

definition nonneg_int :: "json option \<Rightarrow> bool" where
  "nonneg_int v = (case json_int_of v of None \<Rightarrow> False | Some n \<Rightarrow> 0 \<le> n)"

definition accepts_entry_ok :: "json \<Rightarrow> bool" where
  "accepts_entry_ok v \<longleftrightarrow> nonempty_string (json_get v ''scheme'') \<and> nonempty_string (json_get v ''network'')
    \<and> string_that is_atomic (json_get v ''amount'') \<and> string_that is_address (json_get v ''asset'')
    \<and> string_that is_address (json_get v ''payTo'') \<and> nonneg_int (json_get v ''maxTimeoutSeconds'')
    \<and> optional_object (json_get v ''extra'')"

definition x402ChallengeSchema_ok :: "platform \<Rightarrow> json \<Rightarrow> bool" where
  "x402ChallengeSchema_ok P v \<longleftrightarrow>
    nonneg_int (json_get v ''x402Version'')
    \<and> (case json_get v ''resource'' of Some (JObj r) \<Rightarrow>
         string_that (\<lambda>u. pf_new_url P u None \<noteq> None) (json_get (JObj r) ''url'')
         \<and> optional_string (json_get (JObj r) ''description'') \<and> optional_string (json_get (JObj r) ''mimeType'')
       | _ \<Rightarrow> False)
    \<and> (case json_get v ''accepts'' of Some (JArr as) \<Rightarrow> as \<noteq> [] \<and> list_all accepts_entry_ok as | _ \<Rightarrow> False)
    \<and> optional_object (json_get v ''extensions'')"

definition order_status_of :: "string \<Rightarrow> order_status option" where
  "order_status_of s = map_of [(''CHECKOUT_VERIFIED'', Order_CHECKOUT_VERIFIED),
     (''PAYMENT_CONFIRMED'', Order_PAYMENT_CONFIRMED), (''INVOICED'', Order_INVOICED), (''FAILED'', Order_FAILED),
     (''EXPIRED'', Order_EXPIRED), (''CANCELLED'', Order_CANCELLED)] s"

definition order_keys :: "string list" where
  "order_keys = [''orderId'', ''dappOrderId'', ''status'', ''chainId'', ''tokenAddress'', ''atomicAmount'',
     ''payerAddress'', ''payToAddress'', ''expiresAt'', ''paymentRequired'']"

text \<open>The conditions the schema puts on the fields of an order.\<close>

definition order_fields_ok :: "platform \<Rightarrow> (string \<Rightarrow> bool) \<Rightarrow> merchant_order \<Rightarrow> bool" where
  "order_fields_ok P datetime r \<longleftrightarrow> mo_orderId r \<noteq> [] \<and> mo_dappOrderId r \<noteq> [] \<and> 0 < mo_chainId r
    \<and> is_address (mo_tokenAddress r) \<and> is_atomic (mo_atomicAmount r) \<and> is_address (mo_payerAddress r)
    \<and> is_address (mo_payToAddress r) \<and> datetime (mo_expiresAt r) \<and> x402ChallengeSchema_ok P (mo_paymentRequired r)"

definition merchantOrderSchema_parse :: "platform \<Rightarrow> (string \<Rightarrow> bool) \<Rightarrow> json \<Rightarrow> merchant_order res" where
  "merchantOrderSchema_parse P datetime v =
    (let str = (\<lambda>k. json_string_of (json_get v k)) in
     case (str ''orderId'', str ''dappOrderId'', Option.bind (str ''status'') order_status_of,
           json_int_of (json_get v ''chainId''), str ''tokenAddress'', str ''atomicAmount'', str ''payerAddress'',
           str ''payToAddress'', str ''expiresAt'', json_get v ''paymentRequired'') of
       (Some orderId, Some dappOrderId, Some status, Some chainId, Some token, Some amount, Some payer,
        Some payTo, Some expiresAt, Some challenge) \<Rightarrow>
          (let r = \<lparr>mo_orderId = orderId, mo_dappOrderId = dappOrderId, mo_status = status,
             mo_chainId = chainId, mo_tokenAddress = token, mo_atomicAmount = amount, mo_payerAddress = payer,
             mo_payToAddress = payTo, mo_expiresAt = expiresAt, mo_paymentRequired = challenge\<rparr>
           in if keys_within v order_keys \<and> order_fields_ok P datetime r then Inr r
              else Inl (Zod_error [''merchantOrder'']))
     | _ \<Rightarrow> Inl (Zod_error [''merchantOrder'']))"

text \<open>The adapters disagree on the shape of a snapshot: the order itself, or an object holding it under \<open>order\<close>.\<close>

definition wraps_order :: "json \<Rightarrow> bool" where "wraps_order snapshot = (json_get snapshot ''order'' \<noteq> None)"

definition parseMerchantOrderSnapshot :: "platform \<Rightarrow> (string \<Rightarrow> bool) \<Rightarrow> json \<Rightarrow> merchant_order res" where
  "parseMerchantOrderSnapshot P datetime snapshot =
    merchantOrderSchema_parse P datetime
      (case json_get snapshot ''order'' of Some order \<Rightarrow> order | None \<Rightarrow> snapshot)"

text \<open>\<open>JSON.stringify(order)\<close>, and how the reconciler writes an order back into the shape it found.\<close>

definition order_json :: "merchant_order \<Rightarrow> json" where
  "order_json r = JObj [(''orderId'', JStr (mo_orderId r)), (''dappOrderId'', JStr (mo_dappOrderId r)),
     (''status'', JStr (order_status_name (mo_status r))), (''chainId'', JNum (mo_chainId r)),
     (''tokenAddress'', JStr (mo_tokenAddress r)), (''atomicAmount'', JStr (mo_atomicAmount r)),
     (''payerAddress'', JStr (mo_payerAddress r)), (''payToAddress'', JStr (mo_payToAddress r)),
     (''expiresAt'', JStr (mo_expiresAt r)), (''paymentRequired'', mo_paymentRequired r)]"

definition jsonb_set_order :: "json \<Rightarrow> json \<Rightarrow> json" where
  "jsonb_set_order snapshot v =
    (case snapshot of JObj kvs \<Rightarrow> JObj (map (\<lambda>(k, old). (k, if k = ''order'' then v else old)) kvs) | _ \<Rightarrow> snapshot)"

definition write_back_order :: "json \<Rightarrow> merchant_order \<Rightarrow> json" where
  "write_back_order snapshot r =
    (if wraps_order snapshot then jsonb_set_order snapshot (order_json r) else order_json r)"

section \<open>Facts\<close>

lemma order_status_of_name [simp]: "order_status_of (order_status_name s) = Some s"
  by (cases s) (simp_all add: order_status_of_def)

lemma order_json_get:
  "json_get (order_json r) ''orderId'' = Some (JStr (mo_orderId r))"
  "json_get (order_json r) ''dappOrderId'' = Some (JStr (mo_dappOrderId r))"
  "json_get (order_json r) ''status'' = Some (JStr (order_status_name (mo_status r)))"
  "json_get (order_json r) ''chainId'' = Some (JNum (mo_chainId r))"
  "json_get (order_json r) ''tokenAddress'' = Some (JStr (mo_tokenAddress r))"
  "json_get (order_json r) ''atomicAmount'' = Some (JStr (mo_atomicAmount r))"
  "json_get (order_json r) ''payerAddress'' = Some (JStr (mo_payerAddress r))"
  "json_get (order_json r) ''payToAddress'' = Some (JStr (mo_payToAddress r))"
  "json_get (order_json r) ''expiresAt'' = Some (JStr (mo_expiresAt r))"
  "json_get (order_json r) ''paymentRequired'' = Some (mo_paymentRequired r)"
  "json_get (order_json r) ''order'' = None"
  by (simp_all add: order_json_def json_get_def)

lemma order_json_keys: "keys_within (order_json r) order_keys"
  by (simp add: keys_within_def order_json_def order_keys_def)

lemma parse_order_json: "order_fields_ok P datetime r \<Longrightarrow> merchantOrderSchema_parse P datetime (order_json r) = Inr r"
  by (cases r) (simp add: merchantOrderSchema_parse_def order_json_get order_json_keys json_string_of_def
    json_int_of_def Let_def)

lemma map_of_set_order:
  "k \<in> fst ` set kvs \<Longrightarrow> map_of (map (\<lambda>(k', old). (k', if k' = k then v else old)) kvs) k = Some v"
  by (induction kvs) auto

lemma json_get_jsonb_set: "wraps_order snapshot \<Longrightarrow> json_get (jsonb_set_order snapshot v) ''order'' = Some v"
proof (cases snapshot)
  case (JObj kvs)
  assume "wraps_order snapshot"
  then have "map_of (rev kvs) ''order'' \<noteq> None" by (simp add: wraps_order_def JObj json_get_def)
  then have "''order'' \<in> fst ` set (rev kvs)" by (simp only: map_of_eq_None_iff) simp
  from map_of_set_order [OF this] show ?thesis
    by (simp add: jsonb_set_order_def JObj json_get_def rev_map del: set_rev)
qed (simp_all add: wraps_order_def json_get_def)

text \<open>An accepted order meets the schema, and writing an order back into either shape keeps it readable.\<close>

lemma parse_accepts: "merchantOrderSchema_parse P datetime v = Inr r \<Longrightarrow> order_fields_ok P datetime r"
  by (simp add: merchantOrderSchema_parse_def Let_def split: option.splits if_splits)

text \<open>
  Reading an order back: after the reconciler writes an order into a snapshot of either shape, the
  snapshot parses to exactly that order, and it keeps the shape its adapter gave it.
\<close>

theorem snapshot_roundtrip:
  assumes "order_fields_ok P datetime r"
  shows "parseMerchantOrderSnapshot P datetime (write_back_order snapshot r) = Inr r
    \<and> wraps_order (write_back_order snapshot r) = wraps_order snapshot"
  using parse_order_json [OF assms] json_get_jsonb_set [of snapshot "order_json r"]
  by (cases "wraps_order snapshot")
    (simp_all add: parseMerchantOrderSnapshot_def write_back_order_def order_json_get wraps_order_def)

lemma demo_order_ok: "order_fields_ok demo_platform (\<lambda>_. True) demo_order"
  by code_simp

theorem snapshot_roundtrip_witness:
  "parseMerchantOrderSnapshot demo_platform (\<lambda>_. True)
     (write_back_order (JObj [(''order'', JNull), (''proof'', JNull)]) demo_order) = Inr demo_order"
  using snapshot_roundtrip [OF demo_order_ok] by blast

end
