(* ===== verification/Job_Queue.thy ===== *)
theory Job_Queue
  imports Iso_Date
begin

text \<open>
  The two leased job tables (\<open>packages/persistence-postgres/src/orchestrator-job-queue.ts\<close>,
  \<open>payment-job-queue.ts\<close>).  A statement of PostgreSQL is atomic, so an operation is a function on the
  rows of its table; \<open>now\<close> is the database clock, in milliseconds.  The two classes differ in their
  messages, their retry budget and \<open>rearm\<close>; the queue is an argument of the shared operations.  A claim
  is two statements, the sweep of exhausted leases and the claim proper; \<open>claimNext\<close> runs them one after the
  other, and in a history each also occurs alone, with any statement of another worker between them.
\<close>

section \<open>Rows\<close>

datatype job_status = Job_PENDING | Job_PROCESSING | Job_RETRY_SCHEDULED | Job_COMPLETED | Job_DEAD_LETTER

record job_row =
  job_runId :: string
  job_status_of :: job_status
  job_attempts :: int
  job_maximumAttempts :: int
  job_availableAt :: int
  job_lockedAt :: "int option"
  job_lockedBy :: "string option"
  job_lastErrorCode :: "string option"
  job_failureCodes :: "string list option"
  job_completedAt :: "int option"
  job_createdAt :: int

record claimed_job =
  cj_runId :: string
  cj_attempt :: int
  cj_maximumAttempts :: int
  cj_leaseOwner :: string

record claim_request =
  cq_workerId :: string
  cq_leaseDurationSeconds :: int

type_synonym job_table = "job_row list"

text \<open>The two queues: the words of their error messages and the default retry budget of their table.\<close>

datatype queue_name = orchestrator_queue | payment_queue

fun qn_Title :: "queue_name \<Rightarrow> string" where
  "qn_Title orchestrator_queue = ''Orchestrator''"
| "qn_Title payment_queue = ''Payment''"

fun qn_word :: "queue_name \<Rightarrow> string" where
  "qn_word orchestrator_queue = ''orchestrator''"
| "qn_word payment_queue = ''payment''"

fun qn_maximumAttempts :: "queue_name \<Rightarrow> int" where
  "qn_maximumAttempts orchestrator_queue = 8"
| "qn_maximumAttempts payment_queue = 24"

definition is_letter :: "char \<Rightarrow> bool" where "is_letter c \<longleftrightarrow> is_capital c \<or> is_lower c"

definition worker_id_char :: "char \<Rightarrow> bool" where
  "worker_id_char c \<longleftrightarrow> is_letter c \<or> is_digit c \<or> c \<in> set '':_-''"

definition valid_worker_id :: "string \<Rightarrow> bool" where
  "valid_worker_id s \<longleftrightarrow> 1 \<le> length s \<and> length s \<le> 200 \<and> list_all worker_id_char s"

definition validateWorkerId :: "queue_name \<Rightarrow> string \<Rightarrow> unit res" where
  "validateWorkerId q s = ensure (valid_worker_id s) (Js_error (''Invalid '' @ qn_word q @ '' worker ID''))"

definition valid_error_code :: "string \<Rightarrow> bool" where
  "valid_error_code s \<longleftrightarrow> 1 \<le> length s \<and> length s \<le> 100
    \<and> list_all (\<lambda>c. is_capital c \<or> is_digit c \<or> c = CHR ''_'') s"

definition validateErrorCode :: "queue_name \<Rightarrow> string \<Rightarrow> unit res" where
  "validateErrorCode q s = ensure (valid_error_code s) (Js_error (''Invalid '' @ qn_word q @ '' job error code''))"

text \<open>The row an \<open>INSERT ... (run_id) ... ON CONFLICT DO NOTHING\<close> adds, with the column defaults.\<close>

definition new_job :: "queue_name \<Rightarrow> int \<Rightarrow> string \<Rightarrow> job_row" where
  "new_job q now runId = \<lparr>job_runId = runId, job_status_of = Job_PENDING, job_attempts = 0,
     job_maximumAttempts = qn_maximumAttempts q, job_availableAt = now, job_lockedAt = None, job_lockedBy = None,
     job_lastErrorCode = None, job_failureCodes = None, job_completedAt = None, job_createdAt = now\<rparr>"

definition enqueue_job :: "queue_name \<Rightarrow> int \<Rightarrow> string \<Rightarrow> job_table \<Rightarrow> job_table" where
  "enqueue_job q now runId rows =
    (if runId \<in> set (map job_runId rows) then rows else rows @ [new_job q now runId])"

section \<open>Claiming\<close>

definition lease_expired :: "int \<Rightarrow> int \<Rightarrow> job_row \<Rightarrow> bool" where
  "lease_expired now secs r \<longleftrightarrow>
    job_status_of r = Job_PROCESSING \<and> (case job_lockedAt r of None \<Rightarrow> False | Some t \<Rightarrow> t \<le> now - 1000 * secs)"

definition sweep_exhausted :: "int \<Rightarrow> int \<Rightarrow> job_row \<Rightarrow> job_row" where
  "sweep_exhausted now secs r =
    (if lease_expired now secs r \<and> job_maximumAttempts r \<le> job_attempts r
     then r\<lparr>job_status_of := Job_DEAD_LETTER, job_lockedAt := None, job_lockedBy := None,
       job_lastErrorCode := Some ''STALE_LEASE_ATTEMPTS_EXHAUSTED''\<rparr>
     else r)"

definition claimable :: "int \<Rightarrow> int \<Rightarrow> job_row \<Rightarrow> bool" where
  "claimable now secs r \<longleftrightarrow>
    (job_status_of r \<in> {Job_PENDING, Job_RETRY_SCHEDULED} \<and> job_availableAt r \<le> now
       \<and> job_attempts r < job_maximumAttempts r)
    \<or> (lease_expired now secs r \<and> job_attempts r < job_maximumAttempts r)"

definition candidate :: "int \<Rightarrow> int \<Rightarrow> job_table \<Rightarrow> job_row option" where
  "candidate now secs rows =
    (case sort_key job_availableAt (sort_key job_createdAt (filter (claimable now secs) rows)) of
       [] \<Rightarrow> None | r # _ \<Rightarrow> Some r)"

definition take_lease :: "int \<Rightarrow> string \<Rightarrow> job_row \<Rightarrow> job_row" where
  "take_lease now workerId r = r\<lparr>job_status_of := Job_PROCESSING,
     job_attempts := job_attempts r + (if job_status_of r = Job_PROCESSING then 0 else 1),
     job_lockedAt := Some now, job_lockedBy := Some workerId\<rparr>"

definition update_row :: "string \<Rightarrow> (job_row \<Rightarrow> job_row) \<Rightarrow> job_table \<Rightarrow> job_table" where
  "update_row runId f rows = map (\<lambda>r. if job_runId r = runId then f r else r) rows"

text \<open>The statement that dead-letters the stale leases of the last allowed attempt.\<close>

definition sweep_statement :: "int \<Rightarrow> int \<Rightarrow> (job_table, unit) io" where
  "sweep_statement now secs = io_modify (map (sweep_exhausted now secs))"

text \<open>
  The statement that leases the oldest due row.  \<open>skipped\<close> are the runs whose rows another transaction has
  locked at that moment: \<open>FOR UPDATE SKIP LOCKED\<close> passes over them.
\<close>

definition claim_statement :: "int \<Rightarrow> string list \<Rightarrow> claim_request \<Rightarrow> (job_table, claimed_job option) io" where
  "claim_statement now skipped input =
    io_bind (io_get (\<lambda>rows. candidate now (cq_leaseDurationSeconds input)
        (filter (\<lambda>r. job_runId r \<notin> set skipped) rows))) (\<lambda>c.
     case c of None \<Rightarrow> io_ret None
     | Some r \<Rightarrow>
        let leased = take_lease now (cq_workerId input) r in
        io_then (io_modify (update_row (job_runId r) (\<lambda>_. leased)))
        (io_ret (Some \<lparr>cj_runId = job_runId leased, cj_attempt = job_attempts leased,
           cj_maximumAttempts = job_maximumAttempts leased, cj_leaseOwner = cq_workerId input\<rparr>)))"

definition claim_guards :: "queue_name \<Rightarrow> claim_request \<Rightarrow> unit res" where
  "claim_guards q input =
    res_bind (validateWorkerId q (cq_workerId input)) (\<lambda>_.
    ensure (\<not> cq_leaseDurationSeconds input < 5 \<and> \<not> cq_leaseDurationSeconds input > 600)
      (Js_error (qn_Title q @ '' job lease duration must be between 5 and 600 seconds'')))"

definition claimNext :: "queue_name \<Rightarrow> int \<Rightarrow> claim_request \<Rightarrow> (job_table, claimed_job option) io" where
  "claimNext q now input =
    io_then (io_lift (claim_guards q input))
    (io_then (sweep_statement now (cq_leaseDurationSeconds input)) (claim_statement now [] input))"

section \<open>Finishing a lease\<close>

definition holds_lease :: "claimed_job \<Rightarrow> job_row \<Rightarrow> bool" where
  "holds_lease job r \<longleftrightarrow> job_runId r = cj_runId job \<and> job_status_of r = Job_PROCESSING
    \<and> job_lockedBy r = Some (cj_leaseOwner job) \<and> job_attempts r = cj_attempt job"

definition finishLease :: "queue_name \<Rightarrow> claimed_job \<Rightarrow> (job_row \<Rightarrow> job_row) \<Rightarrow> (job_table, unit) io" where
  "finishLease q job f =
    io_then (io_lift (validateWorkerId q (cj_leaseOwner job)))
    (io_then (io_lift (ensure (cj_runId job \<noteq> [] \<and> \<not> cj_attempt job < 1)
       (Js_error (''Invalid claimed '' @ qn_word q @ '' job''))))
    (io_bind (io_get (\<lambda>rows. length (filter (holds_lease job) rows))) (\<lambda>rowCount.
     io_then (io_modify (map (\<lambda>r. if holds_lease job r then f r else r)))
     (io_lift (ensure (rowCount = 1) (Js_error (qn_Title q @ '' job lease ownership conflict'')))))))"

definition released :: "job_status \<Rightarrow> job_row \<Rightarrow> job_row" where
  "released s r = r\<lparr>job_status_of := s, job_lockedAt := None, job_lockedBy := None\<rparr>"

definition completed_row :: "int \<Rightarrow> job_row \<Rightarrow> job_row" where
  "completed_row now r =
    (released Job_COMPLETED r)\<lparr>job_lastErrorCode := None, job_failureCodes := None, job_completedAt := Some now\<rparr>"

definition markCompleted :: "queue_name \<Rightarrow> int \<Rightarrow> claimed_job \<Rightarrow> (job_table, unit) io" where
  "markCompleted q now job = finishLease q job
    (completed_row now)"

definition delay_ok :: "int \<Rightarrow> bool" where "delay_ok d \<longleftrightarrow> \<not> d < 0 \<and> \<not> d > 3600000"

definition retried_row :: "int \<Rightarrow> int \<Rightarrow> string \<Rightarrow> job_row \<Rightarrow> job_row" where
  "retried_row now delayMilliseconds reason r = (released Job_RETRY_SCHEDULED r)\<lparr>job_availableAt := now + delayMilliseconds,
     job_lastErrorCode := Some reason, job_failureCodes := None\<rparr>"

definition markRetry :: "queue_name \<Rightarrow> int \<Rightarrow> claimed_job \<Rightarrow> int \<Rightarrow> string \<Rightarrow> (job_table, unit) io" where
  "markRetry q now job delayMilliseconds reason =
    io_then (io_lift (validateErrorCode q reason))
    (io_then (io_lift (ensure (delay_ok delayMilliseconds)
       (Js_error (qn_Title q @ '' job retry delay must be between zero and one hour''))))
    (finishLease q job (retried_row now delayMilliseconds reason)))"

definition waiting_row :: "int \<Rightarrow> int \<Rightarrow> string \<Rightarrow> job_row \<Rightarrow> job_row" where
  "waiting_row now delayMilliseconds reason r = (released Job_RETRY_SCHEDULED r)\<lparr>job_attempts := max (job_attempts r - 1) 0,
     job_availableAt := now + delayMilliseconds, job_lastErrorCode := Some reason, job_failureCodes := None\<rparr>"

definition markWaiting :: "queue_name \<Rightarrow> int \<Rightarrow> claimed_job \<Rightarrow> int \<Rightarrow> string \<Rightarrow> (job_table, unit) io" where
  "markWaiting q now job delayMilliseconds reason =
    io_then (io_lift (validateErrorCode q reason))
    (io_then (io_lift (ensure (delay_ok delayMilliseconds)
       (Js_error (qn_Title q @ '' job wait delay must be between zero and one hour''))))
    (finishLease q job (waiting_row now delayMilliseconds reason)))"

definition buried_row :: "string \<Rightarrow> string list \<Rightarrow> job_row \<Rightarrow> job_row" where
  "buried_row reason failureCodes r = (released Job_DEAD_LETTER r)\<lparr>job_lastErrorCode := Some reason,
     job_failureCodes := Some failureCodes\<rparr>"

definition markDeadLetter :: "queue_name \<Rightarrow> claimed_job \<Rightarrow> string \<Rightarrow> string list \<Rightarrow> (job_table, unit) io" where
  "markDeadLetter q job reason failureCodes =
    io_then (io_lift (validateErrorCode q reason))
    (io_then (io_lift (res_map (validateErrorCode q) failureCodes))
    (finishLease q job (buried_row reason failureCodes)))"

text \<open>Only the payment queue reopens a dead letter.\<close>

definition rearm :: "int \<Rightarrow> string \<Rightarrow> (job_table, unit) io" where
  "rearm now runId = io_modify (map (\<lambda>r. if job_runId r = runId \<and> job_status_of r = Job_DEAD_LETTER
     then r\<lparr>job_status_of := Job_PENDING, job_attempts := 0, job_availableAt := now, job_lockedAt := None,
       job_lockedBy := None, job_lastErrorCode := None, job_failureCodes := None, job_completedAt := None\<rparr>
     else r))"

text \<open>Reading a job back: empty columns are left out, stored failure codes are checked again.\<close>

record job_record =
  jr_runId :: string
  jr_status :: job_status
  jr_attempts :: int
  jr_maximumAttempts :: int
  jr_availableAt :: string
  jr_lockedAt :: "string option"
  jr_lockedBy :: "string option"
  jr_lastErrorCode :: "string option"
  jr_failureCodes :: "string list option"
  jr_completedAt :: "string option"

definition unless_empty :: "string option \<Rightarrow> string option" where
  "unless_empty v = (case v of Some [] \<Rightarrow> None | _ \<Rightarrow> v)"

definition parseFailureCodes :: "queue_name \<Rightarrow> string list option \<Rightarrow> string list option res" where
  "parseFailureCodes q value = (case value of None \<Rightarrow> Inr None
     | Some codes \<Rightarrow> if list_all valid_error_code codes then Inr (Some codes)
         else Inl (Js_error (''Invalid '' @ qn_word q @ '' job failure code payload in PostgreSQL'')))"

definition parseJobRecord :: "queue_name \<Rightarrow> job_row \<Rightarrow> job_record res" where
  "parseJobRecord q row =
    res_bind (parseFailureCodes q (job_failureCodes row)) (\<lambda>failureCodes.
    Inr \<lparr>jr_runId = job_runId row, jr_status = job_status_of row, jr_attempts = job_attempts row,
      jr_maximumAttempts = job_maximumAttempts row, jr_availableAt = to_iso_string (job_availableAt row),
      jr_lockedAt = map_option to_iso_string (job_lockedAt row), jr_lockedBy = unless_empty (job_lockedBy row),
      jr_lastErrorCode = unless_empty (job_lastErrorCode row), jr_failureCodes = failureCodes,
      jr_completedAt = map_option to_iso_string (job_completedAt row)\<rparr>)"

definition findJobByRunId :: "queue_name \<Rightarrow> string \<Rightarrow> (job_table, job_record option) io" where
  "findJobByRunId q runId =
    io_bind (io_get (find (\<lambda>r. job_runId r = runId))) (\<lambda>row.
    case row of None \<Rightarrow> io_ret None
    | Some r \<Rightarrow> io_lift (res_bind (parseJobRecord q r) (\<lambda>x. Inr (Some x))))"

section \<open>The payment reconciliation queue\<close>

text \<open>
  The class of \<open>payment-job-queue.ts\<close> has the statements of \<open>orchestrator-job-queue.ts\<close> on its own table,
  so its operations are the shared ones under its name.
\<close>

definition payment_claimNext :: "int \<Rightarrow> claim_request \<Rightarrow> (job_table, claimed_job option) io" where
  "payment_claimNext = claimNext payment_queue"

definition payment_markCompleted :: "int \<Rightarrow> claimed_job \<Rightarrow> (job_table, unit) io" where
  "payment_markCompleted = markCompleted payment_queue"

definition payment_markRetry :: "int \<Rightarrow> claimed_job \<Rightarrow> int \<Rightarrow> string \<Rightarrow> (job_table, unit) io" where
  "payment_markRetry = markRetry payment_queue"

definition payment_markWaiting :: "int \<Rightarrow> claimed_job \<Rightarrow> int \<Rightarrow> string \<Rightarrow> (job_table, unit) io" where
  "payment_markWaiting = markWaiting payment_queue"

definition payment_findByRunId :: "string \<Rightarrow> (job_table, job_record option) io" where
  "payment_findByRunId = findJobByRunId payment_queue"

definition payment_parseRecord :: "job_row \<Rightarrow> job_record res" where
  "payment_parseRecord = parseJobRecord payment_queue"

definition payment_markDeadLetter :: "claimed_job \<Rightarrow> string \<Rightarrow> string list \<Rightarrow> (job_table, unit) io" where
  "payment_markDeadLetter = markDeadLetter payment_queue"

lemmas finished_row_defs = completed_row_def retried_row_def waiting_row_def buried_row_def released_def

section \<open>The table invariant\<close>

text \<open>The \<open>CHECK\<close> constraints of the table, slightly strengthened: a lease is exactly what a processing row has.\<close>

definition job_ok :: "job_row \<Rightarrow> bool" where
  "job_ok r \<longleftrightarrow> 0 \<le> job_attempts r \<and> job_attempts r \<le> job_maximumAttempts r
    \<and> (job_status_of r = Job_PROCESSING \<longrightarrow> job_lockedAt r \<noteq> None \<and> job_lockedBy r \<noteq> None \<and> 1 \<le> job_attempts r)
    \<and> (job_status_of r \<noteq> Job_PROCESSING \<longrightarrow> job_lockedAt r = None \<and> job_lockedBy r = None)
    \<and> ((job_status_of r = Job_COMPLETED) = (job_completedAt r \<noteq> None))"

definition job_inv :: "job_table \<Rightarrow> bool" where
  "job_inv rows \<longleftrightarrow> distinct (map job_runId rows) \<and> list_all job_ok rows"

text \<open>Changing rows one by one, keeping the key, keeps the invariant when each change keeps \<open>job_ok\<close>.\<close>

lemma job_inv_map:
  assumes "job_inv rows" and "\<And>r. job_runId (f r) = job_runId r"
    and "\<And>r. r \<in> set rows \<Longrightarrow> job_ok r \<Longrightarrow> job_ok (f r)"
  shows "job_inv (map f rows)"
proof -
  have "map job_runId (map f rows) = map job_runId rows" using assms(2) by simp
  then have "distinct (map job_runId (map f rows))" using assms(1) unfolding job_inv_def by metis
  moreover have "list_all job_ok (map f rows)" using assms(1,3) by (simp add: job_inv_def list_all_iff)
  ultimately show ?thesis unfolding job_inv_def by blast
qed

lemma sweep_keeps_key [simp]: "job_runId (sweep_exhausted now secs r) = job_runId r"
  by (simp add: sweep_exhausted_def)

lemma job_ok_sweep: "job_ok r \<Longrightarrow> job_ok (sweep_exhausted now secs r)"
  by (auto simp: sweep_exhausted_def job_ok_def lease_expired_def)

lemma claimable_cases:
  assumes "claimable now secs r"
  shows "job_attempts r < job_maximumAttempts r
    \<and> job_status_of r \<in> {Job_PENDING, Job_RETRY_SCHEDULED, Job_PROCESSING}"
  using assms by (auto simp: claimable_def lease_expired_def)

lemma job_ok_take: "claimable now secs r \<Longrightarrow> job_ok r \<Longrightarrow> job_ok (take_lease now w r)"
  using claimable_cases [of now secs r] by (auto simp: job_ok_def take_lease_def)

lemma take_lease_key [simp]: "job_runId (take_lease now w r) = job_runId r"
  by (simp add: take_lease_def)

lemma candidate_Some:
  assumes "candidate now secs rows = Some r"
  shows "r \<in> set rows \<and> claimable now secs r"
proof -
  let ?l = "sort_key job_availableAt (sort_key job_createdAt (filter (claimable now secs) rows))"
  obtain t where l: "?l = r # t" using assms by (auto simp: candidate_def split: list.splits)
  have "r \<in> set ?l" unfolding l by simp
  then show ?thesis by simp
qed

lemma candidate_None: "candidate now secs rows = None \<longleftrightarrow> (\<forall>r \<in> set rows. \<not> claimable now secs r)"
proof -
  have "candidate now secs rows = None
      \<longleftrightarrow> sort_key job_availableAt (sort_key job_createdAt (filter (claimable now secs) rows)) = []"
    by (auto simp: candidate_def split: list.splits)
  also have "\<dots> \<longleftrightarrow> set (sort_key job_availableAt (sort_key job_createdAt (filter (claimable now secs) rows))) = {}"
    by (simp only: set_empty)
  also have "\<dots> \<longleftrightarrow> (\<forall>r \<in> set rows. \<not> claimable now secs r)" by auto
  finally show ?thesis .
qed

text \<open>The oldest due row is claimed first.\<close>

lemma candidate_oldest:
  assumes "candidate now secs rows = Some r" and "s \<in> set rows" and "claimable now secs s"
  shows "job_availableAt r \<le> job_availableAt s"
proof -
  let ?l = "sort_key job_availableAt (sort_key job_createdAt (filter (claimable now secs) rows))"
  obtain t where l: "?l = r # t" using assms(1) by (auto simp: candidate_def split: list.splits)
  have "sorted (map job_availableAt ?l)" by simp
  moreover have "s \<in> set ?l" using assms(2,3) by simp
  ultimately show ?thesis unfolding l by auto
qed

text \<open>What the claim statement does: nothing due, or one claimable row leased that nobody has locked.\<close>

lemma claim_statement_cases:
  assumes "claim_statement now skipped input rows = (res, rows')"
  obtains (idle) "res = Inr None" "rows' = rows"
      "candidate now (cq_leaseDurationSeconds input) (filter (\<lambda>r. job_runId r \<notin> set skipped) rows) = None"
  | (leased) r where "r \<in> set rows" "claimable now (cq_leaseDurationSeconds input) r" "job_runId r \<notin> set skipped"
      "rows' = update_row (job_runId r) (\<lambda>_. take_lease now (cq_workerId input) r) rows"
      "res = Inr (Some \<lparr>cj_runId = job_runId r, cj_attempt = job_attempts (take_lease now (cq_workerId input) r),
           cj_maximumAttempts = job_maximumAttempts r, cj_leaseOwner = cq_workerId input\<rparr>)"
proof (cases "candidate now (cq_leaseDurationSeconds input) (filter (\<lambda>r. job_runId r \<notin> set skipped) rows)")
  case None
  then show thesis using assms idle by (simp add: claim_statement_def io_bind_apply)
next
  case (Some r)
  from candidate_Some [OF this] have "r \<in> set rows" "claimable now (cq_leaseDurationSeconds input) r" "job_runId r \<notin> set skipped"
    by auto
  then show thesis using assms Some leased
    by (simp add: claim_statement_def io_then_apply io_bind_apply Let_def take_lease_def)
qed

lemma claim_guards_ok:
  "claim_guards q input = Inr () \<longleftrightarrow> valid_worker_id (cq_workerId input)
     \<and> 5 \<le> cq_leaseDurationSeconds input \<and> cq_leaseDurationSeconds input \<le> 600"
  by (auto simp: claim_guards_def validateWorkerId_def ensure_def)

lemma claimNext_statements:
  "claimNext q now input rows = (case claim_guards q input of Inl e \<Rightarrow> (Inl e, rows)
     | Inr _ \<Rightarrow> claim_statement now [] input (map (sweep_exhausted now (cq_leaseDurationSeconds input)) rows))"
  by (simp add: claimNext_def io_then_apply sweep_statement_def split: sum.split)

text \<open>What a claim does: refused, nothing due, or one claimable row leased.\<close>

lemma claimNext_cases:
  assumes "claimNext q now input rows = (res, rows')"
  obtains (refused) e where "res = Inl e" "rows' = rows"
  | (idle) "res = Inr None" "rows' = map (sweep_exhausted now (cq_leaseDurationSeconds input)) rows"
      "candidate now (cq_leaseDurationSeconds input) rows' = None"
  | (leased) r where "r \<in> set (map (sweep_exhausted now (cq_leaseDurationSeconds input)) rows)"
      "claimable now (cq_leaseDurationSeconds input) r"
      "rows' = update_row (job_runId r) (\<lambda>_. take_lease now (cq_workerId input) r)
        (map (sweep_exhausted now (cq_leaseDurationSeconds input)) rows)"
      "res = Inr (Some \<lparr>cj_runId = job_runId r, cj_attempt = job_attempts (take_lease now (cq_workerId input) r),
           cj_maximumAttempts = job_maximumAttempts r, cj_leaseOwner = cq_workerId input\<rparr>)"
      "valid_worker_id (cq_workerId input)" "5 \<le> cq_leaseDurationSeconds input"
proof (cases "claim_guards q input")
  case (Inl e)
  then have "res = Inl e" "rows' = rows" using assms by (simp_all add: claimNext_statements)
  then show thesis by (rule refused)
next
  case (Inr u)
  then have ok: "valid_worker_id (cq_workerId input)" "5 \<le> cq_leaseDurationSeconds input"
    using claim_guards_ok [of q input] by simp_all
  have "claim_statement now [] input (map (sweep_exhausted now (cq_leaseDurationSeconds input)) rows) = (res, rows')"
    using assms Inr by (simp add: claimNext_statements)
  then show thesis
  proof (cases rule: claim_statement_cases)
    case idle
    then show thesis using that(2) by simp
  next
    case (leased r)
    then show thesis using that(3) ok by blast
  qed
qed

lemma job_inv_update:
  assumes "job_inv rows" and "r \<in> set rows" and "job_runId r' = job_runId r" and "job_ok r'"
  shows "job_inv (update_row (job_runId r) (\<lambda>_. r') rows)"
  unfolding update_row_def using assms by (intro job_inv_map) (auto split: if_splits)

lemma job_inv_sweep: "job_inv rows \<Longrightarrow> job_inv (map (sweep_exhausted now secs) rows)"
  by (intro job_inv_map) (simp_all add: job_ok_sweep)

lemma job_inv_claim_statement: "io_keeps job_inv (claim_statement now skipped input)"
proof (rule io_keepsI)
  fix rows assume inv: "job_inv rows"
  obtain res rows' where run: "claim_statement now skipped input rows = (res, rows')"
    by (cases "claim_statement now skipped input rows")
  then have "job_inv rows'"
  proof (cases rule: claim_statement_cases)
    case (leased r)
    then have "job_ok r" using inv by (auto simp: job_inv_def list_all_iff)
    then show ?thesis unfolding leased(4) using job_inv_update [OF inv leased(1)] job_ok_take [OF leased(2)] by simp
  qed (use inv in simp_all)
  then show "job_inv (snd (claim_statement now skipped input rows))" by (simp add: run)
qed

lemma job_inv_claim: "io_keeps job_inv (claimNext q now input)"
  unfolding claimNext_def sweep_statement_def
  by (intro io_intros io_keeps_modify job_inv_claim_statement job_inv_sweep)

lemma finishLease_result:
  "finishLease q job f rows = (res, rows') \<Longrightarrow>
    (\<exists>e. res = Inl e \<and> rows' = rows) \<or> rows' = map (\<lambda>r. if holds_lease job r then f r else r) rows"
  by (auto simp: finishLease_def validateWorkerId_def ensure_def io_then_apply io_bind_apply split: if_splits)

lemma job_inv_finish:
  assumes "\<And>r. job_runId (f r) = job_runId r" and "\<And>r. holds_lease job r \<Longrightarrow> job_ok r \<Longrightarrow> job_ok (f r)"
  shows "io_keeps job_inv (finishLease q job f)"
proof (rule io_keepsI)
  fix rows assume inv: "job_inv rows"
  obtain res rows' where run: "finishLease q job f rows = (res, rows')" by (cases "finishLease q job f rows")
  have "job_inv (map (\<lambda>r. if holds_lease job r then f r else r) rows)"
    using inv assms by (intro job_inv_map) auto
  then show "job_inv (snd (finishLease q job f rows))" using finishLease_result [OF run] inv by (auto simp: run)
qed

lemma job_ok_released:
  "s \<notin> {Job_PROCESSING, Job_COMPLETED} \<Longrightarrow> holds_lease job r \<Longrightarrow> job_ok r \<Longrightarrow> job_ok (released s r)"
  by (auto simp: released_def job_ok_def holds_lease_def)

lemma queue_ops_keep_inv:
  "io_keeps job_inv (claimNext q now input)"
  "io_keeps job_inv (markCompleted q now job)"
  "io_keeps job_inv (markRetry q now job d reason)"
  "io_keeps job_inv (markWaiting q now job d reason)"
  "io_keeps job_inv (markDeadLetter q job reason codes)"
  "io_keeps job_inv (rearm now runId)"
proof -
  show "io_keeps job_inv (claimNext q now input)" by (rule job_inv_claim)
  show "io_keeps job_inv (markCompleted q now job)"
    unfolding markCompleted_def by (rule job_inv_finish) (auto simp: finished_row_defs job_ok_def holds_lease_def)
  show "io_keeps job_inv (markRetry q now job d reason)"
    unfolding markRetry_def
    by (intro io_intros job_inv_finish) (auto simp: finished_row_defs job_ok_def holds_lease_def)
  show "io_keeps job_inv (markWaiting q now job d reason)"
    unfolding markWaiting_def
    by (intro io_intros job_inv_finish) (auto simp: finished_row_defs job_ok_def holds_lease_def)
  show "io_keeps job_inv (markDeadLetter q job reason codes)"
    unfolding markDeadLetter_def
    by (intro io_intros job_inv_finish) (auto simp: finished_row_defs job_ok_def holds_lease_def)
  show "io_keeps job_inv (rearm now runId)"
    unfolding rearm_def by (intro io_keeps_modify job_inv_map) (auto simp: job_ok_def)
qed

section \<open>Histories of operations\<close>

text \<open>
  What happens to a job table: whole calls, the two statements of a claim on their own (a claim by a call
  whose guards passed, with the rows locked by others), and the \<open>INSERT\<close> of a funded run's job.
\<close>

datatype queue_op =
    Op_claim claim_request
  | Op_sweep claim_request
  | Op_claim_row "string list" claim_request
  | Op_complete claimed_job
  | Op_retry claimed_job int string
  | Op_wait claimed_job int string
  | Op_dead_letter claimed_job string "string list"
  | Op_rearm string
  | Op_enqueue string

fun perform :: "queue_name \<Rightarrow> int \<Rightarrow> queue_op \<Rightarrow> job_table \<Rightarrow> job_table" where
  "perform q now (Op_claim input) rows = snd (claimNext q now input rows)"
| "perform q now (Op_sweep input) rows =
    snd (io_then (io_lift (claim_guards q input)) (sweep_statement now (cq_leaseDurationSeconds input)) rows)"
| "perform q now (Op_claim_row skipped input) rows =
    snd (io_then (io_lift (claim_guards q input)) (claim_statement now skipped input) rows)"
| "perform q now (Op_complete job) rows = snd (markCompleted q now job rows)"
| "perform q now (Op_retry job d reason) rows = snd (markRetry q now job d reason rows)"
| "perform q now (Op_wait job d reason) rows = snd (markWaiting q now job d reason rows)"
| "perform q now (Op_dead_letter job reason codes) rows = snd (markDeadLetter q job reason codes rows)"
| "perform q now (Op_rearm runId) rows = snd (rearm now runId rows)"
| "perform q now (Op_enqueue runId) rows = enqueue_job q now runId rows"

definition job_of :: "claimed_job option res \<Rightarrow> string list" where
  "job_of res = (case res of Inr (Some job) \<Rightarrow> [cj_runId job] | _ \<Rightarrow> [])"

fun claimed_by :: "queue_name \<Rightarrow> int \<Rightarrow> queue_op \<Rightarrow> job_table \<Rightarrow> string list" where
  "claimed_by q now (Op_claim input) rows = job_of (fst (claimNext q now input rows))"
| "claimed_by q now (Op_claim_row skipped input) rows =
    job_of (fst (io_then (io_lift (claim_guards q input)) (claim_statement now skipped input) rows))"
| "claimed_by q now _ rows = []"

fun run_ops :: "queue_name \<Rightarrow> (int \<times> queue_op) list \<Rightarrow> job_table \<Rightarrow> job_table" where
  "run_ops q [] rows = rows"
| "run_ops q ((now, x) # ops) rows = run_ops q ops (perform q now x rows)"

text \<open>The run ids handed out along a history.\<close>

fun handed_out :: "queue_name \<Rightarrow> (int \<times> queue_op) list \<Rightarrow> job_table \<Rightarrow> string list" where
  "handed_out q [] rows = []"
| "handed_out q ((now, x) # ops) rows = claimed_by q now x rows @ handed_out q ops (perform q now x rows)"

lemma attempts_positive: "0 < qn_maximumAttempts q"
  by (cases q) simp_all

lemma job_inv_enqueue: "job_inv rows \<Longrightarrow> job_inv (enqueue_job q now runId rows)"
  using attempts_positive [of q] by (auto simp: enqueue_job_def job_inv_def new_job_def job_ok_def)

lemma perform_keeps_inv: "job_inv rows \<Longrightarrow> job_inv (perform q now x rows)"
  by (cases x) (auto intro!: queue_ops_keep_inv [THEN io_keepsD] job_inv_enqueue io_intros job_inv_claim_statement [THEN io_keepsD]
    simp: io_then_apply sweep_statement_def job_inv_sweep split: sum.split)

lemma run_ops_inv: "job_inv rows \<Longrightarrow> job_inv (run_ops q ops rows)"
  by (induction q ops rows rule: run_ops.induct) (auto intro: perform_keeps_inv)

definition same_lease :: "claimed_job \<Rightarrow> claimed_job \<Rightarrow> bool" where
  "same_lease j k \<longleftrightarrow> cj_runId j = cj_runId k \<and> cj_leaseOwner j = cj_leaseOwner k \<and> cj_attempt j = cj_attempt k"

definition held_since :: "claimed_job \<Rightarrow> int \<Rightarrow> job_table \<Rightarrow> bool" where
  "held_since job t rows \<longleftrightarrow> (\<exists>r \<in> set rows. holds_lease job r \<and> job_lockedAt r = Some t)"

text \<open>What others do while a lease runs: workers claim before it expires and finish their own
  leases, runs are queued, and customers rearm dead letters.\<close>

fun by_others :: "claimed_job \<Rightarrow> int \<Rightarrow> int \<times> queue_op \<Rightarrow> bool" where
  "by_others job t (now, Op_claim input) = (now < t + 1000 * cq_leaseDurationSeconds input)"
| "by_others job t (now, Op_sweep input) = (now < t + 1000 * cq_leaseDurationSeconds input)"
| "by_others job t (now, Op_claim_row skipped input) = (now < t + 1000 * cq_leaseDurationSeconds input)"
| "by_others job t (now, Op_complete k) = (\<not> same_lease job k)"
| "by_others job t (now, Op_retry k d reason) = (\<not> same_lease job k)"
| "by_others job t (now, Op_wait k d reason) = (\<not> same_lease job k)"
| "by_others job t (now, Op_dead_letter k reason codes) = (\<not> same_lease job k)"
| "by_others job t (now, Op_rearm runId) = True"
| "by_others job t (now, Op_enqueue runId) = True"

lemma held_not_claimable:
  assumes "holds_lease job r" and "job_lockedAt r = Some t" and "now < t + 1000 * secs"
  shows "\<not> claimable now secs r" and "sweep_exhausted now secs r = r"
  using assms by (auto simp: holds_lease_def claimable_def lease_expired_def sweep_exhausted_def)

lemma held_sweep:
  assumes "held_since job t rows" and "now < t + 1000 * secs"
  shows "held_since job t (map (sweep_exhausted now secs) rows)"
proof -
  obtain h where h: "h \<in> set rows" "holds_lease job h" "job_lockedAt h = Some t"
    using assms(1) by (auto simp: held_since_def)
  then have "h \<in> set (map (sweep_exhausted now secs) rows)"
    using held_not_claimable(2) [OF h(2,3) assms(2)] by force
  then show ?thesis using h(2,3) by (auto simp: held_since_def)
qed

lemma held_claim_statement:
  assumes inv: "job_inv rows" and held: "held_since job t rows"
    and early: "now < t + 1000 * cq_leaseDurationSeconds input"
    and run: "claim_statement now skipped input rows = (res, rows')"
  shows "held_since job t rows' \<and> cj_runId job \<notin> set (job_of res)"
proof -
  obtain h where h: "h \<in> set rows" "holds_lease job h" "job_lockedAt h = Some t"
    using held by (auto simp: held_since_def)
  from run show ?thesis
  proof (cases rule: claim_statement_cases)
    case (leased r)
    have "r \<noteq> h" using leased(2) held_not_claimable(1) [OF h(2,3) early] by blast
    then have ne: "job_runId r \<noteq> job_runId h"
      using inv h(1) leased(1) unfolding job_inv_def distinct_map by (auto dest: inj_onD)
    then have "h \<in> set rows'" unfolding leased(4) update_row_def using h(1) by force
    then show ?thesis using h(2,3) ne leased(5) by (auto simp: held_since_def holds_lease_def job_of_def)
  qed (use held in \<open>simp add: job_of_def\<close>)
qed

lemma held_guarded_claim:
  assumes "job_inv rows" and "held_since job t rows" and "now < t + 1000 * cq_leaseDurationSeconds input"
  shows "held_since job t (snd (io_then (io_lift (claim_guards q input)) (claim_statement now skipped input) rows))
    \<and> cj_runId job \<notin> set (job_of (fst (io_then (io_lift (claim_guards q input)) (claim_statement now skipped input) rows)))"
proof (cases "claim_guards q input")
  case (Inl e)
  then show ?thesis using assms(2) by (simp add: io_then_apply job_of_def)
next
  case (Inr u)
  obtain res rows' where "claim_statement now skipped input rows = (res, rows')"
    by (cases "claim_statement now skipped input rows")
  with held_claim_statement [OF assms this] Inr show ?thesis by (simp add: io_then_apply)
qed

lemma held_claim:
  assumes "job_inv rows" and "held_since job t rows" and "now < t + 1000 * cq_leaseDurationSeconds input"
  shows "held_since job t (snd (claimNext q now input rows)) \<and> cj_runId job \<notin> set (job_of (fst (claimNext q now input rows)))"
  using held_guarded_claim [OF job_inv_sweep [OF assms(1)] held_sweep [OF assms(2,3)] assms(3), of q "[]"] assms(2)
  by (cases "claim_guards q input") (simp_all add: claimNext_statements io_then_apply job_of_def)

lemma held_finish:
  assumes "held_since job t rows" and "\<not> same_lease job k"
    and "finishLease q k f rows = (res, rows')"
  shows "held_since job t rows'"
proof -
  obtain h where h: "h \<in> set rows" "holds_lease job h" "job_lockedAt h = Some t"
    using assms(1) by (auto simp: held_since_def)
  have "\<not> holds_lease k h" using h(2) assms(2) by (auto simp: holds_lease_def same_lease_def)
  then have "h \<in> set (map (\<lambda>r. if holds_lease k r then f r else r) rows)" using h(1) by force
  then show ?thesis using finishLease_result [OF assms(3)] h by (auto simp: held_since_def)
qed

lemma held_guarded_finish:
  assumes "held_since job t rows" and "\<not> same_lease job k"
  shows "held_since job t (snd (io_then (io_lift g) (finishLease q k f) rows))"
    and "held_since job t (snd (io_then (io_lift g) (io_then (io_lift g') (finishLease q k f)) rows))"
  using held_finish [OF assms, of q f] assms(1)
  by (auto simp: io_then_apply split: sum.split prod.split) (metis prod.collapse)+

lemma held_rearm:
  assumes "held_since job t rows"
  shows "held_since job t (snd (rearm now runId rows))"
proof -
  obtain h where h: "h \<in> set rows" "holds_lease job h" "job_lockedAt h = Some t"
    using assms by (auto simp: held_since_def)
  then have "h \<in> set (snd (rearm now runId rows))" by (force simp: rearm_def holds_lease_def)
  then show ?thesis using h by (auto simp: held_since_def)
qed

lemma held_perform:
  assumes inv: "job_inv rows" and held: "held_since job t rows" and others: "by_others job t (now, x)"
  shows "held_since job t (perform q now x rows) \<and> cj_runId job \<notin> set (claimed_by q now x rows)"
proof (cases x)
  case (Op_sweep input)
  then show ?thesis using held held_sweep [OF held] others
    by (auto simp: io_then_apply sweep_statement_def split: sum.split)
next
  case (Op_complete k)
  then show ?thesis using held_finish [OF held] others by (simp add: markCompleted_def) (metis prod.collapse)
next
  case (Op_enqueue runId)
  then show ?thesis using held by (auto simp: held_since_def enqueue_job_def)
qed (use others held_claim [OF inv held] held_guarded_claim [OF inv held] held_guarded_finish(2) [OF held] held_rearm [OF held]
    in \<open>simp_all add: markRetry_def markWaiting_def markDeadLetter_def\<close>)

lemma held_run_ops:
  "job_inv rows \<Longrightarrow> held_since job t rows \<Longrightarrow> list_all (by_others job t) ops \<Longrightarrow>
    held_since job t (run_ops q ops rows) \<and> cj_runId job \<notin> set (handed_out q ops rows)"
proof (induction q ops rows rule: run_ops.induct)
  case (2 q now x ops rows)
  then show ?case using held_perform [of rows job t now x q] perform_keeps_inv by simp
qed simp

text \<open>Under the invariant a held lease is the one row the finishing statement updates.\<close>

lemma held_row_count:
  assumes "job_inv rows" and "held_since job t rows"
  shows "length (filter (holds_lease job) rows) = 1"
proof -
  obtain h where h: "h \<in> set rows" "holds_lease job h" using assms(2) by (auto simp: held_since_def)
  have inj: "inj_on job_runId (set rows)" "distinct rows" using assms(1) by (auto simp: job_inv_def distinct_map)
  have "r = h" if "r \<in> set rows" "holds_lease job r" for r
  proof (rule inj_onD [OF inj(1)])
    show "job_runId r = job_runId h" using that(2) h(2) by (simp add: holds_lease_def)
  qed (use that h in auto)
  then have "set (filter (holds_lease job) rows) = {h}" using h unfolding set_filter by blast
  then show ?thesis using distinct_card [of "filter (holds_lease job) rows"] inj(2) by simp
qed

lemma leased_row_is_held:
  assumes "job_inv rows" and "claim_statement t skipped input rows = (Inr (Some job), rows')"
  shows "held_since job t rows'" and "cj_leaseOwner job = cq_workerId input" and "cj_runId job \<in> set (map job_runId rows)"
    and "1 \<le> cj_attempt job" and "cj_attempt job \<le> cj_maximumAttempts job"
    and "\<exists>r \<in> set rows'. holds_lease job r \<and> job_maximumAttempts r = cj_maximumAttempts job"
proof -
  from assms(2) obtain r where r: "r \<in> set rows" "claimable t (cq_leaseDurationSeconds input) r"
      "rows' = update_row (job_runId r) (\<lambda>_. take_lease t (cq_workerId input) r) rows"
      "job = \<lparr>cj_runId = job_runId r, cj_attempt = job_attempts (take_lease t (cq_workerId input) r),
           cj_maximumAttempts = job_maximumAttempts r, cj_leaseOwner = cq_workerId input\<rparr>"
    by (cases rule: claim_statement_cases) auto
  let ?l = "take_lease t (cq_workerId input) r"
  have mem: "?l \<in> set rows'" unfolding r(3) update_row_def using r(1) by force
  have held: "holds_lease job ?l" "job_lockedAt ?l = Some t" "job_maximumAttempts ?l = cj_maximumAttempts job"
    unfolding holds_lease_def r(4) take_lease_def by simp_all
  show "held_since job t rows'" unfolding held_since_def using held(1,2) mem by blast
  show "\<exists>r \<in> set rows'. holds_lease job r \<and> job_maximumAttempts r = cj_maximumAttempts job" using held mem by blast
  have "job_ok ?l" using assms(1) r(1,2) job_ok_take by (auto simp: job_inv_def list_all_iff)
  then show "1 \<le> cj_attempt job" "cj_attempt job \<le> cj_maximumAttempts job"
    using r(4) by (auto simp: job_ok_def take_lease_def)
  show "cj_leaseOwner job = cq_workerId input" "cj_runId job \<in> set (map job_runId rows)" using r by auto
qed

lemma claimed_is_held:
  assumes "job_inv rows" and "claimNext q t input rows = (Inr (Some job), rows')"
  shows "held_since job t rows'" and "valid_worker_id (cj_leaseOwner job)" and "cj_runId job \<in> set (map job_runId rows)"
    and "1 \<le> cj_attempt job" and "cj_attempt job \<le> cj_maximumAttempts job"
    and "\<exists>r \<in> set rows'. holds_lease job r \<and> job_maximumAttempts r = cj_maximumAttempts job"
proof -
  let ?s = "map (sweep_exhausted t (cq_leaseDurationSeconds input)) rows"
  have guards: "claim_guards q input = Inr ()" and run: "claim_statement t [] input ?s = (Inr (Some job), rows')"
    using assms(2) by (auto simp: claimNext_statements split: sum.splits)
  note l = leased_row_is_held [OF job_inv_sweep [OF assms(1)] run]
  show "held_since job t rows'" "1 \<le> cj_attempt job" "cj_attempt job \<le> cj_maximumAttempts job"
    "\<exists>r \<in> set rows'. holds_lease job r \<and> job_maximumAttempts r = cj_maximumAttempts job" by (fact l)+
  show "valid_worker_id (cj_leaseOwner job)" using guards l(2) by (simp add: claim_guards_ok)
  show "cj_runId job \<in> set (map job_runId rows)" using l(3) by auto
qed

section \<open>Every unfinished job comes up again\<close>

text \<open>
  A worker retries a job only while attempts are left, which is what both handlers do (\<open>Workers\<close>).  Then a
  waiting row always has one, so it becomes claimable when it is due.
\<close>

fun retries_in_budget :: "queue_name \<Rightarrow> int \<times> queue_op \<Rightarrow> bool" where
  "retries_in_budget q (now, Op_retry k d reason) = (cj_attempt k < qn_maximumAttempts q)"
| "retries_in_budget q (now, x) = True"

definition serviceable_row :: "queue_name \<Rightarrow> job_row \<Rightarrow> bool" where
  "serviceable_row q r \<longleftrightarrow> job_maximumAttempts r = qn_maximumAttempts q
    \<and> (job_status_of r \<in> {Job_PENDING, Job_RETRY_SCHEDULED} \<longrightarrow> job_attempts r < job_maximumAttempts r)"

definition serviceable :: "queue_name \<Rightarrow> job_table \<Rightarrow> bool" where
  "serviceable q rows \<longleftrightarrow> job_inv rows \<and> list_all (serviceable_row q) rows"

lemma serviceable_map:
  assumes "list_all (serviceable_row q) rows"
    and "\<And>r. r \<in> set rows \<Longrightarrow> serviceable_row q r \<Longrightarrow> serviceable_row q (f r)"
  shows "list_all (serviceable_row q) (map f rows)"
  using assms by (auto simp: list_all_iff)

lemma serviceable_sweep:
  "list_all (serviceable_row q) rows \<Longrightarrow> list_all (serviceable_row q) (map (sweep_exhausted now secs) rows)"
  by (rule serviceable_map) (auto simp: serviceable_row_def sweep_exhausted_def)

lemma serviceable_claim_statement:
  assumes "list_all (serviceable_row q) rows"
  shows "list_all (serviceable_row q) (snd (claim_statement now skipped input rows))"
proof -
  obtain res rows' where run: "claim_statement now skipped input rows = (res, rows')"
    by (cases "claim_statement now skipped input rows")
  then show ?thesis
  proof (cases rule: claim_statement_cases)
    case (leased r)
    then have "serviceable_row q r" using assms by (simp add: list_all_iff)
    then have "serviceable_row q (take_lease now (cq_workerId input) r)" by (simp add: serviceable_row_def take_lease_def)
    then show ?thesis using assms unfolding run leased(4) snd_conv update_row_def by (intro serviceable_map) auto
  qed (use assms run in simp_all)
qed

lemma serviceable_finish:
  assumes "list_all (serviceable_row q) rows" and "\<And>r. r \<in> set rows \<Longrightarrow> holds_lease k r \<Longrightarrow> serviceable_row q r \<Longrightarrow> serviceable_row q (f r)"
  shows "list_all (serviceable_row q) (snd (finishLease q k f rows))"
proof -
  obtain res rows' where run: "finishLease q k f rows = (res, rows')" by (cases "finishLease q k f rows")
  have "list_all (serviceable_row q) (map (\<lambda>r. if holds_lease k r then f r else r) rows)"
    using assms by (intro serviceable_map) auto
  then show ?thesis using finishLease_result [OF run] assms(1) by (auto simp: run)
qed

lemma serviceable_guarded_finish:
  assumes "list_all (serviceable_row q) rows" and "\<And>r. r \<in> set rows \<Longrightarrow> holds_lease k r \<Longrightarrow> serviceable_row q r \<Longrightarrow> serviceable_row q (f r)"
  shows "list_all (serviceable_row q) (snd (io_then (io_lift g) (io_then (io_lift g') (finishLease q k f)) rows))"
  using serviceable_finish [OF assms] assms(1) by (simp add: io_then_apply split: sum.split)

lemma serviceable_perform:
  assumes "serviceable q rows" and "retries_in_budget q (now, x)"
  shows "serviceable q (perform q now x rows)"
proof -
  have inv: "job_inv rows" and rows: "list_all (serviceable_row q) rows" using assms(1) by (simp_all add: serviceable_def)
  have attempts: "0 \<le> job_attempts r \<and> job_attempts r \<le> job_maximumAttempts r \<and> (holds_lease k r \<longrightarrow> 1 \<le> job_attempts r)"
    if "r \<in> set rows" for r k
    using inv that by (auto simp: job_inv_def list_all_iff job_ok_def holds_lease_def)
  have "list_all (serviceable_row q) (perform q now x rows)"
  proof (cases x)
    case (Op_claim input)
    then show ?thesis using rows serviceable_claim_statement [OF serviceable_sweep [OF rows]]
      by (simp add: claimNext_statements split: sum.split)
  next
    case (Op_complete k)
    then show ?thesis using serviceable_finish [OF rows]
      by (auto simp: markCompleted_def serviceable_row_def finished_row_defs)
  next
    case (Op_retry k d reason)
    then have "serviceable_row q (retried_row now d reason r)" if "r \<in> set rows" "holds_lease k r" "serviceable_row q r" for r
      using that assms(2) by (auto simp: serviceable_row_def finished_row_defs holds_lease_def)
    with serviceable_guarded_finish [OF rows] show ?thesis unfolding Op_retry perform.simps markRetry_def by blast
  next
    case (Op_wait k d reason)
    have "serviceable_row q (waiting_row now d reason r)" if "r \<in> set rows" "holds_lease k r" "serviceable_row q r" for r
      using that attempts [of r k] by (auto simp: serviceable_row_def finished_row_defs)
    with serviceable_guarded_finish [OF rows] show ?thesis unfolding Op_wait perform.simps markWaiting_def by blast
  next
    case (Op_dead_letter k reason codes)
    have "serviceable_row q (buried_row reason codes r)" if "r \<in> set rows" "holds_lease k r" "serviceable_row q r" for r
      using that by (auto simp: serviceable_row_def finished_row_defs)
    with serviceable_guarded_finish [OF rows] show ?thesis unfolding Op_dead_letter perform.simps markDeadLetter_def by blast
  next
    case (Op_rearm runId)
    show ?thesis unfolding Op_rearm perform.simps rearm_def io_modify_apply snd_conv
      by (rule serviceable_map [OF rows]) (use attempts_positive [of q] in \<open>auto simp: serviceable_row_def\<close>)
  next
    case (Op_enqueue runId)
    then show ?thesis using rows attempts_positive [of q]
      by (simp add: enqueue_job_def new_job_def serviceable_row_def)
  qed (use rows serviceable_sweep [OF rows] serviceable_claim_statement [OF rows] in
      \<open>simp_all add: io_then_apply sweep_statement_def split: sum.split\<close>)
  then show ?thesis using perform_keeps_inv [OF inv] by (simp add: serviceable_def)
qed

lemma serviceable_history: "list_all (retries_in_budget q) ops \<Longrightarrow> serviceable q rows \<Longrightarrow> serviceable q (run_ops q ops rows)"
  by (induction q ops rows rule: run_ops.induct) (auto simp: serviceable_perform)

text \<open>When an unfinished row is due: at its date, or when its lease runs out.\<close>

definition due_at :: "int \<Rightarrow> job_row \<Rightarrow> int" where
  "due_at secs r = (case job_lockedAt r of Some t \<Rightarrow> t + 1000 * secs | None \<Rightarrow> job_availableAt r)"

text \<open>A poll: a claim some worker makes, the row being due, within five seconds from \<open>now\<close>.\<close>

fun poll_of :: "job_row \<Rightarrow> int \<Rightarrow> int \<times> claim_request \<Rightarrow> bool" where
  "poll_of r now (t, input) \<longleftrightarrow> now \<le> t \<and> t < now + 5000 \<and> due_at (cq_leaseDurationSeconds input) r \<le> t
    \<and> valid_worker_id (cq_workerId input) \<and> 5 \<le> cq_leaseDurationSeconds input \<and> cq_leaseDurationSeconds input \<le> 600"

definition polls :: "(int \<times> claim_request) list \<Rightarrow> (int \<times> queue_op) list" where
  "polls = map (\<lambda>(t, input). (t, Op_claim input))"

definition unfinished :: "job_row \<Rightarrow> bool" where
  "unfinished r \<longleftrightarrow> job_status_of r \<notin> {Job_COMPLETED, Job_DEAD_LETTER}"

definition worn_out :: "job_row \<Rightarrow> bool" where
  "worn_out r \<longleftrightarrow> job_status_of r = Job_PROCESSING \<and> job_maximumAttempts r \<le> job_attempts r"

lemma due_claimable:
  assumes "serviceable_row q r" and "job_ok r" and "unfinished r" and "due_at secs r \<le> t"
  shows "\<not> worn_out r \<Longrightarrow> claimable t secs r \<and> sweep_exhausted t secs r = r"
    and "worn_out r \<Longrightarrow> job_status_of (sweep_exhausted t secs r) = Job_DEAD_LETTER
      \<and> job_lastErrorCode (sweep_exhausted t secs r) = Some ''STALE_LEASE_ATTEMPTS_EXHAUSTED''"
  using assms by (cases "job_status_of r"; auto simp: serviceable_row_def job_ok_def unfinished_def worn_out_def due_at_def
    claimable_def lease_expired_def sweep_exhausted_def)+

text \<open>The rows nobody has leased since \<open>now\<close>; every claim of another row makes them one fewer.\<close>

definition unclaimed_since :: "int \<Rightarrow> job_row \<Rightarrow> bool" where
  "unclaimed_since now r \<longleftrightarrow> \<not> (job_status_of r = Job_PROCESSING \<and> (case job_lockedAt r of None \<Rightarrow> False | Some t \<Rightarrow> now \<le> t))"

lemma sweep_unclaimed:
  assumes "5 \<le> secs" and "t < now + 5000"
  shows "unclaimed_since now (sweep_exhausted t secs r) = unclaimed_since now r"
    and "claimable t secs r \<Longrightarrow> unclaimed_since now r"
  using assms by (auto simp: unclaimed_since_def sweep_exhausted_def claimable_def lease_expired_def split: option.splits)

lemma filter_update_row:
  assumes "distinct (map job_runId rows)" and "r \<in> set rows" and "P r" and "\<not> P (f r)"
  shows "Suc (length (filter P (update_row (job_runId r) f rows))) = length (filter P rows)"
  using assms
proof (induction rows)
  case (Cons x xs)
  have tail: "update_row (job_runId r) f xs = xs" if "job_runId r \<notin> job_runId ` set xs"
    unfolding update_row_def by (rule map_idI) (use that in \<open>auto simp: image_def\<close>)
  show ?case
  proof (cases "job_runId x = job_runId r")
    case True
    then have "x = r" using Cons.prems(1,2) by force
    then show ?thesis using Cons.prems tail by (simp add: update_row_def)
  next
    case False
    then show ?thesis using Cons by (auto simp: update_row_def)
  qed
qed simp

lemma one_poll:
  assumes inv: "job_inv rows" and "r \<in> set rows" and "serviceable_row q r" and "unfinished r" and "\<not> worn_out r"
    and poll: "poll_of r now (t, input)"
  shows "job_runId r \<in> set (claimed_by q t (Op_claim input) rows)
    \<or> (r \<in> set (perform q t (Op_claim input) rows)
       \<and> length (filter (unclaimed_since now) (perform q t (Op_claim input) rows)) < length (filter (unclaimed_since now) rows))"
proof -
  let ?secs = "cq_leaseDurationSeconds input"
  let ?s = "map (sweep_exhausted t ?secs) rows"
  have g: "claim_guards q input = Inr ()" and five: "5 \<le> ?secs" and soon: "t < now + 5000"
    and start: "now \<le> t" and due: "due_at ?secs r \<le> t"
    using poll by (simp_all add: claim_guards_ok)
  have "job_ok r" using assms(1,2) by (simp add: job_inv_def list_all_iff)
  from due_claimable(1) [OF assms(3) this assms(4) due assms(5)]
  have r: "claimable t ?secs r" "sweep_exhausted t ?secs r = r" by blast+
  then have rs: "r \<in> set ?s" using assms(2) by force
  have s: "job_inv ?s" by (rule job_inv_sweep [OF inv])
  have sw: "length (filter (unclaimed_since now) ?s) = length (filter (unclaimed_since now) rows)"
    using sweep_unclaimed(1) [OF five soon] by (simp add: filter_map comp_def)
  obtain res rows' where run: "claim_statement t [] input ?s = (res, rows')" by (cases "claim_statement t [] input ?s")
  have call: "claimNext q t input rows = (res, rows')" using g run by (simp add: claimNext_statements)
  from run show ?thesis
  proof (cases rule: claim_statement_cases)
    case idle
    then show ?thesis using candidate_None [of t ?secs ?s] rs r(1) by auto
  next
    case (leased x)
    have fresh: "\<not> unclaimed_since now (take_lease t (cq_workerId input) x)"
      using start by (simp add: unclaimed_since_def take_lease_def)
    have "length (filter (unclaimed_since now) rows') < length (filter (unclaimed_since now) ?s)"
      using filter_update_row [of ?s x "unclaimed_since now" "\<lambda>_. take_lease t (cq_workerId input) x"] s leased(1)
        sweep_unclaimed(2) [OF five soon leased(2)] fresh unfolding leased(4) job_inv_def by simp
    moreover have "job_runId r \<noteq> job_runId x \<longrightarrow> r \<in> set rows'" using rs unfolding leased(4) update_row_def by force
    ultimately show ?thesis using leased(5) sw by (auto simp: call job_of_def)
  qed
qed

lemma polls_reach:
  "list_all (poll_of r now) ps \<Longrightarrow> job_inv rows \<Longrightarrow> r \<in> set rows \<Longrightarrow> serviceable_row q r \<Longrightarrow> unfinished r \<Longrightarrow> \<not> worn_out r \<Longrightarrow>
    length (filter (unclaimed_since now) rows) \<le> length ps \<Longrightarrow> unclaimed_since now r \<or> ps \<noteq> [] \<Longrightarrow>
    job_runId r \<in> set (handed_out q (polls ps) rows)"
proof (induction ps arbitrary: rows)
  case Nil
  then have "filter (unclaimed_since now) rows = []" by simp
  then show ?case using Nil by (auto simp: filter_empty_conv)
next
  case (Cons p ps)
  obtain t input where p: "p = (t, input)" by (cases p)
  have poll: "poll_of r now (t, input)" and rest: "list_all (poll_of r now) ps" using Cons.prems(1) p by simp_all
  let ?rows = "perform q t (Op_claim input) rows"
  have "job_ok r" using Cons.prems(2,3) by (simp add: job_inv_def list_all_iff)
  then have un: "unclaimed_since now r"
    using due_claimable(1) [OF Cons.prems(4) _ Cons.prems(5) _ Cons.prems(6)] poll sweep_unclaimed(2) by fastforce
  from one_poll [OF Cons.prems(2-6) poll] show ?case
  proof
    assume "r \<in> set ?rows \<and> length (filter (unclaimed_since now) ?rows) < length (filter (unclaimed_since now) rows)"
    then have rows: "r \<in> set ?rows" "length (filter (unclaimed_since now) ?rows) \<le> length ps" using Cons.prems(7) by auto
    have "job_runId r \<in> set (handed_out q (polls ps) ?rows)"
      using Cons.IH [OF rest perform_keeps_inv [OF Cons.prems(2)] rows(1) Cons.prems(4-6) rows(2)] un by blast
    then show ?thesis by (simp add: polls_def p)
  qed (simp add: polls_def p)
qed

text \<open>A dead letter stays one whatever is claimed.\<close>

lemma dead_letter_stays:
  assumes "r \<in> set rows" and "job_status_of r = Job_DEAD_LETTER" and "job_inv rows"
  shows "r \<in> set (snd (claimNext q now input rows))"
proof -
  let ?s = "map (sweep_exhausted now (cq_leaseDurationSeconds input)) rows"
  have r: "r \<in> set ?s" using assms(1,2) by (force simp: sweep_exhausted_def lease_expired_def)
  obtain res rows' where run: "claimNext q now input rows = (res, rows')" by (cases "claimNext q now input rows")
  then show ?thesis
  proof (cases rule: claimNext_cases)
    case (leased x)
    have "x \<noteq> r" using leased(2) assms(2) by (auto simp: claimable_def lease_expired_def)
    then have "job_runId r \<noteq> job_runId x"
      using r leased(1) job_inv_sweep [OF assms(3)] unfolding job_inv_def distinct_map by (auto dest: inj_onD)
    then show ?thesis unfolding run leased(3) snd_conv update_row_def using r by force
  qed (use assms(1) r run in simp_all)
qed

lemma dead_letter_stays_polls:
  "r \<in> set rows \<Longrightarrow> job_status_of r = Job_DEAD_LETTER \<Longrightarrow> job_inv rows \<Longrightarrow> r \<in> set (run_ops q (polls ps) rows)"
proof (induction ps arbitrary: rows)
  case (Cons p ps)
  then show ?case using dead_letter_stays [OF Cons.prems] perform_keeps_inv [OF Cons.prems(3)]
    by (cases p) (simp add: polls_def, metis perform.simps(1))
qed (simp add: polls_def)

lemma first_poll_buries:
  assumes inv: "job_inv rows" and "r \<in> set rows" and "serviceable_row q r" and "unfinished r" and "worn_out r"
    and poll: "poll_of r now (t, input)"
  shows "\<exists>x \<in> set (perform q t (Op_claim input) rows). job_runId x = job_runId r \<and> job_status_of x = Job_DEAD_LETTER
    \<and> job_lastErrorCode x = Some ''STALE_LEASE_ATTEMPTS_EXHAUSTED''"
proof -
  let ?secs = "cq_leaseDurationSeconds input"
  let ?s = "map (sweep_exhausted t ?secs) rows"
  let ?x = "sweep_exhausted t ?secs r"
  have g: "claim_guards q input = Inr ()" and due: "due_at ?secs r \<le> t" using poll by (simp_all add: claim_guards_ok)
  have "job_ok r" using assms(1,2) by (simp add: job_inv_def list_all_iff)
  from due_claimable(2) [OF assms(3) this assms(4) due assms(5)]
  have x: "job_status_of ?x = Job_DEAD_LETTER" "job_lastErrorCode ?x = Some ''STALE_LEASE_ATTEMPTS_EXHAUSTED''" by blast+
  have s: "?x \<in> set ?s" using assms(2) by simp
  have again: "map (sweep_exhausted t ?secs) ?s = ?s" by (auto simp: sweep_exhausted_def lease_expired_def)
  have "perform q t (Op_claim input) rows = perform q t (Op_claim input) ?s"
    using g by (simp only: perform.simps claimNext_statements again sum.case)
  then show ?thesis using dead_letter_stays [OF s x(1) job_inv_sweep [OF inv], of q t input] x by (intro bexI [of _ ?x]) simp_all
qed

section \<open>Properties\<close>

text \<open>A finishing statement succeeds exactly when the lease is still held; a refused one changes nothing.\<close>

lemma finish_held:
  assumes "job_inv rows" and "held_since job t rows" and "valid_worker_id (cj_leaseOwner job)"
    and "cj_runId job \<noteq> []" and "1 \<le> cj_attempt job"
  shows "finishLease q job f rows = (Inr (), map (\<lambda>r. if holds_lease job r then f r else r) rows)"
  using held_row_count [OF assms(1,2)] assms(3-5)
  by (simp add: finishLease_def validateWorkerId_def io_then_apply io_bind_apply)

lemma finish_lost:
  assumes "\<forall>r \<in> set rows. \<not> holds_lease job r"
  shows "\<exists>e. finishLease q job f rows = (Inl e, rows)"
proof -
  have "filter (holds_lease job) rows = []" using assms by simp
  moreover have "map (\<lambda>r. if holds_lease job r then f r else r) rows = rows" using assms by (simp add: map_idI)
  ultimately show ?thesis
    by (auto simp: finishLease_def validateWorkerId_def ensure_def io_then_apply io_bind_apply)
qed

lemma refused_by_finish:
  assumes "\<exists>e. finishLease q job f rows = (Inl e, rows)"
  shows "\<not> res_ok (fst (finishLease q job f rows))" and "snd (finishLease q job f rows) = rows"
  using assms by auto

lemma refused_by_guards:
  assumes "\<exists>e. finishLease q job f rows = (Inl e, rows)"
  shows "\<not> res_ok (fst (io_then (io_lift g) (io_then (io_lift g') (finishLease q job f)) rows))"
    and "snd (io_then (io_lift g) (io_then (io_lift g') (finishLease q job f)) rows) = rows"
  using assms by (cases g; cases g'; auto simp: io_then_apply)+

text \<open>
  C14: leases exclude each other.  After the claim statement of a call has leased a job to a worker, whatever
  happens before the lease expires - the sweeps and claims of other workers, statement by statement and with any
  rows locked, their finishing of their own leases, runs being queued and dead letters rearmed - the job is
  handed to nobody else, the claimer still holds it, and its completion is accepted and recorded.
\<close>

theorem lease_exclusive:
  assumes "job_inv rows" and "[] \<notin> set (map job_runId rows)"
    and "claim_guards q input = Inr ()" and "claim_statement t skipped input rows = (Inr (Some job), rows')"
    and "list_all (by_others job t) ops"
  shows "cj_runId job \<notin> set (handed_out q ops rows')
    \<and> fst (markCompleted q now job (run_ops q ops rows')) = Inr ()
    \<and> (\<exists>r \<in> set (snd (markCompleted q now job (run_ops q ops rows'))).
         job_runId r = cj_runId job \<and> job_status_of r = Job_COMPLETED)"
proof -
  note c = leased_row_is_held [OF assms(1,4)]
  have worker: "valid_worker_id (cj_leaseOwner job)" using assms(3) c(2) by (simp add: claim_guards_ok)
  have inv: "job_inv rows'" using io_keepsE [OF job_inv_claim_statement assms(1,4)] .
  note h = held_run_ops [OF inv c(1) assms(5), of q]
  have "cj_runId job \<noteq> []" using c(3) assms(2) by metis
  then have fin: "finishLease q job f (run_ops q ops rows')
      = (Inr (), map (\<lambda>r. if holds_lease job r then f r else r) (run_ops q ops rows'))" for f
    using finish_held [OF run_ops_inv [OF inv]] h c(4) worker by blast
  obtain r where r: "r \<in> set (run_ops q ops rows')" "holds_lease job r" using h by (auto simp: held_since_def)
  let ?f = "completed_row now"
  have "?f r \<in> set (snd (markCompleted q now job (run_ops q ops rows')))"
    unfolding markCompleted_def fin using r by force
  moreover have "job_runId (?f r) = cj_runId job \<and> job_status_of (?f r) = Job_COMPLETED"
    using r(2) by (simp add: completed_row_def released_def holds_lease_def)
  moreover have "fst (markCompleted q now job (run_ops q ops rows')) = Inr ()"
    unfolding markCompleted_def fin by simp
  ultimately show ?thesis using h by blast
qed

text \<open>
  C15: a worker that lost its lease is fenced off: once another worker has claimed the job, every attempt
  of the first one to complete, retry, reschedule or dead-letter it is refused and changes no row.
\<close>

theorem stale_worker_fenced:
  assumes "job_inv rows" and "claimNext q now input rows = (Inr (Some winner), rows')"
    and "cj_runId winner = cj_runId loser" and "cj_leaseOwner winner \<noteq> cj_leaseOwner loser"
  shows "\<not> res_ok (fst (markCompleted q now' loser rows')) \<and> snd (markCompleted q now' loser rows') = rows'
    \<and> \<not> res_ok (fst (markRetry q now' loser d reason rows')) \<and> snd (markRetry q now' loser d reason rows') = rows'
    \<and> \<not> res_ok (fst (markWaiting q now' loser d reason rows')) \<and> snd (markWaiting q now' loser d reason rows') = rows'
    \<and> \<not> res_ok (fst (markDeadLetter q loser reason codes rows'))
    \<and> snd (markDeadLetter q loser reason codes rows') = rows'"
proof -
  note c = claimed_is_held [OF assms(1,2)]
  have inv: "job_inv rows'" using io_keepsE [OF queue_ops_keep_inv(1) assms(1,2)] .
  obtain w where w: "w \<in> set rows'" "holds_lease winner w" using c(1) by (auto simp: held_since_def)
  have "\<not> holds_lease loser r" if r: "r \<in> set rows'" for r
  proof
    assume l: "holds_lease loser r"
    then have "job_runId r = job_runId w" using w(2) assms(3) by (simp add: holds_lease_def)
    then have "r = w" using inj_onD [of job_runId "set rows'" r w] inv r w(1) by (simp add: job_inv_def distinct_map)
    then show False using l w(2) assms(4) by (simp add: holds_lease_def)
  qed
  then have lost: "\<exists>e. finishLease q loser f rows' = (Inl e, rows')" for f using finish_lost by blast
  show ?thesis
    unfolding markCompleted_def markRetry_def markWaiting_def markDeadLetter_def
    by (intro conjI refused_by_finish [OF lost] refused_by_guards [OF lost])
qed

text \<open>
  C16: no job is stranded.  After any history of a queue - runs queued, claims statement by statement,
  completions, waits, dead letters, rearmings, and retries within the budget - every row that is neither completed
  nor dead-lettered has a moment from which it is due, and as many claims as the table has rows, made by any
  workers within five seconds after that, hand it out; or, when it is a lease that ran out on the last allowed
  attempt, leave it as a dead letter.
\<close>

theorem no_job_stranded:
  assumes "list_all (retries_in_budget q) ops" and "rows = run_ops q ops []"
    and "r \<in> set rows" and "unfinished r"
    and "list_all (poll_of r now) ps" and "length rows \<le> length ps"
  shows "if worn_out r
    then \<exists>x \<in> set (run_ops q (polls ps) rows). job_runId x = job_runId r \<and> job_status_of x = Job_DEAD_LETTER
      \<and> job_lastErrorCode x = Some ''STALE_LEASE_ATTEMPTS_EXHAUSTED''
    else job_runId r \<in> set (handed_out q (polls ps) rows)"
proof -
  have "serviceable q []" by (simp add: serviceable_def job_inv_def)
  from serviceable_history [OF assms(1) this] have "serviceable q rows" unfolding assms(2) .
  then have inv: "job_inv rows" and r: "serviceable_row q r" using assms(3) by (auto simp: serviceable_def list_all_iff)
  obtain p ps' where p: "ps = p # ps'" using assms(3,6) by (cases ps) auto
  obtain t input where ti: "p = (t, input)" by (cases p)
  have poll: "poll_of r now (t, input)" using assms(5) p ti by simp
  show ?thesis
  proof (cases "worn_out r")
    case True
    from first_poll_buries [OF inv assms(3) r assms(4) True poll]
    obtain x where x: "x \<in> set (perform q t (Op_claim input) rows)" "job_runId x = job_runId r"
      "job_status_of x = Job_DEAD_LETTER" "job_lastErrorCode x = Some ''STALE_LEASE_ATTEMPTS_EXHAUSTED''" by blast
    from dead_letter_stays_polls [OF x(1,3) perform_keeps_inv [OF inv], of q ps']
    have "x \<in> set (run_ops q (polls ps) rows)" by (simp add: polls_def p ti)
    then show ?thesis using True x by auto
  next
    case False
    have "length (filter (unclaimed_since now) rows) \<le> length ps"
      using length_filter_le [of "unclaimed_since now" rows] assms(6) by linarith
    then show ?thesis using polls_reach [OF assms(5) inv assms(3) r assms(4) False] p False by simp
  qed
qed

text \<open>A concrete table: one job due, one leased by \<open>w2\<close> and gone stale.\<close>

definition demo_jobs :: job_table where
  "demo_jobs = [new_job orchestrator_queue 5000 ''run-1'', (new_job orchestrator_queue 9000 ''run-2'')\<lparr>job_status_of := Job_PROCESSING,
     job_attempts := 1, job_lockedAt := Some 9000, job_lockedBy := Some ''w2''\<rparr>]"

definition demo_claim :: claim_request where
  "demo_claim = \<lparr>cq_workerId = ''w1'', cq_leaseDurationSeconds = 60\<rparr>"

definition demo_job :: "string \<Rightarrow> string \<Rightarrow> claimed_job" where
  "demo_job runId w = \<lparr>cj_runId = runId, cj_attempt = 1, cj_maximumAttempts = 8, cj_leaseOwner = w\<rparr>"

lemma demo_jobs_inv: "job_inv demo_jobs" "[] \<notin> set (map job_runId demo_jobs)"
  by (simp_all add: job_inv_def demo_jobs_def new_job_def job_ok_def)

lemma demo_claimed: "fst (claimNext orchestrator_queue 10000 demo_claim demo_jobs) = Inr (Some (demo_job ''run-1'' ''w1''))"
  "fst (claimNext orchestrator_queue 69500 demo_claim (tl demo_jobs)) = Inr (Some (demo_job ''run-2'' ''w1''))"
  by code_simp+

lemma demo_claim_run:
  "claimNext orchestrator_queue 10000 demo_claim demo_jobs
    = (Inr (Some (demo_job ''run-1'' ''w1'')), snd (claimNext orchestrator_queue 10000 demo_claim demo_jobs))"
  "claimNext orchestrator_queue 69500 demo_claim (tl demo_jobs)
    = (Inr (Some (demo_job ''run-2'' ''w1'')), snd (claimNext orchestrator_queue 69500 demo_claim (tl demo_jobs)))"
  by (simp_all add: prod_eq_iff demo_claimed)

text \<open>The claim statement alone, while another transaction has the row of \<open>run-1\<close> locked and \<open>run-2\<close> has gone stale.\<close>

lemma demo_row_claimed:
  "claim_statement 69500 [''run-1''] demo_claim demo_jobs
    = (Inr (Some (demo_job ''run-2'' ''w1'')), snd (claim_statement 69500 [''run-1''] demo_claim demo_jobs))"
  "claim_guards orchestrator_queue demo_claim = Inr ()"
proof -
  have "fst (claim_statement 69500 [''run-1''] demo_claim demo_jobs) = Inr (Some (demo_job ''run-2'' ''w1''))" by code_simp
  then show "claim_statement 69500 [''run-1''] demo_claim demo_jobs
    = (Inr (Some (demo_job ''run-2'' ''w1'')), snd (claim_statement 69500 [''run-1''] demo_claim demo_jobs))"
    by (simp add: prod_eq_iff)
qed code_simp

theorem lease_exclusive_witness:
  "fst (markCompleted orchestrator_queue 80000 (demo_job ''run-2'' ''w1'') (run_ops orchestrator_queue
      [(70000, Op_sweep \<lparr>cq_workerId = ''w3'', cq_leaseDurationSeconds = 60\<rparr>), (70001, Op_enqueue ''run-3''),
       (70002, Op_claim_row [''run-3''] \<lparr>cq_workerId = ''w3'', cq_leaseDurationSeconds = 60\<rparr>)]
      (snd (claim_statement 69500 [''run-1''] demo_claim demo_jobs)))) = Inr ()"
  using lease_exclusive [OF demo_jobs_inv demo_row_claimed(2,1), of
    "[(70000, Op_sweep \<lparr>cq_workerId = ''w3'', cq_leaseDurationSeconds = 60\<rparr>), (70001, Op_enqueue ''run-3''),
      (70002, Op_claim_row [''run-3''] \<lparr>cq_workerId = ''w3'', cq_leaseDurationSeconds = 60\<rparr>)]" 80000] by simp

theorem stale_worker_fenced_witness:
  "snd (markCompleted orchestrator_queue 70000 (demo_job ''run-2'' ''w2'')
      (snd (claimNext orchestrator_queue 69500 demo_claim (tl demo_jobs))))
    = snd (claimNext orchestrator_queue 69500 demo_claim (tl demo_jobs))"
proof -
  have "job_inv (tl demo_jobs)" by (simp add: job_inv_def demo_jobs_def new_job_def job_ok_def)
  from stale_worker_fenced [OF this demo_claim_run(2), of "demo_job ''run-2'' ''w2''"]
  show ?thesis by (simp add: demo_job_def)
qed

definition demo_history :: "(int \<times> queue_op) list" where
  "demo_history = [(5000, Op_enqueue ''run-1''), (6000, Op_enqueue ''run-2''), (10000, Op_claim demo_claim),
     (11000, Op_retry (demo_job ''run-1'' ''w1'') 5000 ''TRANSIENT_DEPENDENCY_FAILURE'')]"

definition demo_retried :: job_row where
  "demo_retried = (new_job orchestrator_queue 5000 ''run-1'')\<lparr>job_status_of := Job_RETRY_SCHEDULED, job_attempts := 1,
     job_availableAt := 16000, job_lastErrorCode := Some ''TRANSIENT_DEPENDENCY_FAILURE''\<rparr>"

theorem no_job_stranded_witness:
  "''run-1'' \<in> set (handed_out orchestrator_queue (polls [(16000, demo_claim), (16500, demo_claim)])
     (run_ops orchestrator_queue demo_history []))"
proof -
  have h: "list_all (retries_in_budget orchestrator_queue) demo_history" by code_simp
  have r: "demo_retried \<in> set (run_ops orchestrator_queue demo_history [])" by code_simp
  have u: "unfinished demo_retried" and w: "\<not> worn_out demo_retried" by code_simp+
  have p: "list_all (poll_of demo_retried 16000) [(16000, demo_claim), (16500, demo_claim)]" by code_simp
  have l: "length (run_ops orchestrator_queue demo_history []) \<le> length [(16000 :: int, demo_claim), (16500, demo_claim)]"
    by code_simp
  have "job_runId demo_retried = ''run-1''" by (simp add: demo_retried_def new_job_def)
  then show ?thesis using no_job_stranded [OF h refl r u p l] w by simp
qed

text \<open>
  A lease that expires is taken over without counting an attempt, so a job that kills its worker every
  time is handed out forever: its attempt number never grows and the sweep never sees it exhausted.
\<close>

lemma crash_loop_never_exhausts:
  assumes "lease_expired now secs r" and "job_attempts r < job_maximumAttempts r"
  shows "job_attempts (take_lease now w (sweep_exhausted now secs r)) = job_attempts r"
    and "job_status_of (take_lease now w (sweep_exhausted now secs r)) = Job_PROCESSING"
  using assms by (auto simp: take_lease_def sweep_exhausted_def lease_expired_def)

end
