(* ===== verification/Run_Store.thy ===== *)
theory Run_Store
  imports Run_State Merchant_Order Quote Job_Queue
begin

text \<open>
  The tables behind a run and the transactions that change them
  (\<open>packages/persistence-postgres/src/api-repositories.ts\<close>, \<open>payment-reconciliation-store.ts\<close>).  A
  transaction is a function on the tables that restores them when it throws; guarded updates count the
  rows they match.  Timestamps are kept as the ISO text they are read back as, \<open>bytea\<close> columns as the
  lower-case text they are read back as.  Constraints implied by the ones modelled are left out.
\<close>

section \<open>Tables\<close>

record run_row =
  rr_id :: string
  rr_quoteId :: string
  rr_requestIdempotencyKey :: string
  rr_status :: run_status
  rr_result :: "run_result option"
  rr_revision :: int
  rr_createdAt :: string
  rr_updatedAt :: string
  rr_customerPaymentAtomic :: "nat option"
  rr_customerPaymentProofHash :: "string option"

record order_row =
  or_runId :: string
  or_status :: order_status
  or_snapshot :: json

record verified_payment =
  vp_runId :: string
  vp_order :: merchant_order
  vp_proof :: payment_proof
  vp_receipt :: chain_receipt
  vp_proofHash :: string
  vp_verifiedAt :: string

record receipt_row =
  rc_runId :: string
  rc_orderId :: string
  rc_chainId :: int
  rc_token :: string
  rc_payer :: string
  rc_recipient :: string
  rc_atomicAmount :: nat
  rc_transactionHash :: string
  rc_logIndex :: int
  rc_proofHash :: string
  rc_payload :: "payment_proof \<times> chain_receipt"
  rc_verifiedAt :: string

record database =
  db_now :: int
  db_quotes :: "quote list"
  db_runs :: "run_row list"
  db_events :: "run_transitioned_event list"
  db_orders :: "order_row list"
  db_receipts :: "receipt_row list"
  db_outbox :: "run_transitioned_event list"
  db_paymentJobs :: job_table
  db_orchestratorJobs :: job_table

section \<open>Statements\<close>

text \<open>Writing a timestamp, a numeric and a \<open>bytea\<close> column of \<open>n\<close> bytes; PostgreSQL refuses other values.\<close>

definition pg_time :: "string \<Rightarrow> string res" where
  "pg_time s = (case date_parse s of None \<Rightarrow> Inl (Js_error ''invalid input syntax for type timestamp'')
     | Some t \<Rightarrow> Inr (to_iso_string t))"

definition pg_positive_numeric :: "string \<Rightarrow> nat res" where
  "pg_positive_numeric s = (if s \<noteq> [] \<and> list_all is_digit s \<and> 0 < dec_value s then Inr (dec_value s)
     else Inl (Js_error ''invalid numeric value''))"

definition hexToBuffer :: "nat \<Rightarrow> string \<Rightarrow> string res" where
  "hexToBuffer n s = (if is_hex_bytes n s then Inr (to_lower s) else Inl (Js_error ''invalid bytea length''))"

definition duplicate_key :: exn where
  "duplicate_key = Js_error ''duplicate key value violates unique constraint''"

definition transaction :: "('w, 'a) io \<Rightarrow> ('w, 'a) io" where
  "transaction m = (\<lambda>w. case m w of (Inl e, _) \<Rightarrow> (Inl e, w) | (Inr a, w') \<Rightarrow> (Inr a, w'))"

definition update_runs :: "(run_row \<Rightarrow> bool) \<Rightarrow> (run_row \<Rightarrow> run_row) \<Rightarrow> string \<Rightarrow> (database, unit) io" where
  "update_runs guard f conflict =
    io_bind (io_get (\<lambda>db. length (filter guard (db_runs db)))) (\<lambda>rowCount.
    io_then (io_modify (\<lambda>db. db\<lparr>db_runs := map (\<lambda>r. if guard r then f r else r) (db_runs db)\<rparr>))
    (io_lift (ensure (rowCount = 1) (Js_error conflict))))"

definition insert_event :: "run_transitioned_event \<Rightarrow> (database, unit) io" where
  "insert_event ev =
    io_then (io_lift (pg_time (ev_occurredAt ev)))
    (io_bind (io_get (\<lambda>db. list_all (\<lambda>e. \<not> (ev_runId e = ev_runId ev
        \<and> (ev_revision e = ev_revision ev \<or> ev_idempotencyKey e = ev_idempotencyKey ev))) (db_events db))) (\<lambda>free.
     io_then (io_lift (ensure free duplicate_key))
     (io_modify (\<lambda>db. db\<lparr>db_events := db_events db @ [ev]\<rparr>))))"

definition insert_outbox :: "run_transitioned_event \<Rightarrow> (database, unit) io" where
  "insert_outbox ev = io_modify (\<lambda>db. db\<lparr>db_outbox := db_outbox db @ [ev]\<rparr>)"

section \<open>The run repository\<close>

record run_record =
  rec_aggregate :: run_aggregate
  rec_quoteId :: string
  rec_requestIdempotencyKey :: string
  rec_paymentOrder :: "merchant_order option"
  rec_uncommittedEvent :: "run_transitioned_event option"
  rec_customerPaymentProofHash :: "string option"
  rec_customerPaymentAtomic :: "string option"
  rec_customerPaymentTransactionHash :: "string option"
  rec_customerPaymentChainId :: "int option"

definition insertRun :: "run_record \<Rightarrow> (database, unit) io" where
  "insertRun r =
    io_bind (io_get (\<lambda>db. rec_quoteId r \<in> set (map q_id (db_quotes db)))) (\<lambda>bound.
    io_then (io_lift (ensure bound (Js_error ''Run quote binding does not exist'')))
    (io_bind (io_lift (pg_time (run_createdAt (rec_aggregate r)))) (\<lambda>created.
    io_bind (io_lift (pg_time (run_updatedAt (rec_aggregate r)))) (\<lambda>updated.
    io_bind (io_get (\<lambda>db. list_all (\<lambda>x. rr_id x \<noteq> run_id (rec_aggregate r)
       \<and> rr_requestIdempotencyKey x \<noteq> rec_requestIdempotencyKey r) (db_runs db))) (\<lambda>free.
    io_then (io_lift (ensure free duplicate_key))
    (io_modify (\<lambda>db. db\<lparr>db_runs := db_runs db @ [\<lparr>rr_id = run_id (rec_aggregate r), rr_quoteId = rec_quoteId r,
       rr_requestIdempotencyKey = rec_requestIdempotencyKey r, rr_status = run_status_of (rec_aggregate r),
       rr_result = run_result_of (rec_aggregate r), rr_revision = run_revision (rec_aggregate r),
       rr_createdAt = created, rr_updatedAt = updated, rr_customerPaymentAtomic = None,
       rr_customerPaymentProofHash = None\<rparr>]\<rparr>)))))))"

definition insertEventAndOutbox :: "run_transitioned_event \<Rightarrow> (database, unit) io" where
  "insertEventAndOutbox ev =
    io_then (insert_event ev)
    (io_then (insert_outbox ev)
    (io_when (ev_to ev = PAYMENT_REQUIRED)
      (io_modify (\<lambda>db. db\<lparr>db_paymentJobs := enqueue_job payment_queue (db_now db) (ev_runId ev) (db_paymentJobs db)\<rparr>))))"

definition save_run :: "run_record \<Rightarrow> int option \<Rightarrow> (database, unit) io" where
  "save_run r expectedPersistedRevision =
    (case rec_uncommittedEvent r of
       None \<Rightarrow> io_throw (Js_error ''PostgreSQL run save requires its uncommitted domain event'')
     | Some ev \<Rightarrow>
        if ev_runId ev \<noteq> run_id (rec_aggregate r) \<or> ev_revision ev \<noteq> run_revision (rec_aggregate r)
        then io_throw (Js_error ''Run aggregate and uncommitted event are not revision-aligned'')
        else transaction (io_then
          (case expectedPersistedRevision of
             None \<Rightarrow> insertRun r
           | Some expected \<Rightarrow>
              io_bind (io_lift (pg_time (run_updatedAt (rec_aggregate r)))) (\<lambda>updated.
              update_runs (\<lambda>x. rr_id x = run_id (rec_aggregate r) \<and> rr_revision x = expected)
                (\<lambda>x. x\<lparr>rr_status := run_status_of (rec_aggregate r), rr_result := run_result_of (rec_aggregate r),
                   rr_revision := run_revision (rec_aggregate r), rr_updatedAt := updated\<rparr>)
                ''Run persistence revision conflict''))
          (insertEventAndOutbox ev)))"

text \<open>\<open>ORDER BY e.revision\<close>, and the aggregate a row is read as.\<close>

definition run_events :: "database \<Rightarrow> string \<Rightarrow> run_transitioned_event list" where
  "run_events db runId = sort_key ev_revision (filter (\<lambda>e. ev_runId e = runId) (db_events db))"

definition parseRun :: "database \<Rightarrow> run_row \<Rightarrow> run_aggregate" where
  "parseRun db r = \<lparr>run_id = rr_id r, run_status_of = rr_status r, run_result_of = rr_result r,
     run_revision = rr_revision r, run_createdAt = rr_createdAt r, run_updatedAt = rr_updatedAt r,
     run_appliedIdempotencyKeys = map ev_idempotencyKey (run_events db (rr_id r))\<rparr>"

definition record_of_row :: "platform \<Rightarrow> (string \<Rightarrow> bool) \<Rightarrow> database \<Rightarrow> run_row \<Rightarrow> run_record res" where
  "record_of_row P datetime db r =
    res_bind (case find (\<lambda>o'. or_runId o' = rr_id r) (db_orders db) of
        None \<Rightarrow> Inr None
      | Some o' \<Rightarrow> res_bind (parseMerchantOrderSnapshot P datetime (or_snapshot o')) (\<lambda>x. Inr (Some x))) (\<lambda>paymentOrder.
    let receipt = find (\<lambda>rc. rc_runId rc = rr_id r) (db_receipts db) in
    Inr \<lparr>rec_aggregate = parseRun db r, rec_quoteId = rr_quoteId r,
      rec_requestIdempotencyKey = rr_requestIdempotencyKey r, rec_paymentOrder = paymentOrder,
      rec_uncommittedEvent = None, rec_customerPaymentProofHash = rr_customerPaymentProofHash r,
      rec_customerPaymentAtomic = map_option nat_to_string (rr_customerPaymentAtomic r),
      rec_customerPaymentTransactionHash = map_option rc_transactionHash receipt,
      rec_customerPaymentChainId = map_option rc_chainId receipt\<rparr>)"

definition find_run :: "platform \<Rightarrow> (string \<Rightarrow> bool) \<Rightarrow> (run_row \<Rightarrow> bool) \<Rightarrow> (database, run_record option) io" where
  "find_run P datetime predicate =
    io_bind (io_get (\<lambda>db. db)) (\<lambda>db.
    case find predicate (db_runs db) of None \<Rightarrow> io_ret None
    | Some row \<Rightarrow> io_lift (res_bind (record_of_row P datetime db row) (\<lambda>r. Inr (Some r))))"

definition findRunById :: "platform \<Rightarrow> (string \<Rightarrow> bool) \<Rightarrow> string \<Rightarrow> (database, run_record option) io" where
  "findRunById P datetime runId = find_run P datetime (\<lambda>r. rr_id r = runId)"

definition findByRequestIdempotencyKey ::
  "platform \<Rightarrow> (string \<Rightarrow> bool) \<Rightarrow> string \<Rightarrow> (database, run_record option) io" where
  "findByRequestIdempotencyKey P datetime key = find_run P datetime (\<lambda>r. rr_requestIdempotencyKey r = key)"

section \<open>The reconciliation store\<close>

record fundable_run =
  fr_run :: run_aggregate
  fr_quote :: quote
  fr_paymentOrder :: merchant_order
  fr_customerPaymentProofHash :: "string option"
  fr_customerPayment :: "verified_payment option"

datatype expiry_reason = QUOTE_EXPIRED | ORDER_EXPIRED

record expirable_run =
  er_run :: run_aggregate
  er_deadline :: string
  er_reason :: expiry_reason

definition receipt_row_of :: "verified_payment \<Rightarrow> receipt_row res" where
  "receipt_row_of p =
    res_bind (hexToBuffer 20 (mo_tokenAddress (vp_order p))) (\<lambda>token.
    res_bind (hexToBuffer 20 (mp_fromAddress (vp_proof p))) (\<lambda>payer.
    res_bind (hexToBuffer 20 (mp_toAddress (vp_proof p))) (\<lambda>recipient.
    res_bind (pg_positive_numeric (mp_atomicAmount (vp_proof p))) (\<lambda>amount.
    res_bind (hexToBuffer 32 (mp_transactionHash (vp_proof p))) (\<lambda>transactionHash.
    res_bind (ensure (0 \<le> mp_logIndex (vp_proof p)) (Js_error ''check constraint log_index'')) (\<lambda>_.
    res_bind (hexToBuffer 32 (vp_proofHash p)) (\<lambda>proofHash.
    res_bind (pg_time (vp_verifiedAt p)) (\<lambda>verifiedAt.
    Inr \<lparr>rc_runId = vp_runId p, rc_orderId = mp_orderId (vp_proof p), rc_chainId = mp_chainId (vp_proof p),
      rc_token = token, rc_payer = payer, rc_recipient = recipient, rc_atomicAmount = amount,
      rc_transactionHash = transactionHash, rc_logIndex = mp_logIndex (vp_proof p), rc_proofHash = proofHash,
      rc_payload = (vp_proof p, vp_receipt p), rc_verifiedAt = verifiedAt\<rparr>))))))))"

text \<open>The unique indexes of \<open>payment_receipts\<close>.\<close>

definition transfer_key :: "receipt_row \<Rightarrow> int \<times> string \<times> int" where
  "transfer_key r = (rc_chainId r, rc_transactionHash r, rc_logIndex r)"

definition receipts_clash :: "receipt_row \<Rightarrow> receipt_row \<Rightarrow> bool" where
  "receipts_clash a b \<longleftrightarrow> rc_runId a = rc_runId b \<or> rc_proofHash a = rc_proofHash b \<or> transfer_key a = transfer_key b"

definition insertReceipt :: "verified_payment \<Rightarrow> (database, unit) io" where
  "insertReceipt p =
    io_bind (io_lift (receipt_row_of p)) (\<lambda>row.
    io_bind (io_get (\<lambda>db. list_all (\<lambda>x. \<not> receipts_clash row x) (db_receipts db))) (\<lambda>free.
    io_then (io_lift (ensure free duplicate_key))
    (io_modify (\<lambda>db. db\<lparr>db_receipts := db_receipts db @ [row]\<rparr>))))"

definition commitExpiredRun :: "int \<Rightarrow> run_aggregate \<Rightarrow> run_transitioned_event \<Rightarrow> (database, unit) io" where
  "commitExpiredRun previousRevision run ev = transaction
    (io_bind (io_lift (pg_time (run_updatedAt run))) (\<lambda>updated.
     io_then (update_runs (\<lambda>r. rr_id r = run_id run \<and> rr_revision r = previousRevision
         \<and> rr_status r \<in> {DRAFT, QUOTED, PAYMENT_REQUIRED})
       (\<lambda>r. r\<lparr>rr_status := EXPIRED, rr_revision := run_revision run, rr_updatedAt := updated\<rparr>)
       ''Run revision conflict while expiring an unpaid run'')
     (io_then (insert_event ev) (insert_outbox ev))))"

definition write_order :: "string \<Rightarrow> merchant_order \<Rightarrow> order_row \<Rightarrow> order_row" where
  "write_order runId order r =
    (if or_runId r = runId
     then r\<lparr>or_status := mo_status order, or_snapshot := write_back_order (or_snapshot r) order\<rparr> else r)"

definition commitFundedRun ::
  "int \<Rightarrow> run_aggregate \<Rightarrow> run_transitioned_event \<Rightarrow> verified_payment \<Rightarrow> (database, unit) io" where
  "commitFundedRun previousRevision run ev payment = transaction
    (io_then (insertReceipt payment)
    (io_bind (io_lift (pg_positive_numeric (mp_atomicAmount (vp_proof payment)))) (\<lambda>amount.
     io_bind (io_lift (hexToBuffer 32 (vp_proofHash payment))) (\<lambda>proofHash.
     io_bind (io_lift (pg_time (run_updatedAt run))) (\<lambda>updated.
     io_then (update_runs (\<lambda>r. rr_id r = run_id run \<and> rr_revision r = previousRevision \<and> rr_status r = PAYMENT_REQUIRED)
       (\<lambda>r. r\<lparr>rr_status := FUNDED, rr_revision := run_revision run, rr_customerPaymentAtomic := Some amount,
          rr_customerPaymentProofHash := Some proofHash, rr_updatedAt := updated\<rparr>)
       ''Run revision conflict while committing customer payment'')
     (io_then (io_modify (\<lambda>db. db\<lparr>db_orders := map (write_order (run_id run) (vp_order payment)) (db_orders db)\<rparr>))
     (io_then (insert_event ev)
     (io_then (insert_outbox ev)
     (io_modify (\<lambda>db. db\<lparr>db_orchestratorJobs :=
        enqueue_job orchestrator_queue (db_now db) (run_id run) (db_orchestratorJobs db)\<rparr>))))))))))"

text \<open>The schema of the stored payload, and the checks of the payload against the indexed columns.\<close>

definition is_hex_data :: "string \<Rightarrow> bool" where
  "is_hex_data s \<longleftrightarrow> take 2 s = ''0x'' \<and> list_all is_hex_digit (drop 2 s)"

definition stored_log_ok :: "chain_log \<Rightarrow> bool" where
  "stored_log_ok l \<longleftrightarrow> is_address (cl_address l) \<and> list_all is_hex_data (cl_topics l) \<and> is_hex_data (cl_data l)
    \<and> 0 \<le> cl_index l"

definition persistedPaymentPayload_ok :: "payment_proof \<Rightarrow> chain_receipt \<Rightarrow> bool" where
  "persistedPaymentPayload_ok p r \<longleftrightarrow>
    mp_orderId p \<noteq> [] \<and> is_bytes32 (mp_transactionHash p) \<and> 0 \<le> mp_logIndex p \<and> is_address (mp_fromAddress p)
    \<and> is_address (mp_toAddress p) \<and> is_atomic (mp_atomicAmount p) \<and> 0 < mp_chainId p
    \<and> (case mp_providerDigest p of None \<Rightarrow> True | Some d \<Rightarrow> is_bytes32 d)
    \<and> 0 < cr_chainId r \<and> is_bytes32 (cr_transactionHash r) \<and> (cr_status r = 0 \<or> cr_status r = 1)
    \<and> list_all stored_log_ok (cr_logs r)"

definition parseCustomerPayment :: "receipt_row \<Rightarrow> merchant_order \<Rightarrow> verified_payment res" where
  "parseCustomerPayment row order =
    (let p = fst (rc_payload row); r = snd (rc_payload row) in
     if \<not> persistedPaymentPayload_ok p r then Inl (Zod_error [''providerPayload''])
     else if mp_orderId p \<noteq> rc_orderId row \<or> mp_chainId p \<noteq> rc_chainId row
       \<or> to_lower (mp_transactionHash p) \<noteq> rc_transactionHash row \<or> mp_logIndex p \<noteq> rc_logIndex row
       \<or> to_lower (mp_fromAddress p) \<noteq> rc_payer row \<or> to_lower (mp_toAddress p) \<noteq> rc_recipient row
       \<or> mp_atomicAmount p \<noteq> nat_to_string (rc_atomicAmount row)
       \<or> cr_chainId r \<noteq> mp_chainId p \<or> to_lower (cr_transactionHash r) \<noteq> rc_transactionHash row
     then Inl (Js_error ''Stored customer payment payload conflicts with indexed receipt columns'')
     else Inr \<lparr>vp_runId = rc_runId row, vp_order = order, vp_proof = p, vp_receipt = r,
       vp_proofHash = rc_proofHash row, vp_verifiedAt = rc_verifiedAt row\<rparr>)"

text \<open>What the reconciler reads of a capability snapshot; the quote schema refuses a snapshot without it.\<close>

definition quote_terms :: "quote \<Rightarrow> (int \<times> string \<times> string) option" where
  "quote_terms q =
    (case (json_int_of (json_get (q_capabilitySnapshot q) ''chainId''),
       json_string_of (json_get (q_capabilitySnapshot q) ''tokenAddress''),
       json_string_of (json_get (q_capabilitySnapshot q) ''receivingAddress'')) of
       (Some chainId, Some token, Some recipient) \<Rightarrow> Some (chainId, token, recipient)
     | _ \<Rightarrow> None)"

definition loadFundableRun ::
  "platform \<Rightarrow> (string \<Rightarrow> bool) \<Rightarrow> string \<Rightarrow> (database, fundable_run option) io" where
  "loadFundableRun P datetime runId =
    io_bind (io_get (\<lambda>db. db)) (\<lambda>db.
    case find (\<lambda>r. rr_id r = runId) (db_runs db) of None \<Rightarrow> io_ret None
    | Some row \<Rightarrow>
      (case (find (\<lambda>q. q_id q = rr_quoteId row) (db_quotes db), find (\<lambda>o'. or_runId o' = runId) (db_orders db)) of
         (Some quote, Some order) \<Rightarrow>
           io_bind (io_lift (parseMerchantOrderSnapshot P datetime (or_snapshot order))) (\<lambda>paymentOrder.
           io_bind (io_lift (case find (\<lambda>rc. rc_runId rc = runId) (db_receipts db) of
               None \<Rightarrow> Inr None
             | Some rc \<Rightarrow> res_bind (parseCustomerPayment rc paymentOrder) (\<lambda>p. Inr (Some p)))) (\<lambda>customerPayment.
           io_then (io_lift (ensure (quote_terms quote \<noteq> None) (Zod_error [''capabilitySnapshot''])))
           (io_ret (Some \<lparr>fr_run = parseRun db row, fr_quote = quote\<lparr>q_targetChainId := None\<rparr>,
             fr_paymentOrder = paymentOrder, fr_customerPaymentProofHash = rr_customerPaymentProofHash row,
             fr_customerPayment = customerPayment\<rparr>))))
       | _ \<Rightarrow> io_ret None))"

text \<open>The order's deadline wins over the quote's; \<open>->>\<close> reads the text of a member of either shape.\<close>

definition snapshot_deadline :: "json \<Rightarrow> string option" where
  "snapshot_deadline v =
    (case json_string_of (Option.bind (json_get v ''order'') (\<lambda>o'. json_get o' ''expiresAt'')) of
       Some d \<Rightarrow> Some d | None \<Rightarrow> json_string_of (json_get v ''expiresAt''))"

definition run_deadline :: "database \<Rightarrow> run_row \<Rightarrow> (string \<times> expiry_reason) option" where
  "run_deadline db r =
    (case find (\<lambda>q. q_id q = rr_quoteId r) (db_quotes db) of None \<Rightarrow> None
     | Some q \<Rightarrow>
       (case find (\<lambda>o'. or_runId o' = rr_id r) (db_orders db) of
          None \<Rightarrow> Some (q_expiresAt q, QUOTE_EXPIRED)
        | Some o' \<Rightarrow> Some (case snapshot_deadline (or_snapshot o') of None \<Rightarrow> q_expiresAt q | Some d \<Rightarrow> d, ORDER_EXPIRED)))"

definition past_deadline :: "int \<Rightarrow> database \<Rightarrow> run_row \<Rightarrow> bool" where
  "past_deadline now db r \<longleftrightarrow> rr_status r \<in> {DRAFT, QUOTED, PAYMENT_REQUIRED}
    \<and> (case run_deadline db r of None \<Rightarrow> False
       | Some (d, _) \<Rightarrow> (case date_parse d of None \<Rightarrow> False | Some t \<Rightarrow> t < now))"

definition findRunsPastPaymentDeadline :: "int \<Rightarrow> nat \<Rightarrow> (database, expirable_run list) io" where
  "findRunsPastPaymentDeadline now limit = io_get (\<lambda>db.
    map (\<lambda>r. \<lparr>er_run = parseRun db r,
        er_deadline = (case run_deadline db r of Some (d, _) \<Rightarrow> (case pg_time d of Inr t \<Rightarrow> t | Inl _ \<Rightarrow> d) | None \<Rightarrow> []),
        er_reason = (case run_deadline db r of Some (_, why) \<Rightarrow> why | None \<Rightarrow> QUOTE_EXPIRED)\<rparr>)
      (take limit (sort_key (\<lambda>r. case date_parse (rr_createdAt r) of Some t \<Rightarrow> t | None \<Rightarrow> 0)
        (filter (past_deadline now db) (db_runs db)))))"

section \<open>The service\<close>

text \<open>
  \<open>service seen db\<close>: the tables the writers of the program can produce, with the aggregates they have
  read or written so far.  A writer may hold an aggregate read long ago; what it commits is that
  aggregate's successor under the state machine, guarded by the revision it read.  Only the reconciler
  funds; the API and the orchestrator save.  \<open>other\<close> is everything that leaves runs, events and receipts
  alone (orders, quotes, jobs, the clock).
\<close>

definition canonical_time :: "string \<Rightarrow> bool" where "canonical_time s \<longleftrightarrow> pg_time s = Inr s"

inductive service :: "run_aggregate set \<Rightarrow> database \<Rightarrow> bool" where
  empty: "db_runs db = [] \<Longrightarrow> db_events db = [] \<Longrightarrow> db_receipts db = [] \<Longrightarrow> service {} db"
| create: "service S db \<Longrightarrow> createDraftRun runId now = Inr draft \<Longrightarrow> canonical_time now \<Longrightarrow>
    transitionRun draft c = Inr r \<Longrightarrow> tr_event r = Some ev \<Longrightarrow> canonical_time (cmd_occurredAt c) \<Longrightarrow>
    rec_aggregate rec = tr_run r \<Longrightarrow> rec_uncommittedEvent rec = Some ev \<Longrightarrow>
    save_run rec None db = (Inr (), db') \<Longrightarrow> service (insert (tr_run r) S) db'"
| save: "service S db \<Longrightarrow> run \<in> S \<Longrightarrow> transitionRun run c = Inr r \<Longrightarrow> tr_event r = Some ev \<Longrightarrow>
    canonical_time (cmd_occurredAt c) \<Longrightarrow> cmd_actor c \<noteq> PAYMENT_RECONCILER \<Longrightarrow>
    rec_aggregate rec = tr_run r \<Longrightarrow> rec_uncommittedEvent rec = Some ev \<Longrightarrow>
    save_run rec (Some (run_revision run)) db = (Inr (), db') \<Longrightarrow> service (insert (tr_run r) S) db'"
| fund: "service S db \<Longrightarrow> run \<in> S \<Longrightarrow> transitionRun run c = Inr r \<Longrightarrow> tr_event r = Some ev \<Longrightarrow>
    canonical_time (cmd_occurredAt c) \<Longrightarrow> cmd_to c = FUNDED \<Longrightarrow> vp_runId payment = run_id run \<Longrightarrow>
    commitFundedRun (run_revision run) (tr_run r) ev payment db = (Inr (), db') \<Longrightarrow>
    service (insert (tr_run r) S) db'"
| expire: "service S db \<Longrightarrow> run \<in> S \<Longrightarrow> transitionRun run c = Inr r \<Longrightarrow> tr_event r = Some ev \<Longrightarrow>
    canonical_time (cmd_occurredAt c) \<Longrightarrow> cmd_to c = EXPIRED \<Longrightarrow>
    commitExpiredRun (run_revision run) (tr_run r) ev db = (Inr (), db') \<Longrightarrow> service (insert (tr_run r) S) db'"
| read: "service S db \<Longrightarrow> row \<in> set (db_runs db) \<Longrightarrow> service (insert (parseRun db row) S) db"
| other: "service S db \<Longrightarrow> db_runs db' = db_runs db \<Longrightarrow> db_events db' = db_events db \<Longrightarrow>
    db_receipts db' = db_receipts db \<Longrightarrow> service S db'"

section \<open>The invariant of the service\<close>

definition receipts_distinct :: "receipt_row list \<Rightarrow> bool" where
  "receipts_distinct rs \<longleftrightarrow> distinct (map rc_runId rs) \<and> distinct (map rc_proofHash rs) \<and> distinct (map transfer_key rs)"

definition store_inv :: "run_aggregate set \<Rightarrow> database \<Rightarrow> bool" where
  "store_inv S db \<longleftrightarrow>
    distinct (map rr_id (db_runs db))
    \<and> (\<forall>row \<in> set (db_runs db). run_history (run_events db (rr_id row)) (parseRun db row))
    \<and> (\<forall>run \<in> S. \<exists>row \<in> set (db_runs db). rr_id row = run_id run \<and> run_revision run \<le> rr_revision row
         \<and> (run_revision run = rr_revision row \<longrightarrow> parseRun db row = run))
    \<and> (\<forall>row \<in> set (db_runs db). is_paid (rr_status row) \<longleftrightarrow> rr_id row \<in> rc_runId ` set (db_receipts db))
    \<and> receipts_distinct (db_receipts db)
    \<and> ev_runId ` set (db_events db) \<subseteq> rr_id ` set (db_runs db)
    \<and> rc_runId ` set (db_receipts db) \<subseteq> rr_id ` set (db_runs db)"

lemma store_invD:
  assumes "store_inv S db"
  shows "distinct (map rr_id (db_runs db))"
    and "row \<in> set (db_runs db) \<Longrightarrow> run_history (run_events db (rr_id row)) (parseRun db row)"
    and "run \<in> S \<Longrightarrow> \<exists>row \<in> set (db_runs db). rr_id row = run_id run \<and> run_revision run \<le> rr_revision row
         \<and> (run_revision run = rr_revision row \<longrightarrow> parseRun db row = run)"
    and "row \<in> set (db_runs db) \<Longrightarrow> is_paid (rr_status row) \<longleftrightarrow> rr_id row \<in> rc_runId ` set (db_receipts db)"
    and "receipts_distinct (db_receipts db)"
    and "ev_runId ` set (db_events db) \<subseteq> rr_id ` set (db_runs db)"
    and "rc_runId ` set (db_receipts db) \<subseteq> rr_id ` set (db_runs db)"
proof -
  note d = assms [unfolded store_inv_def]
  show "distinct (map rr_id (db_runs db))" using d by (rule conjunct1)
  note d = conjunct2 [OF d]
  show "row \<in> set (db_runs db) \<Longrightarrow> run_history (run_events db (rr_id row)) (parseRun db row)"
    by (rule bspec [OF conjunct1 [OF d]])
  note d = conjunct2 [OF d]
  show "run \<in> S \<Longrightarrow> \<exists>row \<in> set (db_runs db). rr_id row = run_id run \<and> run_revision run \<le> rr_revision row
         \<and> (run_revision run = rr_revision row \<longrightarrow> parseRun db row = run)"
    by (rule bspec [OF conjunct1 [OF d]])
  note d = conjunct2 [OF d]
  show "row \<in> set (db_runs db) \<Longrightarrow> is_paid (rr_status row) \<longleftrightarrow> rr_id row \<in> rc_runId ` set (db_receipts db)"
    by (rule bspec [OF conjunct1 [OF d]])
  note d = conjunct2 [OF d]
  show "receipts_distinct (db_receipts db)" using d by (rule conjunct1)
  note d = conjunct2 [OF d]
  show "ev_runId ` set (db_events db) \<subseteq> rr_id ` set (db_runs db)" using d by (rule conjunct1)
  show "rc_runId ` set (db_receipts db) \<subseteq> rr_id ` set (db_runs db)" using d by (rule conjunct2)
qed

lemma same_row: "distinct (map rr_id rows) \<Longrightarrow> x \<in> set rows \<Longrightarrow> y \<in> set rows \<Longrightarrow> rr_id x = rr_id y \<Longrightarrow> x = y"
  using inj_onD [of rr_id "set rows" x y] by (simp add: distinct_map)

lemma insort_key_last: "f a < (f x :: int) \<Longrightarrow> insort_key f a (ys @ [x]) = insort_key f a ys @ [x]"
  by (induction ys) auto

lemma sort_key_last: "\<forall>y \<in> set xs. f y < (f x :: int) \<Longrightarrow> sort_key f (xs @ [x]) = sort_key f xs @ [x]"
  by (induction xs) (simp_all add: insort_key_last)

lemma set_run_events [simp]: "set (run_events db i) = {e \<in> set (db_events db). ev_runId e = i}"
  by (auto simp: run_events_def)

lemma run_events_other:
  "db_events db' = db_events db @ [ev] \<Longrightarrow> ev_runId ev \<noteq> i \<Longrightarrow> run_events db' i = run_events db i"
  by (simp add: run_events_def)

lemma run_events_own:
  assumes "db_events db' = db_events db @ [ev]" and "ev_runId ev = i"
    and "\<forall>e \<in> set (run_events db i). ev_revision e < ev_revision ev"
  shows "run_events db' i = run_events db i @ [ev]"
  using assms(3) by (simp add: run_events_def assms(1,2) sort_key_last)

lemma history_revisions:
  assumes "run_history evs run" and "e \<in> set evs"
  shows "ev_revision e \<le> run_revision run"
proof -
  have inv: "run_inv evs run" using assms(1) by (rule run_history_inv)
  have "ev_revision e \<in> set (map ev_revision evs)" using assms(2) by simp
  moreover have "map ev_revision evs = map (\<lambda>i. int i + 1) [0..<length evs]" using inv by (simp add: run_inv_def)
  ultimately have "ev_revision e \<in> set (map (\<lambda>i. int i + 1) [0..<length evs])" by (simp only:)
  then show ?thesis using inv by (auto simp: run_inv_def)
qed

lemma transition_facts:
  assumes "transitionRun run c = Inr r" and "tr_event r = Some ev"
  shows "ev_runId ev = run_id run" and "ev_revision ev = run_revision run + 1" and "ev_to ev = cmd_to c"
    and "ev_idempotencyKey ev = cmd_idempotencyKey c" and "ev_occurredAt ev = cmd_occurredAt c"
    and "rule_allows (run_status_of run) (cmd_to c) (cmd_actor c)"
    and "tr_run r = run\<lparr>run_status_of := cmd_to c, run_result_of := (case resultForTerminalStatus (cmd_to c) of
        None \<Rightarrow> run_result_of run | Some x \<Rightarrow> Some x), run_revision := run_revision run + 1,
        run_updatedAt := cmd_occurredAt c,
        run_appliedIdempotencyKeys := run_appliedIdempotencyKeys run @ [cmd_idempotencyKey c]\<rparr>"
proof -
  have "transitionRun run c = Inr r \<and> tr_event r \<noteq> None" using assms by simp
  note f = this [unfolded transitionRun_applied_iff]
  then show "tr_run r = run\<lparr>run_status_of := cmd_to c, run_result_of := (case resultForTerminalStatus (cmd_to c) of
        None \<Rightarrow> run_result_of run | Some x \<Rightarrow> Some x), run_revision := run_revision run + 1,
        run_updatedAt := cmd_occurredAt c,
        run_appliedIdempotencyKeys := run_appliedIdempotencyKeys run @ [cmd_idempotencyKey c]\<rparr>"
    "rule_allows (run_status_of run) (cmd_to c) (cmd_actor c)" by simp_all
  show "ev_runId ev = run_id run" "ev_revision ev = run_revision run + 1" "ev_to ev = cmd_to c"
    "ev_idempotencyKey ev = cmd_idempotencyKey c" "ev_occurredAt ev = cmd_occurredAt c"
    using f assms(2) by auto
qed

text \<open>How one accepted command may change the receipts: not at all, or by the receipt that pays the run.\<close>

definition receipts_follow :: "run_aggregate \<Rightarrow> run_status \<Rightarrow> receipt_row list \<Rightarrow> receipt_row list \<Rightarrow> bool" where
  "receipts_follow run to old new \<longleftrightarrow>
    (new = old \<and> is_paid to = is_paid (run_status_of run))
    \<or> (\<exists>rc. new = old @ [rc] \<and> rc_runId rc = run_id run \<and> is_paid to \<and> list_all (\<lambda>x. \<not> receipts_clash rc x) old)"

lemma receipts_follow_distinct:
  "receipts_follow run to old new \<Longrightarrow> receipts_distinct old \<Longrightarrow> receipts_distinct new"
  unfolding receipts_follow_def receipts_distinct_def
  by (elim disjE exE conjE) (auto simp: receipts_clash_def list_all_iff)

lemma receipts_follow_paid:
  assumes "receipts_follow run to old new"
    and "is_paid (run_status_of run) \<longleftrightarrow> run_id run \<in> rc_runId ` set old"
  shows "is_paid to \<longleftrightarrow> run_id run \<in> rc_runId ` set new"
    and "i \<noteq> run_id run \<Longrightarrow> i \<in> rc_runId ` set new \<longleftrightarrow> i \<in> rc_runId ` set old"
    and "rc_runId ` set new \<subseteq> insert (run_id run) (rc_runId ` set old)"
  using assms unfolding receipts_follow_def by auto

text \<open>The row an accepted command writes, and the tables after it.\<close>

definition row_follows :: "run_row \<Rightarrow> run_aggregate \<Rightarrow> run_row \<Rightarrow> bool" where
  "row_follows old run new \<longleftrightarrow> rr_id new = rr_id old \<and> rr_createdAt new = rr_createdAt old
    \<and> rr_status new = run_status_of run \<and> rr_result new = run_result_of run \<and> rr_revision new = run_revision run
    \<and> rr_updatedAt new = run_updatedAt run"

definition tables_follow :: "run_aggregate \<Rightarrow> run_aggregate \<Rightarrow> run_transitioned_event \<Rightarrow> database \<Rightarrow> database \<Rightarrow> bool" where
  "tables_follow run succ ev db db' \<longleftrightarrow>
    db_events db' = db_events db @ [ev]
    \<and> (\<exists>row row'. row \<in> set (db_runs db) \<and> rr_id row = run_id run \<and> rr_revision row = run_revision run
         \<and> row_follows row succ row'
         \<and> db_runs db' = map (\<lambda>x. if rr_id x = run_id run then row' else x) (db_runs db))
    \<and> receipts_follow run (run_status_of succ) (db_receipts db) (db_receipts db')"

lemma tables_followI:
  assumes "db_events db' = db_events db @ [ev]"
    and "row \<in> set (db_runs db)" and "rr_id row = run_id run" and "rr_revision row = run_revision run"
    and "row_follows row succ row'"
    and "db_runs db' = map (\<lambda>x. if rr_id x = run_id run then row' else x) (db_runs db)"
    and "receipts_follow run (run_status_of succ) (db_receipts db) (db_receipts db')"
  shows "tables_follow run succ ev db db'"
  unfolding tables_follow_def using assms by (intro conjI exI) auto

text \<open>Equal revisions, equal aggregates: nobody else has written since the aggregate was read.\<close>

lemma current_row:
  assumes inv: "store_inv S db" and S: "run \<in> S" and row: "row \<in> set (db_runs db)" "rr_id row = run_id run"
    "rr_revision row = run_revision run"
  shows "parseRun db row = run"
proof -
  obtain row2 where "row2 \<in> set (db_runs db)" "rr_id row2 = run_id run"
    "run_revision run = rr_revision row2 \<longrightarrow> parseRun db row2 = run" using store_invD(3) [OF inv S] by blast
  then show ?thesis using same_row [OF store_invD(1) [OF inv] row(1)] row by metis
qed

lemma store_advance:
  assumes inv: "store_inv S db" and S: "run \<in> S"
    and t: "transitionRun run c = Inr r" "tr_event r = Some ev"
    and tab: "tables_follow run (tr_run r) ev db db'"
  shows "store_inv (insert (tr_run r) S) db'"
proof -
  note f = transition_facts [OF t]
  note D = store_invD [OF inv]
  from tab obtain row row' where row: "row \<in> set (db_runs db)" "rr_id row = run_id run" "rr_revision row = run_revision run"
    and row': "row_follows row (tr_run r) row'"
    and runs: "db_runs db' = map (\<lambda>x. if rr_id x = run_id run then row' else x) (db_runs db)"
    and ev: "db_events db' = db_events db @ [ev]"
    and rc: "receipts_follow run (cmd_to c) (db_receipts db) (db_receipts db')"
    by (auto simp: tables_follow_def f(7))
  have known: "run_id run \<in> rr_id ` set (db_runs db)" using imageI [OF row(1), of rr_id] row(2) by simp
  have id': "rr_id row' = run_id run" using row' row(2) by (simp add: row_follows_def)
  have run: "parseRun db row = run" by (rule current_row [OF inv S row])
  have hist: "run_history (run_events db (run_id run)) run" using D(2) [OF row(1)] run row(2) by simp
  have paid: "is_paid (run_status_of run) \<longleftrightarrow> run_id run \<in> rc_runId ` set (db_receipts db)"
  proof -
    have "run_status_of run = rr_status row" by (subst run [symmetric]) (simp add: parseRun_def)
    then show ?thesis using D(4) [OF row(1)] row(2) by simp
  qed
  note P = receipts_follow_paid [OF rc paid]
  have less: "\<forall>e \<in> set (run_events db (run_id run)). ev_revision e < ev_revision ev"
    using history_revisions [OF hist] f(2) by fastforce
  have own: "run_events db' (run_id run) = run_events db (run_id run) @ [ev]"
    by (rule run_events_own [OF ev f(1) less])
  have other: "run_events db' i = run_events db i" if "i \<noteq> run_id run" for i
    using run_events_other [OF ev] f(1) that by simp
  have keys: "run_appliedIdempotencyKeys run = map ev_idempotencyKey (run_events db (run_id run))"
    by (subst run [symmetric]) (simp add: parseRun_def row(2))
  have created: "run_createdAt run = rr_createdAt row" by (subst run [symmetric]) (simp add: parseRun_def)
  have succ: "parseRun db' row' = tr_run r"
    using row' row(2) own keys created f(4) by (simp add: parseRun_def row_follows_def f(7))
  have same: "parseRun db' x = parseRun db x" if "rr_id x \<noteq> run_id run" for x
    using other that by (simp add: parseRun_def)
  have rows': "set (db_runs db') = insert row' {x \<in> set (db_runs db). rr_id x \<noteq> run_id run}"
    unfolding runs using row by (auto simp: image_iff)
  have ids: "map rr_id (db_runs db') = map rr_id (db_runs db)" unfolding runs using id' by auto
  then have idset: "rr_id ` set (db_runs db') = rr_id ` set (db_runs db)" by (metis image_set)
  have "run_history (run_events db' (rr_id x)) (parseRun db' x)" if x: "x \<in> set (db_runs db')" for x
  proof (cases "x = row'")
    case True
    then show ?thesis using run_history.stepped [OF hist t] own succ id' by simp
  next
    case False
    then show ?thesis using x rows' D(2) same other by auto
  qed
  moreover have "\<exists>x \<in> set (db_runs db'). rr_id x = run_id a \<and> run_revision a \<le> rr_revision x
         \<and> (run_revision a = rr_revision x \<longrightarrow> parseRun db' x = a)" if a: "a \<in> insert (tr_run r) S" for a
  proof (cases "a = tr_run r")
    case True
    then show ?thesis using rows' row' id' succ by (auto simp: row_follows_def f(7))
  next
    case False
    then obtain x where x: "x \<in> set (db_runs db)" "rr_id x = run_id a" "run_revision a \<le> rr_revision x"
      "run_revision a = rr_revision x \<longrightarrow> parseRun db x = a" using a D(3) by blast
    show ?thesis
    proof (cases "run_id a = run_id run")
      case True
      then have "x = row" using same_row [OF D(1) x(1) row(1)] x(2) row(2) by simp
      then have "run_revision a < rr_revision row'" using x(3) row(3) row' by (simp add: row_follows_def f(7))
      then show ?thesis using rows' id' True by (intro bexI [of _ row']) auto
    next
      case False
      then show ?thesis using rows' x same by (intro bexI [of _ x]) auto
    qed
  qed
  moreover have "is_paid (rr_status x) \<longleftrightarrow> rr_id x \<in> rc_runId ` set (db_receipts db')" if x: "x \<in> set (db_runs db')" for x
  proof (cases "x = row'")
    case True
    then show ?thesis using P(1) row' id' by (simp add: row_follows_def f(7))
  next
    case False
    then show ?thesis using x rows' D(4) P(2) by auto
  qed
  moreover have "receipts_distinct (db_receipts db')" using receipts_follow_distinct [OF rc D(5)] .
  moreover have "ev_runId ` set (db_events db') \<subseteq> rr_id ` set (db_runs db')"
    using D(6) f(1) known unfolding ev idset by auto
  moreover have "rc_runId ` set (db_receipts db') \<subseteq> rr_id ` set (db_runs db')"
    using subset_trans [OF P(3), of "rr_id ` set (db_runs db)"] D(7) known unfolding idset by simp
  ultimately show ?thesis using D(1) ids by (simp add: store_inv_def)
qed

section \<open>What each transaction does when it commits\<close>

lemma transaction_ok: "transaction m w = (Inr a, w') \<Longrightarrow> m w = (Inr a, w')"
  by (simp add: transaction_def split: prod.splits sum.splits)

lemma transaction_fails: "transaction m w = (Inl e, w') \<Longrightarrow> w' = w"
  by (simp add: transaction_def split: prod.splits sum.splits)

lemma insert_event_ok:
  "insert_event ev db = (Inr (), db') \<Longrightarrow> db' = db\<lparr>db_events := db_events db @ [ev]\<rparr>"
  by (auto simp: insert_event_def io_ok)

lemma one_match:
  assumes "distinct (map rr_id rows)" and "length (filter g rows) = 1" and "\<And>r. g r \<Longrightarrow> rr_id r = i"
  shows "\<exists>row. row \<in> set rows \<and> g row \<and> map (\<lambda>r. if g r then f r else r) rows
      = map (\<lambda>r. if rr_id r = i then f row else r) rows"
proof -
  obtain row where one: "filter g rows = [row]" using assms(2) by (cases "filter g rows") auto
  then have "set (filter g rows) = {row}" by simp
  then have row: "row \<in> set rows" "g row" by auto
  have "g r \<longleftrightarrow> rr_id r = i" if r: "r \<in> set rows" for r
    using same_row [OF assms(1) r row(1)] assms(3) row(2) by metis
  moreover have "r = row" if r: "r \<in> set rows" "rr_id r = i" for r
    using same_row [OF assms(1) r(1) row(1)] assms(3) row(2) r(2) by metis
  ultimately have "map (\<lambda>r. if g r then f r else r) rows = map (\<lambda>r. if rr_id r = i then f row else r) rows"
    by (intro map_cong) auto
  with row show ?thesis by (intro exI [of _ row]) simp
qed

lemma update_runs_ok:
  assumes "update_runs g f conflict db = (Inr (), db')"
  shows "length (filter g (db_runs db)) = 1 \<and> db' = db\<lparr>db_runs := map (\<lambda>r. if g r then f r else r) (db_runs db)\<rparr>"
  using assms by (auto simp: update_runs_def io_ok)

text \<open>The successor of a run, as the guarded updates write it.\<close>

lemma save_update_follows:
  assumes inv: "store_inv S db" and t: "transitionRun run c = Inr r" "tr_event r = Some ev"
    and ct: "canonical_time (cmd_occurredAt c)" and actor: "cmd_actor c \<noteq> PAYMENT_RECONCILER"
    and rec: "rec_aggregate rec = tr_run r" "rec_uncommittedEvent rec = Some ev"
    and S: "run \<in> S" and ok: "save_run rec (Some (run_revision run)) db = (Inr (), db')"
  shows "tables_follow run (tr_run r) ev db db'"
proof -
  note f = transition_facts [OF t]
  let ?g = "\<lambda>x. rr_id x = run_id run \<and> rr_revision x = run_revision run"
  let ?f = "\<lambda>x. x\<lparr>rr_status := run_status_of (tr_run r), rr_result := run_result_of (tr_run r),
     rr_revision := run_revision (tr_run r), rr_updatedAt := cmd_occurredAt c\<rparr>"
  have id: "run_id (tr_run r) = run_id run" "run_updatedAt (tr_run r) = cmd_occurredAt c"
    "run_status_of (tr_run r) = cmd_to c" using f(7) by simp_all
  from ok obtain db1 db2 where u: "update_runs ?g ?f ''Run persistence revision conflict'' db = (Inr (), db1)"
    and e: "insert_event ev db1 = (Inr (), db2)"
    and d': "db_runs db' = db_runs db2" "db_events db' = db_events db2" "db_receipts db' = db_receipts db2"
    using rec id ct f(1,2) by (auto simp: save_run_def io_ok insertEventAndOutbox_def insert_outbox_def io_when_def
      canonical_time_def dest!: transaction_ok split: if_splits)
  note u' = update_runs_ok [OF u]
  obtain row where row: "row \<in> set (db_runs db)" "?g row"
    "map (\<lambda>x. if ?g x then ?f x else x) (db_runs db) = map (\<lambda>x. if rr_id x = run_id run then ?f row else x) (db_runs db)"
    using one_match [OF store_invD(1) [OF inv] conjunct1 [OF u'], of "run_id run" ?f] by auto
  have "is_paid (cmd_to c) = is_paid (run_status_of run)"
    using becomes_paid [OF f(6)] paid_stays_paid [OF f(6)] actor by blast
  moreover have "db_receipts db' = db_receipts db" using d' u' insert_event_ok [OF e] by simp
  moreover have "db_events db' = db_events db @ [ev]" using d' u' insert_event_ok [OF e] by simp
  moreover have "db_runs db' = map (\<lambda>x. if rr_id x = run_id run then ?f row else x) (db_runs db)"
    using d' u' insert_event_ok [OF e] row(3) by simp
  moreover have "row_follows row (tr_run r) (?f row)" by (simp add: row_follows_def id)
  ultimately show ?thesis using row(1,2) id(3) by (intro tables_followI) (auto simp: receipts_follow_def)
qed

lemma fund_follows:
  assumes inv: "store_inv S db" and S: "run \<in> S" and t: "transitionRun run c = Inr r" "tr_event r = Some ev"
    and ct: "canonical_time (cmd_occurredAt c)" and to: "cmd_to c = FUNDED" and p: "vp_runId payment = run_id run"
    and ok: "commitFundedRun (run_revision run) (tr_run r) ev payment db = (Inr (), db')"
  shows "tables_follow run (tr_run r) ev db db'"
proof -
  note f = transition_facts [OF t]
  have run': "run_id (tr_run r) = run_id run" "run_updatedAt (tr_run r) = cmd_occurredAt c"
    "run_status_of (tr_run r) = FUNDED" "run_result_of (tr_run r) = run_result_of run"
    "run_revision (tr_run r) = run_revision run + 1" using f(7) to by simp_all
  let ?g = "\<lambda>x. rr_id x = run_id run \<and> rr_revision x = run_revision run \<and> rr_status x = PAYMENT_REQUIRED"
  from ok obtain rc amount proofHash db1 where rc: "receipt_row_of payment = Inr rc"
      "list_all (\<lambda>x. \<not> receipts_clash rc x) (db_receipts db)"
    and u: "update_runs ?g (\<lambda>x. x\<lparr>rr_status := FUNDED, rr_revision := run_revision (tr_run r),
        rr_customerPaymentAtomic := Some amount, rr_customerPaymentProofHash := Some proofHash,
        rr_updatedAt := cmd_occurredAt c\<rparr>)
        ''Run revision conflict while committing customer payment'' (db\<lparr>db_receipts := db_receipts db @ [rc]\<rparr>) = (Inr (), db1)"
    and e: "db_events db' = db_events db1 @ [ev]" "db_runs db' = db_runs db1" "db_receipts db' = db_receipts db1"
    using run' ct by (auto simp: commitFundedRun_def io_ok insertReceipt_def insert_outbox_def canonical_time_def
      dest!: transaction_ok insert_event_ok)
  let ?f = "\<lambda>x. x\<lparr>rr_status := FUNDED, rr_revision := run_revision (tr_run r),
        rr_customerPaymentAtomic := Some amount, rr_customerPaymentProofHash := Some proofHash,
        rr_updatedAt := cmd_occurredAt c\<rparr>"
  have u': "length (filter ?g (db_runs db)) = 1"
    "db1 = db\<lparr>db_receipts := db_receipts db @ [rc], db_runs := map (\<lambda>x. if ?g x then ?f x else x) (db_runs db)\<rparr>"
    using update_runs_ok [OF u] by simp_all
  obtain row where row: "row \<in> set (db_runs db)" "?g row"
    "map (\<lambda>x. if ?g x then ?f x else x) (db_runs db) = map (\<lambda>x. if rr_id x = run_id run then ?f row else x) (db_runs db)"
    using one_match [OF store_invD(1) [OF inv] u'(1), of "run_id run" ?f] by auto
  show ?thesis
  proof (rule tables_followI)
    show "db_events db' = db_events db @ [ev]" using e u' by simp
    show "db_runs db' = map (\<lambda>x. if rr_id x = run_id run then ?f row else x) (db_runs db)" using e u' row(3) by simp
    have "rc_runId rc = run_id run" using rc(1) p by (auto simp: receipt_row_of_def res_bind_Inr_iff)
    then show "receipts_follow run (run_status_of (tr_run r)) (db_receipts db) (db_receipts db')"
      using rc(2) e u' run'(3) by (auto simp: receipts_follow_def)
    have "parseRun db row = run" using current_row [OF inv S row(1)] row(2) by simp
    then have "rr_result row = run_result_of run" by (auto simp: parseRun_def)
    then show "row_follows row (tr_run r) (?f row)" using run' by (simp add: row_follows_def)
  qed (use row in simp_all)
qed

lemma expire_follows:
  assumes inv: "store_inv S db" and S: "run \<in> S" and t: "transitionRun run c = Inr r" "tr_event r = Some ev"
    and ct: "canonical_time (cmd_occurredAt c)" and to: "cmd_to c = EXPIRED"
    and ok: "commitExpiredRun (run_revision run) (tr_run r) ev db = (Inr (), db')"
  shows "tables_follow run (tr_run r) ev db db'"
proof -
  note f = transition_facts [OF t]
  have run': "run_id (tr_run r) = run_id run" "run_updatedAt (tr_run r) = cmd_occurredAt c"
    "run_status_of (tr_run r) = EXPIRED" "run_result_of (tr_run r) = run_result_of run"
    "run_revision (tr_run r) = run_revision run + 1" using f(7) to by simp_all
  let ?g = "\<lambda>x. rr_id x = run_id run \<and> rr_revision x = run_revision run
    \<and> rr_status x \<in> {DRAFT, QUOTED, PAYMENT_REQUIRED}"
  let ?f = "\<lambda>x. x\<lparr>rr_status := EXPIRED, rr_revision := run_revision (tr_run r), rr_updatedAt := cmd_occurredAt c\<rparr>"
  from ok obtain db1 where u: "update_runs ?g ?f ''Run revision conflict while expiring an unpaid run'' db = (Inr (), db1)"
    and e: "db_events db' = db_events db1 @ [ev]" "db_runs db' = db_runs db1" "db_receipts db' = db_receipts db1"
    using run' ct by (auto simp: commitExpiredRun_def io_ok insert_outbox_def canonical_time_def
      dest!: transaction_ok insert_event_ok)
  note u' = update_runs_ok [OF u]
  obtain row where row: "row \<in> set (db_runs db)" "?g row"
    "map (\<lambda>x. if ?g x then ?f x else x) (db_runs db) = map (\<lambda>x. if rr_id x = run_id run then ?f row else x) (db_runs db)"
    using one_match [OF store_invD(1) [OF inv] conjunct1 [OF u'], of "run_id run" ?f] by auto
  have "parseRun db row = run" using current_row [OF inv S row(1)] row(2) by simp
  then have "rr_result row = run_result_of run" "rr_status row = run_status_of run" by (auto simp: parseRun_def)
  then show ?thesis using e u' row run'
    by (intro tables_followI [where row = row and row' = "?f row"]) (auto simp: row_follows_def receipts_follow_def)
qed

lemma create_inv:
  assumes inv: "store_inv S db" and d: "createDraftRun runId now = Inr draft" and cn: "canonical_time now"
    and t: "transitionRun draft c = Inr r" "tr_event r = Some ev" and ct: "canonical_time (cmd_occurredAt c)"
    and rec: "rec_aggregate rec = tr_run r" "rec_uncommittedEvent rec = Some ev"
    and ok: "save_run rec None db = (Inr (), db')"
  shows "store_inv (insert (tr_run r) S) db'"
proof -
  note f = transition_facts [OF t]
  note D = store_invD [OF inv]
  have draft: "run_id draft = runId" "run_createdAt draft = now" "run_appliedIdempotencyKeys draft = []"
    "run_status_of draft = DRAFT" "run_revision draft = 0"
    using d by (auto simp: createDraftRun_def res_bind_Inr_iff split: if_splits)
  let ?row = "\<lparr>rr_id = runId, rr_quoteId = rec_quoteId rec, rr_requestIdempotencyKey = rec_requestIdempotencyKey rec,
       rr_status = cmd_to c, rr_result = run_result_of (tr_run r), rr_revision = run_revision (tr_run r),
       rr_createdAt = now, rr_updatedAt = cmd_occurredAt c, rr_customerPaymentAtomic = None,
       rr_customerPaymentProofHash = None\<rparr>"
  have fresh: "runId \<notin> rr_id ` set (db_runs db)" and runs: "db_runs db' = db_runs db @ [?row]"
    and ev: "db_events db' = db_events db @ [ev]" and rc: "db_receipts db' = db_receipts db"
    using ok rec draft f cn ct
    by (auto simp: save_run_def io_ok insertRun_def insertEventAndOutbox_def insert_outbox_def io_when_def
      canonical_time_def list_all_iff dest!: transaction_ok insert_event_ok split: if_splits)
  have none: "filter (\<lambda>e. ev_runId e = runId) (db_events db) = []" using fresh D(6) by (auto simp: filter_empty_conv)
  have own: "run_events db' runId = [ev]" using none f(1) draft(1) by (simp add: run_events_def ev)
  have other: "run_events db' i = run_events db i" if "i \<noteq> runId" for i
    using run_events_other [OF ev] f(1) draft(1) that by simp
  have new: "parseRun db' ?row = tr_run r" using own draft f by (simp add: parseRun_def)
  have ne: "rr_id x \<noteq> runId" if "x \<in> set (db_runs db)" for x using fresh imageI [OF that, of rr_id] by metis
  have old: "parseRun db' x = parseRun db x" if "x \<in> set (db_runs db)" for x
    using other [OF ne [OF that]] by (simp add: parseRun_def)
  have hist: "run_history (run_events db' (rr_id x)) (parseRun db' x)" if x: "x \<in> set (db_runs db')" for x
  proof (cases "x = ?row")
    case True
    then show ?thesis using run_history.stepped [OF run_history.created [OF d] t] own new by simp
  next
    case False
    then have "x \<in> set (db_runs db)" using x runs by auto
    then show ?thesis using D(2) old other [OF ne] by simp
  qed
  have "rule_allows DRAFT (cmd_to c) (cmd_actor c)" using f(6) draft by simp
  then have unpaid: "\<not> is_paid (cmd_to c)" by (auto simp: rule_allows_iff)
  have seen: "\<exists>x \<in> set (db_runs db'). rr_id x = run_id a \<and> run_revision a \<le> rr_revision x
         \<and> (run_revision a = rr_revision x \<longrightarrow> parseRun db' x = a)" if a: "a \<in> insert (tr_run r) S" for a
  proof (cases "a = tr_run r")
    case True
    then show ?thesis using new runs draft f(7) by (intro bexI [of _ ?row]) auto
  next
    case False
    then obtain x where "x \<in> set (db_runs db)" "rr_id x = run_id a" "run_revision a \<le> rr_revision x"
      "run_revision a = rr_revision x \<longrightarrow> parseRun db x = a" using a D(3) by blast
    then show ?thesis using runs old by (intro bexI [of _ x]) auto
  qed
  have paid: "is_paid (rr_status x) \<longleftrightarrow> rr_id x \<in> rc_runId ` set (db_receipts db')" if "x \<in> set (db_runs db')" for x
    using that runs rc D(4) D(7) fresh unpaid by auto
  show ?thesis unfolding store_inv_def
  proof (intro conjI ballI)
    show "distinct (map rr_id (db_runs db'))" using D(1) fresh by (simp add: runs)
    show "receipts_distinct (db_receipts db')" using D(5) rc by simp
    show "ev_runId ` set (db_events db') \<subseteq> rr_id ` set (db_runs db')"
      using D(6) f(1) draft(1) unfolding runs ev by auto
    show "rc_runId ` set (db_receipts db') \<subseteq> rr_id ` set (db_runs db')" using D(7) unfolding runs rc by auto
  qed (fact hist seen paid)+
qed

text \<open>Which aggregates a writer may hold: any that was current once.\<close>

definition known_run :: "database \<Rightarrow> run_aggregate \<Rightarrow> bool" where
  "known_run db run \<longleftrightarrow> (\<exists>row \<in> set (db_runs db). rr_id row = run_id run \<and> run_revision run \<le> rr_revision row
     \<and> (run_revision run = rr_revision row \<longrightarrow> parseRun db row = run))"

lemma store_inv_known: "store_inv S db \<longleftrightarrow> store_inv {} db \<and> (\<forall>run \<in> S. known_run db run)"
  unfolding store_inv_def known_run_def ball_empty by argo

lemma known_run_row: "row \<in> set (db_runs db) \<Longrightarrow> known_run db (parseRun db row)"
  unfolding known_run_def by (rule bexI [of _ row]) (simp_all add: parseRun_def)

lemma store_inv_insert: "store_inv (insert run S) db \<longleftrightarrow> store_inv S db \<and> known_run db run"
  using store_inv_known [of S db] store_inv_known [of "insert run S" db] by blast

lemma service_inv: "service S db \<Longrightarrow> store_inv S db"
proof (induction rule: service.induct)
  case (empty db)
  then show ?case by (simp add: store_inv_def receipts_distinct_def)
next
  case (create S db runId now draft c r ev rec db')
  then show ?case by (intro create_inv)
next
  case (save S db run c r ev rec db')
  then show ?case by (intro store_advance [OF _ _ _ _ save_update_follows])
next
  case (fund S db run c r ev payment db')
  then show ?case by (intro store_advance [OF _ _ _ _ fund_follows])
next
  case (expire S db run c r ev db')
  then show ?case by (intro store_advance [OF _ _ _ _ expire_follows])
next
  case (read S db row)
  then show ?case by (simp add: store_inv_insert known_run_row)
next
  case (other S db db')
  then show ?case by (simp add: store_inv_def run_events_def parseRun_def)
qed

section \<open>Properties\<close>

text \<open>
  C5: the tables refine the state machine.  However the writers interleave, and however stale the
  aggregates they hold, every stored run is an aggregate the state machine reaches, its stored events are
  exactly the history that led there, and two aggregates read at the same revision are equal.
\<close>

theorem service_refines_state_machine:
  assumes "service S db" and "row \<in> set (db_runs db)"
  shows "run_history (run_events db (rr_id row)) (parseRun db row)
    \<and> (\<forall>run \<in> S. run_id run = rr_id row \<longrightarrow> run_revision run \<le> rr_revision row
         \<and> (run_revision run = rr_revision row \<longrightarrow> run = parseRun db row))"
proof (intro conjI ballI impI)
  note inv = service_inv [OF assms(1)]
  show "run_history (run_events db (rr_id row)) (parseRun db row)" using store_invD(2) [OF inv assms(2)] .
  fix run assume run: "run \<in> S" "run_id run = rr_id row"
  obtain x where x: "x \<in> set (db_runs db)" "rr_id x = run_id run" "run_revision run \<le> rr_revision x"
    using store_invD(3) [OF inv run(1)] by blast
  then show "run_revision run \<le> rr_revision row"
    using same_row [OF store_invD(1) [OF inv] x(1) assms(2)] run(2) by simp
  show "run_revision run = rr_revision row \<Longrightarrow> run = parseRun db row"
    using current_row [OF inv run(1) assms(2)] run(2) by simp
qed

text \<open>
  C6: no run is past payment without a receipt, and no transfer pays twice: in every state of the tables
  a run is in a paid status exactly when a customer receipt is stored for it, each run has at most one
  receipt, and no two receipts share a proof hash or a log of a transaction on a chain.
\<close>

theorem paid_exactly_with_receipt:
  assumes "service S db"
  shows "(\<forall>row \<in> set (db_runs db). is_paid (rr_status row) \<longleftrightarrow> rr_id row \<in> rc_runId ` set (db_receipts db))
    \<and> distinct (map rc_runId (db_receipts db)) \<and> distinct (map rc_proofHash (db_receipts db))
    \<and> distinct (map transfer_key (db_receipts db))"
  using store_invD(4,5) [OF service_inv [OF assms]] by (simp add: receipts_distinct_def)

text \<open>
  C9: a write based on a stale aggregate is refused and changes nothing: if a run has moved on since an
  aggregate was read, saving, funding or expiring from it throws and leaves every table as it was.  So
  when a payment and an expiry race, the later commit loses whole.
\<close>

theorem stale_write_refused:
  assumes "service S db" and "run \<in> S" and "row \<in> set (db_runs db)" and "rr_id row = run_id run"
    and "run_revision run \<noteq> rr_revision row" and "run_id run' = run_id run"
  shows "(\<exists>e. commitExpiredRun (run_revision run) run' ev db = (Inl e, db))
    \<and> (\<exists>e. commitFundedRun (run_revision run) run' ev payment db = (Inl e, db))
    \<and> (rec_aggregate rec = run' \<longrightarrow> (\<exists>e. save_run rec (Some (run_revision run)) db = (Inl e, db)))"
proof -
  have d: "distinct (map rr_id (db_runs db))" using store_invD(1) [OF service_inv [OF assms(1)]] .
  have none: "filter (\<lambda>r. rr_id r = run_id run \<and> rr_revision r = run_revision run) (db_runs db) = []"
    "filter (\<lambda>r. rr_id r = run_id run \<and> rr_revision r = run_revision run \<and> p r) (db_runs db) = []" for p
    using same_row [OF d _ assms(3)] assms(4,5) by (auto simp: filter_empty_conv)
  have dead: "\<exists>e. transaction m db = (Inl e, db)" if "\<And>db'. m db \<noteq> (Inr (), db')" for m :: "(database, unit) io"
    using that by (cases "m db"; cases "fst (m db)") (auto simp: transaction_def)
  have "\<exists>e. commitExpiredRun (run_revision run) run' ev db = (Inl e, db)" unfolding commitExpiredRun_def
    by (rule dead) (use none(2) assms(6) in \<open>auto simp: io_ok dest!: update_runs_ok\<close>)
  moreover have "\<exists>e. commitFundedRun (run_revision run) run' ev payment db = (Inl e, db)" unfolding commitFundedRun_def
    by (rule dead) (use none(2) assms(6) in \<open>auto simp: io_ok insertReceipt_def dest!: update_runs_ok\<close>)
  moreover have "\<exists>e. save_run rec (Some (run_revision run)) db = (Inl e, db)" if "rec_aggregate rec = run'"
  proof (cases "rec_uncommittedEvent rec")
    case (Some x)
    have "\<exists>e. transaction (io_then (io_bind (io_lift t) (\<lambda>u. update_runs
        (\<lambda>x. rr_id x = run_id run' \<and> rr_revision x = run_revision run) (f u) msg)) n) db = (Inl e, db)"
      for t :: "string res" and f msg and n :: "(database, unit) io"
      by (rule dead) (use none(1) assms(6) in \<open>auto simp: io_ok dest!: update_runs_ok\<close>)
    then show ?thesis by (simp add: save_run_def Some that)
  qed (simp add: save_run_def)
  ultimately show ?thesis by blast
qed

section \<open>A concrete history\<close>

definition demo_stored_quote :: quote where
  "demo_stored_quote = \<lparr>q_id = ''q1'', q_request = demo_request,
     q_capabilitySnapshot = JObj [(''chainId'', JNum 2345), (''tokenAddress'', JStr (demo_addr (CHR ''3''))),
       (''receivingAddress'', JStr (demo_addr (CHR ''2'')))], q_targetChainId = None,
     q_lineItems = \<lparr>li_baseOrchestrationFeeAtomic = ''50'', li_mandatoryToolBudgetAtomic = ''500'',
       li_dynamicToolBudgetAtomic = ''200'', li_modelInfrastructureReserveAtomic = ''100'',
       li_chainStorageReserveAtomic = ''100'', li_riskSupportReserveAtomic = ''50''\<rparr>,
     q_totalAtomicAmount = ''1000'', q_refundableToolBudgetAtomic = ''700'',
     q_createdAt = ''2026-01-01T00:00:00.000Z'', q_expiresAt = ''2026-01-01T00:10:00.000Z'',
     q_quoteCommitment = demo_hash32 (CHR ''5'')\<rparr>"

definition demo_db :: database where
  "demo_db = \<lparr>db_now = 0, db_quotes = [demo_stored_quote], db_runs = [], db_events = [],
     db_orders = [\<lparr>or_runId = ''run-1'', or_status = Order_CHECKOUT_VERIFIED, or_snapshot = order_json demo_order\<rparr>],
     db_receipts = [], db_outbox = [], db_paymentJobs = [], db_orchestratorJobs = []\<rparr>"

definition demo_moved :: "run_status \<Rightarrow> run_status \<Rightarrow> run_actor \<Rightarrow> int \<Rightarrow> string list \<Rightarrow> transition_result" where
  "demo_moved source target actor n keys = \<lparr>tr_run = \<lparr>run_id = ''run-1'', run_status_of = target,
     run_result_of = None, run_revision = n, run_createdAt = ''2026-01-01T00:00:00.000Z'',
     run_updatedAt = ''2026-01-01T00:00:00.000Z'', run_appliedIdempotencyKeys = keys\<rparr>,
   tr_event = Some \<lparr>ev_runId = ''run-1'', ev_from = source, ev_to = target, ev_actor = actor, ev_revision = n,
     ev_idempotencyKey = last keys, ev_occurredAt = ''2026-01-01T00:00:00.000Z''\<rparr>, tr_idempotentReplay = False\<rparr>"

definition demo_quoted :: transition_result where
  "demo_quoted = demo_moved DRAFT QUOTED QUOTE_ENGINE 1 [''demo-key-a'']"

definition demo_required :: transition_result where
  "demo_required = demo_moved QUOTED PAYMENT_REQUIRED MERCHANT_GATEWAY 2 [''demo-key-a'', ''demo-key-b'']"

definition demo_funding :: transition_result where
  "demo_funding = demo_moved PAYMENT_REQUIRED FUNDED PAYMENT_RECONCILER 3 [''demo-key-a'', ''demo-key-b'', ''demo-key-c'']"

definition demo_record :: "transition_result \<Rightarrow> run_record" where
  "demo_record r = \<lparr>rec_aggregate = tr_run r, rec_quoteId = ''q1'', rec_requestIdempotencyKey = ''request-1'',
     rec_paymentOrder = None, rec_uncommittedEvent = tr_event r, rec_customerPaymentProofHash = None,
     rec_customerPaymentAtomic = None, rec_customerPaymentTransactionHash = None, rec_customerPaymentChainId = None\<rparr>"

definition demo_payment :: verified_payment where
  "demo_payment = \<lparr>vp_runId = ''run-1'', vp_order = demo_order, vp_proof = demo_proof, vp_receipt = demo_receipt,
     vp_proofHash = demo_hash32 (CHR ''8''), vp_verifiedAt = ''2026-01-01T00:00:00.000Z''\<rparr>"

definition demo_run_row :: "run_status \<Rightarrow> int \<Rightarrow> run_row" where
  "demo_run_row status n = \<lparr>rr_id = ''run-1'', rr_quoteId = ''q1'', rr_requestIdempotencyKey = ''request-1'',
     rr_status = status, rr_result = None, rr_revision = n, rr_createdAt = ''2026-01-01T00:00:00.000Z'',
     rr_updatedAt = ''2026-01-01T00:00:00.000Z'', rr_customerPaymentAtomic = None, rr_customerPaymentProofHash = None\<rparr>"

definition demo_db1 :: database where
  "demo_db1 = demo_db\<lparr>db_runs := [demo_run_row QUOTED 1], db_events := [the (tr_event demo_quoted)],
     db_outbox := [the (tr_event demo_quoted)]\<rparr>"

definition demo_db2 :: database where
  "demo_db2 = demo_db\<lparr>db_runs := [demo_run_row PAYMENT_REQUIRED 2],
     db_events := [the (tr_event demo_quoted), the (tr_event demo_required)],
     db_outbox := [the (tr_event demo_quoted), the (tr_event demo_required)],
     db_paymentJobs := [new_job payment_queue 0 ''run-1'']\<rparr>"

definition demo_db3 :: database where
  "demo_db3 = demo_db2\<lparr>db_runs := [(demo_run_row FUNDED 3)\<lparr>rr_customerPaymentAtomic := Some 1000,
       rr_customerPaymentProofHash := Some (demo_hash32 (CHR ''8''))\<rparr>],
     db_events := db_events demo_db2 @ [the (tr_event demo_funding)],
     db_outbox := db_outbox demo_db2 @ [the (tr_event demo_funding)],
     db_orders := [\<lparr>or_runId = ''run-1'', or_status = Order_PAYMENT_CONFIRMED, or_snapshot = order_json demo_order\<rparr>],
     db_receipts := [projr (receipt_row_of demo_payment)],
     db_orchestratorJobs := [new_job orchestrator_queue 0 ''run-1'']\<rparr>"

lemma demo_transitions:
  "transitionRun demo_draft (demo_cmd ''a'' QUOTE_ENGINE QUOTED 0) = Inr demo_quoted \<and> tr_event demo_quoted \<noteq> None"
  "transitionRun (tr_run demo_quoted) (demo_cmd ''b'' MERCHANT_GATEWAY PAYMENT_REQUIRED 1) = Inr demo_required
    \<and> tr_event demo_required \<noteq> None"
  "transitionRun (tr_run demo_required) (demo_cmd ''c'' PAYMENT_RECONCILER FUNDED 2) = Inr demo_funding
    \<and> tr_event demo_funding \<noteq> None"
  by code_simp+

lemma demo_time: "canonical_time ''2026-01-01T00:00:00.000Z''"
  by code_simp

lemma demo_times: "canonical_time (cmd_occurredAt (demo_cmd k a t n))"
  by (simp add: demo_cmd_def demo_time)

lemma demo_saved:
  "save_run (demo_record demo_quoted) None demo_db = (Inr (), demo_db1)"
  "save_run (demo_record demo_required) (Some (run_revision (tr_run demo_quoted))) demo_db1 = (Inr (), demo_db2)"
  "commitFundedRun (run_revision (tr_run demo_required)) (tr_run demo_funding)
     (the (tr_event demo_funding)) demo_payment demo_db2 = (Inr (), demo_db3)"
  by code_simp+

lemma demo_service2: "service {tr_run demo_required, tr_run demo_quoted} demo_db2"
proof -
  have ev: "tr_event demo_quoted = Some (the (tr_event demo_quoted))" "tr_event demo_required = Some (the (tr_event demo_required))"
    using demo_transitions by auto
  have rec: "rec_aggregate (demo_record r) = tr_run r" "rec_uncommittedEvent (demo_record r) = tr_event r" for r
    by (simp_all add: demo_record_def)
  have "service {} demo_db" by (rule service.empty) (simp_all add: demo_db_def)
  from service.create [OF this demo_created demo_time demo_transitions(1) [THEN conjunct1] ev(1) demo_times rec(1)
    trans [OF rec(2) ev(1)] demo_saved(1)]
  have "service {tr_run demo_quoted} demo_db1" .
  from service.save [OF this _ demo_transitions(2) [THEN conjunct1] ev(2) demo_times _ rec(1)
    trans [OF rec(2) ev(2)] demo_saved(2)]
  show ?thesis by (simp add: demo_cmd_def)
qed

lemma demo_service: "service {tr_run demo_funding, tr_run demo_required, tr_run demo_quoted} demo_db3"
proof -
  have ev: "tr_event demo_funding = Some (the (tr_event demo_funding))" using demo_transitions by auto
  have "vp_runId demo_payment = run_id (tr_run demo_required)" by code_simp
  moreover have "cmd_to (demo_cmd ''c'' PAYMENT_RECONCILER FUNDED 2) = FUNDED" by (simp add: demo_cmd_def)
  ultimately show ?thesis
    using service.fund [OF demo_service2 _ demo_transitions(3) [THEN conjunct1] ev demo_times _ _ demo_saved(3)] by blast
qed

lemma demo_row: "\<exists>row. db_runs demo_db3 = [row] \<and> rr_id row = ''run-1'' \<and> rr_status row = FUNDED \<and> rr_revision row = 3"
  by (simp add: demo_db3_def demo_run_row_def)

theorem service_refines_state_machine_witness:
  "\<exists>row. db_runs demo_db3 = [row] \<and> run_history (run_events demo_db3 ''run-1'') (parseRun demo_db3 row)"
  using demo_row service_refines_state_machine [OF demo_service] by fastforce

theorem paid_exactly_with_receipt_witness:
  "\<exists>row. db_runs demo_db3 = [row] \<and> rr_status row = FUNDED \<and> ''run-1'' \<in> rc_runId ` set (db_receipts demo_db3)"
  using demo_row paid_exactly_with_receipt [OF demo_service] by force

theorem stale_write_refused_witness:
  "\<exists>e. commitExpiredRun 1 (tr_run demo_quoted) (the (tr_event demo_quoted)) demo_db3 = (Inl e, demo_db3)"
proof -
  obtain row where row: "db_runs demo_db3 = [row]" "rr_id row = ''run-1''" "rr_revision row = 3" using demo_row by blast
  have "tr_run demo_quoted \<in> {tr_run demo_funding, tr_run demo_required, tr_run demo_quoted}" by simp
  from stale_write_refused [OF demo_service this, of row "tr_run demo_quoted"] row
  show ?thesis by (simp add: demo_quoted_def demo_moved_def)
qed

end
