(* ===== verification/Reconciler.thy ===== *)
theory Reconciler
  imports Run_Store
begin

text \<open>
  The payment reconciler (\<open>packages/payment-reconciliation/src/payment-reconciler.ts\<close>): it turns a
  merchant order the provider reports as paid into a funded run, and closes runs whose payment window has
  passed.  The merchant adapter, the receipt reader and the clock are operations on a world, and so is the
  store; the locale \<open>reconciliation_store\<close> states what the reconciler relies on, and the database of
  \<open>Run_Store\<close> provides it.
\<close>

section \<open>Ports\<close>

record 'w reconciliation_ops =
  ro_loadFundableRun :: "string \<Rightarrow> ('w, fundable_run option) io"
  ro_findRunsPastPaymentDeadline :: "int \<Rightarrow> nat \<Rightarrow> ('w, expirable_run list) io"
  ro_commitExpiredRun :: "int \<Rightarrow> run_aggregate \<Rightarrow> run_transitioned_event \<Rightarrow> ('w, unit) io"
  ro_commitFundedRun :: "int \<Rightarrow> run_aggregate \<Rightarrow> run_transitioned_event \<Rightarrow> verified_payment \<Rightarrow> ('w, unit) io"

record 'w reconciler_env =
  re_getOrderStatus :: "string \<Rightarrow> ('w, merchant_order) io"
  re_getOrderProof :: "string \<Rightarrow> ('w, payment_proof) io"
  re_getTransactionReceipt :: "int \<Rightarrow> string \<Rightarrow> ('w, chain_receipt option) io"
  re_now :: "('w, int) io"

section \<open>The reconciler\<close>

text \<open>What the settlement must match: the terms of the quote, never those the provider reports.\<close>

definition expectation_of :: "fundable_run \<Rightarrow> settlement_expectation option" where
  "expectation_of c = map_option (\<lambda>(chainId, token, recipient).
     \<lparr>se_chainId = chainId, se_tokenAddress = token, se_payerAddress = qr_requesterAddress (q_request (fr_quote c)),
      se_recipientAddress = recipient, se_atomicAmount = q_totalAtomicAmount (fr_quote c),
      se_orderId = mo_orderId (fr_paymentOrder c)\<rparr>) (quote_terms (fr_quote c))"

definition funding_command :: "run_aggregate \<Rightarrow> payment_proof \<Rightarrow> string \<Rightarrow> transition_command" where
  "funding_command run proof verifiedAt =
    \<lparr>cmd_actor = PAYMENT_RECONCILER, cmd_expectedRevision = run_revision run,
     cmd_idempotencyKey = ''customer-payment:'' @ to_lower (mp_transactionHash proof) @ '':''
       @ int_to_string (mp_logIndex proof),
     cmd_occurredAt = verifiedAt, cmd_to = FUNDED\<rparr>"

text \<open>A confirmed order as the provider reports it now; otherwise the order has expired or is not paid yet.\<close>

definition confirmed_order :: "'w reconciler_env \<Rightarrow> string \<Rightarrow> ('w, merchant_order) io" where
  "confirmed_order X orderId =
    io_bind (re_getOrderStatus X orderId) (\<lambda>order.
    if mo_status order \<noteq> Order_PAYMENT_CONFIRMED \<and> mo_status order \<noteq> Order_INVOICED
    then io_bind (re_now X) (\<lambda>now.
      if (case date_parse (mo_expiresAt order) of None \<Rightarrow> False | Some t \<Rightarrow> t \<le> now)
      then io_throw (Payment_order_expired (mo_orderId order))
      else io_throw (Payment_not_ready (order_status_name (mo_status order))))
    else io_ret order)"

definition fund_verified ::
  "platform \<Rightarrow> log_parser \<Rightarrow> 'w reconciler_env \<Rightarrow> 'w reconciliation_ops \<Rightarrow> string \<Rightarrow> fundable_run \<Rightarrow>
   merchant_order \<Rightarrow> payment_proof \<Rightarrow> chain_receipt \<Rightarrow> ('w, verified_payment) io" where
  "fund_verified P parse_log X T runId c order proof receipt =
    (case expectation_of c of None \<Rightarrow> io_throw (Zod_error [''capabilitySnapshot''])
     | Some expected \<Rightarrow>
        let verification = verifySettlement P parse_log order proof receipt expected in
        if \<not> sv_valid verification then io_throw (Settlement_rejected (sv_failureCodes verification))
        else
          io_bind (re_now X) (\<lambda>now.
          io_bind (io_lift (transitionRun (fr_run c) (funding_command (fr_run c) proof (to_iso_string now)))) (\<lambda>transitioned.
          case tr_event transitioned of
            None \<Rightarrow> io_throw (Js_error ''Payment reconciliation transition produced no event'')
          | Some ev \<Rightarrow>
              let payment = \<lparr>vp_runId = runId, vp_order = order, vp_proof = proof, vp_receipt = receipt,
                 vp_proofHash = pf_keccak_text P (sv_paymentProofHashMaterial verification),
                 vp_verifiedAt = to_iso_string now\<rparr> in
              io_then (ro_commitFundedRun T (run_revision (fr_run c)) (tr_run transitioned) ev payment)
              (io_ret payment))))"

definition reconcile_loaded ::
  "platform \<Rightarrow> log_parser \<Rightarrow> 'w reconciler_env \<Rightarrow> 'w reconciliation_ops \<Rightarrow> string \<Rightarrow> fundable_run \<Rightarrow>
   ('w, verified_payment) io" where
  "reconcile_loaded P parse_log X T runId c =
    (if run_status_of (fr_run c) = FUNDED \<and> unless_empty (fr_customerPaymentProofHash c) \<noteq> None
     then (case fr_customerPayment c of
         None \<Rightarrow> io_throw (Js_error ''Funded run is missing its immutable verified customer payment'')
       | Some p \<Rightarrow>
           if to_lower (vp_proofHash p) = to_lower (the (fr_customerPaymentProofHash c)) then io_ret p
           else io_throw (Js_error ''Funded run is missing its immutable verified customer payment''))
     else if run_status_of (fr_run c) \<noteq> PAYMENT_REQUIRED
     then io_throw (Js_error (''Run '' @ runId @ '' is not awaiting payment''))
     else
       io_bind (confirmed_order X (mo_orderId (fr_paymentOrder c))) (\<lambda>order.
       io_bind (re_getOrderProof X (mo_orderId order)) (\<lambda>proof.
       io_bind (re_getTransactionReceipt X (mo_chainId order) (mp_transactionHash proof)) (\<lambda>found.
       case found of None \<Rightarrow> io_throw (Receipt_not_yet_available (mp_transactionHash proof))
       | Some receipt \<Rightarrow> fund_verified P parse_log X T runId c order proof receipt))))"

definition reconcile ::
  "platform \<Rightarrow> log_parser \<Rightarrow> 'w reconciler_env \<Rightarrow> 'w reconciliation_ops \<Rightarrow> string \<Rightarrow> ('w, verified_payment) io" where
  "reconcile P parse_log X T runId =
    io_bind (ro_loadFundableRun T runId) (\<lambda>context.
    case context of None \<Rightarrow> io_throw (Js_error (''Fundable run not found: '' @ runId))
    | Some c \<Rightarrow> reconcile_loaded P parse_log X T runId c)"

text \<open>Expiry is recorded at least a second after the run's last event.\<close>

definition expiry_command :: "run_aggregate \<Rightarrow> string \<Rightarrow> int \<Rightarrow> transition_command" where
  "expiry_command run key t =
    \<lparr>cmd_actor = SYSTEM, cmd_expectedRevision = run_revision run, cmd_idempotencyKey = key,
     cmd_occurredAt = to_iso_string t, cmd_to = EXPIRED\<rparr>"

definition expire :: "'w reconciler_env \<Rightarrow> 'w reconciliation_ops \<Rightarrow> run_aggregate \<Rightarrow> string \<Rightarrow> ('w, bool) io" where
  "expire X T run key =
    io_bind (re_now X) (\<lambda>now.
    case date_parse (run_updatedAt run) of None \<Rightarrow> io_throw (Js_error ''Invalid time value'')
    | Some t \<Rightarrow>
      io_bind (io_lift (transitionRun run (expiry_command run key (max now (t + 1000))))) (\<lambda>transitioned.
      case tr_event transitioned of None \<Rightarrow> io_ret False
      | Some ev \<Rightarrow>
          io_then (ro_commitExpiredRun T (run_revision run) (tr_run transitioned) ev) (io_ret True)))"

definition expireRun :: "'w reconciler_env \<Rightarrow> 'w reconciliation_ops \<Rightarrow> string \<Rightarrow> ('w, bool) io" where
  "expireRun X T runId =
    io_bind (ro_loadFundableRun T runId) (\<lambda>context.
    case context of None \<Rightarrow> io_ret False
    | Some c \<Rightarrow>
        if run_status_of (fr_run c) \<noteq> PAYMENT_REQUIRED then io_ret False
        else expire X T (fr_run c) (''payment-order-expired:'' @ mo_orderId (fr_paymentOrder c)))"

fun expire_each :: "'w reconciler_env \<Rightarrow> 'w reconciliation_ops \<Rightarrow> expirable_run list \<Rightarrow> ('w, string list) io" where
  "expire_each X T [] = io_ret []"
| "expire_each X T (due # rest) =
    io_bind (expire X T (er_run due) (''payment-deadline-passed:'' @ er_deadline due)) (\<lambda>done.
    io_bind (expire_each X T rest) (\<lambda>expired.
    io_ret (if done then run_id (er_run due) # expired else expired)))"

definition sweepExpiredRuns :: "'w reconciler_env \<Rightarrow> 'w reconciliation_ops \<Rightarrow> nat \<Rightarrow> ('w, string list) io" where
  "sweepExpiredRuns X T limit =
    io_bind (re_now X) (\<lambda>now.
    io_bind (ro_findRunsPastPaymentDeadline T now limit) (\<lambda>candidates. expire_each X T candidates))"

section \<open>What the reconciler relies on\<close>

text \<open>
  \<open>valid\<close> is the store's invariant, \<open>knows w run\<close> that \<open>run\<close> was current in \<open>w\<close> or earlier, \<open>leads w w'\<close> that
  \<open>w'\<close> is reached from \<open>w\<close> by writers that keep both, \<open>funded w p\<close> that the run of \<open>p\<close> is paid by \<open>p\<close>.
\<close>

definition successor :: "run_aggregate \<Rightarrow> run_status \<Rightarrow> run_aggregate \<Rightarrow> run_transitioned_event \<Rightarrow> bool" where
  "successor run to run' ev \<longleftrightarrow> (\<exists>c r. transitionRun run c = Inr r \<and> tr_event r = Some ev \<and> tr_run r = run'
     \<and> cmd_to c = to \<and> canonical_time (cmd_occurredAt c))"

locale reconciliation_store =
  fixes T :: "'w reconciliation_ops"
    and valid :: "'w \<Rightarrow> bool"
    and knows :: "'w \<Rightarrow> run_aggregate \<Rightarrow> bool"
    and leads :: "'w \<Rightarrow> 'w \<Rightarrow> bool"
    and funded :: "'w \<Rightarrow> verified_payment \<Rightarrow> bool"
  assumes leads_refl: "leads w w"
    and leads_trans: "leads w w1 \<Longrightarrow> leads w1 w2 \<Longrightarrow> leads w w2"
    and leads_knows: "leads w w1 \<Longrightarrow> valid w \<Longrightarrow> knows w run \<Longrightarrow> knows w1 run"
    and leads_valid: "leads w w1 \<Longrightarrow> valid w \<Longrightarrow> valid w1"
    and load_reads: "snd (ro_loadFundableRun T i w) = w"
    and load_knows: "fst (ro_loadFundableRun T i w) = Inr (Some c) \<Longrightarrow> valid w \<Longrightarrow>
      knows w (fr_run c) \<and> run_id (fr_run c) = i"
    and load_funded: "fst (ro_loadFundableRun T i w) = Inr (Some c) \<Longrightarrow> valid w \<Longrightarrow>
      fr_customerPayment c = Some p \<Longrightarrow> funded w p \<and> vp_runId p = i"
    and find_reads: "snd (ro_findRunsPastPaymentDeadline T now n w) = w"
    and find_knows: "fst (ro_findRunsPastPaymentDeadline T now n w) = Inr found \<Longrightarrow> valid w \<Longrightarrow>
      x \<in> set found \<Longrightarrow> knows w (er_run x)"
    and fund_refused: "fst (ro_commitFundedRun T k run ev p w) = Inl e \<Longrightarrow> snd (ro_commitFundedRun T k run ev p w) = w"
    and fund_commits: "ro_commitFundedRun T (run_revision run) run' ev p w = (Inr (), w1) \<Longrightarrow> valid w \<Longrightarrow>
      knows w run \<Longrightarrow> successor run FUNDED run' ev \<Longrightarrow> vp_runId p = run_id run \<Longrightarrow> leads w w1 \<and> funded w1 p"
    and expire_refused: "fst (ro_commitExpiredRun T k run ev w) = Inl e \<Longrightarrow> snd (ro_commitExpiredRun T k run ev w) = w"
    and expire_commits: "ro_commitExpiredRun T (run_revision run) run' ev w = (Inr (), w1) \<Longrightarrow> valid w \<Longrightarrow>
      knows w run \<Longrightarrow> successor run EXPIRED run' ev \<Longrightarrow> leads w w1"

text \<open>Calls outside the store may take long while other writers work; the clock shows a four-digit year.\<close>

definition environment_respects :: "('w \<Rightarrow> 'w \<Rightarrow> bool) \<Rightarrow> 'w reconciler_env \<Rightarrow> bool" where
  "environment_respects leads X \<longleftrightarrow>
    (\<forall>i w. leads w (snd (re_getOrderStatus X i w))) \<and> (\<forall>i w. leads w (snd (re_getOrderProof X i w)))
    \<and> (\<forall>n h w. leads w (snd (re_getTransactionReceipt X n h w)))
    \<and> (\<forall>w. leads w (snd (re_now X w)))
    \<and> (\<forall>w t. fst (re_now X w) = Inr t \<longrightarrow> 0 \<le> t \<and> t < 253402300800000)"

text \<open>What a returned payment is: the stored one of a funded run, or one that settles the quote of the run.\<close>

definition settles :: "platform \<Rightarrow> log_parser \<Rightarrow> fundable_run \<Rightarrow> verified_payment \<Rightarrow> bool" where
  "settles P parse_log c p \<longleftrightarrow> (\<exists>expected. expectation_of c = Some expected
     \<and> sv_valid (verifySettlement P parse_log (vp_order p) (vp_proof p) (vp_receipt p) expected)
     \<and> vp_proofHash p = pf_keccak_text P
         (sv_paymentProofHashMaterial (verifySettlement P parse_log (vp_order p) (vp_proof p) (vp_receipt p) expected)))"

context reconciliation_store begin

text \<open>Facts about the world that survive the environment's calls, relative to the world the operation began in.\<close>

definition since :: "'w \<Rightarrow> 'w \<Rightarrow> bool" where
  "since w0 w \<longleftrightarrow> leads w0 w \<and> valid w"

abbreviation guarded :: "'w \<Rightarrow> exn \<Rightarrow> 'w \<Rightarrow> bool" where
  "guarded w0 \<equiv> (\<lambda>e w. since w0 w)"

definition holds :: "'w \<Rightarrow> run_aggregate \<Rightarrow> 'w \<Rightarrow> bool" where
  "holds w0 run w \<longleftrightarrow> since w0 w \<and> knows w run"

lemma holds_since: "holds w0 run w \<Longrightarrow> since w0 w"
  by (simp add: holds_def)

lemma env_triple:
  assumes "\<And>w. leads w (snd (m w))"
  shows "io_triple (holds w0 run) m (\<lambda>a w. holds w0 run w \<and> (\<exists>v. fst (m v) = Inr a)) (guarded w0)"
proof (rule tripleI)
  fix w a w1 assume "holds w0 run w" and m: "m w = (Inr a, w1)"
  moreover have "leads w w1" using assms [of w] m by simp
  moreover have "\<exists>v. fst (m v) = Inr a" using m by (metis fst_conv)
  ultimately show "holds w0 run w1 \<and> (\<exists>v. fst (m v) = Inr a)"
    unfolding holds_def since_def using leads_trans leads_valid leads_knows by blast
next
  fix w e w1 assume "holds w0 run w" and m: "m w = (Inl e, w1)"
  moreover have "leads w w1" using assms [of w] m by simp
  ultimately show "since w0 w1" unfolding holds_def since_def using leads_trans leads_valid by blast
qed

lemma fund_triple:
  assumes "successor run FUNDED run' ev" and "vp_runId p = run_id run"
  shows "io_triple (holds w0 run) (ro_commitFundedRun T (run_revision run) run' ev p)
    (\<lambda>_ w. since w0 w \<and> funded w p) (guarded w0)"
proof (rule tripleI)
  fix w a w1 assume h: "holds w0 run w" and m: "ro_commitFundedRun T (run_revision run) run' ev p w = (Inr a, w1)"
  then have "leads w w1 \<and> funded w1 p" using fund_commits [of run run' ev p w w1] assms by (simp add: holds_def since_def)
  then show "since w0 w1 \<and> funded w1 p" using h leads_trans leads_valid unfolding holds_def since_def by blast
next
  fix w e w1 assume h: "holds w0 run w" and m: "ro_commitFundedRun T (run_revision run) run' ev p w = (Inl e, w1)"
  then have "w1 = w" using fund_refused [of "run_revision run" run' ev p w e] by simp
  then show "since w0 w1" using h by (simp add: holds_def)
qed

lemma expire_triple:
  assumes "successor run EXPIRED run' ev"
  shows "io_triple (holds w0 run) (ro_commitExpiredRun T (run_revision run) run' ev) (\<lambda>_. since w0) (guarded w0)"
proof (rule tripleI)
  fix w a w1 assume h: "holds w0 run w" and m: "ro_commitExpiredRun T (run_revision run) run' ev w = (Inr a, w1)"
  then have "leads w w1" using expire_commits [of run run' ev w w1] assms by (simp add: holds_def since_def)
  then show "since w0 w1" using h leads_trans leads_valid unfolding holds_def since_def by blast
next
  fix w e w1 assume h: "holds w0 run w" and m: "ro_commitExpiredRun T (run_revision run) run' ev w = (Inl e, w1)"
  then have "w1 = w" using expire_refused [of "run_revision run" run' ev w e] by simp
  then show "since w0 w1" using h by (simp add: holds_def)
qed

lemma iso_canonical: "0 \<le> t \<Longrightarrow> t < 253402300800000 \<Longrightarrow> canonical_time (to_iso_string t)"
  by (simp add: canonical_time_def pg_time_def date_parse_to_iso_string)

lemma fund_verified_triple:
  assumes X: "environment_respects leads X" and id: "run_id (fr_run c) = runId"
  shows "io_triple (holds w0 (fr_run c)) (fund_verified P parse_log X T runId c order proof receipt)
    (\<lambda>p w. since w0 w \<and> funded w p \<and> vp_runId p = runId \<and> settles P parse_log c p) (guarded w0)"
proof (cases "expectation_of c")
  case None
  then show ?thesis by (simp add: fund_verified_def io_triple_def holds_def)
next
  case (Some expected)
  let ?v = "verifySettlement P parse_log order proof receipt expected"
  show ?thesis
  proof (cases "sv_valid ?v")
    case False
    then show ?thesis by (simp add: fund_verified_def Some Let_def io_triple_def holds_def)
  next
    case True
    let ?pay = "\<lambda>t. \<lparr>vp_runId = runId, vp_order = order, vp_proof = proof, vp_receipt = receipt,
      vp_proofHash = pf_keccak_text P (sv_paymentProofHashMaterial ?v), vp_verifiedAt = to_iso_string t\<rparr>"
    let ?cmd = "\<lambda>t. funding_command (fr_run c) proof (to_iso_string t)"
    have now: "io_triple (holds w0 (fr_run c)) (re_now X)
        (\<lambda>t w. holds w0 (fr_run c) w \<and> (0 \<le> t \<and> t < 253402300800000)) (guarded w0)"
      using X by (intro triple_post [OF env_triple]) (auto simp: environment_respects_def)
    have commit: "io_triple (holds w0 (fr_run c)) (ro_commitFundedRun T (run_revision (fr_run c)) (tr_run r) ev (?pay t))
        (\<lambda>_ w. since w0 w \<and> funded w (?pay t)) (guarded w0)"
      if "0 \<le> t \<and> t < 253402300800000" "transitionRun (fr_run c) (?cmd t) = Inr r" "tr_event r = Some ev" for t r ev
      using that id iso_canonical [of t]
      by (intro fund_triple) (auto simp: successor_def funding_command_def intro!: exI [of _ "?cmd t"])
    have settled: "settles P parse_log c (?pay t)" for t by (simp add: settles_def Some True)
    have last: "io_triple (holds w0 (fr_run c))
        (io_then (ro_commitFundedRun T (run_revision (fr_run c)) (tr_run r) ev (?pay t)) (io_ret (?pay t)))
        (\<lambda>p w. since w0 w \<and> funded w p \<and> vp_runId p = runId \<and> settles P parse_log c p) (guarded w0)"
      if "0 \<le> t \<and> t < 253402300800000" "transitionRun (fr_run c) (?cmd t) = Inr r" "tr_event r = Some ev" for t r ev
      by (rule triple_then [OF commit [OF that] triple_ret]) (simp add: settled)
    show ?thesis unfolding fund_verified_def Some option.case Let_def
    proof (rule triple_if, simp add: True, rule triple_bind [OF now], rule triple_given, rule triple_bind [OF triple_lift], simp add: holds_def)
      fix t r assume t: "0 \<le> t \<and> t < (253402300800000 :: int)"
      show "io_triple (\<lambda>w. holds w0 (fr_run c) w \<and> transitionRun (fr_run c) (?cmd t) = Inr r)
          (case tr_event r of None \<Rightarrow> io_throw (Js_error ''Payment reconciliation transition produced no event'')
           | Some ev \<Rightarrow> io_then (ro_commitFundedRun T (run_revision (fr_run c)) (tr_run r) ev (?pay t)) (io_ret (?pay t)))
          (\<lambda>p w. since w0 w \<and> funded w p \<and> vp_runId p = runId \<and> settles P parse_log c p) (guarded w0)"
        by (rule triple_given) (cases "tr_event r", auto intro!: triple_throw last [OF t] holds_since)
    qed
  qed
qed

lemma env_calls:
  assumes "environment_respects leads X"
  shows "io_triple (holds w0 run) (re_getOrderStatus X i) (\<lambda>_. holds w0 run) (guarded w0)"
    and "io_triple (holds w0 run) (re_getOrderProof X i) (\<lambda>_. holds w0 run) (guarded w0)"
    and "io_triple (holds w0 run) (re_getTransactionReceipt X n h) (\<lambda>_. holds w0 run) (guarded w0)"
    and "io_triple (holds w0 run) (re_now X) (\<lambda>_. holds w0 run) (guarded w0)"
  using assms unfolding environment_respects_def
  by (auto intro!: triple_post [OF env_triple])

lemma confirmed_order_triple:
  assumes "environment_respects leads X"
  shows "io_triple (holds w0 run) (confirmed_order X orderId) (\<lambda>_. holds w0 run) (guarded w0)"
  unfolding confirmed_order_def
  by (rule triple_bind [OF env_calls(1) [OF assms]], rule triple_if,
      rule triple_bind [OF env_calls(4) [OF assms]], rule triple_if)
    (auto intro!: triple_throw triple_ret holds_since)

lemma reconcile_loaded_triple:
  assumes X: "environment_respects leads X" and id: "run_id (fr_run c) = runId"
    and due: "run_status_of (fr_run c) = PAYMENT_REQUIRED"
  shows "io_triple (holds w0 (fr_run c)) (reconcile_loaded P parse_log X T runId c)
    (\<lambda>p w. since w0 w \<and> funded w p \<and> vp_runId p = runId \<and> settles P parse_log c p) (guarded w0)"
proof -
  have rest: "io_triple (holds w0 (fr_run c))
      (case found of None \<Rightarrow> io_throw (Receipt_not_yet_available (mp_transactionHash pay))
       | Some receipt \<Rightarrow> fund_verified P parse_log X T runId c order pay receipt)
      (\<lambda>p w. since w0 w \<and> funded w p \<and> vp_runId p = runId \<and> settles P parse_log c p) (guarded w0)" for found order pay
    by (cases found) (auto intro!: triple_throw holds_since triple_post [OF fund_verified_triple [OF X id]])
  note steps = triple_bind [OF confirmed_order_triple [OF X]] triple_bind [OF env_calls(2) [OF X]]
    triple_bind [OF env_calls(3) [OF X]]
  show ?thesis unfolding reconcile_loaded_def due
    by (simp, rule steps, rule steps, rule steps, rule rest)
qed

lemma reconcile_sound:
  assumes X: "environment_respects leads X" and v: "valid w"
    and run: "reconcile P parse_log X T runId w = (res, w1)"
  shows "leads w w1 \<and> (\<forall>p. res = Inr p \<longrightarrow> funded w1 p \<and> vp_runId p = runId
    \<and> (\<exists>c. fst (ro_loadFundableRun T runId w) = Inr (Some c)
        \<and> (run_status_of (fr_run c) = PAYMENT_REQUIRED \<longrightarrow> settles P parse_log c p)
        \<and> (run_status_of (fr_run c) \<noteq> PAYMENT_REQUIRED \<longrightarrow> w1 = w \<and> fr_customerPayment c = Some p)))"
proof -
  have same: "snd (ro_loadFundableRun T runId w) = w" by (rule load_reads)
  show ?thesis
  proof (cases "\<exists>c. fst (ro_loadFundableRun T runId w) = Inr (Some c)")
    case False
    then show ?thesis using run same leads_refl
      by (cases "ro_loadFundableRun T runId w") (auto simp: reconcile_def io_bind_apply split: sum.splits option.splits)
  next
    case True
    then obtain c where c: "ro_loadFundableRun T runId w = (Inr (Some c), w)" using same by (metis prod.collapse)
    then have k: "knows w (fr_run c)" "run_id (fr_run c) = runId" using load_knows [of runId w c] v by simp_all
    then have h: "holds w (fr_run c) w" using v by (simp add: holds_def since_def leads_refl)
    have body: "reconcile_loaded P parse_log X T runId c w = (res, w1)" using run c by (simp add: reconcile_def io_bind_apply)
    show ?thesis
    proof (cases "run_status_of (fr_run c) = PAYMENT_REQUIRED")
      case True
      from reconcile_loaded_triple [OF X k(2) True, of w P parse_log]
      show ?thesis using h body c True by (cases res) (auto simp: io_triple_def since_def)
    next
      case False
      then have "w1 = w \<and> (\<forall>p. res = Inr p \<longrightarrow> fr_customerPayment c = Some p)"
        using body by (auto simp: reconcile_loaded_def split: if_splits option.splits)
      moreover have "funded w p \<and> vp_runId p = runId" if "fr_customerPayment c = Some p" for p
        using load_funded [of runId w c p] c v that by simp
      moreover have "fst (ro_loadFundableRun T runId w) = Inr (Some c)" by (simp add: c)
      ultimately show ?thesis using leads_refl [of w] False by blast
    qed
  qed
qed

lemma expire_keeps:
  assumes X: "environment_respects leads X"
    and early: "\<And>t. date_parse (run_updatedAt run) = Some t \<Longrightarrow> - 1000 \<le> t \<and> t < 253402300799000"
  shows "io_triple (holds w0 run) (expire X T run key) (\<lambda>_. since w0) (guarded w0)"
proof (cases "date_parse (run_updatedAt run)")
  case None
  then show ?thesis unfolding expire_def
    by (auto intro!: triple_bind [OF env_calls(4) [OF X]] triple_throw holds_since)
next
  case (Some u)
  let ?cmd = "\<lambda>t. expiry_command run key (max t (u + 1000))"
  have now: "io_triple (holds w0 run) (re_now X)
      (\<lambda>t w. holds w0 run w \<and> (0 \<le> t \<and> t < 253402300800000)) (guarded w0)"
    using X by (intro triple_post [OF env_triple]) (auto simp: environment_respects_def)
  have commit: "io_triple (holds w0 run)
      (io_then (ro_commitExpiredRun T (run_revision run) (tr_run r) ev) (io_ret True)) (\<lambda>_. since w0) (guarded w0)"
    if t: "0 \<le> t \<and> t < 253402300800000" and r: "transitionRun run (?cmd t) = Inr r" "tr_event r = Some ev" for t r ev
  proof -
    have "canonical_time (to_iso_string (max t (u + 1000)))" using t early [OF Some] by (intro iso_canonical) auto
    then have "successor run EXPIRED (tr_run r) ev"
      using r by (auto simp: successor_def expiry_command_def intro!: exI [of _ "?cmd t"])
    from triple_then [OF expire_triple [OF this] triple_ret] show ?thesis by simp
  qed
  show ?thesis unfolding expire_def Some option.case
  proof (rule triple_bind [OF now], rule triple_given, rule triple_bind [OF triple_lift], simp add: holds_since)
    fix t r assume t: "0 \<le> t \<and> t < (253402300800000 :: int)"
    show "io_triple (\<lambda>w. holds w0 run w \<and> transitionRun run (?cmd t) = Inr r)
        (case tr_event r of None \<Rightarrow> io_ret False
         | Some ev \<Rightarrow> io_then (ro_commitExpiredRun T (run_revision run) (tr_run r) ev) (io_ret True))
        (\<lambda>_. since w0) (guarded w0)"
      by (rule triple_given) (cases "tr_event r", auto intro!: triple_ret commit [OF t] holds_since)
  qed
qed

lemma expire_each_keeps:
  assumes X: "environment_respects leads X" and v: "valid w0"
    and k: "list_all (\<lambda>x. knows w0 (er_run x)) found"
    and early: "\<And>x t. x \<in> set found \<Longrightarrow> date_parse (run_updatedAt (er_run x)) = Some t \<Longrightarrow> - 1000 \<le> t \<and> t < 253402300799000"
  shows "io_triple (since w0) (expire_each X T found) (\<lambda>_. since w0) (guarded w0)"
  using k early
proof (induction found)
  case Nil
  then show ?case by (simp add: io_triple_def)
next
  case (Cons x found)
  let ?key = "''payment-deadline-passed:'' @ er_deadline x"
  have "io_triple (holds w0 (er_run x)) (expire X T (er_run x) ?key) (\<lambda>_. since w0) (guarded w0)"
    by (rule expire_keeps [OF X]) (use Cons.prems(2) [of x] in simp)
  moreover have "holds w0 (er_run x) w" if "since w0 w" for w
    using that leads_knows [of w0 w "er_run x"] Cons.prems(1) v by (simp add: holds_def since_def)
  ultimately have first: "io_triple (since w0) (expire X T (er_run x) ?key) (\<lambda>_. since w0) (guarded w0)"
    using triple_pre by blast
  have others: "io_triple (since w0) (expire_each X T found) (\<lambda>_. since w0) (guarded w0)"
    using Cons by (intro Cons.IH) auto
  show ?case unfolding expire_each.simps
    by (rule triple_bind [OF first], rule triple_bind [OF others], rule triple_ret)
qed

end

section \<open>The database as the store\<close>

text \<open>Outside the tables the environment has a state of its own.\<close>

definition on_db :: "(database, 'a) io \<Rightarrow> (database \<times> 'e, 'a) io" where
  "on_db m = (\<lambda>(db, e). case m db of (r, db') \<Rightarrow> (r, (db', e)))"

definition db_store :: "platform \<Rightarrow> (string \<Rightarrow> bool) \<Rightarrow> (database \<times> 'e) reconciliation_ops" where
  "db_store P datetime = \<lparr>ro_loadFundableRun = (\<lambda>runId. on_db (loadFundableRun P datetime runId)),
     ro_findRunsPastPaymentDeadline = (\<lambda>now limit. on_db (findRunsPastPaymentDeadline now limit)),
     ro_commitExpiredRun = (\<lambda>n run ev. on_db (commitExpiredRun n run ev)),
     ro_commitFundedRun = (\<lambda>n run ev p. on_db (commitFundedRun n run ev p))\<rparr>"

definition paid_by :: "database \<Rightarrow> verified_payment \<Rightarrow> bool" where
  "paid_by db p \<longleftrightarrow> (\<exists>row \<in> set (db_runs db). rr_id row = vp_runId p \<and> is_paid (rr_status row))
    \<and> (\<exists>rc \<in> set (db_receipts db). rc_runId rc = vp_runId p \<and> rc_payload rc = (vp_proof p, vp_receipt p)
         \<and> to_lower (rc_proofHash rc) = to_lower (vp_proofHash p))"

definition db_valid :: "database \<times> 'e \<Rightarrow> bool" where
  "db_valid w \<longleftrightarrow> store_inv {} (fst w)"

definition db_knows :: "database \<times> 'e \<Rightarrow> run_aggregate \<Rightarrow> bool" where
  "db_knows w run \<longleftrightarrow> known_run (fst w) run"

definition db_leads :: "database \<times> 'e \<Rightarrow> database \<times> 'e \<Rightarrow> bool" where
  "db_leads w w1 \<longleftrightarrow> (db_valid w \<longrightarrow> db_valid w1 \<and> (\<forall>run. db_knows w run \<longrightarrow> db_knows w1 run))"

definition db_funded :: "database \<times> 'e \<Rightarrow> verified_payment \<Rightarrow> bool" where
  "db_funded w p \<longleftrightarrow> paid_by (fst w) p"

lemma on_db_apply: "on_db m (db, e) = (fst (m db), (snd (m db), e))"
  by (simp add: on_db_def split: prod.splits)

lemma loadFundableRun_reads: "snd (loadFundableRun P datetime i db) = db"
  by (auto simp: loadFundableRun_def io_bind_apply io_then_apply ensure_def split: option.splits sum.splits prod.splits)

lemma loadFundableRun_found:
  assumes "fst (loadFundableRun P datetime i db) = Inr (Some c)"
  shows "\<exists>row \<in> set (db_runs db). rr_id row = i \<and> fr_run c = parseRun db row
    \<and> (\<forall>p. fr_customerPayment c = Some p \<longrightarrow> (\<exists>rc \<in> set (db_receipts db). rc_runId rc = i
         \<and> parseCustomerPayment rc (fr_paymentOrder c) = Inr p))"
proof -
  obtain row where row: "find (\<lambda>r. rr_id r = i) (db_runs db) = Some row"
    using assms by (cases "find (\<lambda>r. rr_id r = i) (db_runs db)") (auto simp: loadFundableRun_def io_bind_apply)
  then have "row \<in> set (db_runs db)" "rr_id row = i" by (auto simp: find_Some_iff)
  moreover have "fr_run c = parseRun db row \<and> (\<forall>p. fr_customerPayment c = Some p \<longrightarrow>
      (\<exists>rc \<in> set (db_receipts db). rc_runId rc = i \<and> parseCustomerPayment rc (fr_paymentOrder c) = Inr p))"
    using assms row
    by (auto simp: loadFundableRun_def io_bind_apply io_then_apply ensure_def find_Some_iff res_bind_def
      split: option.splits sum.splits prod.splits if_splits)
  ultimately show ?thesis by blast
qed

lemma parse_paid: "parseCustomerPayment rc order = Inr p \<Longrightarrow>
    vp_runId p = rc_runId rc \<and> rc_payload rc = (vp_proof p, vp_receipt p) \<and> vp_proofHash p = rc_proofHash rc"
  by (auto simp: parseCustomerPayment_def Let_def split: if_splits)

text \<open>One accepted command, committed: every aggregate known before is known after.\<close>

lemma leads_follow:
  assumes valid: "store_inv {} db" and k: "known_run db run" and t: "transitionRun run c = Inr r" "tr_event r = Some ev"
    and tab: "\<And>S. run \<in> S \<Longrightarrow> store_inv S db \<Longrightarrow> tables_follow run (tr_run r) ev db db'"
  shows "store_inv {} db' \<and> (\<forall>a. known_run db a \<longrightarrow> known_run db' a)"
proof -
  let ?S = "{a. known_run db a}"
  have inv: "store_inv ?S db" using valid store_inv_known [of ?S db] by simp
  have "store_inv (insert (tr_run r) ?S) db'"
    using store_advance [OF inv _ t tab [OF _ inv]] k by simp
  then show ?thesis using store_inv_known [of "insert (tr_run r) ?S" db'] by blast
qed

lemma funded_is_paid:
  assumes "commitFundedRun n run' ev p db = (Inr (), db')" and "store_inv {} db'" and "vp_runId p \<in> rr_id ` set (db_runs db')"
  shows "paid_by db' p"
proof -
  obtain rc where rc: "receipt_row_of p = Inr rc" "rc \<in> set (db_receipts db')"
    using assms(1) by (auto simp: commitFundedRun_def io_ok insertReceipt_def insert_outbox_def
      dest!: transaction_ok insert_event_ok update_runs_ok)
  have f: "rc_runId rc = vp_runId p" "rc_payload rc = (vp_proof p, vp_receipt p)" "rc_proofHash rc = to_lower (vp_proofHash p)"
    using rc(1) by (auto simp: receipt_row_of_def res_bind_Inr_iff hexToBuffer_def split: if_splits)
  obtain row where row: "row \<in> set (db_runs db')" "rr_id row = vp_runId p" using assms(3) by auto
  moreover have "is_paid (rr_status row)"
    using store_invD(4) [OF assms(2) row(1)] row(2) rc(2) f(1) by (metis imageI)
  ultimately show ?thesis unfolding paid_by_def using rc(2) f by (auto simp: to_lower_idem intro!: bexI [of _ row] bexI [of _ rc])
qed

lemma fund_leads:
  assumes valid: "store_inv {} db" and k: "known_run db run" and s: "successor run FUNDED run' ev"
    and p: "vp_runId p = run_id run" and ok: "commitFundedRun (run_revision run) run' ev p db = (Inr (), db')"
  shows "store_inv {} db' \<and> (\<forall>a. known_run db a \<longrightarrow> known_run db' a) \<and> paid_by db' p"
proof -
  obtain c r where c: "transitionRun run c = Inr r" "tr_event r = Some ev" "tr_run r = run'" "cmd_to c = FUNDED"
    "canonical_time (cmd_occurredAt c)" using s by (auto simp: successor_def)
  have "tables_follow run (tr_run r) ev db db'" if "run \<in> S" "store_inv S db" for S
    using fund_follows [OF that(2,1) c(1,2,5,4) p] ok c(3) by simp
  from leads_follow [OF valid k c(1,2) this]
  have l: "store_inv {} db' \<and> (\<forall>a. known_run db a \<longrightarrow> known_run db' a)" .
  then have "known_run db' run" using k by blast
  then have "vp_runId p \<in> rr_id ` set (db_runs db')" using p by (auto simp: known_run_def intro: image_eqI [OF sym])
  then show ?thesis using l funded_is_paid [OF ok] by blast
qed

lemma expire_leads:
  assumes valid: "store_inv {} db" and k: "known_run db run" and s: "successor run EXPIRED run' ev"
    and ok: "commitExpiredRun (run_revision run) run' ev db = (Inr (), db')"
  shows "store_inv {} db' \<and> (\<forall>a. known_run db a \<longrightarrow> known_run db' a)"
proof -
  obtain c r where c: "transitionRun run c = Inr r" "tr_event r = Some ev" "tr_run r = run'" "cmd_to c = EXPIRED"
    "canonical_time (cmd_occurredAt c)" using s by (auto simp: successor_def)
  have "tables_follow run (tr_run r) ev db db'" if "run \<in> S" "store_inv S db" for S
    using expire_follows [OF that(2,1) c(1,2,5,4)] ok c(3) by simp
  from leads_follow [OF valid k c(1,2) this] show ?thesis .
qed

lemma refused_unchanged: "fst (transaction m db) = Inl e \<Longrightarrow> snd (transaction m db) = db"
  by (auto simp: transaction_def split: prod.splits sum.splits)

lemma db_store_ops:
  "ro_loadFundableRun (db_store P datetime) i (db, e) = (fst (loadFundableRun P datetime i db), (db, e))"
  "ro_findRunsPastPaymentDeadline (db_store P datetime) now n (db, e) = (fst (findRunsPastPaymentDeadline now n db), (db, e))"
  "ro_commitFundedRun (db_store P datetime) k run ev p (db, e)
    = (fst (commitFundedRun k run ev p db), (snd (commitFundedRun k run ev p db), e))"
  "ro_commitExpiredRun (db_store P datetime) k run ev (db, e)
    = (fst (commitExpiredRun k run ev db), (snd (commitExpiredRun k run ev db), e))"
  by (simp_all add: db_store_def on_db_apply loadFundableRun_reads findRunsPastPaymentDeadline_def)

lemma found_known:
  "fst (findRunsPastPaymentDeadline now n db) = Inr found \<Longrightarrow> x \<in> set found \<Longrightarrow> known_run db (er_run x)"
  by (auto simp: findRunsPastPaymentDeadline_def known_run_row dest!: in_set_takeD)

lemma loaded_paid:
  assumes "store_inv {} db" and "fst (loadFundableRun P datetime i db) = Inr (Some c)" and "fr_customerPayment c = Some p"
  shows "paid_by db p \<and> vp_runId p = i"
proof -
  obtain row rc where row: "row \<in> set (db_runs db)" "rr_id row = i"
    and rc: "rc \<in> set (db_receipts db)" "rc_runId rc = i" "parseCustomerPayment rc (fr_paymentOrder c) = Inr p"
    using loadFundableRun_found [OF assms(2)] assms(3) by blast
  have "is_paid (rr_status row)" using store_invD(4) [OF assms(1) row(1)] row(2) rc(1,2) by (metis imageI)
  then show ?thesis unfolding paid_by_def using row rc(1,2) parse_paid [OF rc(3)] by auto
qed

interpretation db: reconciliation_store "db_store P datetime" db_valid db_knows db_leads db_funded
proof (unfold_locales, unfold split_paired_all db_store_ops db_leads_def db_valid_def db_knows_def db_funded_def fst_conv snd_conv,
    goal_cases)
  case (6 i db e c)
  then show ?case using loadFundableRun_found [OF 6(1)] known_run_row by (auto simp: parseRun_def)
next
  case (7 i db e c p)
  then show ?case using loaded_paid by blast
next
  case (9 now n db e found x)
  then show ?case using found_known by blast
next
  case (10 k run ev p db e err)
  then show ?case using refused_unchanged unfolding commitFundedRun_def by simp
next
  case (11 run run' ev p db e db' e')
  then show ?case using fund_leads [of db run run' ev p db'] by (simp add: prod_eq_iff)
next
  case (12 k run ev db e err)
  then show ?case using refused_unchanged unfolding commitExpiredRun_def by simp
next
  case (13 run run' ev db e db' e')
  then show ?case using expire_leads [of db run run' ev db'] by (simp add: prod_eq_iff)
qed simp_all

section \<open>Properties\<close>

text \<open>
  C10: the reconciler pays only what settled: when \<open>reconcile\<close> returns a payment, however other writers
  worked on the tables while it waited for the merchant and the chain, the run is in a paid status with a
  receipt that holds this proof and this chain receipt, the tables still refine the state machine, and the
  payment is either the one stored before (nothing was written) or passes the settlement verifier against
  the terms of the run's own quote, its proof hash included.
\<close>

theorem reconcile_pays_only_settled:
  assumes "service S db" and "environment_respects db_leads X"
    and "reconcile P parse_log X (db_store P datetime) runId (db, e) = (Inr p, (db', e'))"
  shows "paid_by db' p \<and> vp_runId p = runId \<and> store_inv {} db'
    \<and> (\<exists>c. fst (loadFundableRun P datetime runId db) = Inr (Some c)
        \<and> (if run_status_of (fr_run c) = PAYMENT_REQUIRED then settles P parse_log c p
           else db' = db \<and> fr_customerPayment c = Some p))"
proof -
  have v: "db_valid (db, e)" unfolding db_valid_def fst_conv
    using store_inv_known [of S db] service_inv [OF assms(1)] by (rule iffD1 [THEN conjunct1])
  note r = db.reconcile_sound [OF assms(2) v assms(3)]
  have "store_inv {} db'" using conjunct1 [OF r] v by (simp add: db_leads_def db_valid_def)
  moreover note q = r [THEN conjunct2, THEN spec, THEN mp, OF refl]
  moreover have "paid_by db' p" using conjunct1 [OF q] by (simp add: db_funded_def)
  moreover have "vp_runId p = runId" using conjunct2 [OF q] by (rule conjunct1)
  moreover have "\<exists>c. fst (loadFundableRun P datetime runId db) = Inr (Some c)
        \<and> (if run_status_of (fr_run c) = PAYMENT_REQUIRED then settles P parse_log c p
           else db' = db \<and> fr_customerPayment c = Some p)"
    using q [THEN conjunct2, THEN conjunct2] unfolding db_store_ops fst_conv by auto
  ultimately show ?thesis by (intro conjI)
qed

text \<open>
  C11: a reconciliation that throws has written nothing: if the merchant and the chain do not touch the
  tables, then after an unpaid, expired, rejected or not yet indexed payment, and after a commit that lost
  its race, every table is as it was.
\<close>

theorem reconcile_failure_writes_nothing:
  assumes "environment_respects (\<lambda>w w'. fst w' = fst w) X"
    and "reconcile P parse_log X (db_store P datetime) runId (db, e) = (Inl err, (db', e'))"
  shows "db' = db"
proof -
  let ?I = "\<lambda>w. fst w = db"
  have env: "io_triple ?I (re_getOrderStatus X i) (\<lambda>_. ?I) (\<lambda>_. ?I)" "io_triple ?I (re_getOrderProof X i) (\<lambda>_. ?I) (\<lambda>_. ?I)"
    "io_triple ?I (re_getTransactionReceipt X n h) (\<lambda>_. ?I) (\<lambda>_. ?I)" "io_triple ?I (re_now X) (\<lambda>_. ?I) (\<lambda>_. ?I)" for i n h
    using assms(1) unfolding environment_respects_def by (auto intro!: tripleI) (metis snd_conv fst_conv)+
  have commit: "io_triple ?I (ro_commitFundedRun (db_store P datetime) k run ev p) (\<lambda>_ _. True) (\<lambda>_. ?I)" for k run ev p
    by (auto intro!: tripleI simp: db_store_ops commitFundedRun_def dest!: refused_unchanged)
  have load: "io_triple ?I (ro_loadFundableRun (db_store P datetime) runId) (\<lambda>_. ?I) (\<lambda>_. ?I)"
    by (auto intro!: tripleI simp: db_store_ops)
  have fund: "io_triple ?I (fund_verified P parse_log X (db_store P datetime) runId c order pay receipt) (\<lambda>_ _. True) (\<lambda>_. ?I)"
    for c order pay receipt
    unfolding fund_verified_def Let_def
    by (auto intro!: triple_if triple_throw triple_ret triple_bind [OF env(4)] triple_bind [OF triple_lift]
        triple_given triple_then [OF commit] split: option.split)
  have confirmed: "io_triple ?I (confirmed_order X i) (\<lambda>_. ?I) (\<lambda>_. ?I)" for i
    unfolding confirmed_order_def
    by (rule triple_bind [OF env(1)], rule triple_if, rule triple_bind [OF env(4)], rule triple_if)
      (auto intro!: triple_throw triple_ret)
  have found: "io_triple ?I (case receipt of None \<Rightarrow> io_throw x
      | Some receipt \<Rightarrow> fund_verified P parse_log X (db_store P datetime) runId c order pay receipt) (\<lambda>_ _. True) (\<lambda>_. ?I)"
    for receipt x c order pay using fund by (cases receipt) (auto intro: triple_throw)
  note steps = triple_bind [OF confirmed] triple_bind [OF env(2)] triple_bind [OF env(3)]
  have loaded: "io_triple ?I (reconcile_loaded P parse_log X (db_store P datetime) runId c) (\<lambda>_ _. True) (\<lambda>_. ?I)" for c
    unfolding reconcile_loaded_def
    by (rule triple_if, force split: option.split intro!: triple_if triple_throw triple_ret,
        rule triple_if, rule triple_throw, assumption, rule steps, rule steps, rule steps, rule found)
  have "io_triple ?I (reconcile P parse_log X (db_store P datetime) runId) (\<lambda>_ _. True) (\<lambda>_. ?I)"
    unfolding reconcile_def by (rule triple_bind [OF load]) (auto split: option.split intro!: triple_throw loaded)
  then have "case reconcile P parse_log X (db_store P datetime) runId (db, e) of (Inr a, w') \<Rightarrow> True | (Inl x, w') \<Rightarrow> ?I w'"
    by (simp add: io_triple_def)
  then show ?thesis by (simp add: assms(2))
qed

definition demo_hashes :: platform where
  "demo_hashes = demo_platform\<lparr>pf_keccak_text := (\<lambda>s. if s = ''Transfer(address,address,uint256)'' then ''0x'' @ s
     else demo_hash32 (CHR ''8''))\<rparr>"

definition demo_env :: "(database \<times> unit) reconciler_env" where
  "demo_env = \<lparr>re_getOrderStatus = (\<lambda>_. io_ret demo_order), re_getOrderProof = (\<lambda>_. io_ret demo_proof),
     re_getTransactionReceipt = (\<lambda>_ _. io_ret (Some demo_receipt)), re_now = io_ret 1767225600000\<rparr>"

lemma demo_env_ops:
  "re_getOrderStatus demo_env i = io_ret demo_order" "re_getOrderProof demo_env i = io_ret demo_proof"
  "re_getTransactionReceipt demo_env n h = io_ret (Some demo_receipt)" "re_now demo_env = io_ret 1767225600000"
  by (simp_all add: demo_env_def)

lemma demo_env_respects: "environment_respects db_leads demo_env" "environment_respects (\<lambda>w w'. fst w' = fst w) demo_env"
  by (simp_all add: environment_respects_def demo_env_def db_leads_def)

definition demo_context :: fundable_run where
  "demo_context = \<lparr>fr_run = tr_run demo_required, fr_quote = demo_stored_quote, fr_paymentOrder = demo_order,
     fr_customerPaymentProofHash = None, fr_customerPayment = None\<rparr>"

definition demo_settled :: transition_result where
  "demo_settled = demo_moved PAYMENT_REQUIRED FUNDED PAYMENT_RECONCILER 3 [''demo-key-a'', ''demo-key-b'',
     ''customer-payment:'' @ demo_hash32 (CHR ''7'') @ '':3'']"

lemma demo_steps:
  "loadFundableRun demo_hashes (\<lambda>_. True) ''run-1'' demo_db2 = (Inr (Some demo_context), demo_db2)"
  "expectation_of demo_context = Some demo_expectation"
  "sv_valid (verifySettlement demo_hashes demo_parse_log demo_order demo_proof demo_receipt demo_expectation)"
  "pf_keccak_text demo_hashes (sv_paymentProofHashMaterial
     (verifySettlement demo_hashes demo_parse_log demo_order demo_proof demo_receipt demo_expectation)) = demo_hash32 (CHR ''8'')"
  "to_iso_string 1767225600000 = ''2026-01-01T00:00:00.000Z''"
  "transitionRun (fr_run demo_context) (funding_command (fr_run demo_context) demo_proof ''2026-01-01T00:00:00.000Z'')
     = Inr demo_settled"
  "fst (commitFundedRun 2 (tr_run demo_settled) (the (tr_event demo_settled)) demo_payment demo_db2) = Inr ()"
  by code_simp+

lemma demo_simps:
  "run_status_of (fr_run demo_context) = PAYMENT_REQUIRED" "run_revision (fr_run demo_context) = 2"
  "fr_paymentOrder demo_context = demo_order" "tr_event demo_settled = Some (the (tr_event demo_settled))"
  "mo_status demo_order = Order_PAYMENT_CONFIRMED"
  by (simp_all add: demo_context_def demo_required_def demo_settled_def demo_moved_def demo_order_def)

lemma demo_fund_verified:
  "\<exists>db'. fund_verified demo_hashes demo_parse_log demo_env (db_store demo_hashes (\<lambda>_. True)) ''run-1'' demo_context
     demo_order demo_proof demo_receipt (demo_db2, ()) = (Inr demo_payment, (db', ()))"
proof -
  obtain ev where ev: "tr_event demo_settled = Some ev" using demo_simps(4) by blast
  have p: "\<lparr>vp_runId = ''run-1'', vp_order = demo_order, vp_proof = demo_proof, vp_receipt = demo_receipt,
     vp_proofHash = demo_hash32 (CHR ''8''), vp_verifiedAt = ''2026-01-01T00:00:00.000Z''\<rparr> = demo_payment"
    by (simp add: demo_payment_def)
  have now: "re_now demo_env = io_ret 1767225600000" by (simp add: demo_env_def)
  have "fst (commitFundedRun 2 (tr_run demo_settled) ev demo_payment demo_db2) = Inr ()" using demo_steps(7) ev by simp
  then show ?thesis
    unfolding fund_verified_def demo_steps(2) option.case Let_def demo_steps(4) now
    by (simp add: demo_steps(3) io_bind_apply demo_steps(5,6) ev p demo_simps(2) io_then_apply db_store_ops)
qed

theorem reconcile_pays_only_settled_witness:
  "\<exists>db'. reconcile demo_hashes demo_parse_log demo_env (db_store demo_hashes (\<lambda>_. True)) ''run-1'' (demo_db2, ())
     = (Inr demo_payment, (db', ())) \<and> paid_by db' demo_payment"
proof -
  obtain db' where f: "fund_verified demo_hashes demo_parse_log demo_env (db_store demo_hashes (\<lambda>_. True)) ''run-1'' demo_context
     demo_order demo_proof demo_receipt (demo_db2, ()) = (Inr demo_payment, (db', ()))" using demo_fund_verified by blast
  have "reconcile demo_hashes demo_parse_log demo_env (db_store demo_hashes (\<lambda>_. True)) ''run-1'' (demo_db2, ())
     = (Inr demo_payment, (db', ()))"
    by (simp add: reconcile_def io_bind_apply db_store_ops demo_steps(1) reconcile_loaded_def demo_simps
      confirmed_order_def demo_env_ops f)
  from reconcile_pays_only_settled [OF demo_service2 demo_env_respects(1) this] this show ?thesis by blast
qed

definition demo_unpaid :: "(database \<times> unit) reconciler_env" where
  "demo_unpaid = demo_env\<lparr>re_getOrderStatus := (\<lambda>_. io_ret (demo_order\<lparr>mo_status := Order_CHECKOUT_VERIFIED\<rparr>))\<rparr>"

theorem reconcile_failure_writes_nothing_witness:
  "\<exists>w. reconcile demo_hashes demo_parse_log demo_unpaid (db_store demo_hashes (\<lambda>_. True)) ''run-1'' (demo_db2, ())
     = (Inl (Payment_not_ready ''CHECKOUT_VERIFIED''), w) \<and> fst w = demo_db2"
proof -
  have env: "environment_respects (\<lambda>w w'. fst w' = fst w) demo_unpaid"
    using demo_env_respects(2) by (simp add: environment_respects_def demo_unpaid_def)
  have late: "date_parse (mo_expiresAt demo_order) = Some 1767227400000" by code_simp
  have run: "reconcile demo_hashes demo_parse_log demo_unpaid (db_store demo_hashes (\<lambda>_. True)) ''run-1'' (demo_db2, ())
     = (Inl (Payment_not_ready ''CHECKOUT_VERIFIED''), (demo_db2, ()))"
    by (simp add: reconcile_def io_bind_apply db_store_ops demo_steps(1) reconcile_loaded_def demo_simps
      confirmed_order_def demo_unpaid_def demo_env_ops late)
  show ?thesis
    by (rule exI [of _ "(demo_db2, ())"], rule conjI, rule run,
        rule trans [OF fst_conv reconcile_failure_writes_nothing [OF env run]])
qed

text \<open>
  The comment on \<open>sweepExpiredRuns\<close> says that a run funded since the query is skipped.  The commit of such
  a run throws a revision conflict, and the throw ends the sweep before the runs after it.
\<close>

lemma sweep_stops_at_conflict:
  assumes "expire X T (er_run due) (''payment-deadline-passed:'' @ er_deadline due) w = (Inl err, w1)"
  shows "expire_each X T (due # rest) w = (Inl err, w1)"
  using assms by (simp add: io_bind_apply)

end
