(* ===== verification/Workers.thy ===== *)
theory Workers
  imports Reconciler
begin

text \<open>
  The two job workers (\<open>apps/payment-worker/src/worker.ts\<close>, \<open>apps/orchestrator-worker/src/worker.ts\<close>): a
  handler turns what the work returned or threw into an action, and \<open>processNext...Job\<close> claims a job, handles
  it and records the action on the queue.  The queue is a record of operations; the locale \<open>leased_queue\<close>
  states its contract and the two PostgreSQL queues provide it.  Logging has no effect here.
\<close>

section \<open>Queues\<close>

text \<open>\<open>markWaiting\<close> is optional in the orchestrator's interface.\<close>

record 'w queue_ops =
  qo_claimNext :: "claim_request \<Rightarrow> ('w, claimed_job option) io"
  qo_markCompleted :: "claimed_job \<Rightarrow> ('w, unit) io"
  qo_markRetry :: "claimed_job \<Rightarrow> int \<Rightarrow> string \<Rightarrow> ('w, unit) io"
  qo_markWaiting :: "(claimed_job \<Rightarrow> int \<Rightarrow> string \<Rightarrow> ('w, unit) io) option"
  qo_markDeadLetter :: "claimed_job \<Rightarrow> string \<Rightarrow> string list \<Rightarrow> ('w, unit) io"

definition io_try :: "('w, 'a) io \<Rightarrow> ('w, 'a res) io" where
  "io_try m = (\<lambda>w. case m w of (r, w') \<Rightarrow> (Inr r, w'))"

lemma io_keeps_try [io_intros]: "io_keeps I m \<Longrightarrow> io_keeps I (io_try m)"
  by (rule io_keepsI) (auto simp: io_try_def split: prod.splits dest: io_keepsE)

text \<open>One round, as both workers have it: claim, handle, record.\<close>

definition process_with ::
  "('w, claimed_job option) io \<Rightarrow> (claimed_job \<Rightarrow> ('w, 'r) io) \<Rightarrow> (claimed_job \<Rightarrow> 'r \<Rightarrow> ('w, unit) io) \<Rightarrow> ('w, bool) io" where
  "process_with claim handle report =
    io_bind claim (\<lambda>claimed.
    case claimed of None \<Rightarrow> io_ret False
    | Some job \<Rightarrow> io_bind (handle job) (\<lambda>r. io_then (report job r) (io_ret True)))"

section \<open>The payment worker\<close>

datatype payment_job_result =
    Pay_ACK (pr_proofHash: string) (pr_transactionHash: string)
  | Pay_WAIT int string
  | Pay_RETRY int string
  | Pay_DEAD_LETTER string "string list option"
  | Pay_RESOLVED string

definition payment_validateJob :: "claimed_job \<Rightarrow> unit res" where
  "payment_validateJob job =
    res_bind (ensure (cj_runId job \<noteq> []) (Js_error ''Invalid payment reconciliation job'')) (\<lambda>_.
    ensure (\<not> (cj_attempt job < 1 \<or> cj_maximumAttempts job < 1 \<or> cj_maximumAttempts job < cj_attempt job))
      (Js_error ''Invalid payment reconciliation attempt bounds''))"

definition payment_retryDelay :: "int \<Rightarrow> int" where
  "payment_retryDelay attempt = min (5000 * 2 ^ nat (attempt - 1)) 30000"

text \<open>What an error says is a parameter: the classification looks for a few words in it, in any case.\<close>

definition mentions :: "string list \<Rightarrow> string \<Rightarrow> bool" where
  "mentions words message = list_ex (\<lambda>word. contains word (to_lower message)) words"

definition payment_classifyRetryableError :: "(exn \<Rightarrow> string) \<Rightarrow> exn \<Rightarrow> string" where
  "payment_classifyRetryableError message e =
    (if mentions [''timeout'', ''temporar'', ''rate'', ''rpc''] (message e) then ''TRANSIENT_DEPENDENCY_FAILURE''
     else ''UNCLASSIFIED_RECONCILIATION_FAILURE'')"

definition wait_reason :: "exn \<Rightarrow> string option" where
  "wait_reason e = (case e of Payment_not_ready _ \<Rightarrow> Some ''PAYMENT_NOT_READY''
     | Receipt_not_yet_available _ \<Rightarrow> Some ''RECEIPT_NOT_YET_AVAILABLE'' | _ \<Rightarrow> None)"

definition payment_failure :: "(exn \<Rightarrow> string) \<Rightarrow> claimed_job \<Rightarrow> exn \<Rightarrow> payment_job_result" where
  "payment_failure message job e =
    (case wait_reason e of
       Some reason \<Rightarrow> Pay_WAIT (payment_retryDelay (cj_attempt job)) reason
     | None \<Rightarrow>
        if cj_maximumAttempts job \<le> cj_attempt job
        then Pay_DEAD_LETTER (payment_classifyRetryableError message e) None
        else Pay_RETRY (payment_retryDelay (cj_attempt job)) (payment_classifyRetryableError message e))"

definition payment_handle ::
  "(exn \<Rightarrow> string) \<Rightarrow> (string \<Rightarrow> ('w, verified_payment) io) \<Rightarrow> (string \<Rightarrow> ('w, bool) io) \<Rightarrow> claimed_job \<Rightarrow>
   ('w, payment_job_result) io" where
  "payment_handle message run_reconcile run_expire job =
    io_then (io_lift (payment_validateJob job))
    (io_bind (io_try (run_reconcile (cj_runId job))) (\<lambda>outcome.
    case outcome of
      Inr payment \<Rightarrow> io_ret (Pay_ACK (vp_proofHash payment) (mp_transactionHash (vp_proof payment)))
    | Inl e \<Rightarrow>
       (case e of
          Payment_order_expired _ \<Rightarrow>
            io_then (run_expire (cj_runId job)) (io_ret (Pay_RESOLVED ''PAYMENT_ORDER_EXPIRED''))
        | Settlement_rejected codes \<Rightarrow>
            io_ret (Pay_DEAD_LETTER ''DETERMINISTIC_SETTLEMENT_REJECTION'' (Some codes))
        | _ \<Rightarrow> io_ret (payment_failure message job e))))"

definition record_payment_result :: "'w queue_ops \<Rightarrow> claimed_job \<Rightarrow> payment_job_result \<Rightarrow> ('w, unit) io" where
  "record_payment_result Q job r =
    (case r of
       Pay_ACK _ _ \<Rightarrow> qo_markCompleted Q job
     | Pay_WAIT d reason \<Rightarrow>
         (case qo_markWaiting Q of None \<Rightarrow> io_throw (Type_error ''queue.markWaiting is not a function'')
          | Some wait \<Rightarrow> wait job d reason)
     | Pay_RETRY d reason \<Rightarrow> qo_markRetry Q job d reason
     | Pay_RESOLVED _ \<Rightarrow> qo_markCompleted Q job
     | Pay_DEAD_LETTER reason codes \<Rightarrow> qo_markDeadLetter Q job reason (case codes of None \<Rightarrow> [] | Some cs \<Rightarrow> cs))"

definition processNextPaymentJob ::
  "'w queue_ops \<Rightarrow> (claimed_job \<Rightarrow> ('w, payment_job_result) io) \<Rightarrow> claim_request \<Rightarrow> ('w, bool) io" where
  "processNextPaymentJob Q handle claim =
    process_with (qo_claimNext Q claim) handle (record_payment_result Q)"

section \<open>The orchestrator worker\<close>

datatype orchestrator_job_result =
    Orc_ACK (or_finalStatus: string) (or_attestationTransactionHash: string)
  | Orc_RETRY int string
  | Orc_WAIT int string
  | Orc_DEAD_LETTER string "string list option"

definition orchestrator_validateJob :: "claimed_job \<Rightarrow> unit res" where
  "orchestrator_validateJob job =
    res_bind (ensure (cj_runId job \<noteq> []) (Js_error ''Invalid orchestrator job'')) (\<lambda>_.
    ensure (\<not> (cj_attempt job < 1 \<or> cj_maximumAttempts job < 1 \<or> cj_maximumAttempts job < cj_attempt job))
      (Js_error ''Invalid orchestrator attempt bounds''))"

definition orchestrator_retryDelay :: "int \<Rightarrow> int" where
  "orchestrator_retryDelay attempt = min (5000 * 2 ^ nat (attempt - 1)) 60000"

definition error_cause :: "exn \<Rightarrow> exn option" where
  "error_cause e = (case e of Orchestrator_pipeline _ _ c \<Rightarrow> Some c | _ \<Rightarrow> None)"

definition orchestrator_classifyRetryableError :: "(exn \<Rightarrow> string) \<Rightarrow> exn \<Rightarrow> string" where
  "orchestrator_classifyRetryableError message e =
    (let words = [''timeout'', ''temporar'', ''rate'', ''rpc'', ''fetch''] in
     if mentions words (message e) then ''TRANSIENT_DEPENDENCY_FAILURE''
     else if (case error_cause e of None \<Rightarrow> False | Some c \<Rightarrow> mentions words (message c))
     then ''TRANSIENT_DEPENDENCY_FAILURE''
     else ''UNCLASSIFIED_ORCHESTRATION_FAILURE'')"

text \<open>Finalization before a dead letter is best effort: whatever it does, the job is dead-lettered.\<close>

definition dead_letter_run ::
  "(string \<Rightarrow> string \<Rightarrow> ('w, (string \<times> string) option) io) \<Rightarrow> string \<Rightarrow> string \<Rightarrow> string list option \<Rightarrow>
   ('w, orchestrator_job_result) io" where
  "dead_letter_run finalizeRun runId reason codes =
    io_then (io_try (finalizeRun runId reason)) (io_ret (Orc_DEAD_LETTER reason codes))"

definition orchestrator_handle ::
  "(exn \<Rightarrow> string) \<Rightarrow> (string \<Rightarrow> ('w, string \<times> string) io) \<Rightarrow>
   (string \<Rightarrow> string \<Rightarrow> ('w, (string \<times> string) option) io) \<Rightarrow> claimed_job \<Rightarrow> ('w, orchestrator_job_result) io" where
  "orchestrator_handle message runPipeline finalizeRun job =
    io_then (io_lift (orchestrator_validateJob job))
    (io_bind (io_try (runPipeline (cj_runId job))) (\<lambda>outcome.
    case outcome of
      Inr (finalStatus, attestation) \<Rightarrow> io_ret (Orc_ACK finalStatus attestation)
    | Inl e \<Rightarrow>
       (case e of
          Run_not_ready_for_orchestration _ \<Rightarrow> io_ret (Orc_DEAD_LETTER ''UNEXPECTED_RUN_STATE'' None)
        | Procurement_denied codes \<Rightarrow> dead_letter_run finalizeRun (cj_runId job) ''PROCUREMENT_DENIED'' (Some codes)
        | Payment_send_ambiguous _ \<Rightarrow>
            io_ret (Orc_DEAD_LETTER ''PAYMENT_SEND_AMBIGUOUS_NEEDS_MANUAL_RECONCILIATION'' None)
        | Cross_chain_settlement_ambiguous _ \<Rightarrow>
            io_ret (Orc_DEAD_LETTER ''BNB_SETTLEMENT_AMBIGUOUS_NEEDS_MANUAL_RECONCILIATION'' None)
        | Bridge_delivery_pending _ \<Rightarrow> io_ret (Orc_WAIT 15000 ''BRIDGE_DELIVERY_PENDING'')
        | _ \<Rightarrow>
            if cj_maximumAttempts job \<le> cj_attempt job
            then dead_letter_run finalizeRun (cj_runId job) ''PIPELINE_RETRIES_EXHAUSTED'' None
            else io_ret (Orc_RETRY (orchestrator_retryDelay (cj_attempt job))
              (orchestrator_classifyRetryableError message e)))))"

definition record_orchestrator_result :: "'w queue_ops \<Rightarrow> claimed_job \<Rightarrow> orchestrator_job_result \<Rightarrow> ('w, unit) io" where
  "record_orchestrator_result Q job r =
    (case r of
       Orc_ACK _ _ \<Rightarrow> qo_markCompleted Q job
     | Orc_RETRY d reason \<Rightarrow> qo_markRetry Q job d reason
     | Orc_WAIT d reason \<Rightarrow>
         (case qo_markWaiting Q of Some wait \<Rightarrow> wait job d reason | None \<Rightarrow> qo_markRetry Q job d reason)
     | Orc_DEAD_LETTER reason codes \<Rightarrow> qo_markDeadLetter Q job reason (case codes of None \<Rightarrow> [] | Some cs \<Rightarrow> cs))"

definition processNextOrchestratorJob ::
  "'w queue_ops \<Rightarrow> (claimed_job \<Rightarrow> ('w, orchestrator_job_result) io) \<Rightarrow> claim_request \<Rightarrow> ('w, bool) io" where
  "processNextOrchestratorJob Q handle claim =
    process_with (qo_claimNext Q claim) handle (record_orchestrator_result Q)"

section \<open>What the queues accept\<close>

text \<open>Every action a handler can return has a delay and codes the queue's guards let through.\<close>

definition codes_ok :: "string list option \<Rightarrow> bool" where
  "codes_ok codes = (case codes of None \<Rightarrow> True | Some cs \<Rightarrow> list_all valid_error_code cs)"

definition payment_result_ok :: "payment_job_result \<Rightarrow> bool" where
  "payment_result_ok r = (case r of Pay_ACK _ _ \<Rightarrow> True | Pay_RESOLVED reason \<Rightarrow> valid_error_code reason
     | Pay_WAIT d reason \<Rightarrow> delay_ok d \<and> valid_error_code reason
     | Pay_RETRY d reason \<Rightarrow> delay_ok d \<and> valid_error_code reason
     | Pay_DEAD_LETTER reason codes \<Rightarrow> valid_error_code reason \<and> codes_ok codes)"

definition orchestrator_result_ok :: "orchestrator_job_result \<Rightarrow> bool" where
  "orchestrator_result_ok r = (case r of Orc_ACK _ _ \<Rightarrow> True
     | Orc_WAIT d reason \<Rightarrow> delay_ok d \<and> valid_error_code reason
     | Orc_RETRY d reason \<Rightarrow> delay_ok d \<and> valid_error_code reason
     | Orc_DEAD_LETTER reason codes \<Rightarrow> valid_error_code reason \<and> codes_ok codes)"

lemma delay_bounds:
  "5000 \<le> payment_retryDelay n" "payment_retryDelay n \<le> 30000"
  "5000 \<le> orchestrator_retryDelay n" "orchestrator_retryDelay n \<le> 60000"
proof -
  have "(1 :: int) \<le> 2 ^ nat (n - 1)" by simp
  then show "5000 \<le> payment_retryDelay n" "payment_retryDelay n \<le> 30000"
    "5000 \<le> orchestrator_retryDelay n" "orchestrator_retryDelay n \<le> 60000"
    by (simp_all add: payment_retryDelay_def orchestrator_retryDelay_def)
qed

lemma delay_mono: "m \<le> n \<Longrightarrow> payment_retryDelay m \<le> payment_retryDelay n \<and> orchestrator_retryDelay m \<le> orchestrator_retryDelay n"
proof -
  assume "m \<le> n"
  then have "nat (m - 1) \<le> nat (n - 1)" by simp
  then have "(2 :: int) ^ nat (m - 1) \<le> 2 ^ nat (n - 1)" by (rule power_increasing) simp
  then show ?thesis unfolding payment_retryDelay_def orchestrator_retryDelay_def by (intro conjI min.mono) simp_all
qed

lemma delays_ok [simp]: "delay_ok (payment_retryDelay n)" "delay_ok (orchestrator_retryDelay n)" "delay_ok 15000"
  using delay_bounds [of n] by (simp_all add: delay_ok_def)

lemma reasons_ok [simp]:
  "valid_error_code ''PAYMENT_NOT_READY''" "valid_error_code ''RECEIPT_NOT_YET_AVAILABLE''"
  "valid_error_code ''TRANSIENT_DEPENDENCY_FAILURE''" "valid_error_code ''UNCLASSIFIED_RECONCILIATION_FAILURE''"
  "valid_error_code ''UNCLASSIFIED_ORCHESTRATION_FAILURE''" "valid_error_code ''PAYMENT_ORDER_EXPIRED''"
  "valid_error_code ''DETERMINISTIC_SETTLEMENT_REJECTION''" "valid_error_code ''UNEXPECTED_RUN_STATE''"
  "valid_error_code ''PROCUREMENT_DENIED''" "valid_error_code ''PAYMENT_SEND_AMBIGUOUS_NEEDS_MANUAL_RECONCILIATION''"
  "valid_error_code ''BNB_SETTLEMENT_AMBIGUOUS_NEEDS_MANUAL_RECONCILIATION''" "valid_error_code ''BRIDGE_DELIVERY_PENDING''"
  "valid_error_code ''PIPELINE_RETRIES_EXHAUSTED''"
  by code_simp+

text \<open>The codes an error carries: a settlement rejection's and a procurement denial's are handed to the queue.\<close>

definition carries_codes :: "exn \<Rightarrow> bool" where
  "carries_codes e = (case e of Settlement_rejected codes \<Rightarrow> list_all valid_error_code codes
     | Procurement_denied codes \<Rightarrow> list_all valid_error_code codes | _ \<Rightarrow> True)"

lemma payment_failure_ok: "payment_result_ok (payment_failure message job e)"
  by (auto simp: payment_failure_def payment_result_ok_def wait_reason_def payment_classifyRetryableError_def codes_ok_def
    split: exn.splits)

lemma payment_handle_ok:
  assumes "payment_handle message rec ex job w = (Inr r, w1)" and "\<And>e. fst (rec (cj_runId job) w) = Inl e \<Longrightarrow> carries_codes e"
  shows "payment_result_ok r"
proof -
  obtain out w2 where out: "rec (cj_runId job) w = (out, w2)" by (cases "rec (cj_runId job) w")
  show ?thesis
  proof (cases out)
    case (Inr p)
    then show ?thesis using assms(1) out
      by (auto simp: payment_handle_def io_then_apply io_bind_apply io_try_def payment_result_ok_def split: sum.splits)
  next
    case (Inl e)
    have "carries_codes e" using assms(2) out Inl by simp
    then show ?thesis using assms(1) out Inl payment_failure_ok
      by (cases e) (auto simp: payment_handle_def io_then_apply io_bind_apply io_try_def payment_result_ok_def codes_ok_def
        carries_codes_def split: sum.splits prod.splits)
  qed
qed

lemma orchestrator_handle_ok:
  assumes "orchestrator_handle message pipe fin job w = (Inr r, w1)" and "\<And>e. fst (pipe (cj_runId job) w) = Inl e \<Longrightarrow> carries_codes e"
  shows "orchestrator_result_ok r"
proof -
  obtain out w2 where out: "pipe (cj_runId job) w = (out, w2)" by (cases "pipe (cj_runId job) w")
  show ?thesis
  proof (cases out)
    case (Inr p)
    then show ?thesis using assms(1) out
      by (cases p) (auto simp: orchestrator_handle_def io_then_apply io_bind_apply io_try_def orchestrator_result_ok_def split: sum.splits)
  next
    case (Inl e)
    have "carries_codes e" using assms(2) out Inl by simp
    then show ?thesis using assms(1) out Inl
      by (cases e) (auto simp: orchestrator_handle_def io_then_apply io_bind_apply io_try_def orchestrator_result_ok_def
        codes_ok_def carries_codes_def dead_letter_run_def orchestrator_classifyRetryableError_def Let_def
        split: sum.splits prod.splits if_splits)
  qed
qed

section \<open>The contract of a leased queue\<close>

definition claim_ok :: "claimed_job \<Rightarrow> bool" where
  "claim_ok job \<longleftrightarrow> cj_runId job \<noteq> [] \<and> 1 \<le> cj_attempt job \<and> cj_attempt job \<le> cj_maximumAttempts job
    \<and> valid_worker_id (cj_leaseOwner job)"

definition job_stands :: "claimed_job \<Rightarrow> job_status \<Rightarrow> job_table \<Rightarrow> bool" where
  "job_stands job s rows \<longleftrightarrow> (\<forall>x \<in> set rows. job_runId x = cj_runId job \<longrightarrow> job_status_of x = s)"

definition job_at_rest :: "claimed_job \<Rightarrow> job_table \<Rightarrow> bool" where
  "job_at_rest job rows \<longleftrightarrow> (\<forall>x \<in> set rows. job_runId x = cj_runId job \<longrightarrow> job_status_of x \<noteq> Job_PROCESSING)"

lemma stands_at_rest: "job_stands job s rows \<Longrightarrow> s \<noteq> Job_PROCESSING \<Longrightarrow> job_at_rest job rows"
  by (simp add: job_stands_def job_at_rest_def)

text \<open>Finishing a lease changes the row that is held; the states an action leaves in it.\<close>

definition settle :: "claimed_job \<Rightarrow> (job_row \<Rightarrow> job_row) \<Rightarrow> job_table \<Rightarrow> job_table" where
  "settle job f rows = map (\<lambda>r. if holds_lease job r then f r else r) rows"

definition job_left :: "claimed_job \<Rightarrow> (job_row \<Rightarrow> bool) \<Rightarrow> job_table \<Rightarrow> bool" where
  "job_left job p rows \<longleftrightarrow> (\<exists>r \<in> set rows. job_runId r = cj_runId job) \<and> (\<forall>r \<in> set rows. job_runId r = cj_runId job \<longrightarrow> p r)"

lemma settle_leaves:
  assumes "job_inv rows" and "r \<in> set rows" and "holds_lease job r" and "job_runId (f r) = job_runId r" and "p (f r)"
  shows "job_left job p (settle job f rows)"
proof -
  have "distinct (map job_runId rows)" using assms(1) by (simp add: job_inv_def)
  then have "x = r" if "x \<in> set rows" "job_runId x = cj_runId job" for x
    using that assms(2,3) inj_onD [of job_runId "set rows" x r] by (simp add: distinct_map holds_lease_def)
  moreover have "job_runId x = cj_runId job" if "holds_lease job x" for x using that by (simp add: holds_lease_def)
  moreover have "f r \<in> set (settle job f rows)" using assms(2,3) by (force simp: settle_def)
  ultimately show ?thesis using assms(3-5) unfolding job_left_def settle_def by (auto split: if_splits)
qed

lemma settle_stands:
  "job_inv rows \<Longrightarrow> r \<in> set rows \<Longrightarrow> holds_lease job r \<Longrightarrow> job_runId (f r) = job_runId r \<Longrightarrow> job_status_of (f r) = s \<Longrightarrow>
    job_stands job s (settle job f rows)"
  using settle_leaves [of rows r job f "\<lambda>x. job_status_of x = s"] by (simp add: job_left_def job_stands_def)

fun payment_settled :: "int \<Rightarrow> payment_job_result \<Rightarrow> job_row \<Rightarrow> job_row" where
  "payment_settled now (Pay_ACK _ _) = completed_row now"
| "payment_settled now (Pay_RESOLVED _) = completed_row now"
| "payment_settled now (Pay_WAIT d reason) = waiting_row now d reason"
| "payment_settled now (Pay_RETRY d reason) = retried_row now d reason"
| "payment_settled now (Pay_DEAD_LETTER reason codes) = buried_row reason (case codes of None \<Rightarrow> [] | Some cs \<Rightarrow> cs)"

lemma payment_settled_row [simp]:
  "job_runId (payment_settled now x r) = job_runId r" "job_status_of (payment_settled now x r) \<noteq> Job_PROCESSING"
  by (cases x; simp add: finished_row_defs)+

text \<open>
  A queue of leases, over a table of jobs and a clock: a claim grants a lease, and whoever holds one finishes it
  as it says, provided the delay and the codes are storable.
\<close>

locale leased_queue =
  fixes Q :: "'w queue_ops"
    and table :: "'w \<Rightarrow> job_table"
    and clock :: "'w \<Rightarrow> int"
  assumes claim_grants: "qo_claimNext Q c w = (Inr (Some job), w1) \<Longrightarrow> job_inv (table w) \<Longrightarrow>
      list_all (\<lambda>r. job_runId r \<noteq> []) (table w) \<Longrightarrow> job_inv (table w1)
      \<and> (\<exists>r \<in> set (table w1). holds_lease job r \<and> job_maximumAttempts r = cj_maximumAttempts job) \<and> claim_ok job"
    and completes: "job_inv (table w) \<Longrightarrow> r \<in> set (table w) \<Longrightarrow> holds_lease job r \<Longrightarrow> claim_ok job \<Longrightarrow>
      fst (qo_markCompleted Q job w) = Inr () \<and> clock (snd (qo_markCompleted Q job w)) = clock w
      \<and> table (snd (qo_markCompleted Q job w)) = settle job (completed_row (clock w)) (table w)"
    and retries: "job_inv (table w) \<Longrightarrow> r \<in> set (table w) \<Longrightarrow> holds_lease job r \<Longrightarrow> claim_ok job \<Longrightarrow>
      delay_ok d \<Longrightarrow> valid_error_code reason \<Longrightarrow>
      fst (qo_markRetry Q job d reason w) = Inr () \<and> clock (snd (qo_markRetry Q job d reason w)) = clock w
      \<and> table (snd (qo_markRetry Q job d reason w)) = settle job (retried_row (clock w) d reason) (table w)"
    and waits: "qo_markWaiting Q = Some wait \<Longrightarrow> job_inv (table w) \<Longrightarrow> r \<in> set (table w) \<Longrightarrow> holds_lease job r \<Longrightarrow>
      claim_ok job \<Longrightarrow> delay_ok d \<Longrightarrow> valid_error_code reason \<Longrightarrow>
      fst (wait job d reason w) = Inr () \<and> clock (snd (wait job d reason w)) = clock w
      \<and> table (snd (wait job d reason w)) = settle job (waiting_row (clock w) d reason) (table w)"
    and buries: "job_inv (table w) \<Longrightarrow> r \<in> set (table w) \<Longrightarrow> holds_lease job r \<Longrightarrow> claim_ok job \<Longrightarrow>
      valid_error_code reason \<Longrightarrow> list_all valid_error_code codes \<Longrightarrow>
      fst (qo_markDeadLetter Q job reason codes w) = Inr () \<and> clock (snd (qo_markDeadLetter Q job reason codes w)) = clock w
      \<and> table (snd (qo_markDeadLetter Q job reason codes w)) = settle job (buried_row reason codes) (table w)"
begin

lemma records_payment:
  assumes "job_inv (table w)" "r \<in> set (table w)" "holds_lease job r" "claim_ok job"
    and "payment_result_ok x" and "qo_markWaiting Q \<noteq> None"
  shows "fst (record_payment_result Q job x w) = Inr () \<and> clock (snd (record_payment_result Q job x w)) = clock w
    \<and> table (snd (record_payment_result Q job x w)) = settle job (payment_settled (clock w) x) (table w)"
proof -
  note h = assms(1-4)
  obtain wait where w: "qo_markWaiting Q = Some wait" using assms(6) by blast
  show ?thesis
    using assms(5) w completes [OF h] retries [OF h] waits [OF w h] buries [OF h]
    by (cases x) (auto simp: record_payment_result_def payment_result_ok_def codes_ok_def split: option.splits)
qed

lemma records_orchestrator:
  assumes "job_inv (table w)" "r \<in> set (table w)" "holds_lease job r" "claim_ok job" and "orchestrator_result_ok x"
  shows "fst (record_orchestrator_result Q job x w) = Inr ()
    \<and> job_at_rest job (table (snd (record_orchestrator_result Q job x w)))"
proof -
  note h = assms(1-4)
  note laws = completes [OF h] retries [OF h] waits [OF _ h] buries [OF h]
  have rest: "job_at_rest job (settle job (completed_row n) (table w))" "job_at_rest job (settle job (retried_row n d reason) (table w))"
    "job_at_rest job (settle job (waiting_row n d reason) (table w))" "job_at_rest job (settle job (buried_row reason codes) (table w))"
    for n d reason codes
    by (rule settle_stands [OF assms(1-3) _ refl, THEN stands_at_rest]; simp add: finished_row_defs)+
  show ?thesis
    using assms(5) laws rest
    by (cases x; cases "qo_markWaiting Q")
      (auto simp: record_orchestrator_result_def orchestrator_result_ok_def codes_ok_def split: option.splits)
qed

text \<open>One round of a worker: the claim is refused, nothing is due, or a job is leased, handled and recorded.\<close>

lemma round_cases:
  assumes run: "process_with (qo_claimNext Q claim) handle report w = (res, w2)" and inv: "job_inv (table w)"
    and ids: "list_all (\<lambda>r. job_runId r \<noteq> []) (table w)"
  obtains (refused) err where "fst (qo_claimNext Q claim w) = Inl err" "res = Inl err"
  | (idle) "fst (qo_claimNext Q claim w) = Inr None" "res = Inr False"
  | (leased) job w1 r where "qo_claimNext Q claim w = (Inr (Some job), w1)" "job_inv (table w1)" "r \<in> set (table w1)"
      "holds_lease job r" "job_maximumAttempts r = cj_maximumAttempts job" "claim_ok job"
      "io_bind (handle job) (\<lambda>x. io_then (report job x) (io_ret True)) w1 = (res, w2)"
proof -
  obtain c w1 where c: "qo_claimNext Q claim w = (c, w1)" by (cases "qo_claimNext Q claim w")
  show thesis
  proof (cases c)
    case (Inl err)
    then show thesis using run c refused [of err] by (simp add: process_with_def io_bind_apply)
  next
    case (Inr k)
    show thesis
    proof (cases k)
      case None
      then show thesis using run c Inr idle by (simp add: process_with_def io_bind_apply)
    next
      case (Some job)
      then have job: "qo_claimNext Q claim w = (Inr (Some job), w1)" using c Inr by simp
      then have rest: "io_bind (handle job) (\<lambda>x. io_then (report job x) (io_ret True)) w1 = (res, w2)"
        using run by (simp add: process_with_def io_bind_apply [of "qo_claimNext Q claim"])
      from claim_grants [OF job inv ids] obtain r where "job_inv (table w1)" "r \<in> set (table w1)" "holds_lease job r"
        "job_maximumAttempts r = cj_maximumAttempts job" "claim_ok job" by blast
      then show thesis using leased [OF job] rest by blast
    qed
  qed
qed

text \<open>One round of a worker whose work leaves the queue alone.\<close>

lemma one_round:
  assumes run: "process_with (qo_claimNext Q claim) handle report w = (res, w2)" and inv: "job_inv (table w)"
    and ids: "list_all (\<lambda>r. job_runId r \<noteq> []) (table w)"
    and work: "\<And>job w. table (snd (handle job w)) = table w"
    and reports: "\<And>job w x r. job_inv (table w) \<Longrightarrow> r \<in> set (table w) \<Longrightarrow> holds_lease job r \<Longrightarrow> claim_ok job \<Longrightarrow> good x \<Longrightarrow>
      fst (report job x w) = Inr () \<and> job_at_rest job (table (snd (report job x w)))"
    and good: "\<And>job w x. fst (handle job w) = Inr x \<Longrightarrow> good x"
  shows "case fst (qo_claimNext Q claim w) of
      Inl err \<Rightarrow> res = Inl err
    | Inr None \<Rightarrow> res = Inr False
    | Inr (Some job) \<Rightarrow> (res = Inr True \<and> job_at_rest job (table w2))
        \<or> (claim_ok job \<and> (\<exists>err. res = Inl err \<and> fst (handle job (snd (qo_claimNext Q claim w))) = Inl err)
            \<and> (\<exists>r \<in> set (table w2). holds_lease job r))"
  using run inv ids
proof (cases rule: round_cases)
  case (leased job w1 r)
  obtain out w3 where h: "handle job w1 = (out, w3)" by (cases "handle job w1")
  have t: "table w3 = table w1" using work [of job w1] h by simp
  show ?thesis
  proof (cases out)
    case (Inl e)
    then show ?thesis using leased h t by (auto simp: io_bind_apply)
  next
    case (Inr x)
    have "good x" using good [of job w1 x] h Inr by simp
    from reports [of w3 r job x] this leased(2-4,6) t
    show ?thesis using leased(1,7) h Inr by (auto simp: io_bind_apply io_then_apply split: prod.splits sum.splits)
  qed
qed simp_all

end

section \<open>The two PostgreSQL queues\<close>

text \<open>A statement on one job table of the database, at the database's clock.\<close>

definition on_payment_jobs :: "(int \<Rightarrow> (job_table, 'a) io) \<Rightarrow> (database \<times> 'e, 'a) io" where
  "on_payment_jobs m = on_db (\<lambda>db. case m (db_now db) (db_paymentJobs db) of (r, t) \<Rightarrow> (r, db\<lparr>db_paymentJobs := t\<rparr>))"

definition on_orchestrator_jobs :: "(int \<Rightarrow> (job_table, 'a) io) \<Rightarrow> (database \<times> 'e, 'a) io" where
  "on_orchestrator_jobs m =
    on_db (\<lambda>db. case m (db_now db) (db_orchestratorJobs db) of (r, t) \<Rightarrow> (r, db\<lparr>db_orchestratorJobs := t\<rparr>))"

definition payment_jobs :: "(database \<times> 'e) queue_ops" where
  "payment_jobs = \<lparr>qo_claimNext = (\<lambda>c. on_payment_jobs (\<lambda>now. payment_claimNext now c)),
     qo_markCompleted = (\<lambda>job. on_payment_jobs (\<lambda>now. payment_markCompleted now job)),
     qo_markRetry = (\<lambda>job d reason. on_payment_jobs (\<lambda>now. payment_markRetry now job d reason)),
     qo_markWaiting = Some (\<lambda>job d reason. on_payment_jobs (\<lambda>now. payment_markWaiting now job d reason)),
     qo_markDeadLetter = (\<lambda>job reason codes. on_payment_jobs (\<lambda>now. payment_markDeadLetter job reason codes))\<rparr>"

definition orchestrator_jobs :: "(database \<times> 'e) queue_ops" where
  "orchestrator_jobs = \<lparr>qo_claimNext = (\<lambda>c. on_orchestrator_jobs (\<lambda>now. claimNext orchestrator_queue now c)),
     qo_markCompleted = (\<lambda>job. on_orchestrator_jobs (\<lambda>now. markCompleted orchestrator_queue now job)),
     qo_markRetry = (\<lambda>job d reason. on_orchestrator_jobs (\<lambda>now. markRetry orchestrator_queue now job d reason)),
     qo_markWaiting = Some (\<lambda>job d reason. on_orchestrator_jobs (\<lambda>now. markWaiting orchestrator_queue now job d reason)),
     qo_markDeadLetter = (\<lambda>job reason codes. on_orchestrator_jobs (\<lambda>now. markDeadLetter orchestrator_queue job reason codes))\<rparr>"

lemma on_jobs_apply:
  "on_payment_jobs m (db, e) = (fst (m (db_now db) (db_paymentJobs db)),
     (db\<lparr>db_paymentJobs := snd (m (db_now db) (db_paymentJobs db))\<rparr>, e))"
  "on_orchestrator_jobs m (db, e) = (fst (m (db_now db) (db_orchestratorJobs db)),
     (db\<lparr>db_orchestratorJobs := snd (m (db_now db) (db_orchestratorJobs db))\<rparr>, e))"
  by (simp_all add: on_payment_jobs_def on_orchestrator_jobs_def on_db_apply split: prod.splits)

text \<open>The laws, on one table.\<close>

lemma grants:
  assumes "fst (claimNext q now c rows) = Inr (Some job)" and "job_inv rows" and "list_all (\<lambda>r. job_runId r \<noteq> []) rows"
  shows "job_inv (snd (claimNext q now c rows))"
    and "\<exists>r \<in> set (snd (claimNext q now c rows)). holds_lease job r \<and> job_maximumAttempts r = cj_maximumAttempts job"
    and "claim_ok job"
proof -
  obtain rows' where run: "claimNext q now c rows = (Inr (Some job), rows')" using assms(1) by (metis prod.collapse)
  note h = claimed_is_held [OF assms(2) run]
  have "cj_runId job \<noteq> []" using h(3) assms(3) by (auto simp: list_all_iff)
  then show "claim_ok job" using h by (simp add: claim_ok_def)
  show "job_inv (snd (claimNext q now c rows))"
    "\<exists>r \<in> set (snd (claimNext q now c rows)). holds_lease job r \<and> job_maximumAttempts r = cj_maximumAttempts job"
    using h(6) io_keepsE [OF job_inv_claim assms(2) run] run by simp_all
qed

lemma finish_settles:
  assumes "job_inv rows" and "r \<in> set rows" and "holds_lease job r" and "claim_ok job"
  shows "finishLease q job f rows = (Inr (), settle job f rows)"
proof -
  have "job_ok r" using assms(1,2) by (simp add: job_inv_def list_all_iff)
  then obtain t where "job_lockedAt r = Some t" using assms(3) by (auto simp: job_ok_def holds_lease_def)
  then have held: "held_since job t rows" using assms(2,3) by (auto simp: held_since_def)
  show ?thesis unfolding settle_def using finish_held [OF assms(1) held] assms(4) by (simp add: claim_ok_def)
qed

lemma mark_laws:
  assumes "job_inv rows" and "r \<in> set rows" and "holds_lease job r" and "claim_ok job"
  shows "markCompleted q now job rows = (Inr (), settle job (completed_row now) rows)"
    and "delay_ok d \<Longrightarrow> valid_error_code reason \<Longrightarrow>
      markRetry q now job d reason rows = (Inr (), settle job (retried_row now d reason) rows)"
    and "delay_ok d \<Longrightarrow> valid_error_code reason \<Longrightarrow>
      markWaiting q now job d reason rows = (Inr (), settle job (waiting_row now d reason) rows)"
    and "valid_error_code reason \<Longrightarrow> list_all valid_error_code codes \<Longrightarrow>
      markDeadLetter q job reason codes rows = (Inr (), settle job (buried_row reason codes) rows)"
proof -
  have codes: "\<exists>us. res_map (validateErrorCode q) codes = Inr us" if "list_all valid_error_code codes"
    using that res_map_ok_iff [of "validateErrorCode q" codes]
    by (simp add: res_ok_iff validateErrorCode_def list_all_iff)
  note f = finish_settles [OF assms]
  show "markCompleted q now job rows = (Inr (), settle job (completed_row now) rows)" by (simp add: markCompleted_def f)
  show "delay_ok d \<Longrightarrow> valid_error_code reason \<Longrightarrow>
      markRetry q now job d reason rows = (Inr (), settle job (retried_row now d reason) rows)"
    by (simp add: markRetry_def validateErrorCode_def io_then_apply f)
  show "delay_ok d \<Longrightarrow> valid_error_code reason \<Longrightarrow>
      markWaiting q now job d reason rows = (Inr (), settle job (waiting_row now d reason) rows)"
    by (simp add: markWaiting_def validateErrorCode_def io_then_apply f)
  show "valid_error_code reason \<Longrightarrow> list_all valid_error_code codes \<Longrightarrow>
      markDeadLetter q job reason codes rows = (Inr (), settle job (buried_row reason codes) rows)"
    using codes by (auto simp: markDeadLetter_def validateErrorCode_def io_then_apply f)
qed

lemmas payment_ops = payment_claimNext_def payment_markCompleted_def payment_markRetry_def payment_markWaiting_def
  payment_markDeadLetter_def

interpretation payments: leased_queue payment_jobs "\<lambda>w. db_paymentJobs (fst w)" "\<lambda>w. db_now (fst w)"
  by unfold_locales (auto simp: payment_jobs_def payment_ops on_jobs_apply mark_laws grants)

interpretation orchestrators: leased_queue orchestrator_jobs "\<lambda>w. db_orchestratorJobs (fst w)" "\<lambda>w. db_now (fst w)"
  by unfold_locales (auto simp: orchestrator_jobs_def on_jobs_apply mark_laws grants)

section \<open>What the work may touch and throw\<close>

lemma keeps_transaction [io_intros]: "io_keeps I m \<Longrightarrow> io_keeps I (transaction m)"
  unfolding transaction_def by (rule io_keepsI) (auto split: prod.splits sum.splits dest: io_keepsE)

abbreviation same_jobs :: "job_table \<Rightarrow> database \<Rightarrow> bool" where
  "same_jobs q \<equiv> (\<lambda>db. db_paymentJobs db = q)"

lemma commits_keep_jobs:
  "io_keeps (same_jobs q) (commitFundedRun k run ev p)" "io_keeps (same_jobs q) (commitExpiredRun k run ev)"
  unfolding commitFundedRun_def commitExpiredRun_def insertReceipt_def update_runs_def insert_event_def insert_outbox_def
  by (intro io_intros io_keeps_modify; simp)+

lemma keeps_on_db: "io_keeps I m \<Longrightarrow> io_keeps (\<lambda>w. I (fst w)) (on_db m)"
  by (rule io_keepsI) (auto simp: on_db_apply dest: io_keepsD)

lemma store_keeps_jobs:
  "io_keeps (\<lambda>w. same_jobs q (fst w)) (ro_commitFundedRun (db_store P datetime) k run ev p)"
  "io_keeps (\<lambda>w. same_jobs q (fst w)) (ro_commitExpiredRun (db_store P datetime) k run ev)"
  "io_keeps (\<lambda>w. same_jobs q (fst w)) (ro_loadFundableRun (db_store P datetime) i)"
  using keeps_on_db [OF commits_keep_jobs(1)] keeps_on_db [OF commits_keep_jobs(2)]
    keeps_on_db [of "same_jobs q" "loadFundableRun P datetime i"]
  by (simp_all add: db_store_def io_keepsI loadFundableRun_reads)

definition leaves_jobs :: "(database \<times> 'e) reconciler_env \<Rightarrow> bool" where
  "leaves_jobs X \<longleftrightarrow> environment_respects (\<lambda>w w'. db_paymentJobs (fst w') = db_paymentJobs (fst w)) X"

lemma env_keeps_jobs:
  assumes "leaves_jobs X"
  shows "io_keeps (\<lambda>w. same_jobs q (fst w)) (re_getOrderStatus X i)" "io_keeps (\<lambda>w. same_jobs q (fst w)) (re_getOrderProof X i)"
    "io_keeps (\<lambda>w. same_jobs q (fst w)) (re_getTransactionReceipt X n h)" "io_keeps (\<lambda>w. same_jobs q (fst w)) (re_now X)"
  using assms unfolding leaves_jobs_def environment_respects_def by (auto intro!: io_keepsI)

lemma work_keeps_jobs:
  assumes "leaves_jobs X"
  shows "io_keeps (\<lambda>w. same_jobs q (fst w)) (reconcile P parse_log X (db_store P datetime) i)"
    and "io_keeps (\<lambda>w. same_jobs q (fst w)) (expireRun X (db_store P datetime) i)"
  unfolding reconcile_def reconcile_loaded_def fund_verified_def confirmed_order_def expireRun_def expire_def Let_def
  by (intro io_intros env_keeps_jobs [OF assms] store_keeps_jobs; auto split: option.split intro!: io_intros
      env_keeps_jobs [OF assms] store_keeps_jobs)+

text \<open>Errors: the codes of a rejected settlement are codes the queue stores.\<close>

abbreviation coded :: "('w, 'a) io \<Rightarrow> bool" where
  "coded m \<equiv> io_triple (\<lambda>_. True) m (\<lambda>_ _. True) (\<lambda>e _. carries_codes e)"

lemma settlement_codes_ok: "list_all valid_error_code (sv_failureCodes (verifySettlement P parse_log order pay receipt expected))"
proof -
  have "valid_error_code c" if "c \<in> set [''ORDER_NOT_CONFIRMED'', ''ORDER_MISMATCH'', ''CHAIN_MISMATCH'', ''TOKEN_MISMATCH'',
      ''PAYER_MISMATCH'', ''RECIPIENT_MISMATCH'', ''AMOUNT_MISMATCH'', ''TRANSACTION_REVERTED'',
      ''TRANSACTION_HASH_MISMATCH'', ''TRANSFER_LOG_MISSING'', ''TRANSFER_LOG_MISMATCH'']" for c
    using that unfolding set_simps by (elim insertE emptyE) (simp_all, code_simp+)
  moreover have "set (sv_failureCodes (verifySettlement P parse_log order pay receipt expected))
      \<subseteq> set [''ORDER_NOT_CONFIRMED'', ''ORDER_MISMATCH'', ''CHAIN_MISMATCH'', ''TOKEN_MISMATCH'',
      ''PAYER_MISMATCH'', ''RECIPIENT_MISMATCH'', ''AMOUNT_MISMATCH'', ''TRANSACTION_REVERTED'',
      ''TRANSACTION_HASH_MISMATCH'', ''TRANSFER_LOG_MISSING'', ''TRANSFER_LOG_MISMATCH'']"
    by (auto simp: verifySettlement_def Let_def code_unless_def split: option.splits if_splits)
  ultimately show ?thesis by (auto simp: list_all_iff)
qed

lemma carries_codes_simps [simp]:
  "carries_codes (Js_error m)" "carries_codes (Type_error m)" "carries_codes (Zod_error zs)"
  "carries_codes (Illegal_run_transition m)" "carries_codes (Run_revision_conflict i j)"
  "carries_codes (Payment_not_ready m)" "carries_codes (Receipt_not_yet_available m)" "carries_codes (Payment_order_expired m)"
  "carries_codes (Settlement_rejected codes) = list_all valid_error_code codes"
  by (simp_all add: carries_codes_def)

lemma codedD: "coded m \<Longrightarrow> fst (m w) = Inl e \<Longrightarrow> carries_codes e"
  by (cases "m w") (auto simp: io_triple_def dest: spec [of _ w])

definition codes_res :: "'a res \<Rightarrow> bool" where
  "codes_res r \<longleftrightarrow> (case r of Inl e \<Rightarrow> carries_codes e | Inr _ \<Rightarrow> True)"

lemma codes_res_steps:
  "codes_res (Inr a)" "codes_res (Inl e) = carries_codes e" "codes_res (ensure b e) = (b \<or> carries_codes e)"
  "codes_res m \<Longrightarrow> (\<And>a. codes_res (f a)) \<Longrightarrow> codes_res (res_bind m f)"
  "codes_res (if b then r1 else r2) \<longleftrightarrow> (b \<longrightarrow> codes_res r1) \<and> (\<not> b \<longrightarrow> codes_res r2)"
proof -
  show "codes_res m \<Longrightarrow> (\<And>a. codes_res (f a)) \<Longrightarrow> codes_res (res_bind m f)" by (cases m) (simp_all add: codes_res_def)
qed (auto simp: codes_res_def ensure_def)

lemma codes_res_facts [simp]:
  "codes_res (parseMerchantOrderSnapshot P datetime v)" "codes_res (parseCustomerPayment rc order)"
  "codes_res (pg_time s)" "codes_res (pg_positive_numeric s)" "codes_res (hexToBuffer n s)"
  "codes_res (transitionRun run c)"
proof -
  show "codes_res (parseMerchantOrderSnapshot P datetime v)"
    by (auto simp: codes_res_def parseMerchantOrderSnapshot_def merchantOrderSchema_parse_def Let_def
      split: option.splits if_splits)
  show "codes_res (parseCustomerPayment rc order)"
    by (auto simp: codes_res_def parseCustomerPayment_def Let_def)
  show "codes_res (transitionRun run c)" unfolding transitionRun_def assertIsoDate_def Let_def
    by (auto intro!: codes_res_steps(1,4) simp: codes_res_steps(2,3,5))
qed (auto simp: codes_res_def pg_time_def pg_positive_numeric_def hexToBuffer_def split: option.splits)

lemma coded_steps:
  "coded m \<Longrightarrow> (\<And>a. coded (f a)) \<Longrightarrow> coded (io_bind m f)"
  "coded m1 \<Longrightarrow> coded n1 \<Longrightarrow> coded (io_then m1 n1)"
  "codes_res r \<Longrightarrow> coded (io_lift r)"
  "coded (io_ret x)" "coded (io_get g)" "coded (io_modify h)"
  "carries_codes e \<Longrightarrow> coded (io_throw e)"
  "(b \<Longrightarrow> coded m2) \<Longrightarrow> (\<not> b \<Longrightarrow> coded n2) \<Longrightarrow> coded (if b then m2 else n2)"
proof -
  show "coded m \<Longrightarrow> (\<And>a. coded (f a)) \<Longrightarrow> coded (io_bind m f)" by (rule triple_bind)
  show "coded m1 \<Longrightarrow> coded n1 \<Longrightarrow> coded (io_then m1 n1)" by (rule triple_then)
qed (auto simp: io_triple_def codes_res_def split: sum.splits)

lemma coded_transaction: "coded m \<Longrightarrow> coded (transaction m)"
  by (auto simp: io_triple_def transaction_def split: prod.splits sum.splits)

lemma coded_on_db: "coded m \<Longrightarrow> coded (on_db m)"
  by (auto simp: io_triple_def on_db_apply split: prod.splits sum.splits) (metis fst_conv prod.collapse)+

lemma coded_load: "coded (ro_loadFundableRun (db_store P datetime) i)"
proof -
  have "coded (loadFundableRun P datetime i)" unfolding loadFundableRun_def
    by (rule coded_steps, rule coded_steps)
      (auto split: option.split intro!: coded_steps(1-4) codes_res_steps(1,4) simp: codes_res_steps(2,3))
  then show ?thesis by (simp add: db_store_def coded_on_db)
qed

lemma coded_fund: "coded (ro_commitFundedRun (db_store P datetime) k run ev p)"
proof -
  have "codes_res (receipt_row_of p)" unfolding receipt_row_of_def
    by (intro codes_res_steps(1,4)) (simp_all add: codes_res_steps(3))
  then have "coded (commitFundedRun k run ev p)"
    unfolding commitFundedRun_def insertReceipt_def update_runs_def insert_event_def insert_outbox_def duplicate_key_def
    by (intro coded_transaction coded_steps) (simp_all add: codes_res_steps)
  then show ?thesis by (simp add: db_store_def coded_on_db)
qed

definition plain_errors :: "'w reconciler_env \<Rightarrow> bool" where
  "plain_errors X \<longleftrightarrow> (\<forall>i w e. fst (re_getOrderStatus X i w) = Inl e \<longrightarrow> carries_codes e)
    \<and> (\<forall>i w e. fst (re_getOrderProof X i w) = Inl e \<longrightarrow> carries_codes e)
    \<and> (\<forall>n h w e. fst (re_getTransactionReceipt X n h w) = Inl e \<longrightarrow> carries_codes e)
    \<and> (\<forall>w e. fst (re_now X w) = Inl e \<longrightarrow> carries_codes e)"

lemma coded_env:
  assumes "plain_errors X"
  shows "coded (re_getOrderStatus X i)" "coded (re_getOrderProof X i)" "coded (re_getTransactionReceipt X n h)" "coded (re_now X)"
  using assms unfolding plain_errors_def io_triple_def by (auto split: prod.splits sum.splits) (metis fst_conv)+

lemma coded_reconcile:
  assumes "plain_errors X"
  shows "coded (reconcile P parse_log X (db_store P datetime) i)"
proof -
  note env = coded_env [OF assms]
  have fund: "coded (fund_verified P parse_log X (db_store P datetime) i c order pay receipt)" for c order pay receipt
    unfolding fund_verified_def Let_def
    by (auto split: option.split intro!: coded_steps env coded_fund simp: settlement_codes_ok)
  have order: "coded (confirmed_order X j)" for j
    unfolding confirmed_order_def by (intro coded_steps env) simp_all
  have "coded (reconcile_loaded P parse_log X (db_store P datetime) i c)" for c
    unfolding reconcile_loaded_def
    by (auto split: option.split intro!: coded_steps env fund order)
  then show ?thesis unfolding reconcile_def by (auto split: option.split intro!: coded_steps coded_load)
qed

section \<open>Properties\<close>

text \<open>What the handler makes of a payment that could not be reconciled now: a wait, a retry or a dead letter.\<close>

definition postponed :: "(exn \<Rightarrow> string) \<Rightarrow> claimed_job \<Rightarrow> exn \<Rightarrow> int \<Rightarrow> job_row \<Rightarrow> bool" where
  "postponed message job err now r \<longleftrightarrow>
    job_lastErrorCode r = Some (case wait_reason err of Some reason \<Rightarrow> reason | None \<Rightarrow> payment_classifyRetryableError message err)
    \<and> (if wait_reason err = None \<and> cj_maximumAttempts job \<le> cj_attempt job then job_status_of r = Job_DEAD_LETTER
       else job_status_of r = Job_RETRY_SCHEDULED
         \<and> job_attempts r = (if wait_reason err = None then cj_attempt job else cj_attempt job - 1)
         \<and> job_attempts r < job_maximumAttempts r
         \<and> now + 5000 \<le> job_availableAt r \<and> job_availableAt r \<le> now + 30000)"

lemma postponed_settled:
  assumes "holds_lease job r" and "job_maximumAttempts r = cj_maximumAttempts job" and "claim_ok job"
  shows "postponed message job err now (payment_settled now (payment_failure message job err) r)"
  using assms delay_bounds(1,2) [of "cj_attempt job"]
  by (auto simp: postponed_def payment_failure_def finished_row_defs holds_lease_def claim_ok_def split: option.split)

text \<open>The handler's result, from what the reconciliation and the expiry return.\<close>

lemma payment_handle_run:
  assumes "claim_ok job" and "rec (cj_runId job) w = (out, w1)"
  shows "payment_handle message rec ex job w =
    (case out of
       Inr p \<Rightarrow> (Inr (Pay_ACK (vp_proofHash p) (mp_transactionHash (vp_proof p))), w1)
     | Inl (Payment_order_expired m) \<Rightarrow>
         (case ex (cj_runId job) w1 of (Inl err, w2) \<Rightarrow> (Inl err, w2) | (Inr _, w2) \<Rightarrow> (Inr (Pay_RESOLVED ''PAYMENT_ORDER_EXPIRED''), w2))
     | Inl (Settlement_rejected codes) \<Rightarrow> (Inr (Pay_DEAD_LETTER ''DETERMINISTIC_SETTLEMENT_REJECTION'' (Some codes)), w1)
     | Inl err \<Rightarrow> (Inr (payment_failure message job err), w1))"
proof -
  have "payment_validateJob job = Inr ()" using assms(1) by (simp add: claim_ok_def payment_validateJob_def)
  then show ?thesis using assms(2)
    by (auto simp: payment_handle_def io_then_apply io_bind_apply io_try_def split: sum.split exn.split prod.split)
qed

text \<open>
  C17: one round of the payment worker over the modelled reconciler and queue.  The claim is refused, nothing is
  due, or a job is claimed, and then its row is left as the reconciliation ended: completed when it returned a
  payment; completed when the order had expired and the run was expired with it, and only when that expiry
  throws does the round throw its error and the lease stay; dead-lettered with the verifier's codes when the
  settlement was rejected; and otherwise scheduled again between 5 and 30 seconds later with an attempt left -
  a wait gives its attempt back - or dead-lettered when the attempts are used up.
\<close>

theorem payment_round_settles_job:
  assumes "job_inv (db_paymentJobs db)" and "list_all (\<lambda>r. job_runId r \<noteq> []) (db_paymentJobs db)"
    and "leaves_jobs X" and "plain_errors X"
    and "rec = reconcile P parse_log X (db_store P datetime)" and "ex = expireRun X (db_store P datetime)"
    and "processNextPaymentJob payment_jobs (payment_handle message rec ex) claim (db, e) = (res, (db', e'))"
  shows "case fst (payment_claimNext (db_now db) claim (db_paymentJobs db)) of
      Inl err \<Rightarrow> res = Inl err
    | Inr None \<Rightarrow> res = Inr False
    | Inr (Some job) \<Rightarrow>
       (case rec (cj_runId job) (snd (qo_claimNext payment_jobs claim (db, e))) of
          (Inr p, w2) \<Rightarrow> res = Inr True \<and> job_left job (\<lambda>r. job_status_of r = Job_COMPLETED) (db_paymentJobs db')
        | (Inl (Payment_order_expired m), w2) \<Rightarrow>
           (case fst (ex (cj_runId job) w2) of
              Inr _ \<Rightarrow> res = Inr True \<and> job_left job (\<lambda>r. job_status_of r = Job_COMPLETED) (db_paymentJobs db')
            | Inl err \<Rightarrow> res = Inl err \<and> job_left job (holds_lease job) (db_paymentJobs db'))
        | (Inl (Settlement_rejected codes), w2) \<Rightarrow> res = Inr True
            \<and> job_left job (\<lambda>r. job_status_of r = Job_DEAD_LETTER \<and> job_failureCodes r = Some codes
                \<and> job_lastErrorCode r = Some ''DETERMINISTIC_SETTLEMENT_REJECTION'') (db_paymentJobs db')
        | (Inl err, w2) \<Rightarrow> res = Inr True \<and> job_left job (postponed message job err (db_now db')) (db_paymentJobs db'))"
proof -
  let ?handle = "payment_handle message rec ex"
  have quiet: "db_paymentJobs (fst (snd (?handle job w))) = db_paymentJobs (fst w)" for job w
  proof -
    have "io_keeps (\<lambda>v. same_jobs (db_paymentJobs (fst w)) (fst v)) (?handle job)"
      unfolding assms(5,6) payment_handle_def
      by (rule io_keeps_then [OF io_keeps_lift], rule io_keeps_bind [OF io_keeps_try [OF work_keeps_jobs(1) [OF assms(3)]]])
        (auto split: sum.split exn.split intro!: io_intros work_keeps_jobs(2) [OF assms(3)])
    then show ?thesis by (auto dest: io_keepsD)
  qed
  have good: "payment_result_ok x" if "?handle job w = (Inr x, w')" for job w w' x
    using that
  proof (rule payment_handle_ok)
    show "carries_codes err" if "fst (rec (cj_runId job) w) = Inl err" for err
      using codedD [OF coded_reconcile [OF assms(4)]] that unfolding assms(5) .
  qed
  have claim: "fst (qo_claimNext payment_jobs claim (db, e)) = fst (payment_claimNext (db_now db) claim (db_paymentJobs db))"
    by (simp add: payment_jobs_def on_jobs_apply)
  have inv: "job_inv (db_paymentJobs (fst (db, e)))" "list_all (\<lambda>r. job_runId r \<noteq> []) (db_paymentJobs (fst (db, e)))"
    using assms(1,2) by simp_all
  show ?thesis
  proof (rule payments.round_cases [OF assms(7) [unfolded processNextPaymentJob_def] inv])
    fix job w1 r
    assume job: "qo_claimNext payment_jobs claim (db, e) = (Inr (Some job), w1)"
      and w1: "job_inv (db_paymentJobs (fst w1))" "r \<in> set (db_paymentJobs (fst w1))" "holds_lease job r"
        "job_maximumAttempts r = cj_maximumAttempts job" "claim_ok job"
      and rest: "io_bind (?handle job) (\<lambda>x. io_then (record_payment_result payment_jobs job x) (io_ret True)) w1
          = (res, (db', e'))"
    have settled: "res = Inr True \<and> db_now db' = db_now (fst w3) \<and> (p (payment_settled (db_now db') x r) \<longrightarrow>
        job_left job p (db_paymentJobs db'))" if h: "?handle job w1 = (Inr x, w3)" for x w3 p
    proof -
      have t: "db_paymentJobs (fst w3) = db_paymentJobs (fst w1)" using quiet [of job w1] h by simp
      have "qo_markWaiting payment_jobs \<noteq> None" by (simp add: payment_jobs_def)
      from payments.records_payment [of w3 r job x, unfolded t, OF w1(1-3,5) good [OF h] this]
      have "res = Inr True" "db_now db' = db_now (fst w3)"
        "db_paymentJobs db' = settle job (payment_settled (db_now db') x) (db_paymentJobs (fst w1))"
        using rest h by (auto simp: io_bind_apply io_then_apply split: prod.splits sum.splits)
      then show ?thesis using settle_leaves [OF w1(1-3), of "payment_settled (db_now db') x" p] by simp
    qed
    have kept: "res = Inl err \<and> job_left job (holds_lease job) (db_paymentJobs db')" if h: "?handle job w1 = (Inl err, w3)" for err w3
    proof -
      have "db_paymentJobs db' = settle job (\<lambda>x. x) (db_paymentJobs (fst w1))"
        using quiet [of job w1] h rest by (auto simp: io_bind_apply settle_def)
      then show ?thesis using settle_leaves [OF w1(1-3), of "\<lambda>x. x" "holds_lease job"] w1(3) h rest by (auto simp: io_bind_apply)
    qed
    obtain out w2 where out: "rec (cj_runId job) w1 = (out, w2)" by (cases "rec (cj_runId job) w1")
    note run = payment_handle_run [where rec = rec and ex = ex and message = message, OF w1(5) out]
    have first: "fst (payment_claimNext (db_now db) claim (db_paymentJobs db)) = Inr (Some job)"
      "snd (qo_claimNext payment_jobs claim (db, e)) = w1" using claim job by simp_all
    have post: "res = Inr True \<and> job_left job (postponed message job err (db_now db')) (db_paymentJobs db')"
      if "?handle job w1 = (Inr (payment_failure message job err), w2)" for err
      using settled [OF that] postponed_settled [OF w1(3,4,5)] by blast
    show ?thesis
    proof (cases out)
      case (Inr p)
      from out have paid: "rec (cj_runId job) w1 = (Inr p, w2)" unfolding Inr .
      show ?thesis unfolding first sum.case option.case paid prod.case
        using settled [OF run [unfolded Inr sum.case], of "\<lambda>r. job_status_of r = Job_COMPLETED"]
        by (simp add: finished_row_defs)
    next
      case (Inl err)
      show ?thesis
      proof (cases err)
        case (Payment_order_expired m)
        obtain o2 w3 where x: "ex (cj_runId job) w2 = (o2, w3)" by (cases "ex (cj_runId job) w2")
        from out have late: "rec (cj_runId job) w1 = (Inl (Payment_order_expired m), w2)" unfolding Inl Payment_order_expired .
        show ?thesis unfolding first sum.case option.case late prod.case exn.case x fst_conv
          using run [unfolded Inl Payment_order_expired sum.case exn.case x] kept
            settled [of "Pay_RESOLVED ''PAYMENT_ORDER_EXPIRED''" w3 "\<lambda>r. job_status_of r = Job_COMPLETED"]
          by (cases o2) (simp_all add: finished_row_defs)
      next
        case (Settlement_rejected codes)
        from out have wrong: "rec (cj_runId job) w1 = (Inl (Settlement_rejected codes), w2)" unfolding Inl Settlement_rejected .
        show ?thesis unfolding first sum.case option.case wrong prod.case exn.case
          by (rule conjI [OF settled [THEN conjunct1] settled [THEN conjunct2, THEN conjunct2, THEN mp]],
              (rule run [unfolded Inl Settlement_rejected sum.case exn.case])+) (simp add: finished_row_defs)
      qed (use run post out in \<open>simp_all only: first sum.case option.case Inl prod.case exn.case\<close>)
    qed
  qed (use claim in simp_all)
qed

text \<open>Both handlers retry only while an attempt is left, which is the budget the queue's liveness needs.\<close>

lemma handlers_retry_in_budget:
  "payment_handle message rec ex job w = (Inr (Pay_RETRY d reason), w') \<Longrightarrow> cj_attempt job < cj_maximumAttempts job"
  "orchestrator_handle message pipe fin job v = (Inr (Orc_RETRY d reason), v') \<Longrightarrow> cj_attempt job < cj_maximumAttempts job"
proof -
  show "payment_handle message rec ex job w = (Inr (Pay_RETRY d reason), w') \<Longrightarrow> cj_attempt job < cj_maximumAttempts job"
    by (auto simp: payment_handle_def payment_failure_def io_then_apply io_bind_apply io_try_def
      split: sum.splits exn.splits prod.splits option.splits if_splits)
  show "orchestrator_handle message pipe fin job v = (Inr (Orc_RETRY d reason), v') \<Longrightarrow> cj_attempt job < cj_maximumAttempts job"
    by (auto simp: orchestrator_handle_def dead_letter_run_def io_then_apply io_bind_apply io_try_def
      split: sum.splits exn.splits prod.splits if_splits)
qed

text \<open>The orchestrator's handler returns for every job a claim hands out, whatever the pipeline and the finalizer do.\<close>

lemma orchestrator_handle_returns:
  "claim_ok job \<Longrightarrow> res_ok (fst (orchestrator_handle message pipe fin job w))"
proof -
  assume ok: "claim_ok job"
  obtain out w1 where out: "pipe (cj_runId job) w = (out, w1)" by (cases "pipe (cj_runId job) w")
  have dead: "res_ok (fst (dead_letter_run fin i reason codes v))" for i reason codes v
    by (simp add: dead_letter_run_def io_then_apply io_try_def split: prod.splits)
  have "orchestrator_validateJob job = Inr ()" using ok by (simp add: claim_ok_def orchestrator_validateJob_def)
  then show ?thesis using out dead
    by (cases out) (auto simp: orchestrator_handle_def io_then_apply io_bind_apply io_try_def split: exn.split)
qed

text \<open>
  C18: every job an orchestrator worker claims is disposed of in that round: whatever error the pipeline
  throws and even when finalizing the run throws, the round returns and the row is completed, rescheduled
  or dead-lettered.  The pipeline and the finalizer are arbitrary; they only leave the job table alone and
  throw codes the queue can store.
\<close>

theorem orchestrator_round_settles_job:
  assumes "job_inv (db_orchestratorJobs db)" and "list_all (\<lambda>r. job_runId r \<noteq> []) (db_orchestratorJobs db)"
    and "\<And>i w. db_orchestratorJobs (fst (snd (pipe i w))) = db_orchestratorJobs (fst w)"
    and "\<And>i reason w. db_orchestratorJobs (fst (snd (fin i reason w))) = db_orchestratorJobs (fst w)"
    and "\<And>i w err. fst (pipe i w) = Inl err \<Longrightarrow> carries_codes err"
    and "processNextOrchestratorJob orchestrator_jobs (orchestrator_handle message pipe fin) claim (db, e) = (res, (db', e'))"
  shows "case fst (claimNext orchestrator_queue (db_now db) claim (db_orchestratorJobs db)) of
      Inl err \<Rightarrow> res = Inl err
    | Inr None \<Rightarrow> res = Inr False
    | Inr (Some job) \<Rightarrow> res = Inr True \<and> job_at_rest job (db_orchestratorJobs db')"
proof -
  let ?handle = "orchestrator_handle message pipe fin"
  have quiet: "db_orchestratorJobs (fst (snd (?handle job w))) = db_orchestratorJobs (fst w)" for job w
  proof -
    let ?I = "\<lambda>v. db_orchestratorJobs (fst v) = db_orchestratorJobs (fst w)"
    have "io_keeps ?I (pipe i)" "io_keeps ?I (fin i reason)" for i reason
      using assms(3,4) by (auto intro!: io_keepsI)
    then have "io_keeps ?I (?handle job)"
      unfolding orchestrator_handle_def dead_letter_run_def
      by (intro io_intros) (auto split: sum.split exn.split prod.split intro!: io_intros)
    then show ?thesis by (auto dest: io_keepsD)
  qed
  have good: "orchestrator_result_ok x" if h: "fst (?handle job w) = Inr x" for job w x
  proof -
    have "?handle job w = (Inr x, snd (?handle job w))" using h by (metis prod.collapse)
    then show ?thesis by (rule orchestrator_handle_ok) (rule assms(5))
  qed
  have claim: "fst (qo_claimNext orchestrator_jobs claim (db, e))
      = fst (claimNext orchestrator_queue (db_now db) claim (db_orchestratorJobs db))"
    by (simp add: orchestrator_jobs_def on_jobs_apply)
  have "case fst (qo_claimNext orchestrator_jobs claim (db, e)) of
      Inl err \<Rightarrow> res = Inl err
    | Inr None \<Rightarrow> res = Inr False
    | Inr (Some job) \<Rightarrow> (res = Inr True \<and> job_at_rest job (db_orchestratorJobs (fst (db', e'))))
        \<or> (claim_ok job \<and> (\<exists>err. res = Inl err \<and> fst (?handle job (snd (qo_claimNext orchestrator_jobs claim (db, e)))) = Inl err)
            \<and> (\<exists>r \<in> set (db_orchestratorJobs (fst (db', e'))). holds_lease job r))"
    by (rule orchestrators.one_round [OF assms(6) [unfolded processNextOrchestratorJob_def], where good = orchestrator_result_ok])
      (use assms(1,2) quiet good in \<open>auto intro: orchestrators.records_orchestrator [THEN conjunct1]
        orchestrators.records_orchestrator [THEN conjunct2]\<close>)
  moreover have "claim_ok job \<longrightarrow> fst (?handle job (snd (qo_claimNext orchestrator_jobs claim (db, e)))) \<noteq> Inl err" for job err
    using orchestrator_handle_returns [of job message pipe fin "snd (qo_claimNext orchestrator_jobs claim (db, e))"] by auto
  ultimately show ?thesis unfolding claim by (auto split: sum.splits option.splits)
qed

text \<open>
  C19: money in doubt is left to a human: when the pipeline reports that a payment may or may not have been
  sent, or that a cross-chain settlement is ambiguous, the job is dead-lettered at once, on any attempt; it is
  never scheduled again, and the run is not finalized: nothing happens after the pipeline's own effects.
\<close>

theorem ambiguous_payment_never_retried:
  assumes "pipe (cj_runId job) w = (Inl err, w1)" and "claim_ok job"
    and "err \<in> {Payment_send_ambiguous m, Cross_chain_settlement_ambiguous m}"
  shows "\<exists>reason. orchestrator_handle message pipe fin job w = (Inr (Orc_DEAD_LETTER reason None), w1)"
proof -
  have "orchestrator_validateJob job = Inr ()" using assms(2) by (simp add: claim_ok_def orchestrator_validateJob_def)
  then show ?thesis using assms(1,3) by (auto simp: orchestrator_handle_def io_then_apply io_bind_apply io_try_def)
qed

text \<open>
  The retry delays of both workers, in milliseconds: five seconds doubling per attempt, capped at half
  a minute for payments and a minute for the orchestrator, so always a delay the queues accept.
\<close>

theorem retry_delays_bounded:
  "payment_retryDelay n = (if n \<le> 1 then 5000 else if n = 2 then 10000 else if n = 3 then 20000 else 30000)
   \<and> orchestrator_retryDelay n = (if n \<le> 1 then 5000 else if n = 2 then 10000 else if n = 3 then 20000
       else if n = 4 then 40000 else 60000)
   \<and> delay_ok (payment_retryDelay n) \<and> delay_ok (orchestrator_retryDelay n)"
proof -
  have four: "payment_retryDelay 4 = 30000" "orchestrator_retryDelay 5 = 60000"
    by (simp_all add: payment_retryDelay_def orchestrator_retryDelay_def)
  have late: "payment_retryDelay n = 30000" if "4 \<le> n" using delay_mono [OF that] delay_bounds(2) [of n] four by simp
  moreover have "orchestrator_retryDelay n = 60000" if "5 \<le> n" using delay_mono [OF that] delay_bounds(4) [of n] four by simp
  moreover have "payment_retryDelay n = 5000 \<and> orchestrator_retryDelay n = 5000" if "n \<le> 1"
    using that by (simp add: payment_retryDelay_def orchestrator_retryDelay_def)
  moreover have "payment_retryDelay 2 = 10000" "orchestrator_retryDelay 2 = 10000" "payment_retryDelay 3 = 20000"
    "orchestrator_retryDelay 3 = 20000" "orchestrator_retryDelay 4 = 40000"
    by (simp_all add: payment_retryDelay_def orchestrator_retryDelay_def)
  moreover have "n \<le> 1 \<or> n = 2 \<or> n = 3 \<or> n = 4 \<or> 5 \<le> n" by linarith
  ultimately show ?thesis by (elim disjE) (simp_all add: delay_ok_def)
qed

section \<open>A concrete round\<close>

lemma demo_jobs_ready:
  "job_inv (db_paymentJobs demo_db2)" "list_all (\<lambda>r. job_runId r \<noteq> []) (db_paymentJobs demo_db2)"
  "job_inv (db_orchestratorJobs demo_db3)" "list_all (\<lambda>r. job_runId r \<noteq> []) (db_orchestratorJobs demo_db3)"
  by (simp_all add: demo_db2_def demo_db3_def job_inv_def new_job_def job_ok_def)

lemma demo_ports: "leaves_jobs demo_env" "plain_errors demo_env"
  by (simp_all add: leaves_jobs_def environment_respects_def plain_errors_def demo_env_def)

lemma unit_world: "\<exists>res db. x = (res, (db, ()))"
  by (cases x) auto

definition demo_first_job :: claimed_job where
  "demo_first_job = \<lparr>cj_runId = ''run-1'', cj_attempt = 1, cj_maximumAttempts = 24, cj_leaseOwner = ''w1''\<rparr>"

lemma demo_claims:
  "fst (payment_claimNext (db_now demo_db2) demo_claim (db_paymentJobs demo_db2)) = Inr (Some demo_first_job)"
  "fst (claimNext orchestrator_queue (db_now demo_db3) demo_claim (db_orchestratorJobs demo_db3))
     = Inr (Some (demo_first_job\<lparr>cj_maximumAttempts := 8\<rparr>))"
  by code_simp+

text \<open>A round in which the chain does not have the receipt yet.\<close>

definition demo_late :: "(database \<times> unit) reconciler_env" where
  "demo_late = demo_env\<lparr>re_getTransactionReceipt := \<lambda>_ _. io_ret None\<rparr>"

definition demo_round :: "bool res \<times> (database \<times> unit)" where
  "demo_round = processNextPaymentJob payment_jobs (payment_handle (\<lambda>_. []) (reconcile demo_hashes demo_parse_log demo_late
     (db_store demo_hashes (\<lambda>_. True))) (expireRun demo_late (db_store demo_hashes (\<lambda>_. True)))) demo_claim (demo_db2, ())"

lemma demo_late_ports: "leaves_jobs demo_late" "plain_errors demo_late"
  by (simp_all add: leaves_jobs_def environment_respects_def plain_errors_def demo_late_def demo_env_def)

lemma load_ignores_jobs:
  "fst (loadFundableRun P datetime i (db\<lparr>db_paymentJobs := x\<rparr>)) = fst (loadFundableRun P datetime i db)"
  by (auto simp: loadFundableRun_def io_bind_apply io_then_apply parseRun_def run_events_def split: option.split sum.split)

lemma demo_late_reconcile:
  "\<exists>w. reconcile demo_hashes demo_parse_log demo_late (db_store demo_hashes (\<lambda>_. True)) ''run-1'' (demo_db2\<lparr>db_paymentJobs := x\<rparr>, ())
    = (Inl (Receipt_not_yet_available (mp_transactionHash demo_proof)), w)"
proof -
  have l: "loadFundableRun demo_hashes (\<lambda>_. True) ''run-1'' (demo_db2\<lparr>db_paymentJobs := x\<rparr>)
      = (Inr (Some demo_context), demo_db2\<lparr>db_paymentJobs := x\<rparr>)"
    using load_ignores_jobs [of demo_hashes "\<lambda>_. True" "''run-1''" x demo_db2] demo_steps(1)
      loadFundableRun_reads [of demo_hashes "\<lambda>_. True" "''run-1''" "demo_db2\<lparr>db_paymentJobs := x\<rparr>"]
    by (simp add: prod_eq_iff)
  have c: "run_status_of (fr_run demo_context) = PAYMENT_REQUIRED" by code_simp
  have o: "mo_status demo_order = Order_PAYMENT_CONFIRMED" by code_simp
  show ?thesis
    by (simp add: reconcile_def reconcile_loaded_def confirmed_order_def db_store_def on_db_apply l c o io_bind_apply
        demo_late_def demo_env_def)
qed

theorem payment_round_settles_job_witness:
  "fst demo_round = Inr True \<and> job_left demo_first_job (\<lambda>r. job_status_of r = Job_RETRY_SCHEDULED \<and> job_attempts r = 0
     \<and> job_lastErrorCode r = Some ''RECEIPT_NOT_YET_AVAILABLE'') (db_paymentJobs (fst (snd demo_round)))"
proof -
  obtain res db' where r: "demo_round = (res, (db', ()))" using unit_world [of demo_round] by (elim exE that)
  have w1: "snd (qo_claimNext payment_jobs demo_claim (demo_db2, ()))
      = (demo_db2\<lparr>db_paymentJobs := snd (payment_claimNext (db_now demo_db2) demo_claim (db_paymentJobs demo_db2))\<rparr>, ())"
    by (simp add: payment_jobs_def on_jobs_apply)
  have i: "cj_runId demo_first_job = ''run-1''" by (simp add: demo_first_job_def)
  obtain w where late: "reconcile demo_hashes demo_parse_log demo_late (db_store demo_hashes (\<lambda>_. True)) (cj_runId demo_first_job)
      (snd (qo_claimNext payment_jobs demo_claim (demo_db2, ()))) = (Inl (Receipt_not_yet_available (mp_transactionHash demo_proof)), w)"
    unfolding w1 i using demo_late_reconcile by blast
  have "res = Inr True \<and> job_left demo_first_job (postponed (\<lambda>_. []) demo_first_job
      (Receipt_not_yet_available (mp_transactionHash demo_proof)) (db_now db')) (db_paymentJobs db')"
    using payment_round_settles_job [OF demo_jobs_ready(1,2) demo_late_ports refl refl r [unfolded demo_round_def],
      unfolded demo_claims(1) sum.case option.case late prod.case exn.case] .
  then show ?thesis unfolding r fst_conv snd_conv job_left_def postponed_def
    by (auto simp: wait_reason_def demo_first_job_def)
qed

definition demo_stuck_round :: "bool res \<times> (database \<times> unit)" where
  "demo_stuck_round = processNextOrchestratorJob orchestrator_jobs
     (orchestrator_handle (\<lambda>_. []) (\<lambda>_. io_throw (Bridge_delivery_pending [])) (\<lambda>_ _. io_throw (Js_error []))) demo_claim
     (demo_db3, ())"

theorem orchestrator_round_settles_job_witness:
  "fst demo_stuck_round = Inr True
   \<and> job_at_rest (demo_first_job\<lparr>cj_maximumAttempts := 8\<rparr>) (db_orchestratorJobs (fst (snd demo_stuck_round)))"
proof -
  obtain res db' where r: "demo_stuck_round = (res, (db', ()))" using unit_world [of demo_stuck_round] by (elim exE that)
  have "res = Inr True \<and> job_at_rest (demo_first_job\<lparr>cj_maximumAttempts := 8\<rparr>) (db_orchestratorJobs db')"
    by (rule orchestrator_round_settles_job [OF demo_jobs_ready(3,4) _ _ _ r [unfolded demo_stuck_round_def],
          unfolded demo_claims(2) sum.case option.case])
      (auto simp: carries_codes_def)
  then show ?thesis unfolding r by simp
qed

theorem ambiguous_payment_never_retried_witness:
  "\<exists>reason. orchestrator_handle (\<lambda>_. []) (\<lambda>_. io_throw (Payment_send_ambiguous ''tx'')) (\<lambda>_ _. io_throw (Js_error []))
     demo_first_job demo_db3 = (Inr (Orc_DEAD_LETTER reason None), demo_db3)"
proof -
  have "claim_ok demo_first_job" by code_simp
  from ambiguous_payment_never_retried [of "\<lambda>_. io_throw (Payment_send_ambiguous ''tx'')", OF io_throw_apply this, of "''tx''"]
  show ?thesis by simp
qed

end
