(* ===== verification/Cross_Chain.thy ===== *)
theory Cross_Chain
  imports Settlement Iso_Date
begin

text \<open>
  Cross-chain procurement (\<open>packages/x402-payments/src/cross-chain-procurement.ts\<close>): the intent to fund a
  payer on the target's chain by a bridge, the check of a bridge quote before anything is signed, and the
  state machine of one procurement.  A payment to the target is only reachable through the observed delivery
  of the bridge; the theorems give the exact event sequences that reach it.
\<close>

section \<open>Assets, rails and intents\<close>

record evm_asset =
  ea_network :: string
  ea_tokenAddress :: string
  ea_symbol :: string
  ea_decimals :: int

record funding_rail =
  rl_asset :: evm_asset
  rl_payerAddress :: string
  rl_maximumAtomicAmount :: string

record target_rail = funding_rail +
  rl_payToAddress :: "string option"

record procurement_intent =
  xi_runId :: string
  xi_funding :: funding_rail
  xi_target :: target_rail
  xi_expiresAt :: string

record bridge_quote =
  bq_quoteId :: string
  bq_provider :: string
  bq_sourceAsset :: evm_asset
  bq_destinationAsset :: evm_asset
  bq_amountInAtomic :: string
  bq_minimumAmountOutAtomic :: string
  bq_feeAtomic :: string
  bq_expiresAt :: string
  bq_providerData :: "(string \<times> string) list"

definition network_ok :: "string \<Rightarrow> bool" where
  "network_ok n \<longleftrightarrow> take 7 n = ''eip155:'' \<and> (\<exists>c cs. drop 7 n = c # cs \<and> c \<noteq> CHR ''0'' \<and> list_all is_digit (c # cs))"

lemma network_ok_code [code]:
  "network_ok n \<longleftrightarrow> take 7 n = ''eip155:''
    \<and> (case drop 7 n of [] \<Rightarrow> False | c # cs \<Rightarrow> c \<noteq> CHR ''0'' \<and> list_all is_digit (c # cs))"
  by (auto simp: network_ok_def split: list.splits)

definition sameAsset :: "evm_asset \<Rightarrow> evm_asset \<Rightarrow> bool" where
  "sameAsset a b \<longleftrightarrow> ea_network a = ea_network b \<and> to_lower (ea_tokenAddress a) = to_lower (ea_tokenAddress b)
    \<and> ea_decimals a = ea_decimals b"

text \<open>Each assertion names the field in its error.\<close>

definition assertNonEmpty :: "string \<Rightarrow> string \<Rightarrow> unit res" where
  "assertNonEmpty v field = ensure (js_trim v \<noteq> []) (Js_error (field @ '' cannot be empty''))"

definition assertAddress :: "string \<Rightarrow> string \<Rightarrow> unit res" where
  "assertAddress v field = ensure (is_address v) (Js_error (field @ '' must be an EVM address''))"

definition assertHash :: "string \<Rightarrow> string \<Rightarrow> unit res" where
  "assertHash v field = ensure (is_bytes32 v) (Js_error (field @ '' must be a 32-byte transaction hash''))"

definition amount_ok :: "bool \<Rightarrow> string \<Rightarrow> bool" where
  "amount_ok allowZero v \<longleftrightarrow> is_atomic v \<and> (allowZero \<or> dec_value v \<noteq> 0)"

definition assertAtomicAmount :: "string \<Rightarrow> string \<Rightarrow> bool \<Rightarrow> unit res" where
  "assertAtomicAmount v field allowZero = ensure (amount_ok allowZero v)
    (Js_error (field @ '' must be '' @ (if allowZero then ''an unsigned'' else ''a positive'') @ '' atomic amount''))"

definition assertFutureDate :: "string \<Rightarrow> string \<Rightarrow> unit res" where
  "assertFutureDate v field = ensure (date_parse v \<noteq> None) (Js_error (field @ '' must be an ISO date''))"

definition assertAsset :: "evm_asset \<Rightarrow> string \<Rightarrow> unit res" where
  "assertAsset a field =
    res_bind (ensure (network_ok (ea_network a)) (Js_error (field @ ''.network must be a CAIP-2 EVM id''))) (\<lambda>_.
    res_bind (assertAddress (ea_tokenAddress a) (field @ ''.tokenAddress'')) (\<lambda>_.
    res_bind (assertNonEmpty (ea_symbol a) (field @ ''.symbol'')) (\<lambda>_.
    ensure (0 \<le> ea_decimals a \<and> ea_decimals a \<le> 36)
      (Js_error (field @ ''.decimals must be an integer between 0 and 36'')))))"

definition createCrossChainProcurementIntent :: "procurement_intent \<Rightarrow> procurement_intent res" where
  "createCrossChainProcurementIntent i =
    res_bind (assertNonEmpty (xi_runId i) ''runId'') (\<lambda>_.
    res_bind (assertAsset (rl_asset (xi_funding i)) ''funding.asset'') (\<lambda>_.
    res_bind (assertAsset (rl_asset (xi_target i)) ''target.asset'') (\<lambda>_.
    res_bind (assertAddress (rl_payerAddress (xi_funding i)) ''funding.payerAddress'') (\<lambda>_.
    res_bind (assertAddress (rl_payerAddress (xi_target i)) ''target.payerAddress'') (\<lambda>_.
    res_bind (case rl_payToAddress (xi_target i) of None \<Rightarrow> Inr ()
      | Some to \<Rightarrow> assertAddress to ''target.payToAddress'') (\<lambda>_.
    res_bind (assertAtomicAmount (rl_maximumAtomicAmount (xi_funding i)) ''funding.maximumAtomicAmount'' False) (\<lambda>_.
    res_bind (assertAtomicAmount (rl_maximumAtomicAmount (xi_target i)) ''target.maximumAtomicAmount'' False) (\<lambda>_.
    res_bind (assertFutureDate (xi_expiresAt i) ''intent.expiresAt'') (\<lambda>_.
    res_bind (ensure (ea_network (rl_asset (xi_funding i)) \<noteq> ea_network (rl_asset (xi_target i)))
      (Js_error ''Cross-chain procurement requires different funding and target networks'')) (\<lambda>_.
    Inr i))))))))))"

section \<open>The bridge quote\<close>

text \<open>
  An expiry of the intent that is not a date compares false, as a comparison with \<open>NaN\<close> does; the intents
  made above carry a date.
\<close>

definition outlives :: "int \<Rightarrow> string \<Rightarrow> bool" where
  "outlives t expiry \<longleftrightarrow> (case date_parse expiry of None \<Rightarrow> False | Some u \<Rightarrow> u < t)"

definition assertBridgeQuotePayable :: "procurement_intent \<Rightarrow> bridge_quote \<Rightarrow> int \<Rightarrow> unit res" where
  "assertBridgeQuotePayable i q now =
    res_bind (assertAsset (bq_sourceAsset q) ''quote.sourceAsset'') (\<lambda>_.
    res_bind (assertAsset (bq_destinationAsset q) ''quote.destinationAsset'') (\<lambda>_.
    res_bind (assertAtomicAmount (bq_amountInAtomic q) ''quote.amountInAtomic'' False) (\<lambda>_.
    res_bind (assertAtomicAmount (bq_minimumAmountOutAtomic q) ''quote.minimumAmountOutAtomic'' False) (\<lambda>_.
    res_bind (assertAtomicAmount (bq_feeAtomic q) ''quote.feeAtomic'' True) (\<lambda>_.
    res_bind (assertNonEmpty (bq_quoteId q) ''quote.quoteId'') (\<lambda>_.
    res_bind (assertNonEmpty (bq_provider q) ''quote.provider'') (\<lambda>_.
    res_bind (ensure (bq_providerData q \<noteq> []) (Js_error ''quote.providerData cannot be empty'')) (\<lambda>_.
    res_bind (ensure (sameAsset (rl_asset (xi_funding i)) (bq_sourceAsset q))
      (Js_error ''Bridge quote source asset does not match the customer funding rail'')) (\<lambda>_.
    res_bind (ensure (sameAsset (rl_asset (xi_target i)) (bq_destinationAsset q))
      (Js_error ''Bridge quote destination asset does not match the target payment rail'')) (\<lambda>_.
    res_bind (js_bigint (bq_amountInAtomic q)) (\<lambda>amountIn.
    res_bind (js_bigint (rl_maximumAtomicAmount (xi_funding i))) (\<lambda>fundingMax.
    res_bind (ensure (amountIn \<le> fundingMax) (Js_error ''Bridge input exceeds the customer funding ceiling'')) (\<lambda>_.
    res_bind (js_bigint (bq_minimumAmountOutAtomic q)) (\<lambda>amountOut.
    res_bind (js_bigint (rl_maximumAtomicAmount (xi_target i))) (\<lambda>targetMax.
    res_bind (ensure (targetMax \<le> amountOut)
      (Js_error ''Bridge minimum output cannot cover the target payment ceiling'')) (\<lambda>_.
    case date_parse (bq_expiresAt q) of
      None \<Rightarrow> Inl (Js_error ''Bridge quote has expired'')
    | Some quoteExpiry \<Rightarrow>
        res_bind (ensure (now < quoteExpiry) (Js_error ''Bridge quote has expired'')) (\<lambda>_.
        ensure (\<not> outlives quoteExpiry (xi_expiresAt i))
          (Js_error ''Bridge quote outlives the procurement intent''))))))))))))))))))"

section \<open>The state machine\<close>

datatype procurement_state =
    Awaiting_source_lock
  | Source_locked string
  | Bridging string string
  | Destination_funded string string string string
  | Target_payment_submitted string string string string string
  | Target_paid string string string string string string string
  | Attested string string
  | Refund_pending string
  | Refunded string string
  | Procurement_failed string

datatype procurement_event =
    Source_funds_locked string
  | Bridge_submitted string
  | Destination_funds_received string string
  | Target_payment_created string
  | Target_payment_confirmed string string
  | Attestation_confirmed string
  | Refund_requested string
  | Refund_confirmed string
  | Failed_event string

fun procurement_status :: "procurement_state \<Rightarrow> string" where
  "procurement_status Awaiting_source_lock = ''AWAITING_SOURCE_LOCK''"
| "procurement_status (Source_locked _) = ''SOURCE_LOCKED''"
| "procurement_status (Bridging _ _) = ''BRIDGING''"
| "procurement_status (Destination_funded _ _ _ _) = ''DESTINATION_FUNDED''"
| "procurement_status (Target_payment_submitted _ _ _ _ _) = ''TARGET_PAYMENT_SUBMITTED''"
| "procurement_status (Target_paid _ _ _ _ _ _ _) = ''TARGET_PAID''"
| "procurement_status (Attested _ _) = ''ATTESTED''"
| "procurement_status (Refund_pending _) = ''REFUND_PENDING''"
| "procurement_status (Refunded _ _) = ''REFUNDED''"
| "procurement_status (Procurement_failed _) = ''FAILED''"

fun event_type :: "procurement_event \<Rightarrow> string" where
  "event_type (Source_funds_locked _) = ''SOURCE_FUNDS_LOCKED''"
| "event_type (Bridge_submitted _) = ''BRIDGE_SUBMITTED''"
| "event_type (Destination_funds_received _ _) = ''DESTINATION_FUNDS_RECEIVED''"
| "event_type (Target_payment_created _) = ''TARGET_PAYMENT_CREATED''"
| "event_type (Target_payment_confirmed _ _) = ''TARGET_PAYMENT_CONFIRMED''"
| "event_type (Attestation_confirmed _) = ''ATTESTATION_CONFIRMED''"
| "event_type (Refund_requested _) = ''REFUND_REQUESTED''"
| "event_type (Refund_confirmed _) = ''REFUND_CONFIRMED''"
| "event_type (Failed_event _) = ''FAILED''"

definition invalidTransition :: "procurement_state \<Rightarrow> procurement_event \<Rightarrow> exn" where
  "invalidTransition s e = Js_error (''Cannot apply '' @ event_type e @ '' while cross-chain procurement is ''
    @ procurement_status s)"

definition requireReason :: "string \<Rightarrow> string res" where
  "requireReason r = res_bind (assertNonEmpty r ''reason'') (\<lambda>_. Inr r)"

text \<open>The guards of the amounts compare validated decimal strings.\<close>

definition advance_procurement :: "procurement_state \<Rightarrow> procurement_event \<Rightarrow> string \<Rightarrow> procurement_state res" where
  "advance_procurement s e cap =
    (case s of
       Awaiting_source_lock \<Rightarrow>
         (case e of Source_funds_locked src \<Rightarrow>
            res_bind (assertHash src ''sourceTransactionHash'') (\<lambda>_. Inr (Source_locked src))
          | _ \<Rightarrow> Inl (invalidTransition s e))
     | Source_locked src \<Rightarrow>
         (case e of Bridge_submitted tid \<Rightarrow>
            res_bind (assertNonEmpty tid ''transferId'') (\<lambda>_. Inr (Bridging src tid))
          | _ \<Rightarrow> Inl (invalidTransition s e))
     | Bridging src tid \<Rightarrow>
         (case e of Destination_funds_received dst got \<Rightarrow>
            res_bind (assertHash dst ''destinationTransactionHash'') (\<lambda>_.
            res_bind (assertAtomicAmount got ''amountReceivedAtomic'' False) (\<lambda>_.
            res_bind (ensure (dec_value cap \<le> dec_value got)
              (Js_error ''Destination funding cannot cover the target payment ceiling'')) (\<lambda>_.
            Inr (Destination_funded src tid dst got))))
          | _ \<Rightarrow> Inl (invalidTransition s e))
     | Destination_funded src tid dst got \<Rightarrow>
         (case e of Target_payment_created pid \<Rightarrow>
            res_bind (assertNonEmpty pid ''paymentId'') (\<lambda>_. Inr (Target_payment_submitted src tid dst got pid))
          | _ \<Rightarrow> Inl (invalidTransition s e))
     | Target_payment_submitted src tid dst got pid \<Rightarrow>
         (case e of Target_payment_confirmed tx spent \<Rightarrow>
            res_bind (assertHash tx ''targetPaymentTransactionHash'') (\<lambda>_.
            res_bind (assertAtomicAmount spent ''amountSpentAtomic'' False) (\<lambda>_.
            res_bind (ensure (dec_value spent \<le> dec_value cap)
              (Js_error ''Target payment exceeded its authorized ceiling'')) (\<lambda>_.
            Inr (Target_paid src tid dst got pid tx spent))))
          | _ \<Rightarrow> Inl (invalidTransition s e))
     | Target_paid src tid dst got pid tx spent \<Rightarrow>
         (case e of Attestation_confirmed att \<Rightarrow>
            res_bind (assertHash att ''attestationTransactionHash'') (\<lambda>_. Inr (Attested tx att))
          | _ \<Rightarrow> Inl (invalidTransition s e))
     | _ \<Rightarrow> Inl (invalidTransition s e))"

definition transitionCrossChainProcurement ::
  "procurement_state \<Rightarrow> procurement_event \<Rightarrow> string \<Rightarrow> procurement_state res" where
  "transitionCrossChainProcurement s e cap =
    res_bind (assertAtomicAmount cap ''targetMaximumAtomicAmount'' False) (\<lambda>_.
    case e of
      Failed_event r \<Rightarrow> res_bind (requireReason r) (\<lambda>why. Inr (Procurement_failed why))
    | Refund_requested r \<Rightarrow>
        res_bind (ensure (procurement_status s \<noteq> ''ATTESTED'' \<and> procurement_status s \<noteq> ''REFUNDED'')
          (Js_error (''Cannot request a refund from '' @ procurement_status s))) (\<lambda>_.
        res_bind (requireReason r) (\<lambda>why. Inr (Refund_pending why)))
    | Refund_confirmed tx \<Rightarrow>
        (case s of
           Refund_pending why \<Rightarrow>
             res_bind (assertHash tx ''refundTransactionHash'') (\<lambda>_. Inr (Refunded why tx))
         | _ \<Rightarrow> Inl (invalidTransition s e))
    | _ \<Rightarrow> advance_procurement s e cap)"

text \<open>A procurement is a fold of the transition over its events, stopped by the first one refused.\<close>

definition procure :: "string \<Rightarrow> procurement_event list \<Rightarrow> procurement_state res" where
  "procure cap evs = res_fold (\<lambda>s e. transitionCrossChainProcurement s e cap) Awaiting_source_lock evs"

section \<open>Facts\<close>

lemma assertions_iff [simp, res_simps]:
  "assertNonEmpty v f = Inr u \<longleftrightarrow> js_trim v \<noteq> []"
  "assertAddress v f = Inr u \<longleftrightarrow> is_address v"
  "assertHash v f = Inr u \<longleftrightarrow> is_bytes32 v"
  "assertAtomicAmount v f z = Inr u \<longleftrightarrow> amount_ok z v"
  "assertFutureDate v f = Inr u \<longleftrightarrow> date_parse v \<noteq> None"
  by (simp_all add: assertNonEmpty_def assertAddress_def assertHash_def assertAtomicAmount_def assertFutureDate_def)

definition asset_ok :: "evm_asset \<Rightarrow> bool" where
  "asset_ok a \<longleftrightarrow> network_ok (ea_network a) \<and> is_address (ea_tokenAddress a) \<and> js_trim (ea_symbol a) \<noteq> []
    \<and> 0 \<le> ea_decimals a \<and> ea_decimals a \<le> 36"

lemma assertAsset_iff [simp, res_simps]: "assertAsset a f = Inr u \<longleftrightarrow> asset_ok a"
  by (auto simp: assertAsset_def asset_ok_def res_bind_Inr_iff)

lemma amount_atomic: "amount_ok z v \<Longrightarrow> is_atomic v"
  by (simp add: amount_ok_def)

lemma requireReason_iff [simp, res_simps]: "requireReason r = Inr why \<longleftrightarrow> why = r \<and> js_trim r \<noteq> []"
  by (auto simp: requireReason_def res_bind_Inr_iff)

lemma res_fold_snoc: "res_fold f s (xs @ [x]) = res_bind (res_fold f s xs) (\<lambda>s'. f s' x)"
proof (induction xs arbitrary: s)
  case Nil
  show ?case by (cases "f s x") simp_all
next
  case (Cons y ys)
  then show ?case by (cases "f s y") simp_all
qed

definition intent_ok :: "procurement_intent \<Rightarrow> bool" where
  "intent_ok i \<longleftrightarrow> js_trim (xi_runId i) \<noteq> [] \<and> asset_ok (rl_asset (xi_funding i)) \<and> asset_ok (rl_asset (xi_target i))
    \<and> is_address (rl_payerAddress (xi_funding i)) \<and> is_address (rl_payerAddress (xi_target i))
    \<and> pred_option is_address (rl_payToAddress (xi_target i))
    \<and> amount_ok False (rl_maximumAtomicAmount (xi_funding i)) \<and> amount_ok False (rl_maximumAtomicAmount (xi_target i))
    \<and> date_parse (xi_expiresAt i) \<noteq> None
    \<and> ea_network (rl_asset (xi_funding i)) \<noteq> ea_network (rl_asset (xi_target i))"

lemma createCrossChainProcurementIntent_iff:
  "createCrossChainProcurementIntent i = Inr j \<longleftrightarrow> j = i \<and> intent_ok i"
  by (auto simp: createCrossChainProcurementIntent_def intent_ok_def res_bind_Inr_iff split: option.splits)

text \<open>
  A bridge quote passes the check against a procurement intent exactly when it trades the assets of the
  two rails, its input is within the funding ceiling, its guaranteed output covers the whole ceiling of the
  target payment, and it expires in the future but no later than the intent.
\<close>

theorem bridge_quote_payable_iff:
  assumes "createCrossChainProcurementIntent i0 = Inr i"
  shows "assertBridgeQuotePayable i q now = Inr () \<longleftrightarrow>
    asset_ok (bq_sourceAsset q) \<and> asset_ok (bq_destinationAsset q)
    \<and> sameAsset (rl_asset (xi_funding i)) (bq_sourceAsset q) \<and> sameAsset (rl_asset (xi_target i)) (bq_destinationAsset q)
    \<and> amount_ok False (bq_amountInAtomic q) \<and> amount_ok False (bq_minimumAmountOutAtomic q) \<and> is_atomic (bq_feeAtomic q)
    \<and> dec_value (bq_amountInAtomic q) \<le> dec_value (rl_maximumAtomicAmount (xi_funding i))
    \<and> dec_value (rl_maximumAtomicAmount (xi_target i)) \<le> dec_value (bq_minimumAmountOutAtomic q)
    \<and> js_trim (bq_quoteId q) \<noteq> [] \<and> js_trim (bq_provider q) \<noteq> [] \<and> bq_providerData q \<noteq> []
    \<and> (\<exists>t u. date_parse (bq_expiresAt q) = Some t \<and> date_parse (xi_expiresAt i) = Some u \<and> now < t \<and> t \<le> u)"
proof -
  from assms have ok: "intent_ok i" by (simp add: createCrossChainProcurementIntent_iff)
  then have "js_bigint (rl_maximumAtomicAmount (xi_funding i)) = Inr (int (dec_value (rl_maximumAtomicAmount (xi_funding i))))"
    "js_bigint (rl_maximumAtomicAmount (xi_target i)) = Inr (int (dec_value (rl_maximumAtomicAmount (xi_target i))))"
    by (auto simp: intent_ok_def js_bigint_atomic amount_atomic)
  moreover from ok obtain u where "date_parse (xi_expiresAt i) = Some u" by (auto simp: intent_ok_def)
  ultimately show ?thesis
    unfolding assertBridgeQuotePayable_def
    by (cases "date_parse (bq_expiresAt q)")
      (simp_all add: res_bind_Inr_iff js_bigint_atomic amount_ok_def outlives_def not_less cong: conj_cong, blast)
qed

section \<open>What a procurement has seen\<close>

text \<open>The events and values behind each state on the way to a payment.\<close>

definition funds_arrived :: "string \<Rightarrow> string \<Rightarrow> string \<Rightarrow> string \<Rightarrow> string \<Rightarrow> bool" where
  "funds_arrived cap src tid dst got \<longleftrightarrow> amount_ok False cap \<and> is_bytes32 src \<and> js_trim tid \<noteq> [] \<and> is_bytes32 dst
    \<and> amount_ok False got \<and> dec_value cap \<le> dec_value got"

definition target_settled :: "string \<Rightarrow> string \<Rightarrow> string \<Rightarrow> string \<Rightarrow> bool" where
  "target_settled cap pid tx spent \<longleftrightarrow> js_trim pid \<noteq> [] \<and> is_bytes32 tx \<and> amount_ok False spent
    \<and> dec_value spent \<le> dec_value cap"

definition delivery_events :: "string \<Rightarrow> string \<Rightarrow> string \<Rightarrow> string \<Rightarrow> procurement_event list" where
  "delivery_events src tid dst got =
    [Source_funds_locked src, Bridge_submitted tid, Destination_funds_received dst got]"

fun reached :: "string \<Rightarrow> procurement_state \<Rightarrow> procurement_event list \<Rightarrow> bool" where
  "reached cap Awaiting_source_lock evs \<longleftrightarrow> evs = []"
| "reached cap (Source_locked src) evs \<longleftrightarrow> amount_ok False cap \<and> is_bytes32 src \<and> evs = [Source_funds_locked src]"
| "reached cap (Bridging src tid) evs \<longleftrightarrow> amount_ok False cap \<and> is_bytes32 src \<and> js_trim tid \<noteq> []
    \<and> evs = [Source_funds_locked src, Bridge_submitted tid]"
| "reached cap (Destination_funded src tid dst got) evs \<longleftrightarrow> funds_arrived cap src tid dst got
    \<and> evs = delivery_events src tid dst got"
| "reached cap (Target_payment_submitted src tid dst got pid) evs \<longleftrightarrow> funds_arrived cap src tid dst got
    \<and> js_trim pid \<noteq> [] \<and> evs = delivery_events src tid dst got @ [Target_payment_created pid]"
| "reached cap (Target_paid src tid dst got pid tx spent) evs \<longleftrightarrow> funds_arrived cap src tid dst got
    \<and> target_settled cap pid tx spent
    \<and> evs = delivery_events src tid dst got @ [Target_payment_created pid, Target_payment_confirmed tx spent]"
| "reached cap (Attested tx att) evs \<longleftrightarrow> (\<exists>src tid dst got pid spent. funds_arrived cap src tid dst got
    \<and> target_settled cap pid tx spent \<and> is_bytes32 att
    \<and> evs = delivery_events src tid dst got
        @ [Target_payment_created pid, Target_payment_confirmed tx spent, Attestation_confirmed att])"
| "reached cap s evs \<longleftrightarrow> True"

lemmas procurement_facts = funds_arrived_def target_settled_def delivery_events_def amount_ok_def

lemma advance_reached:
  assumes "advance_procurement s e cap = Inr s'" and "amount_ok False cap" and "reached cap s evs"
  shows "reached cap s' (evs @ [e])"
  using assms unfolding advance_procurement_def
  by (cases s; cases e) (auto simp: res_bind_Inr_iff procurement_facts)

lemma transition_reached:
  assumes "transitionCrossChainProcurement s e cap = Inr s'" and "reached cap s evs"
  shows "reached cap s' (evs @ [e])"
  using assms advance_reached [of s e cap s' evs]
  by (auto simp: transitionCrossChainProcurement_def res_bind_Inr_iff split: procurement_event.splits procurement_state.splits)

lemma procure_reached: "procure cap evs = Inr s \<Longrightarrow> reached cap s evs"
proof (induction evs arbitrary: s rule: rev_induct)
  case Nil
  then show ?case by (auto simp: procure_def)
next
  case (snoc e evs)
  then show ?case by (auto simp: procure_def res_fold_snoc res_bind_Inr_iff intro: transition_reached)
qed

text \<open>
  C23: a target payment is confirmed by exactly one history: source funds locked, the transfer submitted, its
  delivery on the destination chain observed and covering the whole ceiling, the payment created and
  confirmed within the ceiling, each with well-formed hashes and amounts.  No refund, failure or repeated
  event leads there, and each such history does.
\<close>

theorem paid_only_after_delivery:
  "procure cap evs = Inr (Target_paid src tid dst got pid tx spent) \<longleftrightarrow>
    evs = [Source_funds_locked src, Bridge_submitted tid, Destination_funds_received dst got,
      Target_payment_created pid, Target_payment_confirmed tx spent]
    \<and> amount_ok False cap \<and> is_bytes32 src \<and> js_trim tid \<noteq> [] \<and> is_bytes32 dst \<and> js_trim pid \<noteq> [] \<and> is_bytes32 tx
    \<and> amount_ok False got \<and> amount_ok False spent
    \<and> dec_value spent \<le> dec_value cap \<and> dec_value cap \<le> dec_value got"
  (is "?run \<longleftrightarrow> ?history")
proof
  assume ?run
  from procure_reached [OF this] show ?history by (simp add: procurement_facts)
next
  assume ?history
  then show ?run
    by (simp add: procure_def transitionCrossChainProcurement_def advance_procurement_def assertHash_def assertNonEmpty_def assertAtomicAmount_def)
qed

text \<open>
  The guard on refunds reads only the current status, and a failure is accepted in every state: a procurement
  that was refunded can fail and be refunded again, and so can one that was attested.
\<close>

lemma refund_guard_bypassed:
  assumes "s = Refunded why tx \<or> s = Attested pay att" and "amount_ok False cap" and "is_bytes32 tx2"
  shows "transitionCrossChainProcurement s (Refund_requested ''again'') cap
      = Inl (Js_error (''Cannot request a refund from '' @ procurement_status s))"
    and "res_fold (\<lambda>s e. transitionCrossChainProcurement s e cap) s
      [Failed_event ''late'', Refund_requested ''again'', Refund_confirmed tx2] = Inr (Refunded ''again'' tx2)"
proof -
  have reason: "requireReason ''again'' = Inr ''again''" "requireReason ''late'' = Inr ''late''" by code_simp+
  then show "transitionCrossChainProcurement s (Refund_requested ''again'') cap
      = Inl (Js_error (''Cannot request a refund from '' @ procurement_status s))"
    using assms by (auto simp: transitionCrossChainProcurement_def assertAtomicAmount_def simp del: requireReason_iff)
  show "res_fold (\<lambda>s e. transitionCrossChainProcurement s e cap) s
      [Failed_event ''late'', Refund_requested ''again'', Refund_confirmed tx2] = Inr (Refunded ''again'' tx2)"
    using assms(2,3)
    by (simp add: reason transitionCrossChainProcurement_def assertAtomicAmount_def assertHash_def del: requireReason_iff)
qed

section \<open>A bridge from GOAT to BNB Chain\<close>

definition demo_rail_asset :: "string \<Rightarrow> evm_asset" where
  "demo_rail_asset n = \<lparr>ea_network = ''eip155:'' @ n, ea_tokenAddress = ''0x'' @ replicate 40 (CHR ''a''),
     ea_symbol = ''USDC'', ea_decimals = 6\<rparr>"

definition demo_bridge_intent :: procurement_intent where
  "demo_bridge_intent = \<lparr>xi_runId = ''run-1'',
     xi_funding = \<lparr>rl_asset = demo_rail_asset ''2345'', rl_payerAddress = ''0x'' @ replicate 40 (CHR ''1''),
       rl_maximumAtomicAmount = ''120000''\<rparr>,
     xi_target = \<lparr>rl_asset = demo_rail_asset ''56'', rl_payerAddress = ''0x'' @ replicate 40 (CHR ''2''),
       rl_maximumAtomicAmount = ''100000'', rl_payToAddress = None\<rparr>,
     xi_expiresAt = ''2026-01-01T00:15:00.000Z''\<rparr>"

definition demo_bridge_quote :: "string \<Rightarrow> bridge_quote" where
  "demo_bridge_quote out = \<lparr>bq_quoteId = ''q-1'', bq_provider = ''stargate'',
     bq_sourceAsset = demo_rail_asset ''2345'', bq_destinationAsset = demo_rail_asset ''56'',
     bq_amountInAtomic = ''110000'', bq_minimumAmountOutAtomic = out, bq_feeAtomic = ''0'',
     bq_expiresAt = ''2026-01-01T00:05:00.000Z'', bq_providerData = [(''dstEid'', ''30102'')]\<rparr>"

lemma demo_bridge_intent_made:
  "createCrossChainProcurementIntent demo_bridge_intent = Inr demo_bridge_intent"
  by code_simp

theorem bridge_quote_payable_iff_witness:
  "assertBridgeQuotePayable demo_bridge_intent (demo_bridge_quote ''100000'') 1767225600000 = Inr ()
   \<and> assertBridgeQuotePayable demo_bridge_intent (demo_bridge_quote ''99999'') 1767225600000 \<noteq> Inr ()"
proof -
  have "dec_value ''99999'' < dec_value ''100000''" by code_simp
  moreover have "rl_maximumAtomicAmount (xi_target demo_bridge_intent) = ''100000''" by (simp add: demo_bridge_intent_def)
  ultimately have "assertBridgeQuotePayable demo_bridge_intent (demo_bridge_quote ''99999'') 1767225600000 \<noteq> Inr ()"
    using bridge_quote_payable_iff [OF demo_bridge_intent_made, of "demo_bridge_quote ''99999''"]
    by (simp add: demo_bridge_quote_def)
  moreover have "assertBridgeQuotePayable demo_bridge_intent (demo_bridge_quote ''100000'') 1767225600000 = Inr ()"
    by code_simp
  ultimately show ?thesis by blast
qed

end
