(* ===== verification/Checkpoint.thy ===== *)
theory Checkpoint
  imports Run_Store Risk Delivery
begin

text \<open>
  The checkpoint store of the orchestrator
  (\<open>packages/persistence-postgres/src/orchestrator-checkpoint-store.ts\<close>): one row per run whose columns are
  written once.  A merge inserts the patch or, on conflict, fills the columns that are still null, and returns
  the row as it ended up.  The locale \<open>write_once_store\<close> states what the pipeline relies on.  The \<open>jsonb\<close>
  columns hold the values they are read back as.
\<close>

section \<open>Checkpoints and rows\<close>

text \<open>An element of the evidence column: a scenario result, or an object without the \<open>evidence\<close> of one.\<close>

type_synonym stored_result = "scenario_result option"

record checkpoint =
  ck_plan :: "compiled_plan option"
  ck_proposal :: "risk_classification option"
  ck_paymentNonce :: "int option"
  ck_paymentTransactionHash :: "string option"
  ck_purchaseReceipt :: "string option"
  ck_paymentHeaderName :: "string option"
  ck_bridgeProvider :: "string option"
  ck_bridgeTransferId :: "string option"
  ck_bridgeSourceTransactionHash :: "string option"
  ck_bridgeSubmittedAt :: "int option"
  ck_bridgeDestinationTransactionHash :: "string option"
  ck_bridgeAmountReceivedAtomic :: "string option"
  ck_targetPaymentTransactionHash :: "string option"
  ck_targetPaymentAmountAtomic :: "string option"
  ck_evidence :: "stored_result list option"
  ck_startedAt :: "int option"
  ck_completedAt :: "int option"
  ck_attestationTransactionHash :: "string option"
  ck_refundNonce :: "int option"
  ck_refundTransactionHash :: "string option"

definition empty_checkpoint :: checkpoint where
  "empty_checkpoint = \<lparr>ck_plan = None, ck_proposal = None, ck_paymentNonce = None, ck_paymentTransactionHash = None,
     ck_purchaseReceipt = None, ck_paymentHeaderName = None, ck_bridgeProvider = None, ck_bridgeTransferId = None,
     ck_bridgeSourceTransactionHash = None, ck_bridgeSubmittedAt = None, ck_bridgeDestinationTransactionHash = None,
     ck_bridgeAmountReceivedAtomic = None, ck_targetPaymentTransactionHash = None, ck_targetPaymentAmountAtomic = None,
     ck_evidence = None, ck_startedAt = None, ck_completedAt = None, ck_attestationTransactionHash = None,
     ck_refundNonce = None, ck_refundTransactionHash = None\<rparr>"

record checkpoint_row =
  kr_riskLevel :: "risk_level option"
  kr_scenarios :: "string list option"
  kr_toolBudgetAtomic :: "nat option"
  kr_rationale :: "string option"
  kr_aiProposal :: "risk_classification option"
  kr_paymentNonce :: "int option"
  kr_paymentTransactionHash :: "string option"
  kr_purchaseReceipt :: "string option"
  kr_paymentHeaderName :: "string option"
  kr_bridgeProvider :: "string option"
  kr_bridgeTransferId :: "string option"
  kr_bridgeSourceTransactionHash :: "string option"
  kr_bridgeSubmittedAt :: "int option"
  kr_bridgeDestinationTransactionHash :: "string option"
  kr_bridgeAmountReceivedAtomic :: "nat option"
  kr_targetPaymentTransactionHash :: "string option"
  kr_targetPaymentAmountAtomic :: "nat option"
  kr_evidence :: "stored_result list option"
  kr_startedAt :: "int option"
  kr_completedAt :: "int option"
  kr_attestationTransactionHash :: "string option"
  kr_refundNonce :: "int option"
  kr_refundTransactionHash :: "string option"

type_synonym checkpoint_table = "string \<rightharpoonup> checkpoint_row"

section \<open>Writing columns\<close>

text \<open>
  A value is written unless it is absent; a hash is also absent when it is the empty string.  The columns
  refuse what their types and constraints exclude: \<open>integer\<close>, \<open>bigint\<close>, \<open>numeric(78, 0)\<close>, 32 bytes.
\<close>

fun column :: "('a \<Rightarrow> 'b res) \<Rightarrow> 'a option \<Rightarrow> 'b option res" where
  "column f None = Inr None"
| "column f (Some v) = res_bind (f v) (\<lambda>b. Inr (Some b))"

definition pg_int :: "nat \<Rightarrow> int \<Rightarrow> int res" where
  "pg_int bits n = (if - (2 ^ (bits - 1)) \<le> n \<and> n < 2 ^ (bits - 1) then Inr n
     else Inl (Js_error ''value out of range''))"

definition pg_numeric :: "string \<Rightarrow> nat res" where
  "pg_numeric s = (if s \<noteq> [] \<and> list_all is_digit s \<and> dec_value s < 10 ^ 78 then Inr (dec_value s)
     else Inl (Js_error ''invalid numeric value''))"

definition pg_header_name :: "string \<Rightarrow> string res" where
  "pg_header_name s = (if s = ''x-payment'' \<or> s = ''payment-signature'' then Inr s
     else Inl (Js_error ''check constraint payment_header_name''))"

definition hash_column :: "string option \<Rightarrow> string option res" where
  "hash_column v = column (hexToBuffer 32) (unless_empty v)"

definition row_consistent :: "checkpoint_row \<Rightarrow> bool" where
  "row_consistent r \<longleftrightarrow> (kr_scenarios r = None \<longleftrightarrow> kr_riskLevel r = None)
    \<and> (kr_startedAt r = None \<longleftrightarrow> kr_evidence r = None) \<and> (kr_completedAt r = None \<longleftrightarrow> kr_evidence r = None)"

definition row_of_patch :: "checkpoint \<Rightarrow> checkpoint_row res" where
  "row_of_patch p =
    res_bind (column pg_numeric (map_option cp_toolBudgetAtomic (ck_plan p))) (\<lambda>budget.
    res_bind (column (pg_int 32) (ck_paymentNonce p)) (\<lambda>paymentNonce.
    res_bind (hash_column (ck_paymentTransactionHash p)) (\<lambda>paymentHash.
    res_bind (column pg_header_name (ck_paymentHeaderName p)) (\<lambda>headerName.
    res_bind (hash_column (ck_bridgeSourceTransactionHash p)) (\<lambda>sourceHash.
    res_bind (column (pg_int 64) (ck_bridgeSubmittedAt p)) (\<lambda>submittedAt.
    res_bind (hash_column (ck_bridgeDestinationTransactionHash p)) (\<lambda>destinationHash.
    res_bind (column pg_numeric (ck_bridgeAmountReceivedAtomic p)) (\<lambda>received.
    res_bind (hash_column (ck_targetPaymentTransactionHash p)) (\<lambda>targetHash.
    res_bind (column pg_numeric (ck_targetPaymentAmountAtomic p)) (\<lambda>targetAmount.
    res_bind (column (pg_int 64) (ck_startedAt p)) (\<lambda>startedAt.
    res_bind (column (pg_int 64) (ck_completedAt p)) (\<lambda>completedAt.
    res_bind (hash_column (ck_attestationTransactionHash p)) (\<lambda>attestationHash.
    res_bind (column (pg_int 32) (ck_refundNonce p)) (\<lambda>refundNonce.
    res_bind (hash_column (ck_refundTransactionHash p)) (\<lambda>refundHash.
    let row = \<lparr>kr_riskLevel = map_option cp_riskLevel (ck_plan p), kr_scenarios = map_option cp_scenarios (ck_plan p),
       kr_toolBudgetAtomic = budget, kr_rationale = map_option cp_rationale (ck_plan p),
       kr_aiProposal = ck_proposal p, kr_paymentNonce = paymentNonce, kr_paymentTransactionHash = paymentHash,
       kr_purchaseReceipt = ck_purchaseReceipt p, kr_paymentHeaderName = headerName,
       kr_bridgeProvider = ck_bridgeProvider p, kr_bridgeTransferId = ck_bridgeTransferId p,
       kr_bridgeSourceTransactionHash = sourceHash, kr_bridgeSubmittedAt = submittedAt,
       kr_bridgeDestinationTransactionHash = destinationHash, kr_bridgeAmountReceivedAtomic = received,
       kr_targetPaymentTransactionHash = targetHash, kr_targetPaymentAmountAtomic = targetAmount,
       kr_evidence = ck_evidence p, kr_startedAt = startedAt, kr_completedAt = completedAt,
       kr_attestationTransactionHash = attestationHash, kr_refundNonce = refundNonce,
       kr_refundTransactionHash = refundHash\<rparr>
    in res_bind (ensure (row_consistent row) (Js_error ''check constraint orchestrator_run_checkpoints'')) (\<lambda>_.
    Inr row))))))))))))))))"

section \<open>Reading and merging\<close>

definition plan_of_row :: "checkpoint_row \<Rightarrow> compiled_plan option" where
  "plan_of_row r =
    (case (kr_riskLevel r, kr_scenarios r, kr_toolBudgetAtomic r, unless_empty (kr_rationale r)) of
       (Some level, Some scenarios, Some budget, Some rationale) \<Rightarrow>
         Some \<lparr>cp_scenarios = scenarios, cp_toolBudgetAtomic = nat_to_string budget, cp_riskLevel = level,
           cp_rationale = rationale\<rparr>
     | _ \<Rightarrow> None)"

definition parseRow :: "checkpoint_row \<Rightarrow> checkpoint" where
  "parseRow r = \<lparr>ck_plan = plan_of_row r, ck_proposal = kr_aiProposal r, ck_paymentNonce = kr_paymentNonce r,
     ck_paymentTransactionHash = kr_paymentTransactionHash r, ck_purchaseReceipt = unless_empty (kr_purchaseReceipt r),
     ck_paymentHeaderName = kr_paymentHeaderName r, ck_bridgeProvider = unless_empty (kr_bridgeProvider r),
     ck_bridgeTransferId = unless_empty (kr_bridgeTransferId r),
     ck_bridgeSourceTransactionHash = kr_bridgeSourceTransactionHash r, ck_bridgeSubmittedAt = kr_bridgeSubmittedAt r,
     ck_bridgeDestinationTransactionHash = kr_bridgeDestinationTransactionHash r,
     ck_bridgeAmountReceivedAtomic = map_option nat_to_string (kr_bridgeAmountReceivedAtomic r),
     ck_targetPaymentTransactionHash = kr_targetPaymentTransactionHash r,
     ck_targetPaymentAmountAtomic = map_option nat_to_string (kr_targetPaymentAmountAtomic r),
     ck_evidence = kr_evidence r, ck_startedAt = kr_startedAt r, ck_completedAt = kr_completedAt r,
     ck_attestationTransactionHash = kr_attestationTransactionHash r, ck_refundNonce = kr_refundNonce r,
     ck_refundTransactionHash = kr_refundTransactionHash r\<rparr>"

definition coalesce :: "'a option \<Rightarrow> 'a option \<Rightarrow> 'a option" where
  "coalesce old new = (case old of None \<Rightarrow> new | Some v \<Rightarrow> Some v)"

definition coalesce_rows :: "checkpoint_row \<Rightarrow> checkpoint_row \<Rightarrow> checkpoint_row" where
  "coalesce_rows old new = \<lparr>kr_riskLevel = coalesce (kr_riskLevel old) (kr_riskLevel new),
     kr_scenarios = coalesce (kr_scenarios old) (kr_scenarios new),
     kr_toolBudgetAtomic = coalesce (kr_toolBudgetAtomic old) (kr_toolBudgetAtomic new),
     kr_rationale = coalesce (kr_rationale old) (kr_rationale new),
     kr_aiProposal = coalesce (kr_aiProposal old) (kr_aiProposal new),
     kr_paymentNonce = coalesce (kr_paymentNonce old) (kr_paymentNonce new),
     kr_paymentTransactionHash = coalesce (kr_paymentTransactionHash old) (kr_paymentTransactionHash new),
     kr_purchaseReceipt = coalesce (kr_purchaseReceipt old) (kr_purchaseReceipt new),
     kr_paymentHeaderName = coalesce (kr_paymentHeaderName old) (kr_paymentHeaderName new),
     kr_bridgeProvider = coalesce (kr_bridgeProvider old) (kr_bridgeProvider new),
     kr_bridgeTransferId = coalesce (kr_bridgeTransferId old) (kr_bridgeTransferId new),
     kr_bridgeSourceTransactionHash = coalesce (kr_bridgeSourceTransactionHash old) (kr_bridgeSourceTransactionHash new),
     kr_bridgeSubmittedAt = coalesce (kr_bridgeSubmittedAt old) (kr_bridgeSubmittedAt new),
     kr_bridgeDestinationTransactionHash =
       coalesce (kr_bridgeDestinationTransactionHash old) (kr_bridgeDestinationTransactionHash new),
     kr_bridgeAmountReceivedAtomic = coalesce (kr_bridgeAmountReceivedAtomic old) (kr_bridgeAmountReceivedAtomic new),
     kr_targetPaymentTransactionHash =
       coalesce (kr_targetPaymentTransactionHash old) (kr_targetPaymentTransactionHash new),
     kr_targetPaymentAmountAtomic = coalesce (kr_targetPaymentAmountAtomic old) (kr_targetPaymentAmountAtomic new),
     kr_evidence = coalesce (kr_evidence old) (kr_evidence new),
     kr_startedAt = coalesce (kr_startedAt old) (kr_startedAt new),
     kr_completedAt = coalesce (kr_completedAt old) (kr_completedAt new),
     kr_attestationTransactionHash = coalesce (kr_attestationTransactionHash old) (kr_attestationTransactionHash new),
     kr_refundNonce = coalesce (kr_refundNonce old) (kr_refundNonce new),
     kr_refundTransactionHash = coalesce (kr_refundTransactionHash old) (kr_refundTransactionHash new)\<rparr>"

definition load_checkpoint :: "string \<Rightarrow> (checkpoint_table, checkpoint) io" where
  "load_checkpoint runId =
    io_get (\<lambda>t. case t runId of None \<Rightarrow> empty_checkpoint | Some row \<Rightarrow> parseRow row)"

text \<open>\<open>run_exists\<close> is the reference of the row to its run.\<close>

definition merge_checkpoint :: "(string \<Rightarrow> bool) \<Rightarrow> string \<Rightarrow> checkpoint \<Rightarrow> (checkpoint_table, checkpoint) io" where
  "merge_checkpoint run_exists runId patch =
    io_bind (io_lift (row_of_patch patch)) (\<lambda>new.
    io_bind (io_get (\<lambda>t. t runId)) (\<lambda>found.
    io_then (io_lift (ensure (found \<noteq> None \<or> run_exists runId) (Js_error ''foreign key run_id'')))
    (let row = (case found of None \<Rightarrow> new | Some old \<Rightarrow> coalesce_rows old new) in
     io_then (io_modify (\<lambda>t. t(runId \<mapsto> row))) (io_ret (parseRow row)))))"

section \<open>Written once\<close>

definition retains :: "'a option \<Rightarrow> 'a option \<Rightarrow> bool" where
  "retains a b \<longleftrightarrow> a = None \<or> b = a"

text \<open>Every value of \<open>a\<close> is still there, unchanged, in \<open>b\<close>.\<close>

definition extends :: "checkpoint \<Rightarrow> checkpoint \<Rightarrow> bool" where
  "extends a b \<longleftrightarrow>
    retains (ck_plan a) (ck_plan b) \<and> retains (ck_proposal a) (ck_proposal b) \<and> retains (ck_paymentNonce
    a) (ck_paymentNonce b) \<and> retains (ck_paymentTransactionHash a) (ck_paymentTransactionHash b) \<and> retains
    (ck_purchaseReceipt a) (ck_purchaseReceipt b) \<and> retains (ck_paymentHeaderName a) (ck_paymentHeaderName b)
    \<and> retains (ck_bridgeProvider a) (ck_bridgeProvider b) \<and> retains (ck_bridgeTransferId a)
    (ck_bridgeTransferId b) \<and> retains (ck_bridgeSourceTransactionHash a) (ck_bridgeSourceTransactionHash b)
    \<and> retains (ck_bridgeSubmittedAt a) (ck_bridgeSubmittedAt b) \<and> retains
    (ck_bridgeDestinationTransactionHash a) (ck_bridgeDestinationTransactionHash b) \<and> retains
    (ck_bridgeAmountReceivedAtomic a) (ck_bridgeAmountReceivedAtomic b) \<and> retains
    (ck_targetPaymentTransactionHash a) (ck_targetPaymentTransactionHash b) \<and> retains
    (ck_targetPaymentAmountAtomic a) (ck_targetPaymentAmountAtomic b) \<and> retains (ck_evidence a) (ck_evidence b)
    \<and> retains (ck_startedAt a) (ck_startedAt b) \<and> retains (ck_completedAt a) (ck_completedAt b) \<and>
    retains (ck_attestationTransactionHash a) (ck_attestationTransactionHash b) \<and> retains (ck_refundNonce a)
    (ck_refundNonce b) \<and> retains (ck_refundTransactionHash a) (ck_refundTransactionHash b)"

lemma retains_simps [simp]: "retains None b" "retains a a" "retains (Some v) b \<longleftrightarrow> b = Some v"
  by (auto simp: retains_def)

lemma retains_trans: "retains a b \<Longrightarrow> retains b c \<Longrightarrow> retains a c"
  by (auto simp: retains_def)

lemma extends_refl [simp]: "extends a a"
  by (simp add: extends_def)

lemma extends_trans: "extends a b \<Longrightarrow> extends b c \<Longrightarrow> extends a c"
  unfolding extends_def by (blast intro: retains_trans)

lemma extends_empty [simp]: "extends empty_checkpoint c"
  by (simp add: extends_def empty_checkpoint_def)

lemma extendsD:
  "extends a b \<Longrightarrow> ck_purchaseReceipt a = Some r \<Longrightarrow> ck_purchaseReceipt b = Some r"
  "extends a b \<Longrightarrow> ck_paymentTransactionHash a = Some h \<Longrightarrow> ck_paymentTransactionHash b = Some h"
  "extends a b \<Longrightarrow> ck_refundNonce a = Some n \<Longrightarrow> ck_refundNonce b = Some n"
  "extends a b \<Longrightarrow> ck_targetPaymentAmountAtomic a = Some v \<Longrightarrow> ck_targetPaymentAmountAtomic b = Some v"
  "extends a b \<Longrightarrow> ck_plan a = Some pl \<Longrightarrow> ck_plan b = Some pl"
  by (auto simp: extends_def)

locale write_once_store =
  fixes load :: "string \<Rightarrow> ('w, checkpoint) io"
    and merge :: "string \<Rightarrow> checkpoint \<Rightarrow> ('w, checkpoint) io"
  assumes load_reads: "snd (load i w) = w"
    and merge_refused: "merge i p w = (Inl e, w1) \<Longrightarrow> w1 = w"
    and merge_returns: "merge i p w = (Inr c, w1) \<Longrightarrow> fst (load i w1) = Inr c"
    and merge_extends: "merge i p w = (Inr c, w1) \<Longrightarrow> fst (load i w) = Inr c0 \<Longrightarrow> extends c0 c"
    and merge_other: "merge i p w = (r, w1) \<Longrightarrow> j \<noteq> i \<Longrightarrow> fst (load j w1) = fst (load j w)"
    and merge_refund: "merge i p w = (Inr c, w1) \<Longrightarrow> ck_refundNonce p = Some n \<Longrightarrow> ck_refundNonce c \<noteq> None"
begin

text \<open>A world follows another when no checkpoint has lost or changed a value.\<close>

definition leads :: "'w \<Rightarrow> 'w \<Rightarrow> bool" where
  "leads w w1 \<longleftrightarrow> (\<forall>i c. fst (load i w) = Inr c \<longrightarrow> (\<exists>c1. fst (load i w1) = Inr c1 \<and> extends c c1))"

lemma leads_refl [simp]: "leads w w"
  by (auto simp: leads_def intro: extends_refl)

lemma leads_trans: "leads w w1 \<Longrightarrow> leads w1 w2 \<Longrightarrow> leads w w2"
  unfolding leads_def by (meson extends_trans)

lemma leads_load: "leads w w1 \<Longrightarrow> fst (load i w) = Inr c \<Longrightarrow> \<exists>c1. fst (load i w1) = Inr c1 \<and> extends c c1"
  by (simp add: leads_def)

lemma merge_leads: "leads w (snd (merge i p w))"
proof (cases "merge i p w")
  case (Pair r w1)
  show ?thesis
  proof (cases r)
    case (Inl e)
    then show ?thesis using merge_refused [of i p w e w1] Pair by simp
  next
    case (Inr c)
    then have m: "merge i p w = (Inr c, w1)" using Pair by simp
    have "\<exists>c1. fst (load j w1) = Inr c1 \<and> extends c0 c1" if "fst (load j w) = Inr c0" for j c0
      using merge_extends [OF m, of c0] merge_returns [OF m] merge_other [OF m, of j] that
      by (cases "j = i") (auto intro: extends_refl)
    then show ?thesis using Pair by (simp add: leads_def)
  qed
qed

end

section \<open>The table is a write-once store\<close>

lemma coalesce_simps [simp]: "coalesce None new = new" "coalesce (Some v) new = Some v"
  by (simp_all add: coalesce_def)

lemma retains_coalesce [simp]:
  "retains a (coalesce a b)" "retains (map_option f a) (map_option f (coalesce a b))"
  "retains (unless_empty x) (unless_empty (coalesce x y))"
  subgoal by (cases a) simp_all
  subgoal by (cases a) simp_all
  subgoal by (cases x) (simp_all add: unless_empty_def)
  done

lemma retains_plan: "retains (plan_of_row old) (plan_of_row (coalesce_rows old new))"
  by (auto simp: plan_of_row_def coalesce_rows_def unless_empty_def split: option.splits list.splits)

lemma coalesce_extends: "extends (parseRow old) (parseRow (coalesce_rows old new))"
  by (simp add: extends_def parseRow_def retains_plan) (simp add: coalesce_rows_def)

lemma merge_checkpoint_eq:
  "merge_checkpoint X i p t =
    (case row_of_patch p of Inl e \<Rightarrow> (Inl e, t)
     | Inr new \<Rightarrow>
        (case t i of
           None \<Rightarrow> if X i then (Inr (parseRow new), t(i \<mapsto> new)) else (Inl (Js_error ''foreign key run_id''), t)
         | Some old \<Rightarrow> (Inr (parseRow (coalesce_rows old new)), t(i \<mapsto> coalesce_rows old new))))"
  by (cases "row_of_patch p"; cases "t i"; cases "X i")
    (simp_all add: merge_checkpoint_def io_bind_apply io_then_apply Let_def)

lemma row_of_patch_refund:
  assumes "row_of_patch p = Inr row"
  shows "kr_refundNonce row = ck_refundNonce p"
proof -
  have "column (pg_int 32) v = Inr u \<Longrightarrow> u = v" for u v
    by (cases v) (auto simp: pg_int_def split: if_splits)
  then show ?thesis using assms by (auto simp: row_of_patch_def res_bind_Inr_iff Let_def)
qed

lemma refund_column [simp]:
  "ck_refundNonce (parseRow r) = kr_refundNonce r"
  "kr_refundNonce (coalesce_rows a b) = coalesce (kr_refundNonce a) (kr_refundNonce b)"
  by (simp_all add: parseRow_def coalesce_rows_def)

interpretation checkpoints: write_once_store load_checkpoint "merge_checkpoint run_exists" for run_exists
proof
  fix i j p c c0 n e r and t t1 :: checkpoint_table
  note eq = merge_checkpoint_eq [of run_exists i p t] load_checkpoint_def
  show "snd (load_checkpoint i t) = t" by (simp add: load_checkpoint_def)
  show "merge_checkpoint run_exists i p t = (Inl e, t1) \<Longrightarrow> t1 = t"
    by (simp add: eq split: sum.splits option.splits if_splits)
  show "merge_checkpoint run_exists i p t = (Inr c, t1) \<Longrightarrow> fst (load_checkpoint i t1) = Inr c"
    by (auto simp: eq split: sum.splits option.splits if_splits)
  show "merge_checkpoint run_exists i p t = (Inr c, t1) \<Longrightarrow> fst (load_checkpoint i t) = Inr c0 \<Longrightarrow> extends c0 c"
    by (auto simp: eq coalesce_extends split: sum.splits option.splits if_splits)
  show "merge_checkpoint run_exists i p t = (r, t1) \<Longrightarrow> j \<noteq> i \<Longrightarrow>
      fst (load_checkpoint j t1) = fst (load_checkpoint j t)"
    by (auto simp: eq split: sum.splits option.splits if_splits)
  show "ck_refundNonce c \<noteq> None" if m: "merge_checkpoint run_exists i p t = (Inr c, t1)" and n: "ck_refundNonce p = Some n"
  proof -
    obtain row where row: "row_of_patch p = Inr row" using m by (auto simp: eq split: sum.splits)
    then have "kr_refundNonce row = Some n" using row_of_patch_refund n by simp
    then show ?thesis using m
      by (cases "t i") (auto simp: eq row coalesce_def split: option.splits if_splits)
  qed
qed

section \<open>Properties\<close>

text \<open>Merges by any writers of any runs; a refused one leaves the table as it was.\<close>

definition apply_merges :: "(string \<Rightarrow> bool) \<Rightarrow> (string \<times> checkpoint) list \<Rightarrow> checkpoint_table \<Rightarrow> checkpoint_table" where
  "apply_merges X ops t = foldl (\<lambda>t (i, p). snd (merge_checkpoint X i p t)) t ops"

lemma apply_merges_leads: "checkpoints.leads t (apply_merges X ops t)"
proof (induction ops arbitrary: t)
  case Nil
  show ?case by (simp add: apply_merges_def)
next
  case (Cons op ops)
  obtain i p where op: "op = (i, p)" by (cases op)
  have "checkpoints.leads (snd (merge_checkpoint X i p t)) (apply_merges X ops (snd (merge_checkpoint X i p t)))"
    by (rule Cons.IH)
  moreover have "checkpoints.leads t (snd (merge_checkpoint X i p t))" by (rule checkpoints.merge_leads)
  ultimately show ?case by (simp add: op apply_merges_def) (rule checkpoints.leads_trans)
qed

text \<open>
  C12: a checkpoint is written once.  What a merge returned is what every later load and merge of that run
  returns, value by value, whatever other workers merge in between: of two workers racing to record a
  payment, both act on the one that was kept.
\<close>

theorem checkpoint_written_once:
  assumes "merge_checkpoint X i p t = (Inr c, t1)"
  shows "(\<exists>c1. load_checkpoint i (apply_merges X ops t1) = (Inr c1, apply_merges X ops t1) \<and> extends c c1)
    \<and> (\<forall>q c2 t2. merge_checkpoint X i q (apply_merges X ops t1) = (Inr c2, t2) \<longrightarrow> extends c c2)"
proof -
  have "fst (load_checkpoint i t1) = Inr c" using checkpoints.merge_returns [OF assms] .
  from checkpoints.leads_load [OF apply_merges_leads this, of X ops]
  obtain c1 where c1: "fst (load_checkpoint i (apply_merges X ops t1)) = Inr c1" "extends c c1" by blast
  have "extends c c2" if "merge_checkpoint X i q (apply_merges X ops t1) = (Inr c2, t2)" for q c2 t2
    using checkpoints.merge_extends [OF that c1(1)] c1(2) by (rule extends_trans [rotated])
  moreover have "load_checkpoint i (apply_merges X ops t1) = (Inr c1, apply_merges X ops t1)"
    using c1(1) by (simp add: load_checkpoint_def)
  ultimately show ?thesis using c1(2) by blast
qed

text \<open>What a patch may hold to be stored as it is.\<close>

definition stored_hash :: "string option \<Rightarrow> bool" where
  "stored_hash v = pred_option (\<lambda>h. is_hex_bytes 32 h \<and> to_lower h = h) v"

definition stored_amount :: "string \<Rightarrow> bool" where
  "stored_amount v \<longleftrightarrow> is_atomic v \<and> dec_value v < 10 ^ 78"

definition stored_int :: "nat \<Rightarrow> int option \<Rightarrow> bool" where
  "stored_int bits v = pred_option (\<lambda>n. - (2 ^ (bits - 1)) \<le> n \<and> n < 2 ^ (bits - 1)) v"

definition patch_ok :: "checkpoint \<Rightarrow> bool" where
  "patch_ok p \<longleftrightarrow> pred_option (\<lambda>pl. stored_amount (cp_toolBudgetAtomic pl) \<and> cp_rationale pl \<noteq> []) (ck_plan p)
    \<and> stored_int 32 (ck_paymentNonce p) \<and> stored_int 32 (ck_refundNonce p) \<and> stored_int 64 (ck_bridgeSubmittedAt p)
    \<and> stored_int 64 (ck_startedAt p) \<and> stored_int 64 (ck_completedAt p)
    \<and> stored_hash (ck_paymentTransactionHash p) \<and> stored_hash (ck_bridgeSourceTransactionHash p)
    \<and> stored_hash (ck_bridgeDestinationTransactionHash p) \<and> stored_hash (ck_targetPaymentTransactionHash p)
    \<and> stored_hash (ck_attestationTransactionHash p) \<and> stored_hash (ck_refundTransactionHash p)
    \<and> pred_option stored_amount (ck_bridgeAmountReceivedAtomic p) \<and> pred_option stored_amount (ck_targetPaymentAmountAtomic p)
    \<and> pred_option (\<lambda>h. h = ''x-payment'' \<or> h = ''payment-signature'') (ck_paymentHeaderName p)
    \<and> ck_purchaseReceipt p \<noteq> Some [] \<and> ck_bridgeProvider p \<noteq> Some [] \<and> ck_bridgeTransferId p \<noteq> Some []
    \<and> (ck_startedAt p = None \<longleftrightarrow> ck_evidence p = None) \<and> (ck_completedAt p = None \<longleftrightarrow> ck_evidence p = None)"

lemma atomic_string: "is_atomic v \<Longrightarrow> nat_to_string (dec_value v) = v"
  by (rule nat_to_string_dec_value)

lemma stored_columns:
  "stored_hash v \<Longrightarrow> hash_column v = Inr v"
  "pred_option stored_amount a \<Longrightarrow> \<exists>n. column pg_numeric a = Inr n \<and> map_option nat_to_string n = a"
  "stored_int b x \<Longrightarrow> column (pg_int b) x = Inr x"
  "pred_option (\<lambda>h. h = ''x-payment'' \<or> h = ''payment-signature'') y \<Longrightarrow> column pg_header_name y = Inr y"
  subgoal by (cases v) (auto simp: stored_hash_def hash_column_def hexToBuffer_def unless_empty_def is_hex_bytes_def split: list.splits)
  subgoal by (cases a) (auto simp: stored_amount_def pg_numeric_def atomic_string is_atomic_digits)
  subgoal by (cases x) (auto simp: stored_int_def pg_int_def)
  subgoal by (cases y) (auto simp: pg_header_name_def)
  done

text \<open>
  A checkpoint survives the database: the first merge of a run returns exactly the patch it was given,
  and so does every load of it until the next merge.
\<close>

theorem checkpoint_roundtrip:
  assumes "t i = None" and "X i" and "patch_ok p"
  shows "\<exists>t1. merge_checkpoint X i p t = (Inr p, t1) \<and> load_checkpoint i t1 = (Inr p, t1)"
proof -
  have plan: "pred_option stored_amount (map_option cp_toolBudgetAtomic (ck_plan p))"
    using assms(3) by (auto simp: patch_ok_def option.pred_map elim!: option.pred_mono_strong)
  have amounts: "pred_option stored_amount (ck_bridgeAmountReceivedAtomic p)" "pred_option stored_amount (ck_targetPaymentAmountAtomic p)"
    using assms(3) by (simp_all add: patch_ok_def)
  obtain n1 n2 n3 where n:
    "column pg_numeric (map_option cp_toolBudgetAtomic (ck_plan p)) = Inr n1"
    "map_option nat_to_string n1 = map_option cp_toolBudgetAtomic (ck_plan p)"
    "column pg_numeric (ck_bridgeAmountReceivedAtomic p) = Inr n2" "map_option nat_to_string n2 = ck_bridgeAmountReceivedAtomic p"
    "column pg_numeric (ck_targetPaymentAmountAtomic p) = Inr n3" "map_option nat_to_string n3 = ck_targetPaymentAmountAtomic p"
    using stored_columns(2) [OF plan] stored_columns(2) [OF amounts(1)] stored_columns(2) [OF amounts(2)] by (elim exE conjE that)
  have texts: "unless_empty x = x" if "x \<noteq> Some []" for x using that by (auto simp: unless_empty_def split: option.splits list.splits)
  have "\<exists>row. row_of_patch p = Inr row \<and> parseRow row = p"
  proof (cases "ck_plan p")
    case None
    with assms(3) n show ?thesis
      by (auto simp: row_of_patch_def patch_ok_def stored_columns texts row_consistent_def parseRow_def plan_of_row_def Let_def
          intro!: checkpoint.equality)
  next
    case (Some pl)
    with assms(3) n show ?thesis
      by (auto simp: row_of_patch_def patch_ok_def stored_columns texts row_consistent_def parseRow_def plan_of_row_def Let_def
          intro!: checkpoint.equality)
  qed
  then show ?thesis using assms(1,2) by (auto simp: merge_checkpoint_eq load_checkpoint_def)
qed

section \<open>Two workers and one payment\<close>

definition demo_receipt_patch :: "string \<Rightarrow> checkpoint" where
  "demo_receipt_patch r = empty_checkpoint\<lparr>ck_purchaseReceipt := Some r, ck_paymentHeaderName := Some ''x-payment''\<rparr>"

definition demo_kept :: checkpoint_table where
  "demo_kept = snd (merge_checkpoint (\<lambda>_. True) ''run-1'' (demo_receipt_patch ''first'') Map.empty)"

lemma demo_first: "merge_checkpoint (\<lambda>_. True) ''run-1'' (demo_receipt_patch ''first'') Map.empty
    = (Inr (demo_receipt_patch ''first''), demo_kept)"
  unfolding demo_kept_def by (subst prod.collapse [symmetric]) (rule arg_cong2 [where f = Pair], code_simp, rule refl)

theorem checkpoint_written_once_witness:
  "\<exists>c t. merge_checkpoint (\<lambda>_. True) ''run-1'' (demo_receipt_patch ''second'') demo_kept = (Inr c, t)
    \<and> ck_purchaseReceipt c = Some ''first''"
proof -
  obtain c t where m: "merge_checkpoint (\<lambda>_. True) ''run-1'' (demo_receipt_patch ''second'') demo_kept = (Inr c, t)"
  proof -
    have "res_ok (fst (merge_checkpoint (\<lambda>_. True) ''run-1'' (demo_receipt_patch ''second'') demo_kept))"
      by code_simp
    then show thesis using that by (metis res_ok_iff prod.collapse)
  qed
  have idle: "apply_merges (\<lambda>_. True) [] demo_kept = demo_kept" by (simp add: apply_merges_def)
  have "extends (demo_receipt_patch ''first'') c"
    using conjunct2 [OF checkpoint_written_once [OF demo_first, where ops = "[]", unfolded idle]] m by blast
  then have "ck_purchaseReceipt c = Some ''first''" by (rule extendsD) (simp add: demo_receipt_patch_def)
  then show ?thesis using m by blast
qed

theorem checkpoint_roundtrip_witness:
  "\<exists>t. load_checkpoint ''run-1'' t = (Inr (demo_receipt_patch ''first''), t)"
proof -
  have "patch_ok (demo_receipt_patch ''first'')"
    by (simp add: patch_ok_def demo_receipt_patch_def empty_checkpoint_def stored_int_def stored_hash_def)
  then obtain t where "load_checkpoint ''run-1'' t = (Inr (demo_receipt_patch ''first''), t)"
    using checkpoint_roundtrip [of Map.empty "''run-1''" "\<lambda>_. True" "demo_receipt_patch ''first''"] by auto
  then show ?thesis by blast
qed

end
