(* ===== verification/Bnb_Payment.thy ===== *)
theory Bnb_Payment
  imports Reconciler
begin

text \<open>
  Purchases on BNB Chain (\<open>packages/bnb-x402-client/src\<close>): the policy that judges a target's challenge
  (\<open>requirement-policy.ts\<close>, \<open>constants.ts\<close>), the client that claims a key, quotes, grants an allowance and
  authorizes (\<open>payment-client.ts\<close>), and the two stores of its records: the map of \<open>ports.ts\<close> and the table of
  \<open>packages/persistence-postgres/src/cross-chain-stores.ts\<close>.  The x402 library that reads a challenge and
  signs a payload is a port.  The client is called without an abort signal.
\<close>

section \<open>Assets of the chain\<close>

record bnb_asset =
  ba_address :: string
  ba_symbol :: string
  ba_decimals :: int
  ba_supportsEip3009 :: bool

definition bnb_assets :: "bnb_asset list" where
  "bnb_assets =
    [\<lparr>ba_address = ''0x55d398326f99059fF775485246999027B3197955'', ba_symbol = ''USDT'', ba_decimals = 18,
       ba_supportsEip3009 = False\<rparr>,
     \<lparr>ba_address = ''0x8AC76a51cc950d9822D68b83fE1Ad97B32Cd580d'', ba_symbol = ''USDC'', ba_decimals = 18,
       ba_supportsEip3009 = False\<rparr>,
     \<lparr>ba_address = ''0x8d0D000Ee44948FC98c9B98A4FA4921476f08B0d'', ba_symbol = ''USD1'', ba_decimals = 18,
       ba_supportsEip3009 = True\<rparr>]"

definition bnbAssetInfo :: "string \<Rightarrow> bnb_asset option" where
  "bnbAssetInfo a = find (\<lambda>x. to_lower (ba_address x) = to_lower a) bnb_assets"

section \<open>The policy\<close>

text \<open>An entry of a challenge is an object; its members are read as the code reads them.\<close>

type_synonym requirement = "(string \<times> json) list"

datatype transfer_method = Eip3009 | Permit2

record payment_policy =
  pp_network :: string
  pp_allowedAssets :: "string list"
  pp_maximumAtomicAmount :: string
  pp_allowedTransferMethods :: "transfer_method list option"
  pp_payTo :: "string option"

record payable_requirement =
  pq_requirement :: requirement
  pq_amountAtomic :: string
  pq_asset :: string
  pq_payTo :: string
  pq_transferMethod :: transfer_method

record requirement_selection =
  rs_payable :: "payable_requirement option"
  rs_rejected :: "(nat \<times> string list) list"

definition normalizeAddress :: "platform \<Rightarrow> json option \<Rightarrow> string option res" where
  "normalizeAddress P v =
    (case json_string_of v of None \<Rightarrow> Inr None
     | Some s \<Rightarrow> if pf_is_address P s
         then (case pf_get_address P s of None \<Rightarrow> Inl (Js_error ''InvalidAddressError'') | Some a \<Rightarrow> Inr (Some a))
         else Inr None)"

definition get_address :: "platform \<Rightarrow> string \<Rightarrow> string res" where
  "get_address P s = (case pf_get_address P s of None \<Rightarrow> Inl (Js_error ''InvalidAddressError'') | Some a \<Rightarrow> Inr a)"

fun some_allowed :: "platform \<Rightarrow> string \<Rightarrow> string list \<Rightarrow> bool res" where
  "some_allowed P asset [] = Inr False"
| "some_allowed P asset (a # as) =
    res_bind (get_address P a) (\<lambda>x. if x = asset then Inr True else some_allowed P asset as)"

definition readAmount :: "requirement \<Rightarrow> string option" where
  "readAmount r =
    (case (case json_string_of (json_get (JObj r) ''amount'') of
         Some a \<Rightarrow> Some a
       | None \<Rightarrow> json_string_of (json_get (JObj r) ''maxAmountRequired'')) of
       None \<Rightarrow> None
     | Some raw \<Rightarrow> if is_atomic raw then Some raw else None)"

definition readTransferMethod :: "requirement \<Rightarrow> transfer_method option" where
  "readTransferMethod r =
    (case (case json_get (JObj r) ''extra'' of Some (JObj e) \<Rightarrow> json_get (JObj e) ''assetTransferMethod'' | _ \<Rightarrow> None) of
       None \<Rightarrow> Some Eip3009
     | Some JNull \<Rightarrow> Some Eip3009
     | Some (JStr m) \<Rightarrow> if m = ''eip3009'' then Some Eip3009 else if m = ''permit2'' then Some Permit2 else None
     | _ \<Rightarrow> None)"

definition asset_codes :: "platform \<Rightarrow> payment_policy \<Rightarrow> string option \<Rightarrow> string list res" where
  "asset_codes P policy asset =
    (case asset of None \<Rightarrow> Inr [''ASSET_MALFORMED'']
     | Some a \<Rightarrow> res_bind (some_allowed P a (pp_allowedAssets policy)) (\<lambda>held.
         Inr (if held then [] else [''ASSET_NOT_HELD''])))"

definition recipient_codes :: "platform \<Rightarrow> payment_policy \<Rightarrow> string option \<Rightarrow> string list res" where
  "recipient_codes P policy payTo =
    (case payTo of None \<Rightarrow> Inr [''RECIPIENT_MALFORMED'']
     | Some to \<Rightarrow>
        if \<not> truthy (pp_payTo policy) then Inr []
        else res_bind (get_address P (the (pp_payTo policy))) (\<lambda>pinned.
          Inr (if pinned \<noteq> to then [''RECIPIENT_NOT_PINNED''] else [])))"

definition amount_codes :: "payment_policy \<Rightarrow> string option \<Rightarrow> string list res" where
  "amount_codes policy amount =
    (case amount of None \<Rightarrow> Inr [''AMOUNT_MALFORMED'']
     | Some a \<Rightarrow> res_bind (js_bigint a) (\<lambda>asked. res_bind (js_bigint (pp_maximumAtomicAmount policy)) (\<lambda>ceiling.
         Inr (if ceiling < asked then [''AMOUNT_ABOVE_CEILING''] else []))))"

definition method_codes :: "payment_policy \<Rightarrow> string option \<Rightarrow> transfer_method option \<Rightarrow> string list" where
  "method_codes policy asset method =
    (case method of None \<Rightarrow> [''TRANSFER_METHOD_UNSUPPORTED'']
     | Some m \<Rightarrow>
        if m \<notin> set (case pp_allowedTransferMethods policy of None \<Rightarrow> [Eip3009, Permit2] | Some ms \<Rightarrow> ms)
        then [''TRANSFER_METHOD_NOT_ALLOWED'']
        else if m = Eip3009 \<and> asset \<noteq> None then
          (case bnbAssetInfo (the asset) of None \<Rightarrow> []
           | Some info \<Rightarrow> if ba_supportsEip3009 info then [] else [''ASSET_DOES_NOT_SUPPORT_EIP3009''])
        else [])"

text \<open>One entry: the codes that turn it down, and what it would pay.\<close>

definition judge_requirement ::
  "platform \<Rightarrow> payment_policy \<Rightarrow> requirement \<Rightarrow> (string list \<times> payable_requirement option) res" where
  "judge_requirement P policy r =
    res_bind (normalizeAddress P (json_get (JObj r) ''asset'')) (\<lambda>asset.
    res_bind (asset_codes P policy asset) (\<lambda>c1.
    res_bind (normalizeAddress P (json_get (JObj r) ''payTo'')) (\<lambda>payTo.
    res_bind (recipient_codes P policy payTo) (\<lambda>c2.
    res_bind (amount_codes policy (readAmount r)) (\<lambda>c3.
    Inr ((if json_get (JObj r) ''scheme'' \<noteq> Some (JStr ''exact'') then [''SCHEME_NOT_EXACT''] else [])
         @ (if json_get (JObj r) ''network'' \<noteq> Some (JStr (pp_network policy)) then [''NETWORK_NOT_ALLOWED''] else [])
         @ c1 @ c2 @ c3 @ method_codes policy asset (readTransferMethod r),
       (case (asset, payTo, readAmount r, readTransferMethod r) of
          (Some a, Some to, Some amount, Some m) \<Rightarrow>
            Some \<lparr>pq_requirement = r, pq_amountAtomic = amount, pq_asset = a, pq_payTo = to, pq_transferMethod = m\<rparr>
        | _ \<Rightarrow> None)))))))"

fun select_from ::
  "platform \<Rightarrow> payment_policy \<Rightarrow> nat \<Rightarrow> (nat \<times> string list) list \<Rightarrow> requirement list \<Rightarrow> requirement_selection res" where
  "select_from P policy index rejected [] = Inr \<lparr>rs_payable = None, rs_rejected = rejected\<rparr>"
| "select_from P policy index rejected (r # rs) =
    res_bind (judge_requirement P policy r) (\<lambda>(codes, payable).
    if codes \<noteq> [] then select_from P policy (Suc index) (rejected @ [(index, codes)]) rs
    else Inr \<lparr>rs_payable = payable, rs_rejected = rejected\<rparr>)"

definition selectPayableRequirement ::
  "platform \<Rightarrow> requirement list \<Rightarrow> payment_policy \<Rightarrow> requirement_selection res" where
  "selectPayableRequirement P requirements policy = select_from P policy 0 [] requirements"

text \<open>The error of an unpayable challenge carries the distinct codes.\<close>

definition not_payable :: "(nat \<times> string list) list \<Rightarrow> exn" where
  "not_payable rejected = Requirement_not_payable (js_unique (concat (map snd rejected)))"

definition quote_requirements ::
  "platform \<Rightarrow> payment_policy \<Rightarrow> requirement list \<Rightarrow> payable_requirement res" where
  "quote_requirements P policy accepts =
    res_bind (selectPayableRequirement P accepts policy) (\<lambda>selection.
    case rs_payable selection of None \<Rightarrow> Inl (not_payable (rs_rejected selection)) | Some p \<Rightarrow> Inr p)"

section \<open>What a selection guarantees\<close>

text \<open>The limits of a policy, stated of the offer itself.\<close>

definition within_policy :: "platform \<Rightarrow> payment_policy \<Rightarrow> payable_requirement \<Rightarrow> bool" where
  "within_policy P policy p \<longleftrightarrow>
    json_get (JObj (pq_requirement p)) ''scheme'' = Some (JStr ''exact'')
    \<and> json_get (JObj (pq_requirement p)) ''network'' = Some (JStr (pp_network policy))
    \<and> Some (pq_asset p) \<in> pf_get_address P ` set (pp_allowedAssets policy)
    \<and> (truthy (pp_payTo policy) \<longrightarrow> pf_get_address P (the (pp_payTo policy)) = Some (pq_payTo p))
    \<and> is_atomic (pq_amountAtomic p)
    \<and> (\<exists>ceiling. js_bigint (pp_maximumAtomicAmount policy) = Inr ceiling \<and> int (dec_value (pq_amountAtomic p)) \<le> ceiling)
    \<and> (case pp_allowedTransferMethods policy of None \<Rightarrow> True | Some ms \<Rightarrow> pq_transferMethod p \<in> set ms)
    \<and> (pq_transferMethod p = Eip3009 \<longrightarrow> pred_option ba_supportsEip3009 (bnbAssetInfo (pq_asset p)))"

lemma some_allowed_True: "some_allowed P a as = Inr True \<Longrightarrow> Some a \<in> pf_get_address P ` set as"
proof (induction as)
  case (Cons x xs)
  then show ?case by (cases "pf_get_address P x") (auto simp: get_address_def split: if_splits)
qed simp

lemma readAmount_atomic: "readAmount r = Some a \<Longrightarrow> is_atomic a"
  by (auto simp: readAmount_def split: option.splits if_splits)

lemma judge_accepts:
  assumes "judge_requirement P policy r = Inr ([], payable)"
  shows "\<exists>p. payable = Some p \<and> pq_requirement p = r \<and> within_policy P policy p"
proof -
  from assms obtain asset payTo where a: "asset_codes P policy asset = Inr []" and t: "recipient_codes P policy payTo = Inr []"
    and c: "amount_codes policy (readAmount r) = Inr []" and m: "method_codes policy asset (readTransferMethod r) = []"
    and s: "json_get (JObj r) ''scheme'' = Some (JStr ''exact'')"
    and n: "json_get (JObj r) ''network'' = Some (JStr (pp_network policy))"
    and p: "payable = (case (asset, payTo, readAmount r, readTransferMethod r) of
          (Some a, Some to, Some amount, Some m) \<Rightarrow>
            Some \<lparr>pq_requirement = r, pq_amountAtomic = amount, pq_asset = a, pq_payTo = to, pq_transferMethod = m\<rparr>
        | _ \<Rightarrow> None)"
    by (auto simp: judge_requirement_def res_bind_Inr_iff split: if_splits)
  obtain x where x: "asset = Some x" "some_allowed P x (pp_allowedAssets policy) = Inr True"
    using a by (auto simp: asset_codes_def res_bind_Inr_iff split: option.splits if_splits)
  obtain to where to: "payTo = Some to" "truthy (pp_payTo policy) \<longrightarrow> pf_get_address P (the (pp_payTo policy)) = Some to"
    using t by (auto simp: recipient_codes_def res_bind_Inr_iff get_address_def split: option.splits if_splits)
  obtain v ceiling where v: "readAmount r = Some v" "js_bigint (pp_maximumAtomicAmount policy) = Inr ceiling"
    "int (dec_value v) \<le> ceiling"
    using c by (auto simp: amount_codes_def res_bind_Inr_iff js_bigint_atomic readAmount_atomic split: option.splits if_splits)
  obtain k where k: "readTransferMethod r = Some k"
    "case pp_allowedTransferMethods policy of None \<Rightarrow> True | Some ms \<Rightarrow> k \<in> set ms"
    "k = Eip3009 \<longrightarrow> pred_option ba_supportsEip3009 (bnbAssetInfo x)"
    using m x(1) by (cases "readTransferMethod r") (auto simp: method_codes_def split: option.splits if_splits)
  show ?thesis using p x to v k s n some_allowed_True [OF x(2)] readAmount_atomic [OF v(1)]
    by (simp add: within_policy_def split: option.splits)
qed

lemma select_from_sound:
  assumes "select_from P policy i rejected rs = Inr sel" and "rs_payable sel = Some p"
  shows "pq_requirement p \<in> set rs \<and> within_policy P policy p"
  using assms
proof (induction rs arbitrary: i rejected)
  case Nil
  then show ?case by auto
next
  case (Cons r rs)
  then obtain codes payable where j: "judge_requirement P policy r = Inr (codes, payable)"
    by (auto simp: res_bind_Inr_iff)
  show ?case
  proof (cases "codes = []")
    case True
    then show ?thesis using Cons.prems j judge_accepts [of P policy r payable] by auto
  next
    case False
    then show ?thesis using Cons j by auto
  qed
qed

lemma select_from_refuses:
  assumes "select_from P policy i rejected rs = Inr sel" and "rs_payable sel = None"
  shows "\<exists>judged. length judged = length rs \<and> rs_rejected sel = rejected @ zip [i..<i + length rs] judged
    \<and> (\<forall>(r, codes) \<in> set (zip rs judged). codes \<noteq> [] \<and> (\<exists>p. judge_requirement P policy r = Inr (codes, p)))"
  using assms
proof (induction rs arbitrary: i rejected)
  case Nil
  then show ?case by auto
next
  case (Cons r rs)
  then obtain codes payable where j: "judge_requirement P policy r = Inr (codes, payable)"
    by (auto simp: res_bind_Inr_iff)
  have ne: "codes \<noteq> []" using Cons.prems j judge_accepts [of P policy r payable] by auto
  then have "select_from P policy (Suc i) (rejected @ [(i, codes)]) rs = Inr sel" using Cons.prems(1) j by simp
  from Cons.IH [OF this Cons.prems(2)] obtain judged where
    judged: "length judged = length rs" "rs_rejected sel = (rejected @ [(i, codes)]) @ zip [Suc i..<Suc i + length rs] judged"
    "\<forall>(r, codes) \<in> set (zip rs judged). codes \<noteq> [] \<and> (\<exists>p. judge_requirement P policy r = Inr (codes, p))" by blast
  then show ?case using ne j by (intro exI [of _ "codes # judged"]) (auto simp: upt_rec [of i] simp del: upt_Suc)
qed

definition library_error :: "exn \<Rightarrow> bool" where
  "library_error e \<longleftrightarrow> (case e of Js_error _ \<Rightarrow> True | Syntax_error _ \<Rightarrow> True | _ \<Rightarrow> False)"

lemma res_bind_Inl_iff: "res_bind m f = Inl e \<longleftrightarrow> m = Inl e \<or> (\<exists>a. m = Inr a \<and> f a = Inl e)"
  by (cases m) auto

lemma policy_errors:
  "js_bigint s = Inl e \<Longrightarrow> library_error e"
  "get_address P s = Inl e \<Longrightarrow> library_error e"
  "normalizeAddress P v = Inl e \<Longrightarrow> library_error e"
  "some_allowed P a as = Inl e \<Longrightarrow> library_error e"
  subgoal by (auto simp: js_bigint_def library_error_def Let_def split: option.splits if_splits)
  subgoal by (auto simp: get_address_def library_error_def split: option.splits)
  subgoal by (auto simp: normalizeAddress_def library_error_def split: option.splits if_splits)
  subgoal by (induction as) (auto simp: get_address_def library_error_def res_bind_Inl_iff split: option.splits if_splits)
  done

lemma judge_error: "judge_requirement P policy r = Inl e \<Longrightarrow> library_error e"
  by (auto simp: judge_requirement_def res_bind_Inl_iff asset_codes_def recipient_codes_def amount_codes_def
      split: option.splits if_splits dest: policy_errors)

lemma select_from_error: "select_from P policy i rejected rs = Inl e \<Longrightarrow> \<nexists>codes. e = Requirement_not_payable codes"
proof (induction rs arbitrary: i rejected)
  case Nil
  then show ?case by simp
next
  case (Cons r rs)
  then show ?case
    by (auto simp: res_bind_Inl_iff library_error_def split: if_splits dest!: judge_error)
qed

text \<open>
  A challenge is answered with an offer of it that is within the policy: exact scheme, the payer's
  network, an asset it holds, the pinned recipient if there is one, a well-formed price within the ceiling and
  a transfer method it can sign.  Otherwise the error carries exactly the codes of the entries, each of which
  was turned down for at least one.
\<close>

theorem quoted_requirement_within_policy:
  "case quote_requirements P policy accepts of
     Inr p \<Rightarrow> pq_requirement p \<in> set accepts \<and> within_policy P policy p
   | Inl (Requirement_not_payable codes) \<Rightarrow> (\<exists>judged. length judged = length accepts \<and> [] \<notin> set judged
       \<and> codes = js_unique (concat judged) \<and> map (\<lambda>r. res_bind (judge_requirement P policy r) (\<lambda>v. Inr (fst v))) accepts = map Inr judged)
   | Inl _ \<Rightarrow> True"
proof (cases "selectPayableRequirement P accepts policy")
  case (Inl e)
  then show ?thesis using select_from_error [of P policy 0 "[]" accepts e]
    by (auto simp: quote_requirements_def selectPayableRequirement_def split: exn.splits)
next
  case (Inr sel)
  show ?thesis
  proof (cases "rs_payable sel")
    case None
    from select_from_refuses [OF Inr [unfolded selectPayableRequirement_def] None] obtain judged where
      j: "length judged = length accepts" "rs_rejected sel = zip [0..<length accepts] judged"
      "\<forall>(r, codes) \<in> set (zip accepts judged). codes \<noteq> [] \<and> (\<exists>p. judge_requirement P policy r = Inr (codes, p))" by auto
    have "map (\<lambda>r. res_bind (judge_requirement P policy r) (\<lambda>v. Inr (fst v))) accepts = map Inr judged" "[] \<notin> set judged"
      using j(1,3) by (induction judged accepts rule: list_induct2) auto
    then show ?thesis using j(1,2) None Inr
      by (auto simp: quote_requirements_def not_payable_def map_snd_zip intro!: exI [of _ judged])
  next
    case (Some p)
    then show ?thesis using select_from_sound [OF Inr [unfolded selectPayableRequirement_def] Some] Inr
      by (simp add: quote_requirements_def)
  qed
qed

section \<open>The payment client\<close>

record bnb_quote = payable_requirement +
  pq_paymentRequired :: json

record bnb_payment =
  bp_paymentReceipt :: string
  bp_paymentProofHash :: string
  bp_amountAtomic :: string

datatype purchase_status = CLAIMED | AUTHORIZED

record purchase_record =
  pu_status :: purchase_status
  pu_idempotencyKey :: string
  pu_amountAtomic :: string
  pu_paymentReceipt :: "string option"
  pu_paymentProofHash :: "string option"

record 'w purchase_ops =
  po_claim :: "purchase_record \<Rightarrow> ('w, bool \<times> purchase_record) io"
  po_markAuthorized :: "string \<Rightarrow> bnb_payment \<Rightarrow> ('w, purchase_record) io"
  po_abandonClaim :: "string \<Rightarrow> ('w, unit) io"

record 'w bnb_ports =
  bx_ensureExactAllowance :: "string \<Rightarrow> string \<Rightarrow> ('w, unit) io"
  bx_quote :: "('w, bnb_quote) io"
  bx_authorize :: "bnb_quote \<Rightarrow> ('w, bnb_payment) io"

definition positive_atomic :: "string \<Rightarrow> bool" where
  "positive_atomic v \<longleftrightarrow> is_atomic v \<and> v \<noteq> ''0''"

text \<open>The constructor refuses a maximum that is not a positive amount.\<close>

definition new_payment_client :: "string \<Rightarrow> unit res" where
  "new_payment_client maximum = ensure (positive_atomic maximum)
    (Js_error ''maximumAtomicAmount must be a positive atomic amount'')"

definition authorize_claimed :: "'w purchase_ops \<Rightarrow> 'w bnb_ports \<Rightarrow> string \<Rightarrow> string \<Rightarrow> ('w, bnb_payment) io" where
  "authorize_claimed S X maximum key =
    io_bind (bx_quote X) (\<lambda>quote.
    io_bind (io_lift (js_bigint (pq_amountAtomic quote))) (\<lambda>asked.
    io_bind (io_lift (js_bigint maximum)) (\<lambda>ceiling.
    io_then (io_lift (ensure (asked \<le> ceiling)
      (Js_error ''BNB x402 target price exceeds the configured maximum for this purchase'')))
    (io_then (io_when (pq_transferMethod quote = Permit2)
      (bx_ensureExactAllowance X (pq_amountAtomic quote) (pq_asset quote)))
    (io_bind (bx_authorize X quote) (\<lambda>payment.
    io_then (io_lift (ensure (bp_amountAtomic payment = pq_amountAtomic quote)
      (Js_error ''BNB x402 authorization amount differs from the quoted amount'')))
    (io_then (io_lift (ensure (bp_paymentReceipt payment \<noteq> []) (Js_error ''BNB x402 authorization receipt is empty'')))
    (io_then (io_lift (ensure (is_bytes32 (bp_paymentProofHash payment))
      (Js_error ''payment.paymentProofHash must be a transaction hash'')))
    (io_then (po_markAuthorized S key payment) (io_ret payment))))))))))"

definition replayed_payment :: "purchase_record \<Rightarrow> bnb_payment res" where
  "replayed_payment r =
    (if pu_status r = AUTHORIZED \<and> truthy (pu_paymentReceipt r) \<and> truthy (pu_paymentProofHash r)
     then Inr \<lparr>bp_paymentReceipt = the (pu_paymentReceipt r), bp_paymentProofHash = the (pu_paymentProofHash r),
       bp_amountAtomic = pu_amountAtomic r\<rparr>
     else Inl (Js_error ''BNB x402 payment with this idempotency key requires reconciliation''))"

definition claim_record :: "string \<Rightarrow> string \<Rightarrow> purchase_record" where
  "claim_record key maximum = \<lparr>pu_status = CLAIMED, pu_idempotencyKey = key, pu_amountAtomic = maximum,
     pu_paymentReceipt = None, pu_paymentProofHash = None\<rparr>"

definition acquire_purchase :: "'w purchase_ops \<Rightarrow> 'w bnb_ports \<Rightarrow> string \<Rightarrow> string \<Rightarrow> ('w, bnb_payment) io" where
  "acquire_purchase S X maximum key =
    io_then (io_lift (ensure (js_trim key \<noteq> []) (Js_error ''idempotencyKey cannot be empty'')))
    (io_bind (po_claim S (claim_record key maximum)) (\<lambda>(acquired, record).
     if \<not> acquired then io_lift (replayed_payment record)
     else io_catch (authorize_claimed S X maximum key)
       (\<lambda>e. io_then (po_abandonClaim S key) (io_throw e))))"

section \<open>The stores\<close>

type_synonym purchase_map = "string \<rightharpoonup> purchase_record"

definition authorized_record :: "bnb_payment \<Rightarrow> purchase_record \<Rightarrow> purchase_record" where
  "authorized_record p r = r\<lparr>pu_status := AUTHORIZED, pu_amountAtomic := bp_amountAtomic p,
     pu_paymentReceipt := Some (bp_paymentReceipt p), pu_paymentProofHash := Some (bp_paymentProofHash p)\<rparr>"

definition memory_claim :: "purchase_record \<Rightarrow> (purchase_map, bool \<times> purchase_record) io" where
  "memory_claim r = (\<lambda>m. case m (pu_idempotencyKey r) of
      Some existing \<Rightarrow> (Inr (False, existing), m)
    | None \<Rightarrow> (Inr (True, r), m(pu_idempotencyKey r \<mapsto> r)))"

definition memory_markAuthorized :: "string \<Rightarrow> bnb_payment \<Rightarrow> (purchase_map, purchase_record) io" where
  "memory_markAuthorized key p = (\<lambda>m. case m key of
      None \<Rightarrow> (Inl (Js_error ''BNB x402 purchase claim does not exist''), m)
    | Some existing \<Rightarrow> (Inr (authorized_record p existing), m(key \<mapsto> authorized_record p existing)))"

definition drop_claim :: "(string \<rightharpoonup> 'r) \<Rightarrow> ('r \<Rightarrow> purchase_status) \<Rightarrow> string \<Rightarrow> (string \<rightharpoonup> 'r)" where
  "drop_claim m status key = (case m key of None \<Rightarrow> m
     | Some r \<Rightarrow> if status r = CLAIMED then m(key := None) else m)"

definition memory_store :: "(purchase_map \<times> 'e) purchase_ops" where
  "memory_store = \<lparr>po_claim = (\<lambda>r. on_store (memory_claim r)),
     po_markAuthorized = (\<lambda>key p. on_store (memory_markAuthorized key p)),
     po_abandonClaim = (\<lambda>key. on_store (io_modify (\<lambda>m. drop_claim m pu_status key)))\<rparr>"

record authorization_row =
  ar_amountAtomic :: nat
  ar_status :: purchase_status
  ar_paymentReceipt :: "string option"
  ar_paymentProofHash :: "string option"

type_synonym authorization_table = "string \<rightharpoonup> authorization_row"

definition parseAuthorizationRow :: "string \<Rightarrow> authorization_row \<Rightarrow> purchase_record" where
  "parseAuthorizationRow key row = \<lparr>pu_status = ar_status row, pu_idempotencyKey = key,
     pu_amountAtomic = nat_to_string (ar_amountAtomic row), pu_paymentReceipt = unless_empty (ar_paymentReceipt row),
     pu_paymentProofHash = ar_paymentProofHash row\<rparr>"

definition postgres_claim :: "purchase_record \<Rightarrow> (authorization_table, bool \<times> purchase_record) io" where
  "postgres_claim r = (\<lambda>t. case pg_positive_numeric (pu_amountAtomic r) of Inl e \<Rightarrow> (Inl e, t)
    | Inr amount \<Rightarrow>
       (let key = pu_idempotencyKey r;
            fresh = \<lparr>ar_amountAtomic = amount, ar_status = CLAIMED, ar_paymentReceipt = None, ar_paymentProofHash = None\<rparr>;
            row = (case t key of None \<Rightarrow> fresh | Some old \<Rightarrow> old);
            persisted = parseAuthorizationRow key row
        in (if pu_amountAtomic persisted \<noteq> pu_amountAtomic r then Inl (Js_error ''BNB x402 idempotency amount conflict'')
            else Inr (t key = None, persisted), t(key \<mapsto> row))))"

definition postgres_markAuthorized :: "string \<Rightarrow> bnb_payment \<Rightarrow> (authorization_table, purchase_record) io" where
  "postgres_markAuthorized key p = (\<lambda>t.
     case res_bind (ensure (is_bytes32 (bp_paymentProofHash p)) (Js_error ''Invalid transaction hash'')) (\<lambda>_.
       pg_positive_numeric (bp_amountAtomic p)) of Inl e \<Rightarrow> (Inl e, t)
     | Inr amount \<Rightarrow>
        (let proof = to_lower (bp_paymentProofHash p) in
         case t key of
           Some row \<Rightarrow>
             if ar_status row = CLAIMED
               \<or> ar_paymentReceipt row = Some (bp_paymentReceipt p) \<and> ar_paymentProofHash row = Some proof
             then let new = row\<lparr>ar_status := AUTHORIZED, ar_amountAtomic := amount,
                    ar_paymentReceipt := Some (bp_paymentReceipt p), ar_paymentProofHash := Some proof\<rparr>
                  in (Inr (parseAuthorizationRow key new), t(key \<mapsto> new))
             else (Inl (Js_error ''BNB x402 authorization idempotency conflict''), t)
         | None \<Rightarrow> (Inl (Js_error ''BNB x402 authorization idempotency conflict''), t)))"

definition postgres_store :: "(authorization_table \<times> 'e) purchase_ops" where
  "postgres_store = \<lparr>po_claim = (\<lambda>r. on_store (postgres_claim r)),
     po_markAuthorized = (\<lambda>key p. on_store (postgres_markAuthorized key p)),
     po_abandonClaim = (\<lambda>key. on_store (io_modify (\<lambda>t. drop_claim t ar_status key)))\<rparr>"

section \<open>What the client relies on\<close>

text \<open>Two payments are the same up to the case of the proof hash and the spelling of the amount.\<close>

definition same_payment :: "bnb_payment \<Rightarrow> bnb_payment \<Rightarrow> bool" where
  "same_payment p q \<longleftrightarrow> bp_paymentReceipt p = bp_paymentReceipt q
    \<and> to_lower (bp_paymentProofHash p) = to_lower (bp_paymentProofHash q)
    \<and> dec_value (bp_amountAtomic p) = dec_value (bp_amountAtomic q)"

definition records_payment :: "purchase_record \<Rightarrow> bnb_payment \<Rightarrow> bool" where
  "records_payment r p \<longleftrightarrow> (\<exists>q. replayed_payment r = Inr q \<and> same_payment p q)"

locale purchase_store =
  fixes S :: "'w purchase_ops"
    and lookup :: "'w \<Rightarrow> string \<Rightarrow> purchase_record option"
  assumes claim_acquires: "po_claim S r w = (Inr (True, r'), w1) \<Longrightarrow> pu_status r = CLAIMED \<Longrightarrow>
      lookup w (pu_idempotencyKey r) = None \<and> (\<exists>c. lookup w1 (pu_idempotencyKey r) = Some c \<and> pu_status c = CLAIMED)"
    and claim_replays: "po_claim S r w = (Inr (False, r'), w1) \<Longrightarrow> w1 = w \<and> lookup w (pu_idempotencyKey r) = Some r'"
    and claim_present: "lookup w (pu_idempotencyKey r) \<noteq> None \<Longrightarrow> snd (po_claim S r w) = w"
    and claim_refused: "po_claim S r w = (Inl e, w1) \<Longrightarrow> positive_atomic (pu_amountAtomic r) \<Longrightarrow> w1 = w"
    and mark_records: "po_markAuthorized S key p w = (Inr r, w1) \<Longrightarrow> bp_paymentReceipt p \<noteq> [] \<Longrightarrow>
      is_bytes32 (bp_paymentProofHash p) \<Longrightarrow> \<exists>c. lookup w1 key = Some c \<and> pu_status c = AUTHORIZED \<and> records_payment c p"
    and mark_refused: "po_markAuthorized S key p w = (Inl e, w1) \<Longrightarrow> w1 = w"
    and abandon_releases: "fst (po_abandonClaim S key w) = Inr () \<and> lookup (snd (po_abandonClaim S key w)) key =
      (case lookup w key of None \<Rightarrow> None | Some c \<Rightarrow> if pu_status c = CLAIMED then None else Some c)"

definition ports_leave :: "('w \<Rightarrow> purchase_record option) \<Rightarrow> 'w bnb_ports \<Rightarrow> bool" where
  "ports_leave view X \<longleftrightarrow> (\<forall>a b w. view (snd (bx_ensureExactAllowance X a b w)) = view w)
    \<and> (\<forall>w. view (snd (bx_quote X w)) = view w) \<and> (\<forall>q w. view (snd (bx_authorize X q w)) = view w)"

lemma claim_record_simps [simp]:
  "pu_idempotencyKey (claim_record key maximum) = key" "pu_amountAtomic (claim_record key maximum) = maximum"
  "pu_status (claim_record key maximum) = CLAIMED"
  by (simp_all add: claim_record_def)

lemma rethrow_ok: "io_catch m (\<lambda>e. io_then n (io_throw e)) w = (Inr a, w1) \<longleftrightarrow> m w = (Inr a, w1)"
  by (cases "m w"; cases "fst (m w)"; cases "n (snd (m w))"; cases "fst (n (snd (m w)))")
    (simp_all add: io_catch_apply io_then_apply)

lemma acquire_ok:
  "acquire_purchase S X maximum key w = (Inr p, w1) \<longleftrightarrow> js_trim key \<noteq> [] \<and>
    (\<exists>acquired found w0. po_claim S (claim_record key maximum) w = (Inr (acquired, found), w0)
      \<and> (if acquired then authorize_claimed S X maximum key w0 = (Inr p, w1)
         else replayed_payment found = Inr p \<and> w1 = w0))"
proof -
  have body: "(case a of (acquired, found) \<Rightarrow> if \<not> acquired then io_lift (replayed_payment found)
      else io_catch (authorize_claimed S X maximum key) (\<lambda>e. io_then (po_abandonClaim S key) (io_throw e))) w0 = (Inr p, w1)
    \<longleftrightarrow> (if fst a then authorize_claimed S X maximum key w0 = (Inr p, w1)
        else replayed_payment (snd a) = Inr p \<and> w1 = w0)" for a w0
    by (cases a) (auto simp: rethrow_ok)
  show ?thesis unfolding acquire_purchase_def io_ok body by (simp add: split_paired_Ex)
qed

context purchase_store begin

lemma authorize_claimed_ok:
  assumes "authorize_claimed S X maximum key w = (Inr p, w1)"
  shows "(\<exists>c. lookup w1 key = Some c \<and> pu_status c = AUTHORIZED \<and> records_payment c p)
    \<and> bp_paymentReceipt p \<noteq> [] \<and> is_bytes32 (bp_paymentProofHash p)
    \<and> (\<exists>asked ceiling. js_bigint (bp_amountAtomic p) = Inr asked \<and> js_bigint maximum = Inr ceiling \<and> asked \<le> ceiling)"
  using assms unfolding authorize_claimed_def io_ok by (auto dest!: mark_records)

lemma acquired_once:
  assumes "acquire_purchase S X maximum key w = (Inr p, w1)"
  shows "\<exists>c. lookup w1 key = Some c \<and> records_payment c p"
proof -
  from assms obtain acquired found w0 where claim: "po_claim S (claim_record key maximum) w = (Inr (acquired, found), w0)"
    and rest: "if acquired then authorize_claimed S X maximum key w0 = (Inr p, w1) else replayed_payment found = Inr p \<and> w1 = w0"
    by (auto simp: acquire_ok)
  show ?thesis
  proof (cases acquired)
    case False
    then show ?thesis using claim_replays [of "claim_record key maximum" w found w0] claim rest
      by (auto simp: records_payment_def same_payment_def)
  next
    case True
    then show ?thesis using authorize_claimed_ok [of X maximum key w0 p w1] rest by auto
  qed
qed

lemma replay_recorded:
  assumes "lookup w key = Some c" and "records_payment c p"
    and run: "acquire_purchase S X maximum key w = (res, w1)"
  shows "w1 = w \<and> (case res of Inr q \<Rightarrow> same_payment p q | Inl _ \<Rightarrow> True)"
proof (cases "js_trim key = []")
  case True
  then show ?thesis using run by (auto simp: acquire_purchase_def io_then_apply)
next
  case False
  obtain r w0 where claim: "po_claim S (claim_record key maximum) w = (r, w0)" by (cases "po_claim S (claim_record key maximum) w")
  then have w0: "w0 = w" using claim_present [of w "claim_record key maximum"] assms(1) by simp
  show ?thesis
  proof (cases r)
    case (Inl x)
    then show ?thesis using run claim w0 False by (auto simp: acquire_purchase_def io_then_apply io_bind_apply)
  next
    case (Inr pair)
    then obtain acquired found where r: "r = Inr (acquired, found)" by (cases pair) simp
    then have "\<not> acquired" using claim_acquires [of "claim_record key maximum" w found w0] claim assms(1) by (cases acquired) auto
    moreover from this have "found = c" using claim_replays [of "claim_record key maximum" w found w0] claim r assms(1) by auto
    ultimately show ?thesis using run claim w0 False r assms(2)
      by (auto simp: acquire_purchase_def io_then_apply io_bind_apply records_payment_def)
  qed
qed

lemma acquire_bounded:
  assumes "acquire_purchase S X maximum key w = (Inr p, w1)" and "lookup w key = None"
  shows "\<exists>asked ceiling. js_bigint (bp_amountAtomic p) = Inr asked \<and> js_bigint maximum = Inr ceiling \<and> asked \<le> ceiling"
proof -
  from assms(1) obtain acquired found w0 where claim: "po_claim S (claim_record key maximum) w = (Inr (acquired, found), w0)"
    and rest: "if acquired then authorize_claimed S X maximum key w0 = (Inr p, w1) else replayed_payment found = Inr p \<and> w1 = w0"
    by (auto simp: acquire_ok)
  have "acquired" using claim_replays [of "claim_record key maximum" w found w0] claim assms(2) by (cases acquired) auto
  then show ?thesis using authorize_claimed_ok rest by auto
qed

lemma authorize_claimed_fails:
  assumes "ports_leave (\<lambda>w. lookup w key) X" and "authorize_claimed S X maximum key w = (Inl e, w1)"
  shows "lookup w1 key = lookup w key"
proof -
  let ?I = "\<lambda>w1. lookup w1 key = lookup w key"
  have ports: "io_triple ?I (bx_quote X) (\<lambda>_. ?I) (\<lambda>_. ?I)" "io_triple ?I (bx_authorize X q) (\<lambda>_. ?I) (\<lambda>_. ?I)"
    "io_triple ?I (bx_ensureExactAllowance X a b) (\<lambda>_. ?I) (\<lambda>_. ?I)" for q a b
    using assms(1) unfolding ports_leave_def by (auto intro!: tripleI) (metis snd_conv)+
  have mark: "io_triple ?I (po_markAuthorized S key p) (\<lambda>_ _. True) (\<lambda>_. ?I)" for p
    by (auto intro!: tripleI dest: mark_refused)
  have lift: "io_triple ?I (io_lift r) (\<lambda>_. ?I) (\<lambda>_. ?I)" for r :: "'c res"
    by (auto intro!: tripleI)
  have allow: "io_triple ?I (io_when b (bx_ensureExactAllowance X x y)) (\<lambda>_. ?I) (\<lambda>_. ?I)" for b x y
    using ports(3) by (cases b) (auto intro: triple_ret)
  have "io_triple ?I (authorize_claimed S X maximum key) (\<lambda>_ _. True) (\<lambda>_. ?I)"
    unfolding authorize_claimed_def
    by (rule triple_bind [OF ports(1)], rule triple_bind [OF lift], rule triple_bind [OF lift], rule triple_then [OF lift],
        rule triple_then [OF allow], rule triple_bind [OF ports(2)], rule triple_then [OF lift], rule triple_then [OF lift],
        rule triple_then [OF lift], rule triple_then [OF mark]) (simp add: triple_ret)
  then have "case authorize_claimed S X maximum key w of (Inr a, w') \<Rightarrow> True | (Inl x, w') \<Rightarrow> ?I w'"
    by (simp add: io_triple_def)
  then show ?thesis by (simp add: assms(2))
qed

lemma failure_frees:
  assumes "acquire_purchase S X maximum key w = (Inl e, w1)" and "lookup w key = None"
    and "positive_atomic maximum" and "ports_leave (\<lambda>w. lookup w key) X"
  shows "lookup w1 key = None"
proof (cases "js_trim key = []")
  case True
  then show ?thesis using assms(1,2) by (simp add: acquire_purchase_def io_then_apply)
next
  case False
  obtain r w0 where claim: "po_claim S (claim_record key maximum) w = (r, w0)" by (cases "po_claim S (claim_record key maximum) w")
  show ?thesis
  proof (cases r)
    case (Inl x)
    then show ?thesis using claim_refused [of "claim_record key maximum" w x w0] claim assms(1-3) False
      by (simp add: acquire_purchase_def io_then_apply io_bind_apply)
  next
    case (Inr pair)
    then obtain acquired found where r: "r = Inr (acquired, found)" by (cases pair) simp
    show ?thesis
    proof (cases acquired)
      case False
      then show ?thesis using claim_replays [of "claim_record key maximum" w found w0] claim r assms(2) by simp
    next
      case True
      then obtain c where c: "lookup w0 key = Some c" "pu_status c = CLAIMED"
        using claim_acquires [of "claim_record key maximum" w found w0] claim r by auto
      from assms(1) True claim r False obtain x w2 where x: "authorize_claimed S X maximum key w0 = (Inl x, w2)"
        and freed: "w1 = snd (po_abandonClaim S key w2)"
        by (auto simp: acquire_purchase_def io_then_apply io_bind_apply io_catch_apply split: prod.splits sum.splits)
      have "lookup w2 key = Some c" using authorize_claimed_fails [OF assms(4) x] c(1) by simp
      then show ?thesis using abandon_releases [of key w2] c(2) freed by simp
    qed
  qed
qed

end

section \<open>Both stores keep the contract\<close>

definition memory_lookup :: "purchase_map \<times> 'e \<Rightarrow> string \<Rightarrow> purchase_record option" where
  "memory_lookup w key = fst w key"

definition postgres_lookup :: "authorization_table \<times> 'e \<Rightarrow> string \<Rightarrow> purchase_record option" where
  "postgres_lookup w key = map_option (parseAuthorizationRow key) (fst w key)"

lemma memory_store_ops [simp]:
  "po_claim memory_store = (\<lambda>r. on_store (memory_claim r))"
  "po_markAuthorized memory_store = (\<lambda>key p. on_store (memory_markAuthorized key p))"
  "po_abandonClaim memory_store = (\<lambda>key. on_store (io_modify (\<lambda>m. drop_claim m pu_status key)))"
  by (simp_all add: memory_store_def)

lemma postgres_store_ops [simp]:
  "po_claim postgres_store = (\<lambda>r. on_store (postgres_claim r))"
  "po_markAuthorized postgres_store = (\<lambda>key p. on_store (postgres_markAuthorized key p))"
  "po_abandonClaim postgres_store = (\<lambda>key. on_store (io_modify (\<lambda>t. drop_claim t ar_status key)))"
  by (simp_all add: postgres_store_def)

lemma authorized_record_records:
  assumes "bp_paymentReceipt p \<noteq> []" and "is_bytes32 (bp_paymentProofHash p)"
  shows "pu_status (authorized_record p r) = AUTHORIZED \<and> records_payment (authorized_record p r) p"
proof -
  have "bp_paymentProofHash p \<noteq> []" using assms(2) by (auto simp: is_bytes32_def is_hex_bytes_def)
  then show ?thesis using assms(1)
    by (simp add: authorized_record_def records_payment_def replayed_payment_def same_payment_def truthy_def)
qed

interpretation memory: purchase_store memory_store memory_lookup
proof
  fix r r' key p e and w w1 :: "purchase_map \<times> 'e"
  obtain m e0 where w: "w = (m, e0)" by (cases w)
  note defs = w on_store_ok memory_lookup_def memory_claim_def memory_markAuthorized_def
  show "po_claim memory_store r w = (Inr (True, r'), w1) \<Longrightarrow> pu_status r = CLAIMED \<Longrightarrow> memory_lookup w (pu_idempotencyKey r) = None
      \<and> (\<exists>c. memory_lookup w1 (pu_idempotencyKey r) = Some c \<and> pu_status c = CLAIMED)"
    by (auto simp: defs split: option.splits)
  show "po_claim memory_store r w = (Inr (False, r'), w1) \<Longrightarrow> w1 = w \<and> memory_lookup w (pu_idempotencyKey r) = Some r'"
    by (auto simp: defs split: option.splits)
  show "memory_lookup w (pu_idempotencyKey r) \<noteq> None \<Longrightarrow> snd (po_claim memory_store r w) = w"
    by (auto simp: defs on_store_def split: option.splits)
  show "po_claim memory_store r w = (Inl e, w1) \<Longrightarrow> w1 = w"
    by (auto simp: defs split: option.splits)
  show "po_markAuthorized memory_store key p w = (Inr r, w1) \<Longrightarrow> bp_paymentReceipt p \<noteq> [] \<Longrightarrow>
      is_bytes32 (bp_paymentProofHash p) \<Longrightarrow> \<exists>c. memory_lookup w1 key = Some c \<and> pu_status c = AUTHORIZED \<and> records_payment c p"
    using authorized_record_records [of p] by (auto simp: defs split: option.splits)
  show "po_markAuthorized memory_store key p w = (Inl e, w1) \<Longrightarrow> w1 = w"
    by (auto simp: defs split: option.splits)
  show "fst (po_abandonClaim memory_store key w) = Inr () \<and> memory_lookup (snd (po_abandonClaim memory_store key w)) key =
      (case memory_lookup w key of None \<Rightarrow> None | Some c \<Rightarrow> if pu_status c = CLAIMED then None else Some c)"
    by (simp add: defs on_store_def drop_claim_def split: option.splits)
qed

lemma pg_positive_numeric_ok: "pg_positive_numeric s = Inr n \<Longrightarrow> n = dec_value s \<and> 0 < n"
  by (auto simp: pg_positive_numeric_def split: if_splits)

lemma pg_positive_atomic:
  assumes "positive_atomic v"
  shows "pg_positive_numeric v = Inr (dec_value v)"
proof -
  have v: "is_atomic v" "v \<noteq> ''0''" using assms by (simp_all add: positive_atomic_def)
  have "dec_value v \<noteq> 0"
  proof
    assume "dec_value v = 0"
    then have "nat_to_string 0 = v" using nat_to_string_dec_value [OF v(1)] by simp
    moreover have "nat_to_string 0 = ''0''" by code_simp
    ultimately show False using v(2) by simp
  qed
  then show ?thesis using is_atomic_digits [OF v(1)] by (simp add: pg_positive_numeric_def)
qed

lemma postgres_mark_ok:
  assumes "postgres_markAuthorized key p t = (Inr r, t1)" and "bp_paymentReceipt p \<noteq> []" and "is_bytes32 (bp_paymentProofHash p)"
  shows "\<exists>row. t1 key = Some row \<and> pu_status (parseAuthorizationRow key row) = AUTHORIZED
    \<and> records_payment (parseAuthorizationRow key row) p"
proof -
  from assms(1) obtain old where new: "t1 key = Some (old\<lparr>ar_status := AUTHORIZED,
      ar_amountAtomic := dec_value (bp_amountAtomic p), ar_paymentReceipt := Some (bp_paymentReceipt p),
      ar_paymentProofHash := Some (to_lower (bp_paymentProofHash p))\<rparr>)"
    by (auto simp: postgres_markAuthorized_def Let_def res_bind_Inr_iff dest!: pg_positive_numeric_ok split: sum.splits option.splits if_splits)
  moreover have "bp_paymentProofHash p \<noteq> []" using assms(3) by (auto simp: is_bytes32_def is_hex_bytes_def)
  moreover have "unless_empty (Some (bp_paymentReceipt p)) = Some (bp_paymentReceipt p)"
    using assms(2) by (simp add: unless_empty_def split: list.splits)
  ultimately show ?thesis using assms(2) new
    by (simp add: parseAuthorizationRow_def records_payment_def replayed_payment_def same_payment_def truthy_def)
qed

interpretation postgres: purchase_store postgres_store postgres_lookup
proof
  fix r r' key p e and w w1 :: "authorization_table \<times> 'e"
  obtain t e0 where w: "w = (t, e0)" by (cases w)
  note defs = w on_store_ok postgres_lookup_def postgres_claim_def postgres_markAuthorized_def Let_def
  show "po_claim postgres_store r w = (Inr (True, r'), w1) \<Longrightarrow> pu_status r = CLAIMED \<Longrightarrow> postgres_lookup w (pu_idempotencyKey r) = None
      \<and> (\<exists>c. postgres_lookup w1 (pu_idempotencyKey r) = Some c \<and> pu_status c = CLAIMED)"
    by (auto simp: defs parseAuthorizationRow_def split: sum.splits if_splits)
  show "po_claim postgres_store r w = (Inr (False, r'), w1) \<Longrightarrow> w1 = w \<and> postgres_lookup w (pu_idempotencyKey r) = Some r'"
    by (auto simp: defs map_upd_triv split: sum.splits if_splits option.splits)
  show "postgres_lookup w (pu_idempotencyKey r) \<noteq> None \<Longrightarrow> snd (po_claim postgres_store r w) = w"
    by (auto simp: defs on_store_def map_upd_triv split: sum.splits)
  show "po_claim postgres_store r w = (Inl e, w1) \<Longrightarrow> positive_atomic (pu_amountAtomic r) \<Longrightarrow> w1 = w"
    by (auto simp: defs pg_positive_atomic parseAuthorizationRow_def positive_atomic_def nat_to_string_dec_value map_upd_triv
        split: if_splits option.splits)
  show "po_markAuthorized postgres_store key p w = (Inr r, w1) \<Longrightarrow> bp_paymentReceipt p \<noteq> [] \<Longrightarrow>
      is_bytes32 (bp_paymentProofHash p) \<Longrightarrow> \<exists>c. postgres_lookup w1 key = Some c \<and> pu_status c = AUTHORIZED \<and> records_payment c p"
    using postgres_mark_ok [of key p t r] by (auto simp: w on_store_ok postgres_lookup_def)
  show "po_markAuthorized postgres_store key p w = (Inl e, w1) \<Longrightarrow> w1 = w"
    by (auto simp: defs split: sum.splits option.splits if_splits)
  show "fst (po_abandonClaim postgres_store key w) = Inr () \<and> postgres_lookup (snd (po_abandonClaim postgres_store key w)) key =
      (case postgres_lookup w key of None \<Rightarrow> None | Some c \<Rightarrow> if pu_status c = CLAIMED then None else Some c)"
    by (simp add: defs on_store_def drop_claim_def parseAuthorizationRow_def split: option.splits)
qed

section \<open>Histories of the table\<close>

text \<open>The statements other calls, of this process or another, run on the table: for any key, in any order.\<close>

datatype purchase_statement =
    Claim_statement purchase_record
  | Mark_statement string bnb_payment
  | Abandon_statement string

fun run_statement :: "purchase_statement \<Rightarrow> authorization_table \<Rightarrow> authorization_table" where
  "run_statement (Claim_statement r) t = fst (snd (po_claim postgres_store r (t, ())))"
| "run_statement (Mark_statement key p) t = fst (snd (po_markAuthorized postgres_store key p (t, ())))"
| "run_statement (Abandon_statement key) t = fst (snd (po_abandonClaim postgres_store key (t, ())))"

definition after_statements :: "purchase_statement list \<Rightarrow> authorization_table \<Rightarrow> authorization_table" where
  "after_statements ss t = fold run_statement ss t"

text \<open>Only the call that claimed a key marks it, so a mark of the key repeats the amount it was marked with.\<close>

fun proper_statement :: "string \<Rightarrow> bnb_payment \<Rightarrow> purchase_statement \<Rightarrow> bool" where
  "proper_statement key p (Mark_statement k q) \<longleftrightarrow> k = key \<longrightarrow> dec_value (bp_amountAtomic q) = dec_value (bp_amountAtomic p)"
| "proper_statement key p s \<longleftrightarrow> True"

definition bought :: "string \<Rightarrow> bnb_payment \<Rightarrow> authorization_row \<Rightarrow> bool" where
  "bought key p row \<longleftrightarrow> ar_status row = AUTHORIZED \<and> records_payment (parseAuthorizationRow key row) p"

lemma bought_amount: "bought key p row \<Longrightarrow> ar_amountAtomic row = dec_value (bp_amountAtomic p)"
  by (auto simp: bought_def records_payment_def replayed_payment_def parseAuthorizationRow_def same_payment_def split: if_splits)

lemma statement_keeps_bought:
  assumes "t key = Some row" and "bought key p row" and "proper_statement key p s"
  shows "run_statement s t key = Some row"
proof (cases s)
  case (Claim_statement r)
  then show ?thesis using assms(1) by (auto simp: on_store_def postgres_claim_def Let_def split: sum.splits)
next
  case (Mark_statement k q)
  show ?thesis
  proof (cases "k = key")
    case False
    then show ?thesis using assms(1) Mark_statement
      by (auto simp: on_store_def postgres_markAuthorized_def Let_def split: sum.splits option.splits)
  next
    case True
    have "row\<lparr>ar_status := AUTHORIZED, ar_amountAtomic := dec_value (bp_amountAtomic q)\<rparr> = row"
      using assms(2,3) bought_amount [OF assms(2)] Mark_statement True by (simp add: bought_def)
    then show ?thesis using assms(1,2) Mark_statement True
      by (auto simp: on_store_def postgres_markAuthorized_def Let_def bought_def res_bind_Inr_iff
        dest!: pg_positive_numeric_ok split: sum.splits option.splits)
  qed
next
  case (Abandon_statement k)
  then show ?thesis using assms(1,2) by (auto simp: on_store_def drop_claim_def bought_def split: option.splits)
qed

lemma statements_keep_bought:
  "t key = Some row \<Longrightarrow> bought key p row \<Longrightarrow> list_all (proper_statement key p) ss \<Longrightarrow> after_statements ss t key = Some row"
  by (induction ss arbitrary: t) (auto simp: after_statements_def statement_keeps_bought)

section \<open>Properties\<close>

text \<open>
  C25: a purchase is authorized at most once per key.  Once the client has returned a payment for a key, and
  whatever claims, marks and abandonments of any keys other calls have run on the table since, a later call
  for that key, with whatever ports, touches neither the table nor the world outside it: nothing is quoted,
  approved or signed again.  It returns the same payment; it throws only when it is asked with another ceiling
  than the amount the payment settled for.
\<close>

theorem purchase_authorized_once:
  assumes "acquire_purchase postgres_store X maximum key (t, e) = (Inr p, (t1, e1))"
    and "list_all (proper_statement key p) ss" and "t2 = after_statements ss t1"
    and "acquire_purchase postgres_store X' maximum' key (t2, e2) = (res, w3)"
  shows "w3 = (t2, e2) \<and> (case res of Inr q \<Rightarrow> same_payment p q
    | Inl _ \<Rightarrow> \<not> (positive_atomic maximum' \<and> maximum' = nat_to_string (dec_value (bp_amountAtomic p))))"
proof -
  obtain c where "postgres_lookup (t1, e1) key = Some c" "records_payment c p"
    using postgres.acquired_once [OF assms(1)] by blast
  then obtain row where row: "t1 key = Some row" "records_payment (parseAuthorizationRow key row) p"
    by (auto simp: postgres_lookup_def)
  then have b: "bought key p row"
    by (auto simp: bought_def records_payment_def replayed_payment_def parseAuthorizationRow_def split: if_splits)
  have t2: "t2 key = Some row" using statements_keep_bought [of t1 key row p ss] row(1) b assms(2,3) by simp
  have key: "js_trim key \<noteq> []" using assms(1) by (auto simp: acquire_ok)
  have "postgres_lookup (t2, e2) key = Some (parseAuthorizationRow key row)" by (simp add: postgres_lookup_def t2)
  from postgres.replay_recorded [OF this row(2) assms(4)]
  have "w3 = (t2, e2)" "case res of Inr q \<Rightarrow> same_payment p q | Inl _ \<Rightarrow> True" by blast+
  moreover have "\<exists>q. res = Inr q" if "positive_atomic maximum'" "maximum' = nat_to_string (dec_value (bp_amountAtomic p))"
  proof -
    obtain q where q: "replayed_payment (parseAuthorizationRow key row) = Inr q" using row(2) by (auto simp: records_payment_def)
    moreover have "pu_amountAtomic (parseAuthorizationRow key row) = maximum'"
      using that(2) bought_amount [OF b] by (simp add: parseAuthorizationRow_def)
    ultimately show ?thesis using assms(4) key t2
      by (auto simp: acquire_purchase_def io_then_apply io_bind_apply on_store_def postgres_claim_def
        pg_positive_atomic [OF that(1)] Let_def q)
  qed
  ultimately show ?thesis by (auto split: sum.splits)
qed

text \<open>
  A purchase that succeeds settles for no more than the ceiling the key claimed, whatever the ports
  answer, and one that fails leaves the key free for another attempt, provided the ports leave the table alone.
\<close>

theorem purchase_bounded_or_released:
  assumes "fst w key = None" and "positive_atomic maximum" and "ports_leave (\<lambda>w. postgres_lookup w key) X"
  shows "case acquire_purchase postgres_store X maximum key w of
      (Inr p, w1) \<Rightarrow> \<exists>asked. js_bigint (bp_amountAtomic p) = Inr asked \<and> asked \<le> int (dec_value maximum)
    | (Inl _, w1) \<Rightarrow> fst w1 key = None"
proof -
  have free: "postgres_lookup w key = None" using assms(1) by (simp add: postgres_lookup_def)
  have "js_bigint maximum = Inr (int (dec_value maximum))"
    using assms(2) by (simp add: positive_atomic_def js_bigint_atomic)
  then show ?thesis
    using postgres.acquire_bounded [OF _ free] postgres.failure_frees [OF _ free assms(2,3)]
    by (fastforce simp: postgres_lookup_def split: prod.splits sum.splits)
qed

text \<open>
  The table keeps the settled price where the claim put the ceiling, and a claim compares the two: a key that
  settled below its ceiling can not be replayed, unlike in the map the tests use and against what \<open>ports.ts\<close>
  says of a replay.
\<close>

lemma cheaper_purchase_cannot_replay:
  assumes "positive_atomic maximum" and "js_trim key \<noteq> []"
    and "t key = Some row" and "ar_status row = AUTHORIZED" and "ar_amountAtomic row < dec_value maximum"
  shows "acquire_purchase postgres_store X maximum key (t, e)
    = (Inl (Js_error ''BNB x402 idempotency amount conflict''), (t, e))"
proof -
  have "nat_to_string (ar_amountAtomic row) \<noteq> maximum" using assms(5) by (metis dec_value_nat_to_string less_irrefl)
  then show ?thesis using assms(1-4)
    by (simp add: acquire_purchase_def io_then_apply io_bind_apply on_store_def postgres_claim_def pg_positive_atomic
        parseAuthorizationRow_def Let_def map_upd_triv)
qed

section \<open>One purchase\<close>

definition demo_bnb_payment :: bnb_payment where
  "demo_bnb_payment = \<lparr>bp_paymentReceipt = ''signed'', bp_paymentProofHash = demo_hash32 (CHR ''A''), bp_amountAtomic = ''100''\<rparr>"

definition demo_bnb_quote :: bnb_quote where
  "demo_bnb_quote = \<lparr>pq_requirement = [], pq_amountAtomic = ''100'', pq_asset = ''0xUSD1'', pq_payTo = ''0xTarget'',
     pq_transferMethod = Permit2, pq_paymentRequired = JNull\<rparr>"

text \<open>The world counts the signatures.\<close>

definition demo_bnb_ports :: "(authorization_table \<times> nat) bnb_ports" where
  "demo_bnb_ports = \<lparr>bx_ensureExactAllowance = (\<lambda>_ _. io_ret ()), bx_quote = io_ret demo_bnb_quote,
     bx_authorize = (\<lambda>_ w. (Inr demo_bnb_payment, (fst w, Suc (snd w))))\<rparr>"

definition demo_bought :: authorization_table where
  "demo_bought = [''key-1'' \<mapsto> \<lparr>ar_amountAtomic = 100, ar_status = AUTHORIZED, ar_paymentReceipt = Some ''signed'',
     ar_paymentProofHash = Some (demo_hash32 (CHR ''a''))\<rparr>]"

lemma demo_bnb_facts:
  "js_trim ''key-1'' \<noteq> []" "is_bytes32 (demo_hash32 (CHR ''A''))" "to_lower (demo_hash32 (CHR ''A'')) = demo_hash32 (CHR ''a'')"
  "js_bigint ''100'' = Inr 100" "pg_positive_numeric ''100'' = Inr 100" "nat_to_string 100 = ''100''" "''100'' \<noteq> []"
  "unless_empty (Some ''signed'') = Some ''signed''" "demo_hash32 (CHR ''a'') \<noteq> []"
  by code_simp+

lemmas demo_bnb_eval = acquire_purchase_def authorize_claimed_def io_then_apply io_bind_apply io_catch_apply on_store_def
  postgres_claim_def postgres_markAuthorized_def parseAuthorizationRow_def replayed_payment_def truthy_def demo_bnb_ports_def
  demo_bnb_quote_def demo_bnb_payment_def demo_bnb_facts

lemma demo_bnb_bought:
  "acquire_purchase postgres_store demo_bnb_ports ''100'' ''key-1'' (Map.empty, 0) = (Inr demo_bnb_payment, (demo_bought, 1))"
  by (simp add: demo_bnb_eval demo_bought_def Let_def)

text \<open>Another purchase is claimed and given up, and the payment marked a second time, before the key is bought again.\<close>

definition demo_statements :: "purchase_statement list" where
  "demo_statements = [Claim_statement (claim_record ''key-2'' ''70''), Mark_statement ''key-1'' demo_bnb_payment,
     Abandon_statement ''key-2'', Abandon_statement ''key-1'', Claim_statement (claim_record ''key-1'' ''250'')]"

theorem purchase_authorized_once_witness:
  "\<exists>q. acquire_purchase postgres_store demo_bnb_ports ''100'' ''key-1'' (after_statements demo_statements demo_bought, 7)
      = (Inr q, (after_statements demo_statements demo_bought, 7)) \<and> same_payment demo_bnb_payment q"
proof -
  let ?t = "after_statements demo_statements demo_bought"
  obtain res w where run: "acquire_purchase postgres_store demo_bnb_ports ''100'' ''key-1'' (?t, 7) = (res, w)"
    by (cases "acquire_purchase postgres_store demo_bnb_ports ''100'' ''key-1'' (?t, 7)")
  have s: "list_all (proper_statement ''key-1'' demo_bnb_payment) demo_statements" by (simp add: demo_statements_def)
  have m: "positive_atomic ''100'' \<and> ''100'' = nat_to_string (dec_value (bp_amountAtomic demo_bnb_payment))" by code_simp
  from purchase_authorized_once [OF demo_bnb_bought s refl run] m run show ?thesis by (auto split: sum.splits)
qed

theorem purchase_bounded_or_released_witness:
  "\<exists>asked. js_bigint (bp_amountAtomic demo_bnb_payment) = Inr asked \<and> asked \<le> 100"
proof -
  have "ports_leave (\<lambda>w. postgres_lookup w ''key-1'') demo_bnb_ports"
    by (simp add: ports_leave_def demo_bnb_ports_def postgres_lookup_def)
  moreover have "positive_atomic ''100''" "dec_value ''100'' = 100" by code_simp+
  ultimately show ?thesis
    using purchase_bounded_or_released [of "(Map.empty, 0)" "''key-1''" "''100''" demo_bnb_ports] by (simp add: demo_bnb_bought)
qed

end
