(* ===== verification/Settlement_Legs.thy ===== *)
theory Settlement_Legs
  imports Checkpoint
begin

text \<open>
  The steps of a run's money movement as the dashboard reads them
  (\<open>packages/persistence-postgres/src/run-settlement-leg-store.ts\<close>): one row per run and step, advanced in place
  and never back.  The constraints of the table refuse a malformed leg; the reference to the run is a parameter.
\<close>

datatype leg_kind = Leg_BRIDGE | Leg_TARGET_PAYMENT

datatype leg_status = Leg_PENDING | Leg_SUBMITTED | Leg_CONFIRMED | Leg_FAILED

record settlement_leg =
  sl_runId :: string
  sl_legIndex :: int
  sl_kind :: leg_kind
  sl_network :: string
  sl_assetSymbol :: string
  sl_assetDecimals :: int
  sl_assetAddress :: "string option"
  sl_status :: leg_status
  sl_transactionHash :: "string option"
  sl_amountAtomic :: "string option"
  sl_provider :: "string option"
  sl_detail :: "json option"

text \<open>\<open>STATUS_RANK\<close>, which the update compares.\<close>

fun status_rank :: "leg_status \<Rightarrow> nat" where
  "status_rank Leg_PENDING = 0"
| "status_rank Leg_SUBMITTED = 1"
| "status_rank Leg_CONFIRMED = 2"
| "status_rank Leg_FAILED = 3"

type_synonym leg_table = "settlement_leg list"

text \<open>The columns of a leg: the network pattern, lengths, ranges and byte counts of the table's constraints.\<close>

definition is_network_char :: "bool \<Rightarrow> char \<Rightarrow> bool" where
  "is_network_char upper c \<longleftrightarrow> is_digit c \<or> c = CHR ''-'' \<or> (is_letter c \<and> (upper \<or> lower_char c = c))
     \<or> (upper \<and> c = CHR ''_'')"

definition leg_network_ok :: "string \<Rightarrow> bool" where
  "leg_network_ok n = (case split_on (CHR '':'') n of
      [a, b] \<Rightarrow> a \<noteq> [] \<and> b \<noteq> [] \<and> list_all (is_network_char False) a \<and> list_all (is_network_char True) b
    | _ \<Rightarrow> False)"

definition row_of_leg :: "settlement_leg \<Rightarrow> settlement_leg res" where
  "row_of_leg l =
    res_bind (column (hexToBuffer 20) (unless_empty (sl_assetAddress l))) (\<lambda>asset.
    res_bind (column (hexToBuffer 32) (unless_empty (sl_transactionHash l))) (\<lambda>hash.
    res_bind (column pg_numeric (sl_amountAtomic l)) (\<lambda>amount.
    res_bind (ensure (0 \<le> sl_legIndex l \<and> leg_network_ok (sl_network l) \<and> 1 \<le> length (sl_assetSymbol l)
        \<and> length (sl_assetSymbol l) \<le> 32 \<and> 0 \<le> sl_assetDecimals l \<and> sl_assetDecimals l \<le> 36)
      (Js_error ''check constraint run_settlement_legs'')) (\<lambda>_.
    Inr (l\<lparr>sl_assetAddress := asset, sl_transactionHash := hash, sl_amountAtomic := map_option nat_to_string amount\<rparr>)))))"

definition same_leg :: "settlement_leg \<Rightarrow> settlement_leg \<Rightarrow> bool" where
  "same_leg a b \<longleftrightarrow> sl_runId a = sl_runId b \<and> sl_legIndex a = sl_legIndex b"

definition learned :: "'a option \<Rightarrow> 'a option \<Rightarrow> 'a option" where
  "learned new old = (case new of None \<Rightarrow> old | Some v \<Rightarrow> Some v)"

definition advance_leg :: "settlement_leg \<Rightarrow> settlement_leg \<Rightarrow> settlement_leg" where
  "advance_leg new old =
    (if status_rank (sl_status old) \<le> status_rank (sl_status new)
     then old\<lparr>sl_status := sl_status new, sl_transactionHash := learned (sl_transactionHash new) (sl_transactionHash old),
        sl_amountAtomic := learned (sl_amountAtomic new) (sl_amountAtomic old),
        sl_provider := learned (sl_provider new) (sl_provider old), sl_detail := learned (sl_detail new) (sl_detail old)\<rparr>
     else old)"

definition record_leg :: "(string \<Rightarrow> bool) \<Rightarrow> settlement_leg \<Rightarrow> (leg_table, unit) io" where
  "record_leg run_exists l =
    io_bind (io_lift (row_of_leg l)) (\<lambda>row.
    io_bind (io_get (\<lambda>t. list_ex (same_leg row) t)) (\<lambda>present.
    if present then io_modify (\<lambda>t. map (\<lambda>x. if same_leg row x then advance_leg row x else x) t)
    else io_then (io_lift (ensure (run_exists (sl_runId row)) (Js_error ''foreign key run_id'')))
      (io_modify (\<lambda>t. t @ [row]))))"

definition listByRunId :: "string \<Rightarrow> (leg_table, settlement_leg list) io" where
  "listByRunId runId = io_get (\<lambda>t. sort_key sl_legIndex (filter (\<lambda>l. sl_runId l = runId) t))"

section \<open>A leg never goes back\<close>

text \<open>A later row of the same leg: its rank has not fallen, and what was learned is still known.\<close>

definition no_less_known :: "'a option \<Rightarrow> 'a option \<Rightarrow> bool" where
  "no_less_known old new \<longleftrightarrow> old = None \<or> new \<noteq> None"

definition leg_progress :: "settlement_leg \<Rightarrow> settlement_leg \<Rightarrow> bool" where
  "leg_progress old new \<longleftrightarrow> same_leg old new \<and> status_rank (sl_status old) \<le> status_rank (sl_status new)
    \<and> sl_kind new = sl_kind old \<and> sl_network new = sl_network old \<and> sl_assetSymbol new = sl_assetSymbol old
    \<and> sl_assetDecimals new = sl_assetDecimals old \<and> sl_assetAddress new = sl_assetAddress old
    \<and> no_less_known (sl_transactionHash old) (sl_transactionHash new)
    \<and> no_less_known (sl_amountAtomic old) (sl_amountAtomic new) \<and> no_less_known (sl_provider old) (sl_provider new)"

lemma leg_progress_refl: "leg_progress l l"
  by (auto simp: leg_progress_def same_leg_def no_less_known_def)

lemma leg_progress_trans: "leg_progress a b \<Longrightarrow> leg_progress b c \<Longrightarrow> leg_progress a c"
  by (auto simp: leg_progress_def same_leg_def no_less_known_def)

lemma advance_leg_progress: "leg_progress old (advance_leg new old)"
  by (auto simp: leg_progress_def same_leg_def advance_leg_def learned_def no_less_known_def split: option.splits)

text \<open>One row per run and step.\<close>

definition legs_distinct :: "leg_table \<Rightarrow> bool" where
  "legs_distinct t \<longleftrightarrow> distinct (map (\<lambda>l. (sl_runId l, sl_legIndex l)) t)"

lemma record_leg_result:
  assumes "record_leg X l t = (r, t1)"
  shows "t1 = t \<or> (\<exists>row. t1 = map (\<lambda>x. if same_leg row x then advance_leg row x else x) t)
    \<or> (\<exists>row. t1 = t @ [row] \<and> list_all (\<lambda>x. \<not> same_leg row x) t)"
  using assms by (auto simp: record_leg_def io_bind_apply io_then_apply list_ex_iff list_all_iff split: sum.splits if_splits)

lemma record_leg_step:
  assumes "legs_distinct t"
  shows "legs_distinct (snd (record_leg X l t))
    \<and> (\<forall>old \<in> set t. \<exists>new \<in> set (snd (record_leg X l t)). leg_progress old new)"
proof -
  obtain r t1 where run: "record_leg X l t = (r, t1)" by (cases "record_leg X l t")
  have key: "(sl_runId (if same_leg row x then advance_leg row x else x), sl_legIndex (if same_leg row x then advance_leg row x else x))
      = (sl_runId x, sl_legIndex x)" for row x by (simp add: advance_leg_def)
  consider "t1 = t" | row where "t1 = map (\<lambda>x. if same_leg row x then advance_leg row x else x) t"
    | row where "t1 = t @ [row]" "list_all (\<lambda>x. \<not> same_leg row x) t" using record_leg_result [OF run] by blast
  then show ?thesis
  proof cases
    case 1
    then show ?thesis using run assms leg_progress_refl by auto
  next
    case 2
    then have "legs_distinct t1" using assms by (simp add: legs_distinct_def key comp_def)
    moreover have "\<exists>new \<in> set t1. leg_progress old new" if "old \<in> set t" for old
      by (rule bexI [of _ "if same_leg row old then advance_leg row old else old"])
        (use 2 that advance_leg_progress leg_progress_refl in auto)
    ultimately show ?thesis using run by simp
  next
    case 3
    then have "legs_distinct t1" using assms by (auto simp: legs_distinct_def list_all_iff same_leg_def)
    then show ?thesis using run 3 leg_progress_refl by auto
  qed
qed

definition record_legs :: "(string \<Rightarrow> bool) \<Rightarrow> settlement_leg list \<Rightarrow> leg_table \<Rightarrow> leg_table" where
  "record_legs X ls t = foldl (\<lambda>t l. snd (record_leg X l t)) t ls"

text \<open>
  The legs of a run only move forward.  Whatever sequence of legs is recorded, including repeats of an
  earlier phase by a re-claimed job, there stays one row per run and step, and every row that was there is still
  there with a status of no lower rank, the same chain and asset, and no hash, amount or provider lost.
\<close>

theorem settlement_legs_progress:
  assumes "legs_distinct t"
  shows "legs_distinct (record_legs X ls t) \<and> (\<forall>old \<in> set t. \<exists>new \<in> set (record_legs X ls t). leg_progress old new)"
  using assms
proof (induction ls arbitrary: t)
  case Nil
  then show ?case using leg_progress_refl by (auto simp: record_legs_def)
next
  case (Cons l ls)
  from record_leg_step [OF Cons.prems, of X l]
  have step: "legs_distinct (snd (record_leg X l t))"
    "\<forall>old \<in> set t. \<exists>new \<in> set (snd (record_leg X l t)). leg_progress old new" by blast+
  from Cons.IH [OF step(1)] step(2) show ?case
    unfolding record_legs_def foldl_Cons by (meson leg_progress_trans)
qed

definition demo_leg :: "leg_status \<Rightarrow> settlement_leg" where
  "demo_leg s = \<lparr>sl_runId = ''run-1'', sl_legIndex = 0, sl_kind = Leg_BRIDGE, sl_network = ''eip155:2345'',
     sl_assetSymbol = ''USDC'', sl_assetDecimals = 6, sl_assetAddress = None, sl_status = s, sl_transactionHash = None,
     sl_amountAtomic = Some ''5'', sl_provider = None, sl_detail = None\<rparr>"

text \<open>A step of a later attempt that only says the transfer was submitted does not take the delivery back.\<close>

theorem settlement_legs_progress_witness:
  "\<exists>l. l \<in> set (record_legs (\<lambda>_. True) [demo_leg Leg_SUBMITTED] [demo_leg Leg_CONFIRMED]) \<and> 2 \<le> status_rank (sl_status l)"
proof -
  have "legs_distinct [demo_leg Leg_CONFIRMED]" by (simp add: legs_distinct_def)
  from settlement_legs_progress [OF this, of "\<lambda>_. True" "[demo_leg Leg_SUBMITTED]"]
  obtain l where "l \<in> set (record_legs (\<lambda>_. True) [demo_leg Leg_SUBMITTED] [demo_leg Leg_CONFIRMED])"
    "leg_progress (demo_leg Leg_CONFIRMED) l" by auto
  then show ?thesis by (intro exI [of _ l]) (simp add: leg_progress_def demo_leg_def)
qed

end
