(* ===== verification/Procurement.thy ===== *)
theory Procurement
  imports Checkpoint Settlement_Legs Bnb_Payment Cross_Chain Exact_EVM Receipts
begin

text \<open>
  The procurement phases of the orchestrator (\<open>apps/orchestrator-worker/src/pipeline/procurement-phase.ts\<close> and
  \<open>cross-chain-procurement-phase.ts\<close>) over the ports of \<open>ports.ts\<close> and \<open>pipeline/types.ts\<close>: buying the paid
  resource on the home chain with a signed authorization, or on another chain after a bridge.  Every spend-once
  artifact is checkpointed, and what the store kept is what is used; the theorems state that over arbitrary
  ports and concurrent workers.
\<close>

section \<open>Ports\<close>

record acquire_request =
  qa_endpoint :: string
  qa_nonce :: string
  qa_validAfterSec :: int
  qa_validBeforeSec :: int
  qa_maxAmountAtomic :: string
  qa_expectedChainId :: nat
  qa_allowedAssets :: "string list"

record refund_order =
  rf_tokenAddress :: string
  rf_toAddress :: string
  rf_valueAtomic :: int
  rf_nonce :: int

record 'w refund_sender =
  rf_reserveNonce :: "('w, int) io"
  rf_isNonceConsumed :: "int \<Rightarrow> ('w, bool) io"
  rf_sendRefund :: "refund_order \<Rightarrow> ('w, string) io"

datatype bridge_state = Bridge_PENDING | Bridge_DESTINATION_FUNDED | Bridge_FAILED | Bridge_REFUNDED

record bridge_status =
  bs_status :: bridge_state
  bs_destinationTransactionHash :: "string option"
  bs_amountReceivedAtomic :: "string option"
  bs_failureReason :: "string option"

record 'w bridge_config =
  bg_quote :: "procurement_intent \<Rightarrow> ('w, bridge_quote) io"
  bg_submit :: "procurement_intent \<Rightarrow> bridge_quote \<Rightarrow> string \<Rightarrow> ('w, string \<times> string) io"
  bg_getStatus :: "string \<Rightarrow> ('w, bridge_status) io"
  bg_provider :: string
  bg_fundingAsset :: evm_asset
  bg_sourceBridgeAmountAtomic :: string
  bg_sourceBridgePayerAddress :: string
  bg_maximumBridgeWaitSeconds :: int

datatype payer_mode = BRIDGE_THEN_PAY | PREFUNDED

record 'w payer_registration =
  pr_chainId :: int
  pr_mode :: payer_mode
  pr_policyCostAtomic :: string
  pr_targetPaymentAmountAtomic :: string
  pr_settlementAsset :: evm_asset
  pr_destinationPayerAddress :: string
  pr_targetPayToAddress :: "string option"
  pr_acquire :: "string \<Rightarrow> string \<Rightarrow> ('w, bnb_payment) io"
  pr_bridge :: "'w bridge_config option"

record evidence_row =
  ev_pack_runId :: string
  ev_pack_evidenceRoot :: string
  ev_pack_toolReceiptRoot :: string
  ev_pack_uri :: string
  ev_pack_contentHash :: string
  ev_pack_publicManifest :: evidence_content
  ev_pack_builtAt :: string

record attestation_row =
  as_runId :: string
  as_registryAddress :: string
  as_chainId :: int
  as_transactionHash :: string
  as_attestor :: string
  as_expiresAt :: string
  as_submittedAt :: string

text \<open>
  \<open>pd_acquire\<close> is the payer's \<open>acquire\<close>, \<open>pr_acquire\<close> is \<open>payerFor(endpoint).acquire(key)\<close>, \<open>pd_execute\<close> the
  delivery client of an endpoint, \<open>pd_randomBytes\<close> the hexadecimal text of 32 random bytes, \<open>pd_now\<close> the clock
  in milliseconds, \<open>pd_hash_typed\<close> the typed-data hash of a receipt.
\<close>

record 'w pipeline_deps =
  pd_findRun :: "string \<Rightarrow> ('w, run_record option) io"
  pd_saveRun :: "run_record \<Rightarrow> int \<Rightarrow> ('w, unit) io"
  pd_findQuote :: "string \<Rightarrow> ('w, quote option) io"
  pd_classify :: "classification_input \<Rightarrow> ('w, risk_classification) io"
  pd_mandatoryScenarios :: "string list"
  pd_shipyardAgentId :: string
  pd_toolAgentId :: string
  pd_toolVersion :: string
  pd_toolChainId :: int
  pd_providerSignerAddress :: "string option"
  pd_execute :: "string \<Rightarrow> delivery_request \<Rightarrow> ('w, delivery_attempt) io"
  pd_acquire :: "acquire_request \<Rightarrow> ('w, acquired_payment) io"
  pd_procurementAllowedAssets :: "string list"
  pd_homeChainId :: int
  pd_crossChainPayers :: "'w payer_registration list"
  pd_refundSender :: "'w refund_sender option"
  pd_sign :: "unsigned_receipt \<Rightarrow> ('w, string) io"
  pd_hash_typed :: "unsigned_receipt \<Rightarrow> string"
  pd_getEvidence :: "string \<Rightarrow> ('w, evidence_row option) io"
  pd_putEvidence :: "evidence_row \<Rightarrow> ('w, unit) io"
  pd_publish :: "string \<Rightarrow> ('w, string) io"
  pd_attestorAddress :: string
  pd_registryAddress :: string
  pd_attestorChainId :: int
  pd_submitAttestation :: "attestation_input \<Rightarrow> ('w, string) io"
  pd_getAttestation :: "string \<Rightarrow> ('w, attestation_row option) io"
  pd_putAttestation :: "attestation_row \<Rightarrow> ('w, unit) io"
  pd_load :: "string \<Rightarrow> ('w, checkpoint) io"
  pd_merge :: "string \<Rightarrow> checkpoint \<Rightarrow> ('w, checkpoint) io"
  pd_recordLeg :: "(settlement_leg \<Rightarrow> ('w, unit) io) option"
  pd_now :: "('w, int) io"
  pd_randomBytes :: "('w, string) io"

section \<open>Authorizing a purchase\<close>

definition mandate_validity_seconds :: int where "mandate_validity_seconds = 900"

fun denial_name :: "denial_code \<Rightarrow> string" where
  "denial_name RUN_TERMINAL = ''RUN_TERMINAL''"
| "denial_name MANDATE_EXPIRED = ''MANDATE_EXPIRED''"
| "denial_name TOOL_NOT_ALLOWED = ''TOOL_NOT_ALLOWED''"
| "denial_name HOST_NOT_ALLOWED = ''HOST_NOT_ALLOWED''"
| "denial_name SELF_DEALING_TOOL = ''SELF_DEALING_TOOL''"
| "denial_name SELF_DEALING_HOST = ''SELF_DEALING_HOST''"
| "denial_name INVALID_AMOUNT = ''INVALID_AMOUNT''"
| "denial_name SINGLE_PURCHASE_LIMIT = ''SINGLE_PURCHASE_LIMIT''"
| "denial_name TOTAL_SPEND_LIMIT = ''TOTAL_SPEND_LIMIT''"
| "denial_name TOOL_CALL_LIMIT = ''TOOL_CALL_LIMIT''"
| "denial_name RETRY_LIMIT = ''RETRY_LIMIT''"
| "denial_name ADDITIONAL_APPROVAL_REQUIRED = ''ADDITIONAL_APPROVAL_REQUIRED''"
| "denial_name INVALID_IDEMPOTENCY_KEY = ''INVALID_IDEMPOTENCY_KEY''"

text \<open>The host of the target, port included, as \<open>new URL(endpoint).host\<close> gives it.\<close>

definition target_host :: "platform \<Rightarrow> string \<Rightarrow> string res" where
  "target_host P endpoint =
    (case pf_new_url P endpoint None of None \<Rightarrow> Inl (Type_error ''Invalid URL'') | Some u \<Rightarrow> Inr (url_host u))"

definition seconds :: "int \<Rightarrow> int" where "seconds ms = ms div 1000"

definition purchase_of :: "string \<Rightarrow> string \<Rightarrow> string \<Rightarrow> string \<Rightarrow> string \<Rightarrow> purchase_intent" where
  "purchase_of runId toolAgentId host amount step = \<lparr>pi_runId = runId, pi_toolAgentId = toolAgentId,
     pi_providerServiceId = toolAgentId, pi_host = host, pi_atomicAmount = amount,
     pi_idempotencyKey = ''orchestrator:'' @ runId @ '':'' @ step @ '':1''\<rparr>"

definition context_at :: "'w pipeline_deps \<Rightarrow> run_status \<Rightarrow> int \<Rightarrow> purchase_context" where
  "context_at D status nowSec = \<lparr>pc_nowEpochSeconds = nowSec, pc_runStatus = status, pc_currentTotalSpend = ''0'',
     pc_completedToolCalls = 0, pc_priorAttemptsForTool = 0, pc_shipyardAgentId = pd_shipyardAgentId D,
     pc_shipyardControlledHosts = [], pc_additionalSpendApproved = False\<rparr>"

definition require_authorized :: "run_mandate \<Rightarrow> purchase_intent \<Rightarrow> purchase_context \<Rightarrow> unit res" where
  "require_authorized mandate intent ctx =
    res_bind (authorizePurchase mandate intent ctx) (\<lambda>a.
    ensure (pa_authorized a) (Procurement_denied (map denial_name (pa_denialCodes a))))"

section \<open>On the home chain\<close>

record procured =
  bt_purchaseAmount :: int
  bt_paymentTransactionHash :: string
  bt_purchaseReceipt :: string
  bt_paymentHeaderName :: string

text \<open>The amount and the nonce of a checkpointed header are read from the header itself.\<close>

definition read_payment :: "platform \<Rightarrow> string \<Rightarrow> string \<Rightarrow> (int \<times> string) res" where
  "read_payment P runId receipt =
    (case decodePaymentHeader P receipt of
       None \<Rightarrow> Inl (Js_error (''Checkpointed x402 payment for run '' @ runId @ '' is unreadable''))
     | Some h \<Rightarrow>
        res_bind (js_bigint (ta_value (pl_authorization (ph_payload h)))) (\<lambda>amount.
        Inr (amount, ta_nonce (pl_authorization (ph_payload h)))))"

definition sign_payment ::
  "platform \<Rightarrow> 'w pipeline_deps \<Rightarrow> string \<Rightarrow> string \<Rightarrow> nat \<Rightarrow> string \<Rightarrow> ('w, string) io" where
  "sign_payment P D runId endpoint chainId ceiling =
    io_bind (pd_now D) (\<lambda>now.
    io_bind (pd_randomBytes D) (\<lambda>bytes.
    io_bind (pd_acquire D \<lparr>qa_endpoint = endpoint, qa_nonce = ''0x'' @ bytes, qa_validAfterSec = seconds now - 60,
       qa_validBeforeSec = seconds now + mandate_validity_seconds, qa_maxAmountAtomic = ceiling,
       qa_expectedChainId = chainId, qa_allowedAssets = pd_procurementAllowedAssets D\<rparr>) (\<lambda>acquired.
    io_bind (pd_merge D runId (empty_checkpoint\<lparr>ck_purchaseReceipt := Some (ap_paymentHeader acquired),
       ck_paymentTransactionHash := Some (ta_nonce (ap_authorization acquired)),
       ck_paymentHeaderName := Some ''x-payment''\<rparr>)) (\<lambda>persisted.
    if \<not> truthy (ck_purchaseReceipt persisted) \<or> \<not> truthy (ck_paymentTransactionHash persisted)
    then io_throw (Js_error (''x402 authorization checkpoint for run '' @ runId @ '' was not persisted''))
    else io_ret (the (ck_purchaseReceipt persisted))))))"

definition refund_nonce :: "'w pipeline_deps \<Rightarrow> 'w refund_sender \<Rightarrow> string \<Rightarrow> checkpoint \<Rightarrow> ('w, int) io" where
  "refund_nonce D R runId checkpoint =
    (case ck_refundNonce checkpoint of
       Some n \<Rightarrow> io_ret n
     | None \<Rightarrow>
        io_bind (rf_reserveNonce R) (\<lambda>reserved.
        io_bind (pd_merge D runId (empty_checkpoint\<lparr>ck_refundNonce := Some reserved\<rparr>)) (\<lambda>persisted.
        io_ret (case ck_refundNonce persisted of Some n \<Rightarrow> n | None \<Rightarrow> reserved))))"

definition refund_rest ::
  "'w pipeline_deps \<Rightarrow> 'w refund_sender \<Rightarrow> string \<Rightarrow> checkpoint \<Rightarrow> quote \<Rightarrow> string \<Rightarrow> int \<Rightarrow> ('w, unit) io" where
  "refund_rest D R runId checkpoint quote token amount =
    io_bind (refund_nonce D R runId checkpoint) (\<lambda>nonce.
    io_bind (rf_isNonceConsumed R nonce) (\<lambda>consumed.
    if consumed then io_throw (Payment_send_ambiguous runId)
    else
      io_bind (rf_sendRefund R \<lparr>rf_tokenAddress = token, rf_toAddress = qr_requesterAddress (q_request quote),
        rf_valueAtomic = amount, rf_nonce = nonce\<rparr>) (\<lambda>hash.
      io_bind (pd_merge D runId (empty_checkpoint\<lparr>ck_refundTransactionHash := Some hash\<rparr>)) (\<lambda>_. io_ret ()))))"

definition refund_unspent ::
  "'w pipeline_deps \<Rightarrow> string \<Rightarrow> checkpoint \<Rightarrow> quote \<Rightarrow> string \<Rightarrow> int \<Rightarrow> ('w, unit) io" where
  "refund_unspent D runId checkpoint quote token purchaseAmount =
    (case pd_refundSender D of None \<Rightarrow> io_ret ()
     | Some R \<Rightarrow>
        io_bind (io_lift (js_bigint (q_refundableToolBudgetAtomic quote))) (\<lambda>budget.
        io_when (0 < budget - purchaseAmount \<and> \<not> truthy (ck_refundTransactionHash checkpoint))
          (refund_rest D R runId checkpoint quote token (budget - purchaseAmount))))"

text \<open>The terms of the quote's capability snapshot; the quote repository returns quotes that have them.\<close>

definition snapshot_terms :: "quote \<Rightarrow> (int \<times> string \<times> string) res" where
  "snapshot_terms quote = (case quote_terms quote of None \<Rightarrow> Inl (Zod_error [''capabilitySnapshot'']) | Some t \<Rightarrow> Inr t)"

text \<open>The token of the quote, and the payment: its header, amount and nonce.\<close>

definition home_payment :: "platform \<Rightarrow> 'w pipeline_deps \<Rightarrow> string \<Rightarrow> checkpoint \<Rightarrow> compiled_plan \<Rightarrow> quote \<Rightarrow> run_status
    \<Rightarrow> ('w, string \<times> string \<times> int \<times> string) io" where
  "home_payment P D runId checkpoint plan quote status =
    (let endpoint = qr_x402Endpoint (q_request quote); toolAgentId = qr_targetAgentId (q_request quote) in
     io_bind (io_lift (target_host P endpoint)) (\<lambda>host.
     io_bind (io_lift (snapshot_terms quote)) (\<lambda>(chainId, token, _).
     io_bind (pd_now D) (\<lambda>t0.
     io_bind (io_lift (buildMandate plan toolAgentId host (seconds t0 + mandate_validity_seconds))) (\<lambda>mandate.
     let ceiling = md_maximumSinglePurchase mandate in
     io_bind (pd_now D) (\<lambda>t1.
     io_then (io_lift (require_authorized mandate (purchase_of runId toolAgentId host ceiling ''procure'')
       (context_at D status (seconds t1))))
     (io_bind (if truthy (ck_purchaseReceipt checkpoint) then io_ret (the (ck_purchaseReceipt checkpoint))
         else sign_payment P D runId endpoint (nat chainId) ceiling) (\<lambda>receipt.
     io_bind (io_lift (read_payment P runId receipt)) (\<lambda>(amount, nonce).
     io_ret (token, receipt, amount, nonce))))))))))"

definition runProcurementPhase ::
  "platform \<Rightarrow> 'w pipeline_deps \<Rightarrow> string \<Rightarrow> checkpoint \<Rightarrow> compiled_plan \<Rightarrow> quote \<Rightarrow> run_status \<Rightarrow> ('w, procured) io" where
  "runProcurementPhase P D runId checkpoint plan quote status =
    io_bind (home_payment P D runId checkpoint plan quote status) (\<lambda>(token, receipt, amount, nonce).
    io_then (refund_unspent D runId checkpoint quote token amount)
    (io_ret \<lparr>bt_purchaseAmount = amount, bt_paymentTransactionHash = nonce, bt_purchaseReceipt = receipt,
       bt_paymentHeaderName = ''x-payment''\<rparr>))"

section \<open>On another chain\<close>

definition targetIsRemote :: "'w pipeline_deps \<Rightarrow> quote \<Rightarrow> bool" where
  "targetIsRemote D quote \<longleftrightarrow> q_targetChainId quote \<noteq> None \<and> q_targetChainId quote \<noteq> Some (pd_homeChainId D)"

definition resolveCrossChainPayer :: "'w pipeline_deps \<Rightarrow> quote \<Rightarrow> 'w payer_registration option" where
  "resolveCrossChainPayer D quote =
    (if \<not> targetIsRemote D quote then None
     else find (\<lambda>p. Some (pr_chainId p) = q_targetChainId quote) (pd_crossChainPayers D))"

text \<open>A leg is recorded if it can be; a failure to record it is logged and dropped.\<close>

definition recordLeg :: "'w pipeline_deps \<Rightarrow> settlement_leg \<Rightarrow> ('w, unit) io" where
  "recordLeg D leg = (case pd_recordLeg D of None \<Rightarrow> io_ret () | Some f \<Rightarrow> io_catch (f leg) (\<lambda>_. io_ret ()))"

definition asset_leg :: "string \<Rightarrow> int \<Rightarrow> leg_kind \<Rightarrow> evm_asset \<Rightarrow> leg_status \<Rightarrow> string option \<Rightarrow> string option \<Rightarrow> string
    \<Rightarrow> (string \<times> json) list \<Rightarrow> settlement_leg" where
  "asset_leg runId n k asset status hash amount provider detail = \<lparr>sl_runId = runId, sl_legIndex = n,
     sl_kind = k, sl_network = ea_network asset, sl_assetSymbol = ea_symbol asset, sl_assetDecimals = ea_decimals asset,
     sl_assetAddress = Some (ea_tokenAddress asset), sl_status = status, sl_transactionHash = hash, sl_amountAtomic = amount,
     sl_provider = Some provider, sl_detail = Some (JObj detail)\<rparr>"

definition payment_leg :: "'w payer_registration \<Rightarrow> string \<Rightarrow> leg_status \<Rightarrow> string option \<Rightarrow> (string \<times> json) list \<Rightarrow> settlement_leg" where
  "payment_leg X runId status amount detail =
    asset_leg runId 1 Leg_TARGET_PAYMENT (pr_settlementAsset X) status None amount ''x402'' detail"

definition exact_detail :: "string \<Rightarrow> (string \<times> json) list" where
  "exact_detail endpoint = [(''endpoint'', JStr endpoint), (''scheme'', JStr ''exact'')]"

definition authorizeProcurement :: "'w pipeline_deps \<Rightarrow> 'w payer_registration \<Rightarrow> string \<Rightarrow> compiled_plan \<Rightarrow> quote \<Rightarrow> string
    \<Rightarrow> run_status \<Rightarrow> int \<Rightarrow> unit res" where
  "authorizeProcurement D X runId plan quote host status nowSec =
    (let toolAgentId = qr_targetAgentId (q_request quote) in
     res_bind (buildMandate plan toolAgentId host (nowSec + mandate_validity_seconds)) (\<lambda>mandate.
     require_authorized mandate
       (purchase_of runId toolAgentId host (pr_policyCostAtomic X)
         (if pr_bridge X \<noteq> None then ''bridge'' else ''prefunded''))
       (context_at D status nowSec)))"

subsection \<open>Funding the destination\<close>

definition bridge_intent :: "'w payer_registration \<Rightarrow> 'w bridge_config \<Rightarrow> string \<Rightarrow> int \<Rightarrow> procurement_intent" where
  "bridge_intent X B runId now = \<lparr>xi_runId = runId,
     xi_funding = \<lparr>rl_asset = bg_fundingAsset B, rl_payerAddress = bg_sourceBridgePayerAddress B,
       rl_maximumAtomicAmount = bg_sourceBridgeAmountAtomic B\<rparr>,
     xi_target = \<lparr>rl_asset = pr_settlementAsset X, rl_payerAddress = pr_destinationPayerAddress X,
       rl_maximumAtomicAmount = pr_targetPaymentAmountAtomic X, rl_payToAddress = unless_empty (pr_targetPayToAddress X)\<rparr>,
     xi_expiresAt = to_iso_string (now + mandate_validity_seconds * 1000)\<rparr>"

definition bridge_leg :: "'w bridge_config \<Rightarrow> string \<Rightarrow> leg_status \<Rightarrow> string option \<Rightarrow> string \<Rightarrow> (string \<times> json) list \<Rightarrow> settlement_leg" where
  "bridge_leg B runId status hash amount detail =
    asset_leg runId 0 Leg_BRIDGE (bg_fundingAsset B) status hash (Some amount) (bg_provider B) detail"

text \<open>The transfer of the run, submitted now or before: its id and when it was submitted.\<close>

definition bridge_transfer :: "'w pipeline_deps \<Rightarrow> 'w payer_registration \<Rightarrow> 'w bridge_config \<Rightarrow> string \<Rightarrow> checkpoint \<Rightarrow> int
    \<Rightarrow> procurement_intent \<Rightarrow> ('w, string \<times> int option) io" where
  "bridge_transfer D X B runId checkpoint nowSec intent =
    (if truthy (ck_bridgeTransferId checkpoint) \<and> truthy (ck_bridgeSourceTransactionHash checkpoint)
     then io_ret (the (ck_bridgeTransferId checkpoint), ck_bridgeSubmittedAt checkpoint)
     else
      io_bind (bg_quote B intent) (\<lambda>bridgeQuote.
      io_bind (bg_submit B intent bridgeQuote (''orchestrator:'' @ runId @ '':bridge:1'')) (\<lambda>(transferId, sourceHash).
      io_bind (pd_merge D runId (empty_checkpoint\<lparr>ck_bridgeProvider := Some (bg_provider B),
        ck_bridgeTransferId := Some transferId, ck_bridgeSourceTransactionHash := Some sourceHash,
        ck_bridgeSubmittedAt := Some nowSec\<rparr>)) (\<lambda>persisted.
      if \<not> truthy (ck_bridgeTransferId persisted) \<or> \<not> truthy (ck_bridgeSourceTransactionHash persisted)
         \<or> ck_bridgeSubmittedAt persisted = None
      then io_throw (Js_error ''Bridge submission checkpoint was not persisted'')
      else
        io_then (recordLeg D (bridge_leg B runId Leg_SUBMITTED (ck_bridgeSourceTransactionHash persisted)
          (bg_sourceBridgeAmountAtomic B) [(''destinationNetwork'', JStr (ea_network (pr_settlementAsset X)))]))
        (io_ret (the (ck_bridgeTransferId persisted), ck_bridgeSubmittedAt persisted))))))"

fun bridge_state_name :: "bridge_state \<Rightarrow> string" where
  "bridge_state_name Bridge_PENDING = ''PENDING''"
| "bridge_state_name Bridge_DESTINATION_FUNDED = ''DESTINATION_FUNDED''"
| "bridge_state_name Bridge_FAILED = ''FAILED''"
| "bridge_state_name Bridge_REFUNDED = ''REFUNDED''"

definition bridge_timed_out :: "'w bridge_config \<Rightarrow> int \<Rightarrow> int option \<Rightarrow> bool" where
  "bridge_timed_out B nowSec submittedAt =
    (case submittedAt of None \<Rightarrow> False | Some t \<Rightarrow> bg_maximumBridgeWaitSeconds B < nowSec - t)"

text \<open>The amount observed on the destination chain.\<close>

definition await_delivery :: "'w pipeline_deps \<Rightarrow> 'w payer_registration \<Rightarrow> 'w bridge_config \<Rightarrow> string \<Rightarrow> checkpoint \<Rightarrow> int
    \<Rightarrow> string \<Rightarrow> int option \<Rightarrow> ('w, string) io" where
  "await_delivery D X B runId checkpoint nowSec transferId submittedAt =
    (if truthy (ck_bridgeDestinationTransactionHash checkpoint) \<and> truthy (ck_bridgeAmountReceivedAtomic checkpoint)
     then io_ret (the (ck_bridgeAmountReceivedAtomic checkpoint))
     else if bridge_timed_out B nowSec submittedAt
     then io_throw (Js_error ''Bridge exceeded the configured delivery timeout'')
     else
      io_bind (bg_getStatus B transferId) (\<lambda>status.
      if bs_status status = Bridge_PENDING then io_throw (Bridge_delivery_pending runId)
      else if bs_status status \<noteq> Bridge_DESTINATION_FUNDED \<or> \<not> truthy (bs_destinationTransactionHash status)
        \<or> \<not> truthy (bs_amountReceivedAtomic status)
      then io_throw (Js_error (case bs_failureReason status of Some r \<Rightarrow> r
        | None \<Rightarrow> ''Bridge ended in '' @ bridge_state_name (bs_status status)))
      else
      io_bind (pd_merge D runId (empty_checkpoint\<lparr>ck_bridgeDestinationTransactionHash := bs_destinationTransactionHash status,
        ck_bridgeAmountReceivedAtomic := bs_amountReceivedAtomic status\<rparr>)) (\<lambda>persisted.
      if \<not> truthy (ck_bridgeDestinationTransactionHash persisted) \<or> \<not> truthy (ck_bridgeAmountReceivedAtomic persisted)
      then io_throw (Js_error ''Destination funding checkpoint was not persisted'')
      else
        io_then (recordLeg D (bridge_leg B runId Leg_CONFIRMED None (the (ck_bridgeAmountReceivedAtomic persisted))
          [(''destinationNetwork'', JStr (ea_network (pr_settlementAsset X))),
           (''destinationTransactionHash'', JStr (the (ck_bridgeDestinationTransactionHash persisted))),
           (''destinationAssetSymbol'', JStr (ea_symbol (pr_settlementAsset X)))]))
        (io_ret (the (ck_bridgeAmountReceivedAtomic persisted))))))"

definition covers_ceiling :: "string \<Rightarrow> string \<Rightarrow> bool res" where
  "covers_ceiling received ceiling =
    res_bind (js_bigint received) (\<lambda>r. res_bind (js_bigint ceiling) (\<lambda>c. Inr (c \<le> r)))"

definition fundDestinationByBridge :: "'w pipeline_deps \<Rightarrow> 'w payer_registration \<Rightarrow> string \<Rightarrow> checkpoint \<Rightarrow> int \<Rightarrow> ('w, unit) io" where
  "fundDestinationByBridge D X runId checkpoint nowSec =
    (case pr_bridge X of
       None \<Rightarrow> io_throw (Js_error ''BRIDGE_THEN_PAY procurement is missing its bridge configuration'')
     | Some B \<Rightarrow>
        io_bind (pd_now D) (\<lambda>now.
        io_bind (io_lift (createCrossChainProcurementIntent (bridge_intent X B runId now))) (\<lambda>intent.
        io_bind (bridge_transfer D X B runId checkpoint nowSec intent) (\<lambda>(transferId, submittedAt).
        io_bind (await_delivery D X B runId checkpoint nowSec transferId submittedAt) (\<lambda>received.
        io_bind (io_lift (covers_ceiling received (pr_targetPaymentAmountAtomic X))) (\<lambda>covered.
        io_lift (ensure covered (Js_error ''Checkpointed destination funding cannot cover the target payment ceiling''))))))))"

subsection \<open>Paying the target\<close>

text \<open>The payment as receipt, proof hash and amount.\<close>

definition authorizeTargetPayment :: "'w pipeline_deps \<Rightarrow> 'w payer_registration \<Rightarrow> string \<Rightarrow> checkpoint \<Rightarrow> string
    \<Rightarrow> ('w, bnb_payment) io" where
  "authorizeTargetPayment D X runId checkpoint endpoint =
    (if truthy (ck_purchaseReceipt checkpoint) \<and> truthy (ck_paymentTransactionHash checkpoint)
        \<and> truthy (ck_targetPaymentAmountAtomic checkpoint)
     then io_ret \<lparr>bp_paymentReceipt = the (ck_purchaseReceipt checkpoint),
       bp_paymentProofHash = the (ck_paymentTransactionHash checkpoint),
       bp_amountAtomic = the (ck_targetPaymentAmountAtomic checkpoint)\<rparr>
     else
      io_bind (io_catch (pr_acquire X endpoint (''orchestrator:'' @ runId @ '':target-x402:1''))
        (\<lambda>e. case e of
           Requirement_not_payable codes \<Rightarrow>
             io_then (recordLeg D (payment_leg X runId Leg_FAILED None
               [(''endpoint'', JStr endpoint), (''rejectionCodes'', JArr (map JStr codes))]))
             (io_throw (Procurement_denied codes))
         | _ \<Rightarrow> io_throw e)) (\<lambda>payment.
      io_bind (pd_merge D runId (empty_checkpoint\<lparr>ck_purchaseReceipt := Some (bp_paymentReceipt payment),
        ck_paymentTransactionHash := Some (bp_paymentProofHash payment),
        ck_targetPaymentAmountAtomic := Some (bp_amountAtomic payment),
        ck_paymentHeaderName := Some ''payment-signature''\<rparr>)) (\<lambda>persisted.
      if \<not> truthy (ck_purchaseReceipt persisted) \<or> \<not> truthy (ck_paymentTransactionHash persisted)
         \<or> \<not> truthy (ck_targetPaymentAmountAtomic persisted)
      then io_throw (Js_error ''Target x402 authorization checkpoint was not persisted'')
      else io_ret \<lparr>bp_paymentReceipt = the (ck_purchaseReceipt persisted),
        bp_paymentProofHash = the (ck_paymentTransactionHash persisted),
        bp_amountAtomic = the (ck_targetPaymentAmountAtomic persisted)\<rparr>)))"

definition runCrossChainProcurementPhase :: "platform \<Rightarrow> 'w pipeline_deps \<Rightarrow> 'w payer_registration \<Rightarrow> string \<Rightarrow> checkpoint
    \<Rightarrow> compiled_plan \<Rightarrow> quote \<Rightarrow> run_status \<Rightarrow> ('w, procured) io" where
  "runCrossChainProcurementPhase P D X runId checkpoint plan quote status =
    (let endpoint = qr_x402Endpoint (q_request quote) in
     io_bind (pd_now D) (\<lambda>now.
     io_bind (io_lift (target_host P endpoint)) (\<lambda>host.
     io_then (io_lift (authorizeProcurement D X runId plan quote host status (seconds now)))
     (io_then (io_when (pr_mode X = BRIDGE_THEN_PAY) (fundDestinationByBridge D X runId checkpoint (seconds now)))
     (io_then (recordLeg D (payment_leg X runId Leg_PENDING None (exact_detail endpoint)))
     (io_bind (authorizeTargetPayment D X runId checkpoint endpoint) (\<lambda>payment.
     io_then (recordLeg D (payment_leg X runId Leg_CONFIRMED (Some (bp_amountAtomic payment)) (exact_detail endpoint)))
     (io_bind (io_lift (js_bigint (bp_amountAtomic payment))) (\<lambda>amount.
     io_ret \<lparr>bt_purchaseAmount = amount, bt_paymentTransactionHash = bp_paymentProofHash payment,
       bt_purchaseReceipt = bp_paymentReceipt payment, bt_paymentHeaderName = ''payment-signature''\<rparr>)))))))))"

section \<open>Procuring\<close>

text \<open>
  The procurement step of \<open>runOrchestratorPipeline\<close>: a target on another chain is paid by the payer registered
  for that chain, or not at all.
\<close>

definition procure :: "platform \<Rightarrow> 'w pipeline_deps \<Rightarrow> string \<Rightarrow> checkpoint \<Rightarrow> compiled_plan \<Rightarrow> quote \<Rightarrow> run_status
    \<Rightarrow> ('w, procured) io" where
  "procure P D runId checkpoint plan quote status =
    (case resolveCrossChainPayer D quote of
       Some X \<Rightarrow> runCrossChainProcurementPhase P D X runId checkpoint plan quote status
     | None \<Rightarrow>
        if targetIsRemote D quote then io_throw (Procurement_denied [''NO_PAYER_FOR_TARGET_CHAIN''])
        else runProcurementPhase P D runId checkpoint plan quote status)"

section \<open>What the ports keep\<close>

text \<open>
  An operation keeps what its ports keep.  \<open>spending_keeps\<close> names the ports of a procurement, its checkpoint store
  apart.
\<close>

definition bridge_keeps :: "('w \<Rightarrow> bool) \<Rightarrow> 'w bridge_config \<Rightarrow> bool" where
  "bridge_keeps I B \<longleftrightarrow> (\<forall>i. io_keeps I (bg_quote B i)) \<and> (\<forall>i q k. io_keeps I (bg_submit B i q k))
    \<and> (\<forall>t. io_keeps I (bg_getStatus B t))"

definition payer_keeps :: "('w \<Rightarrow> bool) \<Rightarrow> 'w payer_registration \<Rightarrow> bool" where
  "payer_keeps I X \<longleftrightarrow> (\<forall>e k. io_keeps I (pr_acquire X e k)) \<and> (\<forall>B. pr_bridge X = Some B \<longrightarrow> bridge_keeps I B)"

definition refund_keeps :: "('w \<Rightarrow> bool) \<Rightarrow> 'w refund_sender \<Rightarrow> bool" where
  "refund_keeps I S \<longleftrightarrow> io_keeps I (rf_reserveNonce S) \<and> (\<forall>n. io_keeps I (rf_isNonceConsumed S n))
    \<and> (\<forall>r. io_keeps I (rf_sendRefund S r))"

definition spending_keeps :: "('w \<Rightarrow> bool) \<Rightarrow> 'w pipeline_deps \<Rightarrow> bool" where
  "spending_keeps I D \<longleftrightarrow> io_keeps I (pd_now D) \<and> io_keeps I (pd_randomBytes D) \<and> (\<forall>q. io_keeps I (pd_acquire D q))
    \<and> (\<forall>R. pd_refundSender D = Some R \<longrightarrow> refund_keeps I R)
    \<and> (\<forall>f. pd_recordLeg D = Some f \<longrightarrow> (\<forall>l. io_keeps I (f l)))
    \<and> (\<forall>X \<in> set (pd_crossChainPayers D). payer_keeps I X)"

definition merge_keeps :: "('w \<Rightarrow> bool) \<Rightarrow> 'w pipeline_deps \<Rightarrow> bool" where
  "merge_keeps I D \<longleftrightarrow> (\<forall>i p. io_keeps I (pd_merge D i p))"

lemma keeps_case_prod [io_intros]: "(\<And>a b. io_keeps I (f a b)) \<Longrightarrow> io_keeps I (case p of (a, b) \<Rightarrow> f a b)"
  by (cases p) simp

lemma keeps_requirement:
  "(\<And>codes. io_keeps I (m codes)) \<Longrightarrow>
   io_keeps I (case e of Requirement_not_payable codes \<Rightarrow> m codes | _ \<Rightarrow> io_throw e)"
  by (cases e) (simp_all add: io_keeps_throw)

lemma spending_ports:
  assumes "spending_keeps I D"
  shows "io_keeps I (pd_now D)" "io_keeps I (pd_randomBytes D)" "io_keeps I (pd_acquire D q)"
    "pd_refundSender D = Some R \<Longrightarrow> io_keeps I (rf_reserveNonce R)"
    "pd_refundSender D = Some R \<Longrightarrow> io_keeps I (rf_isNonceConsumed R n)"
    "pd_refundSender D = Some R \<Longrightarrow> io_keeps I (rf_sendRefund R r)"
    "pd_recordLeg D = Some f \<Longrightarrow> io_keeps I (f l)"
    "X \<in> set (pd_crossChainPayers D) \<Longrightarrow> payer_keeps I X"
  using assms by (simp_all add: spending_keeps_def refund_keeps_def)

lemma payer_ports:
  assumes "payer_keeps I X"
  shows "io_keeps I (pr_acquire X e k)" "pr_bridge X = Some B \<Longrightarrow> io_keeps I (bg_quote B j)"
    "pr_bridge X = Some B \<Longrightarrow> io_keeps I (bg_submit B j bq k)" "pr_bridge X = Some B \<Longrightarrow> io_keeps I (bg_getStatus B s)"
  using assms by (simp_all add: payer_keeps_def bridge_keeps_def)

lemma merge_ports: "merge_keeps I D \<Longrightarrow> io_keeps I (pd_merge D i p)"
  by (simp add: merge_keeps_def)

lemma keeps_leg: "spending_keeps I D \<Longrightarrow> io_keeps I (recordLeg D l)"
  unfolding recordLeg_def by (intro io_intros spending_ports(7) | assumption)+

lemma keeps_refund:
  assumes "spending_keeps I D" and "merge_keeps I D"
  shows "io_keeps I (refund_unspent D i c quote token amount)"
  unfolding refund_unspent_def refund_rest_def refund_nonce_def
  by (intro io_intros spending_ports(4-6) [OF assms(1)] merge_ports [OF assms(2)] | assumption)+

lemma keeps_home_payment:
  assumes "spending_keeps I D" and "merge_keeps I D"
  shows "io_keeps I (home_payment P D i c plan quote s)"
  unfolding home_payment_def sign_payment_def Let_def
  by (intro io_intros spending_ports(1-3) [OF assms(1)] merge_ports [OF assms(2)])

lemma keeps_home:
  assumes "spending_keeps I D" and "merge_keeps I D"
  shows "io_keeps I (runProcurementPhase P D i c plan quote s)"
  unfolding runProcurementPhase_def by (intro io_intros keeps_home_payment [OF assms] keeps_refund [OF assms])

lemma keeps_fund:
  assumes "spending_keeps I D" and "merge_keeps I D" and "payer_keeps I X"
  shows "io_keeps I (fundDestinationByBridge D X i ck now)"
  unfolding fundDestinationByBridge_def bridge_transfer_def await_delivery_def
  by (intro io_intros spending_ports(1) [OF assms(1)] merge_ports [OF assms(2)] payer_ports(2-4) [OF assms(3)]
    keeps_leg [OF assms(1)] | assumption)+

lemma keeps_cross:
  assumes "spending_keeps I D" and "merge_keeps I D" and "payer_keeps I X"
  shows "io_keeps I (runCrossChainProcurementPhase P D X i c plan quote s)"
  unfolding runCrossChainProcurementPhase_def authorizeTargetPayment_def Let_def
  by (intro io_intros keeps_requirement spending_ports(1) [OF assms(1)] merge_ports [OF assms(2)] payer_ports(1) [OF assms(3)]
    keeps_leg [OF assms(1)] keeps_fund [OF assms])

lemma resolved_payer: "resolveCrossChainPayer D quote = Some X \<Longrightarrow> X \<in> set (pd_crossChainPayers D)"
  by (auto simp: resolveCrossChainPayer_def find_Some_iff split: if_splits)

lemma keeps_procure:
  assumes "spending_keeps I D" and "merge_keeps I D"
  shows "io_keeps I (procure P D i ck plan quote s)"
  unfolding procure_def
  by (intro io_intros keeps_home [OF assms] keeps_cross [OF assms] spending_ports(8) [OF assms(1)] resolved_payer)

section \<open>Ports that other workers run beside\<close>

text \<open>
  A port may change the world in any way that other workers can while it is awaited, so long as no checkpoint
  loses or changes a value: \<open>follows\<close> is that relation, \<open>leads\<close> of the store.
\<close>

definition spending_moves :: "('w \<Rightarrow> 'w \<Rightarrow> bool) \<Rightarrow> 'w pipeline_deps \<Rightarrow> bool" where
  "spending_moves follows D \<longleftrightarrow> (\<forall>w0. spending_keeps (follows w0) D)"

text \<open>What the store of the ports has for a run, at least.\<close>

definition stores :: "'w pipeline_deps \<Rightarrow> string \<Rightarrow> checkpoint \<Rightarrow> 'w \<Rightarrow> bool" where
  "stores D i p w \<longleftrightarrow> (\<exists>c. fst (pd_load D i w) = Inr c \<and> extends p c)"

definition receipt_patch :: "string \<Rightarrow> checkpoint" where
  "receipt_patch r = empty_checkpoint\<lparr>ck_purchaseReceipt := Some r\<rparr>"

definition payment_patch :: "bnb_payment \<Rightarrow> checkpoint" where
  "payment_patch p = empty_checkpoint\<lparr>ck_purchaseReceipt := Some (bp_paymentReceipt p),
     ck_paymentTransactionHash := Some (bp_paymentProofHash p), ck_targetPaymentAmountAtomic := Some (bp_amountAtomic p)\<rparr>"

lemma patch_extends:
  "extends (receipt_patch r) c \<longleftrightarrow> ck_purchaseReceipt c = Some r"
  "extends (payment_patch p) c \<longleftrightarrow> ck_purchaseReceipt c = Some (bp_paymentReceipt p)
     \<and> ck_paymentTransactionHash c = Some (bp_paymentProofHash p) \<and> ck_targetPaymentAmountAtomic c = Some (bp_amountAtomic p)"
  by (auto simp: extends_def receipt_patch_def payment_patch_def empty_checkpoint_def)

lemma truthy_Some: "truthy x \<Longrightarrow> x = Some (the x)"
  by (cases x) simp_all

lemma truthy_iff: "truthy x \<Longrightarrow> x = Some y \<longleftrightarrow> y = the x"
  by (cases x) auto

lemma stores_mono: "stores D i c w \<Longrightarrow> extends p c \<Longrightarrow> stores D i p w"
  unfolding stores_def by (meson extends_trans)

text \<open>A procurement's result is what the checkpoint of its run records.\<close>

definition recorded :: "platform \<Rightarrow> string \<Rightarrow> checkpoint \<Rightarrow> procured \<Rightarrow> bool" where
  "recorded P i c b \<longleftrightarrow> ck_purchaseReceipt c = Some (bt_purchaseReceipt b)
    \<and> (if bt_paymentHeaderName b = ''x-payment''
        then read_payment P i (bt_purchaseReceipt b) = Inr (bt_purchaseAmount b, bt_paymentTransactionHash b)
        else bt_paymentHeaderName b = ''payment-signature''
          \<and> ck_paymentTransactionHash c = Some (bt_paymentTransactionHash b)
          \<and> (\<exists>a. ck_targetPaymentAmountAtomic c = Some a \<and> js_bigint a = Inr (bt_purchaseAmount b)))"

lemma recorded_mono: "recorded P i c b \<Longrightarrow> extends c d \<Longrightarrow> recorded P i d b"
  unfolding recorded_def by (auto dest: extendsD split: if_splits)

lemma recorded_unique:
  assumes "recorded P i c b" and "recorded P i c b1"
  shows "bt_purchaseReceipt b1 = bt_purchaseReceipt b"
    and "bt_paymentHeaderName b1 = bt_paymentHeaderName b \<Longrightarrow> b1 = b"
  using assms by (auto simp: recorded_def split: if_splits intro!: procured.equality)

text \<open>A worker's ports: its checkpoint store is \<open>load\<close> and \<open>merge\<close>, and the others may be awaited beside other workers.\<close>

definition worker :: "(string \<Rightarrow> ('w, checkpoint) io) \<Rightarrow> (string \<Rightarrow> checkpoint \<Rightarrow> ('w, checkpoint) io) \<Rightarrow> ('w \<Rightarrow> 'w \<Rightarrow> bool)
    \<Rightarrow> 'w pipeline_deps \<Rightarrow> bool" where
  "worker load merge follows D \<longleftrightarrow> pd_load D = load \<and> pd_merge D = merge \<and> spending_moves follows D"

context write_once_store begin

lemma keeps_merge: "io_keeps (leads w0) (merge i p)"
  by (rule io_keepsI) (use merge_leads leads_trans in blast)

lemma leads_stores: "pd_load D = load \<Longrightarrow> leads w w1 \<Longrightarrow> stores D i p w \<Longrightarrow> stores D i p w1"
  unfolding stores_def leads_def by (metis extends_trans)

lemma merge_stores:
  "pd_load D = load \<Longrightarrow> merge i p w = (Inr c, w1) \<Longrightarrow> extends q c \<Longrightarrow> stores D i q w1"
  using merge_returns by (auto simp: stores_def)

lemma worker_keeps:
  assumes "worker load merge leads D"
  shows "spending_keeps (leads w0) D" "merge_keeps (leads w0) D"
  using assms by (simp_all add: worker_def spending_moves_def merge_keeps_def keeps_merge)

lemma keeps_leads: "(\<And>w0. io_keeps (leads w0) m) \<Longrightarrow> m w = (r, w1) \<Longrightarrow> leads w w1"
  by (metis io_keepsE leads_refl)

lemma sign_payment_stores:
  assumes "worker load merge leads D" and "sign_payment P D i e n ceiling w = (Inr r, w1)"
  shows "stores D i (receipt_patch r) w1"
  using assms by (auto simp: worker_def sign_payment_def io_ok patch_extends truthy_iff split: if_splits intro!: merge_stores)

lemma home_payment_stores:
  assumes D: "worker load merge leads D" and ck: "stores D i ck w"
    and run: "home_payment P D i ck plan quote s w = (Inr (token, r, amount, nonce), w1)"
  shows "stores D i ck w1 \<and> stores D i (receipt_patch r) w1 \<and> read_payment P i r = Inr (amount, nonce)"
proof -
  have kept: "stores D i ck w1" using leads_stores [OF _ keeps_leads [OF keeps_home_payment [OF worker_keeps [OF D]] run] ck] D
    by (simp add: worker_def)
  have "stores D i (receipt_patch r) w1"
  proof (cases "truthy (ck_purchaseReceipt ck)")
    case True
    then have "extends (receipt_patch r) ck"
      using run by (auto simp: home_payment_def Let_def io_ok split_paired_all patch_extends truthy_iff)
    with kept show ?thesis by (rule stores_mono)
  next
    case False
    then have "\<exists>e n ceiling w2. sign_payment P D i e n ceiling w2 = (Inr r, w1)"
      using run by (auto simp: home_payment_def Let_def io_ok split_paired_all)
    then show ?thesis using sign_payment_stores [OF D] by blast
  qed
  moreover have "read_payment P i r = Inr (amount, nonce)"
    using run by (auto simp: home_payment_def Let_def io_ok split_paired_all)
  ultimately show ?thesis using kept by blast
qed

lemma home_records:
  assumes D: "worker load merge leads D" and ck: "stores D i ck w"
    and run: "runProcurementPhase P D i ck plan quote s w = (Inr b, w1)"
  shows "\<exists>c. stores D i c w1 \<and> recorded P i c b"
proof -
  obtain token r amount nonce w2 where pay: "home_payment P D i ck plan quote s w = (Inr (token, r, amount, nonce), w2)"
    and refund: "refund_unspent D i ck quote token amount w2 = (Inr (), w1)"
    and b: "b = \<lparr>bt_purchaseAmount = amount, bt_paymentTransactionHash = nonce, bt_purchaseReceipt = r,
       bt_paymentHeaderName = ''x-payment''\<rparr>"
    using run by (auto simp: runProcurementPhase_def io_ok split_paired_all)
  have "stores D i (receipt_patch r) w1"
    using leads_stores [OF _ keeps_leads [OF keeps_refund [OF worker_keeps [OF D]] refund]] home_payment_stores [OF D ck pay] D
    by (auto simp: worker_def)
  then show ?thesis using home_payment_stores [OF D ck pay] by (auto simp: recorded_def receipt_patch_def b)
qed

lemma checked_bind:
  assumes "io_bind m (\<lambda>a. io_bind (n a) (\<lambda>c. if bad c then io_throw e else io_ret (g c))) w = (Inr p, w1)"
  shows "\<exists>a w2 c. n a w2 = (Inr c, w1) \<and> \<not> bad c \<and> p = g c"
  using assms by (auto simp: io_ok split: if_splits)

lemma target_payment_stores:
  assumes "worker load merge leads D" and "authorizeTargetPayment D X i ck e w = (Inr p, w1)"
  shows "extends (payment_patch p) ck \<or> stores D i (payment_patch p) w1"
proof (cases "truthy (ck_purchaseReceipt ck) \<and> truthy (ck_paymentTransactionHash ck) \<and> truthy (ck_targetPaymentAmountAtomic ck)")
  case True
  note run = assms(2) [unfolded authorizeTargetPayment_def if_P [OF True] io_ret_apply prod.inject sum.inject]
  have "extends (payment_patch p) ck"
    unfolding patch_extends conjunct1 [OF run, symmetric] using True by (simp add: truthy_iff)
  then show ?thesis ..
next
  case False
  from checked_bind [OF assms(2) [unfolded authorizeTargetPayment_def if_not_P [OF False]]]
  obtain q w2 c where "pd_merge D i q w2 = (Inr c, w1)" "extends (payment_patch p) c"
    by (auto simp: patch_extends truthy_iff)
  then show ?thesis using assms(1) by (auto simp: worker_def intro!: merge_stores)
qed

lemma cross_ok:
  assumes "runCrossChainProcurementPhase P D X i ck plan quote s w = (Inr b, w1)"
  obtains p w2 w3 where "(\<exists>e. authorizeTargetPayment D X i ck e w2 = (Inr p, w3))" and "\<exists>l. recordLeg D l w3 = (Inr (), w1)"
    and "js_bigint (bp_amountAtomic p) = Inr (bt_purchaseAmount b)" and "bt_paymentHeaderName b = ''payment-signature''"
    and "bt_paymentTransactionHash b = bp_paymentProofHash p" and "bt_purchaseReceipt b = bp_paymentReceipt p"
  using assms by (clarsimp simp: runCrossChainProcurementPhase_def Let_def io_ok) (rule that, blast, blast, auto)

lemma cross_records:
  assumes D: "worker load merge leads D" and X: "X \<in> set (pd_crossChainPayers D)" and ck: "stores D i ck w"
    and run: "runCrossChainProcurementPhase P D X i ck plan quote s w = (Inr b, w1)"
  shows "\<exists>c. stores D i c w1 \<and> recorded P i c b"
proof -
  have payer: "payer_keeps (leads w0) X" for w0 by (rule spending_ports(8) [OF worker_keeps(1) [OF D] X])
  have load: "pd_load D = load" using D by (simp add: worker_def)
  obtain p w2 w3 where steps: "\<exists>e. authorizeTargetPayment D X i ck e w2 = (Inr p, w3)" "\<exists>l. recordLeg D l w3 = (Inr (), w1)"
    and b: "js_bigint (bp_amountAtomic p) = Inr (bt_purchaseAmount b)" "bt_paymentHeaderName b = ''payment-signature''"
      "bt_paymentTransactionHash b = bp_paymentProofHash p" "bt_purchaseReceipt b = bp_paymentReceipt p"
    by (rule cross_ok [OF run])
  obtain e l where pay: "authorizeTargetPayment D X i ck e w2 = (Inr p, w3)" and leg: "recordLeg D l w3 = (Inr (), w1)"
    using steps by (elim exE)
  have "stores D i (payment_patch p) w1"
    using target_payment_stores [OF D pay]
  proof
    assume "extends (payment_patch p) ck"
    with leads_stores [OF load keeps_leads [OF keeps_cross [OF worker_keeps [OF D] payer] run] ck] show ?thesis by (rule stores_mono)
  next
    assume "stores D i (payment_patch p) w3"
    then show ?thesis by (rule leads_stores [OF load keeps_leads [OF keeps_leg [OF worker_keeps(1) [OF D]] leg]])
  qed
  then show ?thesis using b by (auto simp: recorded_def payment_patch_def)
qed

lemma procure_records:
  assumes D: "worker load merge leads D" and ck: "stores D i ck w" and run: "procure P D i ck plan quote s w = (Inr b, w1)"
  shows "\<exists>c. stores D i c w1 \<and> recorded P i c b"
proof (cases "resolveCrossChainPayer D quote")
  case None
  then show ?thesis using run home_records [OF D ck] by (auto simp: procure_def split: if_splits)
next
  case (Some X)
  then have "X \<in> set (pd_crossChainPayers D)" by (rule resolved_payer)
  then show ?thesis using cross_records [OF D _ ck, of X P plan quote s b w1] run by (simp add: procure_def Some)
qed

lemma procurements_agree:
  assumes D: "worker load merge leads D" "worker load merge leads D1"
    and loaded: "stores D i ck w" "stores D1 i ck1 v"
    and runs: "procure P D i ck plan quote s w = (Inr b, w1)" "procure P D1 i ck1 plan1 quote1 s1 v = (Inr b1, v1)"
    and later: "leads w1 t" "leads v1 t"
  shows "bt_purchaseReceipt b1 = bt_purchaseReceipt b
    \<and> (bt_paymentHeaderName b1 = bt_paymentHeaderName b \<longrightarrow> b1 = b)"
proof -
  have load: "pd_load D = load" "pd_load D1 = load" using D by (simp_all add: worker_def)
  obtain c c1 where c: "stores D i c w1" "recorded P i c b" and c1: "stores D1 i c1 v1" "recorded P i c1 b1"
    using procure_records [OF D(1) loaded(1) runs(1)] procure_records [OF D(2) loaded(2) runs(2)] by blast
  obtain d where "fst (load i t) = Inr d" "extends c d" "extends c1 d"
    using leads_stores [OF load(1) later(1) c(1)] leads_stores [OF load(2) later(2) c1(1)] load
    by (auto simp: stores_def)
  then have "recorded P i d b" "recorded P i d b1" using c c1 recorded_mono by blast+
  then show ?thesis using recorded_unique by blast
qed

end

section \<open>Over the checkpoint table\<close>

text \<open>Every value a run's checkpoint had is there still.\<close>

definition read_checkpoint :: "checkpoint_table \<Rightarrow> string \<Rightarrow> checkpoint" where
  "read_checkpoint t i = (case t i of None \<Rightarrow> empty_checkpoint | Some row \<Rightarrow> parseRow row)"

definition table_follows :: "checkpoint_table \<times> 'e \<Rightarrow> checkpoint_table \<times> 'e \<Rightarrow> bool" where
  "table_follows w w1 \<longleftrightarrow> (\<forall>i. extends (read_checkpoint (fst w) i) (read_checkpoint (fst w1) i))"

abbreviation "table_load \<equiv> (\<lambda>i. on_store (load_checkpoint i))"
abbreviation "table_merge run_exists \<equiv> (\<lambda>i p. on_store (merge_checkpoint run_exists i p))"

lemma load_read: "load_checkpoint i t = (Inr (read_checkpoint t i), t)"
  by (simp add: load_checkpoint_def read_checkpoint_def)

lemma table_load_eq: "table_load i w = (Inr (read_checkpoint (fst w) i), w)"
  by (cases w) (simp add: on_store_def load_read)

interpretation table: write_once_store table_load "table_merge run_exists" for run_exists
proof
  fix i j p c c0 n e r and w w1 :: "checkpoint_table \<times> 'e"
  obtain t x where w: "w = (t, x)" by (cases w)
  obtain t1 x1 where w1: "w1 = (t1, x1)" by (cases w1)
  note ops = w w1 on_store_ok table_load_eq load_read
  show "snd (table_load i w) = w" by (simp add: ops)
  show "table_merge run_exists i p w = (Inl e, w1) \<Longrightarrow> w1 = w"
    using checkpoints.merge_refused [of run_exists i p t e t1] by (auto simp: ops)
  show "table_merge run_exists i p w = (Inr c, w1) \<Longrightarrow> fst (table_load i w1) = Inr c"
    using checkpoints.merge_returns [of run_exists i p t c t1] by (auto simp: ops)
  show "table_merge run_exists i p w = (Inr c, w1) \<Longrightarrow> fst (table_load i w) = Inr c0 \<Longrightarrow> extends c0 c"
    using checkpoints.merge_extends [of run_exists i p t c t1 c0] by (auto simp: ops)
  show "table_merge run_exists i p w = (r, w1) \<Longrightarrow> j \<noteq> i \<Longrightarrow> fst (table_load j w1) = fst (table_load j w)"
    using checkpoints.merge_other [of run_exists i p t r t1 j] by (auto simp: ops)
  show "table_merge run_exists i p w = (Inr c, w1) \<Longrightarrow> ck_refundNonce p = Some n \<Longrightarrow> ck_refundNonce c \<noteq> None"
    using checkpoints.merge_refund [of run_exists i p t c t1 n] by (auto simp: ops)
qed

lemma table_leads: "table.leads = table_follows"
  unfolding fun_eq_iff table.leads_def table_follows_def table_load_eq by auto

section \<open>Calls within contract\<close>

definition checked_refunds :: "(refund_order \<Rightarrow> 'w \<Rightarrow> bool) \<Rightarrow> 'w pipeline_deps \<Rightarrow> 'w pipeline_deps" where
  "checked_refunds G D = D\<lparr>pd_refundSender := map_option (\<lambda>R. R\<lparr>rf_sendRefund := \<lambda>r. only_if (G r) (rf_sendRefund R r)\<rparr>)
     (pd_refundSender D)\<rparr>"

definition refund_due :: "platform \<Rightarrow> string \<Rightarrow> quote \<Rightarrow> checkpoint \<Rightarrow> refund_order \<Rightarrow> bool" where
  "refund_due P i quote c r \<longleftrightarrow> rf_toAddress r = qr_requesterAddress (q_request quote) \<and> 0 < rf_valueAtomic r
    \<and> ck_refundNonce c = Some (rf_nonce r)
    \<and> (\<exists>receipt amount nonce budget. ck_purchaseReceipt c = Some receipt \<and> read_payment P i receipt = Inr (amount, nonce)
        \<and> js_bigint (q_refundableToolBudgetAtomic quote) = Inr budget \<and> rf_valueAtomic r = budget - amount)"

lemma checked_refunds_simps [simp]:
  "pd_now (checked_refunds G D) = pd_now D" "pd_randomBytes (checked_refunds G D) = pd_randomBytes D"
  "pd_acquire (checked_refunds G D) = pd_acquire D" "pd_merge (checked_refunds G D) = pd_merge D"
  "pd_procurementAllowedAssets (checked_refunds G D) = pd_procurementAllowedAssets D"
  "pd_shipyardAgentId (checked_refunds G D) = pd_shipyardAgentId D"
  "pd_refundSender (checked_refunds G D) =
     map_option (\<lambda>R. R\<lparr>rf_sendRefund := \<lambda>r. only_if (G r) (rf_sendRefund R r)\<rparr>) (pd_refundSender D)"
  by (simp_all add: checked_refunds_def)

lemma checked_refunds_parts:
  "sign_payment P (checked_refunds G D) = sign_payment P D" "context_at (checked_refunds G D) = context_at D"
  "refund_nonce (checked_refunds G D) (R\<lparr>rf_sendRefund := f\<rparr>) = refund_nonce D R"
  by (simp_all add: fun_eq_iff sign_payment_def context_at_def refund_nonce_def cong: option.case_cong)

definition checked_payer :: "('w \<Rightarrow> bool) \<Rightarrow> 'w payer_registration \<Rightarrow> 'w payer_registration" where
  "checked_payer G X = X\<lparr>pr_acquire := \<lambda>e k. only_if G (pr_acquire X e k)\<rparr>"

definition delivery_seen :: "'w payer_registration \<Rightarrow> checkpoint \<Rightarrow> bool" where
  "delivery_seen X c \<longleftrightarrow> pr_mode X = BRIDGE_THEN_PAY \<longrightarrow>
    (\<exists>received hash. ck_bridgeAmountReceivedAtomic c = Some received \<and> ck_bridgeDestinationTransactionHash c = Some hash
      \<and> covers_ceiling received (pr_targetPaymentAmountAtomic X) = Inr True)"

lemma checked_payer_parts:
  "authorizeProcurement D (checked_payer G X) = authorizeProcurement D X" "pr_mode (checked_payer G X) = pr_mode X"
  "fundDestinationByBridge D (checked_payer G X) = fundDestinationByBridge D X"
  "payment_leg (checked_payer G X) = payment_leg X"
  by (simp_all add: checked_payer_def fun_eq_iff authorizeProcurement_def payment_leg_def fundDestinationByBridge_def
    bridge_intent_def bridge_transfer_def await_delivery_def cong: option.case_cong if_cong)

lemma acquire_checked:
  assumes "G w"
  shows "authorizeTargetPayment D (checked_payer G X) i ck e w = authorizeTargetPayment D X i ck e w"
proof (cases "truthy (ck_purchaseReceipt ck) \<and> truthy (ck_paymentTransactionHash ck) \<and> truthy (ck_targetPaymentAmountAtomic ck)")
  case True
  show ?thesis unfolding authorizeTargetPayment_def if_P [OF True] ..
next
  case False
  show ?thesis unfolding authorizeTargetPayment_def if_not_P [OF False] checked_payer_parts
    by (intro bind_cong refl) (simp add: checked_payer_def io_catch_apply assms)
qed

definition delivery_patch :: "string \<Rightarrow> string \<Rightarrow> checkpoint" where
  "delivery_patch received hash = empty_checkpoint\<lparr>ck_bridgeDestinationTransactionHash := Some hash,
     ck_bridgeAmountReceivedAtomic := Some received\<rparr>"

lemma delivery_extends:
  "extends (delivery_patch received hash) c \<longleftrightarrow> ck_bridgeAmountReceivedAtomic c = Some received
     \<and> ck_bridgeDestinationTransactionHash c = Some hash"
  by (auto simp: extends_def delivery_patch_def empty_checkpoint_def)

text \<open>What a home-chain payment may be asked for: the target's own endpoint, within an authorized mandate.\<close>

definition checked_acquire :: "(acquire_request \<Rightarrow> bool) \<Rightarrow> 'w pipeline_deps \<Rightarrow> 'w pipeline_deps" where
  "checked_acquire G D = D\<lparr>pd_acquire := \<lambda>q. only_if (\<lambda>_. G q) (pd_acquire D q)\<rparr>"

definition request_authorized :: "platform \<Rightarrow> 'w pipeline_deps \<Rightarrow> string \<Rightarrow> compiled_plan \<Rightarrow> quote \<Rightarrow> run_status
    \<Rightarrow> acquire_request \<Rightarrow> bool" where
  "request_authorized P D i plan quote status q \<longleftrightarrow> qa_endpoint q = qr_x402Endpoint (q_request quote)
    \<and> qa_allowedAssets q = pd_procurementAllowedAssets D
    \<and> (\<exists>host mandate deadline t. target_host P (qa_endpoint q) = Inr host
        \<and> buildMandate plan (qr_targetAgentId (q_request quote)) host deadline = Inr mandate
        \<and> qa_maxAmountAtomic q = md_maximumSinglePurchase mandate
        \<and> require_authorized mandate (purchase_of i (qr_targetAgentId (q_request quote)) host (qa_maxAmountAtomic q) ''procure'')
            (context_at D status t) = Inr ())"

lemma checked_acquire_simps [simp]:
  "pd_now (checked_acquire G D) = pd_now D" "pd_randomBytes (checked_acquire G D) = pd_randomBytes D"
  "pd_merge (checked_acquire G D) = pd_merge D" "pd_shipyardAgentId (checked_acquire G D) = pd_shipyardAgentId D"
  "pd_procurementAllowedAssets (checked_acquire G D) = pd_procurementAllowedAssets D"
  "pd_refundSender (checked_acquire G D) = pd_refundSender D"
  "pd_acquire (checked_acquire G D) = (\<lambda>q. only_if (\<lambda>_. G q) (pd_acquire D q))"
  by (simp_all add: checked_acquire_def)

lemma checked_acquire_parts:
  "context_at (checked_acquire G D) = context_at D" "refund_unspent (checked_acquire G D) = refund_unspent D"
  unfolding fun_eq_iff context_at_def refund_unspent_def refund_rest_def refund_nonce_def checked_acquire_simps by simp_all

lemma sign_checked:
  assumes "target_host P e = Inr host" and "buildMandate plan (qr_targetAgentId (q_request quote)) host deadline = Inr m"
    and "require_authorized m (purchase_of i (qr_targetAgentId (q_request quote)) host (md_maximumSinglePurchase m) ''procure'')
      (context_at D s t) = Inr u" and "e = qr_x402Endpoint (q_request quote)"
  shows "sign_payment P (checked_acquire (request_authorized P D i plan quote s) D) i e n (md_maximumSinglePurchase m) w
    = sign_payment P D i e n (md_maximumSinglePurchase m) w"
  unfolding sign_payment_def checked_acquire_simps using assms
  by (intro bind_cong refl only_if_apply) (auto simp: request_authorized_def)

lemma home_acquire_checked:
  "runProcurementPhase P (checked_acquire (request_authorized P D i plan quote s) D) i ck plan quote s w
    = runProcurementPhase P D i ck plan quote s w"
  unfolding runProcurementPhase_def checked_acquire_parts home_payment_def Let_def checked_acquire_simps
  by (rule bind_cong, rule bind_cong [OF refl], rule bind_cong [OF refl], clarsimp split: prod.splits,
    rule bind_cong [OF refl], rule bind_cong [OF refl], rule bind_cong [OF refl], rule then_cong [OF refl], rule bind_cong)
    (simp_all add: sign_checked [OF _ _ _ refl])

definition nonce_patch :: "int \<Rightarrow> checkpoint" where
  "nonce_patch n = empty_checkpoint\<lparr>ck_refundNonce := Some n\<rparr>"

lemma nonce_extends: "extends (nonce_patch n) c \<longleftrightarrow> ck_refundNonce c = Some n"
  by (auto simp: extends_def nonce_patch_def empty_checkpoint_def)

context write_once_store begin

lemma refund_nonce_stores:
  assumes "worker load merge leads D" and "stores D i ck w" and "refund_nonce D R i ck w = (Inr n, w1)"
  shows "stores D i (nonce_patch n) w1"
proof (cases "ck_refundNonce ck")
  case (Some m)
  then have "w1 = w" "extends (nonce_patch n) ck" using assms(3) by (simp_all add: refund_nonce_def nonce_extends)
  then show ?thesis using assms(2) stores_mono [of D i ck w "nonce_patch n"] by simp
next
  case None
  then obtain r w2 c where m: "merge i (nonce_patch r) w2 = (Inr c, w1)"
    and n: "n = (case ck_refundNonce c of Some n \<Rightarrow> n | None \<Rightarrow> r)"
    using assms(1,3) by (auto simp: refund_nonce_def io_ok worker_def nonce_patch_def)
  have "ck_refundNonce c \<noteq> None" using merge_refund [OF m] by (simp add: nonce_patch_def)
  then have "extends (nonce_patch n) c" using n by (auto simp: nonce_extends)
  then show ?thesis using merge_stores [OF _ m] assms(1) by (simp add: worker_def)
qed

lemma stores_together:
  assumes "stores D i p w" and "stores D i q w"
  obtains c where "fst (pd_load D i w) = Inr c" and "extends p c" and "extends q c"
  using assms by (auto simp: stores_def)

lemma refund_checked:
  assumes D: "worker load merge leads D" and ck: "stores D i ck w" and receipt: "stores D i (receipt_patch r) w"
    and amount: "read_payment P i r = Inr (amount, h)"
    and G: "G = (\<lambda>o' v. \<exists>c. fst (pd_load D i v) = Inr c \<and> refund_due P i quote c o')"
  shows "refund_unspent (checked_refunds G D) i ck quote token amount w = refund_unspent D i ck quote token amount w"
proof (cases "pd_refundSender D")
  case None
  then show ?thesis by (simp add: refund_unspent_def)
next
  case (Some R)
  have load: "pd_load D = load" using D by (simp add: worker_def)
  note moves = spending_ports(4,5) [OF worker_keeps(1) [OF D] Some]
  have nonce_keeps: "io_keeps (leads w0) (refund_nonce D R i ck)" for w0
    unfolding refund_nonce_def by (intro io_intros moves merge_ports [OF worker_keeps(2) [OF D]])
  let ?send = "\<lambda>o'. only_if (G o') (rf_sendRefund R o')"
  have sent: "?send o' w2 = rf_sendRefund R o' w2"
    if steps: "refund_nonce D R i ck w = (Inr n, w1)" "rf_isNonceConsumed R n w1 = (Inr b, w2)"
      and o': "o' = \<lparr>rf_tokenAddress = token, rf_toAddress = qr_requesterAddress (q_request quote),
        rf_valueAtomic = budget - amount, rf_nonce = n\<rparr>"
      and budget: "js_bigint (q_refundableToolBudgetAtomic quote) = Inr budget" "0 < budget - amount" for o' n b w1 w2 budget
  proof (rule only_if_apply)
    have "leads w w2" using keeps_leads [OF nonce_keeps steps(1)] keeps_leads [OF moves(2) steps(2)] by (rule leads_trans)
    then have "stores D i (receipt_patch r) w2" using receipt by (rule leads_stores [OF load])
    moreover have "stores D i (nonce_patch n) w2"
      using refund_nonce_stores [OF D ck steps(1)] by (rule leads_stores [OF load keeps_leads [OF moves(2) steps(2)]])
    ultimately obtain k where "fst (pd_load D i w2) = Inr k" "extends (receipt_patch r) k" "extends (nonce_patch n) k"
      by (rule stores_together)
    then show "G o' w2" using amount budget by (auto simp: G o' refund_due_def patch_extends nonce_extends)
  qed
  have rest: "refund_rest (checked_refunds G D) (R\<lparr>rf_sendRefund := ?send\<rparr>) i ck quote token (budget - amount) w
      = refund_rest D R i ck quote token (budget - amount) w"
    if b: "js_bigint (q_refundableToolBudgetAtomic quote) = Inr budget" "0 < budget - amount" for budget
    unfolding refund_rest_def checked_refunds_parts
    by (intro bind_cong refl) (simp_all add: sent [OF _ _ refl b] io_bind_apply cong: if_cong)
  show ?thesis
    by (cases "js_bigint (q_refundableToolBudgetAtomic quote)")
      (auto simp: refund_unspent_def Some io_bind_apply rest io_when_def)
qed

lemma home_checked:
  assumes D: "worker load merge leads D" and ck: "stores D i ck w"
    and G: "G = (\<lambda>o' v. \<exists>c. fst (pd_load D i v) = Inr c \<and> refund_due P i quote c o')"
  shows "runProcurementPhase P (checked_refunds G D) i ck plan quote s w = runProcurementPhase P D i ck plan quote s w"
proof -
  have "home_payment P (checked_refunds G D) = home_payment P D"
    unfolding fun_eq_iff home_payment_def checked_refunds_parts checked_refunds_simps by simp
  then show ?thesis unfolding runProcurementPhase_def
    by (auto intro!: bind_cong then_cong refund_checked [OF D _ _ _ G] dest!: home_payment_stores [OF D ck])
qed

lemma delivery_stores:
  assumes D: "worker load merge leads D" and run: "await_delivery D X B i ck now t s w = (Inr received, w1)"
  shows "\<exists>hash. extends (delivery_patch received hash) ck \<or> stores D i (delivery_patch received hash) w1"
proof (cases "truthy (ck_bridgeDestinationTransactionHash ck) \<and> truthy (ck_bridgeAmountReceivedAtomic ck)")
  case True
  then show ?thesis using run by (auto simp: await_delivery_def delivery_extends truthy_iff)
next
  case False
  obtain q c w2 w3 leg where m: "pd_merge D i q w2 = (Inr c, w3)" and leg: "recordLeg D leg w3 = (Inr (), w1)"
    and c: "extends (delivery_patch received (the (ck_bridgeDestinationTransactionHash c))) c"
    using run False
    by (simp add: await_delivery_def io_ok split: if_splits)
      (elim exE conjE, rule that, assumption, assumption, simp add: delivery_extends truthy_iff)
  have "stores D i (delivery_patch received (the (ck_bridgeDestinationTransactionHash c))) w3"
    using merge_stores m c D by (auto simp: worker_def)
  then show ?thesis using leads_stores [OF _ keeps_leads [OF keeps_leg [OF worker_keeps(1) [OF D]] leg]] D by (auto simp: worker_def)
qed

lemma funded_stores:
  assumes D: "worker load merge leads D" and ck: "stores D i ck w"
    and run: "fundDestinationByBridge D X i ck now w = (Inr (), w1)" and X: "X \<in> set (pd_crossChainPayers D)"
  shows "\<exists>received hash. stores D i (delivery_patch received hash) w1
    \<and> covers_ceiling received (pr_targetPaymentAmountAtomic X) = Inr True"
proof -
  have payer: "payer_keeps (leads w0) X" for w0 by (rule spending_ports(8) [OF worker_keeps(1) [OF D] X])
  obtain B t s w2 received where await: "await_delivery D X B i ck now t s w2 = (Inr received, w1)"
    and covers: "covers_ceiling received (pr_targetPaymentAmountAtomic X) = Inr True"
    using run by (auto simp: fundDestinationByBridge_def io_ok split_paired_all split: option.splits)
  have "leads w w1" by (rule keeps_leads [where m = "fundDestinationByBridge D X i ck now", OF keeps_fund [OF worker_keeps [OF D] payer] run])
  then have kept: "stores D i ck w1" using leads_stores ck D by (simp add: worker_def)
  obtain hash where "extends (delivery_patch received hash) ck \<or> stores D i (delivery_patch received hash) w1"
    using delivery_stores [OF D await] by blast
  then have "stores D i (delivery_patch received hash) w1" using stores_mono [OF kept, of "delivery_patch received hash"] by argo
  then show ?thesis using covers by blast
qed

lemma cross_checked:
  assumes D: "worker load merge leads D" and ck: "stores D i ck w" and X: "X \<in> set (pd_crossChainPayers D)"
    and G: "G = (\<lambda>v. \<exists>c. fst (pd_load D i v) = Inr c \<and> delivery_seen X c)"
  shows "runCrossChainProcurementPhase P D (checked_payer G X) i ck plan quote s w
    = runCrossChainProcurementPhase P D X i ck plan quote s w"
  unfolding runCrossChainProcurementPhase_def Let_def checked_payer_parts
proof (rule bind_cong [OF refl], rule bind_cong [OF refl], rule then_cong [OF refl], rule then_cong [OF refl],
    rule then_cong [OF refl], rule bind_cong)
  fix now w0 host w2 u1 w3 u2 w4 u3 w5
  assume steps: "pd_now D w = (Inr now, w0)" "io_lift (target_host P (qr_x402Endpoint (q_request quote))) w0 = (Inr host, w2)"
    "io_lift (authorizeProcurement D X i plan quote host s (seconds now)) w2 = (Inr u1, w3)"
    "io_when (pr_mode X = BRIDGE_THEN_PAY) (fundDestinationByBridge D X i ck (seconds now)) w3 = (Inr u2, w4)"
    "recordLeg D (payment_leg X i Leg_PENDING None (exact_detail (qr_x402Endpoint (q_request quote)))) w4 = (Inr u3, w5)"
  have payer: "payer_keeps (leads w0) X" for w0 by (rule spending_ports(8) [OF worker_keeps(1) [OF D] X])
  have load: "pd_load D = load" using D by (simp add: worker_def)
  let ?fund = "io_when (pr_mode X = BRIDGE_THEN_PAY) (fundDestinationByBridge D X i ck (seconds now))"
  have same: "w2 = w0" "w3 = w2" using steps(2,3) by simp_all
  have "leads w w0" by (rule keeps_leads [where m = "pd_now D", OF spending_ports(1) [OF worker_keeps(1) [OF D]] steps(1)])
  then have kept: "stores D i ck w3" using leads_stores [OF load _ ck] same by simp
  have fund: "leads w3 w4" by (rule keeps_leads [where m = ?fund, OF _ steps(4)]) (intro io_intros keeps_fund [OF worker_keeps [OF D] payer])
  have leg: "leads w4 w5" by (rule keeps_leads [OF keeps_leg [OF worker_keeps(1) [OF D]] steps(5)])
  have "G w5"
  proof (cases "pr_mode X = BRIDGE_THEN_PAY")
    case True
    then obtain received hash where "stores D i (delivery_patch received hash) w4"
      "covers_ceiling received (pr_targetPaymentAmountAtomic X) = Inr True"
      using funded_stores [OF D kept _ X, of "seconds now" w4] steps(4) by auto
    moreover from this(1) have "stores D i (delivery_patch received hash) w5" by (rule leads_stores [OF load leg])
    ultimately show ?thesis by (auto simp: G delivery_seen_def stores_def delivery_extends)
  next
    case False
    then show ?thesis using leads_stores [OF load leg leads_stores [OF load fund kept]]
      by (auto simp: G delivery_seen_def stores_def)
  qed
  then show "authorizeTargetPayment D (checked_payer G X) i ck (qr_x402Endpoint (q_request quote)) w5
      = authorizeTargetPayment D X i ck (qr_x402Endpoint (q_request quote)) w5" by (rule acquire_checked)
qed simp

end

section \<open>Properties\<close>

definition table_worker :: "(string \<Rightarrow> bool) \<Rightarrow> (checkpoint_table \<times> 'e) pipeline_deps \<Rightarrow> bool" where
  "table_worker run_exists D \<longleftrightarrow> worker table_load (table_merge run_exists) table_follows D"

lemma table_worker: "table_worker X D \<Longrightarrow> worker table_load (table_merge X) table.leads D"
  by (simp add: table_worker_def table_leads)

lemma table_stores: "table_worker X D \<Longrightarrow> stores D i p w \<longleftrightarrow> extends p (read_checkpoint (fst w) i)"
  by (simp add: table_worker_def worker_def stores_def table_load_eq)

lemma procure_follows: "table_worker X D \<Longrightarrow> procure P D i ck plan quote s w = (r, w1) \<Longrightarrow> table_follows w w1"
  using table.keeps_leads [OF keeps_procure [OF table.worker_keeps [OF table_worker]]] by (simp add: table_leads)

text \<open>
  C24: a run is paid for with one payment.  Whatever two workers procure for a run, each with its own ports and the
  checkpoint it loaded at some time before, and however their steps and those of others interleave, the header
  they hand on is the same, and on the same chain so are its amount and hash.
\<close>

theorem one_payment_per_run:
  assumes "table_worker X D" and "table_worker X D1"
    and "extends ck (read_checkpoint (fst w) i)" and "extends ck1 (read_checkpoint (fst v) i)"
    and "procure P D i ck plan quote s w = (Inr b, w1)" and "procure P D1 i ck1 plan1 quote1 s1 v = (Inr b1, v1)"
    and "table_follows w1 t" and "table_follows v1 t"
  shows "bt_purchaseReceipt b1 = bt_purchaseReceipt b \<and> (bt_paymentHeaderName b1 = bt_paymentHeaderName b \<longrightarrow> b1 = b)"
  by (rule table.procurements_agree [OF assms(1,2) [THEN table_worker] _ _ assms(5,6)])
    (use assms in \<open>simp_all add: table_stores table_leads\<close>)

text \<open>
  C28: every refund a home-chain procurement sends goes to the requester, for exactly what the recorded payment
  left of the tool budget, at the nonce the run's checkpoint keeps, so a repetition cannot pay it twice.
\<close>

theorem refunds_pay_the_rest_at_the_kept_nonce:
  assumes "table_worker X D" and "extends ck (read_checkpoint (fst w) i)"
  shows "runProcurementPhase P (checked_refunds (\<lambda>r v. refund_due P i quote (read_checkpoint (fst v) i) r) D) i ck plan quote s w
    = runProcurementPhase P D i ck plan quote s w"
  by (rule table.home_checked [OF table_worker [OF assms(1)]])
    (use assms in \<open>simp_all add: table_stores\<close>, simp add: table_worker_def worker_def table_load_eq)

text \<open>
  C30: on another chain the target's payment is authorized only after the bridge's delivery was observed, its
  transaction recorded and its amount at least the payment's ceiling, when the payer's mode is to bridge first.
\<close>

theorem target_paid_after_delivery:
  assumes "table_worker X D" and "extends ck (read_checkpoint (fst w) i)" and "R \<in> set (pd_crossChainPayers D)"
  shows "runCrossChainProcurementPhase P D (checked_payer (\<lambda>v. delivery_seen R (read_checkpoint (fst v) i)) R) i ck plan quote s w
    = runCrossChainProcurementPhase P D R i ck plan quote s w"
  by (rule table.cross_checked [OF table_worker [OF assms(1)] _ assms(3)])
    (use assms in \<open>simp_all add: table_stores\<close>, simp add: table_worker_def worker_def table_load_eq)

text \<open>
  A home-chain payment is signed only for the target's own endpoint and the configured assets, with the
  mandate's single purchase limit as its ceiling, and only when the policy authorizes a purchase of that much.
\<close>

theorem signed_only_when_authorized:
  "runProcurementPhase P (checked_acquire (request_authorized P D i plan quote s) D) i ck plan quote s w
    = runProcurementPhase P D i ck plan quote s w"
  by (rule home_acquire_checked)

subsection \<open>Workers with a counter as their environment\<close>

type_synonym demo_world = "checkpoint_table \<times> nat"

definition demo_tick :: "'a \<Rightarrow> (demo_world, 'a) io" where
  "demo_tick a = (\<lambda>(t, n). (Inr a, (t, n + 1)))"

definition demo_payments :: platform where
  "demo_payments = demo_platform\<lparr>pf_parse_json := \<lambda>s. Some (header_json demo_header)\<rparr>"

definition demo_target :: quote where
  "demo_target = \<lparr>q_id = ''q1'', q_request = demo_request, q_capabilitySnapshot = JObj [(''chainId'', JNum 56),
       (''tokenAddress'', JStr demo_payer), (''receivingAddress'', JStr demo_payer)], q_targetChainId = None,
     q_lineItems = \<lparr>li_baseOrchestrationFeeAtomic = [], li_mandatoryToolBudgetAtomic = [], li_dynamicToolBudgetAtomic = [],
       li_modelInfrastructureReserveAtomic = [], li_chainStorageReserveAtomic = [], li_riskSupportReserveAtomic = []\<rparr>,
     q_totalAtomicAmount = ''1000'', q_refundableToolBudgetAtomic = ''500'', q_createdAt = [], q_expiresAt = [],
     q_quoteCommitment = []\<rparr>"

definition demo_paid_plan :: compiled_plan where
  "demo_paid_plan = \<lparr>cp_scenarios = [''payment-proof-replay''], cp_toolBudgetAtomic = ''500'', cp_riskLevel = LOW,
     cp_rationale = ''r''\<rparr>"

definition demo_refunds :: "demo_world refund_sender" where
  "demo_refunds = \<lparr>rf_reserveNonce = (\<lambda>(t, n). (Inr (int n), (t, n + 1))), rf_isNonceConsumed = (\<lambda>_. io_ret False),
     rf_sendRefund = (\<lambda>_. demo_tick demo_nonce)\<rparr>"

definition demo_remote_payer :: "demo_world payer_registration" where
  "demo_remote_payer = \<lparr>pr_chainId = 56, pr_mode = BRIDGE_THEN_PAY, pr_policyCostAtomic = ''100'',
     pr_targetPaymentAmountAtomic = ''100000'', pr_settlementAsset = demo_rail_asset ''56'',
     pr_destinationPayerAddress = demo_payer, pr_targetPayToAddress = None,
     pr_acquire = (\<lambda>_ _. demo_tick \<lparr>bp_paymentReceipt = ''receipt'', bp_paymentProofHash = demo_nonce,
       bp_amountAtomic = ''100000''\<rparr>),
     pr_bridge = Some \<lparr>bg_quote = (\<lambda>_. demo_tick (demo_bridge_quote ''100000'')), bg_submit = (\<lambda>_ _ _. demo_tick (''tr'', demo_nonce)),
       bg_getStatus = (\<lambda>_. demo_tick \<lparr>bs_status = Bridge_DESTINATION_FUNDED, bs_destinationTransactionHash = Some demo_nonce,
         bs_amountReceivedAtomic = Some ''100000'', bs_failureReason = None\<rparr>),
       bg_provider = ''stargate'', bg_fundingAsset = demo_rail_asset ''2345'', bg_sourceBridgeAmountAtomic = ''120000'',
       bg_sourceBridgePayerAddress = demo_payer, bg_maximumBridgeWaitSeconds = 1800\<rparr>\<rparr>"

definition demo_ports :: "demo_world pipeline_deps" where
  "demo_ports = \<lparr>pd_findRun = (\<lambda>_. io_ret None), pd_saveRun = (\<lambda>_ _. io_ret ()), pd_findQuote = (\<lambda>_. io_ret (Some demo_target)),
     pd_classify = (\<lambda>_. io_throw (Js_error [])), pd_mandatoryScenarios = [''payment-proof-replay''],
     pd_shipyardAgentId = ''shipyard'', pd_toolAgentId = ''agent'', pd_toolVersion = ''1.0.0'', pd_toolChainId = 56,
     pd_providerSignerAddress = None, pd_execute = (\<lambda>_ _. io_throw (Js_error [])),
     pd_acquire = (\<lambda>_ (t, n). (Inr \<lparr>ap_requirements = demo_requirements, ap_paymentHeader = ''header '' @ nat_to_string n,
       ap_authorization = pl_authorization (ph_payload demo_header)\<rparr>, (t, n + 1))),
     pd_procurementAllowedAssets = [demo_payer], pd_homeChainId = 2345, pd_crossChainPayers = [demo_remote_payer],
     pd_refundSender = Some demo_refunds, pd_sign = (\<lambda>_. io_ret ''0x11''), pd_hash_typed = tr_runId,
     pd_getEvidence = (\<lambda>_. io_ret None), pd_putEvidence = (\<lambda>_. io_ret ()), pd_publish = (\<lambda>_. io_ret ''ipfs://x''),
     pd_attestorAddress = demo_payer, pd_registryAddress = demo_payer, pd_attestorChainId = 2345,
     pd_submitAttestation = (\<lambda>_. demo_tick demo_nonce), pd_getAttestation = (\<lambda>_. io_ret None),
     pd_putAttestation = (\<lambda>_. io_ret ()), pd_load = table_load, pd_merge = table_merge (\<lambda>_. True), pd_recordLeg = None,
     pd_now = io_ret 1767225600000, pd_randomBytes = io_ret (replicate 64 (CHR ''a''))\<rparr>"

lemma demo_worker:
  "table_worker (\<lambda>_. True) demo_ports" "table_worker (\<lambda>_. True) (demo_ports\<lparr>pd_refundSender := None\<rparr>)"
  by (auto simp: table_worker_def worker_def spending_moves_def demo_ports_def demo_refunds_def demo_remote_payer_def
    demo_tick_def spending_keeps_def refund_keeps_def payer_keeps_def bridge_keeps_def table_follows_def
    intro!: io_keepsI)

definition demo_procurement :: "demo_world \<Rightarrow> procured res \<times> demo_world" where
  "demo_procurement = procure demo_payments (demo_ports\<lparr>pd_refundSender := None\<rparr>) ''run-1'' empty_checkpoint demo_paid_plan demo_target PROCURING"

text \<open>The second worker still holds the empty checkpoint, signs again, and hands on the first header.\<close>

theorem one_payment_per_run_witness:
  "\<exists>b b1 w1 w2. demo_procurement (Map.empty, 0) = (Inr b, w1) \<and> demo_procurement w1 = (Inr b1, w2)
     \<and> bt_purchaseReceipt b1 = bt_purchaseReceipt b"
proof -
  have "let r = demo_procurement (Map.empty, 0) in res_ok (fst r) \<and> res_ok (fst (demo_procurement (snd r)))"
    by code_simp
  then have "res_ok (fst (demo_procurement (Map.empty, 0)))" "res_ok (fst (demo_procurement (snd (demo_procurement (Map.empty, 0)))))"
    unfolding Let_def by argo+
  then obtain b w1 b1 w2 where run: "demo_procurement (Map.empty, 0) = (Inr b, w1)" "demo_procurement w1 = (Inr b1, w2)"
    unfolding res_ok_iff by (metis prod.collapse snd_conv)
  note runs = run [unfolded demo_procurement_def]
  have "table_follows w1 w2" "table_follows w2 w2"
    using procure_follows [OF demo_worker(2) runs(2)] by (simp_all add: table_follows_def)
  from one_payment_per_run [OF demo_worker(2) demo_worker(2) extends_empty extends_empty runs this] show ?thesis using run by blast
qed

theorem refunds_pay_the_rest_at_the_kept_nonce_witness:
  "runProcurementPhase demo_payments (checked_refunds
       (\<lambda>r v. refund_due demo_payments ''run-1'' demo_target (read_checkpoint (fst v) ''run-1'') r) demo_ports)
     ''run-1'' empty_checkpoint demo_paid_plan demo_target PROCURING (Map.empty, 0)
   = runProcurementPhase demo_payments demo_ports ''run-1'' empty_checkpoint demo_paid_plan demo_target PROCURING (Map.empty, 0)"
  by (rule refunds_pay_the_rest_at_the_kept_nonce [OF demo_worker(1) extends_empty])

theorem target_paid_after_delivery_witness:
  "runCrossChainProcurementPhase demo_payments demo_ports
       (checked_payer (\<lambda>v. delivery_seen demo_remote_payer (read_checkpoint (fst v) ''run-1'')) demo_remote_payer)
     ''run-1'' empty_checkpoint demo_paid_plan demo_target PROCURING (Map.empty, 0)
   = runCrossChainProcurementPhase demo_payments demo_ports demo_remote_payer
     ''run-1'' empty_checkpoint demo_paid_plan demo_target PROCURING (Map.empty, 0)"
  by (rule target_paid_after_delivery [OF demo_worker(1) extends_empty]) (simp add: demo_ports_def)

end
