(* ===== verification/Pipeline.thy ===== *)
theory Pipeline
  imports Procurement
begin

text \<open>
  The pipeline of a run (\<open>apps/orchestrator-worker/src/pipeline.ts\<close> and the other phases under \<open>pipeline/\<close>):
  risk analysis, procurement, execution, evidence and attestation, resumed from the persisted status and the
  checkpoint, and the finalization of a run that can no longer make progress.  The local variables of the
  pipeline are explicit state beside the world, so an error carries what they were when it was thrown.
\<close>

section \<open>The phases\<close>

definition scenario_names :: "string list" where
  "scenario_names = [''payment-proof-replay'', ''unpaid-access-denial'', ''tampered-receipt-rejection'']"

definition classification_of :: "'w pipeline_deps \<Rightarrow> quote \<Rightarrow> classification_input" where
  "classification_of D quote = (let r = q_request quote in
     \<lparr>ci_targetServiceId = qr_targetServiceId r, ci_targetVersionHash = qr_targetVersionHash r,
      ci_x402Endpoint = qr_x402Endpoint r, ci_openApiUrl = qr_openApiUrl r,
      ci_serviceSummary = ''Controlled demo x402 paid resource used to prove payment-proof replay handling for ''
        @ qr_targetServiceId r @ ''.'',
      ci_mandatoryScenarios = pd_mandatoryScenarios D, ci_availableScenarios = scenario_names,
      ci_maximumToolBudgetAtomic = q_refundableToolBudgetAtomic quote\<rparr>)"

definition runRiskAnalysisPhase :: "'w pipeline_deps \<Rightarrow> string \<Rightarrow> checkpoint \<Rightarrow> quote
    \<Rightarrow> ('w, compiled_plan \<times> risk_classification option) io" where
  "runRiskAnalysisPhase D runId checkpoint quote =
    (case ck_plan checkpoint of
       Some plan \<Rightarrow> io_ret (plan, ck_proposal checkpoint)
     | None \<Rightarrow>
        io_bind (pd_classify D (classification_of D quote)) (\<lambda>proposal.
        io_bind (io_lift (compileTestPlan proposal (pd_mandatoryScenarios D) (q_refundableToolBudgetAtomic quote))) (\<lambda>plan.
        io_bind (pd_merge D runId (empty_checkpoint\<lparr>ck_plan := Some plan, ck_proposal := Some proposal\<rparr>)) (\<lambda>_.
        io_ret (plan, Some proposal)))))"

subsection \<open>Execution\<close>

text \<open>
  The registry of executors is a plain object, so an id that names a member of \<open>Object.prototype\<close> finds that
  member.  Of these only \<open>constructor\<close> is a scenario id; calling it returns the context, which has no
  \<open>evidence\<close>.
\<close>

fun run_scenarios :: "platform \<Rightarrow> (delivery_request \<Rightarrow> ('w, delivery_attempt) io) \<Rightarrow> scenario_context \<Rightarrow> string list
    \<Rightarrow> ('w, stored_result list) io" where
  "run_scenarios P execute ctx [] = io_ret []"
| "run_scenarios P execute ctx (s # ss) =
    (case scenario_executor P execute s of
       Some f \<Rightarrow> io_bind (f ctx) (\<lambda>r. io_bind (run_scenarios P execute ctx ss) (\<lambda>rs. io_ret (Some r # rs)))
     | None \<Rightarrow>
        if s = ''constructor'' then io_bind (run_scenarios P execute ctx ss) (\<lambda>rs. io_ret (None # rs))
        else run_scenarios P execute ctx ss)"

text \<open>Reading a member of the evidence of every result.\<close>

definition with_evidence :: "stored_result list \<Rightarrow> scenario_result list res" where
  "with_evidence rs = res_map (\<lambda>r. case r of None \<Rightarrow> Inl (Type_error ''Cannot read properties of undefined'')
     | Some x \<Rightarrow> Inr x) rs"

definition all_attempts :: "stored_result list \<Rightarrow> attempt_evidence list res" where
  "all_attempts rs = res_bind (with_evidence rs) (\<lambda>xs. Inr (concat (map (\<lambda>x. re_attempts (sr_evidence x)) xs)))"

definition settlement_seen :: "attempt_evidence list \<Rightarrow> string option" where
  "settlement_seen as = (case find (\<lambda>a. truthy (ae_settlementTransactionHash a)) as of
     None \<Rightarrow> None | Some a \<Rightarrow> ae_settlementTransactionHash a)"

text \<open>A status code counts as seen when it is neither absent nor 0.\<close>

definition unanswered :: "attempt_evidence list \<Rightarrow> bool" where
  "unanswered as = (case find (\<lambda>a. ae_phase a = Phase_INITIAL) as of
     None \<Rightarrow> True | Some a \<Rightarrow> ae_statusCode a = None \<or> ae_statusCode a = Some 0)"

definition record_settlement :: "'w pipeline_deps \<Rightarrow> string \<Rightarrow> stored_result list \<Rightarrow> int \<Rightarrow> ('w, unit) io" where
  "record_settlement D runId results amount =
    io_bind (io_lift (all_attempts results)) (\<lambda>attempts.
    case settlement_seen attempts of
      None \<Rightarrow> io_throw (if unanswered attempts then Cross_chain_settlement_ambiguous runId
        else Js_error ''Controlled BNB target did not settle the checkpointed x402 authorization'')
    | Some hash \<Rightarrow>
        io_bind (pd_merge D runId (empty_checkpoint\<lparr>ck_targetPaymentTransactionHash := Some hash,
          ck_targetPaymentAmountAtomic := Some (int_to_string amount)\<rparr>)) (\<lambda>_. io_ret ()))"

definition verify_results :: "platform \<Rightarrow> stored_result list \<Rightarrow> string option \<Rightarrow> stored_result list res" where
  "verify_results P results signer =
    (if \<not> truthy signer then Inr results
     else res_bind (with_evidence results) (\<lambda>xs. Inr (map Some (verifyScenarioProvenance P xs signer))))"

definition target_route :: "platform \<Rightarrow> string \<Rightarrow> string res" where
  "target_route P endpoint =
    (case pf_new_url P endpoint None of None \<Rightarrow> Inl (Type_error ''Invalid URL'')
     | Some u \<Rightarrow> Inr (url_pathname u @ url_search u))"

definition context_of :: "quote \<Rightarrow> procured \<Rightarrow> string \<Rightarrow> scenario_context" where
  "context_of quote b route = \<lparr>sc_targetServiceId = qr_targetServiceId (q_request quote),
     sc_targetVersionHash = qr_targetVersionHash (q_request quote), sc_policyHash = qr_policyHash (q_request quote),
     sc_paymentReceipt = bt_purchaseReceipt b, sc_paymentHeaderName = bt_paymentHeaderName b,
     sc_paymentTransactionHash = bt_paymentTransactionHash b, sc_route = route\<rparr>"

definition execute_plan :: "platform \<Rightarrow> 'w pipeline_deps \<Rightarrow> string \<Rightarrow> compiled_plan \<Rightarrow> quote \<Rightarrow> procured
    \<Rightarrow> ('w, stored_result list \<times> int \<times> int) io" where
  "execute_plan P D runId plan quote b =
    (let endpoint = qr_x402Endpoint (q_request quote) in
     io_bind (pd_now D) (\<lambda>t0.
     io_bind (io_lift (target_route P endpoint)) (\<lambda>route.
     io_bind (run_scenarios P (pd_execute D endpoint) (context_of quote b route) (cp_scenarios plan)) (\<lambda>results.
     io_then (io_lift (ensure (results \<noteq> []) (Js_error ''No scenario in the compiled plan has a registered executor'')))
     (io_then (io_when (bt_paymentHeaderName b = ''payment-signature'')
       (record_settlement D runId results (bt_purchaseAmount b)))
     (io_bind (pd_now D) (\<lambda>t1.
     io_bind (pd_merge D runId (empty_checkpoint\<lparr>ck_evidence := Some results, ck_startedAt := Some (seconds t0),
       ck_completedAt := Some (seconds t1)\<rparr>)) (\<lambda>_.
     io_ret (results, seconds t0, seconds t1)))))))))"

definition runExecutionPhase :: "platform \<Rightarrow> 'w pipeline_deps \<Rightarrow> string \<Rightarrow> checkpoint \<Rightarrow> compiled_plan \<Rightarrow> quote
    \<Rightarrow> procured \<Rightarrow> ('w, stored_result list \<times> int \<times> int) io" where
  "runExecutionPhase P D runId checkpoint plan quote b =
    io_bind (case (ck_evidence checkpoint, ck_startedAt checkpoint, ck_completedAt checkpoint) of
        (Some rs, Some t0, Some t1) \<Rightarrow> io_ret (rs, t0, t1)
      | _ \<Rightarrow> execute_plan P D runId plan quote b) (\<lambda>(results, startedAt, completedAt).
    io_bind (io_lift (verify_results P results (pd_providerSignerAddress D))) (\<lambda>verified.
    io_ret (verified, startedAt, completedAt)))"

subsection \<open>Evidence\<close>

definition sign_receipt :: "platform \<Rightarrow> 'w pipeline_deps \<Rightarrow> string \<Rightarrow> quote \<Rightarrow> int \<Rightarrow> int \<Rightarrow> stored_result
    \<Rightarrow> ('w, tool_receipt) io" where
  "sign_receipt P D runId quote startedAt completedAt r =
    (case r of None \<Rightarrow> io_throw (Type_error ''Cannot read properties of undefined'')
     | Some x \<Rightarrow>
        io_bind (io_lift (buildUnsignedToolReceipt P (sr_evidence x) \<lparr>ri_runId = runId, ri_toolAgentId = pd_toolAgentId D,
          ri_targetAgentId = qr_targetAgentId (q_request quote), ri_targetVersionHash = qr_targetVersionHash (q_request quote),
          ri_policyHash = qr_policyHash (q_request quote), ri_chainTransactionHash = sr_chainTransactionHash x,
          ri_chainId = pd_toolChainId D, ri_startedAt = startedAt, ri_completedAt = completedAt,
          ri_toolVersion = pd_toolVersion D\<rparr>)) (\<lambda>unsigned.
        io_bind (pd_sign D unsigned) (\<lambda>signature.
        io_ret \<lparr>rcpt_unsigned = unsigned, rcpt_signature = signature\<rparr>)))"

fun level_name :: "risk_level \<Rightarrow> string" where
  "level_name LOW = ''LOW''"
| "level_name MEDIUM = ''MEDIUM''"
| "level_name HIGH = ''HIGH''"

definition pack_content :: "string \<Rightarrow> quote \<Rightarrow> compiled_plan \<Rightarrow> risk_classification option \<Rightarrow> scenario_result list
    \<Rightarrow> verdict \<Rightarrow> tool_receipt list \<Rightarrow> evidence_content" where
  "pack_content runId quote plan proposal xs result receipts = \<lparr>ec_runId = runId,
     ec_targetServiceId = qr_targetServiceId (q_request quote), ec_targetVersionHash = qr_targetVersionHash (q_request quote),
     ec_policyHash = qr_policyHash (q_request quote), ec_riskLevel = level_name (cp_riskLevel plan),
     ec_rationale = cp_rationale plan, ec_toolBudgetAtomic = cp_toolBudgetAtomic plan,
     ec_aiProposal = map_option (\<lambda>p. \<lparr>ap_riskLevel = level_name (rc_riskLevel p),
       ap_proposedScenarios = rc_proposedScenarios p, ap_proposedToolBudgetAtomic = rc_proposedToolBudgetAtomic p,
       ap_rationale = rc_rationale p\<rparr>) proposal,
     ec_scenarios = map (\<lambda>x. re_scenarioId (sr_evidence x)) xs,
     ec_scenarioTraces = map (\<lambda>x. \<lparr>st_scenarioId = re_scenarioId (sr_evidence x), st_attempts = re_attempts (sr_evidence x)\<rparr>) xs,
     ec_result = result, ec_toolReceipts = receipts\<rparr>"

definition runEvidencePhase :: "platform \<Rightarrow> 'w pipeline_deps \<Rightarrow> string \<Rightarrow> quote \<Rightarrow> compiled_plan \<Rightarrow> risk_classification option
    \<Rightarrow> stored_result list \<Rightarrow> int \<Rightarrow> int \<Rightarrow> verdict option \<Rightarrow> ('w, evidence_pack \<times> string \<times> verdict) io" where
  "runEvidencePhase P D runId quote plan proposal results startedAt completedAt forced =
    io_bind (io_mapM (sign_receipt P D runId quote startedAt completedAt) results) (\<lambda>receipts.
    io_bind (io_lift (with_evidence results)) (\<lambda>xs.
    let overall = (case forced of Some v \<Rightarrow> v | None \<Rightarrow> aggregateScenarioResult (map sr_evidence xs)) in
    io_bind (io_lift (buildEvidencePack P (pd_hash_typed D) (pack_content runId quote plan proposal xs overall receipts)))
      (\<lambda>pack.
    io_bind (pd_publish D (canonicalEvidencePackContent P (ep_publicManifest pack))) (\<lambda>uri.
    io_bind (pd_getEvidence D runId) (\<lambda>stored.
    io_then (case stored of Some _ \<Rightarrow> io_ret ()
      | None \<Rightarrow> io_bind (pd_now D) (\<lambda>t. pd_putEvidence D \<lparr>ev_pack_runId = runId,
          ev_pack_evidenceRoot = ep_evidenceRoot pack, ev_pack_toolReceiptRoot = ep_toolReceiptRoot pack,
          ev_pack_uri = uri, ev_pack_contentHash = ep_contentHash pack, ev_pack_publicManifest = ep_publicManifest pack,
          ev_pack_builtAt = to_iso_string t\<rparr>))
    (io_ret (pack, uri, overall)))))))"

subsection \<open>Attestation\<close>

fun result_of_verdict :: "verdict \<Rightarrow> run_result" where
  "result_of_verdict Verdict_PASS = PASS"
| "result_of_verdict Verdict_FAIL = FAIL"
| "result_of_verdict Verdict_INCONCLUSIVE = INCONCLUSIVE"

definition attestation_params_of :: "'w pipeline_deps \<Rightarrow> string \<Rightarrow> quote \<Rightarrow> string \<Rightarrow> string \<Rightarrow> int \<Rightarrow> evidence_pack \<Rightarrow> string
    \<Rightarrow> int \<Rightarrow> int \<Rightarrow> verdict \<Rightarrow> attestation_params" where
  "attestation_params_of D runId quote token proofHash paid pack uri spend completedAt result = (let r = q_request quote in
     \<lparr>at_runId = runId, at_targetAgentId = qr_targetAgentId r, at_targetServiceId = qr_targetServiceId r,
      at_targetVersionHash = qr_targetVersionHash r, at_policyHash = qr_policyHash r,
      at_customerPaymentProofHash = proofHash, at_toolReceiptRoot = ep_toolReceiptRoot pack,
      at_evidenceRoot = ep_evidenceRoot pack, at_evidenceURI = uri, at_requester = qr_requesterAddress r,
      at_shipyardAgent = pd_attestorAddress D, at_customerPaymentToken = token, at_toolSpendAtomic = spend,
      at_customerPaymentAtomic = paid, at_completedAt = completedAt, at_result = result_of_verdict result\<rparr>)"

definition runAttestationPhase :: "platform \<Rightarrow> 'w pipeline_deps \<Rightarrow> string \<Rightarrow> checkpoint \<Rightarrow> quote \<Rightarrow> string \<Rightarrow> string
    \<Rightarrow> evidence_pack \<Rightarrow> string \<Rightarrow> int \<Rightarrow> int \<Rightarrow> verdict \<Rightarrow> ('w, string) io" where
  "runAttestationPhase P D runId checkpoint quote proofHash paidAtomic pack uri spend completedAt result =
    io_bind (io_lift (snapshot_terms quote)) (\<lambda>(_, token, _).
    io_bind (io_lift (js_bigint paidAtomic)) (\<lambda>paid.
    io_bind (io_lift (buildAttestationInput P
      (attestation_params_of D runId quote token proofHash paid pack uri spend completedAt result))) (\<lambda>input.
    io_bind (if truthy (ck_attestationTransactionHash checkpoint)
      then io_ret (the (ck_attestationTransactionHash checkpoint))
      else io_bind (pd_submitAttestation D input) (\<lambda>hash.
        io_bind (pd_merge D runId (empty_checkpoint\<lparr>ck_attestationTransactionHash := Some hash\<rparr>)) (\<lambda>_. io_ret hash))) (\<lambda>hash.
    io_bind (pd_getAttestation D runId) (\<lambda>stored.
    io_then (case stored of Some _ \<Rightarrow> io_ret ()
      | None \<Rightarrow> io_bind (pd_now D) (\<lambda>t. pd_putAttestation D \<lparr>as_runId = runId, as_registryAddress = pd_registryAddress D,
          as_chainId = pd_attestorChainId D, as_transactionHash = hash, as_attestor = pd_attestorAddress D,
          as_expiresAt = to_iso_string (ai_expiresAt input * 1000), as_submittedAt = to_iso_string t\<rparr>))
    (io_ret hash))))))"

section \<open>The pipeline\<close>

text \<open>\<open>STATUS_ORDER\<close>, also the statuses the pipeline resumes from; an absent status has index -1.\<close>

definition status_order :: "run_status list" where
  "status_order = [FUNDED, ANALYZING, PLAN_COMPILED, PROCURING, EXECUTING, EVIDENCE_BUILDING, ATTESTING]"

fun index_of :: "'a \<Rightarrow> 'a list \<Rightarrow> int" where
  "index_of x [] = - 1"
| "index_of x (y # ys) = (if x = y then 0 else (let i = index_of x ys in if i = - 1 then - 1 else i + 1))"

definition resumable :: "run_status \<Rightarrow> bool" where
  "resumable s = List.member status_order s"

record pipe_locals =
  pl_current :: run_aggregate
  pl_advancedPastFunded :: bool

record pipe_run =
  pn_runId :: string
  pn_quoteId :: string
  pn_requestIdempotencyKey :: string

definition saved_record :: "pipe_run \<Rightarrow> run_aggregate \<Rightarrow> run_transitioned_event \<Rightarrow> run_record" where
  "saved_record N run ev = \<lparr>rec_aggregate = run, rec_quoteId = pn_quoteId N,
     rec_requestIdempotencyKey = pn_requestIdempotencyKey N, rec_paymentOrder = None, rec_uncommittedEvent = Some ev,
     rec_customerPaymentProofHash = None, rec_customerPaymentAtomic = None, rec_customerPaymentTransactionHash = None,
     rec_customerPaymentChainId = None\<rparr>"

text \<open>One transition of the current run, saved against the revision it was read at.\<close>

definition step_run :: "'w pipeline_deps \<Rightarrow> pipe_run \<Rightarrow> run_actor \<Rightarrow> run_status \<Rightarrow> ('w \<times> pipe_locals, unit) io" where
  "step_run D N actor to =
    io_bind (io_get (\<lambda>(w, l). pl_current l)) (\<lambda>run.
    io_bind (on_store (pd_now D)) (\<lambda>t.
    io_bind (io_lift (transitionRun run \<lparr>cmd_actor = actor, cmd_expectedRevision = run_revision run,
      cmd_idempotencyKey = ''orchestrator:'' @ pn_runId N @ '':'' @ status_name to, cmd_occurredAt = to_iso_string t,
      cmd_to = to\<rparr>)) (\<lambda>result.
    io_then (io_modify (\<lambda>(w, l). (w, l\<lparr>pl_current := tr_run result, pl_advancedPastFunded := True\<rparr>)))
    (case tr_event result of None \<Rightarrow> io_ret ()
     | Some ev \<Rightarrow> on_store (pd_saveRun D (saved_record N (tr_run result) ev) (run_revision (tr_run result) - 1))))))"

definition advance :: "'w pipeline_deps \<Rightarrow> pipe_run \<Rightarrow> run_actor \<Rightarrow> run_status \<Rightarrow> ('w \<times> pipe_locals, unit) io" where
  "advance D N actor to =
    io_bind (io_get (\<lambda>(w, l). run_status_of (pl_current l))) (\<lambda>s.
    if index_of to status_order \<le> index_of s status_order then io_ret () else step_run D N actor to)"

definition deliver :: "'w pipeline_deps \<Rightarrow> pipe_run \<Rightarrow> run_status \<Rightarrow> ('w \<times> pipe_locals, unit) io" where
  "deliver D N final =
    io_bind (io_get (\<lambda>(w, l). run_status_of (pl_current l))) (\<lambda>s.
    io_when (s \<noteq> final) (step_run D N ATTESTOR final))"

fun delivered_status :: "verdict \<Rightarrow> run_status" where
  "delivered_status Verdict_PASS = DELIVERED_PASS"
| "delivered_status Verdict_FAIL = DELIVERED_FAIL"
| "delivered_status Verdict_INCONCLUSIVE = DELIVERED_INCONCLUSIVE"

text \<open>The result: the final status and the hash of the attestation.\<close>

definition pipeline_steps :: "platform \<Rightarrow> 'w pipeline_deps \<Rightarrow> pipe_run \<Rightarrow> checkpoint \<Rightarrow> quote \<Rightarrow> string \<Rightarrow> string
    \<Rightarrow> ('w \<times> pipe_locals, run_status \<times> string) io" where
  "pipeline_steps P D N checkpoint quote proofHash paid =
    (let runId = pn_runId N in
     io_then (advance D N ORCHESTRATOR ANALYZING)
     (io_bind (on_store (runRiskAnalysisPhase D runId checkpoint quote)) (\<lambda>(plan, proposal).
     io_then (advance D N POLICY_ENGINE PLAN_COMPILED)
     (io_then (advance D N PROCUREMENT_WORKER PROCURING)
     (io_bind (io_get (\<lambda>(w, l). run_status_of (pl_current l))) (\<lambda>status.
     io_bind (on_store (procure P D runId checkpoint plan quote status)) (\<lambda>b.
     io_then (advance D N PROCUREMENT_WORKER EXECUTING)
     (io_bind (on_store (runExecutionPhase P D runId checkpoint plan quote b)) (\<lambda>(results, startedAt, completedAt).
     io_then (advance D N EXECUTION_WORKER EVIDENCE_BUILDING)
     (io_bind (on_store (runEvidencePhase P D runId quote plan proposal results startedAt completedAt None))
       (\<lambda>(pack, uri, overall).
     io_then (advance D N EVIDENCE_WORKER ATTESTING)
     (io_bind (on_store (runAttestationPhase P D runId checkpoint quote proofHash paid pack uri (bt_purchaseAmount b)
       completedAt overall)) (\<lambda>hash.
     io_then (deliver D N (delivered_status overall))
     (io_ret (delivered_status overall, hash)))))))))))))))"

text \<open>What leaves the \<open>catch\<close> of the pipeline.\<close>

definition rethrown :: "string \<Rightarrow> bool \<Rightarrow> exn \<Rightarrow> exn" where
  "rethrown runId advanced e =
    (case e of Procurement_denied _ \<Rightarrow> e | Payment_send_ambiguous _ \<Rightarrow> e | Bridge_delivery_pending _ \<Rightarrow> e
     | Cross_chain_settlement_ambiguous _ \<Rightarrow> e
     | _ \<Rightarrow> Orchestrator_pipeline (''Orchestrator pipeline failed for run '' @ runId) advanced e)"

definition guarded_steps :: "string \<Rightarrow> pipe_locals \<Rightarrow> ('w \<times> pipe_locals, 'a) io \<Rightarrow> ('w, 'a) io" where
  "guarded_steps runId l m = (\<lambda>w. case m (w, l) of
     (Inr a, (w1, l1)) \<Rightarrow> (Inr a, w1)
   | (Inl e, (w1, l1)) \<Rightarrow> (Inl (rethrown runId (pl_advancedPastFunded l1) e), w1))"

definition runOrchestratorPipeline :: "platform \<Rightarrow> 'w pipeline_deps \<Rightarrow> string \<Rightarrow> ('w, run_status \<times> string) io" where
  "runOrchestratorPipeline P D runId =
    io_bind (pd_findRun D runId) (\<lambda>found.
    case found of None \<Rightarrow> io_throw (Js_error (''Run not found: '' @ runId))
    | Some r \<Rightarrow>
      let run = rec_aggregate r in
      if \<not> resumable (run_status_of run) then io_throw (Run_not_ready_for_orchestration (status_name (run_status_of run)))
      else io_bind (pd_findQuote D (rec_quoteId r)) (\<lambda>q.
        case q of None \<Rightarrow> io_throw (Js_error (''Quote not found for run '' @ runId @ '': '' @ rec_quoteId r))
        | Some quote \<Rightarrow>
          if \<not> truthy (rec_customerPaymentProofHash r) \<or> \<not> truthy (rec_customerPaymentAtomic r)
          then io_throw (Js_error (''Run '' @ runId @ '' is FUNDED but is missing its recorded customer payment''))
          else io_bind (pd_load D runId) (\<lambda>checkpoint.
            guarded_steps runId \<lparr>pl_current = run, pl_advancedPastFunded = (run_status_of run \<noteq> FUNDED)\<rparr>
              (pipeline_steps P D \<lparr>pn_runId = runId, pn_quoteId = rec_quoteId r,
                 pn_requestIdempotencyKey = rec_requestIdempotencyKey r\<rparr> checkpoint quote
                 (the (rec_customerPaymentProofHash r)) (the (rec_customerPaymentAtomic r))))))"

section \<open>Finalizing a stuck run\<close>

definition finalizable_statuses :: "run_status list" where
  "finalizable_statuses = [FUNDED, ANALYZING, PLAN_COMPILED, PROCURING, EXECUTING, REPLANNING, EVIDENCE_BUILDING, ATTESTING]"

definition fallback_plan :: "string \<Rightarrow> compiled_plan" where
  "fallback_plan reason = \<lparr>cp_scenarios = [], cp_toolBudgetAtomic = ''0'', cp_riskLevel = HIGH,
     cp_rationale = ''Run finalized as INCONCLUSIVE before a test plan was compiled: '' @ reason\<rparr>"

definition receiptable :: "stored_result list \<Rightarrow> stored_result list res" where
  "receiptable rs =
    res_bind (with_evidence rs) (\<lambda>xs. Inr (map Some (filter (\<lambda>x. canBuildToolReceipt (sr_evidence x)) xs)))"

text \<open>
  The times of a run come from the repository as ISO dates; one that is not a date is refused here, where the
  code would go on with \<open>NaN\<close>.
\<close>

definition seconds_of :: "int option \<Rightarrow> string \<Rightarrow> int res" where
  "seconds_of t date = (case t of Some s \<Rightarrow> Inr s
     | None \<Rightarrow> (case date_parse date of Some ms \<Rightarrow> Inr (seconds ms) | None \<Rightarrow> Inl (Js_error ''Invalid time value'')))"

definition finalize_steps :: "platform \<Rightarrow> 'w pipeline_deps \<Rightarrow> pipe_run \<Rightarrow> checkpoint \<Rightarrow> quote \<Rightarrow> string \<Rightarrow> string \<Rightarrow> string
    \<Rightarrow> ('w \<times> pipe_locals, run_status \<times> string) io" where
  "finalize_steps P D N checkpoint quote proofHash paid reason =
    (let runId = pn_runId N; plan = (case ck_plan checkpoint of Some p \<Rightarrow> p | None \<Rightarrow> fallback_plan reason) in
     io_bind (io_get (\<lambda>(w, l). pl_current l)) (\<lambda>run.
     io_bind (io_lift (receiptable (case ck_evidence checkpoint of Some rs \<Rightarrow> rs | None \<Rightarrow> []))) (\<lambda>results.
     io_bind (io_lift (seconds_of (ck_startedAt checkpoint) (run_createdAt run))) (\<lambda>startedAt.
     io_bind (io_lift (seconds_of (ck_completedAt checkpoint) (run_updatedAt run))) (\<lambda>completedAt.
     io_then (io_when (run_status_of run = FUNDED) (advance D N ORCHESTRATOR ANALYZING))
     (io_then (advance D N SYSTEM EVIDENCE_BUILDING)
     (io_bind (on_store (runEvidencePhase P D runId quote plan (ck_proposal checkpoint) results startedAt completedAt
       (Some Verdict_INCONCLUSIVE))) (\<lambda>(pack, uri, overall).
     io_then (advance D N EVIDENCE_WORKER ATTESTING)
     (io_bind (io_lift (js_bigint (case ck_targetPaymentAmountAtomic checkpoint of Some a \<Rightarrow> a | None \<Rightarrow> ''0''))) (\<lambda>spend.
     io_bind (on_store (runAttestationPhase P D runId checkpoint quote proofHash paid pack uri spend completedAt
       Verdict_INCONCLUSIVE)) (\<lambda>hash.
     io_then (deliver D N DELIVERED_INCONCLUSIVE)
     (io_ret (DELIVERED_INCONCLUSIVE, hash)))))))))))))"

definition unguarded_steps :: "pipe_locals \<Rightarrow> ('w \<times> pipe_locals, 'a) io \<Rightarrow> ('w, 'a) io" where
  "unguarded_steps l m = (\<lambda>w. case m (w, l) of (r, (w1, l1)) \<Rightarrow> (r, w1))"

definition finalizeRunAsInconclusive :: "platform \<Rightarrow> 'w pipeline_deps \<Rightarrow> string \<Rightarrow> string
    \<Rightarrow> ('w, (run_status \<times> string) option) io" where
  "finalizeRunAsInconclusive P D runId reason =
    io_bind (pd_findRun D runId) (\<lambda>found.
    case found of None \<Rightarrow> io_ret None
    | Some r \<Rightarrow>
      if \<not> List.member finalizable_statuses (run_status_of (rec_aggregate r)) then io_ret None
      else if \<not> truthy (rec_customerPaymentProofHash r) \<or> \<not> truthy (rec_customerPaymentAtomic r) then io_ret None
      else io_bind (pd_findQuote D (rec_quoteId r)) (\<lambda>q.
        case q of None \<Rightarrow> io_ret None
        | Some quote \<Rightarrow>
          io_bind (pd_load D runId) (\<lambda>checkpoint.
          io_bind (unguarded_steps \<lparr>pl_current = rec_aggregate r, pl_advancedPastFunded = False\<rparr>
            (finalize_steps P D \<lparr>pn_runId = runId, pn_quoteId = rec_quoteId r,
               pn_requestIdempotencyKey = rec_requestIdempotencyKey r\<rparr> checkpoint quote
               (the (rec_customerPaymentProofHash r)) (the (rec_customerPaymentAtomic r)) reason)) (\<lambda>result.
          io_ret (Some result)))))"

section \<open>Ports a run has no more use for\<close>

text \<open>Other ports for everything that costs money or calls the model.\<close>

record 'w spending =
  sp_classify :: "classification_input \<Rightarrow> ('w, risk_classification) io"
  sp_execute :: "string \<Rightarrow> delivery_request \<Rightarrow> ('w, delivery_attempt) io"
  sp_acquire :: "acquire_request \<Rightarrow> ('w, acquired_payment) io"
  sp_crossChainPayers :: "'w payer_registration list"
  sp_refundSender :: "'w refund_sender option"

definition with_spending :: "'w spending \<Rightarrow> 'w pipeline_deps \<Rightarrow> 'w pipeline_deps" where
  "with_spending s D = D\<lparr>pd_classify := sp_classify s, pd_execute := sp_execute s, pd_acquire := sp_acquire s,
     pd_crossChainPayers := sp_crossChainPayers s, pd_refundSender := sp_refundSender s\<rparr>"

lemma with_spending_simps [simp]:
  "pd_findRun (with_spending s D) = pd_findRun D" "pd_saveRun (with_spending s D) = pd_saveRun D"
  "pd_findQuote (with_spending s D) = pd_findQuote D" "pd_toolAgentId (with_spending s D) = pd_toolAgentId D"
  "pd_toolVersion (with_spending s D) = pd_toolVersion D" "pd_toolChainId (with_spending s D) = pd_toolChainId D"
  "pd_sign (with_spending s D) = pd_sign D" "pd_hash_typed (with_spending s D) = pd_hash_typed D"
  "pd_getEvidence (with_spending s D) = pd_getEvidence D" "pd_putEvidence (with_spending s D) = pd_putEvidence D"
  "pd_publish (with_spending s D) = pd_publish D" "pd_attestorAddress (with_spending s D) = pd_attestorAddress D"
  "pd_registryAddress (with_spending s D) = pd_registryAddress D" "pd_attestorChainId (with_spending s D) = pd_attestorChainId D"
  "pd_submitAttestation (with_spending s D) = pd_submitAttestation D" "pd_getAttestation (with_spending s D) = pd_getAttestation D"
  "pd_putAttestation (with_spending s D) = pd_putAttestation D" "pd_load (with_spending s D) = pd_load D"
  "pd_merge (with_spending s D) = pd_merge D" "pd_now (with_spending s D) = pd_now D"
  by (simp_all add: with_spending_def)

lemma with_spending_parts:
  "sign_receipt P (with_spending s D) = sign_receipt P D" "runEvidencePhase P (with_spending s D) = runEvidencePhase P D"
  "attestation_params_of (with_spending s D) = attestation_params_of D"
  "runAttestationPhase P (with_spending s D) = runAttestationPhase P D"
  "step_run (with_spending s D) = step_run D" "advance (with_spending s D) = advance D" "deliver (with_spending s D) = deliver D"
proof -
  show sign: "sign_receipt P (with_spending s D) = sign_receipt P D"
    unfolding fun_eq_iff sign_receipt_def with_spending_simps by simp
  show "runEvidencePhase P (with_spending s D) = runEvidencePhase P D"
    unfolding fun_eq_iff runEvidencePhase_def with_spending_simps sign by simp
  show att: "attestation_params_of (with_spending s D) = attestation_params_of D"
    unfolding fun_eq_iff attestation_params_of_def with_spending_simps by simp
  show "runAttestationPhase P (with_spending s D) = runAttestationPhase P D"
    unfolding fun_eq_iff runAttestationPhase_def with_spending_simps att by simp
  show step: "step_run (with_spending s D) = step_run D"
    unfolding fun_eq_iff step_run_def with_spending_simps by simp
  show "advance (with_spending s D) = advance D" "deliver (with_spending s D) = deliver D"
    unfolding fun_eq_iff advance_def deliver_def step by simp_all
qed

text \<open>
  Finalizing a stuck run costs nothing more: it asks no model, signs no payment, sends no refund or bridge
  transfer and calls no target, so it goes the same with any other port in place of these.
\<close>

theorem finalize_never_spends:
  "finalizeRunAsInconclusive P (with_spending s D) i reason = finalizeRunAsInconclusive P D i reason"
  unfolding finalizeRunAsInconclusive_def finalize_steps_def with_spending_simps with_spending_parts ..

section \<open>What is attested\<close>

definition checked_attestor :: "(attestation_input \<Rightarrow> bool) \<Rightarrow> 'w pipeline_deps \<Rightarrow> 'w pipeline_deps" where
  "checked_attestor G D = D\<lparr>pd_submitAttestation := \<lambda>a. only_if (\<lambda>_. G a) (pd_submitAttestation D a)\<rparr>"

text \<open>
  An attestation is backed by an evidence pack of the run: its roots are the pack's, its verdict is the pack's, and
  a verdict of PASS comes with at least one signed receipt, all of them for passed scenarios.
\<close>

definition attestation_backed :: "platform \<Rightarrow> 'w pipeline_deps \<Rightarrow> string \<Rightarrow> attestation_input \<Rightarrow> bool" where
  "attestation_backed P D i a \<longleftrightarrow> ai_runId a = pf_keccak_text P i \<and>
    (\<exists>content pack. buildEvidencePack P (pd_hash_typed D) content = Inr pack \<and> ec_runId content = i
      \<and> ai_evidenceRoot a = ep_evidenceRoot pack \<and> ai_toolReceiptRoot a = ep_toolReceiptRoot pack
      \<and> ai_result a = result_of_verdict (ec_result content)
      \<and> (ec_result content = Verdict_PASS \<longrightarrow> ec_toolReceipts content \<noteq> []
          \<and> (\<forall>r \<in> set (ec_toolReceipts content). tr_result (rcpt_unsigned r) = Verdict_PASS)))"

lemma checked_attestor_simps [simp]:
  "pd_findRun (checked_attestor G D) = pd_findRun D" "pd_saveRun (checked_attestor G D) = pd_saveRun D"
  "pd_findQuote (checked_attestor G D) = pd_findQuote D" "pd_classify (checked_attestor G D) = pd_classify D"
  "pd_mandatoryScenarios (checked_attestor G D) = pd_mandatoryScenarios D"
  "pd_shipyardAgentId (checked_attestor G D) = pd_shipyardAgentId D" "pd_toolAgentId (checked_attestor G D) = pd_toolAgentId D"
  "pd_toolVersion (checked_attestor G D) = pd_toolVersion D" "pd_toolChainId (checked_attestor G D) = pd_toolChainId D"
  "pd_providerSignerAddress (checked_attestor G D) = pd_providerSignerAddress D"
  "pd_execute (checked_attestor G D) = pd_execute D" "pd_acquire (checked_attestor G D) = pd_acquire D"
  "pd_procurementAllowedAssets (checked_attestor G D) = pd_procurementAllowedAssets D"
  "pd_homeChainId (checked_attestor G D) = pd_homeChainId D" "pd_crossChainPayers (checked_attestor G D) = pd_crossChainPayers D"
  "pd_refundSender (checked_attestor G D) = pd_refundSender D" "pd_sign (checked_attestor G D) = pd_sign D"
  "pd_hash_typed (checked_attestor G D) = pd_hash_typed D"
  "pd_getEvidence (checked_attestor G D) = pd_getEvidence D" "pd_putEvidence (checked_attestor G D) = pd_putEvidence D"
  "pd_publish (checked_attestor G D) = pd_publish D" "pd_attestorAddress (checked_attestor G D) = pd_attestorAddress D"
  "pd_registryAddress (checked_attestor G D) = pd_registryAddress D"
  "pd_attestorChainId (checked_attestor G D) = pd_attestorChainId D"
  "pd_submitAttestation (checked_attestor G D) = (\<lambda>a. only_if (\<lambda>_. G a) (pd_submitAttestation D a))"
  "pd_getAttestation (checked_attestor G D) = pd_getAttestation D" "pd_putAttestation (checked_attestor G D) = pd_putAttestation D"
  "pd_load (checked_attestor G D) = pd_load D" "pd_merge (checked_attestor G D) = pd_merge D"
  "pd_recordLeg (checked_attestor G D) = pd_recordLeg D" "pd_now (checked_attestor G D) = pd_now D"
  "pd_randomBytes (checked_attestor G D) = pd_randomBytes D"
  by (simp_all add: checked_attestor_def)

lemma checked_attestor_procure: "procure P (checked_attestor G D) = procure P D"
proof -
  note ports = checked_attestor_simps
  have refund: "refund_unspent (checked_attestor G D) = refund_unspent D"
    unfolding fun_eq_iff refund_unspent_def refund_rest_def refund_nonce_def ports by simp
  have ctx: "context_at (checked_attestor G D) = context_at D"
    unfolding fun_eq_iff context_at_def ports by simp
  have home: "runProcurementPhase P (checked_attestor G D) = runProcurementPhase P D"
    unfolding fun_eq_iff runProcurementPhase_def home_payment_def sign_payment_def refund ctx ports by simp
  have leg: "recordLeg (checked_attestor G D) = recordLeg D"
    unfolding fun_eq_iff recordLeg_def ports by simp
  have fund: "fundDestinationByBridge (checked_attestor G D) = fundDestinationByBridge D"
    unfolding fun_eq_iff fundDestinationByBridge_def bridge_transfer_def await_delivery_def leg ports by simp
  have cross: "runCrossChainProcurementPhase P (checked_attestor G D) = runCrossChainProcurementPhase P D"
    unfolding fun_eq_iff runCrossChainProcurementPhase_def authorizeProcurement_def authorizeTargetPayment_def leg fund ctx ports
    by simp
  show ?thesis
    unfolding fun_eq_iff procure_def resolveCrossChainPayer_def targetIsRemote_def home cross ports by simp
qed

lemma checked_attestor_parts:
  "runRiskAnalysisPhase (checked_attestor G D) = runRiskAnalysisPhase D"
  "runExecutionPhase P (checked_attestor G D) = runExecutionPhase P D"
  "runEvidencePhase P (checked_attestor G D) = runEvidencePhase P D"
  "step_run (checked_attestor G D) = step_run D" "advance (checked_attestor G D) = advance D"
  "deliver (checked_attestor G D) = deliver D"
proof -
  note ports = checked_attestor_simps
  have cls: "classification_of (checked_attestor G D) = classification_of D"
    unfolding fun_eq_iff classification_of_def ports by simp
  show "runRiskAnalysisPhase (checked_attestor G D) = runRiskAnalysisPhase D"
    unfolding fun_eq_iff runRiskAnalysisPhase_def ports cls by simp
  show "runExecutionPhase P (checked_attestor G D) = runExecutionPhase P D"
    unfolding fun_eq_iff runExecutionPhase_def execute_plan_def record_settlement_def ports by simp
  have sign: "sign_receipt P (checked_attestor G D) = sign_receipt P D"
    unfolding fun_eq_iff sign_receipt_def ports by simp
  show "runEvidencePhase P (checked_attestor G D) = runEvidencePhase P D"
    unfolding fun_eq_iff runEvidencePhase_def ports sign by simp
  show step: "step_run (checked_attestor G D) = step_run D"
    unfolding fun_eq_iff step_run_def ports by simp
  show "advance (checked_attestor G D) = advance D" "deliver (checked_attestor G D) = deliver D"
    unfolding fun_eq_iff advance_def deliver_def step by simp_all
qed

lemma bind_cong2:
  "m w = m1 w \<Longrightarrow> (\<And>a b w1. m w = (Inr (a, b), w1) \<Longrightarrow> f a b w1 = g a b w1) \<Longrightarrow>
   io_bind m (\<lambda>(a, b). f a b) w = io_bind m1 (\<lambda>(a, b). g a b) w"
  by (rule bind_cong) auto

lemma bind_cong3:
  "m w = m1 w \<Longrightarrow> (\<And>a b c w1. m w = (Inr (a, b, c), w1) \<Longrightarrow> f a b c w1 = g a b c w1) \<Longrightarrow>
   io_bind m (\<lambda>(a, b, c). f a b c) w = io_bind m1 (\<lambda>(a, b, c). g a b c) w"
  by (rule bind_cong) auto

lemma signed_results:
  "io_mapM (sign_receipt P D i quote a b) rs w = (Inr receipts, w1) \<Longrightarrow>
    list_all2 (\<lambda>r t. \<exists>x. r = Some x \<and> tr_result (rcpt_unsigned t) = re_result (sr_evidence x)) rs receipts"
proof (induction rs arbitrary: w receipts)
  case Nil
  then show ?case by simp
next
  case (Cons r rs)
  then obtain t w2 ts where t: "sign_receipt P D i quote a b r w = (Inr t, w2)"
    and ts: "io_mapM (sign_receipt P D i quote a b) rs w2 = (Inr ts, w1)" "receipts = t # ts"
    by (auto simp: io_ok)
  have "\<exists>x. r = Some x \<and> tr_result (rcpt_unsigned t) = re_result (sr_evidence x)"
    using t by (auto simp: sign_receipt_def io_ok buildUnsignedToolReceipt_def split: option.splits list.splits if_splits)
  then show ?case using Cons.IH [OF ts(1)] ts(2) by simp
qed

definition pack_backed :: "platform \<Rightarrow> 'w pipeline_deps \<Rightarrow> string \<Rightarrow> evidence_pack \<Rightarrow> verdict \<Rightarrow> bool" where
  "pack_backed P D i pack v \<longleftrightarrow> (\<exists>content. buildEvidencePack P (pd_hash_typed D) content = Inr pack \<and> ec_runId content = i
     \<and> ec_result content = v \<and> (v = Verdict_PASS \<longrightarrow> ec_toolReceipts content \<noteq> []
        \<and> (\<forall>r \<in> set (ec_toolReceipts content). tr_result (rcpt_unsigned r) = Verdict_PASS)))"

lemma aggregate_pass: "aggregateScenarioResult rs = Verdict_PASS \<Longrightarrow> rs \<noteq> [] \<and> (\<forall>r \<in> set rs. re_result r = Verdict_PASS)"
  by (auto simp: aggregateScenarioResult_def list_ex_iff split: if_splits) (metis verdict.exhaust)

lemma with_evidence_ok: "with_evidence rs = Inr xs \<Longrightarrow> rs = map Some xs"
proof (induction rs arbitrary: xs)
  case Nil
  then show ?case by (simp add: with_evidence_def)
next
  case (Cons r rs)
  then show ?case by (cases r) (auto simp: with_evidence_def res_bind_Inr_iff)
qed

lemma evidence_backed:
  assumes "runEvidencePhase P D i quote plan proposal rs a b forced w = (Inr (pack, uri, v), w1)" and "forced \<noteq> Some Verdict_PASS"
  shows "pack_backed P D i pack v"
proof -
  obtain receipts w2 xs where signed: "io_mapM (sign_receipt P D i quote a b) rs w = (Inr receipts, w2)"
    and xs: "with_evidence rs = Inr xs" and v: "v = (case forced of Some v \<Rightarrow> v | None \<Rightarrow> aggregateScenarioResult (map sr_evidence xs))"
    and pack: "buildEvidencePack P (pd_hash_typed D) (pack_content i quote plan proposal xs v receipts) = Inr pack"
    using assms(1) by (auto simp: runEvidencePhase_def io_ok Let_def)
  have rs: "rs = map Some xs" using xs by (rule with_evidence_ok)
  have "receipts \<noteq> [] \<and> (\<forall>r \<in> set receipts. tr_result (rcpt_unsigned r) = Verdict_PASS)" if "v = Verdict_PASS"
  proof -
    have "aggregateScenarioResult (map sr_evidence xs) = Verdict_PASS" using that v assms(2) by (auto split: option.splits)
    from aggregate_pass [OF this] have "xs \<noteq> []" "\<And>n. n < length xs \<Longrightarrow> re_result (sr_evidence (xs ! n)) = Verdict_PASS" by auto
    then show ?thesis using signed_results [OF signed] by (auto simp: rs list_all2_conv_all_nth in_set_conv_nth)
  qed
  then show ?thesis using pack unfolding pack_backed_def by (intro exI conjI) (assumption, simp_all add: pack_content_def)
qed

lemma attest_checked:
  assumes "pack_backed P D i pack v"
  shows "runAttestationPhase P (checked_attestor (attestation_backed P D i) D) i ck quote h paid pack uri spend t v w
    = runAttestationPhase P D i ck quote h paid pack uri spend t v w"
proof -
  have backed: "attestation_backed P D i a"
    if "buildAttestationInput P (attestation_params_of D i quote token h p pack uri spend t v) = Inr a" for a token p
  proof -
    have a: "ai_runId a = pf_keccak_text P i" "ai_evidenceRoot a = ep_evidenceRoot pack"
      "ai_toolReceiptRoot a = ep_toolReceiptRoot pack" "ai_result a = result_of_verdict v"
      using that by (auto simp: buildAttestationInput_def attestation_params_of_def Let_def res_bind_Inr_iff)
    show ?thesis using assms unfolding attestation_backed_def pack_backed_def a by blast
  qed
  have params: "attestation_params_of (checked_attestor G D) = attestation_params_of D" for G
    unfolding fun_eq_iff attestation_params_of_def checked_attestor_simps by simp
  show ?thesis unfolding runAttestationPhase_def checked_attestor_simps params
    by (intro bind_cong3 bind_cong refl) (auto simp: io_ok io_bind_apply dest!: backed)
qed

lemma pipeline_attests:
  "pipeline_steps P (checked_attestor (attestation_backed P D (pn_runId N)) D) N ck quote h paid w
    = pipeline_steps P D N ck quote h paid w"
  unfolding pipeline_steps_def Let_def checked_attestor_parts checked_attestor_procure
  by (intro then_cong bind_cong2 bind_cong3 bind_cong refl on_store_cong attest_checked)
    (auto simp: on_store_ok_iff dest!: evidence_backed)

lemma forced_verdict: "runEvidencePhase P D i quote plan proposal rs a b (Some v) w = (Inr (pack, uri, x), w1) \<Longrightarrow> x = v"
  by (auto simp: runEvidencePhase_def io_ok Let_def)

lemma forced_backed:
  assumes "runEvidencePhase P D i quote plan proposal rs a b (Some Verdict_INCONCLUSIVE) w = (Inr (pack, uri, x), w1)"
  shows "pack_backed P D i pack Verdict_INCONCLUSIVE"
  using evidence_backed [OF assms] forced_verdict [OF assms] by simp

lemma finalize_attests:
  "finalize_steps P (checked_attestor (attestation_backed P D (pn_runId N)) D) N ck quote h paid reason w
    = finalize_steps P D N ck quote h paid reason w"
  unfolding finalize_steps_def Let_def checked_attestor_parts
  by (intro bind_cong3 then_cong bind_cong refl on_store_cong attest_checked) (auto simp: on_store_ok_iff dest!: forced_backed)

lemma guarded_cong: "m (w, l) = m1 (w, l) \<Longrightarrow> guarded_steps i l m w = guarded_steps i l m1 w"
  by (simp add: guarded_steps_def)

lemma unguarded_cong: "m (w, l) = m1 (w, l) \<Longrightarrow> unguarded_steps l m w = unguarded_steps l m1 w"
  by (simp add: unguarded_steps_def)

lemma option_cong2:
  "x = y \<Longrightarrow> (y = None \<Longrightarrow> m w = m1 w) \<Longrightarrow> (\<And>a. y = Some a \<Longrightarrow> n a w = n1 a w) \<Longrightarrow>
   (case x of None \<Rightarrow> m | Some a \<Rightarrow> n a) w = (case y of None \<Rightarrow> m1 | Some a \<Rightarrow> n1 a) w"
  by (cases y) simp_all

lemma if_cong2: "(b \<Longrightarrow> m w = m1 w) \<Longrightarrow> (\<not> b \<Longrightarrow> n w = n1 w) \<Longrightarrow> (if b then m else n) w = (if b then m1 else n1) w"
  by simp

text \<open>
  C4: every attestation the pipeline submits, and every one a finalization submits, is backed by an evidence pack
  of the run: its roots and its verdict are the pack's, and PASS is attested only over at least one signed receipt,
  each for a scenario that passed.
\<close>

theorem attestations_backed_by_evidence:
  "runOrchestratorPipeline P (checked_attestor (attestation_backed P D i) D) i w = runOrchestratorPipeline P D i w
   \<and> finalizeRunAsInconclusive P (checked_attestor (attestation_backed P D i) D) i reason w
     = finalizeRunAsInconclusive P D i reason w"
proof
  note pipe = pipeline_attests [where N = "\<lparr>pn_runId = i, pn_quoteId = q, pn_requestIdempotencyKey = k\<rparr>" for q k, simplified]
  show "runOrchestratorPipeline P (checked_attestor (attestation_backed P D i) D) i w = runOrchestratorPipeline P D i w"
    unfolding runOrchestratorPipeline_def Let_def checked_attestor_simps
    by (intro bind_cong option_cong2 if_cong2 guarded_cong pipe refl)
  note final = finalize_attests [where N = "\<lparr>pn_runId = i, pn_quoteId = q, pn_requestIdempotencyKey = k\<rparr>" for q k, simplified]
  show "finalizeRunAsInconclusive P (checked_attestor (attestation_backed P D i) D) i reason w
      = finalizeRunAsInconclusive P D i reason w"
    unfolding finalizeRunAsInconclusive_def checked_attestor_simps
    by (intro bind_cong option_cong2 if_cong2 unguarded_cong final refl)
qed

section \<open>Resuming\<close>

text \<open>
  The ports of a resumed run: whatever obtains a result that its checkpoint already records is replaced by
  another port \<open>s\<close> - also the quote a recorded transfer needed, the polling of a recorded delivery, and the
  reservation of a recorded refund nonce.
\<close>

definition signed_before :: "checkpoint \<Rightarrow> bool" where
  "signed_before ck \<longleftrightarrow> truthy (ck_purchaseReceipt ck) \<and> truthy (ck_paymentTransactionHash ck)
     \<and> truthy (ck_targetPaymentAmountAtomic ck)"

definition executed_before :: "checkpoint \<Rightarrow> bool" where
  "executed_before ck \<longleftrightarrow> ck_evidence ck \<noteq> None \<and> ck_startedAt ck \<noteq> None \<and> ck_completedAt ck \<noteq> None"

definition transferred_before :: "checkpoint \<Rightarrow> bool" where
  "transferred_before ck \<longleftrightarrow> truthy (ck_bridgeTransferId ck) \<and> truthy (ck_bridgeSourceTransactionHash ck)"

definition delivered_before :: "checkpoint \<Rightarrow> bool" where
  "delivered_before ck \<longleftrightarrow> truthy (ck_bridgeDestinationTransactionHash ck) \<and> truthy (ck_bridgeAmountReceivedAtomic ck)"

definition refunded_before :: "checkpoint \<Rightarrow> bool" where
  "refunded_before ck \<longleftrightarrow> truthy (ck_refundTransactionHash ck)"

record 'w other_ports =
  ot_classify :: "classification_input \<Rightarrow> ('w, risk_classification) io"
  ot_execute :: "string \<Rightarrow> delivery_request \<Rightarrow> ('w, delivery_attempt) io"
  ot_acquire :: "acquire_request \<Rightarrow> ('w, acquired_payment) io"
  ot_randomBytes :: "('w, string) io"
  ot_reserveNonce :: "('w, int) io"
  ot_isNonceConsumed :: "int \<Rightarrow> ('w, bool) io"
  ot_refund :: "refund_order \<Rightarrow> ('w, string) io"
  ot_payTarget :: "string \<Rightarrow> string \<Rightarrow> ('w, bnb_payment) io"
  ot_quoteBridge :: "procurement_intent \<Rightarrow> ('w, bridge_quote) io"
  ot_getStatus :: "string \<Rightarrow> ('w, bridge_status) io"
  ot_submitBridge :: "procurement_intent \<Rightarrow> bridge_quote \<Rightarrow> string \<Rightarrow> ('w, string \<times> string) io"
  ot_attest :: "attestation_input \<Rightarrow> ('w, string) io"

definition resumed_bridge :: "'w other_ports \<Rightarrow> checkpoint \<Rightarrow> 'w bridge_config \<Rightarrow> 'w bridge_config" where
  "resumed_bridge s ck B = B\<lparr>bg_quote := if transferred_before ck then ot_quoteBridge s else bg_quote B,
     bg_submit := if transferred_before ck then ot_submitBridge s else bg_submit B,
     bg_getStatus := if delivered_before ck then ot_getStatus s else bg_getStatus B\<rparr>"

definition resumed_payer :: "'w other_ports \<Rightarrow> checkpoint \<Rightarrow> 'w payer_registration \<Rightarrow> 'w payer_registration" where
  "resumed_payer s ck X = X\<lparr>pr_acquire := if signed_before ck then ot_payTarget s else pr_acquire X,
     pr_bridge := map_option (resumed_bridge s ck) (pr_bridge X)\<rparr>"

definition resumed_refunds :: "'w other_ports \<Rightarrow> checkpoint \<Rightarrow> 'w refund_sender \<Rightarrow> 'w refund_sender" where
  "resumed_refunds s ck R = R\<lparr>rf_reserveNonce := if refunded_before ck \<or> ck_refundNonce ck \<noteq> None then ot_reserveNonce s
       else rf_reserveNonce R,
     rf_isNonceConsumed := if refunded_before ck then ot_isNonceConsumed s else rf_isNonceConsumed R,
     rf_sendRefund := if refunded_before ck then ot_refund s else rf_sendRefund R\<rparr>"

definition resumed :: "'w other_ports \<Rightarrow> checkpoint \<Rightarrow> 'w pipeline_deps \<Rightarrow> 'w pipeline_deps" where
  "resumed s ck D = D\<lparr>pd_classify := if ck_plan ck \<noteq> None then ot_classify s else pd_classify D,
     pd_execute := if executed_before ck then ot_execute s else pd_execute D,
     pd_acquire := if truthy (ck_purchaseReceipt ck) then ot_acquire s else pd_acquire D,
     pd_randomBytes := if truthy (ck_purchaseReceipt ck) then ot_randomBytes s else pd_randomBytes D,
     pd_refundSender := map_option (resumed_refunds s ck) (pd_refundSender D),
     pd_crossChainPayers := map (resumed_payer s ck) (pd_crossChainPayers D),
     pd_submitAttestation := if truthy (ck_attestationTransactionHash ck) then ot_attest s else pd_submitAttestation D\<rparr>"

lemma resumed_simps [simp]:
  "pd_findRun (resumed s ck D) = pd_findRun D" "pd_saveRun (resumed s ck D) = pd_saveRun D"
  "pd_findQuote (resumed s ck D) = pd_findQuote D" "pd_mandatoryScenarios (resumed s ck D) = pd_mandatoryScenarios D"
  "pd_shipyardAgentId (resumed s ck D) = pd_shipyardAgentId D" "pd_toolAgentId (resumed s ck D) = pd_toolAgentId D"
  "pd_toolVersion (resumed s ck D) = pd_toolVersion D" "pd_toolChainId (resumed s ck D) = pd_toolChainId D"
  "pd_providerSignerAddress (resumed s ck D) = pd_providerSignerAddress D"
  "pd_procurementAllowedAssets (resumed s ck D) = pd_procurementAllowedAssets D"
  "pd_homeChainId (resumed s ck D) = pd_homeChainId D" "pd_sign (resumed s ck D) = pd_sign D"
  "pd_hash_typed (resumed s ck D) = pd_hash_typed D" "pd_getEvidence (resumed s ck D) = pd_getEvidence D"
  "pd_putEvidence (resumed s ck D) = pd_putEvidence D" "pd_publish (resumed s ck D) = pd_publish D"
  "pd_attestorAddress (resumed s ck D) = pd_attestorAddress D" "pd_registryAddress (resumed s ck D) = pd_registryAddress D"
  "pd_attestorChainId (resumed s ck D) = pd_attestorChainId D" "pd_getAttestation (resumed s ck D) = pd_getAttestation D"
  "pd_putAttestation (resumed s ck D) = pd_putAttestation D" "pd_load (resumed s ck D) = pd_load D"
  "pd_merge (resumed s ck D) = pd_merge D" "pd_recordLeg (resumed s ck D) = pd_recordLeg D"
  "pd_now (resumed s ck D) = pd_now D"
  "pd_refundSender (resumed s ck D) = map_option (resumed_refunds s ck) (pd_refundSender D)"
  "pd_crossChainPayers (resumed s ck D) = map (resumed_payer s ck) (pd_crossChainPayers D)"
  by (simp_all add: resumed_def)

lemma resumed_parts:
  "context_at (resumed s ck D) = context_at D" "recordLeg (resumed s ck D) = recordLeg D"
  "classification_of (resumed s ck D) = classification_of D" "sign_receipt P (resumed s ck D) = sign_receipt P D"
  "record_settlement (resumed s ck D) = record_settlement D" "attestation_params_of (resumed s ck D) = attestation_params_of D"
  "step_run (resumed s ck D) = step_run D"
  unfolding fun_eq_iff context_at_def recordLeg_def classification_of_def sign_receipt_def record_settlement_def
    attestation_params_of_def step_run_def resumed_simps by simp_all

lemma resumed_moves:
  "advance (resumed s ck D) = advance D" "deliver (resumed s ck D) = deliver D"
  "runEvidencePhase P (resumed s ck D) = runEvidencePhase P D"
  unfolding fun_eq_iff advance_def deliver_def runEvidencePhase_def resumed_parts resumed_simps by simp_all

lemma resumed_analysis: "runRiskAnalysisPhase (resumed s ck D) i ck quote = runRiskAnalysisPhase D i ck quote"
  by (cases "ck_plan ck") (simp_all add: runRiskAnalysisPhase_def resumed_parts, simp add: resumed_def)

lemma resumed_execution: "runExecutionPhase P (resumed s ck D) i ck plan quote b = runExecutionPhase P D i ck plan quote b"
proof (cases "executed_before ck")
  case True
  then show ?thesis by (auto simp: runExecutionPhase_def executed_before_def)
next
  case False
  have "execute_plan P (resumed s ck D) i plan quote b = execute_plan P D i plan quote b"
    unfolding execute_plan_def resumed_parts resumed_simps using False by (simp add: resumed_def)
  note same = this
  show ?thesis unfolding runExecutionPhase_def resumed_simps same ..
qed

lemma resumed_attestation:
  "runAttestationPhase P (resumed s ck D) i ck quote h paid pack uri spend t v
    = runAttestationPhase P D i ck quote h paid pack uri spend t v"
  unfolding runAttestationPhase_def resumed_parts resumed_simps by (simp add: resumed_def cong: if_cong)

lemma resumed_home: "runProcurementPhase P (resumed s ck D) i ck plan quote status = runProcurementPhase P D i ck plan quote status"
proof -
  have "refund_unspent (resumed s ck D) i ck = refund_unspent D i ck"
  proof (cases "refunded_before ck")
    case True
    then show ?thesis by (auto simp: fun_eq_iff refund_unspent_def refunded_before_def split: option.split)
  next
    case False
    have nonce: "refund_nonce (resumed s ck D) (resumed_refunds s ck R) i ck = refund_nonce D R i ck" for R
      using False by (simp add: refund_nonce_def resumed_refunds_def split: option.split)
    have send: "rf_isNonceConsumed (resumed_refunds s ck R) = rf_isNonceConsumed R" "rf_sendRefund (resumed_refunds s ck R) = rf_sendRefund R" for R
      using False by (simp_all add: resumed_refunds_def)
    have rest: "refund_rest (resumed s ck D) (resumed_refunds s ck R) i ck = refund_rest D R i ck" for R
      unfolding fun_eq_iff refund_rest_def nonce send resumed_simps by simp
    show ?thesis unfolding fun_eq_iff refund_unspent_def resumed_simps
      by (cases "pd_refundSender D") (simp_all add: rest)
  qed
  moreover have "sign_payment P (resumed s ck D) = sign_payment P D" if "\<not> truthy (ck_purchaseReceipt ck)"
    unfolding fun_eq_iff sign_payment_def resumed_simps using that by (simp add: resumed_def)
  ultimately show ?thesis
    unfolding runProcurementPhase_def home_payment_def resumed_parts resumed_simps by (simp cong: if_cong)
qed

lemma resumed_payer_simps [simp]:
  "pr_chainId (resumed_payer s ck X) = pr_chainId X" "pr_mode (resumed_payer s ck X) = pr_mode X"
  "pr_policyCostAtomic (resumed_payer s ck X) = pr_policyCostAtomic X"
  "pr_targetPaymentAmountAtomic (resumed_payer s ck X) = pr_targetPaymentAmountAtomic X"
  "pr_settlementAsset (resumed_payer s ck X) = pr_settlementAsset X"
  "pr_destinationPayerAddress (resumed_payer s ck X) = pr_destinationPayerAddress X"
  "pr_targetPayToAddress (resumed_payer s ck X) = pr_targetPayToAddress X"
  "pr_bridge (resumed_payer s ck X) = map_option (resumed_bridge s ck) (pr_bridge X)"
  "bg_provider (resumed_bridge s ck B) = bg_provider B" "bg_fundingAsset (resumed_bridge s ck B) = bg_fundingAsset B"
  "bg_sourceBridgeAmountAtomic (resumed_bridge s ck B) = bg_sourceBridgeAmountAtomic B"
  "bg_sourceBridgePayerAddress (resumed_bridge s ck B) = bg_sourceBridgePayerAddress B"
  "bg_maximumBridgeWaitSeconds (resumed_bridge s ck B) = bg_maximumBridgeWaitSeconds B"
  by (simp_all add: resumed_payer_def resumed_bridge_def)

lemma resumed_transfer:
  "bridge_transfer D (resumed_payer s ck X) (resumed_bridge s ck B) i ck now intent = bridge_transfer D X B i ck now intent"
proof (cases "transferred_before ck")
  case True
  note sent = this [unfolded transferred_before_def]
  show ?thesis unfolding bridge_transfer_def if_P [OF sent] ..
next
  case False
  have "bg_submit (resumed_bridge s ck B) = bg_submit B" "bg_quote (resumed_bridge s ck B) = bg_quote B"
    unfolding resumed_bridge_def if_not_P [OF False] by simp_all
  note same = this
  show ?thesis unfolding bridge_transfer_def bridge_leg_def resumed_payer_simps same ..
qed

lemma resumed_delivery:
  "await_delivery D (resumed_payer s ck X) (resumed_bridge s ck B) i ck n t at = await_delivery D X B i ck n t at"
proof (cases "delivered_before ck")
  case True
  note came = this [unfolded delivered_before_def]
  show ?thesis unfolding await_delivery_def if_P [OF came] ..
next
  case False
  have "bg_getStatus (resumed_bridge s ck B) = bg_getStatus B" unfolding resumed_bridge_def if_not_P [OF False] by simp
  note same = this
  show ?thesis unfolding await_delivery_def bridge_leg_def bridge_timed_out_def resumed_payer_simps same ..
qed

lemma resumed_fund: "fundDestinationByBridge D (resumed_payer s ck X) i ck now = fundDestinationByBridge D X i ck now"
proof (cases "pr_bridge X")
  case None
  then show ?thesis by (simp add: fundDestinationByBridge_def)
next
  case (Some B)
  have intent: "bridge_intent (resumed_payer s ck X) (resumed_bridge s ck B) = bridge_intent X B"
    unfolding fun_eq_iff bridge_intent_def resumed_payer_simps by simp
  show ?thesis
    unfolding fundDestinationByBridge_def resumed_payer_simps Some option.map option.case resumed_transfer resumed_delivery intent ..
qed

lemma resumed_target: "authorizeTargetPayment D (resumed_payer s ck X) i ck e = authorizeTargetPayment D X i ck e"
proof (cases "signed_before ck")
  case True
  note signed = this [unfolded signed_before_def]
  show ?thesis unfolding authorizeTargetPayment_def if_P [OF signed] ..
next
  case False
  have "pr_acquire (resumed_payer s ck X) = pr_acquire X" unfolding resumed_payer_def if_not_P [OF False] by simp
  note same = this
  show ?thesis unfolding authorizeTargetPayment_def payment_leg_def resumed_payer_simps same ..
qed

lemma resumed_cross:
  "runCrossChainProcurementPhase P (resumed s ck D) (resumed_payer s ck X) i ck plan quote status
    = runCrossChainProcurementPhase P D X i ck plan quote status"
proof -
  note ports = resumed_parts resumed_simps
  have fund: "fundDestinationByBridge (resumed s ck D) Y = fundDestinationByBridge D Y" for Y
    unfolding fun_eq_iff fundDestinationByBridge_def bridge_transfer_def await_delivery_def ports by simp
  have pay: "authorizeTargetPayment (resumed s ck D) Y = authorizeTargetPayment D Y" for Y
    unfolding fun_eq_iff authorizeTargetPayment_def ports by simp
  have auth: "authorizeProcurement (resumed s ck D) (resumed_payer s ck X) = authorizeProcurement D X"
    unfolding fun_eq_iff authorizeProcurement_def ports resumed_payer_simps by simp
  have leg: "payment_leg (resumed_payer s ck X) = payment_leg X"
    unfolding fun_eq_iff payment_leg_def resumed_payer_simps by simp
  show ?thesis
    unfolding runCrossChainProcurementPhase_def ports auth fund pay leg resumed_fund resumed_target resumed_payer_simps ..
qed

lemma find_map: "(\<And>x. Q (f x) = Q1 x) \<Longrightarrow> find Q (map f xs) = map_option f (find Q1 xs)"
  by (induction xs) simp_all

lemma resumed_procure: "procure P (resumed s ck D) i ck plan quote status = procure P D i ck plan quote status"
proof -
  have remote: "targetIsRemote (resumed s ck D) = targetIsRemote D"
    unfolding fun_eq_iff targetIsRemote_def resumed_simps by simp
  have payer: "resolveCrossChainPayer (resumed s ck D) quote = map_option (resumed_payer s ck) (resolveCrossChainPayer D quote)"
    unfolding resolveCrossChainPayer_def remote resumed_simps by (simp add: find_map)
  show ?thesis unfolding procure_def remote payer resumed_home
    by (cases "resolveCrossChainPayer D quote") (simp_all add: resumed_cross)
qed

lemma resumed_pipeline: "pipeline_steps P (resumed s ck D) N ck quote h paid = pipeline_steps P D N ck quote h paid"
  unfolding pipeline_steps_def resumed_moves resumed_analysis resumed_execution resumed_attestation resumed_procure ..

end
