(* ===== verification/Run_Service.thy ===== *)
theory Run_Service
  imports Reconciler
begin

text \<open>
  What every writer of the run tables relies on and keeps, beside other writers: \<open>held_from w0 run\<close> is the world of
  a writer that began in \<open>w0\<close> and has read or written \<open>run\<close>.  Reading a run gives a known one, and an accepted
  transition saved at the revision it was read at leads to tables that still refine the state machine.
\<close>

section \<open>Writers of the run tables\<close>

lemma db_leads_refl: "db_leads w w"
  by (rule db.leads_refl)

lemma db_leads_trans: "db_leads w0 w \<Longrightarrow> db_leads w w1 \<Longrightarrow> db_leads w0 w1"
  by (rule db.leads_trans)

lemma db_leads_keeps: "db_leads w w1 \<Longrightarrow> db_valid w \<Longrightarrow> db_valid w1 \<and> (\<forall>run. db_knows w run \<longrightarrow> db_knows w1 run)"
  by (simp add: db_leads_def)

lemma db_leads_service:
  assumes "db_leads w w1" and "service S (fst w)"
  shows "store_inv S (fst w1)"
proof -
  have "db_valid w" "\<forall>run \<in> S. db_knows w run"
    using service_inv [OF assms(2)] store_inv_known [of S "fst w"] by (auto simp: db_valid_def db_knows_def)
  then show ?thesis
    using assms(1) store_inv_known [of S "fst w1"] by (simp add: db_leads_def db_valid_def db_knows_def)
qed

definition held_from :: "database \<times> 'e \<Rightarrow> run_aggregate set \<Rightarrow> database \<times> 'e \<Rightarrow> bool" where
  "held_from w0 K w \<longleftrightarrow> db_leads w0 w \<and> db_valid w \<and> (\<forall>run \<in> K. db_knows w run)"

lemma held_led: "held_from w0 K w \<Longrightarrow> db_leads w0 w"
  by (simp add: held_from_def)

lemma held_insert: "held_from w0 (insert run K) w \<longleftrightarrow> held_from w0 K w \<and> db_knows w run"
  by (auto simp: held_from_def)

lemma held_fewer: "held_from w0 K w \<Longrightarrow> L \<subseteq> K \<Longrightarrow> held_from w0 L w"
  by (auto simp: held_from_def)

lemma held_leads: "held_from w0 K w \<Longrightarrow> db_leads w w1 \<Longrightarrow> held_from w0 K w1"
  using db_leads_trans db_leads_keeps unfolding held_from_def by blast

lemma held_port:
  assumes "\<And>w0. io_keeps (db_leads w0) m"
  shows "io_triple (held_from w0 K) m (\<lambda>_. held_from w0 K) (\<lambda>_. held_from w0 K)"
proof -
  have "db_leads w (snd (m w))" for w using io_keepsD [OF assms db_leads_refl] .
  then show ?thesis by (intro tripleI) (metis held_leads snd_conv)+
qed

text \<open>A lookup reads, and what it finds is known.\<close>

lemma find_run_known:
  "find_run P datetime Q db = (r, db1) \<Longrightarrow> db1 = db \<and> (\<forall>x. r = Inr (Some x) \<longrightarrow> known_run db (rec_aggregate x))"
  by (auto simp: find_run_def io_bind_apply record_of_row_def Let_def res_bind_Inr_iff find_Some_iff known_run_row nth_mem
    split: option.splits sum.splits)

definition known_of :: "run_record option \<Rightarrow> run_aggregate set" where
  "known_of found = (case found of None \<Rightarrow> {} | Some x \<Rightarrow> {rec_aggregate x})"

lemma known_of_simps [simp]: "known_of None = {}" "known_of (Some x) = {rec_aggregate x}"
  by (simp_all add: known_of_def)

lemma found_triple:
  "io_triple (held_from w0 K) (on_db (find_run P datetime Q)) (\<lambda>found. held_from w0 (K \<union> known_of found)) (\<lambda>_. held_from w0 K)"
proof (rule tripleI)
  fix w found w1 assume w: "held_from w0 K w" and run: "on_db (find_run P datetime Q) w = (Inr found, w1)"
  then have "find_run P datetime Q (fst w) = (Inr found, fst w1)" "snd w1 = snd w"
    by (cases w, auto simp: on_db_def split: prod.splits)+
  from find_run_known [OF this(1)] this(2) have "w1 = w" "found = Some x \<Longrightarrow> db_knows w (rec_aggregate x)" for x
    by (auto simp: db_knows_def prod_eq_iff)
  then show "held_from w0 (K \<union> known_of found) w1" using w by (cases found) (auto simp: held_from_def)
next
  fix w e w1 assume w: "held_from w0 K w" and run: "on_db (find_run P datetime Q) w = (Inl e, w1)"
  then have "find_run P datetime Q (fst w) = (Inl e, fst w1)" "snd w1 = snd w"
    by (cases w, auto simp: on_db_def split: prod.splits)+
  from find_run_known [OF this(1)] this(2) have "w1 = w" by (auto simp: prod_eq_iff)
  then show "held_from w0 K w1" using w by simp
qed

lemma find_triples:
  "io_triple (held_from w0 K) (on_db (findRunById P datetime i)) (\<lambda>found. held_from w0 (K \<union> known_of found)) (\<lambda>_. held_from w0 K)"
  "io_triple (held_from w0 K) (on_db (findByRequestIdempotencyKey P datetime k)) (\<lambda>found. held_from w0 (K \<union> known_of found))
    (\<lambda>_. held_from w0 K)"
  unfolding findRunById_def findByRequestIdempotencyKey_def by (rule found_triple)+

subsection \<open>Saving\<close>

lemma save_unchanged: "save_run rec n db = (Inl e, db1) \<Longrightarrow> db1 = db"
  by (auto simp: save_run_def dest: transaction_fails split: option.splits if_splits)

lemma saved_triple:
  assumes "\<And>db db1. store_inv {} db \<Longrightarrow> (\<forall>a \<in> K. known_run db a) \<Longrightarrow> save_run rec n db = (Inr (), db1) \<Longrightarrow>
      store_inv {} db1 \<and> (\<forall>a. known_run db a \<longrightarrow> known_run db1 a) \<and> known_run db1 run"
  shows "io_triple (held_from w0 K) (on_db (save_run rec n)) (\<lambda>_. held_from w0 (insert run K)) (\<lambda>_. held_from w0 K)"
proof (rule tripleI)
  fix w and u :: unit and w1 assume w: "held_from w0 K w" and run: "on_db (save_run rec n) w = (Inr u, w1)"
  then have s: "save_run rec n (fst w) = (Inr (), fst w1)" by (cases w) (auto simp: on_db_def split: prod.splits)
  have "db_valid w" "\<forall>a \<in> K. db_knows w a" using w by (simp_all add: held_from_def)
  from assms [OF this [unfolded db_valid_def db_knows_def] s]
  have "db_leads w w1" "db_knows w1 run" by (simp_all add: db_leads_def db_valid_def db_knows_def)
  then show "held_from w0 (insert run K) w1" using held_leads [OF w] by (auto simp: held_from_def)
next
  fix w e w1 assume w: "held_from w0 K w" and run: "on_db (save_run rec n) w = (Inl e, w1)"
  then have "save_run rec n (fst w) = (Inl e, fst w1)" "snd w1 = snd w" by (cases w, auto simp: on_db_def split: prod.splits)+
  from save_unchanged [OF this(1)] this(2) have "w1 = w" by (simp add: prod_eq_iff)
  then show "held_from w0 K w1" using w by simp
qed

text \<open>An accepted transition of a known run, saved at the revision it was read at.\<close>

lemma save_leads:
  assumes valid: "store_inv {} db" and known: "known_run db run" and t: "transitionRun run c = Inr r" "tr_event r = Some ev"
    and ct: "canonical_time (cmd_occurredAt c)" and actor: "cmd_actor c \<noteq> PAYMENT_RECONCILER"
    and rec: "rec_aggregate rec = tr_run r" "rec_uncommittedEvent rec = Some ev"
    and ok: "save_run rec (Some (run_revision run)) db = (Inr (), db1)"
  shows "store_inv {} db1 \<and> (\<forall>a. known_run db a \<longrightarrow> known_run db1 a) \<and> known_run db1 (tr_run r)"
proof -
  let ?S = "{a. known_run db a}"
  have inv: "store_inv ?S db" using valid store_inv_known [of ?S db] by simp
  have "tables_follow run (tr_run r) ev db db1"
    by (rule save_update_follows [OF inv t ct actor rec _ ok]) (simp add: known)
  from store_advance [OF inv _ t this] known have "store_inv (insert (tr_run r) ?S) db1" by simp
  then show ?thesis using store_inv_known [of "insert (tr_run r) ?S" db1] by blast
qed

text \<open>The first event of a new run.\<close>

lemma create_leads:
  assumes valid: "store_inv {} db" and d: "createDraftRun runId now = Inr draft" and cn: "canonical_time now"
    and t: "transitionRun draft c = Inr r" "tr_event r = Some ev" and ct: "canonical_time (cmd_occurredAt c)"
    and rec: "rec_aggregate rec = tr_run r" "rec_uncommittedEvent rec = Some ev"
    and ok: "save_run rec None db = (Inr (), db1)"
  shows "store_inv {} db1 \<and> (\<forall>a. known_run db a \<longrightarrow> known_run db1 a) \<and> known_run db1 (tr_run r)"
proof -
  let ?S = "{a. known_run db a}"
  have "store_inv ?S db" using valid store_inv_known [of ?S db] by simp
  from create_inv [OF this d cn t ct rec ok] have "store_inv (insert (tr_run r) ?S) db1" .
  then show ?thesis using store_inv_known [of "insert (tr_run r) ?S" db1] by blast
qed

end
