(* ===== verification/Pipeline_Service.thy ===== *)
theory Pipeline_Service
  imports Pipeline Run_Service Workers
begin

text \<open>
  The pipeline over the run repository of \<open>Run_Store\<close>: while other workers and the payment side write to the same
  tables, everything a pipeline or a finalization does to them is a step of the run state machine, and the failures
  it reports are those the job queue and the worker's failure handler tell apart.
\<close>

section \<open>The ports of a pipeline\<close>

text \<open>Every port but the run repository keeps \<open>I\<close>.\<close>

definition pipeline_keeps :: "('w \<Rightarrow> bool) \<Rightarrow> 'w pipeline_deps \<Rightarrow> bool" where
  "pipeline_keeps I D \<longleftrightarrow> spending_keeps I D \<and> merge_keeps I D \<and> (\<forall>i. io_keeps I (pd_findQuote D i))
    \<and> (\<forall>c. io_keeps I (pd_classify D c)) \<and> (\<forall>e q. io_keeps I (pd_execute D e q)) \<and> (\<forall>u. io_keeps I (pd_sign D u))
    \<and> (\<forall>i. io_keeps I (pd_getEvidence D i)) \<and> (\<forall>r. io_keeps I (pd_putEvidence D r)) \<and> (\<forall>t. io_keeps I (pd_publish D t))
    \<and> (\<forall>a. io_keeps I (pd_submitAttestation D a)) \<and> (\<forall>i. io_keeps I (pd_getAttestation D i))
    \<and> (\<forall>r. io_keeps I (pd_putAttestation D r)) \<and> (\<forall>i. io_keeps I (pd_load D i))"

lemma pipeline_ports:
  assumes "pipeline_keeps I D"
  shows "spending_keeps I D" "merge_keeps I D" "io_keeps I (pd_findQuote D i)" "io_keeps I (pd_classify D c)"
    "io_keeps I (pd_execute D e q)" "io_keeps I (pd_sign D u)" "io_keeps I (pd_getEvidence D i)"
    "io_keeps I (pd_putEvidence D er)" "io_keeps I (pd_publish D t)" "io_keeps I (pd_submitAttestation D a)"
    "io_keeps I (pd_getAttestation D i)" "io_keeps I (pd_putAttestation D ar)" "io_keeps I (pd_load D i)"
    "io_keeps I (pd_now D)" "io_keeps I (pd_merge D i p)"
  using assms unfolding pipeline_keeps_def by (simp_all add: spending_ports(1) merge_ports)

lemma keeps_runner:
  assumes "\<And>q. io_keeps I (execute q)"
  shows "io_keeps I (run_replay P execute s)" "io_keeps I (run_invalid_credential P execute v)"
  unfolding run_replay_def replay_attempt_def run_invalid_credential_def Let_def by (intro io_intros assms)+

lemma keeps_executor:
  assumes "\<And>q. io_keeps I (execute q)" and "scenario_executor P execute s = Some f"
  shows "io_keeps I (f ctx)"
  using assms(2)
  by (auto simp: scenario_executor_def replay_executor_def invalid_executor_def Let_def split: if_splits
    intro!: io_intros keeps_runner [OF assms(1)])

lemma keeps_scenarios:
  assumes "\<And>q. io_keeps I (execute q)"
  shows "io_keeps I (run_scenarios P execute ctx ss)"
proof (induction ss)
  case Nil
  show ?case unfolding run_scenarios.simps by (intro io_intros)
next
  case (Cons s ss)
  then show ?case unfolding run_scenarios.simps by (intro io_intros keeps_executor [OF assms])
qed

lemma keeps_analysis: "pipeline_keeps I D \<Longrightarrow> io_keeps I (runRiskAnalysisPhase D i ck quote)"
  unfolding runRiskAnalysisPhase_def by (intro io_intros pipeline_ports)

lemma keeps_execution:
  assumes "pipeline_keeps I D"
  shows "io_keeps I (runExecutionPhase P D i ck plan quote b)"
proof -
  have "io_keeps I (execute_plan P D i plan quote b)"
    unfolding execute_plan_def record_settlement_def Let_def
    by (intro io_intros pipeline_ports [OF assms] keeps_scenarios)
  then show ?thesis unfolding runExecutionPhase_def by (auto split: option.split intro!: io_intros)
qed

lemma keeps_evidence: "pipeline_keeps I D \<Longrightarrow> io_keeps I (runEvidencePhase P D i quote plan proposal rs a b forced)"
  unfolding runEvidencePhase_def sign_receipt_def Let_def by (intro io_intros pipeline_ports)

lemma keeps_attestation:
  "pipeline_keeps I D \<Longrightarrow> io_keeps I (runAttestationPhase P D i ck quote h paid pack uri spend t v)"
  unfolding runAttestationPhase_def Let_def by (intro io_intros pipeline_ports)

section \<open>Steps of the run repository\<close>

text \<open>
  The ports of a pipeline over the tables: the run repository is \<open>PostgresRunRepository\<close>, the others may be awaited
  while other writers work (\<open>db_leads\<close>), and the clock shows a four-digit year.
\<close>

definition run_service :: "platform \<Rightarrow> (string \<Rightarrow> bool) \<Rightarrow> (database \<times> 'e) pipeline_deps \<Rightarrow> bool" where
  "run_service P datetime D \<longleftrightarrow> pd_findRun D = (\<lambda>i. on_db (findRunById P datetime i))
    \<and> pd_saveRun D = (\<lambda>r n. on_db (save_run r (Some n)))
    \<and> (\<forall>w0. pipeline_keeps (db_leads w0) D)
    \<and> (\<forall>w t. fst (pd_now D w) = Inr t \<longrightarrow> 0 \<le> t \<and> t < 253402300800000)"

lemma run_serviceD:
  assumes "run_service P datetime D"
  shows "pd_findRun D = (\<lambda>i. on_db (findRunById P datetime i))" "pd_saveRun D = (\<lambda>r n. on_db (save_run r (Some n)))"
    "pipeline_keeps (db_leads w0) D" "fst (pd_now D w) = Inr t \<Longrightarrow> 0 \<le> t \<and> t < 253402300800000"
  using assms unfolding run_service_def by blast+

text \<open>The invariant of a pipeline that began in \<open>w0\<close>: its current run was read from the tables or written to them.\<close>

definition steps_from :: "database \<times> 'e \<Rightarrow> (database \<times> 'e) \<times> pipe_locals \<Rightarrow> bool" where
  "steps_from w0 v \<longleftrightarrow> db_leads w0 (fst v) \<and> db_valid (fst v) \<and> db_knows (fst v) (pl_current (snd v))"

definition led_from :: "database \<times> 'e \<Rightarrow> (database \<times> 'e) \<times> pipe_locals \<Rightarrow> bool" where
  "led_from w0 v \<longleftrightarrow> db_leads w0 (fst v)"

lemma steps_led: "steps_from w0 v \<Longrightarrow> led_from w0 v"
  by (simp add: steps_from_def led_from_def)

lemma port_triple:
  assumes "\<And>w0. io_keeps (db_leads w0) m"
  shows "io_triple (\<lambda>v. steps_from w0 v \<and> snd v = l) (on_store m)
    (\<lambda>a v. (steps_from w0 v \<and> snd v = l) \<and> (\<exists>w. fst (m w) = Inr a)) (\<lambda>_. led_from w0)"
proof -
  have leads: "db_leads w (snd (m w))" for w using io_keepsD [OF assms db_leads_refl] .
  have "steps_from w0 (s, snd v)" if "steps_from w0 v" "m (fst v) = (r, s)" for v r s
    using leads [of "fst v"] that db_leads_trans [of w0 "fst v" s] db_leads_keeps [of "fst v" s]
    by (simp add: steps_from_def)
  then show ?thesis by (intro tripleI) (auto simp: on_store_ok_iff intro!: steps_led, metis fst_conv)
qed

lemma call_triple:
  assumes "\<And>w0. io_keeps (db_leads w0) m"
  shows "io_triple (steps_from w0) (on_store m) (\<lambda>_. steps_from w0) (\<lambda>_. led_from w0)"
  using port_triple [OF assms, of w0] unfolding io_triple_def by (fastforce split: prod.splits sum.splits)

lemma save_triple:
  fixes D :: "(database \<times> 'e) pipeline_deps"
  assumes D: "run_service P datetime D" and t: "transitionRun run c = Inr r" "tr_event r = Some ev"
    and ct: "canonical_time (cmd_occurredAt c)" and actor: "cmd_actor c \<noteq> PAYMENT_RECONCILER"
  shows "io_triple (\<lambda>v. held_from w0 {run} (fst v) \<and> pl_current (snd v) = tr_run r)
    (on_store (pd_saveRun D (saved_record N (tr_run r) ev) (run_revision (tr_run r) - 1))) (\<lambda>_. steps_from w0) (\<lambda>_. led_from w0)"
proof -
  have revision: "run_revision (tr_run r) - 1 = run_revision run" using transition_facts(7) [OF t] by simp
  have save: "io_triple (held_from w0 {run}) (on_db (save_run (saved_record N (tr_run r) ev) (Some (run_revision run))))
      (\<lambda>_. held_from w0 (insert (tr_run r) {run})) (\<lambda>_. held_from w0 {run})"
    by (rule saved_triple) (rule save_leads [OF _ _ t ct actor], simp_all add: saved_record_def)
  show ?thesis unfolding run_serviceD(2) [OF D] revision
  proof (rule tripleI)
    fix v and u :: unit and v1 :: "(database \<times> 'e) \<times> pipe_locals" assume v: "held_from w0 {run} (fst v) \<and> pl_current (snd v) = tr_run r"
      and run: "on_store (on_db (save_run (saved_record N (tr_run r) ev) (Some (run_revision run)))) v = (Inr u, v1)"
    then show "steps_from w0 v1" using tripleD(1) [OF save conjunct1 [OF v]]
      by (auto simp: on_store_ok_iff steps_from_def held_from_def)
  next
    fix v e and v1 :: "(database \<times> 'e) \<times> pipe_locals" assume v: "held_from w0 {run} (fst v) \<and> pl_current (snd v) = tr_run r"
      and run: "on_store (on_db (save_run (saved_record N (tr_run r) ev) (Some (run_revision run)))) v = (Inl e, v1)"
    then show "led_from w0 v1" using tripleD(2) [OF save conjunct1 [OF v]]
      by (auto simp: on_store_ok_iff led_from_def held_from_def)
  qed
qed

lemma replayed_run: "transitionRun run c = Inr r \<Longrightarrow> tr_event r = None \<Longrightarrow> tr_run r = run"
  by (auto simp: transitionRun_def Let_def res_bind_Inr_iff split: if_splits option.splits)

lemma transition_status: "transitionRun run c = Inr r \<Longrightarrow> tr_event r \<noteq> None \<Longrightarrow> run_status_of (tr_run r) = cmd_to c"
  using transition_facts(7) by fastforce

text \<open>A step of the state machine, taken at the revision the current run has.\<close>

lemma step_triple:
  assumes D: "run_service P datetime D" and actor: "actor \<noteq> PAYMENT_RECONCILER"
  shows "io_triple (steps_from w0) (step_run D N actor to) (\<lambda>_. steps_from w0) (\<lambda>_. led_from w0)"
proof -
  let ?c = "\<lambda>run t. \<lparr>cmd_actor = actor, cmd_expectedRevision = run_revision run,
      cmd_idempotencyKey = ''orchestrator:'' @ pn_runId N @ '':'' @ status_name to, cmd_occurredAt = to_iso_string t, cmd_to = to\<rparr>"
  let ?held = "\<lambda>run r v. held_from w0 {run} (fst v) \<and> pl_current (snd v) = tr_run r"
  have save: "io_triple (?held run r)
      (case tr_event r of None \<Rightarrow> io_ret ()
       | Some ev \<Rightarrow> on_store (pd_saveRun D (saved_record N (tr_run r) ev) (run_revision (tr_run r) - 1)))
      (\<lambda>_. steps_from w0) (\<lambda>_. led_from w0)"
    if "transitionRun run (?c run t) = Inr r" "0 \<le> t \<and> t < 253402300800000" for run t r
  proof (cases "tr_event r")
    case None
    then show ?thesis using replayed_run [OF that(1)] by (auto simp: steps_from_def held_from_def intro!: triple_ret)
  next
    case (Some ev)
    show ?thesis unfolding Some option.case
      by (rule save_triple [OF D that(1) Some]) (use that(2) db.iso_canonical actor in simp_all)
  qed
  have moved: "io_triple (\<lambda>v. (steps_from w0 v \<and> snd v = l) \<and> transitionRun (pl_current l) (?c (pl_current l) t) = Inr r)
      (io_modify (\<lambda>(w, l). (w, l\<lparr>pl_current := tr_run r, pl_advancedPastFunded := True\<rparr>))) (\<lambda>_. ?held (pl_current l) r) E" for l t r E
    by (auto simp: io_triple_def steps_from_def held_from_def split_beta)
  note now = pipeline_ports(14) [OF run_serviceD(3) [OF D]]
  note clock = run_serviceD(4) [OF D]
  show ?thesis
  proof (rule triple_each [where g = snd])
    fix l
    let ?rest = "\<lambda>run t. io_bind (io_lift (transitionRun run (?c run t))) (\<lambda>result.
      io_then (io_modify (\<lambda>(w, l). (w, l\<lparr>pl_current := tr_run result, pl_advancedPastFunded := True\<rparr>)))
      (case tr_event result of None \<Rightarrow> io_ret ()
       | Some ev \<Rightarrow> on_store (pd_saveRun D (saved_record N (tr_run result) ev) (run_revision (tr_run result) - 1))))"
    have rest: "io_triple (\<lambda>v. (steps_from w0 v \<and> snd v = l) \<and> (\<exists>w. fst (pd_now D w) = Inr t)) (?rest (pl_current l) t)
        (\<lambda>_. steps_from w0) (\<lambda>_. led_from w0)" for t
    proof (rule triple_given, rule triple_bind [OF triple_lift])
      fix r assume t: "\<exists>w. fst (pd_now D w) = Inr t"
      show "io_triple (\<lambda>v. (steps_from w0 v \<and> snd v = l) \<and> transitionRun (pl_current l) (?c (pl_current l) t) = Inr r)
          (io_then (io_modify (\<lambda>(w, l). (w, l\<lparr>pl_current := tr_run r, pl_advancedPastFunded := True\<rparr>)))
          (case tr_event r of None \<Rightarrow> io_ret ()
           | Some ev \<Rightarrow> on_store (pd_saveRun D (saved_record N (tr_run r) ev) (run_revision (tr_run r) - 1))))
          (\<lambda>_. steps_from w0) (\<lambda>_. led_from w0)"
        by (rule triple_assume, rule triple_then [OF moved save]) (use t clock in blast)+
    qed (simp add: steps_led)
    have "io_triple (\<lambda>v. steps_from w0 v \<and> snd v = l) (io_bind (on_store (pd_now D)) (?rest (pl_current l)))
        (\<lambda>_. steps_from w0) (\<lambda>_. led_from w0)"
      by (rule triple_bind [OF port_triple [OF now] rest])
    then show "io_triple (\<lambda>v. steps_from w0 v \<and> snd v = l) (step_run D N actor to) (\<lambda>_. steps_from w0) (\<lambda>_. led_from w0)"
      by (auto simp: io_triple_def step_run_def io_bind_apply)
  qed
qed

lemma advance_triple:
  assumes "run_service P datetime D" and "actor \<noteq> PAYMENT_RECONCILER"
  shows "io_triple (steps_from w0) (advance D N actor to) (\<lambda>_. steps_from w0) (\<lambda>_. led_from w0)"
  unfolding advance_def
  by (intro triple_bind [OF triple_get_const] triple_if triple_ret step_triple [OF assms])

lemma deliver_triple:
  assumes "run_service P datetime D"
  shows "io_triple (steps_from w0) (deliver D N final) (\<lambda>_. steps_from w0) (\<lambda>_. led_from w0)"
  unfolding deliver_def io_when_def
  by (intro triple_bind [OF triple_get_const] triple_if triple_ret step_triple [OF assms]) simp_all

lemma phase_triple:
  assumes "\<And>w0. io_keeps (db_leads w0) m"
  shows "io_triple (steps_from w0) (on_store m) (\<lambda>_. steps_from w0) (\<lambda>_. led_from w0)"
  by (rule call_triple [OF assms])

lemma pipeline_steps_triple:
  assumes D: "run_service P datetime D"
  shows "io_triple (steps_from w0) (pipeline_steps P' D N ck quote h paid) (\<lambda>_. steps_from w0) (\<lambda>_. led_from w0)"
proof -
  note ports = run_serviceD(3) [OF D]
  note procured = keeps_procure [OF pipeline_ports(1,2) [OF ports]]
  show ?thesis unfolding pipeline_steps_def Let_def
    by (intro triple_then [OF advance_triple [OF D]] triple_bind_case2 [OF phase_triple [OF keeps_analysis [OF ports]]]
      triple_bind [OF triple_get_const] triple_bind [OF phase_triple [OF procured]]
      triple_bind_case3 [OF phase_triple [OF keeps_execution [OF ports]]]
      triple_bind_case3 [OF phase_triple [OF keeps_evidence [OF ports]]]
      triple_bind [OF phase_triple [OF keeps_attestation [OF ports]]] triple_then [OF deliver_triple [OF D]] triple_ret)
     simp_all
qed

lemma finalize_steps_triple:
  assumes D: "run_service P datetime D"
  shows "io_triple (steps_from w0) (finalize_steps P' D N ck quote h paid reason) (\<lambda>_. steps_from w0) (\<lambda>_. led_from w0)"
proof -
  note ports = run_serviceD(3) [OF D]
  note lift = triple_lift_const [where P = "steps_from w0" and E = "\<lambda>_. led_from w0", OF steps_led]
  show ?thesis unfolding finalize_steps_def Let_def io_when_def
    by (intro triple_bind_case3 [OF phase_triple [OF keeps_evidence [OF ports]]] triple_bind [OF triple_get_const] triple_bind [OF lift]
      triple_then [OF triple_if [OF advance_triple [OF D] triple_ret]] triple_then [OF advance_triple [OF D]]
      triple_bind [OF phase_triple [OF keeps_attestation [OF ports]]] triple_then [OF deliver_triple [OF D]] triple_ret)
     simp_all
qed

section \<open>Properties\<close>

lemma held_steps:
  assumes "io_triple (steps_from w0) m (\<lambda>_. steps_from w0) (\<lambda>_. led_from w0)" and "pl_current l = run"
  shows "io_triple (held_from w0 {run}) (guarded_steps i l m) (\<lambda>_. db_leads w0) (\<lambda>_. db_leads w0)"
    and "io_triple (held_from w0 {run}) (unguarded_steps l m) (\<lambda>_. db_leads w0) (\<lambda>_. db_leads w0)"
proof -
  have "db_leads w0 (fst (snd (m (w, l))))" if "held_from w0 {run} w" for w
  proof -
    have "steps_from w0 (w, l)" using that assms(2) by (simp add: held_from_def steps_from_def)
    then have "led_from w0 (snd (m (w, l)))"
      by (rule triple_snd [rotated]) (rule triple_post [OF assms(1)], simp_all add: steps_led)
    then show ?thesis by (simp add: led_from_def)
  qed
  then show "io_triple (held_from w0 {run}) (guarded_steps i l m) (\<lambda>_. db_leads w0) (\<lambda>_. db_leads w0)"
    "io_triple (held_from w0 {run}) (unguarded_steps l m) (\<lambda>_. db_leads w0) (\<lambda>_. db_leads w0)"
    by (auto intro!: tripleI simp: guarded_steps_def unguarded_steps_def split: prod.splits sum.splits) (metis fst_conv snd_conv)+
qed

text \<open>What follows the lookup of the run, and the reads before the first step.\<close>

lemma after_lookup:
  assumes D: "run_service P datetime D" and "db_valid w" and "\<And>found. io_triple (held_from w (known_of found)) (f found) (\<lambda>_. db_leads w) (\<lambda>_. db_leads w)"
  shows "db_leads w (snd (io_bind (pd_findRun D i) f w))"
proof -
  have "held_from w {} w" using assms(2) by (simp add: held_from_def db_leads_refl)
  moreover have find: "io_triple (held_from w {}) (on_db (findRunById P datetime i)) (\<lambda>found. held_from w (known_of found)) (\<lambda>_. db_leads w)"
    by (rule triple_post [OF find_triples(1)]) (simp_all add: held_led)
  have "io_triple (held_from w {}) (io_bind (pd_findRun D i) f) (\<lambda>_. db_leads w) (\<lambda>_. db_leads w)"
    unfolding run_serviceD(1) [OF D] by (rule triple_bind [OF find assms(3)])
  ultimately show ?thesis by (rule triple_snd [rotated])
qed

lemma held_reads:
  assumes "run_service P datetime D"
  shows "io_triple (held_from w0 K) (pd_findQuote D q) (\<lambda>_. held_from w0 K) (\<lambda>_. db_leads w0)"
    and "io_triple (held_from w0 K) (pd_load D i) (\<lambda>_. held_from w0 K) (\<lambda>_. db_leads w0)"
  by (rule triple_post [OF held_port [OF pipeline_ports(3) [OF run_serviceD(3) [OF assms]]]], simp_all add: held_led)
    (rule triple_post [OF held_port [OF pipeline_ports(13) [OF run_serviceD(3) [OF assms]]]], simp_all add: held_led)

lemma pipeline_leads:
  assumes D: "run_service P datetime D" and valid: "db_valid w"
  shows "db_leads w (snd (runOrchestratorPipeline P1 D i w))"
  unfolding runOrchestratorPipeline_def Let_def
  by (rule after_lookup [OF assms])
    (auto simp: held_led intro!: triple_if triple_throw triple_bind [OF held_reads(1) [OF D]] triple_bind [OF held_reads(2) [OF D]]
      held_steps(1) [OF pipeline_steps_triple [OF D]] split: option.split)

lemma finalize_leads:
  assumes D: "run_service P datetime D" and valid: "db_valid w"
  shows "db_leads w (snd (finalizeRunAsInconclusive P1 D i reason w))"
  unfolding finalizeRunAsInconclusive_def
  by (rule after_lookup [OF assms])
    (auto simp: held_led intro!: triple_if triple_ret triple_bind [OF held_reads(1) [OF D]] triple_bind [OF held_reads(2) [OF D]]
      triple_bind [OF held_steps(2) [OF finalize_steps_triple [OF D]]] split: option.split)

text \<open>
  C7: whatever a pipeline or a finalization does to the tables is a step of the run state machine: while other workers
  write to the same tables, and whether the pipeline returns or throws, the tables still refine the state machine, and
  every aggregate known before is still in the past of the stored run.
\<close>

theorem pipeline_keeps_service:
  assumes "run_service P datetime D" and "service S (fst w)"
  shows "store_inv S (fst (snd (runOrchestratorPipeline P1 D i w)))
    \<and> store_inv S (fst (snd (finalizeRunAsInconclusive P1 D i reason w)))"
proof -
  have "db_valid w" using service_inv [OF assms(2)] store_inv_known [of S "fst w"] by (simp add: db_valid_def)
  then show ?thesis
    using db_leads_service [OF pipeline_leads [OF assms(1)] assms(2)] db_leads_service [OF finalize_leads [OF assms(1)] assms(2)]
    by blast
qed

subsection \<open>Resuming\<close>

text \<open>
  C13: a resumed run repeats nothing its checkpoint records.  With a plan recorded the model is not asked again; with
  evidence no scenario is executed; with a purchase receipt no nonce is drawn and nothing signed, and with a target payment nothing
  authorized; with a transfer the bridge is neither quoted nor asked to submit, and with its delivery not polled; with a
  refund nonce none is reserved, and with a refund the sender is not called at all; with an attestation none is
  submitted.  The run goes the same, in result and in world, with any other port in place of each of these.
\<close>

theorem resumed_run_repeats_nothing:
  assumes "pd_findRun D i w = (Inr (Some r), w1)" and "pd_findQuote D (rec_quoteId r) w1 = (Inr (Some quote), w2)"
    and "pd_load D i w2 = (Inr ck, w3)"
  shows "runOrchestratorPipeline P (resumed s ck D) i w = runOrchestratorPipeline P D i w"
  unfolding runOrchestratorPipeline_def Let_def resumed_simps
  by (simp add: io_bind_apply assms resumed_pipeline cong: if_cong)

subsection \<open>Failures before the first transition\<close>

text \<open>The flag of the failure, once set, stays set.\<close>

definition past_funded :: "'w \<times> pipe_locals \<Rightarrow> bool" where
  "past_funded v \<longleftrightarrow> pl_advancedPastFunded (snd v)"

lemma past_store: "io_keeps past_funded (on_store m)"
  by (rule io_keepsI) (auto simp: past_funded_def on_store_def split: prod.splits)

lemma past_step: "io_keeps past_funded (step_run D N actor to)"
  unfolding step_run_def
  by (intro io_intros past_store) (auto simp: past_funded_def intro!: io_keepsI)

lemma past_advance: "io_keeps past_funded (advance D N actor to)" "io_keeps past_funded (deliver D N final)"
  unfolding advance_def deliver_def by (intro io_intros past_step)+

lemma keeps_case_prod3 [io_intros]: "(\<And>a b c. io_keeps I (f a b c)) \<Longrightarrow> io_keeps I (case p of (a, b, c) \<Rightarrow> f a b c)"
  by (cases p) simp

lemma steps_after_analyzing:
  "\<exists>R. pipeline_steps P D N ck quote h paid = io_then (advance D N ORCHESTRATOR ANALYZING) R \<and> io_keeps past_funded R"
  unfolding pipeline_steps_def Let_def
  by (rule exI, rule conjI, rule refl) (intro io_intros past_store past_advance)

lemma early_step:
  assumes "step_run D N actor to v = (r, v1)" and "\<not> past_funded v1"
  shows "(\<exists>e. r = Inl e) \<and> fst v1 = snd (pd_now D (fst v))"
  using assms
  by (auto simp: step_run_def io_bind_apply io_then_apply past_funded_def on_store_ok_iff on_store_def split_beta
    split: sum.splits prod.splits option.splits)

lemma early_failure:
  assumes "pipeline_steps P D N ck quote h paid (w, l) = (Inl e, v)" and "\<not> past_funded v"
    and "pl_advancedPastFunded l \<longleftrightarrow> run_status_of (pl_current l) \<noteq> FUNDED"
  shows "run_status_of (pl_current l) = FUNDED \<and> fst v = snd (pd_now D w)"
proof -
  obtain R where R: "pipeline_steps P D N ck quote h paid = io_then (advance D N ORCHESTRATOR ANALYZING) R" "io_keeps past_funded R"
    using steps_after_analyzing by blast
  obtain r v1 where first: "advance D N ORCHESTRATOR ANALYZING (w, l) = (r, v1)" by (cases "advance D N ORCHESTRATOR ANALYZING (w, l)")
  then have "\<not> past_funded v1"
    using assms(1,2) io_keepsE [OF R(2), of v1 "Inl e" v] unfolding R(1) by (auto simp: io_then_apply split: sum.splits)
  moreover from this have funded: "run_status_of (pl_current l) = FUNDED"
    using first assms(3) io_keepsE [OF past_advance(1) _ first] by (auto simp: past_funded_def)
  ultimately have "step_run D N ORCHESTRATOR ANALYZING (w, l) = (r, v1)"
    using first by (simp add: advance_def io_bind_apply status_order_def)
  from early_step [OF this \<open>\<not> past_funded v1\<close>] show ?thesis
    using first assms(1) funded unfolding R(1) by (auto simp: io_then_apply)
qed

text \<open>
  A failure that says the run did not advance past FUNDED is one of a run that is FUNDED, before anything was
  written, sent or asked: the run, its quote and its checkpoint were read, and the clock.
\<close>

theorem early_failure_only_read:
  assumes "pd_findRun D i w = (Inr (Some r), w1)" and "pd_findQuote D (rec_quoteId r) w1 = (Inr (Some quote), w2)"
    and "pd_load D i w2 = (Inr ck, w3)"
    and "runOrchestratorPipeline P D i w = (Inl (Orchestrator_pipeline m False cause), w4)"
  shows "run_status_of (rec_aggregate r) = FUNDED \<and> w4 = snd (pd_now D w3)"
proof -
  let ?l = "\<lparr>pl_current = rec_aggregate r, pl_advancedPastFunded = (run_status_of (rec_aggregate r) \<noteq> FUNDED)\<rparr>"
  obtain N h paid where run: "guarded_steps i ?l (pipeline_steps P D N ck quote h paid) w3
      = (Inl (Orchestrator_pipeline m False cause), w4)"
    using assms(4) by (auto simp: runOrchestratorPipeline_def io_bind_apply assms(1-3) Let_def split: if_splits)
  then obtain e l where "pipeline_steps P D N ck quote h paid (w3, ?l) = (Inl e, (w4, l))" "\<not> pl_advancedPastFunded l"
    by (auto simp: guarded_steps_def rethrown_def split: prod.splits sum.splits exn.splits)
  from early_failure [OF this(1)] this(2) show ?thesis by (simp add: past_funded_def)
qed

subsection \<open>Targets no payer reaches\<close>

definition unserved :: "(acquire_request \<Rightarrow> ('w, acquired_payment) io) \<Rightarrow> (string \<Rightarrow> delivery_request \<Rightarrow> ('w, delivery_attempt) io)
    \<Rightarrow> 'w refund_sender option \<Rightarrow> (attestation_input \<Rightarrow> ('w, string) io) \<Rightarrow> 'w pipeline_deps \<Rightarrow> 'w pipeline_deps" where
  "unserved a x R t D = D\<lparr>pd_acquire := a, pd_execute := x, pd_refundSender := R, pd_submitAttestation := t\<rparr>"

lemma unserved_simps [simp]:
  "pd_findRun (unserved a x R t D) = pd_findRun D" "pd_saveRun (unserved a x R t D) = pd_saveRun D"
  "pd_findQuote (unserved a x R t D) = pd_findQuote D" "pd_classify (unserved a x R t D) = pd_classify D"
  "pd_mandatoryScenarios (unserved a x R t D) = pd_mandatoryScenarios D" "pd_load (unserved a x R t D) = pd_load D"
  "pd_merge (unserved a x R t D) = pd_merge D" "pd_now (unserved a x R t D) = pd_now D"
  "pd_homeChainId (unserved a x R t D) = pd_homeChainId D" "pd_crossChainPayers (unserved a x R t D) = pd_crossChainPayers D"
  by (simp_all add: unserved_def)

lemma unserved_parts:
  "step_run (unserved a x R t D) = step_run D" "advance (unserved a x R t D) = advance D"
  "runRiskAnalysisPhase (unserved a x R t D) = runRiskAnalysisPhase D"
  "targetIsRemote (unserved a x R t D) = targetIsRemote D" "resolveCrossChainPayer (unserved a x R t D) = resolveCrossChainPayer D"
proof -
  show step: "step_run (unserved a x R t D) = step_run D" unfolding fun_eq_iff step_run_def unserved_simps by simp
  show "advance (unserved a x R t D) = advance D" unfolding fun_eq_iff advance_def step by simp
  show "runRiskAnalysisPhase (unserved a x R t D) = runRiskAnalysisPhase D"
    unfolding fun_eq_iff runRiskAnalysisPhase_def classification_of_def unserved_simps by simp
  show remote: "targetIsRemote (unserved a x R t D) = targetIsRemote D" unfolding fun_eq_iff targetIsRemote_def unserved_simps by simp
  show "resolveCrossChainPayer (unserved a x R t D) = resolveCrossChainPayer D"
    unfolding fun_eq_iff resolveCrossChainPayer_def remote unserved_simps by simp
qed

lemma unreachable_procure:
  assumes "targetIsRemote D quote" and "resolveCrossChainPayer D quote = None"
  shows "procure P D i ck plan quote s = io_throw (Procurement_denied [''NO_PAYER_FOR_TARGET_CHAIN''])"
    "procure P (unserved a x R t D) i ck plan quote s = io_throw (Procurement_denied [''NO_PAYER_FOR_TARGET_CHAIN''])"
  using assms by (simp_all add: procure_def unserved_parts)

lemma unreachable_steps:
  assumes "targetIsRemote D quote" and "resolveCrossChainPayer D quote = None"
  shows "pipeline_steps P D N ck quote h paid v \<noteq> (Inr b, v1)"
    and "pipeline_steps P (unserved a x R t D) N ck quote h paid v = pipeline_steps P D N ck quote h paid v"
proof -
  note refused = unreachable_procure [OF assms]
  show "pipeline_steps P D N ck quote h paid v \<noteq> (Inr b, v1)"
    by (auto simp: pipeline_steps_def Let_def io_ok on_store_ok_iff refused split_beta)
  show "pipeline_steps P (unserved a x R t D) N ck quote h paid v = pipeline_steps P D N ck quote h paid v"
    unfolding pipeline_steps_def Let_def unserved_parts
    by (intro then_cong bind_cong2 bind_cong refl) (simp_all add: refused on_store_ok_iff)
qed

text \<open>
  C36: a target on another chain that no registered payer serves is refused: the pipeline never returns, and neither
  the home-chain payer, the target, the refunds nor the attestor are ever asked for anything.
\<close>

theorem unreachable_target_refused:
  assumes "pd_findRun D i w = (Inr (Some r), w1)" and "pd_findQuote D (rec_quoteId r) w1 = (Inr (Some quote), w2)"
    and "targetIsRemote D quote" and "resolveCrossChainPayer D quote = None"
  shows "\<not> res_ok (fst (runOrchestratorPipeline P D i w))
    \<and> runOrchestratorPipeline P (unserved a x R t D) i w = runOrchestratorPipeline P D i w"
proof
  note steps = unreachable_steps [OF assms(3,4)]
  have "guarded_steps i l (pipeline_steps P D N ck quote h paid) v \<noteq> (Inr b, v1)" for l N ck h paid v b v1
    using steps(1) by (auto simp: guarded_steps_def split: prod.splits sum.splits)
  then have "runOrchestratorPipeline P D i w \<noteq> (Inr b, v)" for b v
    by (auto simp: runOrchestratorPipeline_def Let_def io_bind_apply assms(1,2) split: prod.splits sum.splits)
  then show "\<not> res_ok (fst (runOrchestratorPipeline P D i w))" by (metis res_ok_iff prod.collapse)
  have "guarded_steps i l (pipeline_steps P (unserved a x R t D) N ck quote h paid)
      = guarded_steps i l (pipeline_steps P D N ck quote h paid)" for l N ck h paid
    by (rule ext, rule guarded_cong, rule steps(2))
  then show "runOrchestratorPipeline P (unserved a x R t D) i w = runOrchestratorPipeline P D i w"
    by (simp add: runOrchestratorPipeline_def Let_def io_bind_apply assms(1,2) cong: if_cong)
qed

subsection \<open>Where runs get stuck\<close>

text \<open>
  The classifier's schema admits \<open>constructor\<close>, and the executor found under that name returns no evidence.  Once
  the result is checkpointed every later step that reads it throws, the finalization included.
\<close>

lemma constructor_has_no_evidence: "run_scenarios P execute ctx [''constructor''] w = (Inr [None], w)"
  by (simp add: scenario_executor_def io_bind_apply)

lemma no_evidence_stuck: "None \<in> set rs \<Longrightarrow> \<exists>e. with_evidence rs = Inl e"
  unfolding with_evidence_def by (induction rs) (auto simp: res_bind_def split: option.splits sum.splits)

lemma finalize_stuck:
  assumes "ck_evidence ck = Some rs" and "None \<in> set rs"
  shows "\<exists>e. finalize_steps P D N ck quote h paid reason v = (Inl e, v)"
  using no_evidence_stuck [OF assms(2)]
  by (auto simp: finalize_steps_def Let_def io_bind_apply assms(1) receiptable_def)

text \<open>The mandate is built for the host of the endpoint with its port, which is no host.\<close>

lemma port_is_no_host: "\<not> res_ok (canonicalizeHost ''target.example:8443'')"
  by code_simp

section \<open>A worker on a concrete run\<close>

definition demo_funded_record :: run_record where
  "demo_funded_record = \<lparr>rec_aggregate = \<lparr>run_id = ''run-1'', run_status_of = FUNDED, run_result_of = None, run_revision = 3,
       run_createdAt = ''2026-01-01T00:00:00.000Z'', run_updatedAt = ''2026-01-01T00:00:00.000Z'',
       run_appliedIdempotencyKeys = []\<rparr>,
     rec_quoteId = ''q1'', rec_requestIdempotencyKey = ''request-1'', rec_paymentOrder = None, rec_uncommittedEvent = None,
     rec_customerPaymentProofHash = Some demo_nonce, rec_customerPaymentAtomic = Some ''1000'',
     rec_customerPaymentTransactionHash = None, rec_customerPaymentChainId = None\<rparr>"

definition demo_worker_ports :: "demo_world pipeline_deps" where
  "demo_worker_ports = demo_ports\<lparr>pd_findRun := \<lambda>_. io_ret (Some demo_funded_record)\<rparr>"

lemma demo_worker_reads:
  "pd_findRun demo_worker_ports i w = (Inr (Some demo_funded_record), w)"
  "pd_findQuote demo_worker_ports q w = (Inr (Some demo_target), w)"
  "pd_load demo_worker_ports i w = (Inr (read_checkpoint (fst w) i), w)"
  by (simp_all add: demo_worker_ports_def demo_ports_def table_load_eq)

text \<open>A run that crashed just before its delivery: nothing costly is asked again.\<close>

definition demo_done :: checkpoint where
  "demo_done = empty_checkpoint\<lparr>ck_plan := Some demo_paid_plan, ck_purchaseReceipt := Some ''header'',
     ck_refundTransactionHash := Some demo_nonce, ck_evidence := Some [], ck_startedAt := Some 1, ck_completedAt := Some 2,
     ck_attestationTransactionHash := Some demo_nonce\<rparr>"

definition demo_idle :: "demo_world other_ports" where
  "demo_idle = \<lparr>ot_classify = (\<lambda>_. io_throw (Js_error ''asked again'')), ot_execute = (\<lambda>_ _. io_throw (Js_error ''executed again'')),
     ot_acquire = (\<lambda>_. io_throw (Js_error ''signed again'')), ot_randomBytes = io_throw (Js_error ''drawn again''),
     ot_reserveNonce = io_throw (Js_error ''reserved again''),
     ot_isNonceConsumed = (\<lambda>_. io_throw (Js_error ''checked again'')), ot_refund = (\<lambda>_. io_throw (Js_error ''refunded again'')),
     ot_payTarget = (\<lambda>_ _. io_throw (Js_error ''paid again'')), ot_quoteBridge = (\<lambda>_. io_throw (Js_error ''quoted again'')),
     ot_getStatus = (\<lambda>_. io_throw (Js_error ''polled again'')), ot_submitBridge = (\<lambda>_ _ _. io_throw (Js_error ''bridged again'')),
     ot_attest = (\<lambda>_. io_throw (Js_error ''attested again''))\<rparr>"

theorem resumed_run_repeats_nothing_witness:
  "let D = demo_worker_ports\<lparr>pd_load := \<lambda>_. io_ret demo_done\<rparr> in
     runOrchestratorPipeline demo_payments (resumed demo_idle demo_done D) ''run-1'' (Map.empty, 0)
   = runOrchestratorPipeline demo_payments D ''run-1'' (Map.empty, 0)"
  unfolding Let_def
  by (rule resumed_run_repeats_nothing [where r = demo_funded_record and quote = demo_target and ?w1.0 = "(Map.empty, 0)"
      and ?w2.0 = "(Map.empty, 0)" and ?w3.0 = "(Map.empty, 0)"]) (simp_all add: demo_worker_reads)

theorem early_failure_only_read_witness:
  "\<exists>w. runOrchestratorPipeline demo_payments (demo_worker_ports\<lparr>pd_now := io_throw (Js_error ''clock'')\<rparr>) ''run-1'' (Map.empty, 0)
      = (Inl (Orchestrator_pipeline ''Orchestrator pipeline failed for run run-1'' False (Js_error ''clock'')), w)
    \<and> run_status_of (rec_aggregate demo_funded_record) = FUNDED \<and> w = (Map.empty, 0)"
proof -
  let ?D = "demo_worker_ports\<lparr>pd_now := io_throw (Js_error ''clock'')\<rparr>"
  have run: "runOrchestratorPipeline demo_payments ?D ''run-1'' (Map.empty, 0)
      = (Inl (Orchestrator_pipeline ''Orchestrator pipeline failed for run run-1'' False (Js_error ''clock'')), (Map.empty, 0))"
    by (simp add: runOrchestratorPipeline_def io_bind_apply demo_worker_reads Let_def demo_funded_record_def resumable_def
      status_order_def demo_nonce_def guarded_steps_def pipeline_steps_def io_then_apply advance_def step_run_def on_store_def
      rethrown_def)
  have "run_status_of (rec_aggregate demo_funded_record) = FUNDED \<and> (Map.empty, 0) = snd (pd_now ?D (Map.empty, 0))"
    by (rule early_failure_only_read [OF _ _ _ run]) (simp_all add: demo_worker_reads read_checkpoint_def)
  then show ?thesis using run by simp
qed

theorem unreachable_target_refused_witness:
  "\<not> res_ok (fst (runOrchestratorPipeline demo_payments
      (demo_worker_ports\<lparr>pd_findQuote := \<lambda>_. io_ret (Some (demo_target\<lparr>q_targetChainId := Some 1\<rparr>))\<rparr>) ''run-1'' (Map.empty, 0)))"
  by (rule unreachable_target_refused [THEN conjunct1])
    (simp_all add: demo_worker_reads, simp_all add: targetIsRemote_def resolveCrossChainPayer_def demo_worker_ports_def
      demo_ports_def demo_remote_payer_def)

subsection \<open>The same worker beside the tables\<close>

definition on_env :: "('e, 'a) io \<Rightarrow> ('d \<times> 'e, 'a) io" where
  "on_env m = (\<lambda>(d, e). case m e of (r, e1) \<Rightarrow> (r, (d, e1)))"

definition demo_table_ports :: "(database \<times> demo_world) pipeline_deps" where
  "demo_table_ports = \<lparr>pd_findRun = (\<lambda>i. on_db (findRunById demo_platform (\<lambda>_. True) i)),
     pd_saveRun = (\<lambda>r n. on_db (save_run r (Some n))), pd_findQuote = (\<lambda>i. on_env (pd_findQuote demo_ports i)),
     pd_classify = (\<lambda>c. on_env (pd_classify demo_ports c)), pd_mandatoryScenarios = [''payment-proof-replay''],
     pd_shipyardAgentId = ''shipyard'', pd_toolAgentId = ''agent'', pd_toolVersion = ''1.0.0'', pd_toolChainId = 56,
     pd_providerSignerAddress = None, pd_execute = (\<lambda>e q. on_env (pd_execute demo_ports e q)),
     pd_acquire = (\<lambda>q. on_env (pd_acquire demo_ports q)), pd_procurementAllowedAssets = [demo_payer], pd_homeChainId = 2345,
     pd_crossChainPayers = [], pd_refundSender = None, pd_sign = (\<lambda>u. on_env (pd_sign demo_ports u)), pd_hash_typed = tr_runId,
     pd_getEvidence = (\<lambda>i. on_env (pd_getEvidence demo_ports i)), pd_putEvidence = (\<lambda>r. on_env (pd_putEvidence demo_ports r)),
     pd_publish = (\<lambda>s. on_env (pd_publish demo_ports s)), pd_attestorAddress = demo_payer, pd_registryAddress = demo_payer,
     pd_attestorChainId = 2345, pd_submitAttestation = (\<lambda>a. on_env (pd_submitAttestation demo_ports a)),
     pd_getAttestation = (\<lambda>i. on_env (pd_getAttestation demo_ports i)),
     pd_putAttestation = (\<lambda>r. on_env (pd_putAttestation demo_ports r)), pd_load = (\<lambda>i. on_env (pd_load demo_ports i)),
     pd_merge = (\<lambda>i p. on_env (pd_merge demo_ports i p)), pd_recordLeg = None, pd_now = on_env (pd_now demo_ports),
     pd_randomBytes = on_env (pd_randomBytes demo_ports)\<rparr>"

lemma keeps_env: "io_keeps (db_leads w0) (on_env m)"
proof (rule io_keepsI)
  fix w assume "db_leads w0 w"
  moreover have "fst (snd (on_env m w)) = fst w" by (cases w) (simp add: on_env_def split: prod.splits)
  ultimately show "db_leads w0 (snd (on_env m w))" by (simp add: db_leads_def db_valid_def db_knows_def)
qed

lemma demo_clock: "fst (on_env (pd_now demo_ports) w) = Inr t \<Longrightarrow> 0 \<le> t \<and> t < 253402300800000"
  by (cases w) (auto simp: on_env_def demo_ports_def)

lemma demo_run_service: "run_service demo_platform (\<lambda>_. True) demo_table_ports"
  unfolding run_service_def pipeline_keeps_def spending_keeps_def merge_keeps_def demo_table_ports_def
  by (simp del: split_paired_All add: keeps_env demo_clock)

theorem pipeline_keeps_service_witness:
  "store_inv {tr_run demo_funding, tr_run demo_required, tr_run demo_quoted}
     (fst (snd (runOrchestratorPipeline demo_payments demo_table_ports ''run-1'' (demo_db3, (Map.empty, 0)))))"
  by (rule pipeline_keeps_service [OF demo_run_service, THEN conjunct1]) (simp add: demo_service)

end
