(* ===== verification/Session_Auth.thy ===== *)
theory Session_Auth
  imports Platform
begin

text \<open>
  Sessions of the API gateway (\<open>apps/api-gateway/src/session-auth.ts\<close>): a wallet proves control of its address once,
  and a bearer token carries the address from then on.  The HMAC-SHA256 of \<open>node:crypto\<close> in base64url and the
  recovery of viem's \<open>recoverMessageAddress\<close> are parameters.
\<close>

section \<open>Logging in\<close>

definition login_validity_seconds :: int where "login_validity_seconds = 300"

definition loginMessage :: "string \<Rightarrow> int \<Rightarrow> string" where
  "loginMessage address issuedAt = ''Shipyard402 login'' @ [CHR 0x0A] @ ''address: '' @ to_lower address @ [CHR 0x0A]
     @ ''issued at: '' @ int_to_string issuedAt"

text \<open>\<open>recover message signature\<close> is \<open>None\<close> when the library throws.\<close>

definition verifyLoginSignature :: "(string \<Rightarrow> string \<Rightarrow> string option) \<Rightarrow> string \<Rightarrow> string \<Rightarrow> int \<Rightarrow> int \<Rightarrow> bool" where
  "verifyLoginSignature recover address signature issuedAt nowSec =
    (if login_validity_seconds < \<bar>nowSec - issuedAt\<bar> then False
     else case recover (loginMessage address issuedAt) signature of
       None \<Rightarrow> False | Some recovered \<Rightarrow> to_lower recovered = to_lower address)"

section \<open>Tokens\<close>

record session =
  se_address :: string
  se_expiresAt :: int

definition token_payload :: "string \<Rightarrow> string \<Rightarrow> string" where
  "token_payload address expires = address @ ''.'' @ expires"

definition issueSessionToken :: "(string \<Rightarrow> string \<Rightarrow> string) \<Rightarrow> string \<Rightarrow> string \<Rightarrow> int \<Rightarrow> int \<Rightarrow> string" where
  "issueSessionToken hmac secret address nowSec validity =
    (let payload = token_payload (to_lower address) (int_to_string (nowSec + validity))
     in payload @ ''.'' @ hmac secret payload)"

text \<open>
  \<open>Number.parseInt(s, 10)\<close>: an optional sign and as many digits as follow the leading spaces.  The double it
  returns is the integer itself up to \<open>2 ^ 53\<close>, far above any time in seconds.
\<close>

definition js_parse_int :: "string \<Rightarrow> int option" where
  "js_parse_int s =
    (let t = dropWhile is_js_space s;
         negative = starts_with ''-'' t;
         digits = takeWhile is_digit (if negative \<or> starts_with ''+'' t then drop 1 t else t)
     in if digits = [] then None
        else Some (if negative then - int (dec_value digits) else int (dec_value digits)))"

definition verifySessionToken :: "(string \<Rightarrow> string \<Rightarrow> string) \<Rightarrow> string \<Rightarrow> string \<Rightarrow> int \<Rightarrow> session option" where
  "verifySessionToken hmac secret token nowSec =
    (case split_on (CHR ''.'') token of
       [address, expires, signature] \<Rightarrow>
         (if address = [] \<or> expires = [] \<or> signature = [] \<or> \<not> is_address address then None
          else case js_parse_int expires of None \<Rightarrow> None
          | Some expiresAt \<Rightarrow>
              if hmac secret (token_payload address expires) \<noteq> signature then None
              else if expiresAt \<le> nowSec then None
              else Some \<lparr>se_address = address, se_expiresAt = expiresAt\<rparr>)
     | _ \<Rightarrow> None)"

section \<open>Facts\<close>

text \<open>What the code relies on of a base64url digest: it is not empty and has no dot.\<close>

definition base64url_digest :: "(string \<Rightarrow> string \<Rightarrow> string) \<Rightarrow> bool" where
  "base64url_digest hmac \<longleftrightarrow> (\<forall>k m. hmac k m \<noteq> [] \<and> CHR ''.'' \<notin> set (hmac k m))"

lemma split_on_acc_parts: "d \<notin> set acc \<Longrightarrow> x \<in> set (split_on_acc d acc s) \<Longrightarrow> d \<notin> set x"
proof (induction s arbitrary: acc)
  case (Cons c s)
  from Cons.prems Cons.IH [of "[]"] Cons.IH [of "c # acc"] show ?case by (auto split: if_splits)
qed simp

lemma split_on_parts: "x \<in> set (split_on d s) \<Longrightarrow> d \<notin> set x"
  unfolding split_on_def by (rule split_on_acc_parts) simp_all

lemma split_three:
  "split_on d s = [a, b, c] \<longleftrightarrow> s = a @ d # b @ d # c \<and> d \<notin> set a \<and> d \<notin> set b \<and> d \<notin> set c"
proof
  assume split: "split_on d s = [a, b, c]"
  have "join_with [d] (split_on d s) = s" by (rule join_split)
  then have "s = a @ d # b @ d # c" using split by simp
  moreover have "d \<notin> set a" "d \<notin> set b" "d \<notin> set c" using split_on_parts [of _ d s] split by simp_all
  ultimately show "s = a @ d # b @ d # c \<and> d \<notin> set a \<and> d \<notin> set b \<and> d \<notin> set c" by blast
next
  assume "s = a @ d # b @ d # c \<and> d \<notin> set a \<and> d \<notin> set b \<and> d \<notin> set c"
  then show "split_on d s = [a, b, c]" by (simp add: split_on_append split_on_free)
qed

lemma split_cases3: "(case xs of [a, b, c] \<Rightarrow> f a b c | _ \<Rightarrow> None) = Some y \<longleftrightarrow> (\<exists>a b c. xs = [a, b, c] \<and> f a b c = Some y)"
  by (auto split: list.splits)

lemma is_address_dotless: "is_address a \<Longrightarrow> CHR ''.'' \<notin> set a \<and> a \<noteq> []"
proof -
  assume a: "is_address a"
  have "a = take 2 a @ drop 2 a" by simp
  also have "\<dots> = ''0x'' @ drop 2 a" using a unfolding is_address_def is_hex_bytes_def by simp
  finally have split: "a = ''0x'' @ drop 2 a" .
  have "\<not> is_hex_digit (CHR ''.'')" by code_simp
  then have "CHR ''.'' \<notin> set (drop 2 a)" using a unfolding is_address_def is_hex_bytes_def by (auto simp: list_all_iff)
  then show ?thesis by (subst (1 2) split) simp
qed

lemma hex_digit_lower: "is_hex_digit c \<Longrightarrow> is_hex_digit (lower_char c)"
proof (cases "is_upper c")
  case True
  assume "is_hex_digit c"
  then have "code_unit (lower_char c) = code_unit c + 32" "65 \<le> code_unit c \<and> code_unit c \<le> 70"
    using True set_bit5_upper [OF True] by (auto simp: lower_char_def is_hex_digit_def is_upper_def is_digit_def)
  then show "is_hex_digit (lower_char c)" by (simp add: is_hex_digit_def)
qed (simp add: lower_char_def)

lemma is_address_lower: "is_address a \<Longrightarrow> is_address (to_lower a)"
proof -
  assume a: "is_address a"
  have "to_lower ''0x'' = ''0x''" by code_simp
  then have "take 2 (to_lower a) = ''0x''" using a by (simp add: is_address_def is_hex_bytes_def to_lower_def take_map)
  moreover have "list_all is_hex_digit (drop 2 (to_lower a))"
    using a by (simp add: is_address_def is_hex_bytes_def to_lower_def drop_map list_all_iff hex_digit_lower)
  ultimately show ?thesis using a by (simp add: is_address_def is_hex_bytes_def)
qed

lemma digits_dotless: "list_all is_digit s \<Longrightarrow> CHR ''.'' \<notin> set s"
  by (auto simp: list_all_iff is_digit_def code_unit_def)

lemma parse_digits: "list_all is_digit s \<Longrightarrow> s \<noteq> [] \<Longrightarrow> js_parse_int s = Some (int (dec_value s))"
proof -
  assume s: "list_all is_digit s" "s \<noteq> []"
  obtain c cs where c: "s = c # cs" "is_digit c" using s by (cases s) auto
  have "dropWhile is_js_space s = s" using c digit_not_space by simp
  moreover have "\<not> starts_with ''-'' s \<and> \<not> starts_with ''+'' s" using c by (auto simp: starts_with_def is_digit_def code_unit_def)
  moreover have "takeWhile is_digit s = s" using s(1) unfolding takeWhile_eq_all_conv list_all_iff by blast
  ultimately show ?thesis using s(2) unfolding js_parse_int_def Let_def by (simp only: simp_thms if_False)
qed

lemma parse_printed: "0 \<le> i \<Longrightarrow> js_parse_int (int_to_string i) = Some i"
  by (simp add: int_to_string_def parse_digits nat_to_string_digits)

section \<open>Properties\<close>

text \<open>
  A bearer token opens a session exactly when it is an address, an expiry in the future and the digest of these
  two under the server's secret: nothing but the digest decides whose session it is.
\<close>

theorem session_token_accepted_iff:
  assumes "base64url_digest hmac"
  shows "verifySessionToken hmac secret token nowSec = Some s \<longleftrightarrow>
    (\<exists>expires. token = token_payload (se_address s) expires @ ''.'' @ hmac secret (token_payload (se_address s) expires)
      \<and> is_address (se_address s) \<and> CHR ''.'' \<notin> set expires \<and> js_parse_int expires = Some (se_expiresAt s)
      \<and> nowSec < se_expiresAt s)"
proof
  assume "verifySessionToken hmac secret token nowSec = Some s"
  then obtain expires signature where split: "split_on (CHR ''.'') token = [se_address s, expires, signature]"
    and ok: "is_address (se_address s)" "js_parse_int expires = Some (se_expiresAt s)"
      "hmac secret (token_payload (se_address s) expires) = signature" "nowSec < se_expiresAt s"
    unfolding verifySessionToken_def split_cases3 by (auto split: if_splits option.splits)
  from split [unfolded split_three] ok show "\<exists>expires. token = token_payload (se_address s) expires @ ''.''
      @ hmac secret (token_payload (se_address s) expires) \<and> is_address (se_address s) \<and> CHR ''.'' \<notin> set expires
      \<and> js_parse_int expires = Some (se_expiresAt s) \<and> nowSec < se_expiresAt s"
    by (auto simp: token_payload_def intro!: exI [of _ expires])
next
  assume "\<exists>expires. token = token_payload (se_address s) expires @ ''.''
      @ hmac secret (token_payload (se_address s) expires) \<and> is_address (se_address s) \<and> CHR ''.'' \<notin> set expires
      \<and> js_parse_int expires = Some (se_expiresAt s) \<and> nowSec < se_expiresAt s"
  then obtain expires where token: "token = token_payload (se_address s) expires @ ''.''
      @ hmac secret (token_payload (se_address s) expires)" and ok: "is_address (se_address s)" "CHR ''.'' \<notin> set expires"
      "js_parse_int expires = Some (se_expiresAt s)" "nowSec < se_expiresAt s" by blast
  have "split_on (CHR ''.'') token = [se_address s, expires, hmac secret (token_payload (se_address s) expires)]"
    unfolding split_three using token ok assms is_address_dotless by (auto simp: token_payload_def base64url_digest_def)
  moreover have "expires \<noteq> []" using ok(3) by (auto simp: js_parse_int_def Let_def starts_with_def)
  moreover have "hmac secret (token_payload (se_address s) expires) \<noteq> []" using assms by (simp add: base64url_digest_def)
  ultimately show "verifySessionToken hmac secret token nowSec = Some s"
    using ok is_address_dotless [OF ok(1)] by (simp add: verifySessionToken_def)
qed

text \<open>A token issued for an address opens a session of that address until its validity has passed, and none after.\<close>

lemma session_roundtrip:
  assumes "base64url_digest hmac" and "is_address address" and "0 \<le> nowSec + validity"
  shows "verifySessionToken hmac secret (issueSessionToken hmac secret address nowSec validity) later
    = (if later < nowSec + validity then Some \<lparr>se_address = to_lower address, se_expiresAt = nowSec + validity\<rparr> else None)"
proof -
  let ?p = "token_payload (to_lower address) (int_to_string (nowSec + validity))"
  have address: "is_address (to_lower address)" by (rule is_address_lower [OF assms(2)])
  have expires: "CHR ''.'' \<notin> set (int_to_string (nowSec + validity))" "int_to_string (nowSec + validity) \<noteq> []"
    using assms(3) by (simp_all add: int_to_string_def digits_dotless nat_to_string_digits)
  have "split_on (CHR ''.'') (issueSessionToken hmac secret address nowSec validity)
      = [to_lower address, int_to_string (nowSec + validity), hmac secret ?p]"
    unfolding split_three using expires(1) is_address_dotless [OF address] assms(1)
    by (simp add: issueSessionToken_def Let_def token_payload_def base64url_digest_def)
  moreover have "hmac secret ?p \<noteq> []" using assms(1) by (simp add: base64url_digest_def)
  ultimately show ?thesis
    using address is_address_dotless [OF address] expires(2) parse_printed [OF assms(3)] by (simp add: verifySessionToken_def)
qed

text \<open>A digest of the right shape.\<close>

definition plain_digest :: "string \<Rightarrow> string \<Rightarrow> string" where
  "plain_digest k m = ''d'' @ filter (\<lambda>c. c \<noteq> CHR ''.'') (k @ m)"

lemma plain_digest_shape: "base64url_digest plain_digest"
  by (simp add: base64url_digest_def plain_digest_def)

definition some_address :: string where
  "some_address = ''0xE1AD845D93853fff44990aE0DcecD8575293681e''"

theorem session_token_accepted_iff_witness:
  "verifySessionToken plain_digest ''s'' (token_payload some_address ''100'' @ ''.'' @ plain_digest ''s'' (token_payload some_address ''100'')) 50
    = Some \<lparr>se_address = some_address, se_expiresAt = 100\<rparr>"
proof (subst session_token_accepted_iff [OF plain_digest_shape], intro exI [of _ "''100''"] conjI)
  show "is_address (se_address \<lparr>se_address = some_address, se_expiresAt = 100\<rparr>)" by code_simp
  show "CHR ''.'' \<notin> set ''100''" by simp
  show "js_parse_int ''100'' = Some (se_expiresAt \<lparr>se_address = some_address, se_expiresAt = 100\<rparr>)" by code_simp
qed simp_all

end
