(* ===== verification/Api_Gateway.thy ===== *)
theory Api_Gateway
  imports Session_Auth Run_Service Settlement_Legs
begin

text \<open>
  The API gateway (\<open>apps/api-gateway/src/app.ts\<close>): its routes as functions from a request to a reply and the world
  they leave, over the ports of \<open>AppDependencies\<close>.  A reply has a status and a body; of a failure the body keeps
  the code, its message and the issues of the schema are left out.  The framework's own replies (rate limits,
  bodies that are no JSON, cross-origin headers) are not part of the model.
\<close>

section \<open>Requests, replies and ports\<close>

record http_request =
  hq_authorization :: "string option"
  hq_runId :: string
  hq_query :: header_list
  hq_body :: json

record list_query =
  lq_requester :: string
  lq_limit :: "int option"
  lq_offset :: "int option"

record run_summary =
  su_id :: string
  su_status :: run_status
  su_result :: "run_result option"
  su_targetServiceId :: string
  su_createdAt :: string
  su_updatedAt :: string

datatype payment_view =
    Payment_not_created
  | Payment_order merchant_order string "string option"

record run_response =
  rsp_run :: run_aggregate
  rsp_settlementLegs :: "settlement_leg list"
  rsp_payment :: payment_view

record onboarding_input =
  on_organizationName :: string
  on_requesterAddress :: string
  on_externalServiceId :: string
  on_serviceName :: string
  on_x402Endpoint :: string
  on_openApiUrl :: string
  on_version :: string
  on_marketplaceListed :: "bool option"
  on_description :: "string option"
  on_chainId :: "int option"

record onboarded_service =
  os_organizationId :: string
  os_targetServiceId :: string
  os_targetAgentId :: string
  os_targetVersionHash :: string
  os_policyHash :: string
  os_x402Endpoint :: string
  os_openApiUrl :: string

datatype reply_body =
    Failure string
  | Run_not_quoted run_status
  | Token string string
  | Run_body run_response
  | Runs_body "run_summary list" bool
  | Quote_body quote
  | Onboarded_body onboarded_service
  | Accepted
  | Value_body json

record reply =
  rp_status :: int
  rp_body :: reply_body

record order_request =
  oq_dappOrderId :: string
  oq_payerAddress :: string
  oq_atomicAmount :: string
  oq_capability :: json

text \<open>
  \<open>ad_createQuote\<close> is the quote engine with its fresh id, \<open>ad_listQuery\<close> the schema of the run list's query (whose
  numbers are coerced from text), \<open>ad_url_protocol\<close> the protocol of a valid URL, \<open>ad_runtimeStatus\<close> whether the status is
  \<open>unavailable\<close> and the members of the report.  Plans, evidence packs,
  attestations, statistics and listings are handed on as the JSON the providers return.
\<close>

record 'w api_deps =
  ad_createQuote :: "quote_request \<Rightarrow> json \<Rightarrow> int \<Rightarrow> ('w, quote) io"
  ad_saveQuote :: "quote \<Rightarrow> ('w, unit) io"
  ad_findQuote :: "string \<Rightarrow> ('w, quote option) io"
  ad_saveRun :: "run_record \<Rightarrow> int option \<Rightarrow> ('w, unit) io"
  ad_findRunByKey :: "string \<Rightarrow> ('w, run_record option) io"
  ad_findRun :: "string \<Rightarrow> ('w, run_record option) io"
  ad_listByRequester :: "string \<Rightarrow> int option \<Rightarrow> int option \<Rightarrow> ('w, run_summary list \<times> bool) io"
  ad_capability :: "('w, json option) io"
  ad_createOrder :: "(order_request \<Rightarrow> ('w, merchant_order) io) option"
  ad_submitPaymentTransaction :: "(string \<Rightarrow> string \<Rightarrow> string \<Rightarrow> ('w, unit) io) option"
  ad_runtimeStatus :: "('w, bool \<times> (string \<times> json) list) io option"
  ad_evidencePack :: "(string \<Rightarrow> ('w, json option) io) option"
  ad_attestation :: "(string \<Rightarrow> ('w, json option) io) option"
  ad_plan :: "(string \<Rightarrow> ('w, json option) io) option"
  ad_progress :: "(string \<Rightarrow> ('w, settlement_leg list) io) option"
  ad_stepDurations :: "('w, json option) io option"
  ad_onboard :: "(onboarding_input \<Rightarrow> ('w, onboarded_service) io) option"
  ad_marketplace :: "('w, json) io option"
  ad_now :: "('w, int) io"
  ad_newId :: "('w, string) io"
  ad_sessionSecret :: "string option"
  ad_hmac :: "string \<Rightarrow> string \<Rightarrow> string"
  ad_recover :: "string \<Rightarrow> string \<Rightarrow> string option"
  ad_listQuery :: "header_list \<Rightarrow> list_query option"
  ad_url_protocol :: "string \<Rightarrow> string option"

definition fail :: "int \<Rightarrow> string \<Rightarrow> ('w, reply) io" where
  "fail status code = io_ret \<lparr>rp_status = status, rp_body = Failure code\<rparr>"

definition send :: "int \<Rightarrow> reply_body \<Rightarrow> ('w, reply) io" where
  "send status body = io_ret \<lparr>rp_status = status, rp_body = body\<rparr>"

section \<open>Schemas\<close>

definition length_within :: "nat \<Rightarrow> nat \<Rightarrow> string \<Rightarrow> bool" where
  "length_within m n s \<longleftrightarrow> m \<le> length s \<and> length s \<le> n"

definition run_id_ok :: "string \<Rightarrow> bool" where "run_id_ok s = length_within 8 200 s"

text \<open>A member that is absent, or read by \<open>f\<close>: \<open>None\<close> is a type error.\<close>

definition optional_member :: "(json option \<Rightarrow> 'a option) \<Rightarrow> json option \<Rightarrow> 'a option option" where
  "optional_member f v = (case v of None \<Rightarrow> Some None | Some _ \<Rightarrow> map_option Some (f v))"

definition json_bool_of :: "json option \<Rightarrow> bool option" where
  "json_bool_of v = (case v of Some (JBool b) \<Rightarrow> Some b | _ \<Rightarrow> None)"

record login_request =
  lr_address :: string
  lr_signature :: string
  lr_issuedAt :: int

definition loginRequest_parse :: "json \<Rightarrow> login_request option" where
  "loginRequest_parse v =
    (case (json_string_of (json_get v ''address''), json_string_of (json_get v ''signature''), json_int_of (json_get v ''issuedAt'')) of
       (Some a, Some s, Some t) \<Rightarrow>
         if keys_within v [''address'', ''signature'', ''issuedAt''] \<and> is_address a \<and> is_hex_bytes 65 s \<and> 0 < t
         then Some \<lparr>lr_address = a, lr_signature = s, lr_issuedAt = t\<rparr> else None
     | _ \<Rightarrow> None)"

text \<open>The quote id and the idempotency key.\<close>

definition createRunRequest_parse :: "json \<Rightarrow> (string \<times> string) option" where
  "createRunRequest_parse v =
    (case (json_string_of (json_get v ''quoteId''), json_string_of (json_get v ''idempotencyKey'')) of
       (Some q, Some k) \<Rightarrow>
         if keys_within v [''quoteId'', ''idempotencyKey''] \<and> length_within 8 200 q \<and> length_within 16 200 k
         then Some (q, k) else None
     | _ \<Rightarrow> None)"

definition paymentTransaction_parse :: "json \<Rightarrow> string option" where
  "paymentTransaction_parse v =
    (case json_string_of (json_get v ''transactionHash'') of
       Some h \<Rightarrow> if keys_within v [''transactionHash''] \<and> is_bytes32 h then Some h else None
     | None \<Rightarrow> None)"

definition quote_keys :: "string list" where
  "quote_keys = [''organizationId'', ''requesterAddress'', ''targetAgentId'', ''targetServiceId'', ''targetVersionHash'',
     ''previousVersionHash'', ''policyHash'', ''x402Endpoint'', ''openApiUrl'', ''maximumCustomerBudgetAtomic'']"

definition quoteRequest_of_json :: "(string \<Rightarrow> string option) \<Rightarrow> json \<Rightarrow> quote_request option" where
  "quoteRequest_of_json protocol v =
    (let str = (\<lambda>k. json_string_of (json_get v k)) in
     case (str ''organizationId'', str ''requesterAddress'', str ''targetAgentId'', str ''targetServiceId'',
           str ''targetVersionHash'', optional_member json_string_of (json_get v ''previousVersionHash''), str ''policyHash'',
           str ''x402Endpoint'', str ''openApiUrl'', str ''maximumCustomerBudgetAtomic'') of
       (Some organization, Some requester, Some agent, Some svc, Some version, Some previous, Some policy,
        Some endpoint, Some openApi, Some budget) \<Rightarrow>
          (let r = \<lparr>qr_organizationId = organization, qr_requesterAddress = requester, qr_targetAgentId = agent,
             qr_targetServiceId = svc, qr_targetVersionHash = version, qr_previousVersionHash = previous,
             qr_policyHash = policy, qr_x402Endpoint = endpoint, qr_openApiUrl = openApi,
             qr_maximumCustomerBudgetAtomic = budget\<rparr>
           in if keys_within v quote_keys \<and> quote_request_ok protocol r then Some r else None)
     | _ \<Rightarrow> None)"

definition onboard_keys :: "string list" where
  "onboard_keys = [''organizationName'', ''requesterAddress'', ''externalServiceId'', ''serviceName'', ''x402Endpoint'',
     ''openApiUrl'', ''version'', ''marketplaceListed'', ''description'', ''chainId'']"

definition onboarding_ok :: "(string \<Rightarrow> string option) \<Rightarrow> onboarding_input \<Rightarrow> bool" where
  "onboarding_ok protocol r \<longleftrightarrow> length_within 1 200 (on_organizationName r) \<and> is_address (on_requesterAddress r)
    \<and> length_within 1 200 (on_externalServiceId r) \<and> length_within 1 200 (on_serviceName r)
    \<and> is_https_url protocol (on_x402Endpoint r) \<and> is_https_url protocol (on_openApiUrl r)
    \<and> length_within 1 100 (on_version r)
    \<and> (case on_description r of None \<Rightarrow> True | Some d \<Rightarrow> length d \<le> 600)
    \<and> (case on_chainId r of None \<Rightarrow> True | Some n \<Rightarrow> 0 < n)"

definition onboarding_parse :: "(string \<Rightarrow> string option) \<Rightarrow> json \<Rightarrow> onboarding_input option" where
  "onboarding_parse protocol v =
    (let str = (\<lambda>k. json_string_of (json_get v k)) in
     case (str ''organizationName'', str ''requesterAddress'', str ''externalServiceId'', str ''serviceName'',
           str ''x402Endpoint'', str ''openApiUrl'', str ''version'',
           optional_member json_bool_of (json_get v ''marketplaceListed''),
           optional_member json_string_of (json_get v ''description''), optional_member json_int_of (json_get v ''chainId'')) of
       (Some name, Some requester, Some external, Some svc, Some endpoint, Some openApi, Some version, Some listed,
        Some description, Some chain) \<Rightarrow>
          (let r = \<lparr>on_organizationName = name, on_requesterAddress = requester, on_externalServiceId = external,
             on_serviceName = svc, on_x402Endpoint = endpoint, on_openApiUrl = openApi, on_version = version,
             on_marketplaceListed = listed, on_description = description, on_chainId = chain\<rparr>
           in if keys_within v onboard_keys \<and> onboarding_ok protocol r then Some r else None)
     | _ \<Rightarrow> None)"

section \<open>Sessions and ownership\<close>

definition session_token_validity :: int where "session_token_validity = 24 * 60 * 60"

text \<open>The token of the header, which is empty in \<open>Bearer \<close> alone.\<close>

definition bearer_token :: "http_request \<Rightarrow> string option" where
  "bearer_token q = (case hq_authorization q of None \<Rightarrow> None
     | Some h \<Rightarrow> if starts_with ''Bearer '' h then Some (drop 7 h) else None)"

text \<open>\<open>requireSession\<close>, with what the route does once it has the session.\<close>

definition with_session :: "'w api_deps \<Rightarrow> http_request \<Rightarrow> (session \<Rightarrow> ('w, reply) io) \<Rightarrow> ('w, reply) io" where
  "with_session D q k =
    (if \<not> truthy (ad_sessionSecret D) then fail 503 ''AUTH_NOT_CONFIGURED''
     else if \<not> truthy (bearer_token q) then fail 401 ''AUTH_REQUIRED''
     else io_bind (ad_now D) (\<lambda>t.
       case verifySessionToken (ad_hmac D) (the (ad_sessionSecret D)) (the (bearer_token q)) (t div 1000) of
         None \<Rightarrow> fail 401 ''AUTH_INVALID_OR_EXPIRED''
       | Some s \<Rightarrow> k s))"

definition login :: "'w api_deps \<Rightarrow> http_request \<Rightarrow> ('w, reply) io" where
  "login D q =
    (if \<not> truthy (ad_sessionSecret D) then fail 503 ''AUTH_NOT_CONFIGURED''
     else case loginRequest_parse (hq_body q) of None \<Rightarrow> fail 400 ''INVALID_LOGIN_REQUEST''
     | Some r \<Rightarrow>
         io_bind (ad_now D) (\<lambda>t.
         let nowSec = t div 1000 in
         if \<not> verifyLoginSignature (ad_recover D) (lr_address r) (lr_signature r) (lr_issuedAt r) nowSec
         then fail 401 ''LOGIN_SIGNATURE_INVALID''
         else send 200 (Token (issueSessionToken (ad_hmac D) (the (ad_sessionSecret D)) (lr_address r) nowSec session_token_validity)
           (to_iso_string ((nowSec + session_token_validity) * 1000)))))"

text \<open>A run of another requester reads back as a run that does not exist.\<close>

definition loadOwnedRun :: "'w api_deps \<Rightarrow> string \<Rightarrow> string \<Rightarrow> ('w, run_record option) io" where
  "loadOwnedRun D runId caller =
    io_bind (ad_findRun D runId) (\<lambda>found.
    case found of None \<Rightarrow> io_ret None
    | Some r \<Rightarrow>
        io_bind (ad_findQuote D (rec_quoteId r)) (\<lambda>quote.
        case quote of None \<Rightarrow> io_ret None
        | Some c \<Rightarrow>
            io_ret (if to_lower (qr_requesterAddress (q_request c)) \<noteq> to_lower caller then None else Some r)))"

section \<open>Responses\<close>

definition paymentNextAction :: "run_record \<Rightarrow> string" where
  "paymentNextAction r =
    (case rec_paymentOrder r of None \<Rightarrow> ''REQUEST_PAYMENT_CHALLENGE''
     | Some order \<Rightarrow>
        if run_status_of (rec_aggregate r) = PAYMENT_REQUIRED
        then (if mo_status order = Order_CHECKOUT_VERIFIED then ''PAY_X402_CHALLENGE'' else ''AWAIT_PAYMENT_RECONCILIATION'')
        else if run_status_of (rec_aggregate r) = FUNDED then ''CUSTOMER_PAYMENT_VERIFIED''
        else ''CUSTOMER_PAYMENT_RECORDED'')"

definition paymentChallengeHttpStatus :: "run_record \<Rightarrow> int" where
  "paymentChallengeHttpStatus r =
    (if run_status_of (rec_aggregate r) = PAYMENT_REQUIRED
        \<and> (case rec_paymentOrder r of None \<Rightarrow> False | Some order \<Rightarrow> mo_status order = Order_CHECKOUT_VERIFIED)
     then 402 else 200)"

definition toRunResponse :: "run_record \<Rightarrow> settlement_leg list \<Rightarrow> run_response" where
  "toRunResponse r legs = \<lparr>rsp_run = rec_aggregate r, rsp_settlementLegs = legs,
     rsp_payment = (case rec_paymentOrder r of None \<Rightarrow> Payment_not_created
       | Some order \<Rightarrow> Payment_order order (paymentNextAction r) (keep_truthy (rec_customerPaymentTransactionHash r)))\<rparr>"

definition run_reply :: "int \<Rightarrow> run_record \<Rightarrow> ('w, reply) io" where
  "run_reply status r = send status (Run_body (toRunResponse r []))"

section \<open>Routes without a run\<close>

text \<open>The constant members of every health report.\<close>

definition health_report :: "(string \<times> json) list \<Rightarrow> json" where
  "health_report runtime = JObj (runtime @ [(''service'', JStr ''shipyard402-api-gateway''),
     (''assuranceClaim'', JStr ''version-policy-expiry-scoped-execution-evidence'')])"

definition health :: "'w api_deps \<Rightarrow> ('w, reply) io" where
  "health D =
    (case ad_runtimeStatus D of
       None \<Rightarrow> send 200 (Value_body (health_report [(''status'', JStr ''ok''), (''environment'', JStr ''test''),
         (''persistence'', JStr ''memory''), (''database'', JStr ''not_configured''),
         (''merchantPayments'', JStr (if ad_createOrder D = None then ''not_configured'' else ''configured'')),
         (''mainnetWritesEnabled'', JBool False)]))
     | Some m \<Rightarrow> io_bind m (\<lambda>(down, runtime). send (if down then 503 else 200) (Value_body (health_report runtime))))"

definition step_durations :: "'w api_deps \<Rightarrow> ('w, reply) io" where
  "step_durations D =
    io_bind (case ad_stepDurations D of None \<Rightarrow> io_ret None | Some m \<Rightarrow> m) (\<lambda>stats.
    send 200 (Value_body (case stats of Some s \<Rightarrow> s
      | None \<Rightarrow> JObj [(''sampleSize'', JNum 0), (''medianMillisecondsByStep'', JObj [])])))"

definition catalog_services :: "'w api_deps \<Rightarrow> ('w, reply) io" where
  "catalog_services D =
    (case ad_marketplace D of None \<Rightarrow> send 200 (Value_body (JObj [(''services'', JArr [])]))
     | Some m \<Rightarrow> io_bind m (\<lambda>services. send 200 (Value_body (JObj [(''services'', services)]))))"

definition onboard :: "'w api_deps \<Rightarrow> http_request \<Rightarrow> ('w, reply) io" where
  "onboard D q =
    with_session D q (\<lambda>s.
    case onboarding_parse (ad_url_protocol D) (hq_body q) of None \<Rightarrow> fail 400 ''INVALID_ONBOARDING_REQUEST''
    | Some r \<Rightarrow>
        if to_lower (on_requesterAddress r) \<noteq> to_lower (se_address s) then fail 403 ''REQUESTER_ADDRESS_MISMATCH''
        else (case ad_onboard D of None \<Rightarrow> fail 503 ''SERVICE_ONBOARDING_UNAVAILABLE''
        | Some m \<Rightarrow>
            io_catch (io_bind (m r) (\<lambda>x. send 201 (Onboarded_body x)))
              (\<lambda>e. case e of Onboarding_fetch code _ \<Rightarrow> fail 422 code | _ \<Rightarrow> io_throw e)))"

definition create_quote :: "'w api_deps \<Rightarrow> http_request \<Rightarrow> ('w, reply) io" where
  "create_quote D q =
    with_session D q (\<lambda>s.
    case quoteRequest_of_json (ad_url_protocol D) (hq_body q) of None \<Rightarrow> fail 400 ''INVALID_QUOTE_REQUEST''
    | Some r \<Rightarrow>
        if to_lower (qr_requesterAddress r) \<noteq> to_lower (se_address s) then fail 403 ''REQUESTER_ADDRESS_MISMATCH''
        else
          io_bind (io_catch (ad_capability D) (\<lambda>_. io_ret None)) (\<lambda>capability.
          case capability of None \<Rightarrow> fail 503 ''RUNTIME_PAYMENT_CAPABILITY_UNAVAILABLE''
          | Some c \<Rightarrow>
              io_catch
                (io_bind (ad_now D) (\<lambda>t.
                 io_bind (ad_createQuote D r c t) (\<lambda>quote.
                 io_then (ad_saveQuote D quote) (send 201 (Quote_body quote)))))
                (\<lambda>e. case e of Quote_budget_exceeded _ _ \<Rightarrow> fail 422 ''CUSTOMER_BUDGET_EXCEEDED''
                   | Quote_target_not_onboarded _ \<Rightarrow> fail 409 ''QUOTE_TARGET_NOT_ONBOARDED''
                   | _ \<Rightarrow> io_throw e)))"

section \<open>Runs\<close>

text \<open>The first event of a run: quoted, at the time of the request.\<close>

definition quoted_record :: "string \<Rightarrow> string \<Rightarrow> string \<Rightarrow> string \<Rightarrow> run_record res" where
  "quoted_record runId quoteId key timestamp =
    res_bind (createDraftRun runId timestamp) (\<lambda>draft.
    res_bind (transitionRun draft \<lparr>cmd_actor = QUOTE_ENGINE, cmd_expectedRevision = run_revision draft,
      cmd_idempotencyKey = key @ '':quoted'', cmd_occurredAt = timestamp, cmd_to = QUOTED\<rparr>) (\<lambda>quoted.
    case tr_event quoted of None \<Rightarrow> Inl (Js_error ''Initial run transition produced no event'')
    | Some ev \<Rightarrow> Inr \<lparr>rec_aggregate = tr_run quoted, rec_quoteId = quoteId, rec_requestIdempotencyKey = key,
        rec_paymentOrder = None, rec_uncommittedEvent = Some ev, rec_customerPaymentProofHash = None,
        rec_customerPaymentAtomic = None, rec_customerPaymentTransactionHash = None, rec_customerPaymentChainId = None\<rparr>))"

definition date_passed :: "int \<Rightarrow> string \<Rightarrow> bool" where
  "date_passed now date = (case date_parse date of None \<Rightarrow> False | Some t \<Rightarrow> t \<le> now)"

text \<open>A key that is taken: the run itself, unless it belongs to another quote.\<close>

definition save_new_run :: "'w api_deps \<Rightarrow> run_record \<Rightarrow> ('w, reply) io" where
  "save_new_run D r =
    io_catch (io_then (ad_saveRun D r None) (run_reply 201 r))
      (\<lambda>e. io_bind (ad_findRunByKey D (rec_requestIdempotencyKey r)) (\<lambda>persisted.
        case persisted of None \<Rightarrow> io_throw e
        | Some p \<Rightarrow> if rec_quoteId p \<noteq> rec_quoteId r then fail 409 ''IDEMPOTENCY_KEY_QUOTE_MISMATCH'' else run_reply 200 p))"

definition create_run_for :: "'w api_deps \<Rightarrow> session \<Rightarrow> string \<Rightarrow> string \<Rightarrow> ('w, reply) io" where
  "create_run_for D s quoteId key =
    io_bind (ad_findQuote D quoteId) (\<lambda>found.
    case found of None \<Rightarrow> fail 404 ''QUOTE_NOT_FOUND''
    | Some quote \<Rightarrow>
        if to_lower (qr_requesterAddress (q_request quote)) \<noteq> to_lower (se_address s)
        then fail 403 ''REQUESTER_ADDRESS_MISMATCH''
        else
          io_bind (ad_now D) (\<lambda>t.
          if date_passed t (q_expiresAt quote) then fail 410 ''QUOTE_EXPIRED''
          else
            io_bind (ad_newId D) (\<lambda>freshId.
            io_bind (io_lift (quoted_record (''run_'' @ freshId) (q_id quote) key (to_iso_string t))) (save_new_run D))))"

definition create_run :: "'w api_deps \<Rightarrow> http_request \<Rightarrow> ('w, reply) io" where
  "create_run D q =
    with_session D q (\<lambda>s.
    case createRunRequest_parse (hq_body q) of None \<Rightarrow> fail 400 ''INVALID_RUN_REQUEST''
    | Some (quoteId, key) \<Rightarrow>
        io_bind (ad_findRunByKey D key) (\<lambda>existing.
        case existing of
          Some r \<Rightarrow>
            if rec_quoteId r \<noteq> quoteId then fail 409 ''IDEMPOTENCY_KEY_QUOTE_MISMATCH''
            else io_bind (loadOwnedRun D (run_id (rec_aggregate r)) (se_address s)) (\<lambda>owned.
              case owned of None \<Rightarrow> fail 404 ''RUN_NOT_FOUND'' | Some o' \<Rightarrow> run_reply 200 o')
        | None \<Rightarrow> create_run_for D s quoteId key))"

subsection \<open>The payment challenge\<close>

definition payment_required :: "run_record \<Rightarrow> merchant_order \<Rightarrow> string \<Rightarrow> run_record res" where
  "payment_required r order timestamp =
    res_bind (transitionRun (rec_aggregate r) \<lparr>cmd_actor = MERCHANT_GATEWAY,
      cmd_expectedRevision = run_revision (rec_aggregate r), cmd_idempotencyKey = ''payment-order:'' @ mo_orderId order,
      cmd_occurredAt = timestamp, cmd_to = PAYMENT_REQUIRED\<rparr>) (\<lambda>moved.
    case tr_event moved of None \<Rightarrow> Inl (Js_error ''Payment-required transition produced no event'')
    | Some ev \<Rightarrow> Inr (r\<lparr>rec_aggregate := tr_run moved, rec_uncommittedEvent := Some ev\<rparr>))"

definition save_payment_required :: "'w api_deps \<Rightarrow> run_record \<Rightarrow> run_record \<Rightarrow> ('w, run_record) io" where
  "save_payment_required D r updated =
    io_catch (io_then (ad_saveRun D updated (Some (run_revision (rec_aggregate r)))) (io_ret updated))
      (\<lambda>e. io_bind (ad_findRun D (run_id (rec_aggregate r))) (\<lambda>found.
        case found of None \<Rightarrow> io_throw e
        | Some current \<Rightarrow>
            if rec_paymentOrder current \<noteq> None \<and> run_status_of (rec_aggregate current) \<noteq> QUOTED
            then io_ret current else io_throw e))"

definition ensurePaymentRequired :: "'w api_deps \<Rightarrow> run_record \<Rightarrow> ('w, run_record) io" where
  "ensurePaymentRequired D r =
    (case rec_paymentOrder r of None \<Rightarrow> io_ret r
     | Some order \<Rightarrow>
        if run_status_of (rec_aggregate r) \<noteq> QUOTED then io_ret r
        else
          io_bind (ad_now D) (\<lambda>t.
          io_bind (io_lift (payment_required r order (to_iso_string t))) (save_payment_required D r)))"

definition order_of :: "run_record \<Rightarrow> quote \<Rightarrow> order_request" where
  "order_of r quote = \<lparr>oq_dappOrderId = run_id (rec_aggregate r),
     oq_payerAddress = qr_requesterAddress (q_request quote), oq_atomicAmount = q_totalAtomicAmount quote,
     oq_capability = q_capabilitySnapshot quote\<rparr>"

definition new_challenge :: "'w api_deps \<Rightarrow> (order_request \<Rightarrow> ('w, merchant_order) io) \<Rightarrow> run_record \<Rightarrow> quote \<Rightarrow> ('w, reply) io" where
  "new_challenge D createOrder r quote =
    io_catch
      (io_bind (createOrder (order_of r quote)) (\<lambda>order.
       io_bind (ensurePaymentRequired D (r\<lparr>rec_paymentOrder := Some order\<rparr>)) (\<lambda>updated.
       run_reply (paymentChallengeHttpStatus updated) updated)))
      (\<lambda>_. io_bind (ad_findRun D (run_id (rec_aggregate r))) (\<lambda>found.
        case found of
          Some current \<Rightarrow> if rec_paymentOrder current \<noteq> None then run_reply (paymentChallengeHttpStatus current) current
            else fail 502 ''GOAT_FLOW_ORDER_CREATION_FAILED''
        | None \<Rightarrow> fail 502 ''GOAT_FLOW_ORDER_CREATION_FAILED''))"

definition challenge_owned :: "'w api_deps \<Rightarrow> (order_request \<Rightarrow> ('w, merchant_order) io) \<Rightarrow> run_record \<Rightarrow> ('w, reply) io" where
  "challenge_owned D createOrder r =
    (if rec_paymentOrder r \<noteq> None
     then io_bind (ensurePaymentRequired D r) (\<lambda>recovered. run_reply (paymentChallengeHttpStatus recovered) recovered)
     else if run_status_of (rec_aggregate r) \<noteq> QUOTED then send 409 (Run_not_quoted (run_status_of (rec_aggregate r)))
     else
       io_bind (ad_findQuote D (rec_quoteId r)) (\<lambda>found.
       case found of None \<Rightarrow> fail 409 ''RUN_QUOTE_NOT_FOUND''
       | Some quote \<Rightarrow>
           io_bind (ad_now D) (\<lambda>t.
           if date_passed t (q_expiresAt quote) then fail 410 ''QUOTE_EXPIRED''
           else new_challenge D createOrder r quote)))"

text \<open>What a route does with the run of its path, once the caller is known to own it.\<close>

definition owned_run :: "'w api_deps \<Rightarrow> http_request \<Rightarrow> session \<Rightarrow> (run_record \<Rightarrow> ('w, reply) io) \<Rightarrow> ('w, reply) io" where
  "owned_run D q s k =
    io_bind (loadOwnedRun D (hq_runId q) (se_address s)) (\<lambda>found.
    case found of None \<Rightarrow> fail 404 ''RUN_NOT_FOUND'' | Some r \<Rightarrow> k r)"

definition payment_challenge :: "'w api_deps \<Rightarrow> http_request \<Rightarrow> ('w, reply) io" where
  "payment_challenge D q =
    (if \<not> run_id_ok (hq_runId q) then fail 400 ''INVALID_RUN_ID''
     else with_session D q (\<lambda>s.
       case ad_createOrder D of None \<Rightarrow> fail 503 ''GOAT_FLOW_MERCHANT_ADAPTER_UNAVAILABLE''
       | Some createOrder \<Rightarrow> owned_run D q s (challenge_owned D createOrder)))"

definition payment_tx :: "'w api_deps \<Rightarrow> http_request \<Rightarrow> ('w, reply) io" where
  "payment_tx D q =
    (if \<not> run_id_ok (hq_runId q) then fail 400 ''INVALID_RUN_ID''
     else with_session D q (\<lambda>s.
       case ad_submitPaymentTransaction D of None \<Rightarrow> fail 503 ''PAYMENT_TRANSACTION_SUBMISSION_UNAVAILABLE''
       | Some submit \<Rightarrow>
         (case paymentTransaction_parse (hq_body q) of None \<Rightarrow> fail 400 ''INVALID_PAYMENT_TRANSACTION''
          | Some hash \<Rightarrow>
              owned_run D q s (\<lambda>r.
              case rec_paymentOrder r of None \<Rightarrow> fail 409 ''PAYMENT_CHALLENGE_NOT_ISSUED''
              | Some order \<Rightarrow>
                  io_catch (io_then (submit (run_id (rec_aggregate r)) (mo_orderId order) hash) (send 202 Accepted))
                    (\<lambda>_. fail 409 ''PAYMENT_TRANSACTION_REJECTED'')))))"

subsection \<open>Reading runs\<close>

definition list_runs :: "'w api_deps \<Rightarrow> http_request \<Rightarrow> ('w, reply) io" where
  "list_runs D q =
    (case ad_listQuery D (hq_query q) of None \<Rightarrow> fail 400 ''INVALID_REQUESTER_ADDRESS''
     | Some l \<Rightarrow>
        with_session D q (\<lambda>s.
        if to_lower (lq_requester l) \<noteq> to_lower (se_address s) then fail 403 ''REQUESTER_ADDRESS_MISMATCH''
        else io_bind (ad_listByRequester D (lq_requester l) (lq_limit l) (lq_offset l)) (\<lambda>(runs, hasMore).
          send 200 (Runs_body runs hasMore))))"

definition get_run :: "'w api_deps \<Rightarrow> http_request \<Rightarrow> ('w, reply) io" where
  "get_run D q =
    (if \<not> run_id_ok (hq_runId q) then fail 400 ''INVALID_RUN_ID''
     else with_session D q (\<lambda>s. owned_run D q s (\<lambda>r.
       io_bind (case ad_progress D of None \<Rightarrow> io_ret [] | Some f \<Rightarrow> f (hq_runId q)) (\<lambda>legs.
       send 200 (Run_body (toRunResponse r legs))))))"

definition get_detail :: "'w api_deps \<Rightarrow> http_request \<Rightarrow> (string \<Rightarrow> ('w, json option) io) option \<Rightarrow> string \<Rightarrow> string \<Rightarrow> ('w, reply) io" where
  "get_detail D q provider without missing =
    (if \<not> run_id_ok (hq_runId q) then fail 400 ''INVALID_RUN_ID''
     else with_session D q (\<lambda>s. owned_run D q s (\<lambda>_.
       case provider of None \<Rightarrow> fail 503 without
       | Some f \<Rightarrow> io_bind (f (hq_runId q)) (\<lambda>found.
           case found of None \<Rightarrow> fail 404 missing | Some v \<Rightarrow> send 200 (Value_body v)))))"

section \<open>The application\<close>

datatype route =
    Health | Step_durations | Login | Catalog_services | Onboard | Create_quote | Create_run
  | Payment_challenge | Payment_tx | List_runs | Get_run | Get_plan | Get_evidence | Get_attestation

fun handle :: "'w api_deps \<Rightarrow> route \<Rightarrow> http_request \<Rightarrow> ('w, reply) io" where
  "handle D Health q = health D"
| "handle D Step_durations q = step_durations D"
| "handle D Login q = login D q"
| "handle D Catalog_services q = catalog_services D"
| "handle D Onboard q = onboard D q"
| "handle D Create_quote q = create_quote D q"
| "handle D Create_run q = create_run D q"
| "handle D Payment_challenge q = payment_challenge D q"
| "handle D Payment_tx q = payment_tx D q"
| "handle D List_runs q = list_runs D q"
| "handle D Get_run q = get_run D q"
| "handle D Get_plan q = get_detail D q (ad_plan D) ''PLAN_PROVIDER_UNAVAILABLE'' ''PLAN_NOT_FOUND''"
| "handle D Get_evidence q = get_detail D q (ad_evidencePack D) ''EVIDENCE_PACK_PROVIDER_UNAVAILABLE'' ''EVIDENCE_PACK_NOT_FOUND''"
| "handle D Get_attestation q = get_detail D q (ad_attestation D) ''ATTESTATION_PROVIDER_UNAVAILABLE'' ''ATTESTATION_NOT_FOUND''"

text \<open>
  What no handler caught gets the generic reply of the error handler; the errors of the program carry no HTTP status,
  those of the framework are not part of the model.
\<close>

definition serve :: "'w api_deps \<Rightarrow> route \<Rightarrow> http_request \<Rightarrow> ('w, reply) io" where
  "serve D r q = io_catch (handle D r q) (\<lambda>_. fail 500 ''INTERNAL_ERROR'')"

section \<open>Well-formed replies\<close>

definition reply_ok :: "reply \<Rightarrow> bool" where
  "reply_ok rp \<longleftrightarrow> (case rp_body rp of
      Failure code \<Rightarrow> rp_status rp \<in> {400, 401, 403, 404, 409, 410, 422, 500, 502, 503}
    | Run_not_quoted s \<Rightarrow> rp_status rp = 409 \<and> s \<noteq> QUOTED
    | Run_body b \<Rightarrow> rp_status rp \<in> {200, 201} \<or> rp_status rp = 402 \<and> run_status_of (rsp_run b) = PAYMENT_REQUIRED
    | Quote_body _ \<Rightarrow> rp_status rp = 201 | Onboarded_body _ \<Rightarrow> rp_status rp = 201 | Accepted \<Rightarrow> rp_status rp = 202
    | Token _ _ \<Rightarrow> rp_status rp = 200 | Runs_body _ _ \<Rightarrow> rp_status rp = 200 | Value_body _ \<Rightarrow> rp_status rp \<in> {200, 503})"

definition replies :: "('w, reply) io \<Rightarrow> bool" where
  "replies m \<longleftrightarrow> io_triple (\<lambda>_. True) m (\<lambda>rp _. reply_ok rp) (\<lambda>_ _. True)"

lemma replies_bind: "(\<And>a. replies (f a)) \<Longrightarrow> replies (io_bind m f)"
  unfolding replies_def by (rule triple_bind [OF triple_any])

lemma replies_then: "replies n \<Longrightarrow> replies (io_then m n)"
  unfolding io_then_def by (rule replies_bind)

lemma replies_catch: "replies m \<Longrightarrow> (\<And>e. replies (h e)) \<Longrightarrow> replies (io_catch m h)"
  unfolding replies_def by (rule triple_catch)

lemma replies_throw: "replies (io_throw e)"
  by (simp add: replies_def io_triple_def io_throw_def)

lemma replies_send: "reply_ok \<lparr>rp_status = n, rp_body = b\<rparr> \<Longrightarrow> replies (send n b)"
  by (simp add: replies_def io_triple_def send_def)

lemma replies_fail: "n \<in> {400, 401, 403, 404, 409, 410, 422, 500, 502, 503} \<Longrightarrow> replies (fail n c)"
  by (simp add: replies_def io_triple_def fail_def reply_ok_def)

lemma replies_if: "(b \<Longrightarrow> replies m) \<Longrightarrow> (\<not> b \<Longrightarrow> replies n) \<Longrightarrow> replies (if b then m else n)"
  by simp

lemma replies_option: "(x = None \<Longrightarrow> replies m) \<Longrightarrow> (\<And>y. x = Some y \<Longrightarrow> replies (f y)) \<Longrightarrow> replies (case x of None \<Rightarrow> m | Some y \<Rightarrow> f y)"
  by (cases x) simp_all

lemma replies_pair: "(\<And>a b. replies (f a b)) \<Longrightarrow> replies (case p of (a, b) \<Rightarrow> f a b)"
  by (cases p) simp

lemma challenge_status_ok: "reply_ok \<lparr>rp_status = paymentChallengeHttpStatus r, rp_body = Run_body (toRunResponse r legs)\<rparr>"
  by (simp add: reply_ok_def paymentChallengeHttpStatus_def toRunResponse_def)

lemmas reply_intros = replies_bind replies_then replies_catch replies_throw replies_fail replies_send replies_if
  replies_option replies_pair

lemma replies_session: "(\<And>s. replies (k s)) \<Longrightarrow> replies (with_session D q k)"
  unfolding with_session_def by (intro reply_intros) simp_all

lemma replies_owned: "(\<And>r. replies (k r)) \<Longrightarrow> replies (owned_run D q s k)"
  unfolding owned_run_def by (intro reply_intros) simp_all

lemma replies_run: "n \<in> {200, 201} \<Longrightarrow> replies (run_reply n r)"
  unfolding run_reply_def by (intro replies_send) (simp add: reply_ok_def)

lemma replies_challenge: "replies (run_reply (paymentChallengeHttpStatus r) r)"
  unfolding run_reply_def by (intro replies_send challenge_status_ok)

lemma new_challenge_replies: "replies (new_challenge D createOrder r quote)"
  unfolding new_challenge_def by (intro reply_intros replies_challenge) simp_all

lemma challenge_owned_replies: "replies (challenge_owned D createOrder r)"
  unfolding challenge_owned_def by (intro reply_intros replies_challenge new_challenge_replies) (simp_all add: reply_ok_def)

lemma save_new_run_replies: "replies (save_new_run D r)"
  unfolding save_new_run_def by (intro reply_intros replies_run) simp_all

lemma create_run_for_replies: "replies (create_run_for D s quoteId key)"
  unfolding create_run_for_def by (intro reply_intros save_new_run_replies) simp_all

lemma replies_errors:
  "replies (case e of Onboarding_fetch code m \<Rightarrow> fail 422 code | _ \<Rightarrow> io_throw e)"
  "replies (case e of Quote_budget_exceeded a b \<Rightarrow> fail 422 c1 | Quote_target_not_onboarded a \<Rightarrow> fail 409 c2 | _ \<Rightarrow> io_throw e)"
  by (cases e; simp add: replies_throw replies_fail)+

lemma detail_replies: "replies (get_detail D q provider without missing)"
  unfolding get_detail_def by (intro replies_session reply_intros replies_owned) (simp_all add: reply_ok_def)

lemma handle_replies: "replies (handle D r q)"
proof (cases r)
  case Health
  show ?thesis unfolding Health handle.simps health_def by (intro reply_intros) (simp_all add: reply_ok_def)
next
  case Login
  show ?thesis unfolding Login handle.simps login_def Let_def by (intro reply_intros) (simp_all add: reply_ok_def)
next
  case Onboard
  show ?thesis unfolding Onboard handle.simps onboard_def
    by (intro replies_session reply_intros replies_errors) (simp_all add: reply_ok_def)
next
  case Create_quote
  show ?thesis unfolding Create_quote handle.simps create_quote_def
    by (intro replies_session reply_intros replies_errors) (simp_all add: reply_ok_def)
next
  case Create_run
  show ?thesis unfolding Create_run handle.simps create_run_def
    by (intro replies_session reply_intros replies_run create_run_for_replies) simp_all
next
  case Payment_challenge
  show ?thesis unfolding Payment_challenge handle.simps payment_challenge_def
    by (intro replies_session reply_intros replies_owned challenge_owned_replies) simp_all
next
  case Payment_tx
  show ?thesis unfolding Payment_tx handle.simps payment_tx_def
    by (intro replies_session reply_intros replies_owned) (simp_all add: reply_ok_def)
next
  case List_runs
  show ?thesis unfolding List_runs handle.simps list_runs_def
    by (intro replies_session reply_intros) (simp_all add: reply_ok_def)
next
  case Get_run
  show ?thesis unfolding Get_run handle.simps get_run_def
    by (intro replies_session reply_intros replies_owned) (simp_all add: reply_ok_def)
next
  case Step_durations
  show ?thesis unfolding Step_durations handle.simps step_durations_def by (intro reply_intros) (simp add: reply_ok_def)
next
  case Catalog_services
  show ?thesis unfolding Catalog_services handle.simps catalog_services_def by (intro reply_intros) (simp_all add: reply_ok_def)
qed (simp_all add: detail_replies)

section \<open>Sessions and the other ports\<close>

text \<open>The session a request opens at a time: what every guarded route starts with.\<close>

definition session_of :: "'w api_deps \<Rightarrow> http_request \<Rightarrow> int \<Rightarrow> session option" where
  "session_of D q t =
    (if truthy (ad_sessionSecret D) \<and> truthy (bearer_token q)
     then verifySessionToken (ad_hmac D) (the (ad_sessionSecret D)) (the (bearer_token q)) (t div 1000) else None)"

definition same_sessions :: "'w api_deps \<Rightarrow> 'w api_deps \<Rightarrow> bool" where
  "same_sessions D E \<longleftrightarrow> ad_now E = ad_now D \<and> ad_sessionSecret E = ad_sessionSecret D \<and> ad_hmac E = ad_hmac D
    \<and> ad_listQuery E = ad_listQuery D"

fun guarded :: "route \<Rightarrow> bool" where
  "guarded Health = False" | "guarded Step_durations = False" | "guarded Login = False" | "guarded Catalog_services = False"
| "guarded _ = True"

lemma with_session_cases:
  "with_session D q k =
    (if \<not> truthy (ad_sessionSecret D) then fail 503 ''AUTH_NOT_CONFIGURED''
     else if \<not> truthy (bearer_token q) then fail 401 ''AUTH_REQUIRED''
     else io_bind (ad_now D) (\<lambda>t. case session_of D q t of None \<Rightarrow> fail 401 ''AUTH_INVALID_OR_EXPIRED'' | Some s \<Rightarrow> k s))"
  unfolding with_session_def session_of_def by simp

lemma with_session_closed:
  assumes "\<forall>t. session_of D q t = None" and "same_sessions D E"
  shows "with_session E q k = with_session D q (\<lambda>_. fail 401 ''AUTH_INVALID_OR_EXPIRED'')"
proof -
  have "session_of E q t = session_of D q t" for t using assms(2) by (simp add: session_of_def same_sessions_def)
  then show ?thesis using assms by (simp add: with_session_cases same_sessions_def)
qed

definition refusals :: "('w, reply) io \<Rightarrow> bool" where
  "refusals m \<longleftrightarrow> io_triple (\<lambda>_. True) m (\<lambda>rp _. 400 \<le> rp_status rp) (\<lambda>_ _. True)"

lemma refusals_fail: "400 \<le> n \<Longrightarrow> refusals (fail n c)"
  by (simp add: refusals_def io_triple_def fail_def)

lemma refusals_closed: "refusals (with_session D q (\<lambda>_. fail 401 c))"
  unfolding with_session_cases refusals_def
  by (intro triple_if triple_bind [OF triple_any]) (auto intro: refusals_fail [unfolded refusals_def] split: option.split)

lemma guarded_closed:
  assumes "guarded r" and closed: "\<forall>t. session_of D q t = None" and same: "same_sessions D E"
  shows "handle E r q = handle D r q \<and> refusals (handle D r q)"
proof -
  define W where "W = with_session D q (\<lambda>_. fail 401 ''AUTH_INVALID_OR_EXPIRED'')"
  have "same_sessions D D" by (simp add: same_sessions_def)
  from with_session_closed [OF closed this] with_session_closed [OF closed same]
  have s: "with_session E q k = W" "with_session D q k = W" for k unfolding W_def by blast+
  have list: "ad_listQuery E = ad_listQuery D" using same by (simp add: same_sessions_def)
  have W: "refusals W" unfolding W_def by (rule refusals_closed)
  show ?thesis using assms(1) W
    by (cases r; simp add: onboard_def create_quote_def create_run_def payment_challenge_def payment_tx_def list_runs_def
        get_run_def get_detail_def s list refusals_fail split: option.split)
qed

text \<open>
  A request that opens no session learns nothing and moves nothing: on every route that needs one the reply is a
  refusal, and it is the same over any other repositories, providers and merchant.
\<close>

theorem closed_session_touches_nothing:
  assumes "guarded r" and "\<forall>t. session_of D q t = None" and "same_sessions D E"
    and "handle D r q w = (Inr rp, w1)"
  shows "handle E r q w = (Inr rp, w1) \<and> 400 \<le> rp_status rp"
  using guarded_closed [OF assms(1-3)] assms(4) by (auto simp: refusals_def io_triple_def split: prod.splits sum.splits)


section \<open>Ownership\<close>

text \<open>Repositories and a clock that only read, as the lookups of the code do.\<close>

definition reads :: "('w \<Rightarrow> int) \<Rightarrow> (string \<Rightarrow> 'w \<Rightarrow> run_record option) \<Rightarrow> (string \<Rightarrow> 'w \<Rightarrow> quote option) \<Rightarrow> 'w api_deps \<Rightarrow> bool" where
  "reads clock runs quotes D \<longleftrightarrow> ad_now D = io_get clock \<and> (\<forall>i. ad_findRun D i = io_get (runs i))
    \<and> (\<forall>i. ad_findQuote D i = io_get (quotes i))"

definition requester_of :: "(string \<Rightarrow> 'w \<Rightarrow> run_record option) \<Rightarrow> (string \<Rightarrow> 'w \<Rightarrow> quote option) \<Rightarrow> string \<Rightarrow> 'w \<Rightarrow> string option" where
  "requester_of runs quotes i w = (case runs i w of None \<Rightarrow> None
     | Some r \<Rightarrow> map_option (\<lambda>c. to_lower (qr_requesterAddress (q_request c))) (quotes (rec_quoteId r) w))"

definition owns :: "(string \<Rightarrow> 'w \<Rightarrow> run_record option) \<Rightarrow> (string \<Rightarrow> 'w \<Rightarrow> quote option) \<Rightarrow> session \<Rightarrow> string \<Rightarrow> 'w \<Rightarrow> bool" where
  "owns runs quotes s i w \<longleftrightarrow> requester_of runs quotes i w = Some (to_lower (se_address s))"

definition hide_runs :: "'w api_deps \<Rightarrow> 'w api_deps" where
  "hide_runs D = D\<lparr>ad_findRun := \<lambda>_. io_ret None\<rparr>"

fun of_a_run :: "route \<Rightarrow> bool" where
  "of_a_run Payment_challenge = True" | "of_a_run Payment_tx = True" | "of_a_run Get_run = True" | "of_a_run Get_plan = True"
| "of_a_run Get_evidence = True" | "of_a_run Get_attestation = True" | "of_a_run _ = False"

lemma with_session_at:
  assumes "reads clock runs quotes D"
  shows "with_session D q k w =
    (if \<not> truthy (ad_sessionSecret D) then fail 503 ''AUTH_NOT_CONFIGURED'' w
     else if \<not> truthy (bearer_token q) then fail 401 ''AUTH_REQUIRED'' w
     else case session_of D q (clock w) of None \<Rightarrow> fail 401 ''AUTH_INVALID_OR_EXPIRED'' w | Some s \<Rightarrow> k s w)"
  using assms by (simp add: with_session_cases reads_def io_bind_apply split: option.split)

lemma owned_run_at:
  assumes "reads clock runs quotes D"
  shows "owned_run D q s k w =
    (if owns runs quotes s (hq_runId q) w then k (the (runs (hq_runId q) w)) w else fail 404 ''RUN_NOT_FOUND'' w)"
  using assms
  by (auto simp: owned_run_def loadOwnedRun_def reads_def owns_def requester_of_def io_bind_apply split: option.splits)

lemma with_session_same_at:
  assumes "reads clock runs quotes D" and "same_sessions D E"
    and "\<And>s. session_of D q (clock w) = Some s \<Longrightarrow> f s w = g s w"
  shows "with_session D q f w = with_session E q g w"
proof -
  have "session_of E q t = session_of D q t" for t using assms(2) by (simp add: session_of_def same_sessions_def)
  then show ?thesis using assms
    by (simp add: with_session_cases same_sessions_def reads_def io_bind_apply split: option.split)
qed

lemma hidden_run: "owned_run (hide_runs D) q s k w = fail 404 ''RUN_NOT_FOUND'' w"
  by (simp add: hide_runs_def owned_run_def loadOwnedRun_def io_bind_apply)

lemma hide_runs_simps [simp]:
  "ad_createOrder (hide_runs D) = ad_createOrder D"
  "ad_submitPaymentTransaction (hide_runs D) = ad_submitPaymentTransaction D" "same_sessions D (hide_runs D)"
  by (simp_all add: hide_runs_def same_sessions_def)

lemma not_owned:
  assumes "reads clock runs quotes D" and "\<not> owns runs quotes s (hq_runId q) w"
  shows "owned_run D q s f w = owned_run (hide_runs D) q s g w" and "snd (owned_run D q s f w) = w"
  using assms by (simp_all add: owned_run_at hidden_run fail_def)

lemma session_refused:
  assumes "reads clock runs quotes D" and "\<And>s. session_of D q (clock w) = Some s \<Longrightarrow> snd (k s w) = w"
  shows "snd (with_session D q k w) = w"
  using assms(2) by (simp add: with_session_at [OF assms(1)] fail_def split: option.split)

lemma foreign_run:
  assumes r: "of_a_run r" and reads: "reads clock runs quotes D"
    and foreign: "\<And>s. session_of D q (clock w) = Some s \<Longrightarrow> \<not> owns runs quotes s (hq_runId q) w"
  shows "handle D r q w = handle (hide_runs D) r q w \<and> snd (handle D r q w) = w"
proof -
  have detail: "get_detail D q p c m w = get_detail (hide_runs D) q p c m w \<and> snd (get_detail D q p c m w) = w" for p c m
    unfolding get_detail_def using foreign
    by (auto intro!: with_session_same_at [OF reads] session_refused [OF reads] not_owned [OF reads] simp: fail_def)
  have ports: "ad_plan (hide_runs D) = ad_plan D" "ad_evidencePack (hide_runs D) = ad_evidencePack D"
    "ad_attestation (hide_runs D) = ad_attestation D" by (simp_all add: hide_runs_def)
  have challenge: "payment_challenge D q w = payment_challenge (hide_runs D) q w \<and> snd (payment_challenge D q w) = w"
    unfolding payment_challenge_def using foreign
    by (auto intro!: with_session_same_at [OF reads] session_refused [OF reads] not_owned [OF reads] simp: fail_def split: option.split)
  have tx: "payment_tx D q w = payment_tx (hide_runs D) q w \<and> snd (payment_tx D q w) = w"
    unfolding payment_tx_def using foreign
    by (auto intro!: with_session_same_at [OF reads] session_refused [OF reads] not_owned [OF reads] simp: fail_def split: option.split)
  have run: "get_run D q w = get_run (hide_runs D) q w \<and> snd (get_run D q w) = w"
    unfolding get_run_def using foreign
    by (auto intro!: with_session_same_at [OF reads] session_refused [OF reads] not_owned [OF reads] simp: fail_def)
  note hidden = detail [THEN conjunct1, symmetric] challenge [THEN conjunct1, symmetric] tx [THEN conjunct1, symmetric]
    run [THEN conjunct1, symmetric]
  note unmoved = detail [THEN conjunct2] challenge [THEN conjunct2] tx [THEN conjunct2] run [THEN conjunct2]
  show ?thesis using r by (cases r) (simp_all add: ports hidden unmoved)
qed

text \<open>
  C26: nobody reads, pays or moves a run of somebody else: on every route of a run, a caller who did not request its
  quote gets exactly the reply of a service that has no such run, and nothing changes.
\<close>

theorem foreign_run_reads_as_missing:
  assumes "of_a_run r" and "reads clock runs quotes D"
    and "\<And>s. session_of D q (clock w) = Some s \<Longrightarrow> \<not> owns runs quotes s (hq_runId q) w"
  shows "handle D r q w = handle (hide_runs D) r q w \<and> snd (handle D r q w) = w"
  by (rule foreign_run [OF assms])

section \<open>Orders\<close>

text \<open>When the merchant may be asked for an order, and which.\<close>

definition order_due :: "('w \<Rightarrow> int) \<Rightarrow> (string \<Rightarrow> 'w \<Rightarrow> run_record option) \<Rightarrow> (string \<Rightarrow> 'w \<Rightarrow> quote option) \<Rightarrow> 'w api_deps
    \<Rightarrow> http_request \<Rightarrow> order_request \<Rightarrow> 'w \<Rightarrow> bool" where
  "order_due clock runs quotes D q req w \<longleftrightarrow> (\<exists>s r c. session_of D q (clock w) = Some s \<and> runs (hq_runId q) w = Some r
     \<and> rec_paymentOrder r = None \<and> run_status_of (rec_aggregate r) = QUOTED \<and> quotes (rec_quoteId r) w = Some c
     \<and> to_lower (qr_requesterAddress (q_request c)) = to_lower (se_address s) \<and> \<not> date_passed (clock w) (q_expiresAt c)
     \<and> req = order_of r c)"

definition ordering_with :: "'w api_deps \<Rightarrow> (order_request \<Rightarrow> ('w, merchant_order) io) \<Rightarrow> 'w api_deps" where
  "ordering_with D f = D\<lparr>ad_createOrder := Some f\<rparr>"

lemma ordering_simps [simp]:
  "ad_createOrder (ordering_with D f) = Some f" "ad_createQuote (ordering_with D f) = ad_createQuote D"
  "ad_saveQuote (ordering_with D f) = ad_saveQuote D" "ad_findQuote (ordering_with D f) = ad_findQuote D"
  "ad_saveRun (ordering_with D f) = ad_saveRun D" "ad_findRunByKey (ordering_with D f) = ad_findRunByKey D"
  "ad_findRun (ordering_with D f) = ad_findRun D" "ad_listByRequester (ordering_with D f) = ad_listByRequester D"
  "ad_capability (ordering_with D f) = ad_capability D"
  "ad_submitPaymentTransaction (ordering_with D f) = ad_submitPaymentTransaction D"
  "ad_runtimeStatus (ordering_with D f) = ad_runtimeStatus D" "ad_evidencePack (ordering_with D f) = ad_evidencePack D"
  "ad_attestation (ordering_with D f) = ad_attestation D" "ad_plan (ordering_with D f) = ad_plan D"
  "ad_progress (ordering_with D f) = ad_progress D" "ad_stepDurations (ordering_with D f) = ad_stepDurations D"
  "ad_onboard (ordering_with D f) = ad_onboard D" "ad_marketplace (ordering_with D f) = ad_marketplace D"
  "ad_now (ordering_with D f) = ad_now D" "ad_newId (ordering_with D f) = ad_newId D"
  "ad_sessionSecret (ordering_with D f) = ad_sessionSecret D" "ad_hmac (ordering_with D f) = ad_hmac D"
  "ad_recover (ordering_with D f) = ad_recover D" "ad_listQuery (ordering_with D f) = ad_listQuery D"
  "ad_url_protocol (ordering_with D f) = ad_url_protocol D"
  by (simp_all add: ordering_with_def)

lemma ordering_reads [simp]:
  "same_sessions (ordering_with D f) (ordering_with D g)" "session_of (ordering_with D f) q t = session_of D q t"
  "reads clock runs quotes (ordering_with D f) = reads clock runs quotes D"
  by (simp_all add: same_sessions_def session_of_def reads_def)

lemma other_routes_order_nothing:
  assumes "r \<noteq> Payment_challenge"
  shows "handle (ordering_with D f) r q = handle (ordering_with D g) r q"
proof -
  note defs = handle.simps health_def step_durations_def login_def catalog_services_def onboard_def create_quote_def create_run_def
    payment_tx_def list_runs_def get_run_def get_detail_def with_session_def owned_run_def loadOwnedRun_def ordering_simps
  have save: "save_new_run (ordering_with D h) = save_new_run D" for h
    unfolding fun_eq_iff save_new_run_def ordering_simps by (intro allI refl)
  have new: "create_run_for (ordering_with D h) = create_run_for D" for h
    unfolding fun_eq_iff create_run_for_def ordering_simps save by (intro allI refl)
  have health: "handle (ordering_with D f) Health q = handle (ordering_with D g) Health q"
    unfolding defs by (simp only: option.distinct)
  from assms show ?thesis
  proof (cases r)
    case Health
    show ?thesis unfolding Health by (rule health)
  next
    case Step_durations
    show ?thesis unfolding Step_durations defs new by (rule refl)
  next
    case Login
    show ?thesis unfolding Login defs new by (rule refl)
  next
    case Catalog_services
    show ?thesis unfolding Catalog_services defs new by (rule refl)
  next
    case Onboard
    show ?thesis unfolding Onboard defs new by (rule refl)
  next
    case Create_quote
    show ?thesis unfolding Create_quote defs new by (rule refl)
  next
    case Create_run
    show ?thesis unfolding Create_run defs new by (rule refl)
  next
    case Payment_tx
    show ?thesis unfolding Payment_tx defs new by (rule refl)
  next
    case List_runs
    show ?thesis unfolding List_runs defs new by (rule refl)
  next
    case Get_run
    show ?thesis unfolding Get_run defs new by (rule refl)
  next
    case Get_plan
    show ?thesis unfolding Get_plan defs new by (rule refl)
  next
    case Get_evidence
    show ?thesis unfolding Get_evidence defs new by (rule refl)
  next
    case Get_attestation
    show ?thesis unfolding Get_attestation defs new by (rule refl)
  qed simp
qed

lemma challenge_within_contract:
  assumes reads: "reads clock runs quotes D"
  shows "payment_challenge (ordering_with D (\<lambda>req. only_if (order_due clock runs quotes D q req) (f req))) q w
    = payment_challenge (ordering_with D f) q w"
proof -
  let ?g = "\<lambda>req. only_if (order_due clock runs quotes D q req) (f req)"
  have reads2: "reads clock runs quotes (ordering_with D h)" for h using reads by simp
  have rest: "ensurePaymentRequired (ordering_with D h) = ensurePaymentRequired D" for h
    unfolding fun_eq_iff ensurePaymentRequired_def save_payment_required_def ordering_simps by blast
  have "owned_run (ordering_with D ?g) q s (challenge_owned (ordering_with D ?g) ?g) w
      = owned_run (ordering_with D f) q s (challenge_owned (ordering_with D f) f) w"
    if s: "session_of D q (clock w) = Some s" for s
  proof (cases "owns runs quotes s (hq_runId q) w")
    case True
    then obtain r c where r: "runs (hq_runId q) w = Some r" and c: "quotes (rec_quoteId r) w = Some c"
      "to_lower (qr_requesterAddress (q_request c)) = to_lower (se_address s)"
      by (auto simp: owns_def requester_of_def split: option.splits)
    have "challenge_owned (ordering_with D ?g) ?g r w = challenge_owned (ordering_with D f) f r w"
    proof (cases "rec_paymentOrder r = None \<and> run_status_of (rec_aggregate r) = QUOTED \<and> \<not> date_passed (clock w) (q_expiresAt c)")
      case False
      then show ?thesis using reads c by (auto simp: challenge_owned_def rest reads_def io_bind_apply)
    next
      case True
      then have "order_due clock runs quotes D q (order_of r c) w" using s r c by (auto simp: order_due_def)
      then have "new_challenge (ordering_with D ?g) ?g r c w = new_challenge (ordering_with D f) f r c w"
        by (simp add: new_challenge_def io_catch_apply io_bind_apply rest)
      then show ?thesis using True reads c by (simp add: challenge_owned_def reads_def io_bind_apply)
    qed
    then show ?thesis by (simp add: owned_run_at [OF reads2] True r)
  qed (simp add: owned_run_at [OF reads2])
  then show ?thesis unfolding payment_challenge_def
    by (auto intro!: with_session_same_at [OF reads2])
qed

text \<open>
  C32: the gateway asks the merchant for an order only for the run of the path, for its owner, while the run is quoted
  and has no order and the quote is in date, and then for the total, the payer and the capability of that quote.
\<close>

theorem orders_only_when_due:
  assumes "reads clock runs quotes D"
  shows "handle (ordering_with D (\<lambda>req. only_if (order_due clock runs quotes D q req) (f req))) r q
    = handle (ordering_with D f) r q"
proof -
  have "handle (ordering_with D (\<lambda>req. only_if (order_due clock runs quotes D q req) (f req))) Payment_challenge q w
    = handle (ordering_with D f) Payment_challenge q w" for w
    unfolding handle.simps by (rule challenge_within_contract [OF assms])
  then have "handle (ordering_with D (\<lambda>req. only_if (order_due clock runs quotes D q req) (f req))) Payment_challenge q
    = handle (ordering_with D f) Payment_challenge q" by (rule ext)
  then show ?thesis
    using other_routes_order_nothing [of r D "\<lambda>req. only_if (order_due clock runs quotes D q req) (f req)" q f]
    by (cases "r = Payment_challenge") (simp_all only: simp_thms)
qed

section \<open>From a signature to a session\<close>

text \<open>
  C33: a login hands out a token only to who signed the login message of the address within five minutes of the
  clock, and the token opens a session of that address, and of no other, for one day.
\<close>

theorem login_opens_own_session:
  assumes "base64url_digest (ad_hmac D)" and "ad_now D w = (Inr t, w0)" and "0 \<le> t"
    and "handle D Login q w = (Inr rp, w1)" and "rp_body rp = Token token expiry"
    and "hq_authorization q' = Some (''Bearer '' @ token)"
  shows "\<exists>r recovered. loginRequest_parse (hq_body q) = Some r
    \<and> ad_recover D (loginMessage (lr_address r) (lr_issuedAt r)) (lr_signature r) = Some recovered
    \<and> to_lower recovered = to_lower (lr_address r) \<and> \<bar>t div 1000 - lr_issuedAt r\<bar> \<le> 300
    \<and> session_of D q' t' = (if t' div 1000 < t div 1000 + 86400
        then Some \<lparr>se_address = to_lower (lr_address r), se_expiresAt = t div 1000 + 86400\<rparr> else None)"
proof -
  from assms(2,4,5) obtain r where secret: "truthy (ad_sessionSecret D)" and r: "loginRequest_parse (hq_body q) = Some r"
    and valid: "verifyLoginSignature (ad_recover D) (lr_address r) (lr_signature r) (lr_issuedAt r) (t div 1000)"
    and token: "token = issueSessionToken (ad_hmac D) (the (ad_sessionSecret D)) (lr_address r) (t div 1000) 86400"
    by (auto simp: login_def fail_def send_def io_bind_apply Let_def session_token_validity_def split: if_splits option.splits)
  have "is_address (lr_address r)" using r by (auto simp: loginRequest_parse_def split: option.splits if_splits)
  moreover have "0 \<le> t div 1000 + 86400" using assms(3) by (simp add: pos_imp_zdiv_nonneg_iff add_nonneg_nonneg)
  ultimately have session: "verifySessionToken (ad_hmac D) (the (ad_sessionSecret D)) token n
    = (if n < t div 1000 + 86400 then Some \<lparr>se_address = to_lower (lr_address r), se_expiresAt = t div 1000 + 86400\<rparr> else None)" for n
    unfolding token by (rule session_roundtrip [OF assms(1)])
  have "bearer_token q' = Some token" using assms(6) by (simp add: bearer_token_def starts_with_def)
  moreover have "token \<noteq> []" unfolding token by (simp add: issueSessionToken_def Let_def)
  ultimately have "session_of D q' t' = (if t' div 1000 < t div 1000 + 86400
        then Some \<lparr>se_address = to_lower (lr_address r), se_expiresAt = t div 1000 + 86400\<rparr> else None)"
    using secret by (simp add: session_of_def session)
  then show ?thesis using r valid
    by (auto simp: verifyLoginSignature_def login_validity_seconds_def split: if_splits option.splits)
qed

section \<open>A concrete gateway\<close>

definition demo_gateway :: "(database \<times> unit) api_deps" where
  "demo_gateway = \<lparr>ad_createQuote = (\<lambda>r c t. io_lift (createQuote (\<le>) (\<lambda>s. s) demo_protocol demo_pricing ''quote-01'' r c t)),
     ad_saveQuote = (\<lambda>_. io_ret ()), ad_findQuote = (\<lambda>i. io_get (\<lambda>w. find (\<lambda>x. q_id x = i) (db_quotes (fst w)))),
     ad_saveRun = (\<lambda>r n. on_db (save_run r n)), ad_findRunByKey = (\<lambda>k. on_db (findByRequestIdempotencyKey demo_platform (\<lambda>_. True) k)),
     ad_findRun = (\<lambda>i. on_db (findRunById demo_platform (\<lambda>_. True) i)), ad_listByRequester = (\<lambda>_ _ _. io_ret ([], False)),
     ad_capability = io_ret None, ad_createOrder = None, ad_submitPaymentTransaction = None, ad_runtimeStatus = None,
     ad_evidencePack = None, ad_attestation = None, ad_plan = None, ad_progress = None, ad_stepDurations = None,
     ad_onboard = None, ad_marketplace = None, ad_now = io_get (\<lambda>_. 1767225600000), ad_newId = io_ret ''0001'',
     ad_sessionSecret = Some ''secret'', ad_hmac = plain_digest, ad_recover = (\<lambda>m s. Some some_address),
     ad_listQuery = (\<lambda>_. None), ad_url_protocol = demo_protocol\<rparr>"

text \<open>A request of \<open>some_address\<close>, which requested no quote, for the run \<open>run-0001\<close>.\<close>

definition demo_authorized :: http_request where
  "demo_authorized = \<lparr>hq_authorization = Some (''Bearer '' @ issueSessionToken plain_digest ''secret'' some_address 1767225600 86400),
     hq_runId = ''run-0001'', hq_query = [], hq_body = JNull\<rparr>"

definition demo_runs :: "string \<Rightarrow> database \<times> unit \<Rightarrow> run_record option" where
  "demo_runs i w = (if i = ''run-0001'' then Some (demo_record demo_quoted) else None)"

definition demo_quotes :: "string \<Rightarrow> database \<times> unit \<Rightarrow> quote option" where
  "demo_quotes i w = find (\<lambda>x. q_id x = i) (db_quotes (fst w))"

definition demo_reading :: "(database \<times> unit) api_deps" where
  "demo_reading = demo_gateway\<lparr>ad_findRun := \<lambda>i. io_get (demo_runs i)\<rparr>"

lemma demo_reads: "reads (\<lambda>_. 1767225600000) demo_runs demo_quotes demo_reading"
  by (simp add: reads_def demo_reading_def demo_gateway_def demo_quotes_def [abs_def])

lemma demo_session:
  "session_of demo_reading demo_authorized 1767225600000 = Some \<lparr>se_address = to_lower some_address, se_expiresAt = 1767312000\<rparr>"
proof -
  have "is_address some_address" by code_simp
  from session_roundtrip [OF plain_digest_shape this, of 1767225600 86400 "''secret''" 1767225600]
  have "verifySessionToken plain_digest ''secret'' (issueSessionToken plain_digest ''secret'' some_address 1767225600 86400) 1767225600
    = Some \<lparr>se_address = to_lower some_address, se_expiresAt = 1767312000\<rparr>" by simp
  moreover have "issueSessionToken plain_digest ''secret'' some_address 1767225600 86400 \<noteq> []"
    by (simp add: issueSessionToken_def Let_def)
  ultimately show ?thesis
    by (simp add: session_of_def demo_reading_def demo_gateway_def demo_authorized_def bearer_token_def starts_with_def)
qed

lemma demo_foreign: "\<not> owns demo_runs demo_quotes \<lparr>se_address = to_lower some_address, se_expiresAt = 1767312000\<rparr> ''run-0001'' (demo_db1, ())"
  by code_simp

theorem foreign_run_reads_as_missing_witness:
  "session_of demo_reading demo_authorized 1767225600000 \<noteq> None
    \<and> handle demo_reading Get_run demo_authorized (demo_db1, ()) = handle (hide_runs demo_reading) Get_run demo_authorized (demo_db1, ())
    \<and> snd (handle demo_reading Get_run demo_authorized (demo_db1, ())) = (demo_db1, ())"
proof -
  have id: "hq_runId demo_authorized = ''run-0001''" by (simp add: demo_authorized_def)
  have "handle demo_reading Get_run demo_authorized (demo_db1, ()) = handle (hide_runs demo_reading) Get_run demo_authorized (demo_db1, ())
    \<and> snd (handle demo_reading Get_run demo_authorized (demo_db1, ())) = (demo_db1, ())"
    by (rule foreign_run_reads_as_missing [OF _ demo_reads]) (use demo_session demo_foreign id in auto)
  moreover have "session_of demo_reading demo_authorized 1767225600000 \<noteq> None" using demo_session by simp
  ultimately show ?thesis by blast
qed

theorem orders_only_when_due_witness:
  "handle (ordering_with demo_reading (\<lambda>req. only_if (order_due (\<lambda>_. 1767225600000) demo_runs demo_quotes demo_reading demo_authorized req)
      (io_ret demo_order))) Payment_challenge demo_authorized
    = handle (ordering_with demo_reading (\<lambda>_. io_ret demo_order)) Payment_challenge demo_authorized"
  by (rule orders_only_when_due [OF demo_reads])

theorem closed_session_touches_nothing_witness:
  "handle (demo_reading\<lparr>ad_findRun := \<lambda>_. io_throw (Js_error ''down'')\<rparr>) Get_run (demo_authorized\<lparr>hq_authorization := None\<rparr>) (demo_db1, ())
    = (Inr \<lparr>rp_status = 401, rp_body = Failure ''AUTH_REQUIRED''\<rparr>, (demo_db1, ()))"
proof -
  let ?q = "demo_authorized\<lparr>hq_authorization := None\<rparr>"
  have "\<forall>t. session_of demo_reading ?q t = None" by (simp add: session_of_def bearer_token_def)
  moreover have "same_sessions demo_reading (demo_reading\<lparr>ad_findRun := \<lambda>_. io_throw (Js_error ''down'')\<rparr>)"
    by (simp add: same_sessions_def)
  moreover have "handle demo_reading Get_run ?q (demo_db1, ()) = (Inr \<lparr>rp_status = 401, rp_body = Failure ''AUTH_REQUIRED''\<rparr>, (demo_db1, ()))"
    by code_simp
  ultimately show ?thesis
    using closed_session_touches_nothing [of Get_run demo_reading ?q "demo_reading\<lparr>ad_findRun := \<lambda>_. io_throw (Js_error ''down'')\<rparr>"] by simp
qed

definition demo_login :: http_request where
  "demo_login = \<lparr>hq_authorization = None, hq_runId = [], hq_query = [],
     hq_body = JObj [(''address'', JStr some_address), (''signature'', JStr (''0x'' @ replicate 130 (CHR ''a''))),
       (''issuedAt'', JNum 1767225500)]\<rparr>"

lemma demo_logged_in:
  "handle demo_reading Login demo_login (demo_db1, ())
    = (Inr \<lparr>rp_status = 200, rp_body = Token (issueSessionToken plain_digest ''secret'' some_address 1767225600 86400)
        ''2026-01-02T00:00:00.000Z''\<rparr>, (demo_db1, ()))"
  by code_simp

theorem login_opens_own_session_witness:
  "\<exists>r. loginRequest_parse (hq_body demo_login) = Some r
    \<and> session_of demo_reading demo_authorized 1767225600000 = Some \<lparr>se_address = to_lower (lr_address r), se_expiresAt = 1767312000\<rparr>"
proof -
  have digest: "base64url_digest (ad_hmac demo_reading)" by (simp add: demo_reading_def demo_gateway_def plain_digest_shape)
  have now: "ad_now demo_reading (demo_db1, ()) = (Inr 1767225600000, (demo_db1, ()))"
    by (simp add: demo_reading_def demo_gateway_def)
  have token: "hq_authorization demo_authorized = Some (''Bearer '' @ issueSessionToken plain_digest ''secret'' some_address 1767225600 86400)"
    by (simp add: demo_authorized_def)
  from login_opens_own_session [OF digest now _ demo_logged_in _ token, where t' = 1767225600000]
  show ?thesis by auto
qed

end
