(* ===== verification/Gateway_Service.thy ===== *)
theory Gateway_Service
  imports Api_Gateway
begin

text \<open>
  The gateway over the tables of \<open>Run_Store\<close>: its run repository is \<open>PostgresRunRepository\<close>, and while it waits for a
  port other writers may work.  Whatever requests it serves, the stored runs move along the state machine.
\<close>

section \<open>Ports\<close>

definition gateway_keeps :: "('w \<Rightarrow> bool) \<Rightarrow> 'w api_deps \<Rightarrow> bool" where
  "gateway_keeps I D \<longleftrightarrow> (\<forall>r c t. io_keeps I (ad_createQuote D r c t)) \<and> (\<forall>x. io_keeps I (ad_saveQuote D x))
    \<and> (\<forall>i. io_keeps I (ad_findQuote D i)) \<and> (\<forall>a l n. io_keeps I (ad_listByRequester D a l n)) \<and> io_keeps I (ad_capability D)
    \<and> (\<forall>f. ad_createOrder D = Some f \<longrightarrow> (\<forall>x. io_keeps I (f x)))
    \<and> (\<forall>f. ad_submitPaymentTransaction D = Some f \<longrightarrow> (\<forall>a b c. io_keeps I (f a b c)))
    \<and> (\<forall>m. ad_runtimeStatus D = Some m \<longrightarrow> io_keeps I m) \<and> (\<forall>f. ad_evidencePack D = Some f \<longrightarrow> (\<forall>i. io_keeps I (f i)))
    \<and> (\<forall>f. ad_attestation D = Some f \<longrightarrow> (\<forall>i. io_keeps I (f i))) \<and> (\<forall>f. ad_plan D = Some f \<longrightarrow> (\<forall>i. io_keeps I (f i)))
    \<and> (\<forall>f. ad_progress D = Some f \<longrightarrow> (\<forall>i. io_keeps I (f i))) \<and> (\<forall>m. ad_stepDurations D = Some m \<longrightarrow> io_keeps I m)
    \<and> (\<forall>f. ad_onboard D = Some f \<longrightarrow> (\<forall>x. io_keeps I (f x))) \<and> (\<forall>m. ad_marketplace D = Some m \<longrightarrow> io_keeps I m)
    \<and> io_keeps I (ad_now D) \<and> io_keeps I (ad_newId D)"

lemma gateway_keepsD:
  assumes "gateway_keeps I D"
  shows "io_keeps I (ad_createQuote D r c t)" "io_keeps I (ad_saveQuote D x)" "io_keeps I (ad_findQuote D i)"
    "io_keeps I (ad_listByRequester D a l n)" "io_keeps I (ad_capability D)"
    "ad_createOrder D = Some f \<Longrightarrow> io_keeps I (f o')" "ad_submitPaymentTransaction D = Some g \<Longrightarrow> io_keeps I (g x1 x2 x3)"
    "ad_runtimeStatus D = Some rs \<Longrightarrow> io_keeps I rs" "ad_evidencePack D = Some h \<Longrightarrow> io_keeps I (h i)"
    "ad_attestation D = Some h \<Longrightarrow> io_keeps I (h i)" "ad_plan D = Some h \<Longrightarrow> io_keeps I (h i)"
    "ad_progress D = Some p \<Longrightarrow> io_keeps I (p i)" "ad_stepDurations D = Some sd \<Longrightarrow> io_keeps I sd"
    "ad_onboard D = Some ob \<Longrightarrow> io_keeps I (ob oi)" "ad_marketplace D = Some mp \<Longrightarrow> io_keeps I mp"
    "io_keeps I (ad_now D)" "io_keeps I (ad_newId D)"
  using assms unfolding gateway_keeps_def by simp_all

definition gateway_service :: "platform \<Rightarrow> (string \<Rightarrow> bool) \<Rightarrow> (database \<times> 'e) api_deps \<Rightarrow> bool" where
  "gateway_service P datetime D \<longleftrightarrow> ad_findRun D = (\<lambda>i. on_db (findRunById P datetime i))
    \<and> ad_findRunByKey D = (\<lambda>k. on_db (findByRequestIdempotencyKey P datetime k))
    \<and> ad_saveRun D = (\<lambda>r n. on_db (save_run r n))
    \<and> (\<forall>w0. gateway_keeps (db_leads w0) D)
    \<and> (\<forall>w t. fst (ad_now D w) = Inr t \<longrightarrow> 0 \<le> t \<and> t < 253402300800000)"

lemma gateway_serviceD:
  assumes "gateway_service P datetime D"
  shows "ad_findRun D = (\<lambda>i. on_db (findRunById P datetime i))"
    "ad_findRunByKey D = (\<lambda>k. on_db (findByRequestIdempotencyKey P datetime k))" "ad_saveRun D = (\<lambda>r n. on_db (save_run r n))"
    "gateway_keeps (db_leads w0) D" "fst (ad_now D w) = Inr t \<Longrightarrow> 0 \<le> t \<and> t < 253402300800000"
  using assms unfolding gateway_service_def by blast+

lemma held_none: "held_from w0 K w \<Longrightarrow> held_from w0 {} w"
  by (rule held_fewer) simp_all

lemma keeps_held: "(\<And>w0. io_keeps (db_leads w0) m) \<Longrightarrow> io_keeps (held_from w0 K) m"
  unfolding io_keeps_def [of "held_from w0 K"] by (rule held_port)

lemma gateway_held:
  assumes D: "gateway_service P datetime D"
  shows "gateway_keeps (held_from w0 K) D"
proof -
  note k = gateway_keepsD [OF gateway_serviceD(4) [OF D]]
  show ?thesis unfolding gateway_keeps_def
    by ((rule conjI allI impI)+ | (rule keeps_held, (rule k(1-5,16,17) | erule k(6-15))))+
qed

lemma keeps_find:
  "io_keeps (held_from w0 K) (on_db (findRunById P datetime i))"
  "io_keeps (held_from w0 K) (on_db (findByRequestIdempotencyKey P datetime k))"
  unfolding io_keeps_def by (rule triple_post [OF find_triples(1)] triple_post [OF find_triples(2)]; auto intro: held_fewer)+

section \<open>Saving\<close>

lemma now_triple:
  assumes D: "gateway_service P datetime D"
  shows "io_triple (held_from w0 K) (ad_now D) (\<lambda>t w. held_from w0 K w \<and> canonical_time (to_iso_string t)) (\<lambda>_. held_from w0 K)"
proof -
  have keeps: "io_keeps (held_from w0 K) (ad_now D)" by (rule gateway_keepsD(16) [OF gateway_held [OF D]])
  have "canonical_time (to_iso_string t)" if "ad_now D w = (Inr t, w1)" for w t w1
    using gateway_serviceD(5) [OF D, of w t] that by (simp add: canonical_time_def pg_time_def date_parse_to_iso_string)
  then show ?thesis using keeps unfolding io_keeps_def io_triple_def by (fastforce split: prod.splits sum.splits)
qed

lemma keeps_new_run:
  assumes D: "gateway_service P datetime D" and r: "quoted_record i quoteId key t = Inr r" and t: "canonical_time t"
  shows "io_keeps (held_from w0 {}) (save_new_run D r)"
proof -
  from r obtain draft moved ev where draft: "createDraftRun i t = Inr draft"
    and moved: "transitionRun draft \<lparr>cmd_actor = QUOTE_ENGINE, cmd_expectedRevision = run_revision draft,
      cmd_idempotencyKey = key @ '':quoted'', cmd_occurredAt = t, cmd_to = QUOTED\<rparr> = Inr moved" "tr_event moved = Some ev"
    and rec: "rec_aggregate r = tr_run moved" "rec_uncommittedEvent r = Some ev"
    by (auto simp: quoted_record_def res_bind_Inr_iff split: option.splits)
  have "io_triple (held_from w0 {}) (on_db (save_run r None)) (\<lambda>_. held_from w0 {tr_run moved}) (\<lambda>_. held_from w0 {})"
    by (rule saved_triple) (rule create_leads [OF _ draft t moved _ rec], simp_all add: t)
  then have "io_keeps (held_from w0 {}) (on_db (save_run r None))"
    unfolding io_keeps_def by (rule triple_post) (auto intro: held_none)
  then show ?thesis unfolding save_new_run_def gateway_serviceD(2,3) [OF D] run_reply_def send_def fail_def
    by (intro io_intros keeps_find)
qed

lemma ensure_triple:
  assumes D: "gateway_service P datetime D"
  shows "io_triple (held_from w0 {rec_aggregate r}) (ensurePaymentRequired D r) (\<lambda>_. held_from w0 {}) (\<lambda>_. held_from w0 {})"
proof -
  have save: "io_triple (held_from w0 {rec_aggregate r}) (save_payment_required D r u) (\<lambda>_. held_from w0 {}) (\<lambda>_. held_from w0 {})"
    if "payment_required r order t = Inr u" "canonical_time t" for order t u
  proof -
    from that(1) obtain moved ev where moved: "transitionRun (rec_aggregate r) \<lparr>cmd_actor = MERCHANT_GATEWAY,
        cmd_expectedRevision = run_revision (rec_aggregate r), cmd_idempotencyKey = ''payment-order:'' @ mo_orderId order,
        cmd_occurredAt = t, cmd_to = PAYMENT_REQUIRED\<rparr> = Inr moved" "tr_event moved = Some ev"
      and u: "rec_aggregate u = tr_run moved" "rec_uncommittedEvent u = Some ev"
      by (auto simp: payment_required_def res_bind_Inr_iff split: option.splits)
    have "io_triple (held_from w0 {rec_aggregate r}) (on_db (save_run u (Some (run_revision (rec_aggregate r)))))
        (\<lambda>_. held_from w0 (insert (tr_run moved) {rec_aggregate r})) (\<lambda>_. held_from w0 {rec_aggregate r})"
      by (rule saved_triple) (rule save_leads [OF _ _ moved _ _ u], simp_all add: that(2))
    then have saved: "io_triple (held_from w0 {rec_aggregate r}) (on_db (save_run u (Some (run_revision (rec_aggregate r)))))
        (\<lambda>_. held_from w0 {}) (\<lambda>_. held_from w0 {})" by (rule triple_post) (auto intro: held_none)
    have read: "io_triple (held_from w0 {}) (on_db (findRunById P datetime i)) (\<lambda>_. held_from w0 {}) (\<lambda>_. held_from w0 {})" for i
      by (rule keeps_find(1) [unfolded io_keeps_def])
    show ?thesis unfolding save_payment_required_def gateway_serviceD(1,3) [OF D]
      by (rule triple_catch [OF triple_then [OF saved triple_ret]], assumption,
          rule triple_bind [OF read]) (auto intro!: triple_ret triple_throw split: option.split)
  qed
  show ?thesis unfolding ensurePaymentRequired_def
  proof (cases "rec_paymentOrder r")
    case None
    then show "io_triple (held_from w0 {rec_aggregate r}) (case rec_paymentOrder r of None \<Rightarrow> io_ret r
     | Some order \<Rightarrow> if run_status_of (rec_aggregate r) \<noteq> QUOTED then io_ret r
        else io_bind (ad_now D) (\<lambda>t. io_bind (io_lift (payment_required r order (to_iso_string t))) (save_payment_required D r)))
      (\<lambda>_. held_from w0 {}) (\<lambda>_. held_from w0 {})"
      by (auto intro!: triple_ret intro: held_none)
  next
    case (Some order)
    have moved: "io_triple (\<lambda>w. held_from w0 {rec_aggregate r} w \<and> canonical_time (to_iso_string t))
        (io_bind (io_lift (payment_required r order (to_iso_string t))) (save_payment_required D r))
        (\<lambda>_. held_from w0 {}) (\<lambda>_. held_from w0 {})" for t
      by (rule triple_assume, rule triple_bind [OF triple_lift [where E = "\<lambda>_. held_from w0 {}"]])
        (auto intro!: triple_given intro: held_none triple_pre [OF _ save])
    have "io_triple (held_from w0 {rec_aggregate r}) (ad_now D)
        (\<lambda>t w. held_from w0 {rec_aggregate r} w \<and> canonical_time (to_iso_string t)) (\<lambda>_. held_from w0 {})"
      by (rule triple_post [OF now_triple [OF D]]) (auto intro: held_none)
    then show "io_triple (held_from w0 {rec_aggregate r}) (case rec_paymentOrder r of None \<Rightarrow> io_ret r
     | Some order \<Rightarrow> if run_status_of (rec_aggregate r) \<noteq> QUOTED then io_ret r
        else io_bind (ad_now D) (\<lambda>t. io_bind (io_lift (payment_required r order (to_iso_string t))) (save_payment_required D r)))
      (\<lambda>_. held_from w0 {}) (\<lambda>_. held_from w0 {})"
      unfolding Some option.case by (intro triple_if triple_bind [OF _ moved] triple_ret) (auto intro: held_none)
  qed
qed

section \<open>The payment challenge\<close>

lemma gateway_port_triple:
  assumes "gateway_keeps (held_from w0 K) D \<Longrightarrow> io_keeps (held_from w0 K) m" and "gateway_service P datetime D" and "L \<subseteq> K"
  shows "io_triple (held_from w0 K) m (\<lambda>_. held_from w0 K) (\<lambda>_. held_from w0 L)"
  using assms(1) [OF gateway_held [OF assms(2)]] assms(3) unfolding io_keeps_def by (auto elim!: triple_post intro: held_fewer)

lemma loaded_triple:
  assumes D: "gateway_service P datetime D"
  shows "io_triple (held_from w0 {}) (loadOwnedRun D i caller) (\<lambda>found. held_from w0 (known_of found)) (\<lambda>_. held_from w0 {})"
proof -
  have quote: "io_triple (held_from w0 {rec_aggregate r}) (ad_findQuote D j) (\<lambda>_. held_from w0 {rec_aggregate r}) (\<lambda>_. held_from w0 {})" for r j
    by (rule gateway_port_triple [OF _ D]) (auto intro: gateway_keepsD)
  show ?thesis unfolding loadOwnedRun_def gateway_serviceD(1) [OF D]
    by (rule triple_bind [OF find_triples(1)])
      (auto intro!: triple_ret triple_bind [OF quote] held_none simp del: split_paired_All split: option.split)
qed

lemma keeps_run_reply: "io_keeps I (run_reply n r)" "io_keeps I (fail n c)" "io_keeps I (send n b)"
  unfolding run_reply_def fail_def send_def by (intro io_intros)+

lemma challenge_triple:
  assumes D: "gateway_service P datetime D" and order: "ad_createOrder D = Some createOrder"
  shows "io_triple (held_from w0 {rec_aggregate r}) (challenge_owned D createOrder r) (\<lambda>_. held_from w0 {}) (\<lambda>_. held_from w0 {})"
proof -
  note reply = keeps_run_reply(1) [where I = "held_from w0 {}", unfolded io_keeps_def]
  have fails: "io_triple (held_from w0 K) (fail n c) (\<lambda>_. held_from w0 {}) (\<lambda>_. held_from w0 {})"
    "io_triple (held_from w0 K) (send n b) (\<lambda>_. held_from w0 {}) (\<lambda>_. held_from w0 {})" for K n c b
    unfolding fail_def send_def by (auto intro!: triple_ret intro: held_none)
  have create: "io_triple (held_from w0 {rec_aggregate r}) (createOrder x) (\<lambda>_. held_from w0 {rec_aggregate r}) (\<lambda>_. held_from w0 {})" for x
    by (rule gateway_port_triple [OF _ D]) (auto intro: gateway_keepsD(6) [OF _ order])
  have quote: "io_triple (held_from w0 {rec_aggregate r}) (ad_findQuote D j) (\<lambda>_. held_from w0 {rec_aggregate r}) (\<lambda>_. held_from w0 {})" for j
    by (rule gateway_port_triple [OF _ D]) (auto intro: gateway_keepsD)
  have now: "io_triple (held_from w0 {rec_aggregate r}) (ad_now D) (\<lambda>_. held_from w0 {rec_aggregate r}) (\<lambda>_. held_from w0 {})"
    by (rule gateway_port_triple [OF _ D]) (auto intro: gateway_keepsD)
  have ensure: "io_triple (held_from w0 {rec_aggregate r}) (ensurePaymentRequired D (r\<lparr>rec_paymentOrder := x\<rparr>))
      (\<lambda>_. held_from w0 {}) (\<lambda>_. held_from w0 {})" for x
    using ensure_triple [OF D, of w0 "r\<lparr>rec_paymentOrder := x\<rparr>"] by simp
  have read: "io_triple (held_from w0 {}) (ad_findRun D i) (\<lambda>_. held_from w0 {}) (\<lambda>_. held_from w0 {})" for i
    unfolding gateway_serviceD(1) [OF D] by (rule keeps_find(1) [unfolded io_keeps_def])
  have new: "io_triple (held_from w0 {rec_aggregate r}) (new_challenge D createOrder r q) (\<lambda>_. held_from w0 {}) (\<lambda>_. held_from w0 {})" for q
    unfolding new_challenge_def
    by (rule triple_catch [OF triple_bind [OF create triple_bind [OF ensure reply]]], rule triple_bind [OF read])
      (auto intro!: reply fails triple_if split: option.split)
  show ?thesis unfolding challenge_owned_def
    by (intro triple_if triple_bind [OF ensure_triple [OF D] reply] fails triple_bind [OF quote])
      (auto intro!: fails triple_bind [OF now] triple_if new split: option.split)
qed

lemma keeps_owned:
  assumes D: "gateway_service P datetime D"
    and k: "\<And>r. io_triple (held_from w0 {rec_aggregate r}) (k r) (\<lambda>_. held_from w0 {}) (\<lambda>_. held_from w0 {})"
  shows "io_keeps (held_from w0 {}) (owned_run D q s k)"
  unfolding io_keeps_def owned_run_def
  by (rule triple_bind [OF loaded_triple [OF D]])
    (auto intro!: k keeps_run_reply(2) [unfolded io_keeps_def] split: option.split)

lemma owned_pre: "io_keeps (held_from w0 {}) m \<Longrightarrow> io_triple (held_from w0 K) m (\<lambda>_. held_from w0 {}) (\<lambda>_. held_from w0 {})"
  unfolding io_keeps_def by (rule triple_pre) (auto intro: held_none)

lemma keeps_with_session:
  assumes "gateway_service P datetime D" and "\<And>s. io_keeps (held_from w0 {}) (k s)"
  shows "io_keeps (held_from w0 {}) (with_session D q k)"
  unfolding with_session_def
  by (intro io_intros keeps_run_reply gateway_keepsD(16) [OF gateway_held [OF assms(1)]] assms(2))

section \<open>Every route\<close>

lemma keeps_pair: "(\<And>a b. io_keeps I (f a b)) \<Longrightarrow> io_keeps I (case p of (a, b) \<Rightarrow> f a b)"
  by (cases p) simp

lemma keeps_errors:
  "io_keeps I (case e of Onboarding_fetch code m \<Rightarrow> fail 422 code | _ \<Rightarrow> io_throw e)"
  "io_keeps I (case e of Quote_budget_exceeded a b \<Rightarrow> fail 422 c1 | Quote_target_not_onboarded a \<Rightarrow> fail 409 c2 | _ \<Rightarrow> io_throw e)"
  by (cases e; simp add: keeps_run_reply io_keeps_throw)+

lemma handle_keeps:
  assumes D: "gateway_service P datetime D"
  shows "io_keeps (held_from w0 {}) (handle D r q)"
proof -
  note ports = gateway_keepsD [OF gateway_held [OF D, of w0 "{}"]]
  note intros = io_intros keeps_run_reply keeps_pair ports(1-5,16,17) keeps_with_session [OF D] keeps_errors
  have detail: "io_keeps (held_from w0 {}) (get_detail D q p c m)"
    if "\<And>f i. p = Some f \<Longrightarrow> io_keeps (held_from w0 {}) (f i)" for p c m
    unfolding get_detail_def by (rule intros keeps_owned [OF D] owned_pre | erule that)+
  have new: "io_keeps (held_from w0 {}) (create_run_for D s i key)" for s i key
  proof -
    have "io_triple (held_from w0 {}) (ad_now D)
        (\<lambda>t w. held_from w0 {} w \<and> canonical_time (to_iso_string t)) (\<lambda>_. held_from w0 {})"
      by (rule now_triple [OF D])
    moreover have "io_triple (\<lambda>w. held_from w0 {} w \<and> canonical_time (to_iso_string t))
        (if date_passed t (q_expiresAt c) then fail 410 ''QUOTE_EXPIRED''
         else io_bind (ad_newId D) (\<lambda>freshId.
            io_bind (io_lift (quoted_record (''run_'' @ freshId) (q_id c) key (to_iso_string t))) (save_new_run D)))
        (\<lambda>_. held_from w0 {}) (\<lambda>_. held_from w0 {})" for t c
    proof (rule triple_given)
      assume t: "canonical_time (to_iso_string t)"
      have keep: "io_keeps (held_from w0 {}) (io_bind (io_lift x) (save_new_run D))"
        if "\<And>r. x = Inr r \<Longrightarrow> io_keeps (held_from w0 {}) (save_new_run D r)" for x
        using that by (cases x) (simp_all add: io_keeps_def io_triple_def io_bind_apply del: split_paired_All)
      show "io_triple (held_from w0 {}) (if date_passed t (q_expiresAt c) then fail 410 ''QUOTE_EXPIRED''
         else io_bind (ad_newId D) (\<lambda>freshId.
            io_bind (io_lift (quoted_record (''run_'' @ freshId) (q_id c) key (to_iso_string t))) (save_new_run D)))
        (\<lambda>_. held_from w0 {}) (\<lambda>_. held_from w0 {})"
        unfolding io_keeps_def [symmetric] by (rule keep keeps_new_run [OF D _ t] intros | assumption)+
    qed
    ultimately have whole: "io_keeps (held_from w0 {}) (io_bind (ad_now D) (\<lambda>t.
          if date_passed t (q_expiresAt c) then fail 410 ''QUOTE_EXPIRED''
          else io_bind (ad_newId D) (\<lambda>freshId.
            io_bind (io_lift (quoted_record (''run_'' @ freshId) (q_id c) key (to_iso_string t))) (save_new_run D))))" for c
      unfolding io_keeps_def by (rule triple_bind)
    show ?thesis unfolding create_run_for_def by (rule whole intros)+
  qed
  show ?thesis
  proof (cases r)
    case Payment_challenge
    show ?thesis unfolding Payment_challenge handle.simps payment_challenge_def
      by (rule intros keeps_owned [OF D] | erule challenge_triple [OF D])+
  next
    case Payment_tx
    show ?thesis unfolding Payment_tx handle.simps payment_tx_def by (rule intros keeps_owned [OF D] owned_pre | erule ports(6-15))+
  next
    case Get_run
    show ?thesis unfolding Get_run handle.simps get_run_def by (rule intros keeps_owned [OF D] owned_pre | erule ports(6-15))+
  next
    case Create_run
    have load: "io_keeps (held_from w0 {}) (loadOwnedRun D i caller)" for i caller
      unfolding io_keeps_def by (rule triple_post [OF loaded_triple [OF D]]) (auto intro: held_none)
    show ?thesis unfolding Create_run handle.simps create_run_def gateway_serviceD(2) [OF D]
      by (rule intros keeps_find new load)+
  next
    case Login
    show ?thesis unfolding Login handle.simps login_def Let_def by (rule intros | erule ports(6-15))+
  next
    case Onboard
    show ?thesis unfolding Onboard handle.simps onboard_def by (rule intros | erule ports(6-15))+
  next
    case Create_quote
    show ?thesis unfolding Create_quote handle.simps create_quote_def by (rule intros | erule ports(6-15))+
  next
    case List_runs
    show ?thesis unfolding List_runs handle.simps list_runs_def by (rule intros | erule ports(6-15))+
  next
    case Health
    show ?thesis unfolding Health handle.simps health_def by (rule intros | erule ports(6-15))+
  next
    case Step_durations
    show ?thesis unfolding Step_durations handle.simps step_durations_def by (rule intros | erule ports(6-15))+
  next
    case Catalog_services
    show ?thesis unfolding Catalog_services handle.simps catalog_services_def by (rule intros | erule ports(6-15))+
  next
    case Get_plan
    show ?thesis unfolding Get_plan handle.simps by (rule detail, erule ports)
  next
    case Get_evidence
    show ?thesis unfolding Get_evidence handle.simps by (rule detail, erule ports)
  next
    case Get_attestation
    show ?thesis unfolding Get_attestation handle.simps by (rule detail, erule ports)
  qed
qed

text \<open>
  C8: whatever request the gateway serves and whatever comes of it, its writes to the tables are steps of the run state
  machine: while other workers write to the same tables they still refine the state machine, and every aggregate
  known before is still in the past of the stored run.
\<close>

theorem gateway_keeps_service:
  assumes "gateway_service P datetime D" and "service S (fst w)"
  shows "store_inv S (fst (snd (serve D r q w)))"
proof -
  have "io_keeps (held_from w {}) (serve D r q)"
    unfolding serve_def by (intro io_keeps_catch handle_keeps [OF assms(1)] keeps_run_reply)
  moreover have "held_from w {} w"
    using service_inv [OF assms(2)] store_inv_known [of S "fst w"] db_leads_refl by (simp add: held_from_def db_valid_def)
  ultimately have "held_from w {} (snd (serve D r q w))" by (rule io_keepsD)
  then show ?thesis by (rule db_leads_service [OF held_led assms(2)])
qed

lemma demo_gateway_service: "gateway_service demo_platform (\<lambda>_. True) demo_gateway"
proof -
  have "gateway_keeps I demo_gateway" for I :: "database \<times> unit \<Rightarrow> bool"
    unfolding gateway_keeps_def demo_gateway_def by (simp del: split_paired_All add: io_keeps_ret io_keeps_lift io_keeps_get)
  then show ?thesis unfolding gateway_service_def by (simp add: demo_gateway_def del: split_paired_All)
qed

theorem gateway_keeps_service_witness:
  "store_inv {tr_run demo_required, tr_run demo_quoted} (fst (snd (serve demo_gateway Create_run demo_authorized (demo_db2, ()))))"
  by (rule gateway_keeps_service [OF demo_gateway_service]) (simp add: demo_service2)

end
