(* ===== verification/Stargate.thy ===== *)
theory Stargate
  imports Procurement "HOL-Library.Signed_Division"
begin

text \<open>
  The bridge of cross-chain runs (\<open>packages/stargate-bridge-adapter/src\<close>): the reviewed routes, the adapter that
  quotes, submits and follows a transfer, its two submission stores (in memory, and \<open>PostgresBridgeSubmissionStore\<close>
  of \<open>packages/persistence-postgres/src/cross-chain-stores.ts\<close>), the client of LayerZero Scan and the preflight.
  The contracts on the source chain, the receipts of the destination and the HTTP client are ports.
\<close>

section \<open>Routes\<close>

record stargate_route =
  sr_id :: string
  sr_sourceAsset :: evm_asset
  sr_sourceOftAddress :: string
  sr_sourceEndpointId :: int
  sr_sharedDecimals :: int
  sr_destinationAsset :: evm_asset
  sr_destinationOftAddress :: string
  sr_destinationEndpointId :: int

definition GOAT_TO_BNB_USDT_STARGATE_ROUTE :: stargate_route where
  "GOAT_TO_BNB_USDT_STARGATE_ROUTE = \<lparr>sr_id = ''stargate-v2:goat-mainnet-usdt:bnb-mainnet-usdt'',
     sr_sourceAsset = \<lparr>ea_network = ''eip155:2345'', ea_tokenAddress = ''0xE1AD845D93853fff44990aE0DcecD8575293681e'',
       ea_symbol = ''USDT'', ea_decimals = 6\<rparr>,
     sr_sourceOftAddress = ''0x549943e04f40284185054145c6E4e9568C1D3241'', sr_sourceEndpointId = 30361, sr_sharedDecimals = 6,
     sr_destinationAsset = \<lparr>ea_network = ''eip155:56'', ea_tokenAddress = ''0x55d398326f99059fF775485246999027B3197955'',
       ea_symbol = ''USDT'', ea_decimals = 18\<rparr>,
     sr_destinationOftAddress = ''0x138EB30f73BC423c6455C53df6D89CB01d9eBc63'', sr_destinationEndpointId = 30102\<rparr>"

definition GOAT_TO_BNB_USDC_STARGATE_ROUTE :: stargate_route where
  "GOAT_TO_BNB_USDC_STARGATE_ROUTE = \<lparr>sr_id = ''stargate-v2:goat-mainnet-usdc:bnb-mainnet-usdc'',
     sr_sourceAsset = \<lparr>ea_network = ''eip155:2345'', ea_tokenAddress = ''0x3022b87ac063DE95b1570F46f5e470F8B53112D8'',
       ea_symbol = ''USDC'', ea_decimals = 6\<rparr>,
     sr_sourceOftAddress = ''0xbbA60da06c2c5424f03f7434542280FCAd453d10'', sr_sourceEndpointId = 30361, sr_sharedDecimals = 6,
     sr_destinationAsset = \<lparr>ea_network = ''eip155:56'', ea_tokenAddress = ''0x8AC76a51cc950d9822D68b83fE1Ad97B32Cd580d'',
       ea_symbol = ''USDC'', ea_decimals = 18\<rparr>,
     sr_destinationOftAddress = ''0x962Bd449E630b0d928f308Ce63f1A21F02576057'', sr_destinationEndpointId = 30102\<rparr>"

text \<open>
  The table of routes is a plain object: \<open>inherited\<close> tells which names are members of \<open>Object.prototype\<close>, for
  which the lookup finds a value that is no route (\<open>None\<close>).
\<close>

definition goatToBnbStargateRoute :: "(string \<Rightarrow> bool) \<Rightarrow> string \<Rightarrow> stargate_route option res" where
  "goatToBnbStargateRoute inherited symbol =
    (if symbol = ''USDT'' then Inr (Some GOAT_TO_BNB_USDT_STARGATE_ROUTE)
     else if symbol = ''USDC'' then Inr (Some GOAT_TO_BNB_USDC_STARGATE_ROUTE)
     else if inherited symbol then Inr None
     else Inl (Js_error (''No GOAT->BNB Stargate route for source asset '' @ [CHR 0x22] @ symbol @ [CHR 0x22])))"

section \<open>Submissions\<close>

datatype submission_status = Submission_CLAIMED | Submission_SUBMITTED

record submission =
  sb_status :: submission_status
  sb_idempotencyKey :: string
  sb_quoteId :: string
  sb_runId :: string
  sb_destinationPayerAddress :: string
  sb_minimumAmountOutAtomic :: string
  sb_sourceTransactionHash :: "string option"
  sb_transferId :: "string option"

text \<open>A transfer is its transaction on the source chain and its id.\<close>

type_synonym transfer = "string \<times> string"

record 'w submission_ops =
  so_claim :: "submission \<Rightarrow> ('w, bool \<times> submission) io"
  so_markSubmitted :: "string \<Rightarrow> transfer \<Rightarrow> ('w, submission) io"
  so_abandonClaim :: "string \<Rightarrow> ('w, unit) io"
  so_findByTransferId :: "string \<Rightarrow> ('w, submission option) io"

definition submitted :: "transfer \<Rightarrow> submission \<Rightarrow> submission" where
  "submitted t r = r\<lparr>sb_sourceTransactionHash := Some (fst t), sb_transferId := Some (snd t), sb_status := Submission_SUBMITTED\<rparr>"

subsection \<open>In memory\<close>

text \<open>The map in the order of its insertions.\<close>

definition claim_in_memory :: "submission \<Rightarrow> (submission list, bool \<times> submission) io" where
  "claim_in_memory r = (\<lambda>m. case find (\<lambda>x. sb_idempotencyKey x = sb_idempotencyKey r) m of
      Some existing \<Rightarrow> (Inr (False, existing), m) | None \<Rightarrow> (Inr (True, r), m @ [r]))"

definition markSubmitted_in_memory :: "string \<Rightarrow> transfer \<Rightarrow> (submission list, submission) io" where
  "markSubmitted_in_memory key t = (\<lambda>m. case find (\<lambda>x. sb_idempotencyKey x = key) m of
      None \<Rightarrow> (Inl (Js_error ''Bridge idempotency claim does not exist''), m)
    | Some existing \<Rightarrow> (Inr (submitted t existing),
        map (\<lambda>x. if sb_idempotencyKey x = key then submitted t existing else x) m))"

definition abandonClaim_in_memory :: "string \<Rightarrow> (submission list, unit) io" where
  "abandonClaim_in_memory key = io_modify (filter (\<lambda>x. \<not> (sb_idempotencyKey x = key \<and> sb_status x = Submission_CLAIMED)))"

definition findByTransferId_in_memory :: "string \<Rightarrow> (submission list, submission option) io" where
  "findByTransferId_in_memory i = io_get (find (\<lambda>x. sb_transferId x = Some i))"

definition memory_submissions :: "(submission list \<times> 'e) submission_ops" where
  "memory_submissions = \<lparr>so_claim = (\<lambda>r. on_store (claim_in_memory r)),
     so_markSubmitted = (\<lambda>key t. on_store (markSubmitted_in_memory key t)),
     so_abandonClaim = (\<lambda>key. on_store (abandonClaim_in_memory key)),
     so_findByTransferId = (\<lambda>i. on_store (findByTransferId_in_memory i))\<rparr>"

subsection \<open>In PostgreSQL\<close>

text \<open>
  The table \<open>bridge_submissions\<close>: its key is the idempotency key, transfer ids are unique, \<open>bytea\<close> columns hold their
  bytes as lower-case hex, and the run of a row is in the table of runs (\<open>run_exists\<close>).
\<close>

record bridge_row =
  br_idempotencyKey :: string
  br_quoteId :: string
  br_runId :: string
  br_destinationPayer :: string
  br_minimumAmountOutAtomic :: nat
  br_status :: submission_status
  br_sourceTransactionHash :: "string option"
  br_transferId :: "string option"

type_synonym bridge_table = "bridge_row list"

definition parseBridgeRow :: "bridge_row \<Rightarrow> submission" where
  "parseBridgeRow row = \<lparr>sb_status = br_status row, sb_idempotencyKey = br_idempotencyKey row, sb_quoteId = br_quoteId row,
     sb_runId = br_runId row, sb_destinationPayerAddress = br_destinationPayer row,
     sb_minimumAmountOutAtomic = nat_to_string (br_minimumAmountOutAtomic row),
     sb_sourceTransactionHash = br_sourceTransactionHash row, sb_transferId = keep_truthy (br_transferId row)\<rparr>"

definition assertSameBridgeClaim :: "submission \<Rightarrow> submission \<Rightarrow> unit res" where
  "assertSameBridgeClaim persisted requested = ensure (sb_quoteId persisted = sb_quoteId requested
     \<and> sb_runId persisted = sb_runId requested
     \<and> to_lower (sb_destinationPayerAddress persisted) = to_lower (sb_destinationPayerAddress requested)
     \<and> sb_minimumAmountOutAtomic persisted = sb_minimumAmountOutAtomic requested)
    (Js_error ''Bridge submission idempotency claim conflict'')"

definition address_bytes :: "string \<Rightarrow> string res" where
  "address_bytes v = (if is_address v then Inr (to_lower v) else Inl (Js_error ''Invalid EVM address''))"

definition hash_bytes :: "string \<Rightarrow> string res" where
  "hash_bytes v = (if is_bytes32 v then Inr (to_lower v) else Inl (Js_error ''Invalid transaction hash''))"

definition claimed_row :: "submission \<Rightarrow> bridge_row res" where
  "claimed_row r =
    res_bind (address_bytes (sb_destinationPayerAddress r)) (\<lambda>payer.
    res_bind (pg_positive_numeric (sb_minimumAmountOutAtomic r)) (\<lambda>amount.
    Inr \<lparr>br_idempotencyKey = sb_idempotencyKey r, br_quoteId = sb_quoteId r, br_runId = sb_runId r,
      br_destinationPayer = payer, br_minimumAmountOutAtomic = amount, br_status = Submission_CLAIMED,
      br_sourceTransactionHash = None, br_transferId = None\<rparr>))"

definition claimSubmission :: "(string \<Rightarrow> bool) \<Rightarrow> submission \<Rightarrow> (bridge_table, bool \<times> submission) io" where
  "claimSubmission run_exists r = (\<lambda>t. case claimed_row r of Inl e \<Rightarrow> (Inl e, t)
    | Inr fresh \<Rightarrow>
       (case find (\<lambda>x. br_idempotencyKey x = sb_idempotencyKey r) t of
          Some row \<Rightarrow> (res_bind (assertSameBridgeClaim (parseBridgeRow row) r) (\<lambda>_. Inr (False, parseBridgeRow row)), t)
        | None \<Rightarrow>
            if \<not> run_exists (sb_runId r) then (Inl (Js_error ''insert violates foreign key constraint''), t)
            else (res_bind (assertSameBridgeClaim (parseBridgeRow fresh) r) (\<lambda>_. Inr (True, parseBridgeRow fresh)), t @ [fresh])))"

definition may_submit :: "string \<Rightarrow> string \<Rightarrow> bridge_row \<Rightarrow> bool" where
  "may_submit hash transferId row \<longleftrightarrow> br_status row = Submission_CLAIMED
     \<or> br_sourceTransactionHash row = Some hash \<and> br_transferId row = Some transferId"

definition submitted_row :: "string \<Rightarrow> string \<Rightarrow> bridge_row \<Rightarrow> bridge_row" where
  "submitted_row hash transferId row = row\<lparr>br_status := Submission_SUBMITTED, br_sourceTransactionHash := Some hash,
     br_transferId := Some transferId\<rparr>"

definition markSubmitted :: "string \<Rightarrow> transfer \<Rightarrow> (bridge_table, submission) io" where
  "markSubmitted key result = (\<lambda>t. case hash_bytes (fst result) of Inl e \<Rightarrow> (Inl e, t)
    | Inr hash \<Rightarrow>
       (case find (\<lambda>x. br_idempotencyKey x = key \<and> may_submit hash (snd result) x) t of
          None \<Rightarrow> (Inl (Js_error ''Bridge submission idempotency conflict''), t)
        | Some row \<Rightarrow>
            if list_ex (\<lambda>x. br_idempotencyKey x \<noteq> key \<and> br_transferId x = Some (snd result)) t then (Inl duplicate_key, t)
            else (Inr (parseBridgeRow (submitted_row hash (snd result) row)),
              map (\<lambda>x. if br_idempotencyKey x = key then submitted_row hash (snd result) row else x) t)))"

definition abandonClaim :: "string \<Rightarrow> (bridge_table, unit) io" where
  "abandonClaim key = io_modify (filter (\<lambda>x. \<not> (br_idempotencyKey x = key \<and> br_status x = Submission_CLAIMED)))"

definition findByTransferId :: "string \<Rightarrow> (bridge_table, submission option) io" where
  "findByTransferId i = io_get (\<lambda>t. map_option parseBridgeRow (find (\<lambda>x. br_transferId x = Some i) t))"

definition postgres_submissions :: "(string \<Rightarrow> bool) \<Rightarrow> (bridge_table \<times> 'e) submission_ops" where
  "postgres_submissions run_exists = \<lparr>so_claim = (\<lambda>r. on_store (claimSubmission run_exists r)),
     so_markSubmitted = (\<lambda>key t. on_store (markSubmitted key t)),
     so_abandonClaim = (\<lambda>key. on_store (abandonClaim key)),
     so_findByTransferId = (\<lambda>i. on_store (findByTransferId i))\<rparr>"

section \<open>The adapter\<close>

record send_parameters =
  sp_destinationEndpointId :: int
  sp_destinationRecipient :: string
  sp_amountInAtomic :: string
  sp_minimumAmountOutAtomic :: string

text \<open>\<open>sc_send\<close> takes the messaging fee beside the parameters; an OFT quote is what is sent and what is received.\<close>

record 'w source_chain =
  sc_quoteOft :: "send_parameters \<Rightarrow> ('w, string \<times> string) io"
  sc_quoteSend :: "send_parameters \<Rightarrow> ('w, string) io"
  sc_ensureTokenAllowance :: "string \<Rightarrow> ('w, unit) io"
  sc_send :: "send_parameters \<Rightarrow> string \<Rightarrow> ('w, string) io"

record delivery =
  dv_status :: string
  dv_destinationStatus :: "string option"
  dv_destinationTransactionHash :: "string option"
  dv_failureReason :: "string option"

text \<open>\<open>st_throwIfAborted\<close> throws the reason of an aborted signal; \<open>st_receipts\<close> takes the hash, the token and the recipient.\<close>

record 'w stargate =
  st_source :: "'w source_chain"
  st_scan :: "string \<Rightarrow> ('w, delivery option) io"
  st_receipts :: "string \<Rightarrow> string \<Rightarrow> string \<Rightarrow> ('w, string option) io"
  st_store :: "'w submission_ops"
  st_route :: stargate_route
  st_now :: "('w, int) io"
  st_throwIfAborted :: "('w, unit) io"
  st_quoteTtlMilliseconds :: int
  st_maxNativeFeeWei :: int

text \<open>\<open>Promise.all\<close> of two calls: both are made; of two failures the one of the first call is kept.\<close>

definition both :: "('w, 'a) io \<Rightarrow> ('w, 'b) io \<Rightarrow> ('w, 'a \<times> 'b) io" where
  "both m n = (\<lambda>w. case m w of (r, w1) \<Rightarrow> (case n w1 of (s, w2) \<Rightarrow> (res_bind r (\<lambda>a. res_bind s (\<lambda>b. Inr (a, b))), w2)))"

text \<open>What the constructor checks of its options; the default life of a quote is a minute.\<close>

definition adapter_options :: "string \<Rightarrow> int option \<Rightarrow> (int \<times> int) res" where
  "adapter_options maxNativeFeeWei ttl =
    res_bind (assertAtomicAmount maxNativeFeeWei ''maxNativeFeeWei'' False) (\<lambda>_.
    res_bind (js_bigint maxNativeFeeWei) (\<lambda>fee.
    let life = (case ttl of None \<Rightarrow> 60000 | Some t \<Rightarrow> t) in
    res_bind (ensure (0 < life) (Js_error ''quoteTtlMilliseconds must be a positive integer'')) (\<lambda>_. Inr (fee, life))))"

subsection \<open>Amounts of the two tokens\<close>

definition decimalConversionRate :: "int \<Rightarrow> int \<Rightarrow> int res" where
  "decimalConversionRate localDecimals sharedDecimals =
    (if sharedDecimals < 0 \<or> localDecimals < sharedDecimals then Inl (Js_error ''Stargate route decimals are invalid'')
     else Inr (10 ^ nat (localDecimals - sharedDecimals)))"

definition sourceToDestinationAtomic :: "stargate_route \<Rightarrow> string \<Rightarrow> string res" where
  "sourceToDestinationAtomic R sourceAtomic =
    res_bind (decimalConversionRate (ea_decimals (sr_sourceAsset R)) (sr_sharedDecimals R)) (\<lambda>sourceRate.
    res_bind (decimalConversionRate (ea_decimals (sr_destinationAsset R)) (sr_sharedDecimals R)) (\<lambda>destinationRate.
    res_bind (js_bigint sourceAtomic) (\<lambda>v. Inr (int_to_string ((v sdiv sourceRate) * destinationRate)))))"

definition destinationToSourceAtomicCeil :: "stargate_route \<Rightarrow> string \<Rightarrow> string res" where
  "destinationToSourceAtomicCeil R destinationAtomic =
    res_bind (decimalConversionRate (ea_decimals (sr_sourceAsset R)) (sr_sharedDecimals R)) (\<lambda>sourceRate.
    res_bind (decimalConversionRate (ea_decimals (sr_destinationAsset R)) (sr_sharedDecimals R)) (\<lambda>destinationRate.
    res_bind (js_bigint destinationAtomic) (\<lambda>v.
      Inr (int_to_string (((v + destinationRate - 1) sdiv destinationRate) * sourceRate)))))"

definition send_parameters_of :: "stargate_route \<Rightarrow> procurement_intent \<Rightarrow> string \<Rightarrow> send_parameters res" where
  "send_parameters_of R i amountIn =
    res_bind (destinationToSourceAtomicCeil R (rl_maximumAtomicAmount (xi_target i))) (\<lambda>minimum.
    Inr \<lparr>sp_destinationEndpointId = sr_destinationEndpointId R, sp_destinationRecipient = rl_payerAddress (xi_target i),
      sp_amountInAtomic = amountIn, sp_minimumAmountOutAtomic = minimum\<rparr>)"

definition assertIntentRoute :: "stargate_route \<Rightarrow> procurement_intent \<Rightarrow> unit res" where
  "assertIntentRoute R i =
    res_bind (ensure (sameAsset (rl_asset (xi_funding i)) (sr_sourceAsset R))
      (Js_error ''Procurement funding asset is not the reviewed GOAT USDT Stargate route'')) (\<lambda>_.
    res_bind (ensure (sameAsset (rl_asset (xi_target i)) (sr_destinationAsset R))
      (Js_error ''Procurement target asset is not canonical BNB Chain USDT'')) (\<lambda>_.
    assertAddress (rl_payerAddress (xi_target i)) ''target.payerAddress''))"

subsection \<open>Quoting\<close>

definition STARGATE_V2_PROVIDER :: string where "STARGATE_V2_PROVIDER = ''STARGATE_V2_LAYERZERO''"

text \<open>What both a quote and a submission check of the answers of the chain: the output and the messaging fee.\<close>

definition checked_output :: "stargate_route \<Rightarrow> int \<Rightarrow> string \<Rightarrow> string \<Rightarrow> string \<Rightarrow> exn \<Rightarrow> exn \<Rightarrow> string res" where
  "checked_output R maxFee received fee minimum shortfall expensive =
    res_bind (sourceToDestinationAtomic R received) (\<lambda>output.
    res_bind (js_bigint output) (\<lambda>amountOut.
    res_bind (js_bigint minimum) (\<lambda>needed.
    res_bind (ensure (needed \<le> amountOut) shortfall) (\<lambda>_.
    res_bind (js_bigint fee) (\<lambda>nativeFee.
    res_bind (ensure (nativeFee \<le> maxFee) expensive) (\<lambda>_. Inr output))))))"

definition quoted_output :: "'w stargate \<Rightarrow> procurement_intent \<Rightarrow> string \<times> string \<Rightarrow> string \<Rightarrow> string res" where
  "quoted_output D i oft fee =
    res_bind (assertAtomicAmount (fst oft) ''quoteOft.amountSentAtomic'' False) (\<lambda>_.
    res_bind (assertAtomicAmount (snd oft) ''quoteOft.amountReceivedAtomic'' False) (\<lambda>_.
    res_bind (assertAtomicAmount fee ''quoteSend.nativeFeeWei'' True) (\<lambda>_.
    checked_output (st_route D) (st_maxNativeFeeWei D) (snd oft) fee (rl_maximumAtomicAmount (xi_target i))
      (Js_error ''Stargate quoted output cannot cover the BNB x402 payment ceiling'')
      (Js_error ''Stargate native messaging fee exceeds the configured safety ceiling''))))"

definition route_data :: "stargate_route \<Rightarrow> procurement_intent \<Rightarrow> (string \<times> string) list" where
  "route_data R i = [(''routeId'', sr_id R), (''sourceOftAddress'', sr_sourceOftAddress R),
     (''destinationOftAddress'', sr_destinationOftAddress R),
     (''destinationEndpointId'', int_to_string (sr_destinationEndpointId R)),
     (''destinationPayerAddress'', rl_payerAddress (xi_target i))]"

definition issued_quote :: "platform \<Rightarrow> stargate_route \<Rightarrow> procurement_intent \<Rightarrow> string \<Rightarrow> string \<Rightarrow> string \<Rightarrow> string \<Rightarrow> string \<Rightarrow> bridge_quote" where
  "issued_quote P R i amountIn fee output expiresAt feeAtomic =
    \<lparr>bq_quoteId = pf_keccak_text P (join_with '':'' [xi_runId i, amountIn, rl_maximumAtomicAmount (xi_target i), fee, expiresAt]),
     bq_provider = STARGATE_V2_PROVIDER, bq_sourceAsset = sr_sourceAsset R, bq_destinationAsset = sr_destinationAsset R,
     bq_amountInAtomic = amountIn, bq_minimumAmountOutAtomic = rl_maximumAtomicAmount (xi_target i),
     bq_feeAtomic = feeAtomic, bq_expiresAt = expiresAt,
     bq_providerData = route_data R i @ [(''quotedAmountOutAtomic'', output), (''nativeFeeWei'', fee)]\<rparr>"

definition quote_at :: "platform \<Rightarrow> 'w stargate \<Rightarrow> procurement_intent \<Rightarrow> send_parameters \<Rightarrow> string \<Rightarrow> string \<Rightarrow> string \<Rightarrow> int \<Rightarrow> bridge_quote res" where
  "quote_at P D i s received fee output now =
    (case date_parse (xi_expiresAt i) of None \<Rightarrow> Inl (Js_error ''Invalid time value'')
     | Some intentExpiry \<Rightarrow>
        let expiresAtMs = min (now + st_quoteTtlMilliseconds D) intentExpiry in
        res_bind (ensure (now < expiresAtMs) (Js_error ''Cross-chain procurement intent has expired'')) (\<lambda>_.
        res_bind (js_bigint (sp_amountInAtomic s)) (\<lambda>amountIn.
        res_bind (js_bigint received) (\<lambda>amountReceived.
        res_bind (ensure (amountReceived \<le> amountIn) (Js_error ''Stargate returned an invalid output greater than its input'')) (\<lambda>_.
        Inr (issued_quote P (st_route D) i (sp_amountInAtomic s) fee output (to_iso_string expiresAtMs)
          (int_to_string (amountIn - amountReceived))))))))"

definition stargate_quote :: "platform \<Rightarrow> 'w stargate \<Rightarrow> procurement_intent \<Rightarrow> ('w, bridge_quote) io" where
  "stargate_quote P D i =
    io_then (io_lift (assertIntentRoute (st_route D) i))
    (io_then (st_throwIfAborted D)
    (io_bind (io_lift (send_parameters_of (st_route D) i (rl_maximumAtomicAmount (xi_funding i)))) (\<lambda>s.
     io_bind (both (sc_quoteOft (st_source D) s) (sc_quoteSend (st_source D) s)) (\<lambda>(oft, fee).
     io_bind (io_lift (quoted_output D i oft fee)) (\<lambda>output.
     io_bind (st_now D) (\<lambda>t.
     io_lift (quote_at P D i s (snd oft) fee output t)))))))"

subsection \<open>Submitting\<close>

definition requiredProviderData :: "bridge_quote \<Rightarrow> string \<Rightarrow> string res" where
  "requiredProviderData q key = (case keep_truthy (map_of (bq_providerData q) key) of
     None \<Rightarrow> Inl (Js_error (''Bridge quote providerData.'' @ key @ '' is required'')) | Some v \<Rightarrow> Inr v)"

fun assert_provider_data :: "bridge_quote \<Rightarrow> (string \<times> string) list \<Rightarrow> unit res" where
  "assert_provider_data q [] = Inr ()"
| "assert_provider_data q ((key, v) # rest) =
    res_bind (ensure (map_option to_lower (map_of (bq_providerData q) key) = Some (to_lower v))
      (Js_error (''Bridge quote providerData.'' @ key @ '' does not match the reviewed route''))) (\<lambda>_.
    assert_provider_data q rest)"

definition assertQuoteRoute :: "stargate_route \<Rightarrow> procurement_intent \<Rightarrow> bridge_quote \<Rightarrow> unit res" where
  "assertQuoteRoute R i q =
    res_bind (ensure (bq_provider q = STARGATE_V2_PROVIDER) (Js_error ''Bridge quote provider is not Stargate V2'')) (\<lambda>_.
    res_bind (assert_provider_data q (route_data R i)) (\<lambda>_.
    res_bind (requiredProviderData q ''nativeFeeWei'') (\<lambda>fee.
    res_bind (assertAtomicAmount fee ''quote.providerData.nativeFeeWei'' True) (\<lambda>_.
    res_bind (requiredProviderData q ''quotedAmountOutAtomic'') (\<lambda>output.
    assertAtomicAmount output ''quote.providerData.quotedAmountOutAtomic'' False)))))"

definition claimed_submission :: "procurement_intent \<Rightarrow> bridge_quote \<Rightarrow> string \<Rightarrow> submission" where
  "claimed_submission i q key = \<lparr>sb_status = Submission_CLAIMED, sb_idempotencyKey = key, sb_quoteId = bq_quoteId q,
     sb_runId = xi_runId i, sb_destinationPayerAddress = rl_payerAddress (xi_target i),
     sb_minimumAmountOutAtomic = bq_minimumAmountOutAtomic q, sb_sourceTransactionHash = None, sb_transferId = None\<rparr>"

text \<open>A claim another call holds: its transfer, once that is known.\<close>

definition replayed_transfer :: "submission \<Rightarrow> transfer res" where
  "replayed_transfer r =
    (case (sb_status r, sb_sourceTransactionHash r, sb_transferId r) of
       (Submission_SUBMITTED, Some hash, Some transferId) \<Rightarrow> Inr (hash, transferId)
     | _ \<Rightarrow> Inl (Js_error ''Bridge submission with this idempotency key is already being reconciled''))"

text \<open>What happens before the transaction may have left: the parameters and the fee it is sent with.\<close>

definition prepare_send :: "'w stargate \<Rightarrow> procurement_intent \<Rightarrow> bridge_quote \<Rightarrow> ('w, send_parameters \<times> string) io" where
  "prepare_send D i q =
    io_then (st_throwIfAborted D)
    (io_bind (io_lift (send_parameters_of (st_route D) i (bq_amountInAtomic q))) (\<lambda>s.
     io_bind (both (sc_quoteOft (st_source D) s) (sc_quoteSend (st_source D) s)) (\<lambda>(oft, fee).
     io_then (io_lift (assertAtomicAmount (snd oft) ''freshQuote.amountReceivedAtomic'' False))
     (io_then (io_lift (assertAtomicAmount fee ''freshQuote.nativeFeeWei'' True))
     (io_then (io_lift (checked_output (st_route D) (st_maxNativeFeeWei D) (snd oft) fee (bq_minimumAmountOutAtomic q)
         (Js_error ''Fresh Stargate output fell below the authorized minimum'')
         (Js_error ''Fresh Stargate native messaging fee exceeds the configured safety ceiling'')))
     (io_then (sc_ensureTokenAllowance (st_source D) (bq_amountInAtomic q)) (io_ret (s, fee))))))))"

definition send_transfer :: "'w stargate \<Rightarrow> string \<Rightarrow> send_parameters \<Rightarrow> string \<Rightarrow> ('w, transfer) io" where
  "send_transfer D key s fee =
    io_bind (sc_send (st_source D) s fee) (\<lambda>hash.
    io_then (io_lift (assertHash hash ''sourceTransactionHash''))
    (io_then (so_markSubmitted (st_store D) key (hash, hash)) (io_ret (hash, hash))))"

definition submit_claimed :: "'w stargate \<Rightarrow> procurement_intent \<Rightarrow> bridge_quote \<Rightarrow> string \<Rightarrow> ('w, transfer) io" where
  "submit_claimed D i q key =
    io_bind (io_catch (prepare_send D i q) (\<lambda>e. io_then (so_abandonClaim (st_store D) key) (io_throw e))) (\<lambda>(s, fee).
    send_transfer D key s fee)"

definition stargate_submit :: "'w stargate \<Rightarrow> procurement_intent \<Rightarrow> bridge_quote \<Rightarrow> string \<Rightarrow> ('w, transfer) io" where
  "stargate_submit D i q key =
    io_then (io_lift (assertIntentRoute (st_route D) i))
    (io_then (io_lift (assertNonEmpty key ''idempotencyKey''))
    (io_bind (st_now D) (\<lambda>t.
     io_then (io_lift (assertBridgeQuotePayable i q t))
    (io_then (io_lift (assertQuoteRoute (st_route D) i q))
    (io_bind (so_claim (st_store D) (claimed_submission i q key)) (\<lambda>(acquired, r).
     if \<not> acquired then io_lift (replayed_transfer r) else submit_claimed D i q key))))))"

subsection \<open>Following a transfer\<close>

definition failure_statuses :: "string list" where
  "failure_statuses = [''FAILED'', ''BLOCKED'', ''PAYLOAD_STORED'', ''APPLICATION_BURNED'']"

definition status_of :: "bridge_state \<Rightarrow> string option \<Rightarrow> string option \<Rightarrow> string option \<Rightarrow> bridge_status" where
  "status_of s hash amount reason = \<lparr>bs_status = s, bs_destinationTransactionHash = hash, bs_amountReceivedAtomic = amount,
     bs_failureReason = reason\<rparr>"

definition pending :: bridge_status where "pending = status_of Bridge_PENDING None None None"

text \<open>The amount a delivered transfer brought, against what was authorized.\<close>

definition judged_receipt :: "stargate_route \<Rightarrow> submission \<Rightarrow> string \<Rightarrow> string \<Rightarrow> bridge_status res" where
  "judged_receipt R r hash amount =
    res_bind (assertAtomicAmount amount ''amountReceivedAtomic'' True) (\<lambda>_.
    res_bind (js_bigint amount) (\<lambda>received.
    res_bind (js_bigint (sb_minimumAmountOutAtomic r)) (\<lambda>minimum.
    Inr (if received < minimum
      then status_of Bridge_FAILED (Some hash) (Some amount) (Some (''Destination '' @ ea_symbol (sr_destinationAsset R)
        @ '' receipt is below the authorized x402 payment ceiling''))
      else status_of Bridge_DESTINATION_FUNDED (Some hash) (Some amount) None))))"

definition delivery_status :: "'w stargate \<Rightarrow> submission \<Rightarrow> delivery \<Rightarrow> ('w, bridge_status) io" where
  "delivery_status D r d =
    (let status = to_upper (dv_status d); destinationStatus = map_option to_upper (dv_destinationStatus d) in
     if status \<in> set failure_statuses \<or> (\<exists>s \<in> set failure_statuses. destinationStatus = Some s)
     then io_ret (status_of Bridge_FAILED None None (Some (case dv_failureReason d of Some reason \<Rightarrow> reason
       | None \<Rightarrow> ''LayerZero delivery failed with status '' @ status)))
     else if status \<noteq> ''DELIVERED'' \<or> destinationStatus \<noteq> Some ''SUCCEEDED'' then io_ret pending
     else case keep_truthy (dv_destinationTransactionHash d) of None \<Rightarrow> io_ret pending
     | Some hash \<Rightarrow>
         io_bind (st_receipts D hash (ea_tokenAddress (sr_destinationAsset (st_route D))) (sb_destinationPayerAddress r)) (\<lambda>amount.
         case amount of None \<Rightarrow> io_ret pending | Some a \<Rightarrow> io_lift (judged_receipt (st_route D) r hash a)))"

definition stargate_getStatus :: "'w stargate \<Rightarrow> string \<Rightarrow> ('w, bridge_status) io" where
  "stargate_getStatus D transferId =
    io_then (io_lift (assertHash transferId ''transferId''))
    (io_bind (so_findByTransferId (st_store D) transferId) (\<lambda>found.
     case found of None \<Rightarrow> io_throw (Js_error ''Unknown Stargate bridge transfer'')
     | Some r \<Rightarrow>
         if sb_status r \<noteq> Submission_SUBMITTED \<or> \<not> truthy (sb_sourceTransactionHash r)
         then io_throw (Js_error ''Unknown Stargate bridge transfer'')
         else io_bind (st_scan D (the (sb_sourceTransactionHash r))) (\<lambda>d.
           case d of None \<Rightarrow> io_ret pending | Some d \<Rightarrow> delivery_status D r d)))"

section \<open>Amounts\<close>

lemma sdiv_nonneg: "0 \<le> a \<Longrightarrow> 0 < b \<Longrightarrow> (a::int) sdiv b = a div b"
  by (simp add: signed_divide_int_def sgn_if mult_pos_pos zero_less_mult_iff)

lemma rate_pos: "decimalConversionRate a b = Inr r \<Longrightarrow> 0 < r"
  by (auto simp: decimalConversionRate_def split: if_splits)

lemma bigint_printed: "0 \<le> n \<Longrightarrow> js_bigint (int_to_string n) = Inr n"
  by (simp add: int_to_string_def)

lemma atomic_printed: "0 \<le> n \<Longrightarrow> is_atomic (int_to_string n) \<and> int (dec_value (int_to_string n)) = n"
  by (simp add: int_to_string_def)

lemma ceil_bounds:
  fixes v r :: int
  assumes "0 < r"
  shows "v \<le> (v + r - 1) div r * r" "(v + r - 1) div r * r < v + r"
proof -
  have "(v + r - 1) div r * r = (v + r - 1) - (v + r - 1) mod r" by (simp add: minus_mod_eq_div_mult)
  moreover have "0 \<le> (v + r - 1) mod r" "(v + r - 1) mod r < r" using assms by simp_all
  ultimately show "v \<le> (v + r - 1) div r * r" "(v + r - 1) div r * r < v + r" by linarith+
qed

lemma ceil_converted:
  assumes "is_atomic d" and "destinationToSourceAtomicCeil R d = Inr m"
    and rate: "decimalConversionRate (ea_decimals (sr_destinationAsset R)) (sr_sharedDecimals R) = Inr r"
  shows "\<exists>amount. sourceToDestinationAtomic R m = Inr (int_to_string amount) \<and> int (dec_value d) \<le> amount
    \<and> amount < int (dec_value d) + r"
proof -
  let ?v = "int (dec_value d)" and ?x = "(int (dec_value d) + r - 1) div r"
  from assms(2) obtain s where s: "decimalConversionRate (ea_decimals (sr_sourceAsset R)) (sr_sharedDecimals R) = Inr s"
    and m: "m = int_to_string ((?v + r - 1) sdiv r * s)"
    using assms(1) rate by (auto simp: destinationToSourceAtomicCeil_def res_bind_Inr_iff js_bigint_atomic)
  have r: "0 < r" and s0: "0 < s" using rate_pos [OF rate] rate_pos [OF s] by simp_all
  have x: "0 \<le> ?x" using r by (simp add: pos_imp_zdiv_nonneg_iff)
  have "m = int_to_string (?x * s)" using m r by (simp add: sdiv_nonneg)
  moreover have "js_bigint (int_to_string (?x * s)) = Inr (?x * s)" using x s0 by (simp add: bigint_printed)
  ultimately have "sourceToDestinationAtomic R m = Inr (int_to_string (?x * r))"
    using rate s s0 x by (simp add: sourceToDestinationAtomic_def sdiv_nonneg)
  then show ?thesis using ceil_bounds [OF r, of ?v] by blast
qed

text \<open>
  What the adapter asks the bridge to send is enough and not too much: converted to the target's token and back, the
  ceiling of a payment is covered, and exceeded by less than one unit of the decimals the two tokens share.
\<close>

theorem bridged_minimum_covers:
  assumes "is_atomic d" and "destinationToSourceAtomicCeil R d = Inr m"
    and "decimalConversionRate (ea_decimals (sr_destinationAsset R)) (sr_sharedDecimals R) = Inr r"
  shows "\<exists>amount. sourceToDestinationAtomic R m = Inr (int_to_string amount) \<and> int (dec_value d) \<le> amount
    \<and> amount < int (dec_value d) + r"
  by (rule ceil_converted [OF assms])

theorem bridged_minimum_covers_witness:
  "\<exists>amount. sourceToDestinationAtomic GOAT_TO_BNB_USDT_STARGATE_ROUTE ''2'' = Inr (int_to_string amount)
    \<and> 1000000000001 \<le> amount \<and> amount < 2000000000001"
proof -
  have "destinationToSourceAtomicCeil GOAT_TO_BNB_USDT_STARGATE_ROUTE ''1000000000001'' = Inr ''2''" by code_simp
  moreover have "is_atomic ''1000000000001''" by code_simp
  moreover have "decimalConversionRate (ea_decimals (sr_destinationAsset GOAT_TO_BNB_USDT_STARGATE_ROUTE))
      (sr_sharedDecimals GOAT_TO_BNB_USDT_STARGATE_ROUTE) = Inr 1000000000000" by code_simp
  moreover have "dec_value ''1000000000001'' = 1000000000001" by code_simp
  ultimately show ?thesis using bridged_minimum_covers [of "''1000000000001''" GOAT_TO_BNB_USDT_STARGATE_ROUTE "''2''" 1000000000000]
    by (simp only: of_nat_numeral) simp
qed

section \<open>Quotes the adapter issues\<close>

lemma quote_ok:
  assumes "stargate_quote P D i w = (Inr q, w1)"
  shows "\<exists>s oft fee amount t w0. assertIntentRoute (st_route D) i = Inr ()
    \<and> send_parameters_of (st_route D) i (rl_maximumAtomicAmount (xi_funding i)) = Inr s
    \<and> quoted_output D i oft fee = Inr amount \<and> st_now D w0 = (Inr t, w1) \<and> quote_at P D i s (snd oft) fee amount t = Inr q"
proof -
  from assms obtain s oft fee amount t w2 where "assertIntentRoute (st_route D) i = Inr ()"
    "send_parameters_of (st_route D) i (rl_maximumAtomicAmount (xi_funding i)) = Inr s"
    "quoted_output D i oft fee = Inr amount" "st_now D w2 = (Inr t, w1)" "quote_at P D i s (snd oft) fee amount t = Inr q"
    unfolding stargate_quote_def io_ok by (auto simp: io_ok)
  then show ?thesis by blast
qed

lemma assert_unit [simp]: "assertIntentRoute R i = Inr u \<longleftrightarrow> assertIntentRoute R i = Inr ()"
  by simp

lemma intent_amounts:
  assumes "createCrossChainProcurementIntent i = Inr i'"
  shows "amount_ok False (rl_maximumAtomicAmount (xi_funding i))" "amount_ok False (rl_maximumAtomicAmount (xi_target i))"
  using assms by (auto simp: createCrossChainProcurementIntent_def res_bind_Inr_iff assertAtomicAmount_def)

lemma checked_output_ok:
  assumes checked: "checked_output R maxFee received fee minimum e1 e2 = Inr amount" and received: "amount_ok False received"
    and "amount_ok True fee" and minimum: "amount_ok False minimum"
  shows "amount_ok False amount \<and> dec_value minimum \<le> dec_value amount \<and> int (dec_value fee) \<le> maxFee"
proof -
  from assms obtain s r v where rates: "decimalConversionRate (ea_decimals (sr_sourceAsset R)) (sr_sharedDecimals R) = Inr s"
      "decimalConversionRate (ea_decimals (sr_destinationAsset R)) (sr_sharedDecimals R) = Inr r"
    and amount: "amount = int_to_string (int (dec_value received) sdiv s * r)"
    and rest: "js_bigint amount = Inr v" "int (dec_value minimum) \<le> v" "int (dec_value fee) \<le> maxFee"
    by (auto simp: checked_output_def sourceToDestinationAtomic_def res_bind_Inr_iff amount_ok_def js_bigint_atomic)
  let ?n = "int (dec_value received) sdiv s * r"
  have "0 \<le> ?n" using rate_pos [OF rates(1)] rate_pos [OF rates(2)] by (simp add: sdiv_nonneg pos_imp_zdiv_nonneg_iff)
  then have n: "is_atomic amount" "int (dec_value amount) = ?n" "v = ?n"
    using atomic_printed [of ?n] bigint_printed [of ?n] rest(1) amount by simp_all
  then have "dec_value minimum \<le> dec_value amount" using rest(2) by linarith
  moreover have "dec_value minimum \<noteq> 0" using minimum by (simp add: amount_ok_def)
  ultimately show ?thesis using n(1) rest(3) by (simp add: amount_ok_def)
qed

lemma quoted_output_ok:
  assumes "quoted_output D i oft fee = Inr amount" and "amount_ok False (rl_maximumAtomicAmount (xi_target i))"
  shows "amount_ok True fee \<and> amount_ok False (snd oft) \<and> amount_ok False amount"
  using assms checked_output_ok [of "st_route D" "st_maxNativeFeeWei D" "snd oft" fee "rl_maximumAtomicAmount (xi_target i)" _ _ amount]
  by (auto simp: quoted_output_def res_bind_Inr_iff assertAtomicAmount_def)

text \<open>What a route must have for its quotes to be well-formed; the reviewed routes have it.\<close>

definition route_ok :: "stargate_route \<Rightarrow> bool" where
  "route_ok R \<longleftrightarrow> asset_ok (sr_sourceAsset R) \<and> asset_ok (sr_destinationAsset R)"

lemma reviewed_routes_ok: "route_ok GOAT_TO_BNB_USDT_STARGATE_ROUTE \<and> route_ok GOAT_TO_BNB_USDC_STARGATE_ROUTE"
  by code_simp

lemma issued_quote_routed:
  assumes "amount_ok True fee" and "amount_ok False amount"
  shows "assertQuoteRoute R i (issued_quote P R i amountIn fee amount expiresAt feeAtomic) = Inr ()"
  using assms by (auto simp: assertQuoteRoute_def issued_quote_def route_data_def requiredProviderData_def keep_truthy_def
    assertAtomicAmount_def amount_ok_def dest: is_atomic_digits)

lemma quote_payable:
  assumes quote: "stargate_quote P D i w = (Inr q, w1)" and intent: "createCrossChainProcurementIntent i = Inr i"
    and route: "route_ok (st_route D)" and hash: "\<And>s. js_trim (pf_keccak_text P s) \<noteq> []" and ttl: "0 < st_quoteTtlMilliseconds D"
    and clock: "\<And>w t. fst (st_now D w) = Inr t \<Longrightarrow> 0 \<le> t \<and> t + st_quoteTtlMilliseconds D < 253402300800000"
  shows "\<exists>t w0. st_now D w0 = (Inr t, w1) \<and> assertBridgeQuotePayable i q t = Inr () \<and> assertQuoteRoute (st_route D) i q = Inr ()"
proof -
  from quote_ok [OF quote] obtain s oft fee amount t w0 where routed: "assertIntentRoute (st_route D) i = Inr ()"
    and s: "send_parameters_of (st_route D) i (rl_maximumAtomicAmount (xi_funding i)) = Inr s"
    and out: "quoted_output D i oft fee = Inr amount" and now: "st_now D w0 = (Inr t, w1)"
    and at: "quote_at P D i s (snd oft) fee amount t = Inr q" by blast
  note amounts = intent_amounts [OF intent] and ok = quoted_output_ok [OF out intent_amounts(2) [OF intent]]
  have s_in: "sp_amountInAtomic s = rl_maximumAtomicAmount (xi_funding i)" using s by (auto simp: send_parameters_of_def res_bind_Inr_iff)
  from at obtain expiry where expiry: "date_parse (xi_expiresAt i) = Some expiry"
    and live: "t < min (t + st_quoteTtlMilliseconds D) expiry"
    and fee_ok: "dec_value (snd oft) \<le> dec_value (rl_maximumAtomicAmount (xi_funding i))"
    and q: "q = issued_quote P (st_route D) i (rl_maximumAtomicAmount (xi_funding i)) fee amount
        (to_iso_string (min (t + st_quoteTtlMilliseconds D) expiry))
        (int_to_string (int (dec_value (rl_maximumAtomicAmount (xi_funding i))) - int (dec_value (snd oft))))"
    using amounts ok s_in by (auto simp: quote_at_def Let_def res_bind_Inr_iff amount_ok_def js_bigint_atomic split: option.splits)
  have range: "0 \<le> t" "t + st_quoteTtlMilliseconds D < 253402300800000" using clock [of w0 t] now by simp_all
  have parsed: "date_parse (to_iso_string (min (t + st_quoteTtlMilliseconds D) expiry)) = Some (min (t + st_quoteTtlMilliseconds D) expiry)"
    using range live by (intro date_parse_to_iso_string) auto
  have assets: "sameAsset (rl_asset (xi_funding i)) (sr_sourceAsset (st_route D))" "sameAsset (rl_asset (xi_target i)) (sr_destinationAsset (st_route D))"
    using routed by (auto simp: assertIntentRoute_def res_bind_Inr_iff)
  have route_assets: "assertAsset (sr_sourceAsset (st_route D)) field = Inr ()" "assertAsset (sr_destinationAsset (st_route D)) field = Inr ()" for field
    using route assertAsset_iff [of _ field "()"] by (simp_all add: route_ok_def)
  have provider: "js_trim ''STARGATE_V2_LAYERZERO'' \<noteq> []" by code_simp
  have "assertBridgeQuotePayable i q t = Inr ()"
    using hash amounts fee_ok live parsed assets expiry atomic_printed
    by (auto simp: assertBridgeQuotePayable_def q issued_quote_def route_assets provider assertAtomicAmount_def assertNonEmpty_def STARGATE_V2_PROVIDER_def
      route_data_def amount_ok_def js_bigint_atomic outlives_def)
  moreover have "assertQuoteRoute (st_route D) i q = Inr ()" unfolding q using ok by (intro issued_quote_routed) auto
  ultimately show ?thesis using now by blast
qed

text \<open>
  The adapter accepts what it issues: a quote it returns for an intent that passed the intake is payable for this
  intent at the time it was issued, and carries the data of the reviewed route that a submission demands.
\<close>

theorem stargate_quote_payable:
  assumes "stargate_quote P D i w = (Inr q, w1)" and "createCrossChainProcurementIntent i = Inr i"
    and "route_ok (st_route D)" and "\<And>s. js_trim (pf_keccak_text P s) \<noteq> []" and "0 < st_quoteTtlMilliseconds D"
    and "\<And>w t. fst (st_now D w) = Inr t \<Longrightarrow> 0 \<le> t \<and> t + st_quoteTtlMilliseconds D < 253402300800000"
  shows "\<exists>t w0. st_now D w0 = (Inr t, w1) \<and> assertBridgeQuotePayable i q t = Inr () \<and> assertQuoteRoute (st_route D) i q = Inr ()"
  by (rule quote_payable [OF assms])

section \<open>Both stores keep one submission per key\<close>

text \<open>Two transfers are the same up to the case of the hash.\<close>

definition same_transfer :: "transfer \<Rightarrow> transfer \<Rightarrow> bool" where
  "same_transfer t u \<longleftrightarrow> to_lower (fst t) = to_lower (fst u) \<and> snd t = snd u"

definition records_transfer :: "submission \<Rightarrow> transfer \<Rightarrow> bool" where
  "records_transfer r t \<longleftrightarrow> (\<exists>u. replayed_transfer r = Inr u \<and> same_transfer t u)"

locale submission_store =
  fixes S :: "'w submission_ops"
    and lookup :: "'w \<Rightarrow> string \<Rightarrow> submission option"
    and env :: "'w \<Rightarrow> 'e"
  assumes claim_acquires: "so_claim S r w = (Inr (True, c), w1) \<Longrightarrow> sb_status r = Submission_CLAIMED \<Longrightarrow>
      lookup w (sb_idempotencyKey r) = None \<and> lookup w1 (sb_idempotencyKey r) = Some c \<and> sb_status c = Submission_CLAIMED"
    and claim_replays: "so_claim S r w = (Inr (False, c), w1) \<Longrightarrow> w1 = w \<and> lookup w (sb_idempotencyKey r) = Some c"
    and claim_present: "lookup w (sb_idempotencyKey r) \<noteq> None \<Longrightarrow> snd (so_claim S r w) = w"
    and mark_records: "so_markSubmitted S key t w = (Inr r, w1) \<Longrightarrow> snd t \<noteq> [] \<Longrightarrow> \<exists>c. lookup w1 key = Some c \<and> records_transfer c t"
    and mark_refused: "so_markSubmitted S key t w = (Inl e, w1) \<Longrightarrow> w1 = w"
    and other_keys: "sb_idempotencyKey r \<noteq> key \<Longrightarrow> lookup (snd (so_claim S r w)) key = lookup w key"
      "k \<noteq> key \<Longrightarrow> lookup (snd (so_markSubmitted S k t w)) key = lookup w key"
      "k \<noteq> key \<Longrightarrow> lookup (snd (so_abandonClaim S k w)) key = lookup w key"
    and environment: "env (snd (so_claim S r w)) = env w" "env (snd (so_markSubmitted S key t w)) = env w"
      "env (snd (so_abandonClaim S key w)) = env w"

text \<open>What a submission asks besides its store, before it sends and in all.\<close>

definition prepares_quietly :: "('w \<Rightarrow> 'v) \<Rightarrow> 'w stargate \<Rightarrow> bool" where
  "prepares_quietly view D \<longleftrightarrow> (\<forall>s w. view (snd (sc_quoteOft (st_source D) s w)) = view w)
    \<and> (\<forall>s w. view (snd (sc_quoteSend (st_source D) s w)) = view w)
    \<and> (\<forall>a w. view (snd (sc_ensureTokenAllowance (st_source D) a w)) = view w)
    \<and> (\<forall>w. view (snd (st_throwIfAborted D w)) = view w)"

definition bridge_leaves :: "('w \<Rightarrow> 'v) \<Rightarrow> 'w stargate \<Rightarrow> bool" where
  "bridge_leaves view D \<longleftrightarrow> prepares_quietly view D \<and> (\<forall>s f w. view (snd (sc_send (st_source D) s f w)) = view w)"

definition sending_with :: "'w stargate \<Rightarrow> (send_parameters \<Rightarrow> string \<Rightarrow> ('w, string) io) \<Rightarrow> 'w stargate" where
  "sending_with D f = D\<lparr>st_source := (st_source D)\<lparr>sc_send := f\<rparr>\<rparr>"

text \<open>
  What may happen to the submissions of a key, with the number of transactions sent under it and the transfers
  returned: calls under the key, by any adapter whose ports leave the row of the key alone and send only in
  \<open>sc_send\<close>; calls under other keys; and anything else that leaves the row of the key alone.
\<close>

definition adapter_of :: "'w submission_ops \<Rightarrow> ('w \<Rightarrow> string \<Rightarrow> submission option) \<Rightarrow> string \<Rightarrow> 'w stargate \<Rightarrow> bool" where
  "adapter_of S lookup key D \<longleftrightarrow> st_store D = S \<and> (\<exists>clock. st_now D = io_get clock) \<and> bridge_leaves (\<lambda>w. lookup w key) D"

definition sends_counted :: "('w \<Rightarrow> nat) \<Rightarrow> 'w stargate \<Rightarrow> bool" where
  "sends_counted sent D \<longleftrightarrow> prepares_quietly sent D \<and> (\<forall>s f w. sent (snd (sc_send (st_source D) s f w)) \<le> Suc (sent w))"

definition returned :: "transfer res \<Rightarrow> transfer list" where
  "returned res = (case res of Inr t \<Rightarrow> [t] | Inl _ \<Rightarrow> [])"

inductive submission_history ::
  "'w submission_ops \<Rightarrow> ('w \<Rightarrow> string \<Rightarrow> submission option) \<Rightarrow> ('w \<Rightarrow> nat) \<Rightarrow> string \<Rightarrow> 'w \<Rightarrow> 'w \<Rightarrow> nat \<Rightarrow> transfer list \<Rightarrow> bool"
  for S lookup sent key w where
  start: "submission_history S lookup sent key w w 0 []"
| call: "submission_history S lookup sent key w w1 n ts \<Longrightarrow> adapter_of S lookup key D \<Longrightarrow> sends_counted sent D \<Longrightarrow>
    stargate_submit D i q key w1 = (res, w2) \<Longrightarrow>
    submission_history S lookup sent key w w2 (n + (sent w2 - sent w1)) (ts @ returned res)"
| other: "submission_history S lookup sent key w w1 n ts \<Longrightarrow> adapter_of S lookup key D \<Longrightarrow> k \<noteq> key \<Longrightarrow>
    stargate_submit D i q k w1 = (res, w2) \<Longrightarrow> submission_history S lookup sent key w w2 n ts"
| outside: "submission_history S lookup sent key w w1 n ts \<Longrightarrow> lookup w2 key = lookup w1 key \<Longrightarrow>
    submission_history S lookup sent key w w2 n ts"

lemma claimed_submission_simps [simp]:
  "sb_idempotencyKey (claimed_submission i q key) = key" "sb_status (claimed_submission i q key) = Submission_CLAIMED"
  by (simp_all add: claimed_submission_def)

lemma both_leaves: "\<forall>w. view (snd (m w)) = view w \<Longrightarrow> \<forall>w. view (snd (n w)) = view w \<Longrightarrow> view (snd (both m n w)) = view w"
  by (simp add: both_def split: prod.split) (metis snd_conv)

lemma leaves_keeps: "(\<And>w. view (snd (m w)) = view w) \<Longrightarrow> io_keeps (\<lambda>w. view w = v) m"
  by (rule io_keepsI) simp

lemma prepare_leaves:
  assumes "prepares_quietly view D"
  shows "view (snd (prepare_send D i q w)) = view w"
proof -
  have ports: "\<forall>w. view (snd (sc_quoteOft (st_source D) s w)) = view w" "\<forall>w. view (snd (sc_quoteSend (st_source D) s w)) = view w"
    "\<forall>w. view (snd (sc_ensureTokenAllowance (st_source D) a w)) = view w" "\<forall>w. view (snd (st_throwIfAborted D w)) = view w" for s a
    using assms unfolding prepares_quietly_def by blast+
  have keeps: "io_keeps (\<lambda>x. view x = view w) (both (sc_quoteOft (st_source D) s) (sc_quoteSend (st_source D) s))"
    "io_keeps (\<lambda>x. view x = view w) (sc_ensureTokenAllowance (st_source D) a)" "io_keeps (\<lambda>x. view x = view w) (st_throwIfAborted D)" for s a
    by (rule leaves_keeps, simp add: both_leaves ports)+
  have pair: "io_keeps I (case p of (a, b) \<Rightarrow> f a b)" if "\<And>a b. io_keeps I (f a b)" for I p f
    using that by (cases p) simp
  have "io_keeps (\<lambda>x. view x = view w) (prepare_send D i q)"
    unfolding prepare_send_def by (intro io_intros keeps pair)
  then show ?thesis by (rule io_keepsD) simp
qed

text \<open>A submission up to its claim.\<close>

definition claim_transfer :: "'w stargate \<Rightarrow> procurement_intent \<Rightarrow> bridge_quote \<Rightarrow> string \<Rightarrow> ('w, bool \<times> submission) io" where
  "claim_transfer D i q key =
    io_then (io_lift (assertIntentRoute (st_route D) i))
    (io_then (io_lift (assertNonEmpty key ''idempotencyKey''))
    (io_bind (st_now D) (\<lambda>t.
     io_then (io_lift (assertBridgeQuotePayable i q t))
    (io_then (io_lift (assertQuoteRoute (st_route D) i q))
    (so_claim (st_store D) (claimed_submission i q key))))))"

lemma bind_assoc: "io_bind (io_bind m f) g = io_bind m (\<lambda>x. io_bind (f x) g)"
  unfolding fun_eq_iff io_bind_apply by (simp split: prod.splits sum.splits)

lemma then_assoc: "io_bind (io_then m n) g = io_then m (io_bind n g)"
  unfolding io_then_def bind_assoc ..

lemma submit_split:
  "stargate_submit D i q key = io_bind (claim_transfer D i q key)
    (\<lambda>(acquired, r). if \<not> acquired then io_lift (replayed_transfer r) else submit_claimed D i q key)"
  unfolding stargate_submit_def claim_transfer_def bind_assoc then_assoc ..

lemma other_chain [simp]:
  "st_now (sending_with D f) = st_now D" "st_store (sending_with D f) = st_store D" "st_route (sending_with D f) = st_route D"
  by (simp_all add: sending_with_def)

lemma claim_other_chain [simp]:
  "claim_transfer (sending_with D f) = claim_transfer D"
  by (simp_all add: fun_eq_iff claim_transfer_def)

lemma prepare_other_send [simp]: "prepare_send (sending_with D f) = prepare_send D"
  by (simp add: fun_eq_iff prepare_send_def sending_with_def)

text \<open>Checks before a call: the call is reached, or an error in the same world.\<close>

definition reaches :: "('w, 'a) io \<Rightarrow> ('w, 'a) io \<Rightarrow> 'w \<Rightarrow> bool" where
  "reaches m n w \<longleftrightarrow> m w = n w \<or> (\<exists>e. m w = (Inl e, w))"

lemma reaches_self: "reaches n n w"
  by (simp add: reaches_def)

lemma reaches_then: "reaches m n w \<Longrightarrow> reaches (io_then (io_lift r) m) n w"
  by (cases r) (simp_all add: reaches_def io_then_apply)

lemma reaches_get: "reaches (f (g w)) n w \<Longrightarrow> reaches (io_bind (io_get g) f) n w"
  by (simp add: reaches_def io_bind_apply)

lemma claim_transfer_reaches:
  assumes "st_now D = io_get clock"
  shows "reaches (claim_transfer D i q key) (so_claim (st_store D) (claimed_submission i q key)) w"
  unfolding claim_transfer_def assms by (intro reaches_then reaches_get reaches_self)

context submission_store begin

lemma claim_transfer_cases:
  assumes "st_store D = S" and "st_now D = io_get clock" and "claim_transfer D i q key w = (res, w1)"
  shows "res = Inr (False, c) \<Longrightarrow> w1 = w \<and> lookup w key = Some c"
    and "res = Inr (True, c) \<Longrightarrow> lookup w key = None \<and> lookup w1 key = Some c \<and> sb_status c = Submission_CLAIMED"
    and "lookup w key \<noteq> None \<Longrightarrow> w1 = w"
proof -
  have claimed: "so_claim S (claimed_submission i q key) w = (res, w1) \<or> ((\<exists>e. res = Inl e) \<and> w1 = w)"
    using claim_transfer_reaches [OF assms(2), of i q key w] assms(1,3) by (auto simp: reaches_def)
  show "res = Inr (False, c) \<Longrightarrow> w1 = w \<and> lookup w key = Some c"
    using claim_replays [of "claimed_submission i q key" w c w1] claimed by auto
  show "res = Inr (True, c) \<Longrightarrow> lookup w key = None \<and> lookup w1 key = Some c \<and> sb_status c = Submission_CLAIMED"
    using claim_acquires [of "claimed_submission i q key" w c w1] claimed by auto
  show "lookup w key \<noteq> None \<Longrightarrow> w1 = w" using claim_present [of w "claimed_submission i q key"] claimed by auto
qed

lemma submit_replays:
  assumes "st_store D = S" and "st_now D = io_get clock" and "lookup w key = Some c"
  shows "\<exists>res. stargate_submit D i q key w = (res, w) \<and> (\<forall>t. res = Inr t \<longrightarrow> replayed_transfer c = Inr t)"
proof -
  obtain r w1 where claim: "claim_transfer D i q key w = (r, w1)" by (cases "claim_transfer D i q key w")
  note cases = claim_transfer_cases [OF assms(1,2) claim]
  have w1: "w1 = w" using cases(3) assms(3) by simp
  show ?thesis
  proof (cases r)
    case (Inl e)
    then show ?thesis using claim w1 by (auto simp: submit_split io_bind_apply)
  next
    case (Inr x)
    then obtain acquired found where x: "r = Inr (acquired, found)" by (cases x) simp
    then have "\<not> acquired" using cases(2) [of found] assms(3) by (cases acquired) auto
    moreover from this have "found = c" using cases(1) [of found] x assms(3) by simp
    ultimately show ?thesis using claim w1 x by (auto simp: submit_split io_bind_apply)
  qed
qed

lemma sent_records:
  assumes "send_transfer D key s fee w = (Inr t, w1)" and "st_store D = S"
  shows "\<exists>c. lookup w1 key = Some c \<and> records_transfer c t"
proof -
  from assms obtain w2 r where t: "is_bytes32 (fst t)" "snd t = fst t" and mark: "so_markSubmitted S key t w2 = (Inr r, w1)"
    by (auto simp: send_transfer_def io_ok)
  have "snd t \<noteq> []" using t by (auto simp: is_bytes32_def is_hex_bytes_def)
  with mark show ?thesis by (rule mark_records)
qed

lemma submit_records:
  assumes "st_store D = S" and "st_now D = io_get clock" and "stargate_submit D i q key w = (Inr t, w1)"
  shows "\<exists>c. lookup w1 key = Some c \<and> records_transfer c t"
proof -
  from assms(3) obtain acquired c w0 where claim: "claim_transfer D i q key w = (Inr (acquired, c), w0)"
    and rest: "if acquired then submit_claimed D i q key w0 = (Inr t, w1) else replayed_transfer c = Inr t \<and> w1 = w0"
    unfolding submit_split io_ok by (auto split: if_splits)
  show ?thesis
  proof (cases acquired)
    case True
    then obtain s fee w2 where "send_transfer D key s fee w2 = (Inr t, w1)" using rest by (auto simp: submit_claimed_def io_ok)
    then show ?thesis using assms(1) by (rule sent_records)
  next
    case False
    then have "replayed_transfer c = Inr t" "lookup w1 key = Some c"
      using rest claim_transfer_cases(1) [OF assms(1,2) claim] by auto
    moreover have "same_transfer t t" by (simp add: same_transfer_def)
    ultimately show ?thesis unfolding records_transfer_def by blast
  qed
qed

lemma claimed_stays:
  assumes "bridge_leaves (\<lambda>w. lookup w key) D" and "st_store D = S" and "send_transfer D key s fee w = (Inl e, w1)"
    and "lookup w key \<noteq> None"
  shows "lookup w1 key \<noteq> None"
proof -
  have sent: "lookup (snd (sc_send (st_source D) s fee w)) key = lookup w key" using assms(1) by (simp add: bridge_leaves_def)
  show ?thesis
  proof (cases "sc_send (st_source D) s fee w")
    case (Pair r w2)
    then have w2: "lookup w2 key \<noteq> None" using sent assms(4) by simp
    show ?thesis
    proof (cases "\<exists>h. r = Inr h \<and> is_bytes32 h")
      case False
      then have "w1 = w2" using assms(3) Pair
        by (auto simp: send_transfer_def io_then_apply io_bind_apply assertHash_def ensure_def split: sum.splits if_splits)
      then show ?thesis using w2 by simp
    next
      case True
      then obtain h where h: "r = Inr h" "is_bytes32 h" by blast
      obtain m w3 where mark: "so_markSubmitted S key (h, h) w2 = (m, w3)" by (cases "so_markSubmitted S key (h, h) w2")
      then have "w1 = w3 \<and> (\<exists>x. m = Inl x)" using assms(2,3) Pair h
        by (auto simp: send_transfer_def io_then_apply io_bind_apply assertHash_def ensure_def split: sum.splits)
      then show ?thesis using mark_refused [of key "(h, h)" w2 _ w3] mark w2 by auto
    qed
  qed
qed

lemma unsent:
  assumes S: "st_store D = S" and now: "st_now D = io_get clock" and leave: "bridge_leaves (\<lambda>w. lookup w key) D"
    and failed: "stargate_submit D i q key w = (Inl e, w1)" and freed: "lookup w1 key = None"
  shows "stargate_submit (sending_with D f) i q key w = (Inl e, w1)"
proof -
  obtain r w0 where claim: "claim_transfer D i q key w = (r, w0)" by (cases "claim_transfer D i q key w")
  show ?thesis
  proof (cases "\<exists>c. r = Inr (True, c)")
    case False
    then show ?thesis using failed claim by (auto simp: submit_split io_bind_apply split: sum.splits)
  next
    case True
    then obtain c where c: "r = Inr (True, c)" "lookup w0 key = Some c" using claim_transfer_cases(2) [OF S now claim] by blast
    then have body: "submit_claimed D i q key w0 = (Inl e, w1)" using failed claim by (simp add: submit_split io_bind_apply)
    obtain p w2 where p: "prepare_send D i q w0 = (p, w2)" by (cases "prepare_send D i q w0")
    have "prepares_quietly (\<lambda>w. lookup w key) D" using leave by (simp add: bridge_leaves_def)
    then have same: "lookup w2 key = Some c" using prepare_leaves [of "\<lambda>w. lookup w key" D i q w0] p c(2) by simp
    show ?thesis
    proof (cases p)
      case (Inl x)
      then show ?thesis using body claim c(1) p
        by (auto simp: submit_split submit_claimed_def io_bind_apply io_catch_apply io_then_apply split: prod.splits sum.splits)
    next
      case (Inr sf)
      then obtain s fee where "p = Inr (s, fee)" by (cases sf) simp
      then have "send_transfer D key s fee w2 = (Inl e, w1)"
        using body p by (simp add: submit_claimed_def io_bind_apply io_catch_apply)
      from claimed_stays [OF leave S this] same freed show ?thesis by simp
    qed
  qed
qed

text \<open>A call under a key that has a row sends nothing; one that finds none sends at most once, and then leaves a row.\<close>

lemma send_once:
  assumes S: "st_store D = S" and leave: "bridge_leaves (\<lambda>w. lookup w key) D" and sent: "sends_counted (\<lambda>w. sent (env w)) D"
    and run: "send_transfer D key s fee w = (res, w1)" and row: "lookup w key = Some c"
  shows "\<exists>c. lookup w1 key = Some c \<and> sent (env w1) \<le> Suc (sent (env w)) \<and> (\<forall>t. res = Inr t \<longrightarrow> records_transfer c t)"
proof (cases res)
  case (Inr t)
  obtain h w2 where h: "sc_send (st_source D) s fee w = (Inr h, w2)" "w1 = snd (so_markSubmitted S key (h, h) w2)"
    using run S Inr by (auto simp: send_transfer_def io_ok)
  have "sent (env w2) \<le> Suc (sent (env w))" using sent h(1) by (metis sends_counted_def snd_conv)
  then show ?thesis using sent_records [OF run [unfolded Inr] S] environment(2) h(2) Inr by auto
next
  case (Inl e)
  obtain h w2 where h: "sc_send (st_source D) s fee w = (h, w2)" by (cases "sc_send (st_source D) s fee w")
  have "sent (env w2) \<le> Suc (sent (env w))" using sent h by (metis sends_counted_def snd_conv)
  moreover have "lookup w2 key = Some c" using leave h row by (metis bridge_leaves_def snd_conv)
  moreover have "w1 = w2"
  proof (cases "\<exists>x. h = Inr x \<and> is_bytes32 x")
    case False
    then show ?thesis using run h by (auto simp: send_transfer_def io_then_apply io_bind_apply assertHash_def ensure_def
      split: sum.splits if_splits)
  next
    case True
    then obtain x where x: "h = Inr x" "is_bytes32 x" by blast
    obtain m w3 where mark: "so_markSubmitted S key (x, x) w2 = (m, w3)" by (cases "so_markSubmitted S key (x, x) w2")
    have "\<exists>y. m = Inl y" "w1 = w3" using run h x S mark Inl
      by (auto simp: send_transfer_def io_then_apply io_bind_apply assertHash_def split: sum.splits)
    then show ?thesis using mark_refused [of key "(x, x)" w2 _ w3] mark by auto
  qed
  ultimately show ?thesis using Inl by simp
qed

lemma submit_counts:
  assumes D: "adapter_of S lookup key D" and sent: "sends_counted (\<lambda>w. sent (env w)) D"
    and run: "stargate_submit D i q key w = (res, w1)"
  shows "lookup w key = Some c \<Longrightarrow> w1 = w \<and> (\<forall>t. res = Inr t \<longrightarrow> records_transfer c t)"
    and "lookup w key = None \<Longrightarrow> (lookup w1 key = None \<and> sent (env w1) = sent (env w) \<and> returned res = [])
      \<or> (\<exists>c. lookup w1 key = Some c \<and> sent (env w1) \<le> Suc (sent (env w)) \<and> (\<forall>t. res = Inr t \<longrightarrow> records_transfer c t))"
proof -
  from D obtain clock where S: "st_store D = S" and now: "st_now D = io_get clock" and leave: "bridge_leaves (\<lambda>w. lookup w key) D"
    by (auto simp: adapter_of_def)
  show "lookup w key = Some c \<Longrightarrow> w1 = w \<and> (\<forall>t. res = Inr t \<longrightarrow> records_transfer c t)"
    using submit_replays [OF S now, of w key c i q] run by (auto simp: records_transfer_def same_transfer_def)
  assume none: "lookup w key = None"
  have quiet: "(lookup w1 key = None \<and> sent (env w1) = sent (env w) \<and> returned res = [])
      \<or> (\<exists>c. lookup w1 key = Some c \<and> sent (env w1) \<le> Suc (sent (env w)) \<and> (\<forall>t. res = Inr t \<longrightarrow> records_transfer c t))"
    if "sent (env w1) = sent (env w)" "\<exists>e. res = Inl e"
    using that by (cases "lookup w1 key") (auto simp: returned_def)
  obtain r w0 where claim: "claim_transfer D i q key w = (r, w0)" by (cases "claim_transfer D i q key w")
  have w0: "sent (env w0) = sent (env w)"
  proof -
    have "so_claim S (claimed_submission i q key) w = (r, w0) \<or> w0 = w"
      using claim_transfer_reaches [OF now, of i q key w] claim S by (auto simp: reaches_def)
    then show ?thesis using environment(1) [of "claimed_submission i q key" w] by auto
  qed
  show "(lookup w1 key = None \<and> sent (env w1) = sent (env w) \<and> returned res = [])
      \<or> (\<exists>c. lookup w1 key = Some c \<and> sent (env w1) \<le> Suc (sent (env w)) \<and> (\<forall>t. res = Inr t \<longrightarrow> records_transfer c t))"
  proof (cases "\<exists>c. r = Inr (True, c)")
    case False
    then have "\<exists>e. r = Inl e" using claim_transfer_cases(1) [OF S now claim] none by (cases r) auto
    then show ?thesis using run claim w0 by (intro quiet) (auto simp: submit_split io_bind_apply)
  next
    case True
    then obtain c where c: "r = Inr (True, c)" "lookup w0 key = Some c" using claim_transfer_cases(2) [OF S now claim] by blast
    then have body: "submit_claimed D i q key w0 = (res, w1)" using run claim by (simp add: submit_split io_bind_apply)
    obtain p w2 where p: "prepare_send D i q w0 = (p, w2)" by (cases "prepare_send D i q w0")
    have w2: "lookup w2 key = Some c" "sent (env w2) = sent (env w)"
      using prepare_leaves [of "\<lambda>w. lookup w key" D i q w0] prepare_leaves [of "\<lambda>w. sent (env w)" D i q w0]
        leave sent p c(2) w0 by (simp_all add: bridge_leaves_def sends_counted_def)
    show ?thesis
    proof (cases p)
      case (Inl x)
      then have "w1 = snd (so_abandonClaim S key w2)" "\<exists>e. res = Inl e" using body p S
        by (auto simp: submit_claimed_def io_bind_apply io_catch_apply io_then_apply split: prod.splits sum.splits)
      then show ?thesis using w2(2) environment(3) [of key w2] by (intro quiet) simp_all
    next
      case (Inr sf)
      then obtain s fee where "p = Inr (s, fee)" by (cases sf) simp
      then have "send_transfer D key s fee w2 = (res, w1)"
        using body p by (simp add: submit_claimed_def io_bind_apply io_catch_apply)
      from send_once [OF S leave sent this w2(1)] w2(2) show ?thesis by simp
    qed
  qed
qed

lemma submit_other_key:
  assumes "adapter_of S lookup key D" and "k \<noteq> key"
  shows "lookup (snd (stargate_submit D i q k w)) key = lookup w key"
proof -
  from assms(1) obtain clock where S: "st_store D = S" and now: "st_now D = io_get clock"
    and leave: "prepares_quietly (\<lambda>w. lookup w key) D" "\<And>s f w. lookup (snd (sc_send (st_source D) s f w)) key = lookup w key"
    by (auto simp: adapter_of_def bridge_leaves_def)
  let ?keeps = "io_keeps (\<lambda>x. lookup x key = lookup w key)"
  have mark: "?keeps (so_markSubmitted S k x)" for x by (rule leaves_keeps, rule other_keys(2), rule assms(2))
  have keeps: "?keeps (so_claim S (claimed_submission i q k))" "?keeps (so_abandonClaim S k)"
    "?keeps (sc_send (st_source D) s f)" "?keeps (prepare_send D i q)" for s f
    using other_keys(1,3) assms(2) leave(2) prepare_leaves [OF leave(1)] by (auto intro!: leaves_keeps)
  have pair: "io_keeps I (case p of (a, b) \<Rightarrow> f a b)" if "\<And>a b. io_keeps I (f a b)" for I p f
    using that by (cases p) simp
  have "?keeps (stargate_submit D i q k)"
    unfolding stargate_submit_def submit_claimed_def send_transfer_def S now by (intro io_intros keeps mark pair)
  then show ?thesis by (rule io_keepsD) simp
qed

text \<open>What a history comes to: no row, nothing sent and nothing returned, or a row that records every transfer returned.\<close>

lemma history_cases:
  assumes "submission_history S lookup (\<lambda>w. sent (env w)) key w w' n ts"
  shows "(lookup w' key = None \<and> n = 0 \<and> ts = [])
    \<or> (\<exists>c. lookup w' key = Some c \<and> n \<le> 1 \<and> (\<forall>t \<in> set ts. records_transfer c t))"
  using assms
proof (induction rule: submission_history.induct)
  case start
  then show ?case by (cases "lookup w key") auto
next
  case (call w1 n ts D i q res w2)
  note one = submit_counts [OF call.hyps(2,3,4)]
  from call.IH show ?case
  proof
    assume "lookup w1 key = None \<and> n = 0 \<and> ts = []"
    then show ?thesis using one(2) by (auto simp: returned_def split: sum.splits)
  next
    assume "\<exists>c. lookup w1 key = Some c \<and> n \<le> 1 \<and> (\<forall>t \<in> set ts. records_transfer c t)"
    then obtain c where c: "lookup w1 key = Some c" "n \<le> 1" "\<forall>t \<in> set ts. records_transfer c t" by blast
    from one(1) [OF c(1)] c show ?thesis by (auto simp: returned_def split: sum.splits)
  qed
next
  case (other w1 n ts D k i q res w2)
  then show ?case using submit_other_key [of key D k i q w1] by simp
qed auto

lemma sent_at_most_once:
  assumes "submission_history S lookup (\<lambda>w. sent (env w)) key w w' n ts"
  shows "n \<le> 1 \<and> (\<forall>t \<in> set ts. \<forall>u \<in> set ts. same_transfer t u)"
proof -
  have same: "same_transfer t u" if "records_transfer c t" "records_transfer c u" for c t u
    using that by (auto simp: records_transfer_def same_transfer_def)
  from history_cases [OF assms] show ?thesis
  proof (elim disjE exE conjE)
    fix c assume "n \<le> 1" "\<forall>t \<in> set ts. records_transfer c t"
    with same [of c] show ?thesis by blast
  qed simp
qed

end

subsection \<open>In memory and in PostgreSQL\<close>

definition memory_submission :: "submission list \<times> 'e \<Rightarrow> string \<Rightarrow> submission option" where
  "memory_submission w key = find (\<lambda>x. sb_idempotencyKey x = key) (fst w)"

definition bridge_submission :: "bridge_table \<times> 'e \<Rightarrow> string \<Rightarrow> submission option" where
  "bridge_submission w key = map_option parseBridgeRow (find (\<lambda>x. br_idempotencyKey x = key) (fst w))"

lemma find_snoc: "find P (xs @ [x]) = (case find P xs of None \<Rightarrow> if P x then Some x else None | Some y \<Rightarrow> Some y)"
  by (induction xs) simp_all

lemma find_replaced:
  "k y = key \<Longrightarrow> find (\<lambda>x. k x = key) (map (\<lambda>x. if k x = key then y else x) xs)
    = (case find (\<lambda>x. k x = key) xs of None \<Rightarrow> None | Some _ \<Rightarrow> Some y)"
  by (induction xs) simp_all

lemma find_elsewhere:
  "k y = key' \<Longrightarrow> key' \<noteq> key \<Longrightarrow> find (\<lambda>x. k x = key) (map (\<lambda>x. if k x = key' then y else x) xs) = find (\<lambda>x. k x = key) xs"
  by (induction xs) simp_all

lemma find_filtered: "key' \<noteq> key \<Longrightarrow> find (\<lambda>x. k x = key) (filter (\<lambda>x. k x = key' \<longrightarrow> p x) xs) = find (\<lambda>x. k x = key) xs"
  by (induction xs) simp_all

lemma find_weaker: "find (\<lambda>x. P x \<and> Q x) xs = Some y \<Longrightarrow> P y \<and> Q y \<and> find P xs \<noteq> None"
  by (induction xs) (auto split: if_splits)

lemma find_holds: "find P xs = Some y \<Longrightarrow> P y"
  by (induction xs) (auto split: if_splits)

lemma submitted_records: "records_transfer (submitted t r) t"
  by (cases t) (simp add: records_transfer_def submitted_def replayed_transfer_def same_transfer_def)

lemma submitted_row_records:
  "transferId \<noteq> [] \<Longrightarrow> records_transfer (parseBridgeRow (submitted_row (to_lower hash) transferId row)) (hash, transferId)"
  by (simp add: records_transfer_def submitted_row_def parseBridgeRow_def replayed_transfer_def same_transfer_def keep_truthy_def)

lemma memory_submissions_ops [simp]:
  "so_claim memory_submissions = (\<lambda>r. on_store (claim_in_memory r))"
  "so_markSubmitted memory_submissions = (\<lambda>key t. on_store (markSubmitted_in_memory key t))"
  by (simp_all add: memory_submissions_def)

lemma postgres_submissions_ops [simp]:
  "so_claim (postgres_submissions rx) = (\<lambda>r. on_store (claimSubmission rx r))"
  "so_markSubmitted (postgres_submissions rx) = (\<lambda>key t. on_store (markSubmitted key t))"
  by (simp_all add: postgres_submissions_def)

interpretation memory_bridge: submission_store memory_submissions memory_submission snd
proof
  fix r c key k t e and w w1 :: "submission list \<times> 'e"
  obtain m e0 where w: "w = (m, e0)" by (cases w)
  note defs = w on_store_ok memory_submission_def claim_in_memory_def markSubmitted_in_memory_def
  show "so_claim memory_submissions r w = (Inr (True, c), w1) \<Longrightarrow> sb_status r = Submission_CLAIMED \<Longrightarrow>
      memory_submission w (sb_idempotencyKey r) = None \<and> memory_submission w1 (sb_idempotencyKey r) = Some c
      \<and> sb_status c = Submission_CLAIMED"
    by (auto simp: defs find_snoc split: option.splits)
  show "so_claim memory_submissions r w = (Inr (False, c), w1) \<Longrightarrow> w1 = w \<and> memory_submission w (sb_idempotencyKey r) = Some c"
    by (auto simp: defs split: option.splits)
  show "memory_submission w (sb_idempotencyKey r) \<noteq> None \<Longrightarrow> snd (so_claim memory_submissions r w) = w"
    by (auto simp: defs on_store_def split: option.splits)
  show "so_markSubmitted memory_submissions key t w = (Inr c, w1) \<Longrightarrow> snd t \<noteq> [] \<Longrightarrow>
      \<exists>c. memory_submission w1 key = Some c \<and> records_transfer c t"
  proof -
    assume "so_markSubmitted memory_submissions key t w = (Inr c, w1)"
    then obtain old where old: "find (\<lambda>x. sb_idempotencyKey x = key) m = Some old"
      and w1: "fst w1 = map (\<lambda>x. if sb_idempotencyKey x = key then submitted t old else x) m"
      by (auto simp: defs split: option.splits)
    have "sb_idempotencyKey (submitted t old) = key" using find_holds [OF old] by (simp add: submitted_def)
    then have "memory_submission w1 key = Some (submitted t old)"
      unfolding memory_submission_def w1 by (simp add: find_replaced old)
    then show ?thesis using submitted_records by blast
  qed
  show "so_markSubmitted memory_submissions key t w = (Inl e, w1) \<Longrightarrow> w1 = w"
    by (auto simp: defs split: option.splits)
  show "sb_idempotencyKey r \<noteq> key \<Longrightarrow> memory_submission (snd (so_claim memory_submissions r w)) key = memory_submission w key"
    by (auto simp: defs on_store_def find_snoc split: option.splits)
  show "k \<noteq> key \<Longrightarrow> memory_submission (snd (so_markSubmitted memory_submissions k t w)) key = memory_submission w key"
    by (auto simp: defs on_store_def submitted_def find_elsewhere dest!: find_holds split: option.splits)
  show "k \<noteq> key \<Longrightarrow> memory_submission (snd (so_abandonClaim memory_submissions k w)) key = memory_submission w key"
    by (simp add: defs memory_submissions_def on_store_def abandonClaim_in_memory_def find_filtered)
  show "snd (snd (so_claim memory_submissions r w)) = snd w" "snd (snd (so_markSubmitted memory_submissions key t w)) = snd w"
    "snd (snd (so_abandonClaim memory_submissions key w)) = snd w"
    by (simp_all add: memory_submissions_def postgres_submissions_def on_store_def split: prod.split)
qed

interpretation postgres_bridge: submission_store "postgres_submissions run_exists" bridge_submission snd for run_exists
proof
  fix r c key k t e and w w1 :: "bridge_table \<times> 'e"
  obtain m e0 where w: "w = (m, e0)" by (cases w)
  note defs = w on_store_ok bridge_submission_def claimSubmission_def markSubmitted_def
  show "so_claim (postgres_submissions run_exists) r w = (Inr (True, c), w1) \<Longrightarrow> sb_status r = Submission_CLAIMED \<Longrightarrow>
      bridge_submission w (sb_idempotencyKey r) = None \<and> bridge_submission w1 (sb_idempotencyKey r) = Some c
      \<and> sb_status c = Submission_CLAIMED"
    by (auto simp: defs find_snoc claimed_row_def parseBridgeRow_def res_bind_Inr_iff split: option.splits sum.splits if_splits)
  show "so_claim (postgres_submissions run_exists) r w = (Inr (False, c), w1) \<Longrightarrow> w1 = w \<and> bridge_submission w (sb_idempotencyKey r) = Some c"
    by (auto simp: defs res_bind_Inr_iff split: option.splits sum.splits if_splits)
  show "bridge_submission w (sb_idempotencyKey r) \<noteq> None \<Longrightarrow> snd (so_claim (postgres_submissions run_exists) r w) = w"
    by (auto simp: defs on_store_def split: option.splits sum.splits)
  show "so_markSubmitted (postgres_submissions run_exists) key t w = (Inr c, w1) \<Longrightarrow> snd t \<noteq> [] \<Longrightarrow>
      \<exists>c. bridge_submission w1 key = Some c \<and> records_transfer c t"
  proof -
    assume mark: "so_markSubmitted (postgres_submissions run_exists) key t w = (Inr c, w1)" and t: "snd t \<noteq> []"
    then obtain row where row: "find (\<lambda>x. br_idempotencyKey x = key \<and> may_submit (to_lower (fst t)) (snd t) x) m = Some row"
      and w1: "fst w1 = map (\<lambda>x. if br_idempotencyKey x = key then submitted_row (to_lower (fst t)) (snd t) row else x) m"
      by (auto simp: defs hash_bytes_def split: option.splits if_splits)
    have key: "br_idempotencyKey (submitted_row (to_lower (fst t)) (snd t) row) = key" "find (\<lambda>x. br_idempotencyKey x = key) m \<noteq> None"
      using find_weaker [OF row] by (simp_all add: submitted_row_def)
    then have "bridge_submission w1 key = Some (parseBridgeRow (submitted_row (to_lower (fst t)) (snd t) row))"
      unfolding bridge_submission_def w1 find_replaced [where k = br_idempotencyKey, OF key(1)] by (auto split: option.splits)
    then show ?thesis using submitted_row_records [OF t, of "fst t" row] by simp
  qed
  show "so_markSubmitted (postgres_submissions run_exists) key t w = (Inl e, w1) \<Longrightarrow> w1 = w"
    by (auto simp: defs split: option.splits sum.splits if_splits)
  show "sb_idempotencyKey r \<noteq> key \<Longrightarrow> bridge_submission (snd (so_claim (postgres_submissions run_exists) r w)) key = bridge_submission w key"
    by (auto simp: defs on_store_def find_snoc claimed_row_def res_bind_Inr_iff split: option.splits sum.splits)
  show "k \<noteq> key \<Longrightarrow> bridge_submission (snd (so_markSubmitted (postgres_submissions run_exists) k t w)) key = bridge_submission w key"
    by (auto simp: defs on_store_def submitted_row_def find_elsewhere dest!: find_weaker split: option.splits sum.splits)
  show "k \<noteq> key \<Longrightarrow> bridge_submission (snd (so_abandonClaim (postgres_submissions run_exists) k w)) key = bridge_submission w key"
    by (simp add: defs postgres_submissions_def on_store_def abandonClaim_def find_filtered)
  show "snd (snd (so_claim (postgres_submissions run_exists) r w)) = snd w"
    "snd (snd (so_markSubmitted (postgres_submissions run_exists) key t w)) = snd w"
    "snd (snd (so_abandonClaim (postgres_submissions run_exists) key w)) = snd w"
    by (simp_all add: memory_submissions_def postgres_submissions_def on_store_def split: prod.split)
qed

section \<open>Properties of submissions\<close>


text \<open>
  A submission that fails and leaves its key free has sent nothing: it runs the same with any other way to send, so
  a retry is safe; this holds while the chain's calls leave the row of the key alone.
\<close>

theorem failed_submission_unsent:
  assumes "st_store D = postgres_submissions run_exists" and "st_now D = io_get clock"
    and "bridge_leaves (\<lambda>w. bridge_submission w key) D"
    and "stargate_submit D i q key w = (Inl e, w1)" and "bridge_submission w1 key = None"
  shows "stargate_submit (sending_with D f) i q key w = (Inl e, w1)"
  by (rule postgres_bridge.unsent [OF assms])

section \<open>Delivery\<close>

lemma status_of_simps [simp]:
  "bs_status (status_of s h a r) = s" "bs_destinationTransactionHash (status_of s h a r) = h"
  "bs_amountReceivedAtomic (status_of s h a r) = a"
  "status_of s h a r = status_of s' h' a' r' \<longleftrightarrow> s = s' \<and> h = h' \<and> a = a' \<and> r = r'"
  by (simp_all add: status_of_def)

lemma judged_funded:
  assumes "judged_receipt R r hash amount = Inr st" and "bs_status st = Bridge_DESTINATION_FUNDED" and "is_atomic (sb_minimumAmountOutAtomic r)"
  shows "is_atomic amount \<and> dec_value (sb_minimumAmountOutAtomic r) \<le> dec_value amount
    \<and> bs_amountReceivedAtomic st = Some amount \<and> bs_destinationTransactionHash st = Some hash"
  using assms by (auto simp: judged_receipt_def res_bind_Inr_iff assertAtomicAmount_def amount_ok_def js_bigint_atomic split: if_splits)

text \<open>
  The target's chain counts as funded only for a submitted transfer whose delivery LayerZero reports and whose
  receipt on the destination gives its payer at least the authorized minimum, in the token of the route.
\<close>

theorem funded_only_on_receipt:
  assumes "stargate_getStatus D transferId w = (Inr st, w1)" and "bs_status st = Bridge_DESTINATION_FUNDED"
    and "st_store D = postgres_submissions run_exists"
  shows "\<exists>r d source hash amount w2 w3 w4. so_findByTransferId (st_store D) transferId w = (Inr (Some r), w2)
    \<and> sb_status r = Submission_SUBMITTED \<and> sb_sourceTransactionHash r = Some source
    \<and> st_scan D source w2 = (Inr (Some d), w3) \<and> to_upper (dv_status d) = ''DELIVERED''
    \<and> dv_destinationTransactionHash d = Some hash
    \<and> st_receipts D hash (ea_tokenAddress (sr_destinationAsset (st_route D))) (sb_destinationPayerAddress r) w3 = (Inr (Some amount), w4)
    \<and> dec_value (sb_minimumAmountOutAtomic r) \<le> dec_value amount \<and> bs_amountReceivedAtomic st = Some amount"
proof -
  from assms(1) obtain found w2 where found: "so_findByTransferId (st_store D) transferId w = (Inr found, w2)"
    by (auto simp: stargate_getStatus_def io_ok)
  with assms(1,2) obtain r source d w3 where r: "found = Some r" "sb_status r = Submission_SUBMITTED" "sb_sourceTransactionHash r = Some source"
    and scan: "st_scan D source w2 = (Inr (Some d), w3)" and status: "delivery_status D r d w3 = (Inr st, w1)"
    by (auto simp: stargate_getStatus_def io_ok pending_def truthy_def split: option.splits if_splits)
  from status assms(2) obtain hash amount w4 where delivered: "to_upper (dv_status d) = ''DELIVERED''"
    and hash: "dv_destinationTransactionHash d = Some hash"
    and receipt: "st_receipts D hash (ea_tokenAddress (sr_destinationAsset (st_route D))) (sb_destinationPayerAddress r) w3 = (Inr (Some amount), w4)"
    and judged: "judged_receipt (st_route D) r hash amount = Inr st"
    by (auto simp: delivery_status_def Let_def io_ok pending_def keep_truthy_def split: option.splits if_splits)
  have "is_atomic (sb_minimumAmountOutAtomic r)"
    using found r(1) by (cases w) (auto simp: assms(3) postgres_submissions_def on_store_ok findByTransferId_def parseBridgeRow_def)
  from judged_funded [OF judged assms(2) this] show ?thesis using found r scan delivered hash receipt by blast
qed

section \<open>A concrete transfer\<close>

definition demo_transfer_intent :: procurement_intent where
  "demo_transfer_intent = \<lparr>xi_runId = ''run-0001'',
     xi_funding = \<lparr>rl_asset = sr_sourceAsset GOAT_TO_BNB_USDT_STARGATE_ROUTE, rl_payerAddress = demo_addr (CHR ''1''),
       rl_maximumAtomicAmount = ''1000000''\<rparr>,
     xi_target = \<lparr>rl_asset = sr_destinationAsset GOAT_TO_BNB_USDT_STARGATE_ROUTE, rl_payerAddress = demo_addr (CHR ''2''),
       rl_maximumAtomicAmount = ''900000000000000000'', rl_payToAddress = None\<rparr>,
     xi_expiresAt = ''2026-01-01T01:00:00.000Z''\<rparr>"

text \<open>A bridge that keeps a thousandth and asks five units of gas; how it sends is a parameter.  The world counts what is sent.\<close>

definition demo_stargate :: "(nat, string) io \<Rightarrow> (bridge_table \<times> nat) stargate" where
  "demo_stargate send = \<lparr>st_source = \<lparr>sc_quoteOft = (\<lambda>s. io_ret (''1000000'', ''999000'')), sc_quoteSend = (\<lambda>s. io_ret ''5''),
       sc_ensureTokenAllowance = (\<lambda>a. io_ret ()), sc_send = (\<lambda>s f w. (fst (send (snd w)), (fst w, snd (send (snd w)))))\<rparr>,
     st_scan = (\<lambda>h. io_ret (Some \<lparr>dv_status = ''Delivered'', dv_destinationStatus = Some ''SUCCEEDED'',
       dv_destinationTransactionHash = Some (demo_hash32 (CHR ''7'')), dv_failureReason = None\<rparr>)),
     st_receipts = (\<lambda>h t r. io_ret (Some ''950000000000000000'')), st_store = postgres_submissions (\<lambda>_. True),
     st_route = GOAT_TO_BNB_USDT_STARGATE_ROUTE, st_now = io_get (\<lambda>_. 1767225600000), st_throwIfAborted = io_ret (),
     st_quoteTtlMilliseconds = 60000, st_maxNativeFeeWei = 100\<rparr>"

definition demo_sends :: "(nat, string) io" where "demo_sends = (\<lambda>n. (Inr (demo_hash32 (CHR ''6'')), Suc n))"

definition demo_issued :: bridge_quote where
  "demo_issued = issued_quote demo_platform GOAT_TO_BNB_USDT_STARGATE_ROUTE demo_transfer_intent ''1000000'' ''5'' ''999000000000000000''
     ''2026-01-01T00:01:00.000Z'' ''1000''"


lemma demo_fields:
  "st_route (demo_stargate send) = GOAT_TO_BNB_USDT_STARGATE_ROUTE" "st_now (demo_stargate send) = io_get (\<lambda>_. 1767225600000)"
  "st_throwIfAborted (demo_stargate send) = io_ret ()" "st_store (demo_stargate send) = postgres_submissions (\<lambda>_. True)"
  "sc_quoteOft (st_source (demo_stargate send)) s = io_ret (''1000000'', ''999000'')"
  "sc_quoteSend (st_source (demo_stargate send)) s = io_ret ''5''"
  "sc_ensureTokenAllowance (st_source (demo_stargate send)) amount = io_ret ()"
  "st_maxNativeFeeWei (demo_stargate send) = 100" "st_quoteTtlMilliseconds (demo_stargate send) = 60000"
  by (simp_all add: demo_stargate_def)

lemma demo_intent_route: "assertIntentRoute GOAT_TO_BNB_USDT_STARGATE_ROUTE demo_transfer_intent = Inr ()"
  by code_simp

lemma demo_maximum: "rl_maximumAtomicAmount (xi_funding demo_transfer_intent) = ''1000000''" by (simp add: demo_transfer_intent_def)

definition demo_parameters :: send_parameters where
  "demo_parameters = \<lparr>sp_destinationEndpointId = 30102, sp_destinationRecipient = demo_addr (CHR ''2''),
     sp_amountInAtomic = ''1000000'', sp_minimumAmountOutAtomic = ''900000''\<rparr>"

lemma demo_sending: "send_parameters_of GOAT_TO_BNB_USDT_STARGATE_ROUTE demo_transfer_intent ''1000000'' = Inr demo_parameters"
  by code_simp

lemma demo_output:
  "quoted_output (demo_stargate demo_sends) demo_transfer_intent (''1000000'', ''999000'') ''5'' = Inr ''999000000000000000''"
  by code_simp

lemma demo_quote_at: "quote_at demo_platform (demo_stargate demo_sends) demo_transfer_intent demo_parameters ''999000'' ''5''
    ''999000000000000000'' 1767225600000 = Inr demo_issued"
  by code_simp

lemma demo_quoted_transfer: "stargate_quote demo_platform (demo_stargate demo_sends) demo_transfer_intent ([], 0) = (Inr demo_issued, ([], 0))"
  by (simp add: stargate_quote_def demo_fields demo_intent_route demo_maximum demo_sending demo_output demo_quote_at both_def
    io_bind_def io_then_def io_lift_def io_ret_def io_get_def)

lemma visible_first: "\<not> is_js_space c \<Longrightarrow> js_trim (c # s) \<noteq> []"
  by (simp add: js_trim_def dropWhile_eq_Nil_conv)

theorem stargate_quote_payable_witness:
  "\<exists>t. assertBridgeQuotePayable demo_transfer_intent demo_issued t = Inr ()
    \<and> assertQuoteRoute GOAT_TO_BNB_USDT_STARGATE_ROUTE demo_transfer_intent demo_issued = Inr ()"
proof -
  let ?D = "demo_stargate demo_sends"
  have intent: "createCrossChainProcurementIntent demo_transfer_intent = Inr demo_transfer_intent" by code_simp
  have route: "st_route ?D = GOAT_TO_BNB_USDT_STARGATE_ROUTE" "0 < st_quoteTtlMilliseconds ?D" by (simp_all add: demo_stargate_def)
  have ok: "route_ok (st_route ?D)" using reviewed_routes_ok route(1) by simp
  have "js_trim (pf_keccak_text demo_platform s) \<noteq> []" for s
  proof -
    have "\<not> is_js_space (CHR ''0'')" by code_simp
    from visible_first [OF this] show ?thesis by (simp add: demo_platform_def)
  qed
  moreover have "0 \<le> t \<and> t + st_quoteTtlMilliseconds ?D < 253402300800000" if "fst (st_now ?D w) = Inr t" for t w
    using that by (simp add: demo_stargate_def)
  ultimately show ?thesis
    using stargate_quote_payable [OF demo_quoted_transfer intent ok _ route(2)] unfolding route(1) by blast
qed

lemma postgres_other_ops:
  "so_abandonClaim (postgres_submissions rx) = (\<lambda>key. on_store (abandonClaim key))"
  "so_findByTransferId (postgres_submissions rx) = (\<lambda>i. on_store (findByTransferId i))"
  by (simp_all add: postgres_submissions_def)

lemma demo_issued_ok:
  "assertBridgeQuotePayable demo_transfer_intent demo_issued 1767225600000 = Inr ()"
  "assertQuoteRoute GOAT_TO_BNB_USDT_STARGATE_ROUTE demo_transfer_intent demo_issued = Inr ()"
  by code_simp+

lemma demo_issued_amounts: "bq_amountInAtomic demo_issued = ''1000000''" "bq_minimumAmountOutAtomic demo_issued = ''900000000000000000''"
  by code_simp+

lemma demo_fresh_output: "checked_output GOAT_TO_BNB_USDT_STARGATE_ROUTE 100 ''999000'' ''5'' ''900000000000000000'' e f
    = Inr ''999000000000000000''"
  by code_simp

definition demo_claimed :: bridge_row where
  "demo_claimed = \<lparr>br_idempotencyKey = ''key-1'', br_quoteId = bq_quoteId demo_issued, br_runId = ''run-0001'',
     br_destinationPayer = demo_addr (CHR ''2''), br_minimumAmountOutAtomic = 900000000000000000, br_status = Submission_CLAIMED,
     br_sourceTransactionHash = None, br_transferId = None\<rparr>"

lemma demo_claimed_key: "br_idempotencyKey demo_claimed = ''key-1''" "br_status demo_claimed = Submission_CLAIMED"
  by (simp_all add: demo_claimed_def)

lemma demo_claimed_row: "claimed_row (claimed_submission demo_transfer_intent demo_issued ''key-1'') = Inr demo_claimed"
  by code_simp

lemma demo_same_claim:
  "assertSameBridgeClaim (parseBridgeRow demo_claimed) (claimed_submission demo_transfer_intent demo_issued ''key-1'') = Inr ()"
  by code_simp

lemma demo_hash_ok: "assertHash (demo_hash32 (CHR ''6'')) field = Inr ()" "hash_bytes (demo_hash32 (CHR ''6'')) = Inr (demo_hash32 (CHR ''6''))"
  by code_simp+

lemma demo_amounts_ok: "assertAtomicAmount ''999000'' field False = Inr ()" "assertAtomicAmount ''5'' field True = Inr ()"
  "assertNonEmpty ''key-1'' field = Inr ()"
  by code_simp+

definition demo_sent :: bridge_table where
  "demo_sent = [submitted_row (demo_hash32 (CHR ''6'')) (demo_hash32 (CHR ''6'')) demo_claimed]"

lemma demo_sends_once: "sc_send (st_source (demo_stargate demo_sends)) s f w = (Inr (demo_hash32 (CHR ''6'')), (fst w, Suc (snd w)))"
  by (simp add: demo_stargate_def demo_sends_def)

lemmas demo_step = demo_fields demo_intent_route demo_maximum demo_sending demo_output demo_quote_at demo_issued_ok demo_issued_amounts
  demo_fresh_output demo_claimed_key demo_claimed_row demo_same_claim demo_hash_ok demo_amounts_ok demo_sends_once both_def
  io_bind_def io_then_def io_lift_def io_ret_def io_get_def io_catch_def on_store_def

lemma demo_first_submission:
  "stargate_submit (demo_stargate demo_sends) demo_transfer_intent demo_issued ''key-1'' ([], 0)
    = (Inr (demo_hash32 (CHR ''6''), demo_hash32 (CHR ''6'')), (demo_sent, 1))"
  by (simp add: stargate_submit_def submit_claimed_def prepare_send_def send_transfer_def demo_step claimSubmission_def markSubmitted_def
    may_submit_def demo_sent_def)

lemma demo_submitted_facts:
  "find (\<lambda>x. br_idempotencyKey x = ''key-1'') demo_sent = Some (submitted_row (demo_hash32 (CHR ''6'')) (demo_hash32 (CHR ''6'')) demo_claimed)"
  "assertSameBridgeClaim (parseBridgeRow (submitted_row (demo_hash32 (CHR ''6'')) (demo_hash32 (CHR ''6'')) demo_claimed))
     (claimed_submission demo_transfer_intent demo_issued ''key-1'') = Inr ()"
  "replayed_transfer (parseBridgeRow (submitted_row (demo_hash32 (CHR ''6'')) (demo_hash32 (CHR ''6'')) demo_claimed))
     = Inr (demo_hash32 (CHR ''6''), demo_hash32 (CHR ''6''))"
  by code_simp+

lemma demo_second_submission:
  "stargate_submit (demo_stargate demo_sends) demo_transfer_intent demo_issued ''key-1'' (demo_sent, 1)
    = (Inr (demo_hash32 (CHR ''6''), demo_hash32 (CHR ''6'')), (demo_sent, 1))"
  by (simp add: stargate_submit_def demo_step claimSubmission_def demo_submitted_facts)

lemma demo_adapter: "adapter_of (postgres_submissions (\<lambda>_. True)) bridge_submission ''key-1'' (demo_stargate demo_sends)"
    "sends_counted snd (demo_stargate demo_sends)"
proof -
  have "st_now (demo_stargate demo_sends) = io_get (\<lambda>_. 1767225600000)" by (simp add: demo_fields)
  then show "adapter_of (postgres_submissions (\<lambda>_. True)) bridge_submission ''key-1'' (demo_stargate demo_sends)"
    unfolding adapter_of_def
    by (auto simp: bridge_leaves_def prepares_quietly_def demo_fields demo_sends_once bridge_submission_def)
qed (simp add: sends_counted_def prepares_quietly_def demo_fields demo_sends_once)


text \<open>A chain that asks too much gas: the submission fails before anything is sent.\<close>

definition demo_dear :: "(bridge_table \<times> nat) stargate" where
  "demo_dear = (demo_stargate demo_sends)\<lparr>st_maxNativeFeeWei := 1\<rparr>"

lemma demo_dear_fields:
  "st_route demo_dear = GOAT_TO_BNB_USDT_STARGATE_ROUTE" "st_now demo_dear = st_now (demo_stargate demo_sends)"
  "st_throwIfAborted demo_dear = io_ret ()" "st_store demo_dear = postgres_submissions (\<lambda>_. True)"
  "st_source demo_dear = st_source (demo_stargate demo_sends)" "st_maxNativeFeeWei demo_dear = 1"
  by (simp_all add: demo_dear_def demo_fields)

lemma demo_too_dear: "checked_output GOAT_TO_BNB_USDT_STARGATE_ROUTE 1 ''999000'' ''5'' ''900000000000000000'' e f = Inl f"
  by code_simp

theorem failed_submission_unsent_witness:
  "fst (stargate_submit (sending_with demo_dear (\<lambda>_ _. io_throw (Js_error ''unreachable''))) demo_transfer_intent demo_issued ''key-1'' ([], 0))
    = Inl (Js_error ''Fresh Stargate native messaging fee exceeds the configured safety ceiling'')"
proof -
  have run: "stargate_submit demo_dear demo_transfer_intent demo_issued ''key-1'' ([], 0)
    = (Inl (Js_error ''Fresh Stargate native messaging fee exceeds the configured safety ceiling''), ([], 0))"
    by (simp add: stargate_submit_def submit_claimed_def prepare_send_def demo_step demo_dear_fields demo_too_dear claimSubmission_def
      postgres_other_ops abandonClaim_def io_modify_def io_throw_def)
  have store: "st_store demo_dear = postgres_submissions (\<lambda>_. True)" and clock: "st_now demo_dear = io_get (\<lambda>_. 1767225600000)"
    by (simp_all add: demo_dear_def demo_stargate_def)
  have leaves: "bridge_leaves (\<lambda>w. bridge_submission w ''key-1'') demo_dear"
    by (simp add: bridge_leaves_def prepares_quietly_def bridge_submission_def demo_dear_def demo_stargate_def)
  have unclaimed: "bridge_submission ([], 0) ''key-1'' = None" by (simp add: bridge_submission_def)
  show ?thesis using failed_submission_unsent [OF store clock leaves run unclaimed] by simp
qed

lemma demo_delivered: "st_scan (demo_stargate send) h = io_ret (Some \<lparr>dv_status = ''Delivered'', dv_destinationStatus = Some ''SUCCEEDED'',
    dv_destinationTransactionHash = Some (demo_hash32 (CHR ''7'')), dv_failureReason = None\<rparr>)"
  "st_receipts (demo_stargate send) h token r = io_ret (Some ''950000000000000000'')"
  by (simp_all add: demo_stargate_def)

lemma demo_statuses: "to_upper ''Delivered'' = ''DELIVERED''" "to_upper ''SUCCEEDED'' = ''SUCCEEDED''"
  "keep_truthy (Some (demo_hash32 (CHR ''7''))) = Some (demo_hash32 (CHR ''7''))" "demo_hash32 (CHR ''6'') \<noteq> []"
  by code_simp+

definition demo_followed :: submission where
  "demo_followed = parseBridgeRow (submitted_row (demo_hash32 (CHR ''6'')) (demo_hash32 (CHR ''6'')) demo_claimed)"

lemma demo_followed_fields: "sb_status demo_followed = Submission_SUBMITTED"
  "sb_sourceTransactionHash demo_followed = Some (demo_hash32 (CHR ''6''))"
  by code_simp+

lemma demo_judged: "judged_receipt GOAT_TO_BNB_USDT_STARGATE_ROUTE demo_followed (demo_hash32 (CHR ''7'')) ''950000000000000000''
    = Inr (status_of Bridge_DESTINATION_FUNDED (Some (demo_hash32 (CHR ''7''))) (Some ''950000000000000000'') None)"
  by code_simp

lemma demo_found: "so_findByTransferId (postgres_submissions (\<lambda>_. True)) (demo_hash32 (CHR ''6'')) (demo_sent, n) = (Inr (Some demo_followed), (demo_sent, n))"
  by (simp add: postgres_other_ops on_store_def findByTransferId_def io_get_def demo_sent_def submitted_row_def demo_followed_def)

theorem funded_only_on_receipt_witness:
  "\<exists>r. fst (so_findByTransferId (st_store (demo_stargate demo_sends)) (demo_hash32 (CHR ''6'')) (demo_sent, 1)) = Inr (Some r)
    \<and> dec_value (sb_minimumAmountOutAtomic r) \<le> dec_value ''950000000000000000''"
proof -
  have status: "stargate_getStatus (demo_stargate demo_sends) (demo_hash32 (CHR ''6'')) (demo_sent, 1)
    = (Inr (status_of Bridge_DESTINATION_FUNDED (Some (demo_hash32 (CHR ''7''))) (Some ''950000000000000000'') None), (demo_sent, 1))"
    by (simp add: stargate_getStatus_def delivery_status_def demo_step demo_delivered demo_statuses demo_found demo_followed_fields
      failure_statuses_def demo_judged)
  from funded_only_on_receipt [OF status _ demo_fields(4)] show ?thesis by (auto simp del: postgres_submissions_ops)
qed

end
