(* ===== verification/Bridge_Scan.thy ===== *)
theory Bridge_Scan
  imports Stargate
begin

text \<open>
  What the bridge adapter sees of LayerZero Scan (\<open>packages/stargate-bridge-adapter/src/layerzero-scan-client.ts\<close>): the
  message of a transfer in whatever shape the service reports it, and the preflight of a cross-chain run
  (\<open>preflight.ts\<close>).  The HTTP client takes the path below the base URL; a hash needs no percent-encoding.
\<close>

section \<open>LayerZero Scan\<close>

fun is_object :: "json \<Rightarrow> bool" where
  "is_object (JObj _) = True" | "is_object _ = False"

definition hasMessageShape :: "json \<Rightarrow> bool" where
  "hasMessageShape v \<longleftrightarrow> json_get v ''source'' \<noteq> None \<or> json_get v ''srcEid'' \<noteq> None \<or> json_get v ''pathway'' \<noteq> None"

definition listed_messages :: "json option \<Rightarrow> json list option" where
  "listed_messages listed =
    (case listed of Some (JArr vs) \<Rightarrow> Some (filter is_object vs)
     | Some v \<Rightarrow> (case json_get v ''messages'' of Some (JArr vs) \<Rightarrow> Some (filter is_object vs) | _ \<Rightarrow> None)
     | None \<Rightarrow> None)"

definition collectMessages :: "json \<Rightarrow> json list" where
  "collectMessages body =
    (case body of JArr vs \<Rightarrow> filter is_object vs
     | JObj _ \<Rightarrow>
        (case listed_messages (json_get body ''data'') of Some ms \<Rightarrow> ms
         | None \<Rightarrow> (case listed_messages (json_get body ''messages'') of Some ms \<Rightarrow> ms
            | None \<Rightarrow> if hasMessageShape body then [body] else []))
     | _ \<Rightarrow> [])"

fun readPath :: "json \<Rightarrow> string list \<Rightarrow> json option" where
  "readPath v [] = Some v"
| "readPath v (s # ss) = (case json_get v s of None \<Rightarrow> None | Some u \<Rightarrow> readPath u ss)"

fun readString :: "json \<Rightarrow> string list list \<Rightarrow> string option" where
  "readString v [] = None"
| "readString v (p # ps) = (case keep_truthy (json_string_of (readPath v p)) of Some s \<Rightarrow> Some s | None \<Rightarrow> readString v ps)"

text \<open>A whole number, or a text of digits.\<close>

definition number_of :: "json option \<Rightarrow> int option" where
  "number_of v = (case v of Some (JNum n) \<Rightarrow> Some n
     | Some (JStr s) \<Rightarrow> if s \<noteq> [] \<and> list_all is_digit s then Some (int (dec_value s)) else None
     | _ \<Rightarrow> None)"

fun readNumber :: "json \<Rightarrow> string list list \<Rightarrow> int option" where
  "readNumber v [] = None"
| "readNumber v (p # ps) = (case number_of (readPath v p) of Some n \<Rightarrow> Some n | None \<Rightarrow> readNumber v ps)"

definition message_between :: "int \<Rightarrow> int \<Rightarrow> json \<Rightarrow> bool" where
  "message_between source destination m \<longleftrightarrow>
     readNumber m [[''source'', ''eid''], [''source'', ''endpointId''], [''pathway'', ''srcEid''], [''srcEid'']] = Some source
   \<and> readNumber m [[''destination'', ''eid''], [''destination'', ''endpointId''], [''pathway'', ''dstEid''], [''dstEid'']]
       = Some destination"

definition delivery_of :: "json \<Rightarrow> delivery" where
  "delivery_of m = \<lparr>
     dv_status = (case readString m [[''status'', ''name''], [''status'']] of Some s \<Rightarrow> s | None \<Rightarrow> ''INFLIGHT''),
     dv_destinationStatus = readString m [[''destination'', ''status'', ''name''], [''destination'', ''status'']],
     dv_destinationTransactionHash =
       (case readString m [[''destination'', ''tx'', ''txHash''], [''destination'', ''txHash''], [''destinationTxHash'']] of
          Some h \<Rightarrow> if is_bytes32 h then Some h else None | None \<Rightarrow> None),
     dv_failureReason = readString m [[''error'', ''message''], [''failureReason''], [''destination'', ''error'', ''message'']]\<rparr>"

definition getDelivery :: "platform \<Rightarrow> (string \<Rightarrow> ('w, http_response) io) \<Rightarrow> int \<Rightarrow> int \<Rightarrow> string \<Rightarrow> ('w, delivery option) io" where
  "getDelivery P fetch source destination hash =
    io_bind (fetch (''messages/tx/'' @ hash)) (\<lambda>response.
    if hr_status response = 404 then io_ret None
    else if hr_status response < 200 \<or> 299 < hr_status response
    then io_throw (Js_error (''LayerZero Scan returned HTTP '' @ int_to_string (hr_status response)))
    else case pf_parse_json P (hr_body response) of None \<Rightarrow> io_throw (Syntax_error ''Unexpected token in JSON'')
    | Some body \<Rightarrow> io_ret (map_option delivery_of (find (message_between source destination) (collectMessages body))))"

section \<open>The preflight\<close>

datatype check_status = Check_pass | Check_fail | Check_warn | Check_skip

record preflight_facts =
  ft_sourcePoolLive :: bool
  ft_sourceTokenMatches :: bool
  ft_destinationPoolLive :: bool
  ft_destinationTokenMatches :: bool
  ft_signerAddress :: string
  ft_usdcBalanceAtomic :: string
  ft_nativeGasWei :: string
  ft_bridgeAmountAtomic :: string
  ft_minGoatGasWei :: string
  ft_bnbConfigured :: bool
  ft_bnbPayerAddress :: "string option"
  ft_bnbNativeGasWei :: "string option"
  ft_bnbMinGasWei :: "string option"
  ft_endpointReachable :: "bool option"
  ft_endpointStatus :: "int option"
  ft_targetAmountAtomic :: "string option"
  ft_maxTargetAmountAtomic :: "string option"

record preflight_check =
  chk_name :: string
  chk_status :: check_status
  chk_detail :: string

definition gte :: "string \<Rightarrow> string \<Rightarrow> bool res" where
  "gte a b = res_bind (js_bigint a) (\<lambda>x. res_bind (js_bigint b) (\<lambda>y. Inr (y \<le> x)))"

definition check_unless :: "check_status \<Rightarrow> string \<Rightarrow> bool \<Rightarrow> string \<Rightarrow> preflight_check" where
  "check_unless s name b detail = \<lparr>chk_name = name, chk_status = (if b then Check_pass else s), chk_detail = detail\<rparr>"

definition pool_detail :: "string \<Rightarrow> bool \<Rightarrow> bool \<Rightarrow> string" where
  "pool_detail chain live tokenMatches =
    (if \<not> live then chain @ '' USDC pool has no code at the pinned address''
     else if tokenMatches then ''live, token() is the expected USDC''
     else ''pool is live but token() is NOT the expected USDC -- route address drift'')"

definition goat_checks :: "preflight_facts \<Rightarrow> preflight_check list res" where
  "goat_checks f =
    res_bind (gte (ft_usdcBalanceAtomic f) (ft_bridgeAmountAtomic f)) (\<lambda>funded.
    res_bind (gte (ft_nativeGasWei f) (ft_minGoatGasWei f)) (\<lambda>gas. Inr
     [check_unless Check_fail ''Stargate source USDC pool (GOAT)'' (ft_sourcePoolLive f \<and> ft_sourceTokenMatches f)
        (pool_detail ''GOAT'' (ft_sourcePoolLive f) (ft_sourceTokenMatches f)),
      check_unless Check_fail ''Stargate destination USDC pool (BNB)'' (ft_destinationPoolLive f \<and> ft_destinationTokenMatches f)
        (pool_detail ''BNB'' (ft_destinationPoolLive f) (ft_destinationTokenMatches f)),
      check_unless Check_fail ''GOAT signer USDC balance covers the bridge amount'' funded
        (ft_signerAddress f @ '': has '' @ ft_usdcBalanceAtomic f @ '', needs '' @ ft_bridgeAmountAtomic f @ '' (atomic USDC)''),
      check_unless Check_warn ''GOAT signer native (BTC) gas'' gas
        (if gas then ft_nativeGasWei f @ '' wei, above the '' @ ft_minGoatGasWei f @ '' floor''
         else ft_nativeGasWei f @ '' wei is below the '' @ ft_minGoatGasWei f
           @ '' floor -- the LayerZero fee is quoted at send time and may not be covered'')]))"

definition gas_check :: "preflight_facts \<Rightarrow> preflight_check list res" where
  "gas_check f = (case (ft_bnbNativeGasWei f, ft_bnbMinGasWei f) of
     (Some gas, Some floor_wei) \<Rightarrow> res_bind (gte gas floor_wei) (\<lambda>ok. Inr [check_unless Check_warn ''BNB payer native (BNB) gas'' ok
        ((case ft_bnbPayerAddress f of None \<Rightarrow> ''payer'' | Some a \<Rightarrow> a) @ '': '' @ gas @ '' wei vs '' @ floor_wei
          @ '' floor (permit2 approval + pay)'')])
   | _ \<Rightarrow> Inr [])"

definition endpoint_check :: "preflight_facts \<Rightarrow> preflight_check list" where
  "endpoint_check f = (case ft_endpointReachable f of None \<Rightarrow> []
     | Some answered \<Rightarrow> [check_unless Check_fail ''BNB x402 target answers a 402 challenge'' (answered \<and> ft_endpointStatus f = Some 402)
         (if answered then ''endpoint responded HTTP ''
            @ (case ft_endpointStatus f of None \<Rightarrow> ''undefined'' | Some status \<Rightarrow> int_to_string status) @ '' (expected 402)''
          else ''endpoint was unreachable'')])"

definition ceiling_check :: "preflight_facts \<Rightarrow> preflight_check list res" where
  "ceiling_check f = (case (ft_targetAmountAtomic f, ft_maxTargetAmountAtomic f) of
     (Some amount, Some maximum) \<Rightarrow> res_bind (gte maximum amount) (\<lambda>ok.
        Inr [check_unless Check_fail ''BNB target payment within its ceiling'' ok
          (''pays '' @ amount @ '', ceiling '' @ maximum @ '' (atomic)'')])
   | _ \<Rightarrow> Inr [])"

definition bnb_checks :: "preflight_facts \<Rightarrow> preflight_check list res" where
  "bnb_checks f =
    (if \<not> ft_bnbConfigured f then Inr [check_unless Check_skip ''BNB destination side'' False
       ''cross-chain env (BNB_*, CROSS_CHAIN_PROCUREMENT_MODE, amounts) is not configured -- BNB checks skipped'']
     else res_bind (gas_check f) (\<lambda>gas. res_bind (ceiling_check f) (\<lambda>ceiling. Inr (gas @ endpoint_check f @ ceiling))))"

definition go_of :: "preflight_check list \<Rightarrow> bool" where
  "go_of checks \<longleftrightarrow> \<not> list_ex (\<lambda>c. chk_status c = Check_fail) checks"

definition evaluateCrossChainPreflight :: "preflight_facts \<Rightarrow> (bool \<times> preflight_check list) res" where
  "evaluateCrossChainPreflight f =
    res_bind (goat_checks f) (\<lambda>goat. res_bind (bnb_checks f) (\<lambda>bnb. Inr (go_of (goat @ bnb), goat @ bnb)))"

section \<open>Properties\<close>

text \<open>An amount that was measured, and one it must reach.\<close>

definition not_above :: "string option \<Rightarrow> string option \<Rightarrow> bool" where
  "not_above a b \<longleftrightarrow> (\<forall>x y. a = Some x \<longrightarrow> b = Some y \<longrightarrow> gte y x = Inr True)"

lemma go_of_simps [simp]: "go_of []" "go_of (c # cs) \<longleftrightarrow> chk_status c \<noteq> Check_fail \<and> go_of cs"
  "go_of (cs @ ds) \<longleftrightarrow> go_of cs \<and> go_of ds"
  by (auto simp: go_of_def)

lemma check_unless_fails [simp]: "chk_status (check_unless s name b d) = Check_fail \<longleftrightarrow> \<not> b \<and> s = Check_fail"
  by (simp add: check_unless_def)

lemma goat_go: "goat_checks f = Inr cs \<Longrightarrow> go_of cs \<longleftrightarrow> ft_sourcePoolLive f \<and> ft_sourceTokenMatches f
    \<and> ft_destinationPoolLive f \<and> ft_destinationTokenMatches f \<and> gte (ft_usdcBalanceAtomic f) (ft_bridgeAmountAtomic f) = Inr True"
  by (auto simp: goat_checks_def res_bind_Inr_iff)

lemma gas_go: "gas_check f = Inr cs \<Longrightarrow> go_of cs"
  by (auto simp: gas_check_def res_bind_Inr_iff split: option.splits)

lemma ceiling_go: "ceiling_check f = Inr cs \<Longrightarrow> go_of cs \<longleftrightarrow> not_above (ft_targetAmountAtomic f) (ft_maxTargetAmountAtomic f)"
  by (auto simp: ceiling_check_def not_above_def res_bind_Inr_iff split: option.splits)

lemma endpoint_go: "go_of (endpoint_check f) \<longleftrightarrow> (\<forall>answered. ft_endpointReachable f = Some answered \<longrightarrow> answered \<and> ft_endpointStatus f = Some 402)"
  by (auto simp: endpoint_check_def split: option.splits)

lemma bnb_go: "bnb_checks f = Inr cs \<Longrightarrow> go_of cs \<longleftrightarrow> (ft_bnbConfigured f \<longrightarrow>
    (\<forall>answered. ft_endpointReachable f = Some answered \<longrightarrow> answered \<and> ft_endpointStatus f = Some 402)
      \<and> not_above (ft_targetAmountAtomic f) (ft_maxTargetAmountAtomic f))"
  by (auto simp: bnb_checks_def res_bind_Inr_iff gas_go ceiling_go endpoint_go split: if_splits)

text \<open>
  The preflight gives its go exactly when both pools are the expected ones, the signer holds what is bridged, and,
  where the destination is configured, the target was seen to ask for payment and its price is within the ceiling:
  thin gas never blocks, and what was not measured does not either.
\<close>

theorem preflight_go_iff:
  assumes "evaluateCrossChainPreflight f = Inr (go, checks)"
  shows "go \<longleftrightarrow> ft_sourcePoolLive f \<and> ft_sourceTokenMatches f \<and> ft_destinationPoolLive f \<and> ft_destinationTokenMatches f
    \<and> gte (ft_usdcBalanceAtomic f) (ft_bridgeAmountAtomic f) = Inr True
    \<and> (ft_bnbConfigured f \<longrightarrow> (\<forall>answered. ft_endpointReachable f = Some answered \<longrightarrow> answered \<and> ft_endpointStatus f = Some 402)
        \<and> not_above (ft_targetAmountAtomic f) (ft_maxTargetAmountAtomic f))"
proof -
  from assms obtain goat bnb where "goat_checks f = Inr goat" "bnb_checks f = Inr bnb" "go \<longleftrightarrow> go_of goat \<and> go_of bnb"
    by (auto simp: evaluateCrossChainPreflight_def res_bind_Inr_iff)
  then show ?thesis by (simp add: goat_go bnb_go)
qed

definition demo_facts :: preflight_facts where
  "demo_facts = \<lparr>ft_sourcePoolLive = True, ft_sourceTokenMatches = True, ft_destinationPoolLive = True,
     ft_destinationTokenMatches = True, ft_signerAddress = ''0x1'', ft_usdcBalanceAtomic = ''10'', ft_nativeGasWei = ''1'',
     ft_bridgeAmountAtomic = ''7'', ft_minGoatGasWei = ''5'', ft_bnbConfigured = True, ft_bnbPayerAddress = None,
     ft_bnbNativeGasWei = None, ft_bnbMinGasWei = None, ft_endpointReachable = Some True, ft_endpointStatus = Some 402,
     ft_targetAmountAtomic = Some ''3'', ft_maxTargetAmountAtomic = Some ''4''\<rparr>"

theorem preflight_go_iff_witness:
  "not_above (ft_targetAmountAtomic demo_facts) (ft_maxTargetAmountAtomic demo_facts)"
proof -
  let ?r = "evaluateCrossChainPreflight demo_facts"
  have go: "case ?r of Inl e \<Rightarrow> False | Inr (go, checks) \<Rightarrow> go" by code_simp
  then obtain checks where "?r = Inr (True, checks)" by (auto split: sum.splits)
  from preflight_go_iff [OF this] show ?thesis by (simp add: demo_facts_def)
qed

end
