(* ===== verification/Network_Config.thy ===== *)
theory Network_Config
  imports Platform Iso_Date
begin

text \<open>
  Network identities, merchant capabilities and the resolution of merchant profiles and RPC URLs
  (\<open>packages/goat-network-config/src/index.ts\<close>, \<open>packages/bot-chain-network-config/src/index.ts\<close>).  The environment is a
  map of names to texts, the URL parser a parameter.  An error factory is \<open>Configuration_error\<close>, which all its callers pass.
\<close>

section \<open>Numbers of the environment\<close>

text \<open>\<open>Number(s)\<close> of a text, without the rounding to double precision: no number, not whole, or whole.\<close>

datatype js_number = Nan | Fraction | Whole int

definition scaled :: "nat \<Rightarrow> int \<Rightarrow> js_number" where
  "scaled m k = (if 0 \<le> k then Whole (int (m * 10 ^ nat k))
     else if m mod 10 ^ nat (- k) = 0 then Whole (int (m div 10 ^ nat (- k))) else Fraction)"

definition signed_digits :: "string \<Rightarrow> int option" where
  "signed_digits s =
    (let body = (if s \<noteq> [] \<and> (hd s = CHR ''-'' \<or> hd s = CHR ''+'') then tl s else s) in
     if body = [] \<or> \<not> list_all is_digit body then None
     else Some (if hd s = CHR ''-'' then - int (dec_value body) else int (dec_value body)))"

definition exponent_part :: "string \<Rightarrow> int option" where
  "exponent_part s = (case s of [] \<Rightarrow> Some 0
     | c # rest \<Rightarrow> if c = CHR ''e'' \<or> c = CHR ''E'' then signed_digits rest else None)"

definition unsigned_number :: "string \<Rightarrow> js_number" where
  "unsigned_number s =
    (if s = ''Infinity'' then Fraction
     else let whole_part = takeWhile is_digit s; rest = dropWhile is_digit s;
            dotted = (rest \<noteq> [] \<and> hd rest = CHR ''.'');
            frac = (if dotted then takeWhile is_digit (tl rest) else []);
            tail = (if dotted then dropWhile is_digit (tl rest) else rest)
       in if whole_part = [] \<and> frac = [] then Nan
          else (case exponent_part tail of None \<Rightarrow> Nan
            | Some e \<Rightarrow> scaled (dec_value (whole_part @ frac)) (e - int (length frac))))"

definition negated :: "js_number \<Rightarrow> js_number" where
  "negated n = (case n of Whole i \<Rightarrow> Whole (- i) | _ \<Rightarrow> n)"

definition js_number_of :: "string \<Rightarrow> js_number" where
  "js_number_of s =
    (let t = js_trim s in
     if t = [] then Whole 0
     else case radix_prefix (take 2 t) of
       Some r \<Rightarrow> if radix_digits r (drop 2 t) then Whole (int (radix_value r (drop 2 t))) else Nan
     | None \<Rightarrow>
         if hd t = CHR ''-'' then negated (unsigned_number (tl t))
         else if hd t = CHR ''+'' then unsigned_number (tl t) else unsigned_number t)"

definition MAX_SAFE_INTEGER :: int where "MAX_SAFE_INTEGER = 9007199254740991"

definition parseBoundedInt :: "string option \<Rightarrow> string \<Rightarrow> int \<Rightarrow> int \<Rightarrow> int option" where
  "parseBoundedInt raw fallback lo hi =
    (case js_number_of (case raw of None \<Rightarrow> fallback | Some s \<Rightarrow> s) of
       Whole n \<Rightarrow> if \<bar>n\<bar> \<le> MAX_SAFE_INTEGER \<and> lo \<le> n \<and> n \<le> hi then Some n else None
     | _ \<Rightarrow> None)"

section \<open>URLs of the environment\<close>

record config_url = url +
  url_username :: string
  url_password :: string

definition assertPostgresUrl :: "(string \<Rightarrow> config_url option) \<Rightarrow> string \<Rightarrow> unit res" where
  "assertPostgresUrl new_url v = ensure
    (case new_url v of None \<Rightarrow> False
     | Some u \<Rightarrow> url_protocol u \<in> set [''postgres:'', ''postgresql:''] \<and> url_hostname u \<noteq> [] \<and> tl (url_pathname u) \<noteq> [])
    (Configuration_error ''DATABASE_URL must be a PostgreSQL connection URL'' [''DATABASE_URL''])"

definition exact_url :: "string \<Rightarrow> config_url \<Rightarrow> bool" where
  "exact_url expected u \<longleftrightarrow> url_origin u = expected \<and> url_username u = [] \<and> url_password u = []
     \<and> url_pathname u \<in> set [[], ''/''] \<and> url_search u = [] \<and> url_hash u = []"

definition assertExactUrl :: "(string \<Rightarrow> config_url option) \<Rightarrow> string \<Rightarrow> string \<Rightarrow> string \<Rightarrow> unit res" where
  "assertExactUrl new_url v expected field = (case new_url v of None \<Rightarrow> Inl (Type_error ''Invalid URL'')
     | Some u \<Rightarrow> ensure (exact_url expected u) (Configuration_error (field @ '' must match the reviewed official origin'') [field]))"

section \<open>Networks\<close>

record network =
  nw_chainId :: int
  nw_chainIdHex :: string
  nw_name :: string
  nw_currencyName :: string
  nw_currencySymbol :: string
  nw_currencyDecimals :: int
  nw_publicRpcUrl :: string
  nw_explorerUrl :: string

record goat_network = network +
  nw_backupRpcUrl :: "string option"
  nw_flowApiUrl :: string
  nw_flowMerchantUrl :: string
  nw_flowQuickPayUrl :: string

definition GOAT_MAINNET :: goat_network where
  "GOAT_MAINNET = \<lparr>nw_chainId = 2345, nw_chainIdHex = ''0x929'', nw_name = ''GOAT Network'', nw_currencyName = ''Bitcoin'',
     nw_currencySymbol = ''BTC'', nw_currencyDecimals = 18, nw_publicRpcUrl = ''https://rpc.goat.network'',
     nw_explorerUrl = ''https://explorer.goat.network'', nw_backupRpcUrl = Some ''https://rpc.ankr.com/goat_mainnet'',
     nw_flowApiUrl = ''https://flow-api.goat.network'', nw_flowMerchantUrl = ''https://flow-merchant.goat.network'',
     nw_flowQuickPayUrl = ''https://flow-quickpay.goat.network''\<rparr>"

definition GOAT_TESTNET3 :: goat_network where
  "GOAT_TESTNET3 = \<lparr>nw_chainId = 48816, nw_chainIdHex = ''0xbeb0'', nw_name = ''GOAT Testnet3'', nw_currencyName = ''Bitcoin'',
     nw_currencySymbol = ''BTC'', nw_currencyDecimals = 18, nw_publicRpcUrl = ''https://rpc.testnet3.goat.network'',
     nw_explorerUrl = ''https://explorer.testnet3.goat.network'', nw_backupRpcUrl = None,
     nw_flowApiUrl = ''https://flow-api.testnet3.goat.network'', nw_flowMerchantUrl = ''https://flow-merchant.testnet3.goat.network'',
     nw_flowQuickPayUrl = ''https://flow-quickpay.testnet3.goat.network''\<rparr>"

definition BOT_CHAIN_MAINNET :: network where
  "BOT_CHAIN_MAINNET = \<lparr>nw_chainId = 677, nw_chainIdHex = ''0x2a5'', nw_name = ''BOT Chain'', nw_currencyName = ''BOT'',
     nw_currencySymbol = ''BOT'', nw_currencyDecimals = 18, nw_publicRpcUrl = ''https://rpc.botchain.ai'',
     nw_explorerUrl = ''https://scan.botchain.ai''\<rparr>"

definition BOT_CHAIN_TESTNET :: network where
  "BOT_CHAIN_TESTNET = \<lparr>nw_chainId = 968, nw_chainIdHex = ''0x3c8'', nw_name = ''BOT Chain Testnet'', nw_currencyName = ''BOT'',
     nw_currencySymbol = ''BOT'', nw_currencyDecimals = 18, nw_publicRpcUrl = ''https://rpc.bohr.life'',
     nw_explorerUrl = ''https://scan.bohr.life''\<rparr>"

datatype goat_environment = Goat_mainnet | Goat_testnet3
datatype bot_environment = Bot_mainnet | Bot_testnet

fun resolveNetwork :: "goat_environment \<Rightarrow> goat_network" where
  "resolveNetwork Goat_mainnet = GOAT_MAINNET" | "resolveNetwork Goat_testnet3 = GOAT_TESTNET3"

fun resolveBotChainNetwork :: "bot_environment \<Rightarrow> network" where
  "resolveBotChainNetwork Bot_mainnet = BOT_CHAIN_MAINNET" | "resolveBotChainNetwork Bot_testnet = BOT_CHAIN_TESTNET"

fun goat_name :: "goat_environment \<Rightarrow> string" where
  "goat_name Goat_mainnet = ''mainnet''" | "goat_name Goat_testnet3 = ''testnet3''"

fun bot_name :: "bot_environment \<Rightarrow> string" where
  "bot_name Bot_mainnet = ''botChainMainnet''" | "bot_name Bot_testnet = ''botChainTestnet''"

definition resolveRpcUrl ::
  "(string \<Rightarrow> config_url option) \<Rightarrow> goat_environment \<Rightarrow> string option \<Rightarrow> string option \<Rightarrow> string res" where
  "resolveRpcUrl new_url e mainnetRpcUrl testnetRpcUrl =
    (let n = resolveNetwork e;
         field = (case e of Goat_mainnet \<Rightarrow> ''GOAT_MAINNET_RPC_URL'' | Goat_testnet3 \<Rightarrow> ''GOAT_TESTNET_RPC_URL'');
         override = (case e of Goat_mainnet \<Rightarrow> mainnetRpcUrl | Goat_testnet3 \<Rightarrow> testnetRpcUrl);
         rpcUrl = (case override of Some u \<Rightarrow> u | None \<Rightarrow> nw_publicRpcUrl n)
     in res_bind (assertExactUrl new_url rpcUrl (nw_publicRpcUrl n) field) (\<lambda>_. Inr rpcUrl))"

definition resolveBotChainRpcUrl ::
  "(string \<Rightarrow> config_url option) \<Rightarrow> bot_environment \<Rightarrow> string option \<Rightarrow> string option \<Rightarrow> string res" where
  "resolveBotChainRpcUrl new_url e mainnetRpcUrl testnetRpcUrl =
    (let n = resolveBotChainNetwork e;
         field = (case e of Bot_mainnet \<Rightarrow> ''BOTCHAIN_MAINNET_RPC_URL'' | Bot_testnet \<Rightarrow> ''BOTCHAIN_TESTNET_RPC_URL'');
         override = (case e of Bot_mainnet \<Rightarrow> mainnetRpcUrl | Bot_testnet \<Rightarrow> testnetRpcUrl);
         rpcUrl = (case override of Some u \<Rightarrow> u | None \<Rightarrow> nw_publicRpcUrl n)
     in res_bind (assertExactUrl new_url rpcUrl (nw_publicRpcUrl n) field) (\<lambda>_. Inr rpcUrl))"

section \<open>Merchant capabilities\<close>

record runtime_capability =
  mc_environment :: string
  mc_merchantId :: string
  mc_mode :: string
  mc_chainId :: int
  mc_tokenAddress :: string
  mc_tokenSymbol :: string
  mc_tokenDecimals :: int
  mc_receivingAddress :: string
  mc_minimumAtomicAmount :: string
  mc_maximumAtomicAmount :: string
  mc_discoveredAt :: string
  mc_source :: string

text \<open>
  The rules of the two schemas that the values below can break; \<open>decimals\<close> is the number read for the token's decimals.
  A value that breaks only such a rule still reaches the refinement, where \<open>BigInt\<close> throws on a text that is no number;
  a number that is none stops the schema before it.
\<close>

definition issue_unless :: "bool \<Rightarrow> string \<Rightarrow> string list" where
  "issue_unless b name = (if b then [] else [name])"

definition member_issues :: "runtime_capability \<Rightarrow> js_number \<Rightarrow> string list" where
  "member_issues c decimals =
     issue_unless (mc_merchantId c \<noteq> []) ''merchantId'' @ issue_unless (0 < mc_chainId c) ''chainId''
   @ issue_unless (is_address (mc_tokenAddress c)) ''tokenAddress''
   @ issue_unless (1 \<le> length (mc_tokenSymbol c) \<and> length (mc_tokenSymbol c) \<le> 32) ''tokenSymbol''
   @ issue_unless (case decimals of Whole n \<Rightarrow> 0 \<le> n \<and> n \<le> 36 | _ \<Rightarrow> False) ''tokenDecimals''
   @ issue_unless (is_address (mc_receivingAddress c)) ''receivingAddress''
   @ issue_unless (is_atomic (mc_minimumAtomicAmount c)) ''minimumAtomicAmount''
   @ issue_unless (is_atomic (mc_maximumAtomicAmount c)) ''maximumAtomicAmount''"

definition capability_issues :: "int \<Rightarrow> runtime_capability \<Rightarrow> js_number \<Rightarrow> string list res" where
  "capability_issues expectedChain c decimals =
    (if decimals = Nan then Inr (member_issues c decimals)
     else
       res_bind (js_bigint (mc_minimumAtomicAmount c)) (\<lambda>minimum.
       res_bind (js_bigint (mc_maximumAtomicAmount c)) (\<lambda>maximum.
       Inr (member_issues c decimals @ issue_unless (minimum \<le> maximum) ''minimumAtomicAmount''
         @ issue_unless (mc_chainId c = expectedChain) ''chainId''))))"

definition whole_or_zero :: "js_number \<Rightarrow> int" where
  "whole_or_zero n = (case n of Whole i \<Rightarrow> i | _ \<Rightarrow> 0)"

text \<open>The fields an operator gives for a merchant.\<close>

record merchant_fields =
  mf_merchantId :: string
  mf_tokenAddress :: string
  mf_tokenSymbol :: string
  mf_tokenDecimals :: js_number
  mf_receivingAddress :: string
  mf_minimumAtomicAmount :: string
  mf_maximumAtomicAmount :: string

definition declared :: "string \<Rightarrow> string \<Rightarrow> int \<Rightarrow> string \<Rightarrow> string \<Rightarrow> merchant_fields \<Rightarrow> runtime_capability" where
  "declared e mode chainId discoveredAt src f = \<lparr>mc_environment = e, mc_merchantId = mf_merchantId f, mc_mode = mode,
     mc_chainId = chainId, mc_tokenAddress = mf_tokenAddress f, mc_tokenSymbol = mf_tokenSymbol f,
     mc_tokenDecimals = whole_or_zero (mf_tokenDecimals f), mc_receivingAddress = mf_receivingAddress f,
     mc_minimumAtomicAmount = mf_minimumAtomicAmount f, mc_maximumAtomicAmount = mf_maximumAtomicAmount f,
     mc_discoveredAt = discoveredAt, mc_source = src\<rparr>"

text \<open>The result of a safe parse is the paths of the issues or the capability; \<open>now\<close> is the clock.\<close>

definition safe_parse :: "int \<Rightarrow> runtime_capability \<Rightarrow> js_number \<Rightarrow> (string list + runtime_capability) res" where
  "safe_parse expectedChain c decimals =
    res_bind (capability_issues expectedChain c decimals) (\<lambda>issues. Inr (if issues = [] then Inr c else Inl issues))"

definition parseMerchantCapability ::
  "int \<Rightarrow> goat_environment \<Rightarrow> string \<Rightarrow> merchant_fields \<Rightarrow> (string list + runtime_capability) res" where
  "parseMerchantCapability now e src f = safe_parse (nw_chainId (resolveNetwork e))
    (declared (goat_name e) ''ERC20_DIRECT'' (nw_chainId (resolveNetwork e)) (to_iso_string now) src f) (mf_tokenDecimals f)"

definition parseBotChainMerchantCapability ::
  "int \<Rightarrow> bot_environment \<Rightarrow> merchant_fields \<Rightarrow> (string list + runtime_capability) res" where
  "parseBotChainMerchantCapability now e f = safe_parse (nw_chainId (resolveBotChainNetwork e))
    (declared (bot_name e) ''DIRECT_ERC20'' (nw_chainId (resolveBotChainNetwork e)) (to_iso_string now) ''STATIC_CONFIG'' f)
    (mf_tokenDecimals f)"

section \<open>Merchant profiles\<close>

type_synonym env = "string \<Rightarrow> string option"

definition goatMerchantProfileFields :: "string list" where
  "goatMerchantProfileFields = [''MERCHANT_ID'', ''API_KEY'', ''API_SECRET'', ''TOKEN_ADDRESS'', ''TOKEN_SYMBOL'',
     ''TOKEN_DECIMALS'', ''RECEIVING_ADDRESS'', ''MINIMUM_ATOMIC_AMOUNT'', ''MAXIMUM_ATOMIC_AMOUNT'']"

definition prefixed :: "string \<Rightarrow> string \<Rightarrow> string" where "prefixed p part = p @ ''_'' @ part"

definition merchant_names :: "string \<Rightarrow> string list" where
  "merchant_names p = map (prefixed p) goatMerchantProfileFields"

definition group_names :: "string \<Rightarrow> string list" where
  "group_names p = prefixed p ''API_URL'' # merchant_names p"

definition scoped_prefix :: "goat_environment \<Rightarrow> string" where
  "scoped_prefix e = (case e of Goat_mainnet \<Rightarrow> ''GOATX402_MAINNET'' | Goat_testnet3 \<Rightarrow> ''GOATX402_TESTNET3'')"

definition GOAT_X402_ALL_ENV_NAMES :: "string list" where
  "GOAT_X402_ALL_ENV_NAMES = group_names ''GOATX402'' @ group_names ''GOATX402_TESTNET3'' @ group_names ''GOATX402_MAINNET''"

record merchant_profile =
  mr_merchantId :: string
  mr_apiKey :: string
  mr_apiSecret :: string
  mr_tokenAddress :: string
  mr_tokenSymbol :: string
  mr_tokenDecimals :: string
  mr_receivingAddress :: string
  mr_minimumAtomicAmount :: string
  mr_maximumAtomicAmount :: string

record resolved_profile =
  rp_apiUrl :: string
  rp_apiUrlField :: string
  rp_expectedMerchantFields :: "string list"
  rp_merchant :: "merchant_profile option"

definition is_provided :: "env \<Rightarrow> string \<Rightarrow> bool" where
  "is_provided s name \<longleftrightarrow> (case s name of None \<Rightarrow> False | Some v \<Rightarrow> v \<noteq> [])"

definition chosen_prefix :: "goat_environment \<Rightarrow> env \<Rightarrow> string" where
  "chosen_prefix e s = (if list_ex (is_provided s) (group_names (scoped_prefix e)) \<or> \<not> list_ex (is_provided s) (group_names ''GOATX402'')
     then scoped_prefix e else ''GOATX402'')"

definition profile_at :: "string \<Rightarrow> env \<Rightarrow> merchant_profile" where
  "profile_at p s = (let v = (\<lambda>part. case s (prefixed p part) of Some x \<Rightarrow> x | None \<Rightarrow> []) in
    \<lparr>mr_merchantId = v ''MERCHANT_ID'', mr_apiKey = v ''API_KEY'', mr_apiSecret = v ''API_SECRET'',
     mr_tokenAddress = v ''TOKEN_ADDRESS'', mr_tokenSymbol = v ''TOKEN_SYMBOL'', mr_tokenDecimals = v ''TOKEN_DECIMALS'',
     mr_receivingAddress = v ''RECEIVING_ADDRESS'', mr_minimumAtomicAmount = v ''MINIMUM_ATOMIC_AMOUNT'',
     mr_maximumAtomicAmount = v ''MAXIMUM_ATOMIC_AMOUNT''\<rparr>)"

definition resolveGoatMerchantProfile ::
  "(string \<Rightarrow> config_url option) \<Rightarrow> goat_environment \<Rightarrow> env \<Rightarrow> resolved_profile res" where
  "resolveGoatMerchantProfile new_url e s =
    (let n = resolveNetwork e; p = chosen_prefix e s; urlField = prefixed p ''API_URL'';
         apiUrl = (case s urlField of Some u \<Rightarrow> u | None \<Rightarrow> nw_flowApiUrl n); names = merchant_names p;
         result = \<lparr>rp_apiUrl = apiUrl, rp_apiUrlField = urlField, rp_expectedMerchantFields = names, rp_merchant = None\<rparr>
     in res_bind (assertExactUrl new_url apiUrl (nw_flowApiUrl n) urlField) (\<lambda>_.
        if \<not> list_ex (is_provided s) names then Inr result
        else if \<not> list_all (is_provided s) names
        then Inl (Configuration_error (goat_name e @ '' GOAT x402 merchant configuration must be provided as one complete group'')
          (filter (\<lambda>f. \<not> is_provided s f) names))
        else Inr (result\<lparr>rp_merchant := Some (profile_at p s)\<rparr>)))"

section \<open>Facts\<close>

lemma bounded_int: "parseBoundedInt raw fallback lo hi = Some n \<Longrightarrow> lo \<le> n \<and> n \<le> hi"
  by (auto simp: parseBoundedInt_def split: js_number.splits if_splits)

lemma exact_origin: "assertExactUrl new_url v expected field = Inr () \<longleftrightarrow> (\<exists>u. new_url v = Some u \<and> exact_url expected u)"
  by (auto simp: assertExactUrl_def split: option.splits)

lemma rpc_pinned: "resolveRpcUrl new_url e a b = Inr r \<Longrightarrow> \<exists>u. new_url r = Some u \<and> exact_url (nw_publicRpcUrl (resolveNetwork e)) u"
  by (auto simp: resolveRpcUrl_def Let_def res_bind_Inr_iff exact_origin)

lemma bot_rpc_pinned:
  "resolveBotChainRpcUrl new_url e a b = Inr r \<Longrightarrow> \<exists>u. new_url r = Some u \<and> exact_url (nw_publicRpcUrl (resolveBotChainNetwork e)) u"
  by (auto simp: resolveBotChainRpcUrl_def Let_def res_bind_Inr_iff exact_origin)

text \<open>What the schemas promise of a capability they accept.\<close>

definition capability_ok :: "runtime_capability \<Rightarrow> bool" where
  "capability_ok c \<longleftrightarrow> mc_merchantId c \<noteq> [] \<and> is_address (mc_tokenAddress c) \<and> is_address (mc_receivingAddress c)
    \<and> 0 \<le> mc_tokenDecimals c \<and> mc_tokenDecimals c \<le> 36 \<and> is_atomic (mc_minimumAtomicAmount c)
    \<and> is_atomic (mc_maximumAtomicAmount c) \<and> dec_value (mc_minimumAtomicAmount c) \<le> dec_value (mc_maximumAtomicAmount c)"

lemma issue_unless_Nil: "issue_unless b name = [] \<longleftrightarrow> b"
  by (simp add: issue_unless_def)

lemma no_member_issues:
  "member_issues c decimals = [] \<longleftrightarrow> mc_merchantId c \<noteq> [] \<and> 0 < mc_chainId c \<and> is_address (mc_tokenAddress c)
    \<and> (1 \<le> length (mc_tokenSymbol c) \<and> length (mc_tokenSymbol c) \<le> 32)
    \<and> (case decimals of Whole n \<Rightarrow> 0 \<le> n \<and> n \<le> 36 | _ \<Rightarrow> False) \<and> is_address (mc_receivingAddress c)
    \<and> is_atomic (mc_minimumAtomicAmount c) \<and> is_atomic (mc_maximumAtomicAmount c)"
  by (simp only: member_issues_def append_is_Nil_conv issue_unless_Nil)

lemma safe_parse_ok:
  assumes "safe_parse chain c decimals = Inr (Inr c')" and "mc_tokenDecimals c = whole_or_zero decimals"
  shows "c' = c \<and> mc_chainId c = chain \<and> capability_ok c"
proof (cases "capability_issues chain c decimals")
  case (Inr issues)
  then have issues: "issues = []" "c' = c" using assms(1) by (simp_all add: safe_parse_def split: if_split_asm)
  have all: "capability_issues chain c decimals = Inr []" using Inr issues(1) by simp
  have none: "member_issues c decimals = []"
  proof (cases "decimals = Nan")
    case False
    with all show ?thesis by (auto simp: capability_issues_def res_bind_Inr_iff)
  qed (use all in \<open>simp add: capability_issues_def\<close>)
  then obtain n where n: "decimals = Whole n" "0 \<le> n" "n \<le> 36" by (cases decimals) (simp_all add: no_member_issues)
  have atomic: "is_atomic (mc_minimumAtomicAmount c)" "is_atomic (mc_maximumAtomicAmount c)" using none by (simp_all add: no_member_issues)
  have "mc_chainId c = chain \<and> dec_value (mc_minimumAtomicAmount c) \<le> dec_value (mc_maximumAtomicAmount c)"
    using all none n(1) atomic by (simp add: capability_issues_def js_bigint_atomic issue_unless_Nil)
  then show ?thesis using none issues n assms(2) by (simp add: no_member_issues capability_ok_def whole_or_zero_def)
qed (use assms(1) in \<open>simp add: safe_parse_def\<close>)

lemma goat_capability:
  assumes "parseMerchantCapability now e src f = Inr (Inr c)"
  shows "capability_ok c \<and> mc_chainId c = nw_chainId (resolveNetwork e) \<and> mc_environment c = goat_name e
    \<and> mc_merchantId c = mf_merchantId f"
  using safe_parse_ok [OF assms [unfolded parseMerchantCapability_def]] by (auto simp: declared_def)

lemma bot_capability:
  assumes "parseBotChainMerchantCapability now e f = Inr (Inr c)"
  shows "capability_ok c \<and> mc_chainId c = nw_chainId (resolveBotChainNetwork e) \<and> mc_environment c = bot_name e
    \<and> mc_merchantId c = mf_merchantId f"
  using safe_parse_ok [OF assms [unfolded parseBotChainMerchantCapability_def]] by (auto simp: declared_def)

lemma merchant_resolved:
  assumes "resolveGoatMerchantProfile new_url e s = Inr r" and "rp_merchant r = Some m"
  shows "m = profile_at (chosen_prefix e s) s \<and> list_all (is_provided s) (merchant_names (chosen_prefix e s))
    \<and> (\<exists>u. new_url (rp_apiUrl r) = Some u \<and> exact_url (nw_flowApiUrl (resolveNetwork e)) u)"
  using assms by (auto simp: resolveGoatMerchantProfile_def Let_def res_bind_Inr_iff exact_origin split: if_splits)

section \<open>Properties\<close>

lemma chosen_agrees:
  assumes "\<And>name. name \<in> set (group_names (scoped_prefix e)) \<or> name \<in> set (group_names ''GOATX402'') \<Longrightarrow> s name = t name"
  shows "chosen_prefix e s = chosen_prefix e t"
proof -
  have "list_ex (is_provided s) (group_names p) = list_ex (is_provided t) (group_names p)" if "p = scoped_prefix e \<or> p = ''GOATX402''" for p
    using that assms by (auto simp: list_ex_iff is_provided_def)
  then show ?thesis by (simp add: chosen_prefix_def)
qed

text \<open>
  The merchant profile of a network is read from one group of the environment: the group of the network when any of
  its names is given, the legacy group only when none is; all its fields are given there, its API is the network's own,
  and what the environment says of the other network changes nothing.
\<close>

theorem merchant_profile_unmixed:
  assumes "resolveGoatMerchantProfile new_url e s = Inr r" and "rp_merchant r = Some m"
    and "\<And>name. name \<in> set (group_names (scoped_prefix e)) \<or> name \<in> set (group_names ''GOATX402'') \<Longrightarrow> t name = s name"
  shows "(m = profile_at (scoped_prefix e) s \<and> list_all (is_provided s) (merchant_names (scoped_prefix e))
      \<or> m = profile_at ''GOATX402'' s \<and> list_all (is_provided s) (merchant_names ''GOATX402'')
        \<and> \<not> list_ex (is_provided s) (group_names (scoped_prefix e)))
    \<and> (\<exists>u. new_url (rp_apiUrl r) = Some u \<and> url_origin u = nw_flowApiUrl (resolveNetwork e))
    \<and> resolveGoatMerchantProfile new_url e t = Inr r"
proof -
  have choice: "chosen_prefix e s = scoped_prefix e \<or> chosen_prefix e s = ''GOATX402'' \<and> \<not> list_ex (is_provided s) (group_names (scoped_prefix e))"
    by (simp add: chosen_prefix_def)
  have same: "chosen_prefix e t = chosen_prefix e s" using assms(3) by (rule chosen_agrees)
  have agree: "t name = s name" if "name \<in> set (group_names (chosen_prefix e s))" for name
    using that choice assms(3) by auto
  have names: "prefixed (chosen_prefix e s) part \<in> set (group_names (chosen_prefix e s))"
    if "part \<in> set goatMerchantProfileFields" for part
    using that by (simp add: group_names_def merchant_names_def)
  have url: "t (prefixed (chosen_prefix e s) ''API_URL'') = s (prefixed (chosen_prefix e s) ''API_URL'')"
    using agree by (simp add: group_names_def)
  have provided: "list_ex (is_provided t) (merchant_names (chosen_prefix e s)) = list_ex (is_provided s) (merchant_names (chosen_prefix e s))"
    "list_all (is_provided t) (merchant_names (chosen_prefix e s)) = list_all (is_provided s) (merchant_names (chosen_prefix e s))"
    "filter (\<lambda>f. \<not> is_provided t f) (merchant_names (chosen_prefix e s)) = filter (\<lambda>f. \<not> is_provided s f) (merchant_names (chosen_prefix e s))"
    using agree by (auto simp: list_ex_iff list_all_iff is_provided_def group_names_def intro!: filter_cong)
  have "profile_at (chosen_prefix e s) t = profile_at (chosen_prefix e s) s"
    using agree names by (simp add: profile_at_def goatMerchantProfileFields_def)
  then have "resolveGoatMerchantProfile new_url e t = resolveGoatMerchantProfile new_url e s"
    by (simp only: resolveGoatMerchantProfile_def same url provided Let_def)
  then show ?thesis using merchant_resolved [OF assms(1,2)] choice assms(1) by (auto simp: exact_url_def)
qed

section \<open>A concrete environment\<close>

definition demo_new_url :: "string \<Rightarrow> config_url option" where
  "demo_new_url v = Some \<lparr>url_href = v, url_protocol = takeWhile (\<lambda>c. c \<noteq> CHR ''/'') v, url_hostname = ''host'', url_host = ''host'',
     url_origin = v,
     url_pathname = (if starts_with ''postgres'' v then ''/shipyard'' else ''/''), url_search = [], url_hash = [], url_username = [], url_password = []\<rparr>"

definition demo_source :: env where
  "demo_source = map_of (map (\<lambda>part. (prefixed ''GOATX402_TESTNET3'' part, ''x'')) goatMerchantProfileFields)"

definition demo_resolved :: resolved_profile where
  "demo_resolved = \<lparr>rp_apiUrl = ''https://flow-api.testnet3.goat.network'', rp_apiUrlField = ''GOATX402_TESTNET3_API_URL'',
     rp_expectedMerchantFields = merchant_names ''GOATX402_TESTNET3'',
     rp_merchant = Some (profile_at ''GOATX402_TESTNET3'' demo_source)\<rparr>"

theorem merchant_profile_unmixed_witness:
  "resolveGoatMerchantProfile demo_new_url Goat_testnet3 (demo_source(''GOATX402_MAINNET_API_KEY'' \<mapsto> ''secret'')) = Inr demo_resolved"
proof -
  have resolved: "resolveGoatMerchantProfile demo_new_url Goat_testnet3 demo_source = Inr demo_resolved" by code_simp
  have merchant: "rp_merchant demo_resolved = Some (profile_at ''GOATX402_TESTNET3'' demo_source)" by (simp add: demo_resolved_def)
  have "''GOATX402_MAINNET_API_KEY'' \<notin> set (group_names (scoped_prefix Goat_testnet3))"
    "''GOATX402_MAINNET_API_KEY'' \<notin> set (group_names ''GOATX402'')" by code_simp+
  then have agree: "(demo_source(''GOATX402_MAINNET_API_KEY'' \<mapsto> ''secret'')) name = demo_source name"
    if "name \<in> set (group_names (scoped_prefix Goat_testnet3)) \<or> name \<in> set (group_names ''GOATX402'')" for name
    using that by auto
  from merchant_profile_unmixed [OF resolved merchant agree] show ?thesis by blast
qed

end
