(* ===== verification/Catalog.thy ===== *)
theory Catalog
  imports Api_Gateway Checkpoint Egress Network_Config
begin

text \<open>
  The catalogue of services (\<open>packages/persistence-postgres/src/catalog-onboarding.ts\<close>, \<open>catalog-listing.ts\<close>) and the quotes
  bound to it (\<open>PostgresQuoteRepository\<close> of \<open>api-repositories.ts\<close>, \<open>quoteSchema\<close> of
  \<open>packages/quote-engine/src/quote-engine.ts\<close>).  Every SQL statement is one step on the tables; a row that an INSERT
  makes takes its id and time from the parameters \<open>new_row_ids\<close> and \<open>now\<close>.
\<close>

section \<open>Tables\<close>

text \<open>\<open>bytea\<close> columns hold their bytes as lower-case hex without prefix, \<open>timestamptz\<close> columns milliseconds.\<close>

record policy_row =
  po_id :: string
  po_hash :: string
  po_name :: string
  po_version :: string
  po_mandatoryScenarios :: json
  po_mandateTemplate :: json

record organization_row =
  og_id :: string
  og_name :: string
  og_wallet :: string

record service_row =
  sv_id :: string
  sv_organizationId :: string
  sv_externalServiceId :: string
  sv_name :: string
  sv_x402Endpoint :: string
  sv_openApiUrl :: string
  sv_active :: bool
  sv_createdAt :: int
  sv_listed :: bool
  sv_description :: "string option"
  sv_logoUrl :: "string option"
  sv_rank :: int
  sv_targetAgentId :: "string option"
  sv_policyHash :: "string option"
  sv_chainId :: int

record release_row =
  rl_id :: string
  rl_serviceId :: string
  rl_version :: string
  rl_versionHash :: string
  rl_createdAt :: int

record quote_row =
  qw_id :: string
  qw_organizationId :: string
  qw_requester :: string
  qw_paymentChainId :: int
  qw_paymentToken :: string
  qw_serviceId :: string
  qw_releaseId :: string
  qw_policyId :: string
  qw_request :: quote_request
  qw_capability :: json
  qw_lineItems :: quote_line_items
  qw_total :: nat
  qw_refundable :: nat
  qw_commitment :: string
  qw_createdAt :: int
  qw_expiresAt :: int
  qw_targetChainId :: "int option"

record catalog =
  ct_policies :: "policy_row list"
  ct_organizations :: "organization_row list"
  ct_services :: "service_row list"
  ct_releases :: "release_row list"
  ct_quotes :: "quote_row list"

text \<open>\<open>Buffer.from(value.slice(2), 'hex')\<close>: the pairs of hex digits up to the first that is none.\<close>

definition raw_bytes :: "string \<Rightarrow> string" where
  "raw_bytes v = (let h = takeWhile is_hex_digit (drop 2 v) in to_lower (take (2 * (length h div 2)) h))"

definition bufferToHex :: "string \<Rightarrow> string" where "bufferToHex b = ''0x'' @ b"

section \<open>Onboarding\<close>

definition STANDARD_POLICY :: json where
  "STANDARD_POLICY = JObj [(''name'', JStr ''shipyard402-standard''), (''version'', JStr ''1''),
     (''mandatoryScenarios'', JArr [JStr ''payment-proof-replay'']),
     (''mandateTemplate'', JObj [(''description'', JStr (''AI proposes additional scenarios and a budget; a deterministic compiler always ''
        @ ''keeps the mandatory scenario and clamps the budget to the quote ceiling (see ADR-0006).''))])]"

definition policyHash :: "platform \<Rightarrow> string" where
  "policyHash P = pf_sha256 P (canonicalJson (pf_locale_le P) STANDARD_POLICY)"

text \<open>The document of a URL: its canonical text and hash.  \<open>fetch\<close> is the egress-safe fetch.\<close>

definition fetchAndHashOpenApiDocument ::
  "platform \<Rightarrow> (string \<Rightarrow> ('w, http_response) io) \<Rightarrow> string \<Rightarrow> ('w, string \<times> string) io" where
  "fetchAndHashOpenApiDocument P fetch openApiUrl =
    io_bind (io_catch (fetch openApiUrl) (\<lambda>e. case e of
        Egress_forbidden message \<Rightarrow> io_throw (Onboarding_fetch ''OPENAPI_HOST_FORBIDDEN'' message)
      | _ \<Rightarrow> io_throw (Onboarding_fetch ''OPENAPI_FETCH_FAILED'' ''Could not reach the OpenAPI document URL.''))) (\<lambda>response.
    if hr_status response < 200 \<or> 299 < hr_status response
    then io_throw (Onboarding_fetch ''OPENAPI_FETCH_FAILED'' (''OpenAPI document fetch returned HTTP '' @ int_to_string (hr_status response) @ ''.''))
    else case pf_parse_json P (hr_body response) of
      None \<Rightarrow> io_throw (Onboarding_fetch ''OPENAPI_NOT_JSON'' ''The OpenAPI document URL did not return valid JSON.'')
    | Some v \<Rightarrow> let text_form = canonicalJson (pf_locale_le P) v in io_ret (text_form, pf_sha256 P text_form))"

record new_row_ids =
  nr_policy :: string
  nr_organization :: string
  nr_service :: string
  nr_release :: string

definition standard_policy_row :: "platform \<Rightarrow> string \<Rightarrow> policy_row" where
  "standard_policy_row P fresh = \<lparr>po_id = fresh, po_hash = policyHash P, po_name = ''shipyard402-standard'', po_version = ''1'',
     po_mandatoryScenarios = the (json_get STANDARD_POLICY ''mandatoryScenarios''),
     po_mandateTemplate = the (json_get STANDARD_POLICY ''mandateTemplate'')\<rparr>"

definition insert_policy :: "platform \<Rightarrow> string \<Rightarrow> (catalog, unit) io" where
  "insert_policy P fresh = (\<lambda>c.
    let row = standard_policy_row P fresh in
    if list_ex (\<lambda>p. po_hash p = po_hash row) (ct_policies c) then (Inr (), c)
    else if list_ex (\<lambda>p. po_id p = fresh \<or> po_name p = po_name row \<and> po_version p = po_version row) (ct_policies c)
    then (Inl duplicate_key, c)
    else (Inr (), c\<lparr>ct_policies := ct_policies c @ [row]\<rparr>))"

definition upsert_organization :: "string \<Rightarrow> string \<Rightarrow> string \<Rightarrow> (catalog, string) io" where
  "upsert_organization fresh name wallet = (\<lambda>c.
    if length wallet \<noteq> 40 then (Inl (Js_error ''check constraint billing_wallet''), c)
    else case find (\<lambda>o'. og_wallet o' = wallet) (ct_organizations c) of
      Some o' \<Rightarrow> (Inr (og_id o'), c)
    | None \<Rightarrow>
        if list_ex (\<lambda>o'. og_id o' = fresh) (ct_organizations c) then (Inl duplicate_key, c)
        else (Inr fresh, c\<lparr>ct_organizations := ct_organizations c @ [\<lparr>og_id = fresh, og_name = name, og_wallet = wallet\<rparr>]\<rparr>))"

definition is_service :: "string \<Rightarrow> string \<Rightarrow> service_row \<Rightarrow> bool" where
  "is_service organizationId externalServiceId s \<longleftrightarrow> sv_organizationId s = organizationId \<and> sv_externalServiceId s = externalServiceId"

definition or_false :: "bool option \<Rightarrow> bool" where "or_false b = (case b of Some x \<Rightarrow> x | None \<Rightarrow> False)"

definition reonboarded :: "onboarding_input \<Rightarrow> service_row \<Rightarrow> service_row" where
  "reonboarded i s = s\<lparr>sv_name := on_serviceName i, sv_x402Endpoint := on_x402Endpoint i, sv_openApiUrl := on_openApiUrl i,
     sv_listed := or_false (on_marketplaceListed i), sv_description := on_description i,
     sv_chainId := (case on_chainId i of Some n \<Rightarrow> n | None \<Rightarrow> 48816)\<rparr>"

definition new_service :: "string \<Rightarrow> int \<Rightarrow> string \<Rightarrow> string \<Rightarrow> onboarding_input \<Rightarrow> service_row" where
  "new_service fresh now organizationId hash i = \<lparr>sv_id = fresh, sv_organizationId = organizationId,
     sv_externalServiceId = on_externalServiceId i, sv_name = on_serviceName i, sv_x402Endpoint = on_x402Endpoint i,
     sv_openApiUrl = on_openApiUrl i, sv_active = True, sv_createdAt = now, sv_listed = or_false (on_marketplaceListed i),
     sv_description = on_description i, sv_logoUrl = None, sv_rank = 100,
     sv_targetAgentId = Some (''agent:'' @ on_externalServiceId i), sv_policyHash = Some hash,
     sv_chainId = (case on_chainId i of Some n \<Rightarrow> n | None \<Rightarrow> 48816)\<rparr>"

definition upsert_service :: "string \<Rightarrow> int \<Rightarrow> string \<Rightarrow> string \<Rightarrow> onboarding_input \<Rightarrow> (catalog, string) io" where
  "upsert_service fresh now organizationId hash i = (\<lambda>c.
    let same = is_service organizationId (on_externalServiceId i) in
    case find same (ct_services c) of
      Some s \<Rightarrow> (Inr (sv_id s), c\<lparr>ct_services := map (\<lambda>x. if same x then reonboarded i x else x) (ct_services c)\<rparr>)
    | None \<Rightarrow>
        if list_ex (\<lambda>s. sv_id s = fresh) (ct_services c) then (Inl duplicate_key, c)
        else (Inr fresh, c\<lparr>ct_services := ct_services c @ [new_service fresh now organizationId hash i]\<rparr>))"

definition insert_release :: "string \<Rightarrow> int \<Rightarrow> string \<Rightarrow> string \<Rightarrow> string \<Rightarrow> (catalog, unit) io" where
  "insert_release fresh now serviceId version hash = (\<lambda>c.
    if list_ex (\<lambda>r. rl_serviceId r = serviceId \<and> rl_versionHash r = hash) (ct_releases c) then (Inr (), c)
    else if list_ex (\<lambda>r. rl_id r = fresh) (ct_releases c) then (Inl duplicate_key, c)
    else (Inr (), c\<lparr>ct_releases := ct_releases c @ [\<lparr>rl_id = fresh, rl_serviceId = serviceId, rl_version = version,
      rl_versionHash = hash, rl_createdAt = now\<rparr>]\<rparr>))"

definition onboarded :: "platform \<Rightarrow> string \<Rightarrow> string \<Rightarrow> onboarding_input \<Rightarrow> onboarded_service" where
  "onboarded P organizationId versionHash i = \<lparr>os_organizationId = organizationId, os_targetServiceId = on_externalServiceId i,
     os_targetAgentId = ''agent:'' @ on_externalServiceId i, os_targetVersionHash = bufferToHex versionHash,
     os_policyHash = bufferToHex (policyHash P), os_x402Endpoint = on_x402Endpoint i, os_openApiUrl = on_openApiUrl i\<rparr>"

definition onboard_rows :: "platform \<Rightarrow> new_row_ids \<Rightarrow> int \<Rightarrow> string \<Rightarrow> onboarding_input \<Rightarrow> (catalog, onboarded_service) io" where
  "onboard_rows P ids now versionHash i =
    io_then (insert_policy P (nr_policy ids))
    (io_bind (upsert_organization (nr_organization ids) (on_organizationName i) (raw_bytes (on_requesterAddress i))) (\<lambda>organizationId.
     io_bind (upsert_service (nr_service ids) now organizationId (policyHash P) i) (\<lambda>serviceId.
     io_then (insert_release (nr_release ids) now serviceId (on_version i) versionHash)
     (io_ret (onboarded P organizationId versionHash i)))))"

definition onboardService ::
  "platform \<Rightarrow> (string \<Rightarrow> (catalog \<times> 'e, http_response) io) \<Rightarrow> new_row_ids \<Rightarrow> int \<Rightarrow> onboarding_input
    \<Rightarrow> (catalog \<times> 'e, onboarded_service) io" where
  "onboardService P fetch ids now i =
    io_bind (fetchAndHashOpenApiDocument P fetch (on_openApiUrl i)) (\<lambda>(text_form, versionHash).
    on_store (transaction (onboard_rows P ids now versionHash i)))"

section \<open>The marketplace\<close>

record marketplace_entry =
  mk_organizationId :: string
  mk_targetServiceId :: string
  mk_targetAgentId :: string
  mk_targetVersionHash :: string
  mk_policyHash :: string
  mk_x402Endpoint :: string
  mk_openApiUrl :: string
  mk_name :: string
  mk_description :: "string option"
  mk_logoUrl :: "string option"
  mk_version :: string
  mk_chainId :: int
  mk_listedAt :: string

definition newer :: "release_row \<Rightarrow> release_row \<Rightarrow> bool" where
  "newer r q \<longleftrightarrow> rl_createdAt q < rl_createdAt r \<or> rl_createdAt q = rl_createdAt r \<and> rl_id q \<le> rl_id r"

definition newest :: "release_row list \<Rightarrow> release_row option" where
  "newest rs = (case rs of [] \<Rightarrow> None | r # rest \<Rightarrow> Some (foldl (\<lambda>best x. if newer x best then x else best) r rest))"

definition entry_of :: "service_row \<Rightarrow> release_row \<Rightarrow> policy_row \<Rightarrow> marketplace_entry" where
  "entry_of s r p = \<lparr>mk_organizationId = sv_organizationId s, mk_targetServiceId = sv_externalServiceId s,
     mk_targetAgentId = (case sv_targetAgentId s of Some a \<Rightarrow> a | None \<Rightarrow> ''agent:'' @ sv_externalServiceId s),
     mk_targetVersionHash = bufferToHex (rl_versionHash r), mk_policyHash = bufferToHex (po_hash p),
     mk_x402Endpoint = sv_x402Endpoint s, mk_openApiUrl = sv_openApiUrl s, mk_name = sv_name s, mk_description = sv_description s,
     mk_logoUrl = sv_logoUrl s, mk_version = rl_version r, mk_chainId = sv_chainId s, mk_listedAt = to_iso_string (sv_createdAt s)\<rparr>"

definition entries_of :: "catalog \<Rightarrow> service_row \<Rightarrow> marketplace_entry list" where
  "entries_of c s =
    (if \<not> (sv_listed s \<and> sv_active s) then []
     else case newest (filter (\<lambda>r. rl_serviceId r = sv_id s) (ct_releases c)) of None \<Rightarrow> []
     | Some r \<Rightarrow> map (entry_of s r) (filter (\<lambda>p. sv_policyHash s = Some (po_hash p)) (ct_policies c)))"

text \<open>The rows in the order of their rank and age; rows equal in both stay in the order of the table.\<close>

definition listMarketplaceServices :: "nat option \<Rightarrow> catalog \<Rightarrow> marketplace_entry list" where
  "listMarketplaceServices limit c =
    take (case limit of Some n \<Rightarrow> n | None \<Rightarrow> 60)
      (concat (map (entries_of c) (sort_key (\<lambda>s. sv_rank s) (sort_key (\<lambda>s. sv_createdAt s) (ct_services c)))))"

section \<open>Quotes\<close>

record catalog_binding =
  cd_serviceId :: string
  cd_releaseId :: string
  cd_policyId :: string
  cd_chainId :: int

definition binds_service :: "quote_request \<Rightarrow> service_row \<Rightarrow> bool" where
  "binds_service r s \<longleftrightarrow> sv_organizationId s = to_lower (qr_organizationId r) \<and> sv_externalServiceId s = qr_targetServiceId r
     \<and> sv_x402Endpoint s = qr_x402Endpoint r \<and> sv_openApiUrl s = qr_openApiUrl r \<and> sv_active s"

definition resolveCatalogBinding :: "quote_request \<Rightarrow> catalog \<Rightarrow> catalog_binding res" where
  "resolveCatalogBinding q c =
    (case [\<lparr>cd_serviceId = sv_id s, cd_releaseId = rl_id r, cd_policyId = po_id p, cd_chainId = sv_chainId s\<rparr>.
        s \<leftarrow> filter (binds_service q) (ct_services c),
        r \<leftarrow> filter (\<lambda>r. rl_serviceId r = sv_id s \<and> rl_versionHash r = raw_bytes (qr_targetVersionHash q)) (ct_releases c),
        p \<leftarrow> filter (\<lambda>p. po_hash p = raw_bytes (qr_policyHash q)) (ct_policies c)] of
       [] \<Rightarrow> Inl (Quote_target_not_onboarded ''Quote target is not bound to an active onboarded service, release, and policy'')
     | b # _ \<Rightarrow> Inr b)"

subsection \<open>The schema of a quote\<close>

definition capability_strings :: "string list" where
  "capability_strings = [''environment'', ''merchantId'', ''mode'', ''tokenAddress'', ''tokenSymbol'', ''receivingAddress'',
     ''minimumAtomicAmount'', ''maximumAtomicAmount'', ''discoveredAt'', ''source'']"

definition capability_of_json :: "json \<Rightarrow> runtime_capability option" where
  "capability_of_json v =
    (case (json_int_of (json_get v ''chainId''), json_int_of (json_get v ''tokenDecimals''),
       map (\<lambda>k. json_string_of (json_get v k)) capability_strings) of
       (Some chain, Some decimals, [Some e, Some m, Some mode, Some token, Some symbol, Some receiver, Some lo, Some hi, Some at, Some src]) \<Rightarrow>
         Some \<lparr>mc_environment = e, mc_merchantId = m, mc_mode = mode, mc_chainId = chain, mc_tokenAddress = token,
           mc_tokenSymbol = symbol, mc_tokenDecimals = decimals, mc_receivingAddress = receiver, mc_minimumAtomicAmount = lo,
           mc_maximumAtomicAmount = hi, mc_discoveredAt = at, mc_source = src\<rparr>
     | _ \<Rightarrow> None)"

definition capability_json :: "runtime_capability \<Rightarrow> json" where
  "capability_json c = JObj [(''environment'', JStr (mc_environment c)), (''merchantId'', JStr (mc_merchantId c)),
     (''mode'', JStr (mc_mode c)), (''chainId'', JNum (mc_chainId c)), (''tokenAddress'', JStr (mc_tokenAddress c)),
     (''tokenSymbol'', JStr (mc_tokenSymbol c)), (''tokenDecimals'', JNum (mc_tokenDecimals c)),
     (''receivingAddress'', JStr (mc_receivingAddress c)), (''minimumAtomicAmount'', JStr (mc_minimumAtomicAmount c)),
     (''maximumAtomicAmount'', JStr (mc_maximumAtomicAmount c)), (''discoveredAt'', JStr (mc_discoveredAt c)),
     (''source'', JStr (mc_source c))]"

text \<open>The chain the schema of a capability's kind expects; no chain when an enumeration or a literal of both kinds is missed.\<close>

definition expected_chain :: "runtime_capability \<Rightarrow> int option" where
  "expected_chain c =
    (if mc_mode c = ''ERC20_DIRECT'' \<and> mc_source c \<in> set [''AUTHENTICATED_API'', ''CHALLENGE'', ''QUICKPAY_MANIFEST'', ''PORTAL_REVIEW'']
     then (if mc_environment c = ''mainnet'' then Some (nw_chainId GOAT_MAINNET)
       else if mc_environment c = ''testnet3'' then Some (nw_chainId GOAT_TESTNET3) else None)
     else if mc_mode c = ''DIRECT_ERC20'' \<and> mc_source c = ''STATIC_CONFIG''
     then (if mc_environment c = ''botChainMainnet'' then Some (nw_chainId BOT_CHAIN_MAINNET)
       else if mc_environment c = ''botChainTestnet'' then Some (nw_chainId BOT_CHAIN_TESTNET) else None)
     else None)"

definition capability_parse :: "(string \<Rightarrow> bool) \<Rightarrow> json \<Rightarrow> runtime_capability option res" where
  "capability_parse datetime v =
    (case capability_of_json v of None \<Rightarrow> Inr None
     | Some c \<Rightarrow>
        (case expected_chain c of None \<Rightarrow> Inr None
         | Some chain \<Rightarrow> res_bind (capability_issues chain c (Whole (mc_tokenDecimals c))) (\<lambda>issues.
             Inr (if issues = [] \<and> datetime (mc_discoveredAt c) \<and> keys_within v ([''chainId'', ''tokenDecimals''] @ capability_strings)
               then Some c else None))))"

definition line_items_ok :: "quote_line_items \<Rightarrow> bool" where
  "line_items_ok l \<longleftrightarrow> list_all is_atomic [li_baseOrchestrationFeeAtomic l, li_mandatoryToolBudgetAtomic l,
     li_dynamicToolBudgetAtomic l, li_modelInfrastructureReserveAtomic l, li_chainStorageReserveAtomic l, li_riskSupportReserveAtomic l]"

definition quote_members_ok :: "(string \<Rightarrow> bool) \<Rightarrow> (string \<Rightarrow> string option) \<Rightarrow> quote \<Rightarrow> bool" where
  "quote_members_ok datetime url_scheme q \<longleftrightarrow> 8 \<le> length (q_id q) \<and> length (q_id q) \<le> 200 \<and> quote_request_ok url_scheme (q_request q)
     \<and> (case q_targetChainId q of None \<Rightarrow> True | Some n \<Rightarrow> 0 < n) \<and> line_items_ok (q_lineItems q)
     \<and> is_atomic (q_totalAtomicAmount q) \<and> is_atomic (q_refundableToolBudgetAtomic q)
     \<and> datetime (q_createdAt q) \<and> datetime (q_expiresAt q) \<and> is_bytes32 (q_quoteCommitment q)"

definition quoteSchema_parse :: "(string \<Rightarrow> bool) \<Rightarrow> (string \<Rightarrow> string option) \<Rightarrow> quote \<Rightarrow> quote res" where
  "quoteSchema_parse datetime url_scheme q =
    res_bind (capability_parse datetime (q_capabilitySnapshot q)) (\<lambda>found.
    case found of None \<Rightarrow> Inl (Zod_error [''capabilitySnapshot''])
    | Some c \<Rightarrow> res_bind (ensure (quote_members_ok datetime url_scheme q) (Zod_error [''quote''])) (\<lambda>_.
        Inr (q\<lparr>q_capabilitySnapshot := capability_json c\<rparr>)))"

subsection \<open>The repository\<close>

definition default_text :: "string option \<Rightarrow> string" where "default_text v = (case v of Some s \<Rightarrow> s | None \<Rightarrow> [])"

definition int_or_zero :: "int option \<Rightarrow> int" where "int_or_zero v = (case v of Some n \<Rightarrow> n | None \<Rightarrow> 0)"

text \<open>The row of a validated quote; a timestamp is read as \<open>Date.parse\<close> does, to the millisecond.\<close>

definition quote_row_of :: "catalog_binding \<Rightarrow> quote \<Rightarrow> quote_row res" where
  "quote_row_of b q =
    res_bind (pg_numeric (q_totalAtomicAmount q)) (\<lambda>total.
    res_bind (pg_numeric (q_refundableToolBudgetAtomic q)) (\<lambda>refundable.
    case (date_parse (q_createdAt q), date_parse (q_expiresAt q)) of
      (Some created, Some expires) \<Rightarrow>
        res_bind (ensure (0 < total \<and> created < expires) (Js_error ''check constraint quotes'')) (\<lambda>_.
        Inr \<lparr>qw_id = q_id q, qw_organizationId = to_lower (qr_organizationId (q_request q)),
          qw_requester = raw_bytes (qr_requesterAddress (q_request q)),
          qw_paymentChainId = int_or_zero (json_int_of (json_get (q_capabilitySnapshot q) ''chainId'')),
          qw_paymentToken = raw_bytes (default_text (json_string_of (json_get (q_capabilitySnapshot q) ''tokenAddress''))),
          qw_serviceId = cd_serviceId b, qw_releaseId = cd_releaseId b, qw_policyId = cd_policyId b, qw_request = q_request q,
          qw_capability = q_capabilitySnapshot q, qw_lineItems = q_lineItems q, qw_total = total, qw_refundable = refundable,
          qw_commitment = raw_bytes (q_quoteCommitment q), qw_createdAt = created, qw_expiresAt = expires,
          qw_targetChainId = Some (cd_chainId b)\<rparr>)
    | _ \<Rightarrow> Inl (Js_error ''invalid input syntax for type timestamp with time zone'')))"

definition insert_quote :: "catalog_binding \<Rightarrow> quote \<Rightarrow> (catalog, unit) io" where
  "insert_quote b q = (\<lambda>c. case quote_row_of b q of Inl e \<Rightarrow> (Inl e, c)
    | Inr row \<Rightarrow>
        if \<not> list_ex (\<lambda>o'. og_id o' = qw_organizationId row) (ct_organizations c)
        then (Inl (Js_error ''insert violates foreign key constraint''), c)
        else if list_ex (\<lambda>x. qw_id x = qw_id row \<or> qw_commitment x = qw_commitment row) (ct_quotes c) then (Inl duplicate_key, c)
        else (Inr (), c\<lparr>ct_quotes := ct_quotes c @ [row]\<rparr>))"

definition save_quote :: "(string \<Rightarrow> bool) \<Rightarrow> (string \<Rightarrow> string option) \<Rightarrow> quote \<Rightarrow> (catalog, unit) io" where
  "save_quote datetime url_scheme q =
    io_bind (io_lift (quoteSchema_parse datetime url_scheme q)) (\<lambda>validated.
    transaction
      (io_bind (io_get (resolveCatalogBinding (q_request validated))) (\<lambda>found.
       io_bind (io_lift found) (\<lambda>b. insert_quote b validated))))"

text \<open>\<open>jsonb\<close> is what the database makes of the members of a stored object: it may order them anew.\<close>

definition parseQuoteRow :: "(string \<Rightarrow> bool) \<Rightarrow> (string \<Rightarrow> string option) \<Rightarrow> (json \<Rightarrow> json) \<Rightarrow> quote_row \<Rightarrow> quote res" where
  "parseQuoteRow datetime url_scheme jsonb row = quoteSchema_parse datetime url_scheme
     \<lparr>q_id = qw_id row, q_request = qw_request row, q_capabilitySnapshot = jsonb (qw_capability row),
      q_targetChainId = qw_targetChainId row, q_lineItems = qw_lineItems row,
      q_totalAtomicAmount = nat_to_string (qw_total row), q_refundableToolBudgetAtomic = nat_to_string (qw_refundable row),
      q_createdAt = to_iso_string (qw_createdAt row), q_expiresAt = to_iso_string (qw_expiresAt row),
      q_quoteCommitment = bufferToHex (qw_commitment row)\<rparr>"

definition find_quote :: "(string \<Rightarrow> bool) \<Rightarrow> (string \<Rightarrow> string option) \<Rightarrow> (json \<Rightarrow> json) \<Rightarrow> string \<Rightarrow> (catalog, quote option) io" where
  "find_quote datetime url_scheme jsonb i =
    io_bind (io_get (\<lambda>c. find (\<lambda>r. qw_id r = i) (ct_quotes c))) (\<lambda>found.
    case found of None \<Rightarrow> io_ret None
    | Some row \<Rightarrow> io_lift (res_bind (parseQuoteRow datetime url_scheme jsonb row) (\<lambda>q. Inr (Some q))))"

section \<open>Facts\<close>

definition hex_digest :: "string \<Rightarrow> bool" where
  "hex_digest h \<longleftrightarrow> length h = 64 \<and> list_all is_hex_digit h \<and> to_lower h = h"

lemma raw_bytes_hex: "hex_digest h \<Longrightarrow> raw_bytes (bufferToHex h) = h"
proof -
  assume h: "hex_digest h"
  then have "takeWhile is_hex_digit h = h" unfolding takeWhile_eq_all_conv by (simp add: hex_digest_def list_all_iff)
  then show ?thesis using h by (simp add: raw_bytes_def bufferToHex_def hex_digest_def Let_def del: takeWhile_eq_all_conv)
qed

lemma newest_in: "newest rs = Some r \<Longrightarrow> r \<in> set rs"
proof -
  have "foldl (\<lambda>best x. if newer x best then x else best) b xs \<in> insert b (set xs)" for b and xs :: "release_row list"
    by (induction xs arbitrary: b) auto
  then show "newest rs = Some r \<Longrightarrow> r \<in> set rs" by (auto simp: newest_def split: list.splits)
qed

text \<open>
  What the constraints of the schema and the statements above keep true of the tables: unique wallets, services,
  releases and policies, references that resolve, ids and hashes in their canonical spelling.
\<close>

definition policies_ok :: "policy_row list \<Rightarrow> bool" where
  "policies_ok ps \<longleftrightarrow> distinct (map po_hash ps) \<and> (\<forall>p \<in> set ps. hex_digest (po_hash p))"

definition organizations_ok :: "organization_row list \<Rightarrow> bool" where
  "organizations_ok os \<longleftrightarrow> distinct (map og_wallet os) \<and> distinct (map og_id os) \<and> (\<forall>x \<in> set os. to_lower (og_id x) = og_id x)"

definition service_key :: "service_row \<Rightarrow> string \<times> string" where
  "service_key s = (sv_organizationId s, sv_externalServiceId s)"

definition services_ok :: "organization_row list \<Rightarrow> service_row list \<Rightarrow> bool" where
  "services_ok os ss \<longleftrightarrow> distinct (map service_key ss) \<and> distinct (map sv_id ss) \<and> (\<forall>s \<in> set ss. sv_organizationId s \<in> og_id ` set os)"

definition release_key :: "release_row \<Rightarrow> string \<times> string" where
  "release_key r = (rl_serviceId r, rl_versionHash r)"

definition releases_ok :: "service_row list \<Rightarrow> release_row list \<Rightarrow> bool" where
  "releases_ok ss rs \<longleftrightarrow> distinct (map release_key rs) \<and> (\<forall>r \<in> set rs. rl_serviceId r \<in> sv_id ` set ss \<and> hex_digest (rl_versionHash r))"

definition catalog_ok :: "catalog \<Rightarrow> bool" where
  "catalog_ok c \<longleftrightarrow> policies_ok (ct_policies c) \<and> organizations_ok (ct_organizations c)
     \<and> services_ok (ct_organizations c) (ct_services c) \<and> releases_ok (ct_services c) (ct_releases c)"

lemma find_in: "find p xs = Some x \<Longrightarrow> x \<in> set xs \<and> p x"
  by (auto simp: find_Some_iff)

lemma distinct_snoc: "distinct (map f (xs @ [x])) \<longleftrightarrow> distinct (map f xs) \<and> (\<forall>y \<in> set xs. f y \<noteq> f x)"
  by (force simp: image_iff)

lemma tables_snoc:
  "policies_ok (ps @ [p]) \<longleftrightarrow> policies_ok ps \<and> (\<forall>y \<in> set ps. po_hash y \<noteq> po_hash p) \<and> hex_digest (po_hash p)"
  "organizations_ok (os @ [x]) \<longleftrightarrow> organizations_ok os \<and> (\<forall>y \<in> set os. og_wallet y \<noteq> og_wallet x \<and> og_id y \<noteq> og_id x)
    \<and> to_lower (og_id x) = og_id x"
  "services_ok os (ss @ [s]) \<longleftrightarrow> services_ok os ss \<and> (\<forall>y \<in> set ss. service_key y \<noteq> service_key s \<and> sv_id y \<noteq> sv_id s)
    \<and> sv_organizationId s \<in> og_id ` set os"
  "releases_ok ss (rs @ [r]) \<longleftrightarrow> releases_ok ss rs \<and> (\<forall>y \<in> set rs. release_key y \<noteq> release_key r)
    \<and> rl_serviceId r \<in> sv_id ` set ss \<and> hex_digest (rl_versionHash r)"
  unfolding policies_ok_def organizations_ok_def services_ok_def releases_ok_def distinct_snoc by auto

lemma tables_mono: "services_ok os ss \<Longrightarrow> services_ok (os @ xs) ss" "releases_ok ss rs \<Longrightarrow> releases_ok (ss @ ys) rs"
  by (auto simp: services_ok_def releases_ok_def)

lemma tables_map:
  assumes "\<And>s. service_key (g s) = service_key s" "\<And>s. sv_id (g s) = sv_id s" "\<And>s. sv_organizationId (g s) = sv_organizationId s"
  shows "services_ok os (map g ss) = services_ok os ss" "releases_ok (map g ss) rs = releases_ok ss rs"
proof -
  have "service_key \<circ> g = service_key" "sv_id \<circ> g = sv_id" using assms by (simp_all add: fun_eq_iff)
  then show "services_ok os (map g ss) = services_ok os ss" "releases_ok (map g ss) rs = releases_ok ss rs"
    using assms by (simp_all add: services_ok_def releases_ok_def image_image)
qed

lemma one_service:
  assumes "catalog_ok c" and "s \<in> set (ct_services c)" "t \<in> set (ct_services c)"
    and "service_key s = service_key t"
  shows "s = t"
  using assms by (auto simp: catalog_ok_def services_ok_def distinct_map dest: inj_onD)

subsection \<open>The steps of an onboarding\<close>

lemma standard_hash: "po_hash (standard_policy_row P fresh) = policyHash P"
  by (simp add: standard_policy_row_def)

lemma insert_policy_ok:
  assumes "insert_policy P fresh c = (Inr (), c1)" and "hex_digest (policyHash P)"
  shows "(catalog_ok c \<longrightarrow> catalog_ok c1) \<and> (\<exists>p \<in> set (ct_policies c1). po_hash p = policyHash P)
    \<and> ct_organizations c1 = ct_organizations c \<and> ct_services c1 = ct_services c \<and> ct_releases c1 = ct_releases c"
proof (cases "list_ex (\<lambda>p. po_hash p = policyHash P) (ct_policies c)")
  case True
  then show ?thesis using assms(1) by (auto simp: insert_policy_def standard_hash list_ex_iff Let_def)
next
  case False
  with assms(1) have "c1 = c\<lparr>ct_policies := ct_policies c @ [standard_policy_row P fresh]\<rparr>"
    by (auto simp: insert_policy_def standard_hash Let_def split: if_split_asm)
  then show ?thesis using False assms(2) by (auto simp: catalog_ok_def tables_snoc list_ex_iff standard_hash)
qed

lemma upsert_organization_ok:
  assumes "upsert_organization fresh name wallet c = (Inr i, c1)" and "to_lower fresh = fresh"
  shows "(catalog_ok c \<longrightarrow> catalog_ok c1) \<and> (\<exists>x \<in> set (ct_organizations c1). og_id x = i \<and> og_wallet x = wallet)
    \<and> ct_policies c1 = ct_policies c \<and> ct_services c1 = ct_services c \<and> ct_releases c1 = ct_releases c"
proof (cases "find (\<lambda>x. og_wallet x = wallet) (ct_organizations c)")
  case (Some x)
  then show ?thesis using assms(1) find_in [OF Some] by (auto simp: upsert_organization_def split: if_split_asm)
next
  case None
  with assms(1) have "c1 = c\<lparr>ct_organizations := ct_organizations c @ [\<lparr>og_id = i, og_name = name, og_wallet = wallet\<rparr>]\<rparr>"
    "i = fresh" "\<forall>y \<in> set (ct_organizations c). og_id y \<noteq> i"
    by (auto simp: upsert_organization_def list_ex_iff split: if_split_asm)
  then show ?thesis using None assms(2) by (auto simp: catalog_ok_def tables_snoc find_None_iff intro: tables_mono)
qed

lemma reonboarded_keeps: "service_key (reonboarded i s) = service_key s" "sv_id (reonboarded i s) = sv_id s"
  "sv_active (reonboarded i s) = sv_active s" "sv_policyHash (reonboarded i s) = sv_policyHash s"
  "sv_organizationId (reonboarded i s) = sv_organizationId s"
  by (simp_all add: reonboarded_def service_key_def)

text \<open>The service as an onboarding leaves it.\<close>

definition offers :: "onboarding_input \<Rightarrow> string \<Rightarrow> service_row \<Rightarrow> bool" where
  "offers i organizationId s \<longleftrightarrow> service_key s = (organizationId, on_externalServiceId i) \<and> sv_x402Endpoint s = on_x402Endpoint i
     \<and> sv_openApiUrl s = on_openApiUrl i \<and> sv_chainId s = (case on_chainId i of Some n \<Rightarrow> n | None \<Rightarrow> 48816)"

lemma upsert_service_ok:
  assumes "upsert_service fresh now organizationId hash i c = (Inr j, c1)"
    and "organizationId \<in> og_id ` set (ct_organizations c)"
  shows "(catalog_ok c \<longrightarrow> catalog_ok c1) \<and> (\<exists>s \<in> set (ct_services c1). sv_id s = j \<and> offers i organizationId s)
    \<and> (list_all sv_active (ct_services c) \<longrightarrow> list_all sv_active (ct_services c1))
    \<and> ct_policies c1 = ct_policies c \<and> ct_organizations c1 = ct_organizations c \<and> ct_releases c1 = ct_releases c"
proof (cases "find (is_service organizationId (on_externalServiceId i)) (ct_services c)")
  case (Some s)
  let ?f = "\<lambda>x. if is_service organizationId (on_externalServiceId i) x then reonboarded i x else x"
  from Some assms(1) have c1: "c1 = c\<lparr>ct_services := map ?f (ct_services c)\<rparr>" "j = sv_id s"
    by (auto simp: upsert_service_def Let_def)
  have keeps: "service_key (?f x) = service_key x" "sv_id (?f x) = sv_id x" "sv_organizationId (?f x) = sv_organizationId x" for x
    by (simp_all add: reonboarded_keeps)
  have s: "s \<in> set (ct_services c)" "is_service organizationId (on_externalServiceId i) s"
    using find_in [OF Some] by simp_all
  then have "?f s \<in> set (ct_services c1)" "offers i organizationId (?f s)" "sv_id (?f s) = j"
    using c1 by (auto simp: offers_def reonboarded_def service_key_def is_service_def)
  moreover have "catalog_ok c1" if "catalog_ok c"
    using that unfolding catalog_ok_def c1 by (simp add: tables_map [of ?f, OF keeps])
  moreover have "list_all sv_active (ct_services c) \<longrightarrow> list_all sv_active (ct_services c1)"
    by (auto simp: c1 list_all_iff reonboarded_keeps)
  ultimately show ?thesis using c1(1) by auto
next
  case None
  with assms(1) have c1: "c1 = c\<lparr>ct_services := ct_services c @ [new_service fresh now organizationId hash i]\<rparr>" "j = fresh"
    "\<forall>y \<in> set (ct_services c). sv_id y \<noteq> fresh"
    by (auto simp: upsert_service_def list_ex_iff Let_def split: if_split_asm)
  have "\<forall>y \<in> set (ct_services c). service_key y \<noteq> service_key (new_service fresh now organizationId hash i)"
    using None by (auto simp: find_None_iff is_service_def service_key_def new_service_def)
  then show ?thesis using c1 assms(2)
    by (auto simp: catalog_ok_def tables_snoc new_service_def offers_def service_key_def intro: tables_mono)
qed

lemma insert_release_ok:
  assumes "insert_release fresh now serviceId version hash c = (Inr (), c1)"
    and "serviceId \<in> sv_id ` set (ct_services c)" and "hex_digest hash"
  shows "(catalog_ok c \<longrightarrow> catalog_ok c1) \<and> (\<exists>r \<in> set (ct_releases c1). rl_serviceId r = serviceId \<and> rl_versionHash r = hash)
    \<and> ct_policies c1 = ct_policies c \<and> ct_organizations c1 = ct_organizations c \<and> ct_services c1 = ct_services c"
proof (cases "list_ex (\<lambda>r. rl_serviceId r = serviceId \<and> rl_versionHash r = hash) (ct_releases c)")
  case True
  then show ?thesis using assms(1) by (auto simp: insert_release_def list_ex_iff)
next
  case False
  with assms(1) have "c1 = c\<lparr>ct_releases := ct_releases c @ [\<lparr>rl_id = fresh, rl_serviceId = serviceId, rl_version = version,
      rl_versionHash = hash, rl_createdAt = now\<rparr>]\<rparr>"
    by (auto simp: insert_release_def split: if_split_asm)
  then show ?thesis using False assms(2,3) by (auto simp: catalog_ok_def tables_snoc list_ex_iff release_key_def)
qed

lemma onboard_steps:
  assumes "onboard_rows P ids now hash i c = (Inr o', c')"
  shows "\<exists>c1 c2 c3 organizationId serviceId. insert_policy P (nr_policy ids) c = (Inr (), c1)
    \<and> upsert_organization (nr_organization ids) (on_organizationName i) (raw_bytes (on_requesterAddress i)) c1 = (Inr organizationId, c2)
    \<and> upsert_service (nr_service ids) now organizationId (policyHash P) i c2 = (Inr serviceId, c3)
    \<and> insert_release (nr_release ids) now serviceId (on_version i) hash c3 = (Inr (), c')
    \<and> o' = onboarded P organizationId hash i"
  using assms by (simp add: onboard_rows_def io_ok) blast

subsection \<open>Bindings\<close>

lemma binding_found:
  assumes "s \<in> set (ct_services c)" and "binds_service q s"
    and "\<exists>r \<in> set (ct_releases c). rl_serviceId r = sv_id s \<and> rl_versionHash r = raw_bytes (qr_targetVersionHash q)"
    and "\<exists>p \<in> set (ct_policies c). po_hash p = raw_bytes (qr_policyHash q)"
  shows "\<exists>b. resolveCatalogBinding q c = Inr b"
proof -
  let ?bs = "[\<lparr>cd_serviceId = sv_id s, cd_releaseId = rl_id r, cd_policyId = po_id p, cd_chainId = sv_chainId s\<rparr>.
      s \<leftarrow> filter (binds_service q) (ct_services c),
      r \<leftarrow> filter (\<lambda>r. rl_serviceId r = sv_id s \<and> rl_versionHash r = raw_bytes (qr_targetVersionHash q)) (ct_releases c),
      p \<leftarrow> filter (\<lambda>p. po_hash p = raw_bytes (qr_policyHash q)) (ct_policies c)]"
  from assms have "\<exists>b. b \<in> set ?bs" by auto
  then obtain b bs where "?bs = b # bs" by (cases ?bs) auto
  then show ?thesis unfolding resolveCatalogBinding_def by auto
qed

lemma binding_service:
  assumes "resolveCatalogBinding q c = Inr b"
  shows "\<exists>s \<in> set (ct_services c). binds_service q s \<and> cd_serviceId b = sv_id s \<and> cd_chainId b = sv_chainId s"
proof -
  let ?bs = "[\<lparr>cd_serviceId = sv_id s, cd_releaseId = rl_id r, cd_policyId = po_id p, cd_chainId = sv_chainId s\<rparr>.
      s \<leftarrow> filter (binds_service q) (ct_services c),
      r \<leftarrow> filter (\<lambda>r. rl_serviceId r = sv_id s \<and> rl_versionHash r = raw_bytes (qr_targetVersionHash q)) (ct_releases c),
      p \<leftarrow> filter (\<lambda>p. po_hash p = raw_bytes (qr_policyHash q)) (ct_policies c)]"
  have "b \<in> set ?bs" using assms unfolding resolveCatalogBinding_def by (cases ?bs) auto
  then show ?thesis by auto
qed

lemma binding_chain:
  assumes "catalog_ok c" and "s \<in> set (ct_services c)" and "binds_service q s"
    and "rl \<in> set (ct_releases c)" "rl_serviceId rl = sv_id s" "rl_versionHash rl = raw_bytes (qr_targetVersionHash q)"
    and "p \<in> set (ct_policies c)" "po_hash p = raw_bytes (qr_policyHash q)"
  shows "\<exists>b. resolveCatalogBinding q c = Inr b \<and> cd_chainId b = sv_chainId s"
proof -
  from binding_found [OF assms(2,3)] assms(4-8) obtain b where b: "resolveCatalogBinding q c = Inr b" by blast
  from binding_service [OF b] obtain t where t: "t \<in> set (ct_services c)" "binds_service q t" "cd_chainId b = sv_chainId t" by blast
  have "t = s" using one_service [OF assms(1) t(1) assms(2)] t(2) assms(3) by (simp add: binds_service_def service_key_def)
  then show ?thesis using b t(3) by blast
qed

section \<open>Properties of the catalogue\<close>

definition ids_canonical :: "new_row_ids \<Rightarrow> bool" where
  "ids_canonical ids \<longleftrightarrow> to_lower (nr_organization ids) = nr_organization ids"

lemma onboard_rows_ok:
  assumes rows: "onboard_rows P ids now hash i c = (Inr o', c')" and ids: "ids_canonical ids"
    and hash: "hex_digest (policyHash P)" "hex_digest hash" and ok: "catalog_ok c"
  shows "catalog_ok c' \<and> (list_all sv_active (ct_services c) \<longrightarrow> list_all sv_active (ct_services c'))
    \<and> (\<exists>s rl p x organizationId. o' = onboarded P organizationId hash i
    \<and> to_lower organizationId = organizationId \<and> x \<in> set (ct_organizations c') \<and> og_id x = organizationId
    \<and> og_wallet x = raw_bytes (on_requesterAddress i) \<and> s \<in> set (ct_services c') \<and> offers i organizationId s
    \<and> rl \<in> set (ct_releases c') \<and> rl_serviceId rl = sv_id s \<and> rl_versionHash rl = hash
    \<and> p \<in> set (ct_policies c') \<and> po_hash p = policyHash P)"
proof -
  from onboard_steps [OF rows] obtain c1 c2 c3 org sid where
    1: "insert_policy P (nr_policy ids) c = (Inr (), c1)" and
    2: "upsert_organization (nr_organization ids) (on_organizationName i) (raw_bytes (on_requesterAddress i)) c1 = (Inr org, c2)" and
    3: "upsert_service (nr_service ids) now org (policyHash P) i c2 = (Inr sid, c3)" and
    4: "insert_release (nr_release ids) now sid (on_version i) hash c3 = (Inr (), c')" and o': "o' = onboarded P org hash i" by blast
  note p = insert_policy_ok [OF 1 hash(1)] and o = upsert_organization_ok [OF 2 ids [unfolded ids_canonical_def]]
  have org: "org \<in> og_id ` set (ct_organizations c2)" using o by blast
  note s = upsert_service_ok [OF 3 org]
  have "sid \<in> sv_id ` set (ct_services c3)" using s by blast
  note r = insert_release_ok [OF 4 this hash(2)]
  have "catalog_ok c2" using p o ok by blast
  then have canonical: "to_lower org = org" using org by (auto simp: catalog_ok_def organizations_ok_def)
  have "catalog_ok c'" "list_all sv_active (ct_services c) \<longrightarrow> list_all sv_active (ct_services c')" using p o s r ok by auto
  moreover obtain x where "x \<in> set (ct_organizations c')" "og_id x = org" "og_wallet x = raw_bytes (on_requesterAddress i)"
    using o s r by auto
  moreover obtain sv where "sv \<in> set (ct_services c')" "sv_id sv = sid" "offers i org sv" using s r by auto
  moreover obtain rl where "rl \<in> set (ct_releases c')" "rl_serviceId rl = sid" "rl_versionHash rl = hash" using r by blast
  moreover obtain po where "po \<in> set (ct_policies c')" "po_hash po = policyHash P" using p o s r by auto
  ultimately show ?thesis using o' canonical by blast
qed

lemma fetch_keeps:
  assumes "\<And>u w. fst (snd (fetch u w)) = fst w"
  shows "fst (snd (fetchAndHashOpenApiDocument P fetch u w)) = fst w"
proof -
  obtain r w1 where f: "fetch u w = (r, w1)" by (cases "fetch u w")
  then have "fst w1 = fst w" using assms [of u w] by simp
  then show ?thesis using f
    by (auto simp: fetchAndHashOpenApiDocument_def io_bind_def io_catch_def io_throw_def io_ret_def Let_def
      split: sum.splits exn.splits option.splits)
qed

lemma onboarded_rows:
  assumes "onboardService P fetch ids now i (c, e) = (Inr o', (c', e'))" and "\<And>u w. fst (snd (fetch u w)) = fst w"
  shows "\<exists>text_form hash w. fetchAndHashOpenApiDocument P fetch (on_openApiUrl i) (c, e) = (Inr (text_form, hash), w)
    \<and> onboard_rows P ids now hash i c = (Inr o', c')"
proof -
  from assms(1) obtain text_form hash w where doc: "fetchAndHashOpenApiDocument P fetch (on_openApiUrl i) (c, e) = (Inr (text_form, hash), w)"
    and rows: "on_store (transaction (onboard_rows P ids now hash i)) w = (Inr o', (c', e'))"
    by (auto simp: onboardService_def io_ok)
  have "fst w = c" using fetch_keeps [of fetch P "on_openApiUrl i" "(c, e)"] assms(2) doc by simp
  with rows have "transaction (onboard_rows P ids now hash i) c = (Inr o', c')" by (cases w) (auto simp: on_store_ok)
  then have "onboard_rows P ids now hash i c = (Inr o', c')" by (rule transaction_ok)
  then show ?thesis using doc by blast
qed

lemma document_hash:
  "fetchAndHashOpenApiDocument P fetch u w = (Inr (text_form, hash), w1) \<Longrightarrow> hash = pf_sha256 P text_form"
  by (auto simp: fetchAndHashOpenApiDocument_def io_ok Let_def split: if_splits option.splits)

text \<open>A request that carries the identifiers an onboarding returned.\<close>

definition quotes_as :: "onboarded_service \<Rightarrow> quote_request \<Rightarrow> bool" where
  "quotes_as o' q \<longleftrightarrow> qr_organizationId q = os_organizationId o' \<and> qr_targetServiceId q = os_targetServiceId o'
     \<and> qr_targetVersionHash q = os_targetVersionHash o' \<and> qr_policyHash q = os_policyHash o'
     \<and> qr_x402Endpoint q = os_x402Endpoint o' \<and> qr_openApiUrl q = os_openApiUrl o'"

text \<open>
  An onboarded service can be quoted: while no service of the catalogue is withdrawn, a quote request with the
  identifiers the onboarding returned is bound, on the chain the onboarding named.
\<close>

theorem onboarded_can_be_quoted:
  assumes "onboardService P fetch ids now i (c, e) = (Inr o', (c', e'))" and "\<And>u w. fst (snd (fetch u w)) = fst w"
    and "ids_canonical ids" and "\<And>s. hex_digest (pf_sha256 P s)" and "catalog_ok c" and "list_all sv_active (ct_services c)"
    and "quotes_as o' q"
  shows "\<exists>b. resolveCatalogBinding q c' = Inr b \<and> cd_chainId b = (case on_chainId i of Some n \<Rightarrow> n | None \<Rightarrow> 48816)"
proof -
  from onboarded_rows [OF assms(1,2)] obtain text_form hash w where
    doc: "fetchAndHashOpenApiDocument P fetch (on_openApiUrl i) (c, e) = (Inr (text_form, hash), w)"
    and rows: "onboard_rows P ids now hash i c = (Inr o', c')" by blast
  have hash: "hex_digest hash" "hex_digest (policyHash P)" using document_hash [OF doc] assms(4) by (simp_all add: policyHash_def)
  from onboard_rows_ok [OF rows assms(3) hash(2,1) assms(5)] assms(6) obtain s rl p org where
    ok: "catalog_ok c'" "list_all sv_active (ct_services c')" and o': "o' = onboarded P org hash i" "to_lower org = org" and
    s: "s \<in> set (ct_services c')" "offers i org s" and
    rl: "rl \<in> set (ct_releases c')" "rl_serviceId rl = sv_id s" "rl_versionHash rl = hash" and
    p: "p \<in> set (ct_policies c')" "po_hash p = policyHash P" by blast
  have "sv_active s" using ok(2) s(1) by (simp add: list_all_iff)
  then have "binds_service q s" using s(2) assms(7) o' by (simp add: binds_service_def offers_def quotes_as_def onboarded_def service_key_def)
  moreover have "raw_bytes (qr_targetVersionHash q) = hash" "raw_bytes (qr_policyHash q) = policyHash P"
    using assms(7) o'(1) hash by (simp_all add: quotes_as_def onboarded_def raw_bytes_hex)
  ultimately show ?thesis using binding_chain [OF ok(1) s(1) _ rl(1,2) _ p(1)] rl(3) p(2) s(2) by (auto simp: offers_def)
qed

text \<open>
  C39: an onboarding keeps the tables consistent, a failing one changes nothing, and a successful one answers with the
  only organization of its wallet.
\<close>

theorem onboarding_keeps_catalog:
  assumes "onboardService P fetch ids now i (c, e) = (r, (c', e'))" and "\<And>u w. fst (snd (fetch u w)) = fst w"
    and "ids_canonical ids" and "\<And>s. hex_digest (pf_sha256 P s)" and "catalog_ok c"
  shows "catalog_ok c' \<and> (case r of Inl x \<Rightarrow> c' = c
    | Inr o' \<Rightarrow> \<exists>x \<in> set (ct_organizations c'). og_id x = os_organizationId o' \<and> og_wallet x = raw_bytes (on_requesterAddress i)
        \<and> (\<forall>y \<in> set (ct_organizations c'). og_wallet y = og_wallet x \<longrightarrow> y = x))"
proof (cases r)
  case (Inr o')
  from onboarded_rows [OF assms(1) [unfolded Inr] assms(2)] obtain text_form hash w where
    doc: "fetchAndHashOpenApiDocument P fetch (on_openApiUrl i) (c, e) = (Inr (text_form, hash), w)"
    and rows: "onboard_rows P ids now hash i c = (Inr o', c')" by blast
  have hash: "hex_digest (policyHash P)" "hex_digest hash" using document_hash [OF doc] assms(4) by (simp_all add: policyHash_def)
  from onboard_rows_ok [OF rows assms(3) hash assms(5)] obtain x org where ok: "catalog_ok c'"
    and x: "o' = onboarded P org hash i" "x \<in> set (ct_organizations c')" "og_id x = org" "og_wallet x = raw_bytes (on_requesterAddress i)"
    by blast
  have "y = x" if "y \<in> set (ct_organizations c')" "og_wallet y = og_wallet x" for y
    using ok x(2) that by (auto simp: catalog_ok_def organizations_ok_def distinct_map dest: inj_onD)
  moreover have "os_organizationId o' = org" using x(1) by (simp add: onboarded_def)
  ultimately show ?thesis using ok x(2-4) unfolding Inr sum.case by blast
next
  case (Inl x)
  obtain d w where doc: "fetchAndHashOpenApiDocument P fetch (on_openApiUrl i) (c, e) = (d, w)"
    by (cases "fetchAndHashOpenApiDocument P fetch (on_openApiUrl i) (c, e)")
  then have w: "fst w = c" using fetch_keeps [of fetch P "on_openApiUrl i" "(c, e)"] assms(2) by simp
  have "c' = c"
  proof (cases d)
    case (Inl y)
    then show ?thesis using assms(1) doc w by (auto simp: onboardService_def io_bind_def)
  next
    case (Inr th)
    then have "on_store (transaction (onboard_rows P ids now (snd th) i)) w = (Inl x, (c', e'))"
      using assms(1) doc \<open>r = Inl x\<close> by (simp add: onboardService_def io_bind_def case_prod_beta)
    then have "transaction (onboard_rows P ids now (snd th) i) c = (Inl x, c')" using w by (cases w) (auto simp: on_store_ok)
    then show ?thesis by (rule transaction_fails)
  qed
  then show ?thesis using Inl assms(5) by simp
qed

text \<open>A request that carries the identifiers of a marketplace entry.\<close>

definition listed_as :: "marketplace_entry \<Rightarrow> quote_request \<Rightarrow> bool" where
  "listed_as m q \<longleftrightarrow> qr_organizationId q = mk_organizationId m \<and> qr_targetServiceId q = mk_targetServiceId m
     \<and> qr_targetVersionHash q = mk_targetVersionHash m \<and> qr_policyHash q = mk_policyHash m
     \<and> qr_x402Endpoint q = mk_x402Endpoint m \<and> qr_openApiUrl q = mk_openApiUrl m"

lemma entry_rows:
  assumes "m \<in> set (listMarketplaceServices limit c)"
  shows "\<exists>s r p. s \<in> set (ct_services c) \<and> sv_listed s \<and> sv_active s \<and> r \<in> set (ct_releases c) \<and> rl_serviceId r = sv_id s
    \<and> p \<in> set (ct_policies c) \<and> sv_policyHash s = Some (po_hash p) \<and> m = entry_of s r p"
proof -
  from assms obtain s where s: "s \<in> set (ct_services c)" and m: "m \<in> set (entries_of c s)"
    by (auto simp: listMarketplaceServices_def dest!: in_set_takeD)
  then obtain r where r: "newest (filter (\<lambda>r. rl_serviceId r = sv_id s) (ct_releases c)) = Some r"
    by (cases "newest (filter (\<lambda>r. rl_serviceId r = sv_id s) (ct_releases c))") (auto simp: entries_of_def split: if_split_asm)
  with m obtain p where "sv_listed s" "sv_active s" "p \<in> set (ct_policies c)" "sv_policyHash s = Some (po_hash p)" "m = entry_of s r p"
    by (auto simp: entries_of_def split: if_split_asm)
  moreover from newest_in [OF r] have "r \<in> set (filter (\<lambda>r. rl_serviceId r = sv_id s) (ct_releases c))" .
  ultimately show ?thesis using s by auto
qed

text \<open>
  Whatever the marketplace lists can be quoted: a request with the identifiers of an entry is bound, on the chain the
  entry shows.
\<close>

theorem listed_can_be_quoted:
  assumes "catalog_ok c" and "m \<in> set (listMarketplaceServices limit c)" and "listed_as m q"
  shows "\<exists>b. resolveCatalogBinding q c = Inr b \<and> cd_chainId b = mk_chainId m"
proof -
  from entry_rows [OF assms(2)] obtain s r p where s: "s \<in> set (ct_services c)" "sv_active s"
    and r: "r \<in> set (ct_releases c)" "rl_serviceId r = sv_id s" and p: "p \<in> set (ct_policies c)" and m: "m = entry_of s r p" by blast
  have "sv_organizationId s \<in> og_id ` set (ct_organizations c)" using assms(1) s(1) by (auto simp: catalog_ok_def services_ok_def)
  then have "to_lower (sv_organizationId s) = sv_organizationId s" using assms(1) by (auto simp: catalog_ok_def organizations_ok_def)
  then have "binds_service q s" using s(2) assms(3) by (simp add: binds_service_def listed_as_def m entry_of_def)
  moreover have "hex_digest (rl_versionHash r)" "hex_digest (po_hash p)" using assms(1) r(1) p
    by (auto simp: catalog_ok_def releases_ok_def policies_ok_def)
  ultimately show ?thesis
    using binding_chain [OF assms(1) s(1) _ r _ p] assms(3) by (simp add: listed_as_def m entry_of_def raw_bytes_hex)
qed

text \<open>
  A service whose row predates the marketplace has no policy, and onboarding it again, which is meant to list it after
  the fact, does not give it one: it stays out of the marketplace.
\<close>

lemma relisted_service_hidden:
  assumes "upsert_service fresh now organizationId hash i c = (Inr j, c1)" and "catalog_ok c1"
    and "s \<in> set (ct_services c)" and "is_service organizationId (on_externalServiceId i) s" and "sv_policyHash s = None"
    and "m \<in> set (listMarketplaceServices limit c1)"
  shows "mk_organizationId m \<noteq> organizationId \<or> mk_targetServiceId m \<noteq> on_externalServiceId i"
proof -
  let ?f = "\<lambda>x. if is_service organizationId (on_externalServiceId i) x then reonboarded i x else x"
  have "find (is_service organizationId (on_externalServiceId i)) (ct_services c) \<noteq> None" using assms(3,4) by (auto simp: find_None_iff)
  then have c1: "ct_services c1 = map ?f (ct_services c)" using assms(1) by (auto simp: upsert_service_def Let_def)
  then have kept: "?f s \<in> set (ct_services c1)" "sv_policyHash (?f s) = None" "service_key (?f s) = (organizationId, on_externalServiceId i)"
    using assms(3-5) by (auto simp: reonboarded_keeps is_service_def service_key_def reonboarded_def)
  from entry_rows [OF assms(6)] obtain t p r where t: "t \<in> set (ct_services c1)" "sv_policyHash t = Some (po_hash p)" "m = entry_of t r p" by blast
  have "service_key t \<noteq> service_key (?f s)" using one_service [OF assms(2) t(1) kept(1)] kept(2) t(2) by auto
  then show ?thesis using kept(3) t(3) by (auto simp: entry_of_def service_key_def)
qed

section \<open>Stored quotes\<close>

lemma find_last: "\<forall>y \<in> set xs. \<not> p y \<Longrightarrow> p x \<Longrightarrow> find p (xs @ [x]) = Some x"
  by (induction xs) auto

definition reorders_members :: "(json \<Rightarrow> json) \<Rightarrow> bool" where
  "reorders_members jsonb \<longleftrightarrow> (\<forall>v k. json_get (jsonb v) k = json_get v k) \<and> (\<forall>v ks. keys_within (jsonb v) ks = keys_within v ks)"

lemma capability_reordered:
  assumes "reorders_members jsonb"
  shows "capability_parse datetime (jsonb v) = capability_parse datetime v"
proof -
  have same: "json_get (jsonb v) = json_get v" "keys_within (jsonb v) = keys_within v"
    using assms by (simp_all add: reorders_members_def fun_eq_iff)
  show ?thesis unfolding capability_parse_def capability_of_json_def same by (rule refl)
qed

lemma capability_members:
  "json_get (capability_json c) ''environment'' = Some (JStr (mc_environment c))" "json_get (capability_json c) ''merchantId'' = Some (JStr (mc_merchantId c))"
  "json_get (capability_json c) ''mode'' = Some (JStr (mc_mode c))" "json_get (capability_json c) ''chainId'' = Some (JNum (mc_chainId c))"
  "json_get (capability_json c) ''tokenAddress'' = Some (JStr (mc_tokenAddress c))" "json_get (capability_json c) ''tokenSymbol'' = Some (JStr (mc_tokenSymbol c))"
  "json_get (capability_json c) ''tokenDecimals'' = Some (JNum (mc_tokenDecimals c))" "json_get (capability_json c) ''receivingAddress'' = Some (JStr (mc_receivingAddress c))"
  "json_get (capability_json c) ''minimumAtomicAmount'' = Some (JStr (mc_minimumAtomicAmount c))"
  "json_get (capability_json c) ''maximumAtomicAmount'' = Some (JStr (mc_maximumAtomicAmount c))"
  "json_get (capability_json c) ''discoveredAt'' = Some (JStr (mc_discoveredAt c))" "json_get (capability_json c) ''source'' = Some (JStr (mc_source c))"
  by (simp_all add: json_get_def capability_json_def)

lemma capability_of_printed: "capability_of_json (capability_json c) = Some c"
  by (simp add: capability_of_json_def capability_strings_def capability_members json_int_of_def json_string_of_def)

lemma capability_keys: "keys_within (capability_json c) (''chainId'' # ''tokenDecimals'' # capability_strings)"
  by (simp add: keys_within_def capability_json_def capability_strings_def)

lemma capability_reparsed:
  "capability_parse datetime v = Inr (Some c) \<Longrightarrow> capability_parse datetime (capability_json c) = Inr (Some c)"
  by (auto simp: capability_parse_def capability_of_printed capability_keys res_bind_Inr_iff split: option.splits if_split_asm)

lemma bytes_round:
  assumes "is_bytes32 h" and "to_lower h = h"
  shows "bufferToHex (raw_bytes h) = h"
proof -
  have h: "h = ''0x'' @ drop 2 h" "length (drop 2 h) = 64" "list_all is_hex_digit (drop 2 h)"
    using assms(1) append_take_drop_id [of 2 h] by (simp_all add: is_bytes32_def is_hex_bytes_def)
  moreover have "to_lower (drop 2 h) = drop 2 h" using assms(2) by (metis to_lower_def drop_map)
  ultimately have "hex_digest (drop 2 h)" by (simp add: hex_digest_def)
  then have "raw_bytes (bufferToHex (drop 2 h)) = drop 2 h" by (rule raw_bytes_hex)
  then show ?thesis using h(1) by (simp add: bufferToHex_def)
qed

text \<open>A timestamp as the engine issues it, which the database can keep to the millisecond.\<close>

definition issued_at :: "int \<Rightarrow> string \<Rightarrow> bool" where
  "issued_at t s \<longleftrightarrow> s = to_iso_string t \<and> 0 \<le> t \<and> t < 253402300800000"

lemma issued_at_parse: "issued_at t s \<Longrightarrow> date_parse s = Some t \<and> to_iso_string t = s"
  by (auto simp: issued_at_def date_parse_to_iso_string)

text \<open>
  C37: what is saved is found: a quote the repository accepts is bound to a service of the catalogue, and is read back as
  it was validated, with the chain of that service as its target, in whatever order the database keeps its members.
\<close>

theorem saved_quote_found:
  assumes saved: "save_quote datetime url_scheme q c = (Inr (), c')" and jsonb: "reorders_members jsonb"
    and times: "issued_at created (q_createdAt q)" "issued_at expires (q_expiresAt q)"
    and lower: "to_lower (q_quoteCommitment q) = q_quoteCommitment q" and chains: "list_all (\<lambda>s. 0 < sv_chainId s) (ct_services c)"
  shows "\<exists>v b. quoteSchema_parse datetime url_scheme q = Inr v \<and> resolveCatalogBinding (q_request q) c = Inr b
    \<and> find_quote datetime url_scheme jsonb (q_id q) c' = (Inr (Some (v\<lparr>q_targetChainId := Some (cd_chainId b)\<rparr>)), c')"
proof -
  from saved obtain v where v: "quoteSchema_parse datetime url_scheme q = Inr v"
    and stored: "transaction (io_bind (io_get (resolveCatalogBinding (q_request v))) (\<lambda>found. io_bind (io_lift found) (\<lambda>b. insert_quote b v))) c
      = (Inr (), c')"
    by (auto simp: save_quote_def io_ok)
  from v obtain k where k: "capability_parse datetime (q_capabilitySnapshot q) = Inr (Some k)" "quote_members_ok datetime url_scheme q"
    and v_eq: "v = q\<lparr>q_capabilitySnapshot := capability_json k\<rparr>"
    by (auto simp: quoteSchema_parse_def res_bind_Inr_iff split: option.splits)
  from transaction_ok [OF stored] obtain b where b: "resolveCatalogBinding (q_request v) c = Inr b" and ins: "insert_quote b v c = (Inr (), c')"
    by (auto simp: io_ok)
  from ins obtain row where row: "quote_row_of b v = Inr row" and c': "c' = c\<lparr>ct_quotes := ct_quotes c @ [row]\<rparr>"
    and fresh: "\<forall>x \<in> set (ct_quotes c). qw_id x \<noteq> qw_id row"
    by (auto simp: insert_quote_def list_ex_iff split: sum.splits if_split_asm)
  have atomic: "is_atomic (q_totalAtomicAmount q)" "is_atomic (q_refundableToolBudgetAtomic q)" "is_bytes32 (q_quoteCommitment q)"
    using k(2) by (simp_all add: quote_members_ok_def)
  have row_eq: "qw_id row = q_id q" "qw_request row = q_request q" "qw_capability row = capability_json k" "qw_lineItems row = q_lineItems q"
    "nat_to_string (qw_total row) = q_totalAtomicAmount q" "nat_to_string (qw_refundable row) = q_refundableToolBudgetAtomic q"
    "qw_commitment row = raw_bytes (q_quoteCommitment q)" "qw_createdAt row = created" "qw_expiresAt row = expires"
    "qw_targetChainId row = Some (cd_chainId b)"
    using row issued_at_parse [OF times(1)] issued_at_parse [OF times(2)] atomic
    by (auto simp: quote_row_of_def v_eq res_bind_Inr_iff pg_numeric_def nat_to_string_dec_value split: if_split_asm)
  from binding_service [OF b] chains have chain: "0 < cd_chainId b" by (auto simp: list_all_iff)
  let ?read = "q\<lparr>q_capabilitySnapshot := jsonb (capability_json k), q_targetChainId := Some (cd_chainId b)\<rparr>"
  have "parseQuoteRow datetime url_scheme jsonb row = quoteSchema_parse datetime url_scheme ?read"
    using row_eq issued_at_parse [OF times(1)] issued_at_parse [OF times(2)] bytes_round [OF atomic(3) lower]
    by (cases q) (simp add: parseQuoteRow_def)
  also have "\<dots> = Inr (v\<lparr>q_targetChainId := Some (cd_chainId b)\<rparr>)"
    using k(2) chain capability_reparsed [OF k(1)] capability_reordered [OF jsonb]
    by (simp add: quoteSchema_parse_def v_eq quote_members_ok_def)
  finally have read: "parseQuoteRow datetime url_scheme jsonb row = Inr (v\<lparr>q_targetChainId := Some (cd_chainId b)\<rparr>)" .
  have "find (\<lambda>r. qw_id r = q_id q) (ct_quotes c @ [row]) = Some row"
    using fresh row_eq(1) by (intro find_last) auto
  then have "find_quote datetime url_scheme jsonb (q_id q) c' = (Inr (Some (v\<lparr>q_targetChainId := Some (cd_chainId b)\<rparr>)), c')"
    by (simp add: find_quote_def io_bind_def io_get_def io_lift_def c' read)
  then show ?thesis using v b v_eq by auto
qed

section \<open>A concrete catalogue\<close>

definition demo_digests :: platform where
  "demo_digests = demo_platform\<lparr>pf_sha256 := (\<lambda>_. replicate 64 (CHR ''a'')), pf_parse_json := (\<lambda>_. Some JNull)\<rparr>"

definition demo_document :: "string \<Rightarrow> (catalog \<times> unit, http_response) io" where
  "demo_document u = io_ret \<lparr>hr_status = 200, hr_headers = [], hr_body = ''null''\<rparr>"

definition demo_ids :: new_row_ids where
  "demo_ids = \<lparr>nr_policy = ''p-1'', nr_organization = ''00000000-0000-4000-8000-000000000001'', nr_service = ''s-1'', nr_release = ''r-1''\<rparr>"

definition demo_onboarding :: onboarding_input where
  "demo_onboarding = \<lparr>on_organizationName = ''Acme'', on_requesterAddress = ''0x'' @ replicate 40 (CHR ''1''), on_externalServiceId = ''svc'',
     on_serviceName = ''Service'', on_x402Endpoint = ''https://a'', on_openApiUrl = ''https://b'', on_version = ''1'',
     on_marketplaceListed = Some True, on_description = None, on_chainId = Some 56\<rparr>"

definition empty_catalog :: catalog where
  "empty_catalog = \<lparr>ct_policies = [], ct_organizations = [], ct_services = [], ct_releases = [], ct_quotes = []\<rparr>"

definition demo_catalog :: catalog where
  "demo_catalog = \<lparr>ct_policies = [standard_policy_row demo_digests ''p-1''],
     ct_organizations = [\<lparr>og_id = ''00000000-0000-4000-8000-000000000001'', og_name = ''Acme'', og_wallet = replicate 40 (CHR ''1'')\<rparr>],
     ct_services = [new_service ''s-1'' 7 ''00000000-0000-4000-8000-000000000001'' (policyHash demo_digests) demo_onboarding],
     ct_releases = [\<lparr>rl_id = ''r-1'', rl_serviceId = ''s-1'', rl_version = ''1'', rl_versionHash = replicate 64 (CHR ''a''), rl_createdAt = 7\<rparr>],
     ct_quotes = []\<rparr>"

lemma demo_digest: "pf_sha256 demo_digests s = replicate 64 (CHR ''a'')" "policyHash demo_digests = replicate 64 (CHR ''a'')"
  by (simp_all add: demo_digests_def policyHash_def)

lemma demo_hex: "hex_digest (replicate 64 (CHR ''a''))"
  by code_simp

lemma demo_wallet: "raw_bytes (''0x'' @ replicate 40 (CHR ''1'')) = replicate 40 (CHR ''1'')"
  by code_simp

definition demo_service_id :: onboarded_service where
  "demo_service_id = onboarded demo_digests ''00000000-0000-4000-8000-000000000001'' (replicate 64 (CHR ''a'')) demo_onboarding"

lemma demo_fetched: "fetchAndHashOpenApiDocument demo_digests demo_document u w
    = (Inr (canonicalJson (pf_locale_le demo_digests) JNull, replicate 64 (CHR ''a'')), w)"
  by (simp add: fetchAndHashOpenApiDocument_def demo_document_def io_catch_def io_bind_def io_ret_def demo_digest)
    (simp add: demo_digests_def)

lemma demo_onboard: "onboardService demo_digests demo_document demo_ids 7 demo_onboarding (empty_catalog, ())
    = (Inr demo_service_id, (demo_catalog, ()))"
proof -
  have "onboard_rows demo_digests demo_ids 7 (replicate 64 (CHR ''a'')) demo_onboarding empty_catalog = (Inr demo_service_id, demo_catalog)"
    by (simp add: onboard_rows_def io_then_def io_bind_def io_ret_def insert_policy_def upsert_organization_def upsert_service_def
      insert_release_def Let_def empty_catalog_def demo_ids_def demo_onboarding_def demo_wallet [simplified] demo_service_id_def demo_catalog_def)
  then show ?thesis
    by (simp add: onboardService_def io_bind_def demo_fetched on_store_def transaction_def)
qed

lemma demo_document_keeps: "fst (snd (demo_document u w)) = fst w"
  by (simp add: demo_document_def io_ret_def)

lemma empty_ok: "catalog_ok empty_catalog"
  by (simp add: catalog_ok_def empty_catalog_def policies_ok_def organizations_ok_def services_ok_def releases_ok_def)

lemma demo_ids_canonical: "ids_canonical demo_ids"
  by code_simp

definition demo_bound_request :: quote_request where
  "demo_bound_request = \<lparr>qr_organizationId = ''00000000-0000-4000-8000-000000000001'', qr_requesterAddress = ''0x'' @ replicate 40 (CHR ''1''),
     qr_targetAgentId = ''agent:svc'', qr_targetServiceId = ''svc'', qr_targetVersionHash = ''0x'' @ replicate 64 (CHR ''a''),
     qr_previousVersionHash = None, qr_policyHash = ''0x'' @ replicate 64 (CHR ''a''), qr_x402Endpoint = ''https://a'',
     qr_openApiUrl = ''https://b'', qr_maximumCustomerBudgetAtomic = ''2000''\<rparr>"

theorem onboarded_can_be_quoted_witness: "\<exists>b. resolveCatalogBinding demo_bound_request demo_catalog = Inr b \<and> cd_chainId b = 56"
proof -
  have "quotes_as demo_service_id demo_bound_request"
    by (simp add: quotes_as_def demo_service_id_def onboarded_def demo_bound_request_def bufferToHex_def demo_digest demo_onboarding_def)
  moreover have "list_all sv_active (ct_services empty_catalog)" by (simp add: empty_catalog_def)
  moreover have "hex_digest (pf_sha256 demo_digests s)" for s using demo_hex by (simp add: demo_digest)
  ultimately show ?thesis
    using onboarded_can_be_quoted [OF demo_onboard demo_document_keeps demo_ids_canonical _ empty_ok, of demo_bound_request]
    by (simp add: demo_onboarding_def)
qed

theorem onboarding_keeps_catalog_witness: "catalog_ok demo_catalog"
proof -
  have "hex_digest (pf_sha256 demo_digests s)" for s using demo_hex by (simp add: demo_digest)
  from onboarding_keeps_catalog [OF demo_onboard demo_document_keeps demo_ids_canonical this empty_ok] show ?thesis by blast
qed

lemma demo_catalog_ok: "catalog_ok demo_catalog"
proof -
  have "to_lower ''00000000-0000-4000-8000-000000000001'' = ''00000000-0000-4000-8000-000000000001''" by code_simp
  then show ?thesis
    by (simp add: catalog_ok_def demo_catalog_def policies_ok_def organizations_ok_def services_ok_def releases_ok_def
      standard_policy_row_def new_service_def demo_digest demo_hex)
qed

lemma demo_listing: "listMarketplaceServices None demo_catalog = [entry_of (hd (ct_services demo_catalog)) (hd (ct_releases demo_catalog))
    (hd (ct_policies demo_catalog))]"
  by (simp add: listMarketplaceServices_def demo_catalog_def entries_of_def new_service_def standard_policy_row_def or_false_def
    demo_onboarding_def newest_def)

theorem listed_can_be_quoted_witness:
  "\<exists>m b. listMarketplaceServices None demo_catalog = [m] \<and> resolveCatalogBinding demo_bound_request demo_catalog = Inr b
    \<and> cd_chainId b = mk_chainId m"
proof -
  let ?m = "entry_of (hd (ct_services demo_catalog)) (hd (ct_releases demo_catalog)) (hd (ct_policies demo_catalog))"
  have "?m \<in> set (listMarketplaceServices None demo_catalog)" by (simp add: demo_listing)
  moreover have "listed_as ?m demo_bound_request"
    by (simp add: listed_as_def entry_of_def demo_catalog_def new_service_def standard_policy_row_def demo_bound_request_def
      bufferToHex_def demo_digest demo_onboarding_def)
  ultimately show ?thesis using listed_can_be_quoted [OF demo_catalog_ok] demo_listing by blast
qed

definition demo_capability :: runtime_capability where
  "demo_capability = \<lparr>mc_environment = ''testnet3'', mc_merchantId = ''m'', mc_mode = ''ERC20_DIRECT'', mc_chainId = 48816,
     mc_tokenAddress = ''0x'' @ replicate 40 (CHR ''1''), mc_tokenSymbol = ''USDC'', mc_tokenDecimals = 6,
     mc_receivingAddress = ''0x'' @ replicate 40 (CHR ''2''), mc_minimumAtomicAmount = ''1'', mc_maximumAtomicAmount = ''100'',
     mc_discoveredAt = ''2026-01-01T00:00:00.000Z'', mc_source = ''PORTAL_REVIEW''\<rparr>"

definition demo_saved :: quote where
  "demo_saved = \<lparr>q_id = ''quote_01'', q_request = demo_bound_request, q_capabilitySnapshot = capability_json demo_capability,
     q_targetChainId = None, q_lineItems = \<lparr>li_baseOrchestrationFeeAtomic = ''1'', li_mandatoryToolBudgetAtomic = ''2'',
       li_dynamicToolBudgetAtomic = ''3'', li_modelInfrastructureReserveAtomic = ''4'', li_chainStorageReserveAtomic = ''5'',
       li_riskSupportReserveAtomic = ''6''\<rparr>,
     q_totalAtomicAmount = ''21'', q_refundableToolBudgetAtomic = ''5'', q_createdAt = to_iso_string 1767225600000,
     q_expiresAt = to_iso_string 1767226200000, q_quoteCommitment = ''0x'' @ replicate 64 (CHR ''b'')\<rparr>"

definition demo_binding :: catalog_binding where
  "demo_binding = \<lparr>cd_serviceId = ''s-1'', cd_releaseId = ''r-1'', cd_policyId = ''p-1'', cd_chainId = 56\<rparr>"

lemma demo_validated: "quoteSchema_parse (\<lambda>_. True) demo_protocol demo_saved = Inr demo_saved"
  by code_simp

lemma demo_quote_row: "case quote_row_of demo_binding demo_saved of Inl e \<Rightarrow> False
    | Inr row \<Rightarrow> qw_organizationId row = ''00000000-0000-4000-8000-000000000001''"
  by code_simp

lemma demo_bound: "resolveCatalogBinding demo_bound_request demo_catalog = Inr demo_binding"
proof -
  have "raw_bytes (''0x'' @ replicate 64 (CHR ''a'')) = replicate 64 (CHR ''a'')"
    "to_lower ''00000000-0000-4000-8000-000000000001'' = ''00000000-0000-4000-8000-000000000001''" by code_simp+
  then show ?thesis
    by (simp add: resolveCatalogBinding_def demo_catalog_def binds_service_def new_service_def standard_policy_row_def demo_digest
      demo_bound_request_def demo_onboarding_def demo_binding_def)
qed

lemma demo_save: "\<exists>c. save_quote (\<lambda>_. True) demo_protocol demo_saved demo_catalog = (Inr (), c)"
proof -
  obtain row where "quote_row_of demo_binding demo_saved = Inr row" "qw_organizationId row = ''00000000-0000-4000-8000-000000000001''"
    using demo_quote_row by (auto split: sum.splits)
  then have "\<exists>c. insert_quote demo_binding demo_saved demo_catalog = (Inr (), c)" by (simp add: insert_quote_def demo_catalog_def)
  moreover have "q_request demo_saved = demo_bound_request" by (simp add: demo_saved_def)
  ultimately show ?thesis
    by (auto simp: save_quote_def demo_validated demo_bound transaction_def io_bind_def io_lift_def io_get_def)
qed

theorem saved_quote_found_witness:
  "\<exists>c. find_quote (\<lambda>_. True) demo_protocol (\<lambda>v. v) ''quote_01'' c = (Inr (Some (demo_saved\<lparr>q_targetChainId := Some 56\<rparr>)), c)"
proof -
  obtain c where c: "save_quote (\<lambda>_. True) demo_protocol demo_saved demo_catalog = (Inr (), c)" using demo_save by blast
  have times: "issued_at 1767225600000 (q_createdAt demo_saved)" "issued_at 1767226200000 (q_expiresAt demo_saved)"
    by (simp_all add: issued_at_def demo_saved_def)
  have rest: "reorders_members (\<lambda>v. v)" "list_all (\<lambda>s. 0 < sv_chainId s) (ct_services demo_catalog)"
    by (simp_all add: reorders_members_def demo_catalog_def new_service_def demo_onboarding_def)
  have lower: "to_lower (q_quoteCommitment demo_saved) = q_quoteCommitment demo_saved" by code_simp
  have "q_request demo_saved = demo_bound_request" "q_id demo_saved = ''quote_01''" "cd_chainId demo_binding = 56"
    by (simp_all add: demo_saved_def demo_binding_def)
  with saved_quote_found [OF c rest(1) times lower rest(2)] show ?thesis by (auto simp: demo_validated demo_bound)
qed

end
