(* ===== verification/Spec2Isabelle.thy ===== *)
theory Spec2Isabelle
  imports Mandate Egress Quote Risk Receipts Exact_EVM Workers Cross_Chain Checkpoint Bnb_Payment Settlement_Legs Procurement Pipeline Pipeline_Service
    Gateway_Service Bridge_Scan Runtime_Config Catalog
begin

text \<open>
  ShipYard402 sells verification runs of paid (x402) web services.  A customer asks for a quote, pays it in tokens on
  a blockchain, and the backend tests the service: a model proposes a test plan, a policy bounds what may be spent, the
  backend buys from the service, attacks it with replayed and forged payments, collects evidence, attests the evidence
  on chain and refunds what was not spent.  This library models the TypeScript of \<open>src/packages\<close> and \<open>src/apps\<close> that
  decides about money, state and evidence, and proves what makes it correct.

  \<^bold>\<open>How the parts work together.\<close>  The API gateway (\<open>Api_Gateway\<close>) authenticates a wallet (\<open>Session_Auth\<close>), quotes
  (\<open>Quote\<close>), creates a run (\<open>Run_State\<close>) and hands out the payment challenge of a merchant (\<open>Merchant_Order\<close>).
  The payment worker (\<open>Workers\<close>) takes jobs from a leased queue (\<open>Job_Queue\<close>) and lets the reconciler
  (\<open>Reconciler\<close>) verify the settlement on chain (\<open>Settlement\<close>) and fund the run in one transaction (\<open>Run_Store\<close>),
  which also enqueues the orchestrator's job.  The orchestrator worker (\<open>Workers\<close>) runs the pipeline (\<open>Pipeline\<close>):
  classify (\<open>Risk\<close>), compile a mandate (\<open>Mandate\<close>), procure (\<open>Procurement\<close>, over \<open>Exact_EVM\<close>, \<open>Cross_Chain\<close>,
  \<open>Bnb_Payment\<close> and \<open>Stargate\<close>), execute scenarios (\<open>Delivery\<close>, through \<open>Egress\<close>), build evidence (\<open>Receipts\<close>), attest,
  refund.  What a phase did is written once to the checkpoint (\<open>Checkpoint\<close>) and shown as settlement legs
  (\<open>Settlement_Legs\<close>), so that a restarted pipeline goes on where the last one stopped.

  \<^bold>\<open>How code becomes definitions.\<close>  A definition has the name of the function it translates.  A thrown error is an
  \<open>Inl\<close> of \<open>Prelude.exn\<close>; an asynchronous function is a function from a world to a result and the world it leaves,
  so that what was done before a throw remains done.  The ports of the code (repositories, chains, models, clocks) are
  records of such functions over an arbitrary world, and the laws the code relies on are predicates over them that
  each theorem names.  PostgreSQL tables are lists of rows, a transaction is a function that returns the new tables or
  the old ones with an error; an operation is \<open>atomic\<close> in the model where the code runs one statement or one
  transaction under a row lock.  Concurrency is a relation: between two calls of one worker the world moves by any
  steps of the others (\<open>Run_Service\<close>, \<open>Checkpoint\<close>, \<open>Job_Queue\<close>, \<open>Bnb_Payment\<close>).

  \<^bold>\<open>The theories.\<close>
  \<^item> \<open>Prelude\<close>: errors, the result and effect combinators, triples and invariants over effects (\<open>io_keeps\<close>, \<open>triple\<close>), and
    list lemmas shared by all.  \<open>Js_String\<close>, \<open>Iso_Date\<close>, \<open>Json\<close>, \<open>Platform\<close>: the part of the language, of \<open>Date\<close>, of
    canonical JSON (\<open>canonicalJson\<close>) and of \<open>fetch\<close> data the program uses.
  \<^item> \<open>Money\<close> (\<open>run-domain/money.ts\<close>, \<open>economic-ledger.ts\<close>): atomic amounts and the ledger.
  \<^item> \<open>Run_State\<close> (\<open>run-domain/run-state-machine.ts\<close>): aggregate, transitions, reachable histories and their invariants.
  \<^item> \<open>Hosts\<close>, \<open>Mandate\<close>, \<open>Egress\<close> (\<open>policy-engine\<close>): which hosts are forbidden, what a mandate authorizes, and the
    guarded \<open>fetch\<close>.
  \<^item> \<open>Quote\<close> (\<open>quote-engine\<close>): pricing, expiry and commitment of a quote.
  \<^item> \<open>Delivery\<close> (\<open>protected-delivery-runner\<close>, \<open>pipeline/scenarios.ts\<close>): the attack scenarios and the provider's signature.
  \<^item> \<open>Risk\<close> (\<open>risk-classifier\<close>, \<open>mandate-builder.ts\<close>): parsing the model's answer and compiling the plan.
  \<^item> \<open>Receipts\<close> (\<open>evidence-sdk\<close>, \<open>evidence-builder.ts\<close>, \<open>attestation-builder.ts\<close>): receipts, Merkle root, evidence pack,
    attestation.
  \<^item> \<open>Exact_EVM\<close> (\<open>x402-payments/exact-evm.ts\<close>, \<open>payer-client.ts\<close>): the payment header and the buyer.
  \<^item> \<open>Settlement\<close>, \<open>Merchant_Order\<close> (\<open>settlement-verifier.ts\<close>, \<open>ports.ts\<close>, \<open>merchant-order-snapshot.ts\<close>): which
    transfers settle an order, and reading stored orders.
  \<^item> \<open>Cross_Chain\<close> (\<open>cross-chain-procurement.ts\<close>): the procurement state machine over a bridge.
  \<^item> \<open>Bnb_Payment\<close> (\<open>bnb-x402-client\<close>, \<open>cross-chain-stores.ts\<close>): requirement policy, payment client and its write-once store.
  \<^item> \<open>Run_Store\<close>, \<open>Run_Service\<close>, \<open>Job_Queue\<close>, \<open>Checkpoint\<close>, \<open>Settlement_Legs\<close> (\<open>persistence-postgres\<close>): the tables, their
    transactions, and what every writer relies on beside the others.
  \<^item> \<open>Reconciler\<close> (\<open>payment-reconciliation\<close>) and \<open>Workers\<close> (\<open>payment-worker/worker.ts\<close>, \<open>orchestrator-worker/worker.ts\<close>).
  \<^item> \<open>Procurement\<close>, \<open>Pipeline\<close>, \<open>Pipeline_Service\<close> (\<open>orchestrator-worker/pipeline.ts\<close> and \<open>pipeline/\<close>): the phases, their
    order, finalization, and the pipeline over the shared tables.
  \<^item> \<open>Session_Auth\<close>, \<open>Api_Gateway\<close>, \<open>Gateway_Service\<close> (\<open>api-gateway/session-auth.ts\<close>, \<open>app.ts\<close>): tokens of a session, every
    route with its replies, and the gateway over the shared tables.
  \<^item> \<open>Stargate\<close>, \<open>Bridge_Scan\<close> (\<open>stargate-bridge-adapter\<close>, \<open>cross-chain-stores.ts\<close>): the bridge adapter and its two stores of
    submissions, the client of LayerZero Scan and the preflight.
  \<^item> \<open>Network_Config\<close>, \<open>Runtime_Config\<close> (\<open>goat-network-config\<close>, \<open>bot-chain-network-config\<close>, \<open>runtime-config.ts\<close> of the three
    processes): networks, capabilities of a merchant, and what a process demands of its environment before it starts.
  \<^item> \<open>Catalog\<close> (\<open>catalog-onboarding.ts\<close>, \<open>catalog-listing.ts\<close>, \<open>api-repositories.ts\<close>): onboarding, the marketplace, and quotes
    bound to the catalogue.

  \<^bold>\<open>What the lemmas show.\<close>  For each component: well-formedness and its preservation (histories of runs, tables, leases,
  checkpoints); the exact condition of every acceptance (settlements, purchases, quotes, plans, tokens) with the errors
  of every refusal; round trips (headers, canonical JSON, tokens, dates); bounds on amounts and delays; that loops
  return.  Two abstract specifications tie the parts together: the run state machine, which the stored runs refine
  whatever the interleaving of their writers (\<open>Run_Store\<close>, then each writer in turn: reconciler, pipeline, gateway), and the
  write-once cell, which checkpoints, purchases and bridge submissions refine.
  \<open>Refusing\<close> ports state that something never happens: a program that behaves the same when a port is replaced by one
  that throws, or one that answers only permitted calls (\<open>only_if\<close>, \<open>checked_\<dots>\<close>), never calls the port otherwise.

  \<^bold>\<open>Bounds.\<close>  Integers are unbounded where the code has \<open>BigInt\<close>; the code's \<open>number\<close>s are integers here, exact up to
  \<open>2 ^ 53\<close>, and they hold revisions, counters, status codes, chain ids and times in milliseconds only.  Times print and
  parse in the years 1970 to 9999.  Strings are lists of code units up to \<open>0xFF\<close>.  Redirects of the guarded fetch are
  limited by the code's own bound, which is the fuel of \<open>egress_loop\<close>; every other recursion is structural or has a
  termination proof, and worker loops are taken one round at a time.

  \<^bold>\<open>Not modelled.\<close>  The composition roots and the wiring of the servers construct the parts and poll; the frameworks
  (Fastify's own replies, React, zod's messages) and the libraries of chains and of signatures are not code of the
  repository, and the functions that only call them (the chain reader, the merchant services, the typed HTTP client of the
  dashboard, the ports of the contracts) have no decision of their own beyond what the ports' laws state.  The web
  dashboard is presentation, the demonstration targets are the counterparties of a run and not part of its correctness.
  What remains of the persistence are single-row stores and the pool.
\<close>

end
